(* ===== verification/Go_Prelude.thy ===== *)
theory Go_Prelude
  imports Main "HOL-Library.Sublist"
begin

text \<open>
  What the components share: the Go values and library routines the operator uses (errors
  that carry a kind through \<^verbatim>\<open>fmt.Errorf("...: %w", err)\<close>, byte strings, decimal integers,
  maps), the result of a reconcile pass, and the lemmas on them that the component proofs use.

  Conventions.  A Go \<^verbatim>\<open>string\<close> is a \<open>string\<close> (a list of bytes), a pointer that may be nil
  is an \<open>option\<close>, \<^verbatim>\<open>error\<close> is \<open>go_error option\<close> (\<open>None\<close> is nil), a pair \<^verbatim>\<open>(T, error)\<close>
  is \<open>go_error + 'a\<close>, and a Go map is a partial function.  \<^verbatim>\<open>int\<close> and \<^verbatim>\<open>int64\<close> values that
  are only copied, compared and counted are \<open>int\<close>.  A \<^verbatim>\<open>time.Time\<close> or \<^verbatim>\<open>time.Duration\<close>
  is an \<open>int\<close> number of nanoseconds.
\<close>

named_theorems go_str "evaluation rules for Go string routines"
named_theorems go_err "rules for error kinds"

section \<open>Errors\<close>

text \<open>
  \<^verbatim>\<open>apierrors.IsNotFound\<close> and \<^verbatim>\<open>uyuni.IsNotFound\<close> both use \<^verbatim>\<open>errors.As\<close>, so a wrapped
  error keeps its kind.
\<close>

datatype err_kind = PlainErr | K8sNotFound | UyuniNotFound

datatype go_error = GoErr (err_kind: err_kind) (err_text: string)

definition errorf :: "string \<Rightarrow> go_error" where
  "errorf s = GoErr PlainErr s"

definition wrap_err :: "string \<Rightarrow> go_error \<Rightarrow> go_error" where
  "wrap_err pre e = GoErr (err_kind e) (pre @ err_text e)"

definition is_k8s_not_found :: "go_error \<Rightarrow> bool" where
  "is_k8s_not_found e = (err_kind e = K8sNotFound)"

definition is_uyuni_not_found :: "go_error \<Rightarrow> bool" where
  "is_uyuni_not_found e = (err_kind e = UyuniNotFound)"

definition ignore_not_found :: "go_error \<Rightarrow> go_error option" where
  "ignore_not_found e = (if is_k8s_not_found e then None else Some e)"

lemma is_k8s_not_found_simps [simp, go_err]:
  "is_k8s_not_found (GoErr k s) = (k = K8sNotFound)"
  by (simp add: is_k8s_not_found_def)

lemma is_uyuni_not_found_simps [simp, go_err]:
  "is_uyuni_not_found (GoErr k s) = (k = UyuniNotFound)"
  by (simp add: is_uyuni_not_found_def)

lemma wrap_err_kind [simp, go_err]:
  "err_kind (wrap_err s e) = err_kind e"
  "is_k8s_not_found (wrap_err s e) = is_k8s_not_found e"
  "is_uyuni_not_found (wrap_err s e) = is_uyuni_not_found e"
  by (simp_all add: wrap_err_def is_k8s_not_found_def is_uyuni_not_found_def)

lemma errorf_kind [simp, go_err]:
  "err_kind (errorf s) = PlainErr" "\<not> is_k8s_not_found (errorf s)"
  "\<not> is_uyuni_not_found (errorf s)" "err_text (errorf s) = s"
  by (simp_all add: errorf_def)

lemma ignore_not_found_None [simp, go_err]:
  "(ignore_not_found e = None) = is_k8s_not_found e"
  by (simp add: ignore_not_found_def)

lemma ignore_not_found_Some [simp, go_err]:
  "(ignore_not_found e = Some e') = (\<not> is_k8s_not_found e \<and> e' = e)"
  by (auto simp: ignore_not_found_def)

section \<open>Strings\<close>

definition has_prefix :: "string \<Rightarrow> string \<Rightarrow> bool" where
  "has_prefix s p = (take (length p) s = p)"

definition has_suffix :: "string \<Rightarrow> string \<Rightarrow> bool" where
  "has_suffix s x = (length x \<le> length s \<and> drop (length s - length x) s = x)"

definition cut_prefix :: "string \<Rightarrow> string \<Rightarrow> string option" where
  "cut_prefix s p = (if has_prefix s p then Some (drop (length p) s) else None)"

fun str_contains :: "string \<Rightarrow> string \<Rightarrow> bool" where
  "str_contains [] sub = (sub = [])"
| "str_contains (c # cs) sub = (has_prefix (c # cs) sub \<or> str_contains cs sub)"

text \<open>\<^verbatim>\<open>strings.Cut(s, string(c))\<close> for a one-byte separator.\<close>

definition str_cut :: "char \<Rightarrow> string \<Rightarrow> (string \<times> string) option" where
  "str_cut c s = (if c \<in> set s
     then Some (takeWhile (\<lambda>x. x \<noteq> c) s, tl (dropWhile (\<lambda>x. x \<noteq> c) s)) else None)"

text \<open>\<^verbatim>\<open>strings.Split(s, string(c))\<close>: never empty, \<open>split_on c [] = [[]]\<close>.\<close>

fun split_on :: "char \<Rightarrow> string \<Rightarrow> string list" where
  "split_on c [] = [[]]"
| "split_on c (x # xs) =
     (if x = c then [] # split_on c xs
      else (case split_on c xs of [] \<Rightarrow> [[x]] | w # ws \<Rightarrow> (x # w) # ws))"

definition to_upper_char :: "char \<Rightarrow> char" where
  "to_upper_char c = (let n = (of_char c :: nat) in
     if 97 \<le> n \<and> n \<le> 122 then char_of (n - 32) else c)"

definition to_upper :: "string \<Rightarrow> string" where
  "to_upper s = map to_upper_char s"

lemma has_prefix_append [simp, go_str]: "has_prefix (p @ s) p"
  by (simp add: has_prefix_def)

lemma has_prefix_iff: "has_prefix s p \<longleftrightarrow> (\<exists>r. s = p @ r)"
  unfolding has_prefix_def by (metis append_eq_conv_conj append_take_drop_id)

lemma has_suffix_iff: "has_suffix s x \<longleftrightarrow> (\<exists>r. s = r @ x)"
proof
  assume "has_suffix s x"
  then have "s = take (length s - length x) s @ x"
    unfolding has_suffix_def by (metis append_take_drop_id)
  then show "\<exists>r. s = r @ x" ..
next
  assume "\<exists>r. s = r @ x"
  then show "has_suffix s x" by (auto simp: has_suffix_def)
qed

lemma str_contains_iff: "str_contains s sub \<longleftrightarrow> (\<exists>a b. s = a @ sub @ b)"
proof (induction s)
  case Nil
  then show ?case by simp
next
  case (Cons c cs)
  have "(\<exists>a b. c # cs = a @ sub @ b) \<longleftrightarrow>
      (\<exists>b. c # cs = sub @ b) \<or> (\<exists>a b. cs = a @ sub @ b)"
    by (metis append_Cons append_Nil list.exhaust list.sel(3))
  then show ?case using Cons.IH by (simp add: has_prefix_iff)
qed

lemma str_contains_self_append [simp]: "str_contains (a @ sub @ b) sub"
  by (auto simp: str_contains_iff)

lemma split_on_nonempty [simp]: "split_on c s \<noteq> []"
  by (induction s) (auto split: list.splits)

lemma split_on_no_sep: "c \<notin> set s \<Longrightarrow> split_on c s = [s]"
  by (induction s) auto

lemma split_on_append_sep:
  "c \<notin> set a \<Longrightarrow> split_on c (a @ c # b) = a # split_on c b"
  by (induction a) auto

section \<open>Decimal integers\<close>

fun nat_digits :: "nat \<Rightarrow> string" where
  "nat_digits n = (if n < 10 then [char_of (48 + n)]
     else nat_digits (n div 10) @ [char_of (48 + n mod 10)])"

declare nat_digits.simps [simp del]

text \<open>\<^verbatim>\<open>strconv.Itoa\<close> and the \<^verbatim>\<open>%d\<close> verb.\<close>

definition itoa :: "int \<Rightarrow> string" where
  "itoa i = (if i < 0 then CHR ''-'' # nat_digits (nat (- i)) else nat_digits (nat i))"

definition is_digit :: "char \<Rightarrow> bool" where
  "is_digit c = (48 \<le> (of_char c :: nat) \<and> (of_char c :: nat) \<le> 57)"

fun digits_val :: "nat \<Rightarrow> string \<Rightarrow> nat" where
  "digits_val acc [] = acc"
| "digits_val acc (c # cs) = digits_val (10 * acc + (of_char c - 48)) cs"

text \<open>
  \<^verbatim>\<open>strconv.Atoi\<close>: an optional sign, at least one digit, nothing else, and a value that fits
  a signed 64-bit \<^verbatim>\<open>int\<close>; anything else is an error.
\<close>

definition atoi :: "string \<Rightarrow> int option" where
  "atoi s = (let neg = (s \<noteq> [] \<and> hd s = CHR ''-'');
                 ds = (if s \<noteq> [] \<and> (hd s = CHR ''-'' \<or> hd s = CHR ''+'') then tl s else s);
                 v = (if neg then - int (digits_val 0 ds) else int (digits_val 0 ds))
     in if ds \<noteq> [] \<and> list_all is_digit ds \<and> - (2 ^ 63) \<le> v \<and> v < 2 ^ 63
        then Some v else None)"

lemma digit_of_char [simp]: "n < 10 \<Longrightarrow> (of_char (char_of (48 + n :: nat) :: char) :: nat) = 48 + n"
  by simp

lemma is_digit_char [simp]: "n < 10 \<Longrightarrow> is_digit (char_of (48 + n :: nat))"
  by (simp add: is_digit_def)

lemma nat_digits_nonempty [simp]: "nat_digits n \<noteq> []"
  by (subst nat_digits.simps) simp

lemma nat_digits_all_digits: "list_all is_digit (nat_digits n)"
proof (induction n rule: nat_digits.induct)
  case (1 n)
  then show ?case by (subst nat_digits.simps) auto
qed

lemma digits_val_append: "digits_val acc (xs @ [c]) = 10 * digits_val acc xs + (of_char c - 48)"
  by (induction xs arbitrary: acc) auto

lemma digits_val_nat_digits: "digits_val 0 (nat_digits n) = n"
proof (induction n rule: nat_digits.induct)
  case (1 n)
  show ?case
  proof (cases "n < 10")
    case True
    then show ?thesis by (subst nat_digits.simps) simp
  next
    case False
    then show ?thesis
      using "1" by (subst nat_digits.simps) (simp add: digits_val_append)
  qed
qed

lemma is_digit_sign: "\<not> is_digit (CHR ''-'')" "\<not> is_digit (CHR ''+'')"
  by (simp_all add: is_digit_def)

lemma hd_nat_digits: "is_digit (hd (nat_digits n))"
  using nat_digits_all_digits [of n] nat_digits_nonempty [of n]
  by (cases "nat_digits n") auto

lemma atoi_itoa: "- (2 ^ 63) \<le> i \<Longrightarrow> i < 2 ^ 63 \<Longrightarrow> atoi (itoa i) = Some i"
  using hd_nat_digits [of "nat i"] is_digit_sign
  by (auto simp: atoi_def itoa_def Let_def digits_val_nat_digits nat_digits_all_digits)

section \<open>Printing\<close>

text \<open>The \<^verbatim>\<open>%q\<close> verb on printable text, and \<^verbatim>\<open>%v\<close> of a string slice.\<close>

definition quote_char :: "char \<Rightarrow> string" where
  "quote_char c = (if c = CHR 0x22 \<or> c = CHR 0x5C then [CHR 0x5C, c] else [c])"

definition go_quote :: "string \<Rightarrow> string" where
  "go_quote s = [CHR 0x22] @ concat (map quote_char s) @ [CHR 0x22]"

fun join_space :: "string list \<Rightarrow> string" where
  "join_space [] = []"
| "join_space [x] = x"
| "join_space (x # y # ys) = x @ '' '' @ join_space (y # ys)"

definition show_slice :: "string list \<Rightarrow> string" where
  "show_slice xs = ''['' @ join_space xs @ '']''"

section \<open>Maps and slices\<close>

text \<open>Reading a Go map at an absent key gives the zero value.\<close>

definition map_get :: "('k \<rightharpoonup> 'v) \<Rightarrow> 'v \<Rightarrow> 'k \<Rightarrow> 'v" where
  "map_get m z k = (case m k of None \<Rightarrow> z | Some v \<Rightarrow> v)"

lemma map_get_upd [simp]: "map_get (m(k \<mapsto> v)) z k' = (if k' = k then v else map_get m z k')"
  by (simp add: map_get_def)

lemma map_get_empty [simp]: "map_get Map.empty z k = z"
  by (simp add: map_get_def)

text \<open>The elements of a slice with their indices, as \<^verbatim>\<open>for i, x := range xs\<close> visits them.\<close>

definition indexed :: "'a list \<Rightarrow> (nat \<times> 'a) list" where
  "indexed xs = zip [0..<length xs] xs"

lemma in_set_indexed [simp]: "(i, x) \<in> set (indexed xs) \<longleftrightarrow> i < length xs \<and> x = xs ! i"
  unfolding indexed_def in_set_zip
  by (metis (no_types, lifting) add_0 diff_zero fst_conv length_upt nth_upt snd_conv)

lemma map_snd_indexed [simp]: "map snd (indexed xs) = xs"
  by (simp add: indexed_def)

lemma map_fst_indexed [simp]: "map fst (indexed xs) = [0..<length xs]"
  by (simp add: indexed_def)

lemma indexed_Nil [simp]: "indexed [] = []"
  by (simp add: indexed_def)

lemma indexed_eq_Nil [simp]: "(indexed xs = []) = (xs = [])"
  by (simp add: indexed_def)

section \<open>Reconcile results\<close>

text \<open>\<^verbatim>\<open>ctrl.Result\<close>; durations in nanoseconds.\<close>

record ctrl_result =
  requeue :: bool
  requeue_after :: int

definition result_done :: ctrl_result where
  "result_done = \<lparr>requeue = False, requeue_after = 0\<rparr>"

definition result_requeue :: ctrl_result where
  "result_requeue = \<lparr>requeue = True, requeue_after = 0\<rparr>"

definition result_after :: "int \<Rightarrow> ctrl_result" where
  "result_after d = \<lparr>requeue = False, requeue_after = d\<rparr>"

abbreviation second :: int where
  "second \<equiv> 1000000000"

abbreviation minute :: int where
  "minute \<equiv> 60000000000"

lemma ctrl_result_distinct [simp]:
  "result_done \<noteq> result_requeue" "result_requeue \<noteq> result_done"
  "d \<noteq> 0 \<Longrightarrow> result_after d \<noteq> result_done"
  by (simp_all add: result_done_def result_requeue_def result_after_def)

end
