(* ===== verification/K8s_Objects.thy ===== *)
theory K8s_Objects
  imports Go_Prelude
begin

text \<open>
  The Kubernetes side every component shares: object metadata, conditions, owner references,
  the reference types of \<^verbatim>\<open>api/v1alpha1/common_types.go\<close>, the annotation names, and the helpers
  of \<^verbatim>\<open>internal/controller\<close> that work on any object: \<^verbatim>\<open>finalizers.go\<close>, \<^verbatim>\<open>conditions.go\<close>,
  \<^verbatim>\<open>annotations.go\<close> and the small helpers of \<^verbatim>\<open>constants.go\<close>.

  \<^verbatim>\<open>client.Object\<close> is the Go interface behind which the helpers see an object.  Here every
  custom resource extends the record \<open>k8s_object\<close>, and a helper is polymorphic in the extension.
\<close>

section \<open>Metadata\<close>

record owner_ref =
  or_api_version :: string
  or_kind :: string
  or_name :: string
  or_uid :: string
  or_block_owner_deletion :: bool

record condition =
  cond_type :: string
  cond_status :: bool
  cond_reason :: string
  cond_message :: string
  cond_observed_generation :: int

text \<open>\<^verbatim>\<open>deletion_timestamp\<close> is \<^verbatim>\<open>!DeletionTimestamp.IsZero()\<close>.\<close>

record k8s_object =
  obj_name :: string
  obj_namespace :: string
  obj_uid :: string
  obj_generation :: int
  obj_deleting :: bool
  obj_created :: int
  obj_annotations :: "string \<rightharpoonup> string"
  obj_finalizers :: "string list"
  obj_owners :: "owner_ref list"

definition mk_object :: "string \<Rightarrow> string \<Rightarrow> k8s_object" where
  "mk_object ns n = \<lparr>obj_name = n, obj_namespace = ns, obj_uid = n @ ''-uid'',
     obj_generation = 1, obj_deleting = False, obj_created = 0, obj_annotations = Map.empty,
     obj_finalizers = [], obj_owners = []\<rparr>"

text \<open>
  Reads of the API server: \<^verbatim>\<open>Client.Get\<close> by namespace and name, \<^verbatim>\<open>Client.List\<close> in a
  namespace.  An absent object is an error of kind \<open>K8sNotFound\<close>.
\<close>

type_synonym 'a k8s_get = "string \<Rightarrow> string \<Rightarrow> go_error + 'a"

type_synonym 'a k8s_list = "string \<Rightarrow> go_error + 'a list"

section \<open>API group, annotations, finalizer names\<close>

definition Group :: string where
  "Group = ''uyuni.uyuni-project.org''"

definition group_version :: string where
  "group_version = Group @ ''/v1alpha1''"

definition AnnForceDelete :: string where
  "AnnForceDelete = Group @ ''/force-delete''"

definition AnnRerun :: string where
  "AnnRerun = Group @ ''/rerun''"

definition AnnBuildNow :: string where
  "AnnBuildNow = Group @ ''/build-now''"

definition AnnReinstallNow :: string where
  "AnnReinstallNow = Group @ ''/reinstall-now''"

definition AnnSyncNow :: string where
  "AnnSyncNow = Group @ ''/sync-now''"

definition AnnBuildVersion :: string where
  "AnnBuildVersion = Group @ ''/build-version''"

definition AnnBuildTrigger :: string where
  "AnnBuildTrigger = Group @ ''/build-trigger''"

definition AnnApplyFormulaValues :: string where
  "AnnApplyFormulaValues = Group @ ''/apply-formula-values''"

definition AnnRegenerate :: string where
  "AnnRegenerate = Group @ ''/regenerate''"

definition AnnRefreshNow :: string where
  "AnnRefreshNow = Group @ ''/refresh-now''"

definition AnnNetboot :: string where
  "AnnNetboot = Group @ ''/netboot''"

definition cpFinalizer :: string where
  "cpFinalizer = Group @ ''/contentproject''"

definition taskFinalizer :: string where
  "taskFinalizer = Group @ ''/task''"

definition orgFinalizer :: string where
  "orgFinalizer = Group @ ''/organization''"

definition clmEnvFinalizer :: string where
  "clmEnvFinalizer = Group @ ''/clmenvironment''"

definition sysFinalizer :: string where
  "sysFinalizer = Group @ ''/system''"

definition sgFinalizer :: string where
  "sgFinalizer = Group @ ''/systemgroup''"

definition akFinalizer :: string where
  "akFinalizer = Group @ ''/activationkey''"

definition scFinalizer :: string where
  "scFinalizer = Group @ ''/softwarechannel''"

definition repoFinalizer :: string where
  "repoFinalizer = Group @ ''/repository''"

definition confChanFinalizer :: string where
  "confChanFinalizer = Group @ ''/configurationchannel''"

definition cfFinalizer :: string where
  "cfFinalizer = Group @ ''/configfile''"

definition isFinalizer :: string where
  "isFinalizer = Group @ ''/imagestore''"

definition ipFinalizer :: string where
  "ipFinalizer = Group @ ''/imageprofile''"

definition adFinalizer :: string where
  "adFinalizer = Group @ ''/autoinstalldistribution''"

definition apFinalizer :: string where
  "apFinalizer = Group @ ''/autoinstallprofile''"

definition ibFinalizer :: string where
  "ibFinalizer = Group @ ''/imagebuild''"

definition cikFinalizer :: string where
  "cikFinalizer = Group @ ''/custominfokey''"

definition cobSysFinalizer :: string where
  "cobSysFinalizer = Group @ ''/cobblersystem''"

definition cobDistFinalizer :: string where
  "cobDistFinalizer = Group @ ''/cobblerdistro''"

definition cobProfFinalizer :: string where
  "cobProfFinalizer = Group @ ''/cobblerprofile''"

definition proxyFinalizer :: string where
  "proxyFinalizer = Group @ ''/proxy''"

definition mcalFinalizer :: string where
  "mcalFinalizer = Group @ ''/maintenancecalendar''"

definition mschedFinalizer :: string where
  "mschedFinalizer = Group @ ''/maintenanceschedule''"

section \<open>References (\<^verbatim>\<open>common_types.go\<close>)\<close>

record local_object_ref =
  lor_name :: string

record secret_key_ref =
  skr_name :: string
  skr_key :: string

record config_map_key_ref =
  cmr_name :: string
  cmr_key :: string

record object_field_ref =
  ofr_api_version :: string
  ofr_kind :: string
  ofr_name :: string
  ofr_field_path :: string

record channel_from_project =
  cfp_project_ref :: local_object_ref
  cfp_environment :: string
  cfp_source_label :: string

section \<open>Finalizers (\<^verbatim>\<open>finalizers.go\<close>)\<close>

definition containsFinalizer :: "('a) k8s_object_scheme \<Rightarrow> string \<Rightarrow> bool" where
  "containsFinalizer obj current = list_ex (\<lambda>f. f = current) (obj_finalizers obj)"

definition ensureFinalizer ::
  "('a) k8s_object_scheme \<Rightarrow> string \<Rightarrow> bool \<times> ('a) k8s_object_scheme" where
  "ensureFinalizer obj current =
     (if list_ex (\<lambda>f. f = current) (obj_finalizers obj) then (False, obj)
      else (True, obj\<lparr>obj_finalizers := obj_finalizers obj @ [current]\<rparr>))"

definition removeFinalizer ::
  "('a) k8s_object_scheme \<Rightarrow> string \<Rightarrow> ('a) k8s_object_scheme" where
  "removeFinalizer obj current =
     obj\<lparr>obj_finalizers := filter (\<lambda>f. f \<noteq> current) (obj_finalizers obj)\<rparr>"

lemma containsFinalizer_iff [simp]:
  "containsFinalizer obj f \<longleftrightarrow> f \<in> set (obj_finalizers obj)"
  by (auto simp: containsFinalizer_def list_ex_iff)

lemma ensureFinalizer_simps [simp]:
  "fst (ensureFinalizer obj f) \<longleftrightarrow> f \<notin> set (obj_finalizers obj)"
  "set (obj_finalizers (snd (ensureFinalizer obj f))) = insert f (set (obj_finalizers obj))"
  "obj_annotations (snd (ensureFinalizer obj f)) = obj_annotations obj"
  "obj_owners (snd (ensureFinalizer obj f)) = obj_owners obj"
  by (auto simp: ensureFinalizer_def list_ex_iff)

lemma removeFinalizer_set [simp]:
  "set (obj_finalizers (removeFinalizer obj f)) = set (obj_finalizers obj) - {f}"
  by (auto simp: removeFinalizer_def)

lemma filter_neq_id: "x \<notin> set xs \<Longrightarrow> filter (\<lambda>y. y \<noteq> x) xs = xs"
  by (induction xs) auto

text \<open>Removing a finalizer that was absent before undoes adding it.\<close>

lemma remove_ensure_finalizer:
  "f \<notin> set (obj_finalizers obj) \<Longrightarrow> removeFinalizer (snd (ensureFinalizer obj f)) f = obj"
  by (auto simp: ensureFinalizer_def removeFinalizer_def list_ex_iff filter_neq_id)

section \<open>Conditions (\<^verbatim>\<open>conditions.go\<close>)\<close>

text \<open>
  \<^verbatim>\<open>meta.SetStatusCondition\<close> is apimachinery code: a parameter \<open>ssc\<close>, used through the law
  \<open>condition_law\<close>, which is its documented effect (the condition of that type is the one given,
  those of other types are kept).
\<close>

type_synonym set_cond = "condition list \<Rightarrow> condition \<Rightarrow> condition list"

definition find_cond :: "string \<Rightarrow> condition list \<Rightarrow> condition option" where
  "find_cond t cs = find (\<lambda>c. cond_type c = t) cs"

definition condition_law :: "set_cond \<Rightarrow> bool" where
  "condition_law ssc = (\<forall>cs c. find_cond (cond_type c) (ssc cs c) = Some c \<and>
     (\<forall>t. t \<noteq> cond_type c \<longrightarrow> find_cond t (ssc cs c) = find_cond t cs))"

definition setCondition ::
  "set_cond \<Rightarrow> condition list \<Rightarrow> string \<Rightarrow> bool \<Rightarrow> int \<Rightarrow> string \<Rightarrow> string \<Rightarrow> condition list" where
  "setCondition ssc conds condType status observedGen reason message =
     ssc conds \<lparr>cond_type = condType, cond_status = status, cond_reason = reason,
       cond_message = message, cond_observed_generation = observedGen\<rparr>"

definition setReady ::
  "set_cond \<Rightarrow> condition list \<Rightarrow> int \<Rightarrow> bool \<Rightarrow> string \<Rightarrow> string \<Rightarrow> condition list" where
  "setReady ssc conds observedGen status reason message =
     setCondition ssc conds ''Ready'' status observedGen reason message"

definition setDrift ::
  "set_cond \<Rightarrow> condition list \<Rightarrow> int \<Rightarrow> bool \<Rightarrow> string \<Rightarrow> string \<Rightarrow> condition list" where
  "setDrift ssc conds observedGen drifted reason message =
     setCondition ssc conds ''UyuniDrift'' drifted observedGen reason message"

definition setPackagesSynced ::
  "set_cond \<Rightarrow> condition list \<Rightarrow> int \<Rightarrow> bool \<Rightarrow> string \<Rightarrow> string \<Rightarrow> condition list" where
  "setPackagesSynced ssc conds observedGen synced reason message =
     setCondition ssc conds ''PackagesSynced'' synced observedGen reason message"

text \<open>A concrete implementation of the law, used to instantiate the parameter in witnesses.\<close>

fun replace_cond :: set_cond where
  "replace_cond [] c = [c]"
| "replace_cond (d # ds) c = (if cond_type d = cond_type c then c # ds else d # replace_cond ds c)"

lemma replace_cond_law: "condition_law replace_cond"
  unfolding condition_law_def
proof (intro allI conjI impI)
  fix cs c t
  show "find_cond (cond_type c) (replace_cond cs c) = Some c"
    by (induction cs) (auto simp: find_cond_def)
  show "find_cond t (replace_cond cs c) = find_cond t cs" if "t \<noteq> cond_type c"
    using that by (induction cs) (auto simp: find_cond_def)
qed

lemma condition_lawD:
  "condition_law ssc \<Longrightarrow> cond_type c = t \<Longrightarrow> find_cond t (ssc cs c) = Some c"
  "condition_law ssc \<Longrightarrow> cond_type c \<noteq> t \<Longrightarrow> find_cond t (ssc cs c) = find_cond t cs"
  by (auto simp: condition_law_def)

lemma setReady_Ready:
  "condition_law ssc \<Longrightarrow> find_cond ''Ready'' (setReady ssc cs g st r m) =
     Some \<lparr>cond_type = ''Ready'', cond_status = st, cond_reason = r, cond_message = m,
       cond_observed_generation = g\<rparr>"
  by (simp add: setReady_def setCondition_def condition_lawD)

lemma setDrift_keeps_Ready:
  assumes "condition_law ssc"
  shows "find_cond ''Ready'' (setDrift ssc cs g d r m) = find_cond ''Ready'' cs"
  using assms by (simp add: setDrift_def setCondition_def condition_lawD)

section \<open>Legacy annotations (\<^verbatim>\<open>annotations.go\<close>)\<close>

definition legacyAnnotationMap :: "(string \<times> string) list" where
  "legacyAnnotationMap =
    [(''uyuni.io/force-delete'', ''uyuni.uyuni-project.org/force-delete''),
     (''uyuni.io/rerun'', ''uyuni.uyuni-project.org/rerun''),
     (''uyuni.io/build-now'', ''uyuni.uyuni-project.org/build-now''),
     (''uyuni.io/sync-now'', ''uyuni.uyuni-project.org/sync-now''),
     (''uyuni.io/build-version'', ''uyuni.uyuni-project.org/build-version''),
     (''uyuni.io/reinstall-now'', ''uyuni.uyuni-project.org/reinstall-now'')]"

text \<open>
  The loop of \<^verbatim>\<open>migrateAnnotations\<close> ranges over a Go map, whose order changes from run to run:
  \<open>order\<close> is the order of one run, any permutation of \<open>legacyAnnotationMap\<close>.  (The early return
  on an empty annotation map is what the loop does on it.)
\<close>

fun migrate_loop ::
  "(string \<times> string) list \<Rightarrow> (string \<rightharpoonup> string) \<Rightarrow> bool \<Rightarrow> (string \<rightharpoonup> string) \<times> bool" where
  "migrate_loop [] anns changed = (anns, changed)"
| "migrate_loop ((old, current) # rest) anns changed =
     (case anns old of
        None \<Rightarrow> migrate_loop rest anns changed
      | Some v \<Rightarrow> migrate_loop rest ((anns(old := None))(current \<mapsto> v)) True)"

definition migrateAnnotations ::
  "(string \<times> string) list \<Rightarrow> ('a) k8s_object_scheme \<Rightarrow> bool \<times> ('a) k8s_object_scheme" where
  "migrateAnnotations order obj =
     (let (anns, changed) = migrate_loop order (obj_annotations obj) False
      in if changed then (True, obj\<lparr>obj_annotations := anns\<rparr>) else (False, obj))"

text \<open>What a migrated annotation map holds, for any list of renamings with disjoint names.\<close>

definition migrated :: "(string \<times> string) list \<Rightarrow> (string \<rightharpoonup> string) \<Rightarrow> (string \<rightharpoonup> string)" where
  "migrated ren anns k =
     (if k \<in> fst ` set ren then None
      else case map_of (map prod.swap ren) k of
        None \<Rightarrow> anns k
      | Some old \<Rightarrow> (case anns old of None \<Rightarrow> anns k | Some v \<Rightarrow> Some v))"

definition renaming_ok :: "(string \<times> string) list \<Rightarrow> bool" where
  "renaming_ok ren = (distinct (map fst ren) \<and> distinct (map snd ren) \<and>
     fst ` set ren \<inter> snd ` set ren = {})"

lemma map_of_swap_notin: "k \<notin> snd ` set ren \<Longrightarrow> map_of (map prod.swap ren) k = None"
  by (induction ren) auto

lemma map_of_swap_SomeD: "map_of (map prod.swap ren) k = Some o' \<Longrightarrow> o' \<in> fst ` set ren"
  by (drule map_of_SomeD) force

lemma renaming_ok_Cons:
  "renaming_ok ((old, cur) # ren) \<longleftrightarrow> renaming_ok ren \<and> old \<notin> fst ` set ren \<and> cur \<notin> snd ` set ren \<and>
     cur \<notin> fst ` set ren \<and> old \<notin> snd ` set ren \<and> old \<noteq> cur"
  by (auto simp: renaming_ok_def)

lemma migrate_loop_fst:
  "renaming_ok ren \<Longrightarrow> fst (migrate_loop ren anns ch) = migrated ren anns"
proof (induction ren arbitrary: anns ch)
  case Nil
  show ?case by (auto simp: migrated_def)
next
  case (Cons p ren)
  obtain old cur where p: "p = (old, cur)" by (cases p)
  from Cons.prems p have ok: "renaming_ok ren"
    and fresh: "old \<notin> fst ` set ren" "cur \<notin> snd ` set ren" "cur \<notin> fst ` set ren"
      "old \<notin> snd ` set ren" "old \<noteq> cur"
    by (simp_all add: renaming_ok_Cons)
  have no_old: "\<And>k o'. map_of (map prod.swap ren) k = Some o' \<Longrightarrow> o' \<noteq> old \<and> o' \<noteq> cur"
    using fresh map_of_swap_SomeD by metis
  show ?case
  proof (cases "anns old")
    case None
    have "migrated ((old, cur) # ren) anns k = migrated ren anns k" for k
      by (cases "k = old"; cases "k = cur")
        (use None fresh in \<open>simp_all add: migrated_def map_of_swap_notin\<close>)
    then show ?thesis using Cons.IH [OF ok] None p by (simp add: fun_eq_iff)
  next
    case (Some v)
    have "migrated ((old, cur) # ren) anns k = migrated ren ((anns(old := None))(cur \<mapsto> v)) k" for k
    proof (cases "k = old \<or> k = cur")
      case True
      then show ?thesis using Some fresh by (auto simp: migrated_def map_of_swap_notin)
    next
      case False
      then show ?thesis
        by (cases "map_of (map prod.swap ren) k") (use fresh no_old in \<open>auto simp: migrated_def split: option.split\<close>)
    qed
    then have "migrated ((old, cur) # ren) anns = migrated ren ((anns(old := None))(cur \<mapsto> v))"
      by (rule ext)
    then show ?thesis using Cons.IH [OF ok] Some p by (simp add: fun_upd_def)
  qed
qed

lemma migrate_loop_snd:
  "renaming_ok ren \<Longrightarrow>
     snd (migrate_loop ren anns ch) \<longleftrightarrow> ch \<or> (\<exists>old \<in> fst ` set ren. anns old \<noteq> None)"
proof (induction ren arbitrary: anns ch)
  case Nil
  show ?case by simp
next
  case (Cons p ren)
  obtain old cur where p: "p = (old, cur)" by (cases p)
  from Cons.prems p have ok: "renaming_ok ren" by (auto simp: renaming_ok_def)
  show ?case using Cons.IH [OF ok] p by (auto split: option.splits)
qed

lemma renaming_ok_perm:
  "set ord = set ren \<Longrightarrow> length ord = length ren \<Longrightarrow> renaming_ok ren \<Longrightarrow> renaming_ok ord"
  unfolding renaming_ok_def
  by (metis card_distinct distinct_card length_map set_map)

lemma migrated_perm:
  assumes "set ord = set ren" "renaming_ok ren" "renaming_ok ord"
  shows "migrated ord anns = migrated ren anns"
proof -
  have "map_of (map prod.swap ord) = map_of (map prod.swap ren)"
    using assms by (subst map_of_inject_set) (auto simp: renaming_ok_def comp_def)
  then show ?thesis using assms(1) by (simp add: migrated_def fun_eq_iff)
qed

lemma legacy_renaming_ok: "renaming_ok legacyAnnotationMap"
  by (simp add: renaming_ok_def legacyAnnotationMap_def)

section \<open>Small helpers (\<^verbatim>\<open>constants.go\<close>)\<close>

definition orgRef :: "local_object_ref option \<Rightarrow> string" where
  "orgRef ref = (case ref of None \<Rightarrow> '''' | Some r \<Rightarrow> lor_name r)"

definition toProviderRef :: "local_object_ref option \<Rightarrow> local_object_ref option" where
  "toProviderRef ref = (case ref of None \<Rightarrow> None | Some r \<Rightarrow> Some \<lparr>lor_name = lor_name r\<rparr>)"

definition rescheduleStrategyOrDefault :: "string \<Rightarrow> string" where
  "rescheduleStrategyOrDefault s = (if s = '''' then ''Cancel'' else s)"

definition has_annotation :: "('a) k8s_object_scheme \<Rightarrow> string \<Rightarrow> bool" where
  "has_annotation obj a = (map_get (obj_annotations obj) '''' a = ''true'')"

end
