(* ===== verification/Api_Projects.thy ===== *)
theory Api_Projects
  imports K8s_Objects
begin

text \<open>
  The custom resources of content lifecycle management and of tasks, as
  \<^verbatim>\<open>api/v1alpha1/contentproject_types.go\<close>, \<^verbatim>\<open>clmenvironment_types.go\<close> and \<^verbatim>\<open>task_types.go\<close>
  declare them: one record per struct, one field per field.  A \<^verbatim>\<open>*metav1.Time\<close> is an
  \<open>int option\<close> and a \<^verbatim>\<open>metav1.Duration\<close> an \<open>int\<close> (nanoseconds).
\<close>

section \<open>ContentProject\<close>

record project_environment =
  pe_label :: string
  pe_name :: string
  pe_description :: string
  pe_predecessor :: string

record filter_criteria =
  fc_field :: string
  fc_matcher :: string
  fc_value :: string

record project_filter =
  pf_name :: string
  pf_type :: string
  pf_criteria :: filter_criteria
  pf_rule :: string

record project_build_policy =
  bp_auto_build_sources :: bool
  bp_schedule :: string
  bp_message :: string

record channel_config =
  cc_base_refs :: "local_object_ref list"
  cc_child_refs :: "local_object_ref list"

record content_project_spec =
  cp_label :: string
  cp_name :: string
  cp_description :: string
  cp_source_refs :: "local_object_ref list"
  cp_channels :: "channel_config option"
  cp_environments :: "project_environment list"
  cp_filters :: "project_filter list"
  cp_build :: project_build_policy
  cp_organization_ref :: "local_object_ref option"

record environment_state =
  es_label :: string
  es_name :: string
  es_built_version :: int
  es_built_at :: "int option"
  es_derived_channels :: "string list"

text \<open>
  \<^verbatim>\<open>FilterIDs\<close> is a Go map.  The code ranges over it and takes its length, so it is kept as an
  association list with distinct keys; its list order is the iteration order of the run.
\<close>

record content_project_status =
  cps_uyuni_id :: int
  cps_attached_sources :: "string list"
  cps_filter_ids :: "(string \<times> int) list"
  cps_environment_states :: "environment_state list"
  cps_last_build_action_id :: int
  cps_last_build_started_at :: "int option"
  cps_last_build_fingerprint :: string
  cps_build_status :: string
  cps_observed_generation :: int
  cps_conditions :: "condition list"

record content_project = k8s_object +
  cp_spec :: content_project_spec
  cp_status :: content_project_status

section \<open>ContentProjectPromotion\<close>

record promotion_spec =
  pr_project_ref :: local_object_ref
  pr_from :: string
  pr_to :: string
  pr_require_source_version :: int
  pr_not_before :: "int option"
  pr_ttl :: int
  pr_organization_ref :: "local_object_ref option"

record promotion_status =
  prs_phase :: string
  prs_promoted_version :: int
  prs_started_at :: "int option"
  prs_completed_at :: "int option"
  prs_failure_reason :: string
  prs_promotion_requested :: bool
  prs_observed_generation :: int
  prs_conditions :: "condition list"

record promotion = k8s_object +
  pr_spec :: promotion_spec
  pr_status :: promotion_status

section \<open>ClmEnvironment\<close>

record clm_environment_spec =
  env_id :: string
  env_name :: string
  env_description :: string
  env_project_ref :: local_object_ref
  env_predecessor :: string
  env_cluster :: "local_object_ref option"
  env_organization_ref :: "local_object_ref option"

record clm_environment_status =
  envs_uyuni_label :: string
  envs_state :: string
  envs_built_version :: int
  envs_conditions :: "condition list"
  envs_observed_generation :: int

record clm_environment = k8s_object +
  env_spec :: clm_environment_spec
  env_status :: clm_environment_status

section \<open>Task\<close>

record system_target =
  st_system_ref :: "local_object_ref option"
  st_system_group_ref :: "local_object_ref option"
  st_server_ids :: "int list"

record highstate_spec =
  hs_test :: bool

record remote_command_spec =
  rc_command :: string
  rc_user :: string
  rc_group :: string
  rc_timeout_seconds :: int

record reboot_spec =
  rb_delay_seconds :: int

record apply_patches_spec =
  ap_severity_at_least :: string
  ap_include_advisories :: "string list"

record task_spec =
  tk_target :: system_target
  tk_highstate :: "highstate_spec option"
  tk_remote_command :: "remote_command_spec option"
  tk_reboot :: "reboot_spec option"
  tk_apply_patches :: "apply_patches_spec option"
  tk_apply_config_channels :: "unit option"
  tk_not_before :: "int option"
  tk_ttl :: int
  tk_organization_ref :: "local_object_ref option"

record task_run_result =
  trr_system_id :: int
  trr_action_id :: int
  trr_status :: string
  trr_output :: string
  trr_exit_code :: "int option"

record task_run =
  tr_sequence :: int
  tr_action_ids :: "int list"
  tr_phase :: string
  tr_started_at :: "int option"
  tr_completed_at :: "int option"
  tr_results :: "task_run_result list"
  tr_failure_reason :: string
  tr_trigger :: string

record task_status =
  ts_runs :: "task_run list"
  ts_phase :: string
  ts_resolved_system_ids :: "int list"
  ts_observed_generation :: int
  ts_conditions :: "condition list"

record task = k8s_object +
  tk_spec :: task_spec
  tk_status :: task_status

end
