(* ===== verification/Api_Systems.thy ===== *)
theory Api_Systems
  imports K8s_Objects
begin

text \<open>
  The custom resources of \<^verbatim>\<open>system_types.go\<close>, \<^verbatim>\<open>activationkey_types.go\<close>, \<^verbatim>\<open>channel_types.go\<close>,
  \<^verbatim>\<open>organization_types.go\<close>, \<^verbatim>\<open>uyuniprovider_types.go\<close>, \<^verbatim>\<open>maintenanceschedule_types.go\<close> and
  \<^verbatim>\<open>maintenancecalendar_types.go\<close>: one record per struct, one field per field.
\<close>

section \<open>Parts of a System\<close>

record autoinstall_value_from =
  avf_secret_key_ref :: "secret_key_ref option"
  avf_config_map_key_ref :: "config_map_key_ref option"

record autoinstall_variable =
  av_name :: string
  av_value :: string
  av_value_from :: "autoinstall_value_from option"

record autoinstall_variable_source =
  avs_secret_ref :: "local_object_ref option"
  avs_config_map_ref :: "local_object_ref option"
  avs_prefix :: string

record autoinstall_spec =
  ai_profile :: string
  ai_profile_ref :: "local_object_ref option"
  ai_variables :: "autoinstall_variable list"
  ai_variables_from :: "autoinstall_variable_source list"
  ai_earliest :: "int option"

record network_interface =
  ni_name :: string
  ni_mac_address :: string
  ni_ip_address :: string

record custom_info_value =
  civ_key_ref :: local_object_ref
  civ_value :: string

record formula_value_from =
  fvf_path :: string
  fvf_secret_key_ref :: "secret_key_ref option"
  fvf_config_map_key_ref :: "config_map_key_ref option"
  fvf_object_field_ref :: "object_field_ref option"
  fvf_format :: string

record formula_value_source =
  fvs_path :: string
  fvs_secret_ref :: "local_object_ref option"
  fvs_config_map_ref :: "local_object_ref option"

text \<open>\<^verbatim>\<open>runtime.RawExtension\<close> is its \<^verbatim>\<open>Raw\<close> bytes.\<close>

record formula_assignment =
  fa_name :: string
  fa_values :: string
  fa_values_from :: "formula_value_from list"
  fa_values_from_sources :: "formula_value_source list"

section \<open>System and SystemGroup\<close>

record system_spec =
  sys_minion_id :: string
  sys_type :: string
  sys_pre_create :: bool
  sys_apply_high_state :: bool
  sys_hostname :: string
  sys_network :: "network_interface list"
  sys_description :: string
  sys_base_channel_ref :: "local_object_ref option"
  sys_base_channel_from :: "channel_from_project option"
  sys_child_channel_refs :: "local_object_ref list"
  sys_child_channels_from :: "channel_from_project list"
  sys_custom_info_values :: "custom_info_value list"
  sys_formulas :: "formula_assignment list"
  sys_proxy_ref :: "local_object_ref option"
  sys_add_ons :: "string list"
  sys_deletion_policy :: string
  sys_adoption_timeout :: int
  sys_organization_ref :: "local_object_ref option"
  sys_config_channel_refs :: "local_object_ref list"
  sys_group_refs :: "local_object_ref list"
  sys_autoinstall :: "autoinstall_spec option"
  sys_contact_method :: string

record system_status =
  syss_uyuni_server_id :: int
  syss_phase :: string
  syss_phase_transition_time :: "int option"
  syss_base_channel_label :: string
  syss_child_channel_labels :: "string list"
  syss_active_add_ons :: "string list"
  syss_last_checkin_time :: "int option"
  syss_active_formulas :: "string list"
  syss_formula_data_generation :: int
  syss_proxy_server_id :: int
  syss_proxy_action_id :: int
  syss_channel_action_id :: int
  syss_channel_action_time :: "int option"
  syss_config_channel_labels :: "string list"
  syss_group_names :: "string list"
  syss_autoinstall_action_id :: int
  syss_cobbler_system_name :: string
  syss_autoinstall_status :: string
  syss_netboot_enabled :: "bool option"
  syss_observed_generation :: int
  syss_conditions :: "condition list"

record uyuni_system = k8s_object +
  sys_spec :: system_spec
  sys_status :: system_status

record system_group_spec =
  sg_name :: string
  sg_description :: string
  sg_member_refs :: "local_object_ref list"
  sg_static_minion_ids :: "string list"
  sg_config_channel_refs :: "local_object_ref list"
  sg_formulas :: "formula_assignment list"
  sg_organization_ref :: "local_object_ref option"
  sg_cluster :: "local_object_ref option"

record system_group_status =
  sgs_uyuni_id :: int
  sgs_member_count :: int
  sgs_resolved_members :: "string list"
  sgs_active_config_channel_labels :: "string list"
  sgs_observed_generation :: int
  sgs_conditions :: "condition list"
  sgs_active_formulas :: "string list"
  sgs_formula_data_generation :: int

record system_group = k8s_object +
  sg_spec :: system_group_spec
  sg_status :: system_group_status

section \<open>ActivationKey and SoftwareChannel\<close>

record activation_key_spec =
  ak_key :: string
  ak_description :: string
  ak_base_channel_ref :: "local_object_ref option"
  ak_base_channel_from :: "channel_from_project option"
  ak_child_channel_refs :: "local_object_ref list"
  ak_child_channels_from :: "channel_from_project list"
  ak_system_group_refs :: "local_object_ref list"
  ak_config_channel_refs :: "local_object_ref list"
  ak_entitlements :: "string list"
  ak_packages :: "string list"
  ak_usage_limit :: int
  ak_universal_default :: bool
  ak_contact_method :: string
  ak_organization_ref :: "local_object_ref option"

record activation_key_status =
  aks_uyuni_key :: string
  aks_activated_system_count :: int
  aks_observed_generation :: int
  aks_conditions :: "condition list"

record activation_key = k8s_object +
  ak_spec :: activation_key_spec
  ak_status :: activation_key_status

record basic_auth_ref =
  bar_name :: string
  bar_username_key :: string
  bar_password_key :: string

record gpg_key =
  gpg_url :: string
  gpg_key_id :: string
  gpg_fingerprint :: string
  gpg_check :: bool

record sync_schedule =
  ss_cron :: string
  ss_sync_on_create :: bool

record package_source =
  ps_url :: string
  ps_ref :: string
  ps_path :: string
  ps_auth :: "basic_auth_ref option"

record software_channel_spec =
  sc_label :: string
  sc_name :: string
  sc_summary :: string
  sc_description :: string
  sc_arch :: string
  sc_parent_channel_ref :: "local_object_ref option"
  sc_checksum :: string
  sc_gpg_key :: gpg_key
  sc_repository_refs :: "local_object_ref list"
  sc_sync :: sync_schedule
  sc_package_source :: "package_source option"
  sc_organization_ref :: "local_object_ref option"

record software_channel_status =
  scs_uyuni_id :: int
  scs_label :: string
  scs_associated_repos :: "string list"
  scs_last_sync_time :: "int option"
  scs_package_count :: int
  scs_package_source_revision :: string
  scs_observed_generation :: int
  scs_conditions :: "condition list"

record software_channel = k8s_object +
  sc_spec :: software_channel_spec
  sc_status :: software_channel_status

section \<open>Organization and UyuniProvider\<close>

record secret_reference =
  sr_name :: string
  sr_namespace :: string

record organization_import =
  oi_organization_id :: int

record organization_spec =
  org_name :: string
  org_provider_ref :: local_object_ref
  org_credentials_secret_ref :: "local_object_ref option"
  org_import :: "organization_import option"

record organization_status =
  orgs_uyuni_org_id :: int
  orgs_observed_generation :: int
  orgs_conditions :: "condition list"
  orgs_provider_url :: string
  orgs_provider_insecure :: bool
  orgs_provider_credentials :: "secret_reference option"
  orgs_provider_ca_cert :: "secret_reference option"

record organization = k8s_object +
  org_spec :: organization_spec
  org_status :: organization_status

record uyuni_provider_spec =
  prov_url :: string
  prov_credentials :: secret_reference
  prov_insecure_skip_verify :: bool
  prov_ca_cert :: "secret_reference option"
  prov_timeout :: int
  prov_is_default :: bool

record uyuni_provider_status =
  provs_server_version :: string
  provs_org_id :: int
  provs_last_reachable_time :: "int option"
  provs_observed_generation :: int
  provs_conditions :: "condition list"

record uyuni_provider = k8s_object +
  prov_spec :: uyuni_provider_spec
  prov_status :: uyuni_provider_status

section \<open>Maintenance\<close>

record maintenance_schedule_spec =
  ms_name :: string
  ms_type :: string
  ms_calendar_ref :: "local_object_ref option"
  ms_system_refs :: "local_object_ref list"
  ms_system_group_refs :: "local_object_ref list"
  ms_reschedule_strategy :: string
  ms_organization_ref :: "local_object_ref option"

record maintenance_schedule_status =
  mss_uyuni_id :: int
  mss_resolved_system_ids :: "int list"
  mss_system_count :: int
  mss_observed_generation :: int
  mss_conditions :: "condition list"

record maintenance_schedule = k8s_object +
  ms_spec :: maintenance_schedule_spec
  ms_status :: maintenance_schedule_status

record maintenance_calendar_spec =
  mc_label :: string
  mc_ical :: string
  mc_url :: string
  mc_reschedule_strategy :: string
  mc_organization_ref :: "local_object_ref option"

record maintenance_calendar_status =
  mcs_uyuni_id :: int
  mcs_last_refreshed_time :: "int option"
  mcs_observed_generation :: int
  mcs_conditions :: "condition list"

record maintenance_calendar = k8s_object +
  mc_spec :: maintenance_calendar_spec
  mc_status :: maintenance_calendar_status

end
