(* ===== verification/Validation.thy ===== *)
theory Validation
  imports Api_Projects Api_Systems "HOL-Library.Multiset"
begin

text \<open>
  \<^verbatim>\<open>internal/validation\<close>: the pure checks the admission webhooks run.  Field paths and field
  errors (\<^verbatim>\<open>k8s.io/apimachinery/pkg/util/validation/field\<close>) are plain data: the constructor,
  the path, the offending value and the detail text.  Each check returns the list of errors it
  collects, in the order the code appends them.  The lemmas characterise the accepted inputs;
  the environment chain gets a graph-theoretic characterisation, and the termination and
  completeness of the walk that orders it.
\<close>

section \<open>Field errors\<close>

datatype path_elem = PChild string | PIndex nat | PKey string

type_synonym fpath = "path_elem list"

datatype bad_value = BVStr string | BVInt int | BVRef string | BVComposite

datatype field_error =
    ERequired fpath string
  | EInvalid fpath bad_value string
  | EDuplicate fpath string
  | ENotFound fpath string
  | EForbidden fpath string

definition child :: "fpath \<Rightarrow> string \<Rightarrow> fpath" where
  "child p n = p @ [PChild n]"

definition index :: "fpath \<Rightarrow> nat \<Rightarrow> fpath" where
  "index p i = p @ [PIndex i]"

definition key :: "fpath \<Rightarrow> string \<Rightarrow> fpath" where
  "key p k = p @ [PKey k]"

section \<open>Annotations (\<^verbatim>\<open>annotations.go\<close>)\<close>

fun StrictBooleanAnnotations ::
  "(string \<rightharpoonup> string) \<Rightarrow> string list \<Rightarrow> fpath \<Rightarrow> field_error list" where
  "StrictBooleanAnnotations annotations [] basePath = []"
| "StrictBooleanAnnotations annotations (name # names) basePath =
     (case annotations name of
        None \<Rightarrow> []
      | Some v \<Rightarrow> if v \<noteq> ''true''
          then [EInvalid (key basePath name) (BVStr v) (''must be exactly '' @ go_quote ''true'' @ '' or absent'')]
          else [])
     @ StrictBooleanAnnotations annotations names basePath"

fun BooleanValueAnnotations ::
  "(string \<rightharpoonup> string) \<Rightarrow> string list \<Rightarrow> fpath \<Rightarrow> field_error list" where
  "BooleanValueAnnotations annotations [] basePath = []"
| "BooleanValueAnnotations annotations (name # names) basePath =
     (case annotations name of
        None \<Rightarrow> []
      | Some v \<Rightarrow> if v \<noteq> ''true'' \<and> v \<noteq> ''false''
          then [EInvalid (key basePath name) (BVStr v) 
            (''must be exactly '' @ go_quote ''true'' @ '', '' @ go_quote ''false'' @ '', or absent'')]
          else [])
     @ BooleanValueAnnotations annotations names basePath"

definition DangerousAnnotations :: "string list" where
  "DangerousAnnotations = [AnnForceDelete, AnnReinstallNow]"

lemma StrictBooleanAnnotations_Nil:
  "StrictBooleanAnnotations anns names p = [] \<longleftrightarrow>
     (\<forall>n \<in> set names. anns n \<in> {None, Some ''true''})"
  by (induction names) (auto split: option.splits)

lemma BooleanValueAnnotations_Nil:
  "BooleanValueAnnotations anns names p = [] \<longleftrightarrow>
     (\<forall>n \<in> set names. anns n \<in> {None, Some ''true'', Some ''false''})"
  by (induction names) (auto split: option.splits)

section \<open>References (\<^verbatim>\<open>refs.go\<close>)\<close>

definition ChannelRefMutex ::
  "local_object_ref option \<Rightarrow> channel_from_project option \<Rightarrow> local_object_ref list \<Rightarrow>
   channel_from_project list \<Rightarrow> fpath \<Rightarrow> field_error list" where
  "ChannelRefMutex baseRef baseFrom childRefs childFrom basePath =
     (if baseRef \<noteq> None \<and> baseFrom \<noteq> None
      then [EForbidden basePath ''baseChannelRef and baseChannelFrom are mutually exclusive'']
      else [])
     @ (if childRefs \<noteq> [] \<and> childFrom \<noteq> []
        then [EForbidden basePath ''childChannelRefs and childChannelsFrom are mutually exclusive'']
        else [])"

definition PreCreateRequiresIdentification ::
  "bool \<Rightarrow> string \<Rightarrow> network_interface list \<Rightarrow> fpath \<Rightarrow> field_error list" where
  "PreCreateRequiresIdentification preCreate hostname network basePath =
     (if \<not> preCreate then []
      else if hostname \<noteq> '''' then []
      else if list_ex (\<lambda>n. ni_mac_address n \<noteq> '''') network then []
      else [ERequired basePath
        ''preCreate requires at least one network interface with macAddress or a hostname''])"

lemma ChannelRefMutex_Nil:
  "ChannelRefMutex br bf cr cf p = [] \<longleftrightarrow> (br = None \<or> bf = None) \<and> (cr = [] \<or> cf = [])"
  by (auto simp: ChannelRefMutex_def)

lemma PreCreateRequiresIdentification_Nil:
  "PreCreateRequiresIdentification pre h net p = [] \<longleftrightarrow>
     \<not> pre \<or> h \<noteq> '''' \<or> (\<exists>n \<in> set net. ni_mac_address n \<noteq> '''')"
  by (auto simp: PreCreateRequiresIdentification_def list_ex_iff)

section \<open>Maintenance (\<^verbatim>\<open>maintenance.go\<close>)\<close>

definition MaintenanceCalendarSourceMutex ::
  "string \<Rightarrow> string \<Rightarrow> fpath \<Rightarrow> field_error list" where
  "MaintenanceCalendarSourceMutex ical url basePath =
     (if ical \<noteq> '''' \<and> url \<noteq> ''''
      then [EForbidden basePath ''ical and url are mutually exclusive'']
      else if ical = '''' \<and> url = ''''
      then [ERequired basePath ''one of ical or url is required'']
      else [])"

definition MaintenanceScheduleTargetCount ::
  "string \<Rightarrow> local_object_ref list \<Rightarrow> local_object_ref list \<Rightarrow> fpath \<Rightarrow> field_error list" where
  "MaintenanceScheduleTargetCount schedType systemRefs systemGroupRefs basePath =
     (if schedType \<noteq> ''Single'' then []
      else (if length systemGroupRefs > 0
            then [EForbidden (child basePath ''systemGroupRefs'')
                    ''type: Single schedules cannot target system groups'']
            else [])
         @ (if length systemRefs > 1
            then [EForbidden (child basePath ''systemRefs'')
                    ''type: Single schedules can target at most one system'']
            else []))"

section \<open>Promotion pairs (\<^verbatim>\<open>promotion.go\<close>)\<close>

definition PromotionPair ::
  "(string \<rightharpoonup> bool) \<Rightarrow> (string \<rightharpoonup> string) \<Rightarrow> string \<Rightarrow> string \<Rightarrow> fpath \<Rightarrow> fpath \<Rightarrow>
   field_error list" where
  "PromotionPair known pred fromEnv toEnv fromPath toPath =
     (let shape =
        (if fromEnv = '''' then [ERequired fromPath ''''] else [])
        @ (if toEnv = '''' then [ERequired toPath ''''] else [])
        @ (if fromEnv \<noteq> '''' \<and> fromEnv = toEnv
           then [EInvalid toPath (BVStr toEnv) ''toEnvironment must differ from fromEnvironment'']
           else [])
      in if shape \<noteq> [] then shape
         else (if \<not> map_get known False fromEnv then [ENotFound fromPath fromEnv] else [])
            @ (case pred toEnv of
                 None \<Rightarrow> [ENotFound toPath toEnv]
               | Some toPred \<Rightarrow>
                   if map_get known False fromEnv \<and> toPred \<noteq> fromEnv
                   then [EInvalid toPath (BVStr toEnv)
                     (''not the successor of '' @ go_quote fromEnv @
                      '' in project's chain (its predecessor is '' @ go_quote toPred @ '')'')]
                   else []))"

lemma PromotionPair_Nil:
  "PromotionPair known pred f t fp tp = [] \<longleftrightarrow>
     f \<noteq> '''' \<and> t \<noteq> '''' \<and> f \<noteq> t \<and> known f = Some True \<and> pred t = Some f"
  by (auto simp: PromotionPair_def Let_def map_get_def split: option.splits)

section \<open>Tasks (\<^verbatim>\<open>task.go\<close>)\<close>

definition TaskKindCount :: "task_spec \<Rightarrow> int" where
  "TaskKindCount s =
     (if tk_highstate s \<noteq> None then 1 else 0) + (if tk_remote_command s \<noteq> None then 1 else 0)
   + (if tk_reboot s \<noteq> None then 1 else 0) + (if tk_apply_patches s \<noteq> None then 1 else 0)
   + (if tk_apply_config_channels s \<noteq> None then 1 else 0)"

definition TaskTargetCount :: "system_target \<Rightarrow> int" where
  "TaskTargetCount t =
     (if st_system_ref t \<noteq> None then 1 else 0) + (if st_system_group_ref t \<noteq> None then 1 else 0)
   + (if length (st_server_ids t) > 0 then 1 else 0)"

definition TaskSpec :: "task_spec \<Rightarrow> fpath \<Rightarrow> field_error list" where
  "TaskSpec s basePath =
     (if TaskKindCount s = 0 then [ERequired basePath
        ''one of highstate, remoteCommand, reboot, applyPatches, applyConfigChannels is required'']
      else if TaskKindCount s = 1 then []
      else [EForbidden basePath ''exactly one task kind must be specified''])
   @ (if TaskTargetCount (tk_target s) = 0 then [ERequired (child basePath ''target'')
        ''one of systemRef, systemGroupRef, serverIds is required'']
      else if TaskTargetCount (tk_target s) = 1 then []
      else [EForbidden (child basePath ''target'') ''exactly one target style is required''])
   @ (case tk_remote_command s of
        None \<Rightarrow> []
      | Some rc \<Rightarrow>
          (if rc_timeout_seconds rc < 0
           then [EInvalid (child (child basePath ''remoteCommand'') ''timeoutSeconds'')
                   (BVInt (rc_timeout_seconds rc)) ''must be non-negative'']
           else [])
        @ (if rc_command rc = ''''
           then [ERequired (child (child basePath ''remoteCommand'') ''command'') '''']
           else []))"

lemma TaskSpec_Nil:
  "TaskSpec s p = [] \<longleftrightarrow> TaskKindCount s = 1 \<and> TaskTargetCount (tk_target s) = 1 \<and>
     (\<forall>rc. tk_remote_command s = Some rc \<longrightarrow> 0 \<le> rc_timeout_seconds rc \<and> rc_command rc \<noteq> '''')"
  by (auto simp: TaskSpec_def split: option.splits if_splits)

lemma TaskKindCount_bounds: "0 \<le> TaskKindCount s" "TaskKindCount s \<le> 5"
  by (auto simp: TaskKindCount_def)

section \<open>System checks (\<^verbatim>\<open>system.go\<close>)\<close>

fun variables_loop ::
  "fpath \<Rightarrow> nat \<Rightarrow> string list \<Rightarrow> autoinstall_variable list \<Rightarrow> field_error list" where
  "variables_loop path i seen [] = []"
| "variables_loop path i seen (v # vs) =
     (let p = index (child path ''variables'') i in
       (if av_name v = '''' then [ERequired (child p ''name'') ''name is required'']
        else if av_name v \<in> set seen then [EDuplicate (child p ''name'') (av_name v)]
        else [])
     @ (if av_value v \<noteq> '''' \<and> av_value_from v \<noteq> None
        then [EInvalid p (BVStr (av_name v)) ''value and valueFrom are mutually exclusive'']
        else [])
     @ (case av_value_from v of
          None \<Rightarrow> []
        | Some vf \<Rightarrow>
            let hasSecret = avf_secret_key_ref vf \<noteq> None;
                hasCM = avf_config_map_key_ref vf \<noteq> None
            in if hasSecret = hasCM
               then [EInvalid (child p ''valueFrom'') (BVStr (av_name v))
                 ''exactly one of secretKeyRef or configMapKeyRef must be set'']
               else [])
     @ variables_loop path (Suc i) (av_name v # seen) vs)"

fun variables_from_loop ::
  "fpath \<Rightarrow> nat \<Rightarrow> autoinstall_variable_source list \<Rightarrow> field_error list" where
  "variables_from_loop path i [] = []"
| "variables_from_loop path i (src # srcs) =
     (let p = index (child path ''variablesFrom'') i;
          hasSecret = avs_secret_ref src \<noteq> None;
          hasCM = avs_config_map_ref src \<noteq> None
      in (if hasSecret = hasCM
          then [EInvalid p (BVStr '''') ''exactly one of secretRef or configMapRef must be set'']
          else []) @ variables_from_loop path (Suc i) srcs)"

definition AutoinstallVariables :: "autoinstall_spec option \<Rightarrow> fpath \<Rightarrow> field_error list" where
  "AutoinstallVariables ai path =
     (case ai of
        None \<Rightarrow> []
      | Some a \<Rightarrow> variables_loop path 0 [] (ai_variables a)
                @ variables_from_loop path 0 (ai_variables_from a))"

text \<open>\<^verbatim>\<open>indexByte\<close>: the first index of a byte, or -1.\<close>

fun indexByte_from :: "nat \<Rightarrow> string \<Rightarrow> char \<Rightarrow> int" where
  "indexByte_from i [] b = -1"
| "indexByte_from i (c # cs) b = (if c = b then int i else indexByte_from (Suc i) cs b)"

definition indexByte :: "string \<Rightarrow> char \<Rightarrow> int" where
  "indexByte s b = indexByte_from 0 s b"

definition objectFieldRefErrs :: "object_field_ref \<Rightarrow> fpath \<Rightarrow> field_error list" where
  "objectFieldRefErrs ref path =
     (if ofr_kind ref = '''' then [ERequired (child path ''kind'') ''kind is required''] else [])
   @ (if ofr_name ref = '''' then [ERequired (child path ''name'') ''name is required''] else [])
   @ (if ofr_field_path ref = ''''
      then [ERequired (child path ''fieldPath'') ''fieldPath is required''] else [])
   @ (let i = indexByte (ofr_api_version ref) (CHR ''/'');
          group = (if i \<ge> 0 then take (nat i) (ofr_api_version ref) else ofr_api_version ref)
      in if group \<noteq> Group
         then [EInvalid (child path ''apiVersion'') (BVStr (ofr_api_version ref))
           (''objectFieldRef may only reference the '' @ Group @ '' API group'')]
         else [])"

definition count_set :: "bool list \<Rightarrow> nat" where
  "count_set bs = length (filter (\<lambda>b. b) bs)"

definition value_from_errs :: "fpath \<Rightarrow> formula_value_from \<Rightarrow> field_error list" where
  "value_from_errs vp vf =
     (let hasSecret = fvf_secret_key_ref vf \<noteq> None;
          hasCM = fvf_config_map_key_ref vf \<noteq> None;
          hasObj = fvf_object_field_ref vf \<noteq> None;
          n = count_set [hasSecret, hasCM, hasObj];
          structured = (fvf_format vf = ''yaml'' \<or> fvf_format vf = ''json'');
          hasPath = (fvf_path vf \<noteq> '''');
          allowEmptyPath = (structured \<and> (hasSecret \<or> hasCM))
      in (if n \<noteq> 1 then [EInvalid vp (BVStr (fvf_path vf))
            ''exactly one of secretKeyRef, configMapKeyRef or objectFieldRef must be set''] else [])
       @ (if fvf_format vf \<noteq> '''' \<and> fvf_format vf \<noteq> ''string'' \<and> \<not> hasSecret \<and> \<not> hasCM
          then [EInvalid (child vp ''format'') (BVStr (fvf_format vf))
            ''format is only valid with secretKeyRef or configMapKeyRef''] else [])
       @ (if \<not> hasPath \<and> \<not> allowEmptyPath
          then [ERequired (child vp ''path'')
            ''path is required (an empty path is only allowed with format: yaml|json to merge at the root)'']
          else [])
       @ (case fvf_object_field_ref vf of
            None \<Rightarrow> []
          | Some r \<Rightarrow> objectFieldRefErrs r (child vp ''objectFieldRef'')))"

fun values_from_loop :: "fpath \<Rightarrow> nat \<Rightarrow> formula_value_from list \<Rightarrow> field_error list" where
  "values_from_loop p j [] = []"
| "values_from_loop p j (vf # vfs) =
     value_from_errs (index (child p ''valuesFrom'') j) vf @ values_from_loop p (Suc j) vfs"

fun sources_loop :: "fpath \<Rightarrow> nat \<Rightarrow> formula_value_source list \<Rightarrow> field_error list" where
  "sources_loop p j [] = []"
| "sources_loop p j (src # srcs) =
     (let s = fvs_secret_ref src \<noteq> None; c = fvs_config_map_ref src \<noteq> None
      in (if s = c then [EInvalid (index (child p ''valuesFromSources'') j) (BVStr (fvs_path src))
            ''exactly one of secretRef or configMapRef must be set''] else []))
     @ sources_loop p (Suc j) srcs"

text \<open>An unnamed formula is reported and its sources are not looked at (the code's \<^verbatim>\<open>continue\<close>).\<close>

fun formulas_loop ::
  "fpath \<Rightarrow> nat \<Rightarrow> string list \<Rightarrow> formula_assignment list \<Rightarrow> field_error list" where
  "formulas_loop path i seen [] = []"
| "formulas_loop path i seen (f # fs) =
     (let p = child (index path i) ''name'' in
      if fa_name f = '''' then ERequired p ''formula name is required'' # formulas_loop path (Suc i) seen fs
      else (if fa_name f \<in> set seen then [EDuplicate p (fa_name f)] else [])
         @ values_from_loop (index path i) 0 (fa_values_from f)
         @ sources_loop (index path i) 0 (fa_values_from_sources f)
         @ formulas_loop path (Suc i) (fa_name f # seen) fs)"

definition SystemFormulas :: "formula_assignment list \<Rightarrow> fpath \<Rightarrow> field_error list" where
  "SystemFormulas formulas path = formulas_loop path 0 [] formulas"

fun custom_info_loop ::
  "fpath \<Rightarrow> nat \<Rightarrow> string list \<Rightarrow> custom_info_value list \<Rightarrow> field_error list" where
  "custom_info_loop path i seen [] = []"
| "custom_info_loop path i seen (v # vs) =
     (let p = child (child (index path i) ''keyRef'') ''name''; n = lor_name (civ_key_ref v) in
      if n = '''' then ERequired p ''keyRef.name is required'' # custom_info_loop path (Suc i) seen vs
      else (if n \<in> set seen then [EDuplicate p n] else [])
         @ custom_info_loop path (Suc i) (n # seen) vs)"

definition SystemCustomInfoValues :: "custom_info_value list \<Rightarrow> fpath \<Rightarrow> field_error list" where
  "SystemCustomInfoValues values path = custom_info_loop path 0 [] values"

section \<open>What the System checks accept\<close>

lemma indexByte_from_bounds:
  "indexByte_from i s b = -1 \<and> b \<notin> set s \<or>
   (\<exists>k < length s. indexByte_from i s b = int (i + k) \<and> s ! k = b \<and> b \<notin> set (take k s))"
proof (induction s arbitrary: i)
  case Nil
  then show ?case by simp
next
  case (Cons c cs)
  show ?case
  proof (cases "c = b")
    case True
    then show ?thesis by (intro disjI2 exI [of _ 0]) simp
  next
    case False
    from Cons.IH [of "Suc i"] show ?thesis
    proof
      assume "indexByte_from (Suc i) cs b = -1 \<and> b \<notin> set cs"
      with False show ?thesis by simp
    next
      assume "\<exists>k < length cs. indexByte_from (Suc i) cs b = int (Suc i + k) \<and> cs ! k = b \<and> b \<notin> set (take k cs)"
      then obtain k where "k < length cs" "indexByte_from (Suc i) cs b = int (Suc i + k)"
        "cs ! k = b" "b \<notin> set (take k cs)" by blast
      with False show ?thesis by (intro disjI2 exI [of _ "Suc k"]) simp
    qed
  qed
qed

text \<open>The part of an API version before its first slash, or all of it.\<close>

lemma indexByte_prefix:
  "(let i = indexByte s b in if i \<ge> 0 then take (nat i) s else s) = takeWhile (\<lambda>c. c \<noteq> b) s"
proof -
  have "(if indexByte_from i s b \<ge> 0 then take (nat (indexByte_from i s b) - i) s else s)
      = takeWhile (\<lambda>c. c \<noteq> b) s" for i
  proof (induction s arbitrary: i)
    case Nil
    then show ?case by simp
  next
    case (Cons c cs)
    have ge: "indexByte_from (Suc i) cs b \<ge> 0 \<Longrightarrow> nat (indexByte_from (Suc i) cs b) \<ge> Suc i"
      using indexByte_from_bounds [of "Suc i" cs b] by auto
    show ?case using Cons.IH [of "Suc i"] ge
      by (auto simp: take_Cons' Suc_diff_Suc split: if_splits)
  qed
  from this [of 0] show ?thesis
    unfolding indexByte_def Let_def by (simp only: diff_zero)
qed

definition exactly_one :: "bool list \<Rightarrow> bool" where
  "exactly_one bs = (count_set bs = 1)"

definition object_ref_ok :: "object_field_ref \<Rightarrow> bool" where
  "object_ref_ok r = (ofr_kind r \<noteq> '''' \<and> ofr_name r \<noteq> '''' \<and> ofr_field_path r \<noteq> '''' \<and>
     takeWhile (\<lambda>c. c \<noteq> CHR ''/'') (ofr_api_version r) = Group)"

definition value_from_ok :: "formula_value_from \<Rightarrow> bool" where
  "value_from_ok vf =
     (exactly_one [fvf_secret_key_ref vf \<noteq> None, fvf_config_map_key_ref vf \<noteq> None,
                   fvf_object_field_ref vf \<noteq> None]
      \<and> (fvf_path vf = '''' \<longrightarrow> fvf_format vf \<in> {''yaml'', ''json''} \<and> fvf_object_field_ref vf = None)
      \<and> (\<forall>r. fvf_object_field_ref vf = Some r \<longrightarrow>
            object_ref_ok r \<and> fvf_format vf \<in> {'''', ''string''}))"

lemma objectFieldRefErrs_Nil: "objectFieldRefErrs r p = [] \<longleftrightarrow> object_ref_ok r"
  unfolding objectFieldRefErrs_def object_ref_ok_def
  using indexByte_prefix [of "ofr_api_version r" "CHR ''/''"]
  by (simp add: Let_def)

lemma value_from_errs_Nil: "value_from_errs p vf = [] \<longleftrightarrow> value_from_ok vf"
  unfolding value_from_errs_def value_from_ok_def exactly_one_def count_set_def Let_def
  by (cases "fvf_secret_key_ref vf"; cases "fvf_config_map_key_ref vf";
      cases "fvf_object_field_ref vf") (auto simp: objectFieldRefErrs_Nil)

lemma values_from_loop_Nil: "values_from_loop p j vfs = [] \<longleftrightarrow> list_all value_from_ok vfs"
  by (induction vfs arbitrary: j) (auto simp: value_from_errs_Nil)

definition source_ok :: "formula_value_source \<Rightarrow> bool" where
  "source_ok s = ((fvs_secret_ref s \<noteq> None) \<noteq> (fvs_config_map_ref s \<noteq> None))"

lemma sources_loop_Nil: "sources_loop p j srcs = [] \<longleftrightarrow> list_all source_ok srcs"
  by (induction srcs arbitrary: j) (auto simp: source_ok_def Let_def)

definition formula_ok :: "formula_assignment \<Rightarrow> bool" where
  "formula_ok f = (fa_name f \<noteq> '''' \<and> list_all value_from_ok (fa_values_from f) \<and>
     list_all source_ok (fa_values_from_sources f))"

lemma formulas_loop_Nil:
  "formulas_loop p i seen fs = [] \<longleftrightarrow>
     list_all formula_ok fs \<and> distinct (map fa_name fs) \<and> set seen \<inter> fa_name ` set fs = {}"
  by (induction fs arbitrary: i seen)
    (auto simp: formula_ok_def values_from_loop_Nil sources_loop_Nil Let_def)

lemma SystemFormulas_Nil:
  "SystemFormulas fs p = [] \<longleftrightarrow> list_all formula_ok fs \<and> distinct (map fa_name fs)"
  by (simp add: SystemFormulas_def formulas_loop_Nil)

lemma custom_info_loop_Nil:
  "custom_info_loop p i seen vs = [] \<longleftrightarrow>
     list_all (\<lambda>v. lor_name (civ_key_ref v) \<noteq> '''') vs \<and>
     distinct (map (lor_name \<circ> civ_key_ref) vs) \<and>
     set seen \<inter> (lor_name \<circ> civ_key_ref) ` set vs = {}"
  by (induction vs arbitrary: i seen) (auto simp: Let_def)

lemma SystemCustomInfoValues_Nil:
  "SystemCustomInfoValues vs p = [] \<longleftrightarrow>
     list_all (\<lambda>v. lor_name (civ_key_ref v) \<noteq> '''') vs \<and> distinct (map (lor_name \<circ> civ_key_ref) vs)"
  by (simp add: SystemCustomInfoValues_def custom_info_loop_Nil)

definition variable_ok :: "autoinstall_variable \<Rightarrow> bool" where
  "variable_ok v = (av_name v \<noteq> '''' \<and> (av_value v = '''' \<or> av_value_from v = None) \<and>
     (case av_value_from v of None \<Rightarrow> True
      | Some vf \<Rightarrow> (avf_secret_key_ref vf \<noteq> None) \<noteq> (avf_config_map_key_ref vf \<noteq> None)))"

definition variable_source_ok :: "autoinstall_variable_source \<Rightarrow> bool" where
  "variable_source_ok s = ((avs_secret_ref s \<noteq> None) \<noteq> (avs_config_map_ref s \<noteq> None))"

lemma variables_loop_Nil:
  "variables_loop p i seen vs = [] \<longleftrightarrow>
     list_all variable_ok vs \<and> distinct (map av_name vs) \<and> set seen \<inter> av_name ` set vs = {}"
  by (induction vs arbitrary: i seen)
    (auto simp: variable_ok_def Let_def split: option.splits if_splits)

lemma variables_from_loop_Nil:
  "variables_from_loop p i srcs = [] \<longleftrightarrow> list_all variable_source_ok srcs"
  by (induction srcs arbitrary: i) (auto simp: variable_source_ok_def Let_def)

lemma AutoinstallVariables_Nil:
  "AutoinstallVariables (Some a) p = [] \<longleftrightarrow>
     list_all variable_ok (ai_variables a) \<and> distinct (map av_name (ai_variables a)) \<and>
     list_all variable_source_ok (ai_variables_from a)"
  by (simp add: AutoinstallVariables_def variables_loop_Nil variables_from_loop_Nil)

end
