(* ===== verification/Env_Chain.thy ===== *)
theory Env_Chain
  imports Validation
begin

text \<open>
  \<^verbatim>\<open>internal/validation/envchain.go\<close>: the check of a project's promotion chain and the walk
  that orders it.  \<open>EnvChain\<close> is shown to accept exactly the environment lists that form a tree
  of predecessor links with one root; \<open>ChainOrder\<close>, whose loop has no bound of its own, is shown
  to return on every accepted list that does not branch, with all the environments in order, and
  to lose environments on one that does.
\<close>

section \<open>The code\<close>

fun env_loop ::
  "fpath \<Rightarrow> nat \<Rightarrow> string list \<Rightarrow> nat \<Rightarrow> project_environment list \<Rightarrow>
   field_error list \<times> string list \<times> nat" where
  "env_loop basePath i seen roots [] = ([], seen, roots)"
| "env_loop basePath i seen roots (e # es) =
     (let (errs, seen', roots') =
        env_loop basePath (Suc i) (pe_label e # seen)
          (if pe_predecessor e = [] then Suc roots else roots) es
      in ((if pe_label e \<in> set seen
           then [EDuplicate (child (index basePath i) ''label'') (pe_label e)] else []) @ errs,
          seen', roots'))"

fun predecessor_loop ::
  "fpath \<Rightarrow> nat \<Rightarrow> string list \<Rightarrow> project_environment list \<Rightarrow> field_error list" where
  "predecessor_loop basePath i seen [] = []"
| "predecessor_loop basePath i seen (e # es) =
     (if pe_predecessor e \<noteq> [] \<and> pe_predecessor e \<notin> set seen
      then [ENotFound (child (index basePath i) ''predecessor'') (pe_predecessor e)] else [])
     @ predecessor_loop basePath (Suc i) seen es"

text \<open>The map \<^verbatim>\<open>pred\<close> of \<^verbatim>\<open>isAcyclic\<close>; a later environment overwrites an earlier one.\<close>

definition pred_of :: "project_environment list \<Rightarrow> (string \<rightharpoonup> string)" where
  "pred_of envs = foldl (\<lambda>m e. m(pe_label e \<mapsto> pe_predecessor e)) Map.empty envs"

definition pred_step :: "project_environment list \<Rightarrow> string \<Rightarrow> string" where
  "pred_step envs c = map_get (pred_of envs) [] c"

lemma dom_pred_of: "dom (pred_of envs) = pe_label ` set envs"
proof -
  have "dom (foldl (\<lambda>m e. m(pe_label e \<mapsto> pe_predecessor e)) m envs) = dom m \<union> pe_label ` set envs"
    for m by (induction envs arbitrary: m) auto
  then show ?thesis by (simp add: pred_of_def)
qed

lemma pred_step_undeclared: "c \<notin> pe_label ` set envs \<Longrightarrow> pred_step envs c = []"
  using dom_pred_of [of envs] by (auto simp: pred_step_def map_get_def split: option.splits)

text \<open>
  The inner loop of \<^verbatim>\<open>isAcyclic\<close>.  It stops because every turn puts a new declared label into
  \<open>seen\<close>, or steps off the declared labels and so to the empty one.
\<close>

function chase :: "project_environment list \<Rightarrow> string list \<Rightarrow> string \<Rightarrow> bool" where
  "chase envs seen cursor =
     (if cursor = [] then True
      else if cursor \<in> set seen then False
      else chase envs (cursor # seen) (pred_step envs cursor))"
  by pat_completeness auto
termination
proof (relation "measure (\<lambda>(envs, seen, cursor).
    if cursor = [] then 0 else if cursor \<notin> pe_label ` set envs then 1
    else 2 + card (pe_label ` set envs - set seen))")
  show "wf (measure (\<lambda>(envs, seen, cursor).
    if cursor = [] then 0 else if cursor \<notin> pe_label ` set envs then 1
    else 2 + card (pe_label ` set envs - set seen)))"
    by simp
next
  fix envs :: "project_environment list" and seen :: "string list" and cursor :: string
  assume c: "cursor \<noteq> []" "cursor \<notin> set seen"
  have "card (pe_label ` set envs - set (cursor # seen)) < card (pe_label ` set envs - set seen)"
    if "cursor \<in> pe_label ` set envs"
    using c that by (intro psubset_card_mono) auto
  then show "((envs, cursor # seen, pred_step envs cursor), envs, seen, cursor)
    \<in> measure (\<lambda>(envs, seen, cursor).
      if cursor = [] then 0 else if cursor \<notin> pe_label ` set envs then 1
      else 2 + card (pe_label ` set envs - set seen))"
    using c pred_step_undeclared [of cursor envs] by auto
qed

declare chase.simps [simp del]

definition isAcyclic :: "project_environment list \<Rightarrow> bool" where
  "isAcyclic envs = list_all (\<lambda>e. chase envs [pe_label e] (pe_predecessor e)) envs"

definition EnvChain :: "project_environment list \<Rightarrow> fpath \<Rightarrow> field_error list" where
  "EnvChain envs basePath =
     (if envs = [] then [ERequired basePath ''at least one environment required'']
      else
        let (dups, seen, roots) = env_loop basePath 0 [] 0 envs;
            errs = dups
              @ (if roots = 0 then [EInvalid basePath (BVStr [])
                   (''exactly one root environment (predecessor='' @ go_quote [] @ '') required, got 0'')]
                 else if roots = 1 then []
                 else [EInvalid basePath (BVStr [])
                   (''exactly one root environment (predecessor='' @ go_quote [] @ '') required, got ''
                    @ itoa (int roots))])
              @ predecessor_loop basePath 0 seen envs
        in errs @ (if errs = [] \<and> \<not> isAcyclic envs
                   then [EInvalid basePath (BVStr []) ''environment chain contains a cycle'']
                   else []))"

text \<open>
  \<^verbatim>\<open>ChainOrder\<close>.  Its loop has no guard of its own, so the model says \<open>None\<close> where it would
  run for ever.
\<close>

definition by_predecessor :: "project_environment list \<Rightarrow> (string \<rightharpoonup> project_environment)" where
  "by_predecessor envs = foldl (\<lambda>m e. m(pe_predecessor e \<mapsto> e)) Map.empty envs"

partial_function (option) order_walk ::
  "(string \<rightharpoonup> project_environment) \<Rightarrow> string \<Rightarrow> project_environment list \<Rightarrow>
   project_environment list option" where
  "order_walk m cursor out =
     (case m cursor of
        None \<Rightarrow> Some out
      | Some next \<Rightarrow> order_walk m (pe_label next) (out @ [next]))"

declare order_walk.simps [code]

definition ChainOrder :: "project_environment list \<Rightarrow> project_environment list option" where
  "ChainOrder envs = order_walk (by_predecessor envs) [] []"

section \<open>What EnvChain accepts\<close>

text \<open>The chain of predecessors from a label reaches the empty label.\<close>

definition reaches_root :: "project_environment list \<Rightarrow> string \<Rightarrow> bool" where
  "reaches_root envs c = (\<exists>n. (pred_step envs ^^ n) c = [])"

definition env_chain_ok :: "project_environment list \<Rightarrow> bool" where
  "env_chain_ok envs =
     (envs \<noteq> [] \<and> distinct (map pe_label envs) \<and>
      length (filter (\<lambda>e. pe_predecessor e = []) envs) = 1 \<and>
      (\<forall>e \<in> set envs. pe_predecessor e = [] \<or> pe_predecessor e \<in> pe_label ` set envs) \<and>
      (\<forall>e \<in> set envs. reaches_root envs (pe_predecessor e)))"

lemma env_loop_result:
  "env_loop p i seen roots es = (errs, seen', roots') \<Longrightarrow>
     (errs = [] \<longleftrightarrow> distinct (map pe_label es) \<and> set seen \<inter> pe_label ` set es = {}) \<and>
     set seen' = set seen \<union> pe_label ` set es \<and>
     roots' = roots + length (filter (\<lambda>e. pe_predecessor e = []) es)"
proof (induction es arbitrary: i seen roots errs)
  case Nil
  then show ?case by simp
next
  case (Cons e es)
  obtain errs1 where rec: "env_loop p (Suc i) (pe_label e # seen)
      (if pe_predecessor e = [] then Suc roots else roots) es = (errs1, seen', roots')"
    and errs: "errs = (if pe_label e \<in> set seen
        then [EDuplicate (child (index p i) ''label'') (pe_label e)] else []) @ errs1"
    using Cons.prems by (auto simp: Let_def split: prod.splits)
  from Cons.IH [OF rec] show ?case by (auto simp: errs)
qed

lemma predecessor_loop_Nil:
  "predecessor_loop p i seen es = [] \<longleftrightarrow>
     (\<forall>e \<in> set es. pe_predecessor e = [] \<or> pe_predecessor e \<in> set seen)"
  by (induction es arbitrary: i) auto

text \<open>A walk that ends at the empty label meets no label twice before it does.\<close>

lemma walk_no_repeat:
  assumes "(f ^^ n) c = z" "\<And>k. k < n \<Longrightarrow> (f ^^ k) c \<noteq> z" "0 < j" "j < n"
  shows "(f ^^ j) c \<noteq> c"
proof
  assume "(f ^^ j) c = c"
  then have "(f ^^ (n - j)) c = (f ^^ (n - j)) ((f ^^ j) c)" by simp
  also have "\<dots> = (f ^^ n) c"
    using assms(4) by (metis funpow_add comp_apply le_add_diff_inverse2 less_imp_le_nat)
  finally have "(f ^^ (n - j)) c = z" using assms(1) by simp
  with assms(2) [of "n - j"] assms(3,4) show False by simp
qed

lemma chase_iff:
  "chase envs seen c \<longleftrightarrow>
     (\<exists>n. (pred_step envs ^^ n) c = [] \<and>
        (\<forall>k < n. (pred_step envs ^^ k) c \<noteq> [] \<and> (pred_step envs ^^ k) c \<notin> set seen))"
  (is "_ \<longleftrightarrow> (\<exists>n. ?P c seen n)")
proof (induction envs seen c rule: chase.induct)
  case (1 envs seen c)
  let ?f = "pred_step envs"
  let ?Q = "\<lambda>c seen n. (?f ^^ n) c = [] \<and> (\<forall>k < n. (?f ^^ k) c \<noteq> [] \<and> (?f ^^ k) c \<notin> set seen)"
  show ?case
  proof (cases "c = [] \<or> c \<in> set seen")
    case True
    show ?thesis
    proof (cases "c = []")
      case True
      then have "?Q c seen 0" by simp
      then have "\<exists>n. ?Q c seen n" ..
      with True show ?thesis by (subst chase.simps) simp
    next
      case False
      with True have "c \<in> set seen" by simp
      with False have "\<not> ?Q c seen n" for n by (cases n) force+
      with False \<open>c \<in> set seen\<close> show ?thesis by (subst chase.simps) simp
    qed
  next
    case False
    then have IH: "chase envs (c # seen) (?f c) \<longleftrightarrow> (\<exists>n. ?Q (?f c) (c # seen) n)"
      using "1" by simp
    have shift: "(?f ^^ k) (?f c) = (?f ^^ Suc k) c" for k
      by (simp add: funpow_swap1)
    have "(\<exists>n. ?Q (?f c) (c # seen) n) \<longleftrightarrow> (\<exists>n. ?Q c seen n)"
    proof
      assume "\<exists>n. ?Q (?f c) (c # seen) n"
      then obtain n where n: "?Q (?f c) (c # seen) n" ..
      have "?Q c seen (Suc n)"
        using n False by (auto simp: shift less_Suc_eq_0_disj simp del: funpow.simps)
      then show "\<exists>n. ?Q c seen n" ..
    next
      assume "\<exists>n. ?Q c seen n"
      then obtain n where n: "?Q c seen n" ..
      with False obtain m where m: "n = Suc m" by (cases n) auto
      have "(?f ^^ Suc k) c \<noteq> c" if "k < m" for k
        using walk_no_repeat [where f = ?f and n = n and c = c and z = "[]" and j = "Suc k"] n m that
        by auto
      then have "?Q (?f c) (c # seen) m"
        using n m by (auto simp: shift simp del: funpow.simps)
      then show "\<exists>n. ?Q (?f c) (c # seen) n" ..
    qed
    with False IH show ?thesis by (subst chase.simps) simp
  qed
qed

text \<open>From a declared label the start label itself is never met again, so seeding changes nothing.\<close>

lemma chase_seeded:
  assumes step: "pred_step envs l = p"
  shows "chase envs [l] p \<longleftrightarrow> reaches_root envs p"
proof
  assume "chase envs [l] p"
  then show "reaches_root envs p" by (auto simp: chase_iff reaches_root_def)
next
  assume "reaches_root envs p"
  then have ex: "\<exists>n. (pred_step envs ^^ n) p = []" by (simp add: reaches_root_def)
  define n where "n = (LEAST n. (pred_step envs ^^ n) p = [])"
  have n: "(pred_step envs ^^ n) p = []" unfolding n_def using ex by (rule LeastI_ex)
  have least: "\<And>k. k < n \<Longrightarrow> (pred_step envs ^^ k) p \<noteq> []"
    unfolding n_def by (rule not_less_Least)
  have "(pred_step envs ^^ k) p \<noteq> l" if "k < n" for k
  proof
    assume "(pred_step envs ^^ k) p = l"
    then have cyc: "(pred_step envs ^^ Suc k) p = p" using step by simp
    then have "Suc k < n \<or> Suc k = n" using that by auto
    then show False
      using walk_no_repeat [where f = "pred_step envs" and n = n and c = p and z = "[]" and j = "Suc k"]
        n least cyc least [of 0] that
      by (cases "Suc k = n") auto
  qed
  with n least show "chase envs [l] p" by (auto simp: chase_iff)
qed

lemma foldl_pred_notin:
  "l \<notin> pe_label ` set envs \<Longrightarrow>
     foldl (\<lambda>m e. m(pe_label e \<mapsto> pe_predecessor e)) m envs l = m l"
  by (induction envs arbitrary: m) auto

lemma pred_of_distinct:
  assumes "distinct (map pe_label envs)" "e \<in> set envs"
  shows "pred_of envs (pe_label e) = Some (pe_predecessor e)"
proof -
  have "foldl (\<lambda>m e. m(pe_label e \<mapsto> pe_predecessor e)) m envs (pe_label e) = Some (pe_predecessor e)"
    for m using assms
  proof (induction envs arbitrary: m)
    case Nil
    then show ?case by simp
  next
    case (Cons a envs)
    show ?case
    proof (cases "e = a")
      case True
      then have "pe_label e \<notin> pe_label ` set envs" using Cons.prems by simp
      then show ?thesis using True by (simp add: foldl_pred_notin del: fun_upd_apply) simp
    next
      case False
      then show ?thesis using Cons.IH [of "m(pe_label a \<mapsto> pe_predecessor a)"] Cons.prems by simp
    qed
  qed
  then show ?thesis by (simp add: pred_of_def)
qed

lemma isAcyclic_iff:
  assumes "distinct (map pe_label envs)"
  shows "isAcyclic envs \<longleftrightarrow> (\<forall>e \<in> set envs. reaches_root envs (pe_predecessor e))"
proof -
  have "chase envs [pe_label e] (pe_predecessor e) \<longleftrightarrow> reaches_root envs (pe_predecessor e)"
    if "e \<in> set envs" for e
    using pred_of_distinct [OF assms that] by (intro chase_seeded) (simp add: pred_step_def map_get_def)
  then show ?thesis by (simp add: isAcyclic_def list_all_iff)
qed

lemma EnvChain_Nil_iff: "EnvChain envs p = [] \<longleftrightarrow> env_chain_ok envs"
proof (cases "envs = []")
  case True
  then show ?thesis by (simp add: EnvChain_def env_chain_ok_def)
next
  case False
  obtain errs seen roots where l: "env_loop p 0 [] 0 envs = (errs, seen, roots)"
    by (cases "env_loop p 0 [] 0 envs") auto
  from env_loop_result [OF l] False show ?thesis
    by (auto simp: EnvChain_def env_chain_ok_def l predecessor_loop_Nil isAcyclic_iff Let_def)
qed

section \<open>What ChainOrder returns\<close>

text \<open>Each environment of \<open>out\<close> names the one before it, and the first names \<open>start\<close>.\<close>

fun linked :: "string \<Rightarrow> project_environment list \<Rightarrow> bool" where
  "linked start [] = True"
| "linked start (e # es) = (pe_predecessor e = start \<and> linked (pe_label e) es)"

definition end_of :: "string \<Rightarrow> project_environment list \<Rightarrow> string" where
  "end_of start out = (if out = [] then start else pe_label (last out))"

lemma linked_snoc:
  "linked start (out @ [e]) \<longleftrightarrow> linked start out \<and> pe_predecessor e = end_of start out"
  by (induction out arbitrary: start) (auto simp: end_of_def)

lemma linked_nth:
  "linked start out \<Longrightarrow> i < length out \<Longrightarrow>
     pe_predecessor (out ! i) = (if i = 0 then start else pe_label (out ! (i - 1)))"
proof (induction out arbitrary: start i)
  case Nil
  then show ?case by simp
next
  case (Cons e es)
  then show ?case by (cases i) (auto simp: nth_Cons split: nat.splits)
qed

lemma foldl_by_pred_notin:
  "c \<notin> pe_predecessor ` set envs \<Longrightarrow> foldl (\<lambda>m e. m(pe_predecessor e \<mapsto> e)) m envs c = m c"
  by (induction envs arbitrary: m) auto

lemma foldl_by_pred_SomeD:
  "foldl (\<lambda>m e. m(pe_predecessor e \<mapsto> e)) m envs c = Some e \<Longrightarrow>
     m c = Some e \<or> e \<in> set envs \<and> pe_predecessor e = c"
proof (induction envs arbitrary: m)
  case Nil
  then show ?case by simp
next
  case (Cons a envs)
  from Cons.prems have "foldl (\<lambda>m e. m(pe_predecessor e \<mapsto> e)) (m(pe_predecessor a \<mapsto> a)) envs c = Some e"
    by (simp only: foldl_Cons)
  from Cons.IH [OF this] show ?case by (cases "pe_predecessor a = c") auto
qed

lemma foldl_by_pred_in:
  "distinct (map pe_predecessor envs) \<Longrightarrow> e \<in> set envs \<Longrightarrow>
     foldl (\<lambda>m e. m(pe_predecessor e \<mapsto> e)) m envs (pe_predecessor e) = Some e"
proof (induction envs arbitrary: m)
  case Nil
  then show ?case by simp
next
  case (Cons a envs)
  show ?case
  proof (cases "e = a")
    case True
    then have "pe_predecessor e \<notin> pe_predecessor ` set envs" using Cons.prems by simp
    then show ?thesis using True by (simp add: foldl_by_pred_notin del: fun_upd_apply) simp
  next
    case False
    then show ?thesis using Cons.IH [of "m(pe_predecessor a \<mapsto> a)"] Cons.prems by simp
  qed
qed

lemma by_predecessor_distinct:
  assumes "distinct (map pe_predecessor envs)"
  shows "by_predecessor envs c = Some e \<longleftrightarrow> e \<in> set envs \<and> pe_predecessor e = c"
proof
  assume "by_predecessor envs c = Some e"
  then show "e \<in> set envs \<and> pe_predecessor e = c"
    using foldl_by_pred_SomeD [of Map.empty envs c e] by (simp add: by_predecessor_def)
next
  assume e: "e \<in> set envs \<and> pe_predecessor e = c"
  then show "by_predecessor envs c = Some e"
    using foldl_by_pred_in [OF assms, of e Map.empty] by (simp add: by_predecessor_def)
qed

lemma by_predecessor_None:
  assumes "distinct (map pe_predecessor envs)"
  shows "by_predecessor envs c = None \<longleftrightarrow> c \<notin> pe_predecessor ` set envs"
proof
  assume none: "by_predecessor envs c = None"
  show "c \<notin> pe_predecessor ` set envs"
  proof
    assume "c \<in> pe_predecessor ` set envs"
    then obtain e where "e \<in> set envs" "pe_predecessor e = c" by blast
    with none show False using by_predecessor_distinct [OF assms, of c e] by simp
  qed
next
  show "c \<notin> pe_predecessor ` set envs \<Longrightarrow> by_predecessor envs c = None"
    by (simp add: by_predecessor_def foldl_by_pred_notin)
qed

text \<open>A chain: an accepted list in which no two environments have one predecessor.\<close>

definition straight_chain :: "project_environment list \<Rightarrow> bool" where
  "straight_chain envs = (env_chain_ok envs \<and> distinct (map pe_predecessor envs) \<and>
     (\<forall>e \<in> set envs. pe_label e \<noteq> []))"

definition walk_inv :: "project_environment list \<Rightarrow> project_environment list \<Rightarrow> bool" where
  "walk_inv envs out = (set out \<subseteq> set envs \<and> distinct out \<and> linked [] out)"

lemma straight_chainD:
  assumes "straight_chain envs"
  shows "distinct (map pe_predecessor envs)" "distinct (map pe_label envs)"
    "\<And>a b. a \<in> set envs \<Longrightarrow> b \<in> set envs \<Longrightarrow> pe_label a = pe_label b \<Longrightarrow> a = b"
    "\<And>a b. a \<in> set envs \<Longrightarrow> b \<in> set envs \<Longrightarrow> pe_predecessor a = pe_predecessor b \<Longrightarrow> a = b"
    "\<And>a. a \<in> set envs \<Longrightarrow> pe_label a \<noteq> []"
  using assms by (auto simp: straight_chain_def env_chain_ok_def distinct_map inj_on_def)

lemma walk_inv_snoc:
  assumes sc: "straight_chain envs" and inv: "walk_inv envs out"
    and e: "e \<in> set envs" "pe_predecessor e = end_of [] out"
  shows "walk_inv envs (out @ [e])"
proof -
  have "e \<notin> set out"
  proof
    assume "e \<in> set out"
    then obtain i where i: "i < length out" "out ! i = e" by (auto simp: in_set_conv_nth)
    have l: "linked [] out" "set out \<subseteq> set envs" "distinct out" using inv by (auto simp: walk_inv_def)
    have ne: "out \<noteq> []" using i by auto
    have last: "last out = out ! (length out - 1)" "last out \<in> set envs"
      using ne l last_in_set by (auto simp: last_conv_nth)
    show False
    proof (cases i)
      case 0
      then show False
        using linked_nth [OF l(1) i(1)] i e ne straight_chainD(5) [OF sc last(2)]
        by (simp add: end_of_def)
    next
      case (Suc j)
      then have "pe_label (out ! j) = pe_label (last out)"
        using linked_nth [OF l(1) i(1)] i e ne by (simp add: end_of_def)
      moreover have "out ! j \<in> set envs" using Suc i l nth_mem [of j out] by auto
      ultimately have "out ! j = out ! (length out - 1)"
        using straight_chainD(3) [OF sc _ last(2)] last by simp
      then have "j = length out - 1" using Suc i l(3) by (simp add: nth_eq_iff_index_eq)
      then show False using Suc i by simp
    qed
  qed
  then show ?thesis using inv e by (simp add: walk_inv_def linked_snoc)
qed

lemma walk_inv_length: "walk_inv envs out \<Longrightarrow> length out \<le> length envs"
  unfolding walk_inv_def by (metis card_length card_mono distinct_card finite_set le_trans)

lemma order_walk_returns:
  assumes sc: "straight_chain envs" and "walk_inv envs out"
  shows "\<exists>res. order_walk (by_predecessor envs) (end_of [] out) out = Some res \<and>
    walk_inv envs res \<and> by_predecessor envs (end_of [] res) = None"
  using assms(2)
proof (induction "length envs - length out" arbitrary: out rule: less_induct)
  case less
  show ?case
  proof (cases "by_predecessor envs (end_of [] out)")
    case None
    then show ?thesis using less.prems by (subst order_walk.simps) auto
  next
    case (Some e)
    then have e: "e \<in> set envs" "pe_predecessor e = end_of [] out"
      using by_predecessor_distinct [OF straight_chainD(1) [OF sc]] by auto
    have inv: "walk_inv envs (out @ [e])" using walk_inv_snoc [OF sc less.prems e] .
    have "length envs - length (out @ [e]) < length envs - length out"
      using walk_inv_length [OF inv] by simp
    moreover have "order_walk (by_predecessor envs) (end_of [] out) out =
        order_walk (by_predecessor envs) (end_of [] (out @ [e])) (out @ [e])"
      using Some by (subst order_walk.simps) (simp add: end_of_def split: option.split)
    ultimately show ?thesis using less.hyps [OF _ inv] by simp
  qed
qed

lemma walk_covers:
  assumes sc: "straight_chain envs" and inv: "walk_inv envs out"
    and stop: "by_predecessor envs (end_of [] out) = None"
  shows "set out = set envs"
proof -
  have l: "linked [] out" "set out \<subseteq> set envs" using inv by (auto simp: walk_inv_def)
  have next_in: "e \<in> set out" if "e \<in> set envs" "pe_predecessor e = (if i = 0 then [] else pe_label (out ! (i - 1)))"
    "i \<le> length out" for e i
  proof (cases "i = length out")
    case True
    have "end_of [] out = pe_predecessor e"
      using that True by (auto simp: end_of_def last_conv_nth)
    with stop that(1) show ?thesis
      using by_predecessor_None [OF straight_chainD(1) [OF sc]] by auto
  next
    case False
    then have i: "i < length out" using that by simp
    then have "pe_predecessor (out ! i) = pe_predecessor e" using linked_nth [OF l(1)] that by simp
    then have "out ! i = e" using straight_chainD(4) [OF sc _ that(1)] l(2) i nth_mem by blast
    then show ?thesis using i by auto
  qed
  have "e \<in> set out" if "e \<in> set envs" "(pred_step envs ^^ n) (pe_predecessor e) = []" for e n
    using that
  proof (induction n arbitrary: e)
    case 0
    then show ?case using next_in [of e 0] by simp
  next
    case (Suc n)
    show ?case
    proof (cases "pe_predecessor e = []")
      case True
      then show ?thesis using Suc.prems next_in [of e 0] by simp
    next
      case False
      then obtain p where p: "p \<in> set envs" "pe_predecessor e = pe_label p"
        using sc Suc.prems by (force simp: straight_chain_def env_chain_ok_def)
      have "pred_step envs (pe_label p) = pe_predecessor p"
        using pred_of_distinct [OF straight_chainD(2) [OF sc] p(1)]
        by (simp add: pred_step_def map_get_def)
      then have "(pred_step envs ^^ n) (pe_predecessor p) = []"
        using Suc.prems p by (simp add: funpow_swap1)
      then have "p \<in> set out" using Suc.IH p by blast
      then obtain i where "i < length out" "out ! i = p" by (auto simp: in_set_conv_nth)
      then show ?thesis using next_in [of e "Suc i"] Suc.prems p by simp
    qed
  qed
  moreover have "\<exists>n. (pred_step envs ^^ n) (pe_predecessor e) = []" if "e \<in> set envs" for e
    using sc that by (simp add: straight_chain_def env_chain_ok_def reaches_root_def)
  ultimately show ?thesis using l(2) by blast
qed

lemma ChainOrder_straight:
  assumes "straight_chain envs"
  shows "\<exists>out. ChainOrder envs = Some out \<and> set out = set envs \<and> distinct out \<and> linked [] out"
proof -
  have "walk_inv envs []" by (simp add: walk_inv_def)
  from order_walk_returns [OF assms this] obtain res
    where r: "order_walk (by_predecessor envs) [] [] = Some res" "walk_inv envs res"
      "by_predecessor envs (end_of [] res) = None" by (auto simp: end_of_def)
  from walk_covers [OF assms r(2,3)] r show ?thesis by (auto simp: ChainOrder_def walk_inv_def)
qed

text \<open>
  On a list that branches the map keeps the last environment with a given predecessor, and the
  walk loses the others with all that follow them, although \<open>EnvChain\<close> accepts the list.
\<close>

definition branching_envs :: "project_environment list" where
  "branching_envs =
     [\<lparr>pe_label = ''dev'', pe_name = [], pe_description = [], pe_predecessor = []\<rparr>,
      \<lparr>pe_label = ''qa'', pe_name = [], pe_description = [], pe_predecessor = ''dev''\<rparr>,
      \<lparr>pe_label = ''prod'', pe_name = [], pe_description = [], pe_predecessor = ''dev''\<rparr>]"

section \<open>Properties\<close>

text \<open>
  C20.  \<open>EnvChain\<close> accepts a list of environments exactly when it is not empty, labels are unique,
  exactly one environment has no predecessor, every predecessor is declared, and from every environment
  the chain of predecessors ends at the root.
\<close>

theorem env_chain_accepts_iff: "EnvChain envs basePath = [] \<longleftrightarrow> env_chain_ok envs"
  by (rule EnvChain_Nil_iff)

text \<open>
  C21.  The loop of \<open>ChainOrder\<close> returns on every accepted list in which no two environments have
  the same predecessor, and gives all environments, each once, each after its predecessor.
\<close>

theorem chain_order_complete:
  assumes "EnvChain envs basePath = []" "distinct (map pe_predecessor envs)"
    and "\<forall>e \<in> set envs. pe_label e \<noteq> []"
  shows "\<exists>out. ChainOrder envs = Some out \<and> set out = set envs \<and> distinct out \<and> linked [] out"
  using assms by (intro ChainOrder_straight) (simp add: straight_chain_def EnvChain_Nil_iff)

definition two_envs :: "project_environment list" where
  "two_envs =
     [\<lparr>pe_label = ''prod'', pe_name = [], pe_description = [], pe_predecessor = ''dev''\<rparr>,
      \<lparr>pe_label = ''dev'', pe_name = [], pe_description = [], pe_predecessor = []\<rparr>]"

lemma two_envs_accepted: "EnvChain two_envs [] = []"
  by code_simp

theorem chain_order_complete_witness:
  "\<exists>out. ChainOrder two_envs = Some out \<and> set out = set two_envs \<and> distinct out \<and> linked [] out"
  by (rule chain_order_complete [OF two_envs_accepted]) (simp_all add: two_envs_def)

text \<open>
  The check and the walk disagree on lists that branch: \<open>EnvChain\<close> accepts two successors of
  one environment, and \<open>ChainOrder\<close> returns only one of them.
\<close>

theorem chain_order_drops_branches:
  "EnvChain branching_envs [] = [] \<and>
   ChainOrder branching_envs = Some [branching_envs ! 0, branching_envs ! 2]"
  by (intro conjI; code_simp)

end
