(* ===== verification/Admission.thy ===== *)
theory Admission
  imports Validation Env_Chain
begin

text \<open>
  What the admission webhooks of \<^verbatim>\<open>internal/webhook\<close> share: the answer of a validator, the client
  reads it makes, the warnings for references that are not there yet, and the interface that most
  of them implement, a field that no accepted update changes.
\<close>

section \<open>Answers and reads\<close>

text \<open>
  \<^verbatim>\<open>(admission.Warnings, error)\<close>.  The error is \<^verbatim>\<open>apierrors.NewForbidden\<close> with the object's name
  and the text, or \<^verbatim>\<open>apierrors.NewInvalid\<close> with the field errors.  A warning about a reference
  keeps its parts; the fixed sentence around them is dropped.
\<close>

datatype admission_error = AForbidden string string | AInvalid string "field_error list"

datatype warning = WMissing fpath string string string | WText string

type_synonym admission = "warning list \<times> admission_error option"

definition admit :: admission where
  "admit = ([], None)"

definition forbid :: "string \<Rightarrow> string \<Rightarrow> admission" where
  "forbid name text = ([], Some (AForbidden name text))"

text \<open>The last lines of every \<^verbatim>\<open>validate\<close>.\<close>

definition verdict :: "string \<Rightarrow> warning list \<Rightarrow> field_error list \<Rightarrow> admission" where
  "verdict name ws errs = (ws, if errs = [] then None else Some (AInvalid name errs))"

definition accepted :: "admission \<Rightarrow> bool" where
  "accepted a = (snd a = None)"

lemma accepted_simps [simp]:
  "accepted admit" "\<not> accepted (forbid n t)" "accepted (verdict n ws errs) \<longleftrightarrow> errs = []"
  "accepted (ws, None)" "\<not> accepted (ws, Some e)"
  by (simp_all add: accepted_def admit_def forbid_def verdict_def)

text \<open>
  The \<^verbatim>\<open>warnIf...Missing\<close> methods: a warning when the object is not found, nothing when it is
  there and nothing when the API server fails.
\<close>

definition warnIfMissing :: "'a k8s_get \<Rightarrow> string \<Rightarrow> string \<Rightarrow> string \<Rightarrow> fpath \<Rightarrow> warning list" where
  "warnIfMissing get kind ns name path =
     (case get ns name of
        Inr _ \<Rightarrow> []
      | Inl e \<Rightarrow> (if ignore_not_found e = None then [WMissing path kind name ns] else []))"

fun warnRefs ::
  "'a k8s_get \<Rightarrow> string \<Rightarrow> string \<Rightarrow> fpath \<Rightarrow> nat \<Rightarrow> local_object_ref list \<Rightarrow> warning list" where
  "warnRefs get kind ns path i [] = []"
| "warnRefs get kind ns path i (r # rs) =
     warnIfMissing get kind ns (lor_name r) (index path i) @ warnRefs get kind ns path (Suc i) rs"

section \<open>Immutable fields\<close>

text \<open>
  The contract: an update the webhook accepts keeps a projection of the object.  Then the
  projection is the same at both ends of any sequence of accepted updates.
\<close>

locale immutable_field =
  fixes updates :: "'o \<Rightarrow> 'o \<Rightarrow> bool"
    and field_of :: "'o \<Rightarrow> 'f"
  assumes keeps: "updates a b \<Longrightarrow> field_of a = field_of b"
begin

lemma keeps_always: "updates\<^sup>*\<^sup>* a b \<Longrightarrow> field_of a = field_of b"
  by (induction rule: rtranclp_induct) (auto dest: keeps)

lemma changed_rejected: "field_of a \<noteq> field_of b \<Longrightarrow> \<not> updates a b"
  using keeps by blast

end

text \<open>
  The same contract once the object is frozen; an object that is frozen stays so while its
  status only moves through \<open>moves\<close>, which the controller does and which keeps the field.
\<close>

locale frozen_field =
  fixes updates :: "'o \<Rightarrow> 'o \<Rightarrow> bool"
    and moves :: "'o \<Rightarrow> 'o \<Rightarrow> bool"
    and frozen :: "'o \<Rightarrow> bool"
    and field_of :: "'o \<Rightarrow> 'f"
  assumes frozen_keeps: "frozen a \<Longrightarrow> updates a b \<Longrightarrow> frozen b \<and> field_of a = field_of b"
    and moves_keep: "moves a b \<Longrightarrow> (frozen a \<longrightarrow> frozen b) \<and> field_of a = field_of b"
begin

lemma frozen_forever:
  "(\<lambda>x y. updates x y \<or> moves x y)\<^sup>*\<^sup>* a b \<Longrightarrow> frozen a \<Longrightarrow> frozen b \<and> field_of a = field_of b"
proof (induction rule: rtranclp_induct)
  case base
  then show ?case by simp
next
  case (step b c)
  then show ?case using frozen_keeps [of b c] moves_keep [of b c] by auto
qed

end

end
