(* ===== verification/Webhooks_Projects.thy ===== *)
theory Webhooks_Projects
  imports Admission
begin

text \<open>
  The validators of \<^verbatim>\<open>contentproject_webhook.go\<close> (projects and promotions),
  \<^verbatim>\<open>clmenvironment_webhook.go\<close>, \<^verbatim>\<open>task_webhook.go\<close> and \<^verbatim>\<open>organization_webhook.go\<close>.  The
  client reads of a validator are its first arguments; \<^verbatim>\<open>cron.ParseStandard\<close> is the parameter
  \<open>cron\<close>, which gives the error text of a schedule it does not parse.
\<close>

section \<open>ContentProject\<close>

fun filter_name_loop :: "nat \<Rightarrow> string list \<Rightarrow> project_filter list \<Rightarrow> field_error list" where
  "filter_name_loop i seen [] = []"
| "filter_name_loop i seen (f # fs) =
     (if pf_name f \<in> set seen
      then [EDuplicate (child (index [PChild ''spec'', PChild ''filters''] i) ''name'') (pf_name f)]
      else [])
     @ filter_name_loop (Suc i) (pf_name f # seen) fs"

definition cp_validate ::
  "(string \<Rightarrow> string option) \<Rightarrow> ('a) content_project_scheme \<Rightarrow> admission" where
  "cp_validate cron cp =
     (let s = cp_spec cp;
          errs1 = (if cp_environments s \<noteq> []
            then EnvChain (cp_environments s) [PChild ''spec'', PChild ''environments''] else []);
          sched = bp_schedule (cp_build s);
          errs2 = (if sched \<noteq> []
            then (case cron sched of
                None \<Rightarrow> []
              | Some err \<Rightarrow> [EInvalid [PChild ''spec'', PChild ''build'', PChild ''schedule'']
                  (BVStr sched) (''invalid cron expression: '' @ err)])
            else []);
          errs3 = filter_name_loop 0 [] (cp_filters s);
          errs4 = StrictBooleanAnnotations (obj_annotations cp) DangerousAnnotations
            [PChild ''metadata'', PChild ''annotations'']
      in verdict (obj_name cp) [] (errs1 @ errs2 @ errs3 @ errs4))"

definition cp_ValidateUpdate ::
  "(string \<Rightarrow> string option) \<Rightarrow> ('a) content_project_scheme \<Rightarrow> ('a) content_project_scheme \<Rightarrow>
   admission" where
  "cp_ValidateUpdate cron oldCP newCP =
     (if cp_label (cp_spec oldCP) \<noteq> cp_label (cp_spec newCP)
      then forbid (obj_name newCP) ''spec.label is immutable''
      else cp_validate cron newCP)"

lemma filter_name_loop_Nil:
  "filter_name_loop i seen fs = [] \<longleftrightarrow>
     distinct (map pf_name fs) \<and> set seen \<inter> pf_name ` set fs = {}"
  by (induction fs arbitrary: i seen) auto

lemma cp_validate_accepted:
  "accepted (cp_validate cron cp) \<longleftrightarrow>
     (cp_environments (cp_spec cp) = [] \<or> env_chain_ok (cp_environments (cp_spec cp))) \<and>
     (bp_schedule (cp_build (cp_spec cp)) = [] \<or> cron (bp_schedule (cp_build (cp_spec cp))) = None) \<and>
     distinct (map pf_name (cp_filters (cp_spec cp))) \<and>
     (\<forall>a \<in> {AnnForceDelete, AnnReinstallNow}. obj_annotations cp a \<in> {None, Some ''true''})"
  by (auto simp: cp_validate_def Let_def EnvChain_Nil_iff filter_name_loop_Nil
      StrictBooleanAnnotations_Nil DangerousAnnotations_def split: option.splits)

interpretation cp_label_fixed: immutable_field
  "\<lambda>a b. \<exists>cron. accepted (cp_ValidateUpdate cron a b)" "\<lambda>cp. cp_label (cp_spec cp)"
  by unfold_locales (auto simp: cp_ValidateUpdate_def split: if_splits)

section \<open>ContentProjectPromotion\<close>

text \<open>The environments of a project: the embedded ones, then the ClmEnvironments that name it.\<close>

definition project_env_tables ::
  "('a) content_project_scheme \<Rightarrow> (go_error + ('b) clm_environment_scheme list) \<Rightarrow>
   (string \<rightharpoonup> bool) \<times> (string \<rightharpoonup> string)" where
  "project_env_tables cp envList =
     (let embedded = foldl (\<lambda>(known, pred) e.
            (known(pe_label e \<mapsto> True), pred(pe_label e \<mapsto> pe_predecessor e)))
            (Map.empty, Map.empty) (cp_environments (cp_spec cp))
      in case envList of
           Inl _ \<Rightarrow> embedded
         | Inr items \<Rightarrow> foldl (\<lambda>(known, pred) e.
             if lor_name (env_project_ref (env_spec e)) \<noteq> obj_name cp then (known, pred)
             else (known(env_id (env_spec e) \<mapsto> True),
                   pred(env_id (env_spec e) \<mapsto> env_predecessor (env_spec e)))) embedded items)"

definition promotion_validate ::
  "('a) content_project_scheme k8s_get \<Rightarrow> ('b) clm_environment_scheme k8s_list \<Rightarrow>
   ('c) promotion_scheme \<Rightarrow> admission" where
  "promotion_validate getCP listEnv p =
     (case getCP (obj_namespace p) (lor_name (pr_project_ref (pr_spec p))) of
        Inl e \<Rightarrow> (if ignore_not_found e = None
          then ([WText (''ContentProject '' @ go_quote (lor_name (pr_project_ref (pr_spec p)))
                  @ '' not found; will be re-validated at reconcile'')], None)
          else admit)
      | Inr cp \<Rightarrow>
          let (known, pred) = project_env_tables cp (listEnv (obj_namespace p))
          in verdict (obj_name p) []
               (PromotionPair known pred (pr_from (pr_spec p)) (pr_to (pr_spec p))
                 [PChild ''spec'', PChild ''fromEnvironment'']
                 [PChild ''spec'', PChild ''toEnvironment'']))"

definition promotion_ValidateUpdate ::
  "('a) content_project_scheme k8s_get \<Rightarrow> ('b) clm_environment_scheme k8s_list \<Rightarrow>
   ('c) promotion_scheme \<Rightarrow> ('c) promotion_scheme \<Rightarrow> admission" where
  "promotion_ValidateUpdate getCP listEnv oldP newP =
     (if prs_phase (pr_status oldP) \<noteq> [] \<and> prs_phase (pr_status oldP) \<noteq> ''Pending''
      then if (pr_spec oldP)\<lparr>pr_ttl := pr_ttl (pr_spec newP)\<rparr> \<noteq> pr_spec newP
           then forbid (obj_name newP)
             ''spec is immutable once promotion is past Pending (only ttlAfterFinished can change)''
           else admit
      else promotion_validate getCP listEnv newP)"

text \<open>The spec of a promotion without its retention time.\<close>

definition promotion_frozen_spec :: "('c) promotion_scheme \<Rightarrow> promotion_spec" where
  "promotion_frozen_spec p = (pr_spec p)\<lparr>pr_ttl := 0\<rparr>"

text \<open>
  A user edit reaches the webhook with the stored status (the status subresource is separate);
  a controller write changes the status only and, once past Pending, never goes back.
\<close>

definition promotion_past_pending :: "('c) promotion_scheme \<Rightarrow> bool" where
  "promotion_past_pending p = (prs_phase (pr_status p) \<notin> {[], ''Pending''})"

interpretation promotion_frozen: frozen_field
  "\<lambda>a b. (\<exists>getCP listEnv. accepted (promotion_ValidateUpdate getCP listEnv a b)) \<and>
     pr_status b = pr_status a"
  "\<lambda>a b. pr_spec b = pr_spec a \<and> (promotion_past_pending a \<longrightarrow> promotion_past_pending b)"
  promotion_past_pending promotion_frozen_spec
proof (unfold_locales, goal_cases)
  case (1 a b)
  then have "(pr_spec a)\<lparr>pr_ttl := pr_ttl (pr_spec b)\<rparr> = pr_spec b" "promotion_past_pending b"
    by (auto simp: promotion_ValidateUpdate_def promotion_past_pending_def split: if_splits)
  then show ?case
    unfolding promotion_frozen_spec_def by (metis promotion_spec.surjective promotion_spec.update_convs(6))
qed (simp add: promotion_frozen_spec_def)

text \<open>
  What the tables hold: an environment of the project is known, and its predecessor is the one
  of the last declaration with that label (the ClmEnvironments come after the embedded list).
\<close>

definition env_decls ::
  "('a) content_project_scheme \<Rightarrow> (go_error + ('b) clm_environment_scheme list) \<Rightarrow>
   (string \<times> string) list" where
  "env_decls cp envList =
     map (\<lambda>e. (pe_label e, pe_predecessor e)) (cp_environments (cp_spec cp))
     @ (case envList of
          Inl _ \<Rightarrow> []
        | Inr items \<Rightarrow> map (\<lambda>e. (env_id (env_spec e), env_predecessor (env_spec e)))
            (filter (\<lambda>e. lor_name (env_project_ref (env_spec e)) = obj_name cp) items))"

definition fold_decls ::
  "(string \<rightharpoonup> bool) \<times> (string \<rightharpoonup> string) \<Rightarrow> (string \<times> string) list \<Rightarrow>
   (string \<rightharpoonup> bool) \<times> (string \<rightharpoonup> string)" where
  "fold_decls kp ds = foldl (\<lambda>(known, pred) (l, p). (known(l \<mapsto> True), pred(l \<mapsto> p))) kp ds"

lemma fold_decls_embedded:
  "foldl (\<lambda>(known, pred) e. (known(pe_label e \<mapsto> True), pred(pe_label e \<mapsto> pe_predecessor e))) kp es
     = fold_decls kp (map (\<lambda>e. (pe_label e, pe_predecessor e)) es)"
  unfolding fold_decls_def by (induction es arbitrary: kp) (auto simp del: fun_upd_apply)

lemma fold_decls_live:
  "foldl (\<lambda>(known, pred) e.
       if lor_name (env_project_ref (env_spec e)) \<noteq> n then (known, pred)
       else (known(env_id (env_spec e) \<mapsto> True),
             pred(env_id (env_spec e) \<mapsto> env_predecessor (env_spec e)))) kp es
     = fold_decls kp (map (\<lambda>e. (env_id (env_spec e), env_predecessor (env_spec e)))
         (filter (\<lambda>e. lor_name (env_project_ref (env_spec e)) = n) es))"
  unfolding fold_decls_def by (induction es arbitrary: kp) (auto simp del: fun_upd_apply)

lemma project_env_tables_decls:
  "project_env_tables cp envList = fold_decls (Map.empty, Map.empty) (env_decls cp envList)"
  unfolding project_env_tables_def env_decls_def Let_def fold_decls_embedded fold_decls_live
  by (cases envList) (simp_all add: fold_decls_def)

lemma fold_decls_result:
  "fst (fold_decls (k, p) ds) l = (if l \<in> fst ` set ds then Some True else k l) \<and>
   snd (fold_decls (k, p) ds) l = (case map_of (rev ds) l of None \<Rightarrow> p l | Some x \<Rightarrow> Some x)"
  unfolding fold_decls_def
proof (induction ds arbitrary: k p)
  case Nil
  then show ?case by simp
next
  case (Cons d ds)
  obtain l' p' where d: "d = (l', p')" by (cases d)
  show ?case
    using Cons.IH [of "k(l' \<mapsto> True)" "p(l' \<mapsto> p')"] d
    by (cases "map_of (rev ds) l") (simp_all add: map_add_def)
qed

lemma promotion_validate_accepted:
  assumes "getCP (obj_namespace pr) (lor_name (pr_project_ref (pr_spec pr))) = Inr cp"
    and ds: "ds = env_decls cp (listEnv (obj_namespace pr))"
  shows "accepted (promotion_validate getCP listEnv pr) \<longleftrightarrow>
     pr_from (pr_spec pr) \<noteq> [] \<and> pr_to (pr_spec pr) \<noteq> [] \<and>
     pr_from (pr_spec pr) \<noteq> pr_to (pr_spec pr) \<and>
     pr_from (pr_spec pr) \<in> fst ` set ds \<and>
     map_of (rev ds) (pr_to (pr_spec pr)) = Some (pr_from (pr_spec pr))"
proof -
  have "fst (fold_decls (Map.empty, Map.empty) ds) l = Some True \<longleftrightarrow> l \<in> fst ` set ds"
    "snd (fold_decls (Map.empty, Map.empty) ds) l = map_of (rev ds) l" for l
    using fold_decls_result [of Map.empty Map.empty ds l] by (auto split: option.splits)
  then show ?thesis
    by (simp add: promotion_validate_def assms(1) project_env_tables_decls PromotionPair_Nil
        split_beta flip: ds)
qed

section \<open>ClmEnvironment\<close>

definition clmenv_ValidateUpdate ::
  "('a) clm_environment_scheme \<Rightarrow> ('a) clm_environment_scheme \<Rightarrow> admission" where
  "clmenv_ValidateUpdate old env =
     (if env_id (env_spec old) \<noteq> env_id (env_spec env)
      then forbid (obj_name env) ''spec.id is immutable''
      else if lor_name (env_project_ref (env_spec old)) \<noteq> lor_name (env_project_ref (env_spec env))
      then forbid (obj_name env) ''spec.projectRef is immutable''
      else if env_cluster (env_spec old) \<noteq> env_cluster (env_spec env)
      then forbid (obj_name env) ''spec.cluster is immutable''
      else admit)"

interpretation clmenv_identity: immutable_field
  "\<lambda>a b. accepted (clmenv_ValidateUpdate a b)"
  "\<lambda>e. (env_id (env_spec e), lor_name (env_project_ref (env_spec e)), env_cluster (env_spec e))"
  by unfold_locales (auto simp: clmenv_ValidateUpdate_def split: if_splits)

section \<open>Task\<close>

definition task_target_warnings ::
  "'s k8s_get \<Rightarrow> 'g k8s_get \<Rightarrow> ('a) task_scheme \<Rightarrow> warning list" where
  "task_target_warnings getSys getGroup t =
     (let tgt = tk_target (tk_spec t); base = [PChild ''spec'', PChild ''target''] in
      (case st_system_ref tgt of
         None \<Rightarrow> []
       | Some r \<Rightarrow> warnIfMissing getSys ''System'' (obj_namespace t) (lor_name r)
           (child base ''systemRef''))
      @ (case st_system_group_ref tgt of
           None \<Rightarrow> []
         | Some r \<Rightarrow> warnIfMissing getGroup ''SystemGroup'' (obj_namespace t) (lor_name r)
             (child base ''systemGroupRef'')))"

definition task_validate ::
  "'s k8s_get \<Rightarrow> 'g k8s_get \<Rightarrow> ('a) task_scheme \<Rightarrow> admission" where
  "task_validate getSys getGroup t =
     (let errs = TaskSpec (tk_spec t) [PChild ''spec'']
        @ StrictBooleanAnnotations (obj_annotations t) DangerousAnnotations
            [PChild ''metadata'', PChild ''annotations'']
      in verdict (obj_name t) (task_target_warnings getSys getGroup t) errs)"

definition task_ValidateUpdate ::
  "'s k8s_get \<Rightarrow> 'g k8s_get \<Rightarrow> ('a) task_scheme \<Rightarrow> ('a) task_scheme \<Rightarrow> admission" where
  "task_ValidateUpdate getSys getGroup oldT newT =
     (if ts_runs (tk_status oldT) \<noteq> [] \<and>
         (tk_spec oldT)\<lparr>tk_ttl := tk_ttl (tk_spec newT)\<rparr> \<noteq> tk_spec newT
      then forbid (obj_name newT)
        ''spec is immutable after first execution (only ttlAfterFinished can change)''
      else task_validate getSys getGroup newT)"

definition task_frozen_spec :: "('a) task_scheme \<Rightarrow> task_spec" where
  "task_frozen_spec t = (tk_spec t)\<lparr>tk_ttl := 0\<rparr>"

definition task_executed :: "('a) task_scheme \<Rightarrow> bool" where
  "task_executed t = (ts_runs (tk_status t) \<noteq> [])"

interpretation task_frozen: frozen_field
  "\<lambda>a b. (\<exists>getSys getGroup. accepted (task_ValidateUpdate getSys getGroup a b)) \<and>
     tk_status b = tk_status a"
  "\<lambda>a b. tk_spec b = tk_spec a \<and> (task_executed a \<longrightarrow> task_executed b)"
  task_executed task_frozen_spec
proof (unfold_locales, goal_cases)
  case (1 a b)
  then have "(tk_spec a)\<lparr>tk_ttl := tk_ttl (tk_spec b)\<rparr> = tk_spec b" "task_executed b"
    by (auto simp: task_ValidateUpdate_def task_executed_def split: if_splits)
  then show ?case
    unfolding task_frozen_spec_def by (metis task_spec.surjective task_spec.update_convs(8))
qed (simp add: task_frozen_spec_def)

section \<open>Organization\<close>

definition import_id :: "organization_spec \<Rightarrow> int" where
  "import_id s = (case org_import s of None \<Rightarrow> 0 | Some i \<Rightarrow> oi_organization_id i)"

definition org_validateSpec ::
  "('a) organization_scheme \<Rightarrow> ('a) organization_scheme option \<Rightarrow> admission_error option" where
  "org_validateSpec org old =
     (let s = org_spec org; forbidden = (\<lambda>text. Some (AForbidden (obj_name org) text)) in
      if org_name s = [] then forbidden ''spec.name is required''
      else if lor_name (org_provider_ref s) = [] then forbidden ''spec.providerRef.name is required''
      else case old of
        None \<Rightarrow> None
      | Some o' \<Rightarrow>
          let os = org_spec o' in
          if org_name os \<noteq> [] \<and> org_name s \<noteq> org_name os
          then forbidden ''spec.name is immutable after creation''
          else if lor_name (org_provider_ref os) \<noteq> [] \<and>
                  lor_name (org_provider_ref s) \<noteq> lor_name (org_provider_ref os)
          then forbidden ''spec.providerRef.name is immutable after creation''
          else if import_id os \<noteq> 0 \<and> import_id s \<noteq> import_id os
          then forbidden ''spec.import.organizationId is immutable once set''
          else None)"

text \<open>\<^verbatim>\<open>UyuniProvider\<close> is cluster-scoped: it is read by name alone.\<close>

type_synonym 'p provider_get = "string \<Rightarrow> go_error + 'p"

definition providerURL ::
  "('p) uyuni_provider_scheme provider_get \<Rightarrow> string \<Rightarrow> go_error + string" where
  "providerURL getProv providerName =
     (case getProv providerName of Inl e \<Rightarrow> Inl e | Inr prov \<Rightarrow> Inr (prov_url (prov_spec prov)))"

fun duplicate_loop ::
  "('p) uyuni_provider_scheme provider_get \<Rightarrow> ('a) organization_scheme \<Rightarrow> string \<Rightarrow>
   ('a) organization_scheme list \<Rightarrow> admission" where
  "duplicate_loop getProv org myURL [] = admit"
| "duplicate_loop getProv org myURL (other # rest) =
     (if obj_namespace other = obj_namespace org \<and> obj_name other = obj_name org
      then duplicate_loop getProv org myURL rest
      else if org_import (org_spec other) \<noteq> None \<or> org_name (org_spec other) \<noteq> org_name (org_spec org)
      then duplicate_loop getProv org myURL rest
      else case providerURL getProv (lor_name (org_provider_ref (org_spec other))) of
             Inl _ \<Rightarrow> duplicate_loop getProv org myURL rest
           | Inr otherURL \<Rightarrow>
               if otherURL \<noteq> myURL then duplicate_loop getProv org myURL rest
               else forbid (obj_name org)
                 (''Organization '' @ obj_namespace other @ ''/'' @ obj_name other @
                  '' already uses name '' @ go_quote (org_name (org_spec org)) @ '' on Uyuni server ''
                  @ go_quote myURL @ ''; names must be unique per server (use spec.import to intentionally share an existing org)''))"

definition checkDuplicate ::
  "('p) uyuni_provider_scheme provider_get \<Rightarrow> (go_error + ('a) organization_scheme list) \<Rightarrow>
   ('a) organization_scheme \<Rightarrow> admission" where
  "checkDuplicate getProv listOrg org =
     (if org_import (org_spec org) \<noteq> None \<or> org_name (org_spec org) = []
         \<or> lor_name (org_provider_ref (org_spec org)) = [] then admit
      else case providerURL getProv (lor_name (org_provider_ref (org_spec org))) of
        Inl _ \<Rightarrow> ([WText ''could not resolve spec.providerRef to verify org name uniqueness; will be re-validated at reconcile''], None)
      | Inr myURL \<Rightarrow>
          case listOrg of
            Inl _ \<Rightarrow> ([WText ''could not list Organizations to verify uniqueness of spec.name; will be re-validated at reconcile''], None)
          | Inr items \<Rightarrow> duplicate_loop getProv org myURL items)"

definition org_ValidateCreate ::
  "('p) uyuni_provider_scheme provider_get \<Rightarrow> (go_error + ('a) organization_scheme list) \<Rightarrow>
   ('a) organization_scheme \<Rightarrow> admission" where
  "org_ValidateCreate getProv listOrg org =
     (case org_validateSpec org None of
        Some e \<Rightarrow> ([], Some e)
      | None \<Rightarrow> checkDuplicate getProv listOrg org)"

definition org_ValidateUpdate ::
  "('a) organization_scheme \<Rightarrow> ('a) organization_scheme \<Rightarrow> admission" where
  "org_ValidateUpdate old org = ([], org_validateSpec org (Some old))"

text \<open>
  Two organizations clash when they are different objects, neither is imported, and they have one
  name on one server; the server is the provider's URL, not its object name.
\<close>

definition org_clash ::
  "('p) uyuni_provider_scheme provider_get \<Rightarrow> ('a) organization_scheme \<Rightarrow>
   ('a) organization_scheme \<Rightarrow> bool" where
  "org_clash getProv a b =
     ((obj_namespace a, obj_name a) \<noteq> (obj_namespace b, obj_name b) \<and>
      org_import (org_spec a) = None \<and> org_import (org_spec b) = None \<and>
      org_name (org_spec a) = org_name (org_spec b) \<and>
      (case (providerURL getProv (lor_name (org_provider_ref (org_spec a))),
             providerURL getProv (lor_name (org_provider_ref (org_spec b)))) of
         (Inr u, Inr v) \<Rightarrow> u = v | _ \<Rightarrow> False))"

lemma org_clash_sym: "org_clash getProv a b = org_clash getProv b a"
  by (auto simp: org_clash_def split: sum.splits)

lemma duplicate_loop_accepted:
  assumes "providerURL getProv (lor_name (org_provider_ref (org_spec org))) = Inr myURL"
    and "org_import (org_spec org) = None"
  shows "accepted (duplicate_loop getProv org myURL items) \<longleftrightarrow>
    (\<forall>other \<in> set items. \<not> org_clash getProv org other)"
  using assms by (induction items) (auto simp: org_clash_def split: sum.splits)

lemma org_ValidateCreate_accepted:
  assumes "providerURL getProv (lor_name (org_provider_ref (org_spec org))) = Inr myURL"
  shows "accepted (org_ValidateCreate getProv (Inr items) org) \<longleftrightarrow>
    org_name (org_spec org) \<noteq> [] \<and> lor_name (org_provider_ref (org_spec org)) \<noteq> [] \<and>
    (\<forall>other \<in> set items. \<not> org_clash getProv org other)"
proof (cases "org_import (org_spec org)")
  case None
  then show ?thesis
    using duplicate_loop_accepted [OF assms None, of items] assms
    by (auto simp: org_ValidateCreate_def org_validateSpec_def checkDuplicate_def Let_def)
next
  case (Some i)
  then show ?thesis
    by (auto simp: org_ValidateCreate_def org_validateSpec_def checkDuplicate_def Let_def org_clash_def)
qed

interpretation org_identity: immutable_field
  "\<lambda>a b. org_name (org_spec a) \<noteq> [] \<and> lor_name (org_provider_ref (org_spec a)) \<noteq> [] \<and>
     accepted (org_ValidateUpdate a b)"
  "\<lambda>g. (org_name (org_spec g), lor_name (org_provider_ref (org_spec g)))"
  by unfold_locales (auto simp: org_ValidateUpdate_def org_validateSpec_def Let_def split: if_splits)

end
