(* ===== verification/Webhooks_Systems.thy ===== *)
theory Webhooks_Systems
  imports Admission
begin

text \<open>
  The defaulter and validators of \<^verbatim>\<open>system_webhook.go\<close> (systems and groups),
  \<^verbatim>\<open>activationkey_webhook.go\<close>, \<^verbatim>\<open>maintenancecalendar_webhook.go\<close> and
  \<^verbatim>\<open>maintenanceschedule_webhook.go\<close>.
\<close>

section \<open>System defaults\<close>

definition hour :: int where
  "hour = 60 * minute"

definition system_Default :: "('a) uyuni_system_scheme \<Rightarrow> ('a) uyuni_system_scheme" where
  "system_Default sys =
     (let s = sys_spec sys;
          s1 = (if sys_hostname s = [] \<and> sys_minion_id s \<noteq> []
                then s\<lparr>sys_hostname := sys_minion_id s\<rparr> else s);
          s2 = (if sys_adoption_timeout s1 = 0
                then s1\<lparr>sys_adoption_timeout := (if sys_pre_create s1 then 24 * hour else 30 * minute)\<rparr>
                else s1);
          s3 = (if sys_deletion_policy s2 = [] then s2\<lparr>sys_deletion_policy := ''Orphan''\<rparr> else s2)
      in sys\<lparr>sys_spec := s3\<rparr>)"

text \<open>Admission may run a mutating webhook again: defaulting is idempotent and only fills gaps.\<close>

lemma system_Default_idem: "system_Default (system_Default sys) = system_Default sys"
  by (cases "sys_hostname (sys_spec sys) = []"; cases "sys_minion_id (sys_spec sys) = []";
      cases "sys_adoption_timeout (sys_spec sys) = 0"; cases "sys_pre_create (sys_spec sys)";
      cases "sys_deletion_policy (sys_spec sys) = []")
    (simp_all add: system_Default_def Let_def hour_def)

lemma system_Default_fields:
  "sys_hostname (sys_spec (system_Default sys)) =
     (if sys_hostname (sys_spec sys) = [] then sys_minion_id (sys_spec sys)
      else sys_hostname (sys_spec sys))"
  "sys_adoption_timeout (sys_spec (system_Default sys)) \<noteq> 0"
  "sys_deletion_policy (sys_spec (system_Default sys)) \<noteq> []"
  "sys_minion_id (sys_spec (system_Default sys)) = sys_minion_id (sys_spec sys)"
  "sys_status (system_Default sys) = sys_status sys"
  by (simp_all add: system_Default_def Let_def hour_def)

section \<open>System\<close>

record ('g, 'c, 'p) system_reads =
  get_group :: "'g k8s_get"
  get_config_channel :: "'c k8s_get"
  get_autoinstall_profile :: "'p k8s_get"

definition profile_ref_name :: "autoinstall_spec \<Rightarrow> string" where
  "profile_ref_name ai = (case ai_profile_ref ai of None \<Rightarrow> [] | Some r \<Rightarrow> lor_name r)"

definition system_errs :: "('a) uyuni_system_scheme \<Rightarrow> field_error list" where
  "system_errs sys =
     (let s = sys_spec sys; spec = [PChild ''spec''];
          annp = [PChild ''metadata'', PChild ''annotations''] in
      ChannelRefMutex (sys_base_channel_ref s) (sys_base_channel_from s)
        (sys_child_channel_refs s) (sys_child_channels_from s) spec
      @ PreCreateRequiresIdentification (sys_pre_create s) (sys_hostname s) (sys_network s) spec
      @ StrictBooleanAnnotations (obj_annotations sys) DangerousAnnotations annp
      @ BooleanValueAnnotations (obj_annotations sys) [AnnNetboot] annp
      @ SystemFormulas (sys_formulas s) (child spec ''formulas'')
      @ SystemCustomInfoValues (sys_custom_info_values s) (child spec ''customInfoValues'')
      @ AutoinstallVariables (sys_autoinstall s) (child spec ''autoinstall'')
      @ (case sys_proxy_ref s of
           None \<Rightarrow> []
         | Some r \<Rightarrow> if lor_name r = obj_name sys
             then [EInvalid (child (child spec ''proxyRef'') ''name'') (BVStr (lor_name r))
               ''a system cannot be its own proxy''] else [])
      @ (if has_annotation sys AnnReinstallNow \<and> sys_autoinstall s = None
         then [ERequired (child spec ''autoinstall'')
           ''spec.autoinstall must be set when using the reinstall-now annotation''] else [])
      @ (case sys_autoinstall s of
           None \<Rightarrow> []
         | Some ai \<Rightarrow> (case ai_profile_ref ai of
             None \<Rightarrow> []
           | Some r \<Rightarrow> if ai_profile ai \<noteq> []
               then [EInvalid (child (child spec ''autoinstall'') ''profileRef'') (BVRef (lor_name r))
                 ''spec.autoinstall.profile and spec.autoinstall.profileRef are mutually exclusive; set exactly one'']
               else [])))"

definition system_validate ::
  "('g, 'c, 'p) system_reads \<Rightarrow> ('a) uyuni_system_scheme \<Rightarrow> admission" where
  "system_validate reads sys =
     (let s = sys_spec sys; spec = [PChild ''spec''];
          ws = warnRefs (get_group reads) ''SystemGroup'' (obj_namespace sys)
                 (child spec ''groupRefs'') 0 (sys_group_refs s)
             @ warnRefs (get_config_channel reads) ''ConfigurationChannel'' (obj_namespace sys)
                 (child spec ''configChannelRefs'') 0 (sys_config_channel_refs s)
             @ (case sys_autoinstall s of
                  None \<Rightarrow> []
                | Some ai \<Rightarrow> (case ai_profile_ref ai of
                    None \<Rightarrow> []
                  | Some r \<Rightarrow> warnIfMissing (get_autoinstall_profile reads) ''AutoinstallProfile''
                      (obj_namespace sys) (lor_name r) (child (child spec ''autoinstall'') ''profileRef'')))
      in verdict (obj_name sys) ws (system_errs sys))"

definition system_ValidateUpdate ::
  "('g, 'c, 'p) system_reads \<Rightarrow> ('a) uyuni_system_scheme \<Rightarrow> ('a) uyuni_system_scheme \<Rightarrow>
   admission" where
  "system_ValidateUpdate reads oldSys newSys =
     (if sys_minion_id (sys_spec oldSys) \<noteq> sys_minion_id (sys_spec newSys)
      then forbid (obj_name newSys) ''spec.minionId is immutable''
      else case (sys_autoinstall (sys_spec oldSys), sys_autoinstall (sys_spec newSys)) of
        (Some oldAI, Some newAI) \<Rightarrow>
          if syss_autoinstall_action_id (sys_status oldSys) \<noteq> 0 then
            if ai_profile oldAI \<noteq> ai_profile newAI
            then forbid (obj_name newSys)
              ''spec.autoinstall.profile is immutable after provisioning has been scheduled''
            else if profile_ref_name oldAI \<noteq> profile_ref_name newAI
            then forbid (obj_name newSys)
              ''spec.autoinstall.profileRef is immutable after provisioning has been scheduled''
            else system_validate reads newSys
          else system_validate reads newSys
      | _ \<Rightarrow> system_validate reads newSys)"

lemma system_validate_accepted [simp]:
  "accepted (system_validate reads sys) \<longleftrightarrow> system_errs sys = []"
  by (simp add: system_validate_def Let_def)

interpretation system_minion: immutable_field
  "\<lambda>a b. \<exists>reads. accepted (system_ValidateUpdate reads a b)" "\<lambda>s. sys_minion_id (sys_spec s)"
  by unfold_locales (auto simp: system_ValidateUpdate_def split: if_splits)

text \<open>
  The profile is immutable only while both versions have an \<^verbatim>\<open>autoinstall\<close> block: a scheduled
  system can drop the block in one accepted update and name another profile in the next.
\<close>

section \<open>SystemGroup\<close>

definition sg_validate :: "('a) system_group_scheme \<Rightarrow> admission" where
  "sg_validate sg = verdict (obj_name sg) []
     (SystemFormulas (sg_formulas (sg_spec sg)) [PChild ''spec'', PChild ''formulas''])"

definition sg_ValidateUpdate ::
  "('a) system_group_scheme \<Rightarrow> ('a) system_group_scheme \<Rightarrow> admission" where
  "sg_ValidateUpdate old sg =
     (if sg_name (sg_spec old) \<noteq> sg_name (sg_spec sg)
      then forbid (obj_name sg) ''spec.name is immutable''
      else if sg_cluster (sg_spec old) \<noteq> sg_cluster (sg_spec sg)
      then forbid (obj_name sg) ''spec.cluster is immutable''
      else sg_validate sg)"

interpretation sg_identity: immutable_field
  "\<lambda>a b. accepted (sg_ValidateUpdate a b)" "\<lambda>g. (sg_name (sg_spec g), sg_cluster (sg_spec g))"
  by unfold_locales (auto simp: sg_ValidateUpdate_def split: if_splits)

section \<open>ActivationKey\<close>

definition validateProjectRef ::
  "('p) content_project_scheme k8s_get \<Rightarrow> string \<Rightarrow> channel_from_project \<Rightarrow> fpath \<Rightarrow>
   warning list \<times> field_error list" where
  "validateProjectRef getCP ns ref path =
     (let n = lor_name (cfp_project_ref ref) in
      if n = [] then ([], [])
      else case getCP ns n of
        Inl e \<Rightarrow> (if ignore_not_found e = None
          then ([WMissing path ''ContentProject'' n ns], []) else ([], []))
      | Inr cp \<Rightarrow>
          if list_ex (\<lambda>e. pe_label e = cfp_environment ref) (cp_environments (cp_spec cp))
          then ([], [])
          else ([], [EInvalid (child path ''environment'') (BVStr (cfp_environment ref))
            (''environment not declared in ContentProject '' @ go_quote (obj_name cp) @ '' (available: ''
             @ show_slice (map pe_label (cp_environments (cp_spec cp))) @ '')'')]))"

fun project_refs_loop ::
  "('p) content_project_scheme k8s_get \<Rightarrow> string \<Rightarrow> fpath \<Rightarrow> nat \<Rightarrow> channel_from_project list \<Rightarrow>
   warning list \<times> field_error list" where
  "project_refs_loop getCP ns path i [] = ([], [])"
| "project_refs_loop getCP ns path i (r # rs) =
     (let (w, e) = validateProjectRef getCP ns r (index path i);
          (ws, es) = project_refs_loop getCP ns path (Suc i) rs
      in (w @ ws, e @ es))"

definition ak_validate ::
  "('p) content_project_scheme k8s_get \<Rightarrow> ('a) activation_key_scheme \<Rightarrow> admission" where
  "ak_validate getCP ak =
     (let s = ak_spec ak; ns = obj_namespace ak; spec = [PChild ''spec''];
          errs1 = ChannelRefMutex (ak_base_channel_ref s) (ak_base_channel_from s)
              (ak_child_channel_refs s) (ak_child_channels_from s) spec
            @ StrictBooleanAnnotations (obj_annotations ak) DangerousAnnotations
                [PChild ''metadata'', PChild ''annotations''];
          (ws2, errs2) = (case ak_base_channel_from s of
              None \<Rightarrow> ([], [])
            | Some r \<Rightarrow> validateProjectRef getCP ns r (child spec ''baseChannelFrom''));
          (ws3, errs3) = project_refs_loop getCP ns (child spec ''childChannelsFrom'') 0
              (ak_child_channels_from s)
      in verdict (obj_name ak) (ws2 @ ws3) (errs1 @ errs2 @ errs3))"

definition ak_ValidateUpdate ::
  "('p) content_project_scheme k8s_get \<Rightarrow> ('a) activation_key_scheme \<Rightarrow>
   ('a) activation_key_scheme \<Rightarrow> admission" where
  "ak_ValidateUpdate getCP oldAK newAK =
     (if ak_key (ak_spec oldAK) \<noteq> ak_key (ak_spec newAK)
      then forbid (obj_name newAK) ''spec.key is immutable''
      else ak_validate getCP newAK)"

interpretation ak_key_fixed: immutable_field
  "\<lambda>a b. \<exists>getCP. accepted (ak_ValidateUpdate getCP a b)" "\<lambda>k. ak_key (ak_spec k)"
  by unfold_locales (auto simp: ak_ValidateUpdate_def split: if_splits)

lemma validateProjectRef_ok:
  "snd (validateProjectRef getCP ns r path) = [] \<longleftrightarrow>
     (case getCP ns (lor_name (cfp_project_ref r)) of
        Inl _ \<Rightarrow> True
      | Inr cp \<Rightarrow> lor_name (cfp_project_ref r) = [] \<or>
          cfp_environment r \<in> pe_label ` set (cp_environments (cp_spec cp)))"
proof (cases "getCP ns (lor_name (cfp_project_ref r))")
  case (Inl e)
  then show ?thesis by (simp add: validateProjectRef_def Let_def)
next
  case (Inr cp)
  have "list_ex (\<lambda>e. pe_label e = l) es \<longleftrightarrow> l \<in> pe_label ` set es" for l and es :: "project_environment list"
    by (induction es) auto
  with Inr show ?thesis by (simp add: validateProjectRef_def Let_def)
qed

lemma project_refs_loop_ok:
  "snd (project_refs_loop getCP ns path i rs) = [] \<longleftrightarrow>
     (\<forall>r \<in> set rs. \<forall>p. snd (validateProjectRef getCP ns r p) = [])"
  by (induction rs arbitrary: i)
    (auto simp: split_beta Let_def validateProjectRef_ok)

section \<open>MaintenanceCalendar and MaintenanceSchedule\<close>

definition mc_validate :: "('a) maintenance_calendar_scheme \<Rightarrow> admission" where
  "mc_validate mc = verdict (obj_name mc) []
     (MaintenanceCalendarSourceMutex (mc_ical (mc_spec mc)) (mc_url (mc_spec mc)) [PChild ''spec''])"

definition mc_ValidateUpdate ::
  "('a) maintenance_calendar_scheme \<Rightarrow> ('a) maintenance_calendar_scheme \<Rightarrow> admission" where
  "mc_ValidateUpdate oldMC newMC =
     (if mc_label (mc_spec oldMC) \<noteq> mc_label (mc_spec newMC)
      then ([], Some (AInvalid (obj_name newMC)
        [EForbidden [PChild ''spec'', PChild ''label''] ''label is immutable'']))
      else mc_validate newMC)"

interpretation mc_label_fixed: immutable_field
  "\<lambda>a b. accepted (mc_ValidateUpdate a b)" "\<lambda>c. mc_label (mc_spec c)"
  by unfold_locales (auto simp: mc_ValidateUpdate_def split: if_splits)

record ('c, 's, 'g) schedule_reads =
  sr_get_calendar :: "'c k8s_get"
  sr_get_system :: "'s k8s_get"
  sr_list_systems :: "'s k8s_list"
  sr_get_group :: "'g k8s_get"

definition hostname_short :: "string \<Rightarrow> string option" where
  "hostname_short h = (case str_cut (CHR ''.'') h of None \<Rightarrow> None | Some (s, _) \<Rightarrow> Some s)"

definition warnIfSystemMissing ::
  "('c, ('s) uyuni_system_scheme, 'g) schedule_reads \<Rightarrow> string \<Rightarrow> string \<Rightarrow> fpath \<Rightarrow> warning list" where
  "warnIfSystemMissing reads ns name path =
     (case sr_get_system reads ns name of
        Inr _ \<Rightarrow> []
      | Inl e \<Rightarrow>
          if ignore_not_found e \<noteq> None then []
          else case sr_list_systems reads ns of
            Inl _ \<Rightarrow> []
          | Inr items \<Rightarrow>
              if list_ex (\<lambda>s. sys_minion_id (sys_spec s) = name \<or> sys_hostname (sys_spec s) = name
                   \<or> hostname_short (sys_hostname (sys_spec s)) = Some name) items
              then [] else [WMissing path ''System'' name ns])"

fun warn_systems_loop ::
  "('c, ('s) uyuni_system_scheme, 'g) schedule_reads \<Rightarrow> string \<Rightarrow> fpath \<Rightarrow> nat \<Rightarrow>
   local_object_ref list \<Rightarrow> warning list" where
  "warn_systems_loop reads ns path i [] = []"
| "warn_systems_loop reads ns path i (r # rs) =
     warnIfSystemMissing reads ns (lor_name r) (index path i)
     @ warn_systems_loop reads ns path (Suc i) rs"

definition ms_validate ::
  "('c, ('s) uyuni_system_scheme, 'g) schedule_reads \<Rightarrow> ('a) maintenance_schedule_scheme \<Rightarrow>
   admission" where
  "ms_validate reads ms =
     (let s = ms_spec ms; ns = obj_namespace ms; spec = [PChild ''spec''];
          errs = MaintenanceScheduleTargetCount (ms_type s) (ms_system_refs s)
            (ms_system_group_refs s) spec;
          ws = (case ms_calendar_ref s of
                  None \<Rightarrow> []
                | Some r \<Rightarrow> warnIfMissing (sr_get_calendar reads) ''MaintenanceCalendar'' ns
                    (lor_name r) (child spec ''calendarRef''))
             @ warn_systems_loop reads ns (child spec ''systemRefs'') 0 (ms_system_refs s)
             @ warnRefs (sr_get_group reads) ''SystemGroup'' ns (child spec ''systemGroupRefs'') 0
                 (ms_system_group_refs s)
      in verdict (obj_name ms) ws errs)"

definition ms_ValidateUpdate ::
  "('c, ('s) uyuni_system_scheme, 'g) schedule_reads \<Rightarrow> ('a) maintenance_schedule_scheme \<Rightarrow>
   ('a) maintenance_schedule_scheme \<Rightarrow> admission" where
  "ms_ValidateUpdate reads oldMS newMS =
     (if ms_name (ms_spec oldMS) \<noteq> ms_name (ms_spec newMS)
      then ([], Some (AInvalid (obj_name newMS)
        [EForbidden [PChild ''spec'', PChild ''name''] ''name is immutable'']))
      else ms_validate reads newMS)"

interpretation ms_name_fixed: immutable_field
  "\<lambda>a b. \<exists>reads. accepted (ms_ValidateUpdate reads a b)" "\<lambda>m. ms_name (ms_spec m)"
  by unfold_locales (auto simp: ms_ValidateUpdate_def split: if_splits)

end
