(* ===== verification/Sets_Ownership.thy ===== *)
theory Sets_Ownership
  imports Api_Projects Api_Systems
begin

text \<open>
  \<^verbatim>\<open>internal/controller/sets.go\<close>: the differences by which every reconciler turns a wanted set
  into additions and removals, behind the interface \<open>set_diff\<close>; and
  \<^verbatim>\<open>internal/controller/ownership.go\<close>: the owner references that make Kubernetes delete a
  project's and an organization's dependents before it.
\<close>

section \<open>Set differences\<close>

text \<open>
  The code ranges over Go maps, so the order of both results is unspecified; the model gives the
  order of first occurrence and the interface promises nothing about it.
\<close>

definition diffStringSets :: "string list \<Rightarrow> string list \<Rightarrow> string list \<times> string list" where
  "diffStringSets existing desired =
     (filter (\<lambda>s. s \<notin> set existing) (remdups desired),
      filter (\<lambda>s. s \<notin> set desired) (remdups existing))"

definition diffIntSets :: "int list \<Rightarrow> int list \<Rightarrow> int list \<times> int list" where
  "diffIntSets existing desired =
     (filter (\<lambda>v. v \<notin> set existing) (remdups desired),
      filter (\<lambda>v. v \<notin> set desired) (remdups existing))"

locale set_diff =
  fixes diff :: "'a list \<Rightarrow> 'a list \<Rightarrow> 'a list \<times> 'a list"
  assumes adds: "set (fst (diff existing desired)) = set desired - set existing"
    and removes: "set (snd (diff existing desired)) = set existing - set desired"
    and adds_once: "distinct (fst (diff existing desired))"
    and removes_once: "distinct (snd (diff existing desired))"
begin

definition apply_diff :: "'a set \<Rightarrow> 'a list \<times> 'a list \<Rightarrow> 'a set" where
  "apply_diff S d = (S \<union> set (fst d)) - set (snd d)"

lemma apply_diff_desired: "apply_diff (set existing) (diff existing desired) = set desired"
  by (auto simp: apply_diff_def adds removes)

lemma diff_empty_iff: "diff existing desired = ([], []) \<longleftrightarrow> set existing = set desired"
proof -
  have "diff existing desired = ([], []) \<longleftrightarrow>
      set (fst (diff existing desired)) = {} \<and> set (snd (diff existing desired)) = {}"
    by (cases "diff existing desired") simp
  then show ?thesis by (auto simp: adds removes)
qed

lemma diff_disjoint:
  "set (fst (diff existing desired)) \<inter> set (snd (diff existing desired)) = {}"
  by (auto simp: adds removes)

text \<open>The calls are as few as can be: any other way to get there changes at least these elements.\<close>

lemma diff_minimal:
  assumes "(set existing \<union> A) - R = set desired"
  shows "set (fst (diff existing desired)) \<subseteq> A" "set (snd (diff existing desired)) \<subseteq> R"
  using assms by (auto simp: adds removes)

end

interpretation strings: set_diff diffStringSets
  by unfold_locales (auto simp: diffStringSets_def)

interpretation ints: set_diff diffIntSets
  by unfold_locales (auto simp: diffIntSets_def)

text \<open>\<open>desired\<close> and \<open>existing\<close> of \<^verbatim>\<open>diffCustomInfo\<close> are Go maps: association lists with distinct keys.\<close>

definition diffCustomInfo ::
  "(string \<times> string) list \<Rightarrow> (string \<times> string) list \<Rightarrow> (string \<times> string) list \<times> string list" where
  "diffCustomInfo existing desired =
     (filter (\<lambda>(k, v). map_get (map_of existing) [] k \<noteq> v) desired,
      map fst (filter (\<lambda>(k, v). map_of desired k = None) existing))"

definition apply_custom_info ::
  "(string \<rightharpoonup> string) \<Rightarrow> (string \<times> string) list \<times> string list \<Rightarrow> (string \<rightharpoonup> string)" where
  "apply_custom_info m d k =
     (if k \<in> set (snd d) then None else case map_of (fst d) k of None \<Rightarrow> m k | Some v \<Rightarrow> Some v)"

lemma map_of_filter_distinct:
  "distinct (map fst al) \<Longrightarrow>
     map_of (filter keep al) k = Option.bind (map_of al k) (\<lambda>v. if keep (k, v) then Some v else None)"
proof (induction al)
  case Nil
  show ?case by simp
next
  case (Cons entry al)
  have "map_of al (fst entry) = None" using Cons.prems by (simp add: map_of_eq_None_iff)
  with Cons show ?case by (cases entry; cases "fst entry = k") auto
qed

text \<open>
  Reading any key after the update gives the wanted value; but a key that is wanted with the
  empty value and absent on the server stays absent, because the code compares with the zero
  value of the missing entry.
\<close>

lemma diffCustomInfo_reads:
  assumes "distinct (map fst desired)"
  shows "map_get (apply_custom_info (map_of existing) (diffCustomInfo existing desired)) [] k =
    map_get (map_of desired) [] k"
proof (cases "map_of desired k")
  case None
  have "k \<in> set (snd (diffCustomInfo existing desired)) \<longleftrightarrow> map_of existing k \<noteq> None"
    using None by (force simp: diffCustomInfo_def map_of_eq_None_iff)
  moreover have "map_of (fst (diffCustomInfo existing desired)) k = None"
    using None by (simp add: diffCustomInfo_def map_of_filter_distinct [OF assms])
  ultimately show ?thesis
    using None by (simp add: apply_custom_info_def map_get_def)
next
  case (Some v)
  then have "k \<notin> set (snd (diffCustomInfo existing desired))"
    by (auto simp: diffCustomInfo_def)
  then show ?thesis
    using Some
    by (simp add: apply_custom_info_def diffCustomInfo_def map_of_filter_distinct [OF assms] map_get_def)
qed

definition parseInt :: "string \<Rightarrow> int option" where
  "parseInt s = atoi s"

definition intSliceToStrings :: "int list \<Rightarrow> string list" where
  "intSliceToStrings is = map itoa is"

lemma parse_intSliceToStrings:
  assumes "\<forall>i \<in> set is. - (2 ^ 63) \<le> i \<and> i < 2 ^ 63"
  shows "map parseInt (intSliceToStrings is) = map Some is"
  using assms by (auto simp: intSliceToStrings_def parseInt_def atoi_itoa)

section \<open>Owner references\<close>

definition is_owner_kind :: "string \<Rightarrow> owner_ref \<Rightarrow> bool" where
  "is_owner_kind kind r = (or_api_version r = group_version \<and> or_kind r = kind)"

definition owner_of :: "string \<Rightarrow> ('a) k8s_object_scheme \<Rightarrow> owner_ref" where
  "owner_of kind obj = \<lparr>or_api_version = group_version, or_kind = kind, or_name = obj_name obj,
     or_uid = obj_uid obj, or_block_owner_deletion = True\<rparr>"

text \<open>
  What a call did: the owners it sent in an \<^verbatim>\<open>Update\<close> (if it sent one), the owner list of the
  caller's in-memory object, and the error.  The code filters into \<^verbatim>\<open>owners[:0]\<close>, which shares
  the array of the object, so a call that fails after filtering leaves the object with the kept
  owners at the front and the old tail behind them.
\<close>

record ownership_result =
  sent :: "owner_ref list option"
  in_memory :: "owner_ref list"
  own_err :: "go_error option"

definition overwrite_prefix :: "'a list \<Rightarrow> 'a list \<Rightarrow> 'a list" where
  "overwrite_prefix old new = new @ drop (length new) old"

text \<open>The loop that adds missing owners, over the names of the wanted set in iteration order.\<close>

fun add_project_owners ::
  "('p) content_project_scheme k8s_get \<Rightarrow> string \<Rightarrow> owner_ref list \<Rightarrow> string list \<Rightarrow>
   owner_ref list \<Rightarrow> bool \<Rightarrow> go_error + owner_ref list \<times> bool" where
  "add_project_owners get ns current [] owners changed = Inr (owners, changed)"
| "add_project_owners get ns current (name # names) owners changed =
     (if list_ex (\<lambda>r. is_owner_kind ''ContentProject'' r \<and> or_name r = name) current
      then add_project_owners get ns current names owners changed
      else case get ns name of
        Inl e \<Rightarrow> if ignore_not_found e = None
          then add_project_owners get ns current names owners changed
          else Inl e
      | Inr cp \<Rightarrow> add_project_owners get ns current names
          (owners @ [owner_of ''ContentProject'' cp]) True)"

definition reconcileProjectOwnership ::
  "('p) content_project_scheme k8s_get \<Rightarrow> (owner_ref list \<Rightarrow> go_error option) \<Rightarrow>
   ('a) k8s_object_scheme \<Rightarrow> string list \<Rightarrow> ownership_result" where
  "reconcileProjectOwnership get update dependent wantedProjectNames =
     (let owners = obj_owners dependent in
      case add_project_owners get (obj_namespace dependent) owners wantedProjectNames owners False of
        Inl e \<Rightarrow> \<lparr>sent = None, in_memory = owners, own_err = Some e\<rparr>
      | Inr (owners', added) \<Rightarrow>
          let pruned = filter (\<lambda>r. \<not> (is_owner_kind ''ContentProject'' r \<and>
                          or_name r \<notin> set wantedProjectNames)) owners';
              changed = (added \<or> length pruned \<noteq> length owners')
          in if changed
             then \<lparr>sent = Some pruned, in_memory = pruned, own_err = update pruned\<rparr>
             else \<lparr>sent = None, in_memory = owners, own_err = None\<rparr>)"

definition reconcileOrganizationOwnership ::
  "('g) organization_scheme k8s_get \<Rightarrow> (owner_ref list \<Rightarrow> go_error option) \<Rightarrow>
   ('a) k8s_object_scheme \<Rightarrow> string \<Rightarrow> ownership_result" where
  "reconcileOrganizationOwnership get update dependent orgName =
     (let owners = obj_owners dependent in
      if list_ex (\<lambda>r. is_owner_kind ''Organization'' r \<and> or_name r = orgName) owners
      then \<lparr>sent = None, in_memory = owners, own_err = None\<rparr>
      else
        let pruned = filter (\<lambda>r. \<not> is_owner_kind ''Organization'' r) owners;
            send = (\<lambda>os. \<lparr>sent = Some os, in_memory = os, own_err = update os\<rparr>)
        in if orgName = [] then send pruned
           else case get (obj_namespace dependent) orgName of
             Inl e \<Rightarrow> if ignore_not_found e \<noteq> None
               then \<lparr>sent = None, in_memory = overwrite_prefix owners pruned, own_err = Some e\<rparr>
               else send pruned
           | Inr org \<Rightarrow> send (pruned @ [owner_of ''Organization'' org]))"

definition isOwnedBy :: "('a) k8s_object_scheme \<Rightarrow> ('b) k8s_object_scheme \<Rightarrow> bool" where
  "isOwnedBy dependent owner = list_ex (\<lambda>r. or_uid r = obj_uid owner) (obj_owners dependent)"

text \<open>The sets of project names are Go maps with value true: lists of names, read as sets.\<close>

definition from_names :: "channel_from_project option \<Rightarrow> channel_from_project list \<Rightarrow> string list" where
  "from_names baseFrom childFrom =
     remdups (filter (\<lambda>n. n \<noteq> []) (map (\<lambda>r. lor_name (cfp_project_ref r))
       ((case baseFrom of None \<Rightarrow> [] | Some r \<Rightarrow> [r]) @ childFrom)))"

definition projectOwnersFromActivationKey :: "('a) activation_key_scheme \<Rightarrow> string list" where
  "projectOwnersFromActivationKey ak =
     from_names (ak_base_channel_from (ak_spec ak)) (ak_child_channels_from (ak_spec ak))"

definition projectOwnersFromSystem :: "('a) uyuni_system_scheme \<Rightarrow> string list" where
  "projectOwnersFromSystem sys =
     from_names (sys_base_channel_from (sys_spec sys)) (sys_child_channels_from (sys_spec sys))"

definition refs_project ::
  "channel_from_project option \<Rightarrow> channel_from_project list \<Rightarrow> string \<Rightarrow> bool" where
  "refs_project baseFrom childFrom projectName =
     ((case baseFrom of None \<Rightarrow> False | Some r \<Rightarrow> lor_name (cfp_project_ref r) = projectName)
      \<or> list_ex (\<lambda>r. lor_name (cfp_project_ref r) = projectName) childFrom)"

definition refsActivationKeyProject :: "('a) activation_key_scheme \<Rightarrow> string \<Rightarrow> bool" where
  "refsActivationKeyProject ak projectName =
     refs_project (ak_base_channel_from (ak_spec ak)) (ak_child_channels_from (ak_spec ak)) projectName"

definition refsSystemProject :: "('a) uyuni_system_scheme \<Rightarrow> string \<Rightarrow> bool" where
  "refsSystemProject sys projectName =
     refs_project (sys_base_channel_from (sys_spec sys)) (sys_child_channels_from (sys_spec sys)) projectName"

text \<open>
  The watch mappers and the owner sets agree: a project enqueues exactly the objects that it
  will own.
\<close>

lemma refs_project_iff:
  "n \<noteq> [] \<Longrightarrow> refs_project baseFrom childFrom n \<longleftrightarrow> n \<in> set (from_names baseFrom childFrom)"
proof -
  assume n: "n \<noteq> []"
  have "list_ex (\<lambda>r. lor_name (cfp_project_ref r) = n) rs \<longleftrightarrow>
      n \<in> (\<lambda>r. lor_name (cfp_project_ref r)) ` set rs" for rs :: "channel_from_project list"
    by (induction rs) auto
  with n show ?thesis
    by (cases baseFrom) (auto simp: refs_project_def from_names_def)
qed

section \<open>What ownership reconciliation achieves\<close>

definition project_owner_names :: "owner_ref list \<Rightarrow> string set" where
  "project_owner_names os = or_name ` {r \<in> set os. is_owner_kind ''ContentProject'' r}"

definition get_by_name :: "('p) k8s_object_scheme k8s_get \<Rightarrow> bool" where
  "get_by_name get = (\<forall>ns n x. get ns n = Inr x \<longrightarrow> obj_name x = n \<and> obj_namespace x = ns)"

lemma owner_of_simps [simp]:
  "is_owner_kind k (owner_of k' obj) \<longleftrightarrow> k' = k" "or_name (owner_of k obj) = obj_name obj"
  "or_uid (owner_of k obj) = obj_uid obj" "or_block_owner_deletion (owner_of k obj)"
  by (auto simp: is_owner_kind_def owner_of_def)

lemma add_project_owners_result:
  assumes "add_project_owners get ns current names owners changed = Inr (owners', changed')"
  shows "\<exists>new. owners' = owners @ new \<and> (changed' \<longleftrightarrow> changed \<or> new \<noteq> []) \<and>
    set new = {owner_of ''ContentProject'' cp |n cp. n \<in> set names \<and>
      n \<notin> project_owner_names current \<and> get ns n = Inr cp}"
  using assms
proof (induction names arbitrary: owners changed)
  case Nil
  then show ?case by auto
next
  case (Cons n names)
  have cur: "list_ex (\<lambda>r. is_owner_kind ''ContentProject'' r \<and> or_name r = n) current \<longleftrightarrow>
      n \<in> project_owner_names current"
    by (auto simp: project_owner_names_def list_ex_iff)
  show ?case
  proof (cases "n \<in> project_owner_names current")
    case True
    with Cons.prems cur have "add_project_owners get ns current names owners changed = Inr (owners', changed')"
      by simp
    from Cons.IH [OF this] True show ?thesis by fastforce
  next
    case False
    show ?thesis
    proof (cases "get ns n")
      case (Inl e)
      with Cons.prems cur False
      have "add_project_owners get ns current names owners changed = Inr (owners', changed')"
        by (auto split: if_splits)
      from Cons.IH [OF this] Inl show ?thesis by fastforce
    next
      case (Inr cp)
      with Cons.prems cur False
      have "add_project_owners get ns current names (owners @ [owner_of ''ContentProject'' cp]) True
          = Inr (owners', changed')" by simp
      from Cons.IH [OF this] obtain new where new:
        "owners' = (owners @ [owner_of ''ContentProject'' cp]) @ new" "changed'"
        "set new = {owner_of ''ContentProject'' cp |n cp. n \<in> set names \<and>
           n \<notin> project_owner_names current \<and> get ns n = Inr cp}" by auto
      show ?thesis
        by (rule exI [of _ "owner_of ''ContentProject'' cp # new"]) (use new Inr False in auto)
    qed
  qed
qed

definition stored_owners :: "owner_ref list \<Rightarrow> ownership_result \<Rightarrow> owner_ref list" where
  "stored_owners old r = (case sent r of None \<Rightarrow> old | Some os \<Rightarrow> os)"

text \<open>The reads a pass makes find each name or find that it is absent.\<close>

definition readable :: "'x k8s_get \<Rightarrow> string \<Rightarrow> string list \<Rightarrow> bool" where
  "readable get ns names = (\<forall>n \<in> set names. case get ns n of Inr _ \<Rightarrow> True | Inl e \<Rightarrow> is_k8s_not_found e)"

lemma add_project_owners_readable:
  "readable get ns names \<Longrightarrow> \<exists>r. add_project_owners get ns current names owners changed = Inr r"
  by (induction names arbitrary: owners changed) (auto simp: readable_def split: sum.splits)

lemma filter_length_eq: "length (filter P xs) = length xs \<Longrightarrow> filter P xs = xs"
  by (metis filter_id_conv length_filter_less less_irrefl)

lemma reconcileProjectOwnership_stored:
  fixes get :: "('p) content_project_scheme k8s_get" and upd :: "owner_ref list \<Rightarrow> go_error option"
    and dep :: "('a) k8s_object_scheme"
  assumes "readable get (obj_namespace dep) wanted" and "get_by_name get"
  defines "os \<equiv> stored_owners (obj_owners dep) (reconcileProjectOwnership get upd dep wanted)"
  shows "project_owner_names os = {n \<in> set wanted.
      n \<in> project_owner_names (obj_owners dep) \<or> (\<exists>cp. get (obj_namespace dep) n = Inr cp)}"
    and "filter (\<lambda>r. \<not> is_owner_kind ''ContentProject'' r) os =
      filter (\<lambda>r. \<not> is_owner_kind ''ContentProject'' r) (obj_owners dep)"
proof -
  let ?ns = "obj_namespace dep" and ?own = "obj_owners dep"
  let ?keep = "\<lambda>r. \<not> (is_owner_kind ''ContentProject'' r \<and> or_name r \<notin> set wanted)"
  obtain owners' added where a: "add_project_owners get ?ns ?own wanted ?own False = Inr (owners', added)"
    using add_project_owners_readable [OF assms(1)] by fast
  from add_project_owners_result [OF a] obtain new where
    new: "owners' = ?own @ new" "added \<longleftrightarrow> new \<noteq> []"
      "set new = {owner_of ''ContentProject'' cp |n cp. n \<in> set wanted \<and>
         n \<notin> project_owner_names ?own \<and> get ?ns n = Inr cp}"
    by auto
  have os: "os = filter ?keep owners'"
    by (cases "added \<or> length (filter ?keep owners') \<noteq> length owners'")
      (use new filter_length_eq [of ?keep owners'] in
        \<open>auto simp: os_def stored_owners_def reconcileProjectOwnership_def a Let_def\<close>)
  have names: "\<And>n cp. get ?ns n = Inr cp \<Longrightarrow> obj_name cp = n"
    using assms(2) by (simp add: get_by_name_def)
  have p: "project_owner_names (filter ?keep xs) = project_owner_names xs \<inter> set wanted" for xs
    by (auto simp: project_owner_names_def)
  have "project_owner_names (xs @ ys) = project_owner_names xs \<union> project_owner_names ys" for xs ys
    by (auto simp: project_owner_names_def)
  moreover have "project_owner_names new = {n \<in> set wanted. n \<notin> project_owner_names ?own \<and>
      (\<exists>cp. get ?ns n = Inr cp)}"
  proof -
    have "{r \<in> set new. is_owner_kind ''ContentProject'' r} = set new" using new(3) by auto
    then have "project_owner_names new = or_name ` set new" by (simp add: project_owner_names_def)
    also have "\<dots> = {obj_name cp |n cp. n \<in> set wanted \<and> n \<notin> project_owner_names ?own \<and> get ?ns n = Inr cp}"
      unfolding new(3) setcompr_eq_image image_def by (auto; metis owner_of_simps(2))
    also have "\<dots> = {n \<in> set wanted. n \<notin> project_owner_names ?own \<and> (\<exists>cp. get ?ns n = Inr cp)}"
      using names by (auto; metis)
    finally show ?thesis .
  qed
  ultimately show "project_owner_names os = {n \<in> set wanted.
      n \<in> project_owner_names ?own \<or> (\<exists>cp. get ?ns n = Inr cp)}"
    using p [of owners', folded os] by (auto simp: new(1))
  have "\<forall>r \<in> set new. is_owner_kind ''ContentProject'' r" using new(3) by auto
  then have "filter (\<lambda>r. \<not> is_owner_kind ''ContentProject'' r) new = []" by (simp add: filter_empty_conv)
  moreover have "filter (\<lambda>r. \<not> is_owner_kind ''ContentProject'' r) (filter ?keep xs) =
      filter (\<lambda>r. \<not> is_owner_kind ''ContentProject'' r) xs" for xs
    by (induction xs) auto
  ultimately show "filter (\<lambda>r. \<not> is_owner_kind ''ContentProject'' r) os =
      filter (\<lambda>r. \<not> is_owner_kind ''ContentProject'' r) ?own"
    by (simp add: os new(1))
qed

text \<open>A second pass over the stored owners sends nothing.\<close>

lemma add_project_owners_none:
  "\<forall>n \<in> set names. n \<in> project_owner_names current \<or> (\<exists>e. get ns n = Inl e \<and> is_k8s_not_found e) \<Longrightarrow>
     add_project_owners get ns current names owners False = Inr (owners, False)"
proof (induction names)
  case Nil
  then show ?case by simp
next
  case (Cons n names)
  have "list_ex (\<lambda>r. is_owner_kind ''ContentProject'' r \<and> or_name r = n) current \<longleftrightarrow>
      n \<in> project_owner_names current"
    by (auto simp: project_owner_names_def list_ex_iff)
  with Cons show ?case by (auto split: sum.splits)
qed

lemma reconcileProjectOwnership_again:
  fixes get :: "('p) content_project_scheme k8s_get" and upd :: "owner_ref list \<Rightarrow> go_error option"
    and dep :: "('a) k8s_object_scheme"
  assumes rd: "readable get (obj_namespace dep) wanted" and gn: "get_by_name get"
  defines "os \<equiv> stored_owners (obj_owners dep) (reconcileProjectOwnership get upd dep wanted)"
  shows "sent (reconcileProjectOwnership get upd (dep\<lparr>obj_owners := os\<rparr>) wanted) = None"
proof -
  note st = reconcileProjectOwnership_stored [OF rd gn, of upd, folded os_def]
  have none: "add_project_owners get (obj_namespace dep) os wanted os False = Inr (os, False)"
  proof (rule add_project_owners_none, intro ballI)
    fix n assume "n \<in> set wanted"
    then show "n \<in> project_owner_names os \<or> (\<exists>e. get (obj_namespace dep) n = Inl e \<and> is_k8s_not_found e)"
      using rd st(1) by (cases "get (obj_namespace dep) n") (auto simp: readable_def)
  qed
  have "\<forall>r \<in> set os. is_owner_kind ''ContentProject'' r \<longrightarrow> or_name r \<in> set wanted"
    using st(1) by (auto simp: project_owner_names_def)
  then have "filter (\<lambda>r. \<not> (is_owner_kind ''ContentProject'' r \<and> or_name r \<notin> set wanted)) os = os"
    by (auto simp: filter_id_conv)
  then show ?thesis by (simp add: reconcileProjectOwnership_def none)
qed

text \<open>The organization owner: exactly the one wanted, when it exists; others are left alone.\<close>

lemma reconcileOrganizationOwnership_stored:
  fixes get :: "('g) organization_scheme k8s_get" and upd :: "owner_ref list \<Rightarrow> go_error option"
    and dep :: "('a) k8s_object_scheme"
  assumes "get_by_name get"
    and "own_err (reconcileOrganizationOwnership get upd dep orgName) = None"
    and wf: "\<forall>r \<in> set (obj_owners dep). is_owner_kind ''Organization'' r \<longrightarrow> or_name r \<noteq> []"
  defines "os \<equiv> stored_owners (obj_owners dep) (reconcileOrganizationOwnership get upd dep orgName)"
  shows "filter (\<lambda>r. \<not> is_owner_kind ''Organization'' r) os =
      filter (\<lambda>r. \<not> is_owner_kind ''Organization'' r) (obj_owners dep)"
    and "\<exists>r \<in> set (obj_owners dep). is_owner_kind ''Organization'' r \<and> or_name r = orgName
      \<Longrightarrow> os = obj_owners dep"
    and "\<not> (\<exists>r \<in> set (obj_owners dep). is_owner_kind ''Organization'' r \<and> or_name r = orgName)
      \<Longrightarrow> filter (is_owner_kind ''Organization'') os =
        (if orgName = [] then [] else case get (obj_namespace dep) orgName of
           Inl _ \<Rightarrow> [] | Inr org \<Rightarrow> [owner_of ''Organization'' org])"
  using assms(1,2)
  by (auto simp: os_def stored_owners_def reconcileOrganizationOwnership_def Let_def list_ex_iff
      filter_empty_conv split: sum.splits if_splits)

lemma reconcileOrganizationOwnership_error:
  assumes "own_err (reconcileOrganizationOwnership get upd dep orgName) = Some e"
    "sent (reconcileOrganizationOwnership get upd dep orgName) = None"
  shows "in_memory (reconcileOrganizationOwnership get upd dep orgName) =
    overwrite_prefix (obj_owners dep) (filter (\<lambda>r. \<not> is_owner_kind ''Organization'' r) (obj_owners dep))"
  using assms by (auto simp: reconcileOrganizationOwnership_def Let_def split: sum.splits if_splits)

end
