(* ===== verification/Reconcile.thy ===== *)
theory Reconcile
  imports Sets_Ownership
begin

text \<open>
  What a reconcile pass is made of.  A pass works on its own copy of the object (\<open>mem\<close>), makes
  calls, and writes to the API server, whose copy is \<open>stored\<close>.  Every call and write is an event
  of the trace with its outcome; the function \<open>out\<close> of the pass says, for the \<open>n\<close>-th event, whether
  it fails and with which error, so a theorem for all \<open>out\<close> covers every way the server and
  Uyuni can fail in the middle of a pass.  A write that fails changes nothing that is stored.

  \<^verbatim>\<open>Status().Update\<close> stores the status alone and \<^verbatim>\<open>Update\<close> everything but the status (the
  status is a subresource of every kind); an object whose deletion was requested goes away when
  its last finalizer does.  After \<^verbatim>\<open>Update\<close> the copy in memory has the status the answer carries, which is
  the stored one.  (A field that is empty in the stored status is absent from the answer, and the client
  then leaves in memory what the pass put there; \<open>refresh\<close> of \<open>Pass_Steps\<close> is the step with that detail, for
  the passes that change the status before such an update.)
\<close>

datatype 'u event = WriteStatus | WriteObject | DeleteObject | Call 'u

type_synonym answers = "nat \<Rightarrow> go_error option"

record ('o, 'u) pass =
  mem :: 'o
  stored :: "'o option"
  trace :: "('u event \<times> bool) list"

record ('o, 'st) kind_ops =
  status_of :: "'o \<Rightarrow> 'st"
  with_status :: "'st \<Rightarrow> 'o \<Rightarrow> 'o"

type_synonym ('o, 'u) outcome = "ctrl_result \<times> go_error option \<times> ('o, 'u) pass"

definition start_pass :: "'o \<Rightarrow> ('o, 'u) pass" where
  "start_pass obj = \<lparr>mem = obj, stored = Some obj, trace = []\<rparr>"

definition attempt ::
  "answers \<Rightarrow> 'u event \<Rightarrow> ('o, 'u) pass \<Rightarrow> go_error option \<times> ('o, 'u) pass" where
  "attempt out ev s =
     (let r = out (length (trace s)) in (r, s\<lparr>trace := trace s @ [(ev, r = None)]\<rparr>))"

definition collected :: "('a) k8s_object_scheme \<Rightarrow> ('a) k8s_object_scheme option" where
  "collected obj = (if obj_deleting obj \<and> obj_finalizers obj = [] then None else Some obj)"

text \<open>The objects a \<^verbatim>\<open>Get\<close> can return.\<close>

definition live :: "('a) k8s_object_scheme \<Rightarrow> bool" where
  "live obj = (obj_deleting obj \<longrightarrow> obj_finalizers obj \<noteq> [])"

lemma collected_live: "live obj \<Longrightarrow> collected obj = Some obj" "\<not> live obj \<Longrightarrow> collected obj = None"
  by (auto simp: live_def collected_def)

definition write_status ::
  "answers \<Rightarrow> (('a) k8s_object_scheme, 'st) kind_ops \<Rightarrow> (('a) k8s_object_scheme, 'u) pass \<Rightarrow>
   go_error option \<times> (('a) k8s_object_scheme, 'u) pass" where
  "write_status out K s =
     (case attempt out WriteStatus s of
        (Some e, s') \<Rightarrow> (Some e, s')
      | (None, s') \<Rightarrow>
          (None, s'\<lparr>stored := map_option (with_status K (status_of K (mem s))) (stored s)\<rparr>))"

definition write_object ::
  "answers \<Rightarrow> (('a) k8s_object_scheme, 'st) kind_ops \<Rightarrow> (('a) k8s_object_scheme, 'u) pass \<Rightarrow>
   go_error option \<times> (('a) k8s_object_scheme, 'u) pass" where
  "write_object out K s =
     (case attempt out WriteObject s of
        (Some e, s') \<Rightarrow> (Some e, s')
      | (None, s') \<Rightarrow>
          (None, (case stored s of
             None \<Rightarrow> s'
           | Some st \<Rightarrow>
               let new = with_status K (status_of K st) (mem s)
               in s'\<lparr>mem := new, stored := collected new\<rparr>)))"

definition delete_object ::
  "answers \<Rightarrow> (('a) k8s_object_scheme, 'u) pass \<Rightarrow> go_error option \<times> (('a) k8s_object_scheme, 'u) pass" where
  "delete_object out s =
     (case attempt out DeleteObject s of
        (Some e, s') \<Rightarrow> (Some e, s')
      | (None, s') \<Rightarrow>
          (None, s'\<lparr>stored := Option.bind (stored s) (\<lambda>st. collected (st\<lparr>obj_deleting := True\<rparr>))\<rparr>))"

text \<open>\<^verbatim>\<open>reconcileOrganizationOwnership\<close> as a step of a pass.\<close>

definition own_organization ::
  "answers \<Rightarrow> (('a) k8s_object_scheme, 'st) kind_ops \<Rightarrow> ('g) organization_scheme k8s_get \<Rightarrow> string \<Rightarrow>
   (('a) k8s_object_scheme, 'u) pass \<Rightarrow> go_error option \<times> (('a) k8s_object_scheme, 'u) pass" where
  "own_organization out K getOrg orgName s =
     (let r = reconcileOrganizationOwnership getOrg (\<lambda>_. out (length (trace s))) (mem s) orgName;
          s' = s\<lparr>mem := (mem s)\<lparr>obj_owners := in_memory r\<rparr>\<rparr>
      in case sent r of
           None \<Rightarrow> (own_err r, s')
         | Some _ \<Rightarrow> write_object out K s')"

lemma attempt_simps [simp]:
  "fst (attempt out ev s) = out (length (trace s))"
  "trace (snd (attempt out ev s)) = trace s @ [(ev, out (length (trace s)) = None)]"
  "mem (snd (attempt out ev s)) = mem s" "stored (snd (attempt out ev s)) = stored s"
  by (simp_all add: attempt_def Let_def)

lemma write_status_simps [simp]:
  "fst (write_status out K s) = out (length (trace s))"
  "trace (snd (write_status out K s)) = trace s @ [(WriteStatus, out (length (trace s)) = None)]"
  "mem (snd (write_status out K s)) = mem s"
  "stored (snd (write_status out K s)) =
     (if out (length (trace s)) = None
      then map_option (with_status K (status_of K (mem s))) (stored s) else stored s)"
  by (auto simp: write_status_def attempt_def Let_def split: option.splits)

lemma write_object_simps [simp]:
  "fst (write_object out K s) = out (length (trace s))"
  "trace (snd (write_object out K s)) = trace s @ [(WriteObject, out (length (trace s)) = None)]"
  "mem (snd (write_object out K s)) =
     (if out (length (trace s)) = None
      then case stored s of None \<Rightarrow> mem s | Some st \<Rightarrow> with_status K (status_of K st) (mem s)
      else mem s)"
  "stored (snd (write_object out K s)) =
     (if out (length (trace s)) = None
      then Option.bind (stored s) (\<lambda>st. collected (with_status K (status_of K st) (mem s)))
      else stored s)"
  by (auto simp: write_object_def attempt_def Let_def split: option.splits)

lemma delete_object_simps [simp]:
  "fst (delete_object out s) = out (length (trace s))"
  "trace (snd (delete_object out s)) = trace s @ [(DeleteObject, out (length (trace s)) = None)]"
  "mem (snd (delete_object out s)) = mem s"
  "stored (snd (delete_object out s)) =
     (if out (length (trace s)) = None
      then Option.bind (stored s) (\<lambda>st. collected (st\<lparr>obj_deleting := True\<rparr>)) else stored s)"
  by (auto simp: delete_object_def attempt_def Let_def split: option.splits)

text \<open>How many events of a trace are \<open>ev\<close> and succeeded.\<close>

definition successes :: "'u event \<Rightarrow> ('u event \<times> bool) list \<Rightarrow> nat" where
  "successes ev t = length (filter (\<lambda>x. x = (ev, True)) t)"

lemma successes_simps [simp]:
  "successes ev [] = 0"
  "successes ev (t @ t') = successes ev t + successes ev t'"
  "successes ev (x # t) = (if x = (ev, True) then 1 else 0) + successes ev t"
  by (simp_all add: successes_def)

lemma start_pass_simps [simp]:
  "mem (start_pass obj) = obj" "stored (start_pass obj) = Some obj" "trace (start_pass obj) = []"
  by (simp_all add: start_pass_def)

section \<open>Status as a subresource\<close>

text \<open>
  The contract of a kind's status field: reading what was written, and writing what was read.
  Every resource with a reconciler interprets it on its record.
\<close>

locale status_field =
  fixes K :: "(('a) k8s_object_scheme, 'st) kind_ops"
  assumes read_write: "status_of K (with_status K st obj) = st"
    and write_read: "with_status K (status_of K obj) obj = obj"
    and write_write: "with_status K st (with_status K st' obj) = with_status K st obj"
    and keeps_metadata: "k8s_object.truncate (with_status K st obj) = k8s_object.truncate obj"
    and keeps_owners: "with_status K st (obj_owners_update f obj) = obj_owners_update f (with_status K st obj)"
begin

lemma status_of_owners [simp]: "status_of K (obj_owners_update f obj) = status_of K obj"
  by (metis keeps_owners read_write write_read)

lemma metadata [simp]:
  "obj_name (with_status K st obj) = obj_name obj"
  "obj_finalizers (with_status K st obj) = obj_finalizers obj"
  "obj_deleting (with_status K st obj) = obj_deleting obj"
  "obj_generation (with_status K st obj) = obj_generation obj"
  "obj_annotations (with_status K st obj) = obj_annotations obj"
  using keeps_metadata [of st obj] by (simp_all add: k8s_object.defs)

text \<open>A status write that succeeds stores the in-memory status; one that fails stores nothing.\<close>

lemma write_status_cases:
  "write_status out K s = (r, s') \<Longrightarrow>
     (case r of
        Some e \<Rightarrow> stored s' = stored s \<and> trace s' = trace s @ [(WriteStatus, False)]
      | None \<Rightarrow> stored s' = map_option (with_status K (status_of K (mem s))) (stored s) \<and>
          trace s' = trace s @ [(WriteStatus, True)]) \<and> mem s' = mem s"
  by (auto simp: write_status_def attempt_def Let_def split: option.splits prod.splits)

text \<open>An object write never changes the stored status.\<close>

lemma write_object_status:
  assumes "write_object out K s = (r, s')" "stored s = Some st"
    and "status_of K (mem s) = status_of K st"
  shows "stored s' = None \<or> (\<exists>st'. stored s' = Some st' \<and> status_of K st' = status_of K st)"
    and "status_of K (mem s') = status_of K (mem s)"
    and "\<exists>b. trace s' = trace s @ [(WriteObject, b)]"
  using assms
  by (auto simp: write_object_def attempt_def collected_def Let_def read_write
      split: option.splits prod.splits if_splits)

lemma own_organization_status:
  assumes "own_organization out K getOrg n s = (r, s')" "stored s = Some st"
    and "status_of K (mem s) = status_of K st"
  shows "stored s' = None \<or> (\<exists>st'. stored s' = Some st' \<and> status_of K st' = status_of K st)"
    and "status_of K (mem s') = status_of K (mem s)"
    and "trace s' = trace s \<or> (\<exists>b. trace s' = trace s @ [(WriteObject, b)])"
proof -
  let ?o = "reconcileOrganizationOwnership getOrg (\<lambda>_. out (length (trace s))) (mem s) n"
  let ?s = "s\<lparr>mem := (mem s)\<lparr>obj_owners := in_memory ?o\<rparr>\<rparr>"
  have w: "(stored s' = None \<or> (\<exists>st'. stored s' = Some st' \<and> status_of K st' = status_of K st)) \<and>
    status_of K (mem s') = status_of K (mem s) \<and>
    (trace s' = trace s \<or> (\<exists>b. trace s' = trace s @ [(WriteObject, b)]))"
  proof (cases "sent ?o")
    case None
    then have "s' = ?s" using assms(1) by (simp add: own_organization_def Let_def)
    with assms show ?thesis by simp
  next
    case (Some os)
    then have "write_object out K ?s = (r, s')" using assms(1) by (simp add: own_organization_def Let_def)
    from write_object_status [OF this, of st] assms show ?thesis by simp
  qed
  then show "stored s' = None \<or> (\<exists>st'. stored s' = Some st' \<and> status_of K st' = status_of K st)"
    "status_of K (mem s') = status_of K (mem s)"
    "trace s' = trace s \<or> (\<exists>b. trace s' = trace s @ [(WriteObject, b)])" by blast+
qed

text \<open>An object that is there at the start of the pass is there after the step.\<close>

lemma own_organization_live:
  assumes "own_organization out K getOrg n (start_pass obj) = (r, s')" "collected obj = Some obj"
  shows "\<exists>st'. stored s' = Some st' \<and> status_of K st' = status_of K obj"
proof -
  let ?o = "reconcileOrganizationOwnership getOrg (\<lambda>_. out 0) obj n"
  let ?s = "(start_pass obj)\<lparr>mem := obj\<lparr>obj_owners := in_memory ?o\<rparr>\<rparr> :: (('a) k8s_object_scheme, 'b) pass"
  have live: "\<not> (obj_deleting obj \<and> obj_finalizers obj = [])"
    using assms(2) by (simp add: collected_def split: if_splits)
  show ?thesis
  proof (cases "sent ?o")
    case None
    then show ?thesis using assms(1) by (auto simp: own_organization_def Let_def)
  next
    case (Some os)
    then have "write_object out K ?s = (r, s')" using assms(1) by (simp add: own_organization_def Let_def)
    then show ?thesis using live
      by (auto simp: write_object_def attempt_def collected_def Let_def read_write
          split: option.splits prod.splits)
  qed
qed

end

end
