(* ===== verification/Uyuni_Types.thy ===== *)
theory Uyuni_Types
  imports Go_Prelude
begin

text \<open>
  What the Uyuni client hands to the reconcilers (\<^verbatim>\<open>internal/uyuni/types.go\<close>): the structs that
  the modelled code reads, one record per struct.
\<close>

record project_details =
  pd_id :: int
  pd_label :: string
  pd_name :: string
  pd_description :: string

record project_source =
  psrc_channel_id :: int
  psrc_channel_label :: string
  psrc_state :: string

record project_environment_info =
  pei_id :: int
  pei_label :: string
  pei_name :: string
  pei_description :: string
  pei_version :: int
  pei_previous :: string
  pei_status :: string

record filter_criteria_wire =
  fcw_field :: string
  fcw_matcher :: string
  fcw_value :: string

record filter_details =
  fd_id :: int
  fd_name :: string
  fd_entity_type :: string
  fd_rule :: string
  fd_criteria :: filter_criteria_wire

record system_action_result =
  sar_server_id :: int
  sar_action_id :: int
  sar_status :: string
  sar_result :: string
  sar_exit_code :: "int option"

end
