(* ===== verification/Promotion_Controller.thy ===== *)
theory Promotion_Controller
  imports Reconcile Uyuni_Types Webhooks_Projects
begin

text \<open>
  \<^verbatim>\<open>contentprojectpromotion_controller.go\<close>: the state machine that drives one promotion through
  Uyuni.  A promotion must reach Uyuni at most once, although any write or call can fail, the
  operator can be restarted between any two passes and users can edit the object.
\<close>

section \<open>One pass\<close>

definition promotion_kind :: "(('a) promotion_scheme, promotion_status) kind_ops" where
  "promotion_kind = \<lparr>status_of = pr_status, with_status = \<lambda>st p. p\<lparr>pr_status := st\<rparr>\<rparr>"

datatype promo_call = PromoteProject string string

text \<open>
  What the world answers in one pass: the readings of \<open>r.Now()\<close> where the pass takes them,
  \<^verbatim>\<open>time.Now()\<close> inside \<^verbatim>\<open>time.Until\<close>, the client of the organization (its error), the reads, and
  the outcome of every write and of the promote call.
\<close>

record ('g, 'c) promo_world =
  pv_ssc :: set_cond
  pv_now_gc :: int
  pv_now_sched :: int
  pv_now_start :: int
  pv_now_end :: int
  pv_wall :: int
  pv_show_time :: "int \<Rightarrow> string"
  pv_client :: "go_error option"
  pv_get_org :: "('g) organization_scheme k8s_get"
  pv_get_project :: "('c) content_project_scheme k8s_get"
  pv_envs :: "go_error + project_environment_info list"
  pv_out :: answers

definition isTerminal :: "string \<Rightarrow> bool" where
  "isTerminal phase = (phase = ''Succeeded'' \<or> phase = ''Failed'')"

definition isTransientCLMConflict :: "go_error \<Rightarrow> bool" where
  "isTransientCLMConflict e = str_contains (err_text e) ''already in progress''"

fun findEnvState :: "environment_state list \<Rightarrow> string \<Rightarrow> environment_state option" where
  "findEnvState [] label = None"
| "findEnvState (s # ss) label = (if es_label s = label then Some s else findEnvState ss label)"

definition promo_set_status ::
  "(promotion_status \<Rightarrow> promotion_status) \<Rightarrow> (('a) promotion_scheme, 'u) pass \<Rightarrow>
   (('a) promotion_scheme, 'u) pass" where
  "promo_set_status f s = s\<lparr>mem := (mem s)\<lparr>pr_status := f (pr_status (mem s))\<rparr>\<rparr>"

definition promo_ready ::
  "('g, 'c) promo_world \<Rightarrow> int \<Rightarrow> bool \<Rightarrow> string \<Rightarrow> string \<Rightarrow> promotion_status \<Rightarrow> promotion_status" where
  "promo_ready w gen ok reason msg st =
     st\<lparr>prs_conditions := setReady (pv_ssc w) (prs_conditions st) gen ok reason msg\<rparr>"

definition ttl_result :: "('a) promotion_scheme \<Rightarrow> ctrl_result" where
  "ttl_result p = (if pr_ttl (pr_spec p) > 0 then result_after (pr_ttl (pr_spec p)) else result_done)"

definition promo_fail ::
  "('g, 'c) promo_world \<Rightarrow> go_error \<Rightarrow> (('a) promotion_scheme, promo_call) pass \<Rightarrow>
   (('a) promotion_scheme, promo_call) outcome" where
  "promo_fail w err s =
     (let s1 = promo_set_status (\<lambda>st. promo_ready w (obj_generation (mem s)) False ''Failed'' (err_text err)
            (st\<lparr>prs_phase := ''Failed'', prs_failure_reason := err_text err,
                prs_completed_at := Some (pv_now_end w)\<rparr>)) s
      in case write_status (pv_out w) promotion_kind s1 of
           (Some uerr, s2) \<Rightarrow> (result_done, Some uerr, s2)
         | (None, s2) \<Rightarrow> (ttl_result (mem s2), None, s2))"

definition promo_pending ::
  "('g, 'c) promo_world \<Rightarrow> string \<Rightarrow> string \<Rightarrow> int \<Rightarrow> (('a) promotion_scheme, promo_call) pass \<Rightarrow>
   (('a) promotion_scheme, promo_call) outcome" where
  "promo_pending w reason msg after s =
     (let s1 = promo_set_status (\<lambda>st. promo_ready w (obj_generation (mem s)) False reason msg
            (st\<lparr>prs_phase := ''Pending''\<rparr>)) s
      in case write_status (pv_out w) promotion_kind s1 of
           (Some e, s2) \<Rightarrow> (result_done, Some e, s2)
         | (None, s2) \<Rightarrow> (result_after after, None, s2))"

text \<open>Polling the target environment, the last part of the pass.\<close>

definition promo_poll ::
  "('g, 'c) promo_world \<Rightarrow> (('a) promotion_scheme, promo_call) pass \<Rightarrow>
   (('a) promotion_scheme, promo_call) outcome" where
  "promo_poll w s =
     (case pv_envs w of
        Inl e \<Rightarrow> (result_done, Some e, s)
      | Inr envs \<Rightarrow>
          (case find (\<lambda>e. pei_label e = pr_to (pr_spec (mem s))) envs of
             None \<Rightarrow> promo_fail w (errorf (''target environment '' @ go_quote (pr_to (pr_spec (mem s)))
                       @ '' disappeared'')) s
           | Some target \<Rightarrow>
               let status = to_upper (pei_status target) in
               if status = ''BUILDING'' \<or> status = ''GENERATING_REPODATA'' \<or> status = ''NEW''
               then (result_after (30 * second), None, s)
               else if status = ''FAILED''
               then promo_fail w (errorf ''target environment build failed in Uyuni'') s
               else if status = ''BUILT''
               then
                 (let s1 = promo_set_status (\<lambda>st. promo_ready w (obj_generation (mem s)) True ''Promoted'' []
                        (st\<lparr>prs_completed_at := Some (pv_now_end w), prs_phase := ''Succeeded''\<rparr>)) s
                  in case write_status (pv_out w) promotion_kind s1 of
                       (Some e, s2) \<Rightarrow> (result_done, Some e, s2)
                     | (None, s2) \<Rightarrow> (ttl_result (mem s2), None, s2))
               else (result_after (30 * second), None, s)))"

text \<open>The call to Uyuni, made only while no earlier success is on record.\<close>

definition promo_request ::
  "('g, 'c) promo_world \<Rightarrow> string \<Rightarrow> (('a) promotion_scheme, promo_call) pass \<Rightarrow>
   (('a) promotion_scheme, promo_call) outcome" where
  "promo_request w label s =
     (if prs_promotion_requested (pr_status (mem s)) then promo_poll w s
      else case attempt (pv_out w) (Call (PromoteProject label (pr_from (pr_spec (mem s))))) s of
        (Some err, s1) \<Rightarrow>
          if isTransientCLMConflict err
          then case write_status (pv_out w) promotion_kind
                      (promo_set_status (promo_ready w (obj_generation (mem s1)) False ''CLMBusy''
                        (''Uyuni reported a build/promote already in progress for this project - retrying: ''
                         @ err_text err)) s1) of
                 (Some uerr, s2) \<Rightarrow> (result_done, Some uerr, s2)
               | (None, s2) \<Rightarrow> (result_after (30 * second), None, s2)
          else promo_fail w err s1
      | (None, s1) \<Rightarrow>
          (case write_status (pv_out w) promotion_kind
                  (promo_set_status (\<lambda>st. st\<lparr>prs_promotion_requested := True\<rparr>) s1) of
             (Some e, s2) \<Rightarrow> (result_done, Some e, s2)
           | (None, s2) \<Rightarrow> promo_poll w s2))"

definition promo_start ::
  "('g, 'c) promo_world \<Rightarrow> string \<Rightarrow> int \<Rightarrow> (('a) promotion_scheme, promo_call) pass \<Rightarrow>
   (('a) promotion_scheme, promo_call) outcome" where
  "promo_start w label version s =
     (if prs_started_at (pr_status (mem s)) = None
      then case write_status (pv_out w) promotion_kind
                  (promo_set_status (\<lambda>st. st\<lparr>prs_started_at := Some (pv_now_start w),
                     prs_phase := ''Running'', prs_promoted_version := version\<rparr>) s) of
             (Some e, s1) \<Rightarrow> (result_done, Some e, s1)
           | (None, s1) \<Rightarrow> promo_request w label s1
      else promo_request w label s)"

text \<open>The runtime checks between the reads and the start.\<close>

definition promo_checks ::
  "('g, 'c) promo_world \<Rightarrow> ('c) content_project_scheme \<Rightarrow> (('a) promotion_scheme, promo_call) pass \<Rightarrow>
   (('a) promotion_scheme, promo_call) outcome" where
  "promo_checks w cp s =
     (let sp = pr_spec (mem s) in
      case findEnvState (cps_environment_states (cp_status cp)) (pr_from sp) of
        None \<Rightarrow> promo_fail w (errorf (''environment '' @ go_quote (pr_from sp)
          @ '' no longer exists in ContentProject '' @ go_quote (obj_name cp)
          @ '' (project was modified after promotion was created)'')) s
      | Some source \<Rightarrow>
          if (case pr_not_before sp of None \<Rightarrow> False | Some t \<Rightarrow> pv_now_sched w < t)
          then promo_pending w ''NotBefore'' (''scheduled for '' @ pv_show_time w (the (pr_not_before sp)))
                 (the (pr_not_before sp) - pv_wall w) s
          else if pr_require_source_version sp > 0 \<and> es_built_version source = 0
          then promo_pending w ''SourceNotBuilt''
                 (''source env '' @ go_quote (pr_from sp) @ '' has no build yet'') (30 * second) s
          else if pr_require_source_version sp > 0 \<and>
                  es_built_version source \<noteq> pr_require_source_version sp
          then promo_fail w (errorf (''source version mismatch: requireSourceVersion=''
                 @ itoa (pr_require_source_version sp) @ '' but env is at v''
                 @ itoa (es_built_version source))) s
          else if cps_build_status (cp_status cp) = ''Building''
          then promo_pending w ''ProjectBuilding''
                 (''waiting for in-flight build of '' @ cp_label (cp_spec cp)) (30 * second) s
          else promo_start w (cp_label (cp_spec cp)) (es_built_version source) s)"

definition promo_Reconcile ::
  "('g, 'c) promo_world \<Rightarrow> ('a) promotion_scheme \<Rightarrow> (('a) promotion_scheme, promo_call) outcome" where
  "promo_Reconcile w p =
     (let s = start_pass p; ttl = pr_ttl (pr_spec p) in
      if isTerminal (prs_phase (pr_status p)) then
        (case prs_completed_at (pr_status p) of
           Some t \<Rightarrow>
             if ttl > 0 then
               if pv_now_gc w > t + ttl
               then (case delete_object (pv_out w) s of (e, s1) \<Rightarrow> (result_done, e, s1))
               else (result_after (t + ttl - pv_wall w), None, s)
             else (result_done, None, s)
         | None \<Rightarrow> (result_done, None, s))
      else case pv_client w of
        Some err \<Rightarrow> promo_fail w err s
      | None \<Rightarrow>
          (case own_organization (pv_out w) promotion_kind (pv_get_org w)
                  (orgRef (pr_organization_ref (pr_spec p))) s of
             (Some e, s1) \<Rightarrow> (result_done, Some e, s1)
           | (None, s1) \<Rightarrow>
               (case pv_get_project w (obj_namespace p) (lor_name (pr_project_ref (pr_spec p))) of
                  Inl e \<Rightarrow> promo_fail w (wrap_err ''project ref: '' e) s1
                | Inr cp \<Rightarrow> promo_checks w cp s1)))"

interpretation promotion_status_field: status_field promotion_kind
  by unfold_locales (simp_all add: promotion_kind_def k8s_object.defs)

lemma promotion_kind_simps [simp]:
  "status_of promotion_kind p = pr_status p"
  "with_status promotion_kind st = (\<lambda>p. p\<lparr>pr_status := st\<rparr>)"
  by (simp_all add: promotion_kind_def)

section \<open>How often Uyuni is asked\<close>

definition promoted :: "(promo_call event \<times> bool) \<Rightarrow> bool" where
  "promoted x = (case x of (Call (PromoteProject l f), ok) \<Rightarrow> ok | _ \<Rightarrow> False)"

definition promote_count :: "(promo_call event \<times> bool) list \<Rightarrow> nat" where
  "promote_count t = length (filter promoted t)"

text \<open>
  The one way to lose track: the promote call succeeded and the very next write, the one that
  records it, failed.
\<close>

definition lost_records :: "(promo_call event \<times> bool) list \<Rightarrow> nat" where
  "lost_records t = length (filter (\<lambda>(a, b). promoted a \<and> b = (WriteStatus, False)) (zip t (tl t)))"

lemma promote_count_simps [simp]:
  "promote_count [] = 0" "promote_count (t @ t') = promote_count t + promote_count t'"
  "promote_count (x # t) = (if promoted x then 1 else 0) + promote_count t"
  by (simp_all add: promote_count_def)

lemma promoted_simps [simp]:
  "\<not> promoted (WriteStatus, b)" "\<not> promoted (WriteObject, b)" "\<not> promoted (DeleteObject, b)"
  "promoted (Call (PromoteProject l f), b) = b"
  by (simp_all add: promoted_def)

lemma zip_tl_append:
  "t \<noteq> [] \<Longrightarrow> zip (t @ u) (tl (t @ u)) = zip t (tl t) @ zip (last t # u) u"
proof (induction t)
  case Nil
  then show ?case by simp
next
  case (Cons x t)
  then show ?case by (cases t) auto
qed

lemma lost_records_append: "lost_records t \<le> lost_records (t @ u)"
proof (cases "t = []")
  case True
  then show ?thesis by (simp add: lost_records_def)
next
  case False
  show ?thesis unfolding lost_records_def zip_tl_append [OF False] by simp
qed

lemma lost_records_found:
  "promoted x \<Longrightarrow> lost_records (t @ [x, (WriteStatus, False)]) > lost_records t"
proof (cases "t = []")
  case True
  then show "promoted x \<Longrightarrow> ?thesis" by (simp add: lost_records_def)
next
  case False
  show "promoted x \<Longrightarrow> ?thesis"
    unfolding lost_records_def zip_tl_append [OF False] by simp
qed

definition requested :: "('a) promotion_scheme option \<Rightarrow> bool" where
  "requested p = (case p of None \<Rightarrow> True | Some q \<Rightarrow> prs_promotion_requested (pr_status q))"

text \<open>
  The account of a pass from its start: no more successful calls than lost records, plus one when
  the stored object (or its absence) shows that the call was made.
\<close>

definition accounted :: "bool \<Rightarrow> (('a) promotion_scheme, promo_call) pass \<Rightarrow> bool" where
  "accounted before s =
     (promote_count (trace s) + (if before then 1 else 0) \<le>
      lost_records (trace s) + (if requested (stored s) then 1 else 0))"

text \<open>The steps that only write the status, and leave the record of the call as it is in memory.\<close>

definition settles ::
  "(('a) promotion_scheme, promo_call) pass \<Rightarrow> (('a) promotion_scheme, promo_call) pass \<Rightarrow> bool" where
  "settles s s' =
     (\<exists>ts. trace s' = trace s @ ts \<and> promote_count ts = 0 \<and>
        (stored s' = stored s \<or>
         (\<exists>st. stored s' = map_option (\<lambda>p. p\<lparr>pr_status := st\<rparr>) (stored s) \<and>
            prs_promotion_requested st = prs_promotion_requested (pr_status (mem s)))))"

lemma settles_refl: "settles s s"
  by (auto simp: settles_def intro: exI [of _ "[]"])

lemma settles_write:
  assumes "\<And>st. prs_promotion_requested (f st) = prs_promotion_requested st"
  shows "settles s (snd (write_status out promotion_kind (promo_set_status f s)))"
proof -
  let ?w = "write_status out promotion_kind (promo_set_status f s)"
  have w: "?w = (fst ?w, snd ?w)" by (rule prod.collapse [symmetric])
  show ?thesis
    using promotion_status_field.write_status_cases [OF w] assms
    unfolding settles_def promo_set_status_def
    by (cases "fst ?w") (force simp: promo_set_status_def)+
qed

lemma promo_ready_requested [simp]:
  "prs_promotion_requested (promo_ready w g ok r m st) = prs_promotion_requested st"
  "prs_phase (promo_ready w g ok r m st) = prs_phase st"
  "prs_completed_at (promo_ready w g ok r m st) = prs_completed_at st"
  "prs_started_at (promo_ready w g ok r m st) = prs_started_at st"
  by (simp_all add: promo_ready_def)

lemma promo_fail_settles: "settles s (snd (snd (promo_fail w e s)))"
  by (simp add: promo_fail_def Let_def split_beta settles_write split: option.split)

lemma promo_pending_settles: "settles s (snd (snd (promo_pending w rs m a s)))"
  by (simp add: promo_pending_def Let_def split_beta settles_write split: option.split)

lemma promo_poll_settles: "settles s (snd (snd (promo_poll w s)))"
  by (simp add: promo_poll_def Let_def split_beta settles_write settles_refl promo_fail_settles
      split: option.split sum.split)

lemma settles_accounted:
  assumes "settles s s'" "accounted before s"
    and "requested (stored s) \<longrightarrow> prs_promotion_requested (pr_status (mem s)) \<or> stored s = None"
  shows "accounted before s'"
proof -
  obtain ts where ts: "trace s' = trace s @ ts" "promote_count ts = 0"
    and st: "stored s' = stored s \<or> (\<exists>st. stored s' = map_option (\<lambda>p. p\<lparr>pr_status := st\<rparr>) (stored s) \<and>
            prs_promotion_requested st = prs_promotion_requested (pr_status (mem s)))"
    using assms(1) by (auto simp: settles_def)
  have "requested (stored s) \<longrightarrow> requested (stored s')"
    using st assms(3) by (auto simp: requested_def split: option.splits)
  then show ?thesis
    using assms(2) lost_records_append [of "trace s" ts] ts
    by (cases "requested (stored s)"; cases "requested (stored s')") (auto simp: accounted_def)
qed

text \<open>
  The object is there and memory and store agree on the record; holds before every step of a pass.
\<close>

definition in_step :: "(('a) promotion_scheme, promo_call) pass \<Rightarrow> bool" where
  "in_step s = (stored s \<noteq> None \<and>
     requested (stored s) = prs_promotion_requested (pr_status (mem s)))"

lemma settles_accounted':
  "settles s s' \<Longrightarrow> accounted before s \<Longrightarrow> in_step s \<Longrightarrow> accounted before s'"
  by (rule settles_accounted) (auto simp: in_step_def)

lemma promo_set_status_simps [simp]:
  "mem (promo_set_status f s) = (mem s)\<lparr>pr_status := f (pr_status (mem s))\<rparr>"
  "stored (promo_set_status f s) = stored s" "trace (promo_set_status f s) = trace s"
  by (simp_all add: promo_set_status_def)

lemma promo_request_accounted:
  assumes "accounted before s" "in_step s"
  shows "accounted before (snd (snd (promo_request w label s)))"
proof (cases "prs_promotion_requested (pr_status (mem s))")
  case True
  then show ?thesis
    using assms settles_accounted' [OF promo_poll_settles] by (simp add: promo_request_def)
next
  case False
  let ?ev = "Call (PromoteProject label (pr_from (pr_spec (mem s))))"
  define s1 where "s1 = snd (attempt (pv_out w) ?ev s)"
  show ?thesis
  proof (cases "pv_out w (length (trace s))")
    case (Some err)
    then have s1: "attempt (pv_out w) ?ev s = (Some err, s1)"
      by (simp add: s1_def attempt_def Let_def)
    have ok: "accounted before s1" "in_step s1"
      using assms Some lost_records_append [of "trace s"]
      by (auto simp: s1_def accounted_def in_step_def intro: le_trans add_mono)
    show ?thesis
      using False s1 settles_accounted' [OF promo_fail_settles [of s1 w err] ok]
        settles_accounted' [OF settles_write ok]
      by (simp add: promo_request_def split_beta split: option.split)
  next
    case None
    then have s1: "attempt (pv_out w) ?ev s = (None, s1)"
      by (simp add: s1_def attempt_def Let_def)
    let ?w = "write_status (pv_out w) promotion_kind
      (promo_set_status (\<lambda>st. st\<lparr>prs_promotion_requested := True\<rparr>) s1)"
    have t1: "trace s1 = trace s @ [(?ev, True)]" "stored s1 = stored s" "mem s1 = mem s"
      using None by (simp_all add: s1_def)
    have nr: "\<not> requested (stored s)" using False assms(2) by (auto simp: in_step_def)
    show ?thesis
    proof (cases "pv_out w (length (trace s1))")
      case (Some e)
      then have "accounted before (snd ?w)"
        using assms(1) lost_records_found [of "(?ev, True)" "trace s"] t1
        by (auto simp: accounted_def)
      then show ?thesis using False s1 Some by (simp add: promo_request_def split_beta)
    next
      case None
      then have "accounted before (snd ?w)" "in_step (snd ?w)"
        using assms lost_records_append [of "trace s" "[(?ev, True), (WriteStatus, True)]"] t1 nr
        by (auto simp: accounted_def in_step_def requested_def split: option.splits)
      from settles_accounted' [OF promo_poll_settles this]
      show ?thesis using False s1 None by (simp add: promo_request_def split_beta)
    qed
  qed
qed

lemma promo_start_accounted:
  assumes "accounted before s" "in_step s"
  shows "accounted before (snd (snd (promo_start w label v s)))"
proof (cases "prs_started_at (pr_status (mem s))")
  case (Some t)
  then show ?thesis using promo_request_accounted [OF assms] by (simp add: promo_start_def)
next
  case None
  let ?s = "snd (write_status (pv_out w) promotion_kind
    (promo_set_status (\<lambda>st. st\<lparr>prs_started_at := Some (pv_now_start w), prs_phase := ''Running'',
       prs_promoted_version := v\<rparr>) s))"
  have a: "accounted before ?s" by (rule settles_accounted' [OF settles_write assms]) simp
  have "in_step ?s" if "pv_out w (length (trace s)) = None"
    using assms(2) that by (auto simp: in_step_def requested_def split: option.splits)
  with a None promo_request_accounted [of before ?s w label] show ?thesis
    by (simp add: promo_start_def split_beta split: option.split)
qed

lemma promo_checks_accounted:
  assumes "accounted before s" "in_step s"
  shows "accounted before (snd (snd (promo_checks w cp s)))"
  using settles_accounted' [OF promo_fail_settles [where w = w] assms]
    settles_accounted' [OF promo_pending_settles [where w = w] assms] promo_start_accounted [OF assms, of w]
  by (simp add: promo_checks_def Let_def split: option.split)

lemma own_organization_promo:
  fixes p :: "('a) promotion_scheme"
  assumes "own_organization out promotion_kind getOrg n (start_pass p) = (r, s)"
    and "collected p = Some p"
  shows "\<exists>q. stored s = Some q \<and> pr_status q = pr_status p"
    and "pr_status (mem s) = pr_status p"
    and "promote_count (trace s) = 0"
  using promotion_status_field.own_organization_status [OF assms(1), of p]
    promotion_status_field.own_organization_live [OF assms] by auto

lemma start_accounted: "accounted (requested (Some p)) (start_pass p)" "in_step (start_pass p)"
  by (simp_all add: accounted_def in_step_def requested_def)

text \<open>The account of a whole pass.\<close>

lemma promo_Reconcile_accounted:
  fixes p :: "('a) promotion_scheme"
  assumes live: "collected p = Some p"
  shows "accounted (requested (Some p)) (snd (snd (promo_Reconcile w p)))"
proof -
  let ?b = "requested (Some p)"
  have del: "accounted ?b (snd (delete_object (pv_out w) (start_pass p)))"
    by (auto simp: accounted_def delete_object_def attempt_def Let_def collected_def requested_def
        split: option.splits)
  obtain r and s :: "('a promotion_scheme, promo_call) pass" where own: "own_organization (pv_out w) promotion_kind (pv_get_org w)
      (orgRef (pr_organization_ref (pr_spec p))) (start_pass p) = (r, s)" by fastforce
  note o' = own_organization_promo [OF own live]
  have s: "accounted ?b s" "in_step s"
    using o' by (auto simp: accounted_def in_step_def requested_def)
  show ?thesis
    using del settles_accounted' [OF promo_fail_settles [where w = w] s] promo_checks_accounted [OF s, of w]
      settles_accounted' [OF promo_fail_settles [where w = w] start_accounted, of p] start_accounted [of p] s
    by (simp add: promo_Reconcile_def Let_def own split_beta split: option.split sum.split)
qed

section \<open>Runs\<close>

text \<open>
  Between passes anyone may change the object; the API server keeps the status from them.  A pass
  starts with \<^verbatim>\<open>Get\<close>, and the run ends when the object is not there any more.
\<close>

datatype ('g, 'c) promo_step = PPass "('g, 'c) promo_world" | PEdit "promotion \<Rightarrow> promotion"

fun promo_run :: "('g, 'c) promo_step list \<Rightarrow> promotion \<Rightarrow>
    (promo_call event \<times> bool) list list \<times> promotion option" where
  "promo_run [] p = ([], Some p)"
| "promo_run (PEdit f # steps) p = promo_run steps ((f p)\<lparr>pr_status := pr_status p\<rparr>)"
| "promo_run (PPass w # steps) p =
     (if \<not> live p then ([], None)
      else let (_, _, s) = promo_Reconcile w p in
        case stored s of
          None \<Rightarrow> ([trace s], None)
        | Some q \<Rightarrow> (let (ts, r) = promo_run steps q in (trace s # ts, r)))"

definition total :: "('t \<Rightarrow> nat) \<Rightarrow> 't list \<Rightarrow> nat" where
  "total f ts = sum_list (map f ts)"

lemma total_simps [simp]: "total f [] = 0" "total f (t # ts) = f t + total f ts"
  by (simp_all add: total_def)

lemma promo_run_accounted:
  "total promote_count (fst (promo_run steps p)) + (if requested (Some p) then 1 else 0) \<le>
   total lost_records (fst (promo_run steps p)) + 1"
proof (induction steps p rule: promo_run.induct)
  case (1 p)
  then show ?case by simp
next
  case (2 f steps p)
  then show ?case by (simp add: requested_def)
next
  case (3 w steps p)
  obtain r e s where w: "promo_Reconcile w p = (r, e, s)" by (cases "promo_Reconcile w p")
  show ?case
  proof (cases "live p")
    case False
    then show ?thesis by simp
  next
    case True
    note live = collected_live(1) [OF True]
    have a: "promote_count (trace s) + (if requested (Some p) then 1 else 0) \<le>
        lost_records (trace s) + (if requested (stored s) then 1 else 0)"
      using promo_Reconcile_accounted [OF live, of w] by (simp add: w accounted_def)
    show ?thesis
    proof (cases "stored s")
      case None
      then show ?thesis using a True by (simp add: w split: if_splits)
    next
      case (Some q)
      have "\<not> \<not> live p" using True by simp
      from 3 [OF this w [symmetric] refl refl Some] have
        "total promote_count (fst (promo_run steps q)) + (if requested (Some q) then 1 else 0) \<le>
         total lost_records (fst (promo_run steps q)) + 1" .
      with a Some True show ?thesis by (simp add: w split_beta split: if_splits)
    qed
  qed
qed

section \<open>What Succeeded means\<close>

text \<open>The target environment, as Uyuni reported it in this pass, is built.\<close>

definition target_built :: "('g, 'c) promo_world \<Rightarrow> string \<Rightarrow> bool" where
  "target_built w toEnv =
     (case pv_envs w of
        Inl _ \<Rightarrow> False
      | Inr envs \<Rightarrow> (case find (\<lambda>e. pei_label e = toEnv) envs of
          None \<Rightarrow> False | Some t \<Rightarrow> to_upper (pei_status t) = ''BUILT''))"

definition justified :: "('g, 'c) promo_world \<Rightarrow> string \<Rightarrow> (('a) promotion_scheme, promo_call) pass \<Rightarrow> bool" where
  "justified w toEnv s = (case stored s of
      None \<Rightarrow> True
    | Some q \<Rightarrow> prs_phase (pr_status q) = ''Succeeded'' \<longrightarrow>
        prs_promotion_requested (pr_status q) \<and> target_built w toEnv \<and>
        prs_completed_at (pr_status q) = Some (pv_now_end w))"

lemma justified_write:
  "justified w toEnv s \<Longrightarrow> prs_phase (f (pr_status (mem s))) \<noteq> ''Succeeded'' \<Longrightarrow>
     justified w toEnv (snd (write_status out promotion_kind (promo_set_status f s)))"
  by (auto simp: justified_def split: option.splits)

lemma promo_fail_justified:
  "justified w toEnv s \<Longrightarrow> justified w toEnv (snd (snd (promo_fail w e s)))"
  by (simp add: promo_fail_def Let_def split_beta justified_write split: option.split)

lemma promo_pending_justified:
  "justified w toEnv s \<Longrightarrow> justified w toEnv (snd (snd (promo_pending w rs m a s)))"
  by (simp add: promo_pending_def Let_def split_beta justified_write split: option.split)

lemma promo_poll_justified:
  assumes j: "justified w (pr_to (pr_spec (mem s))) s"
    and req: "prs_promotion_requested (pr_status (mem s))"
  shows "justified w (pr_to (pr_spec (mem s))) (snd (snd (promo_poll w s)))"
proof (cases "target_built w (pr_to (pr_spec (mem s)))")
  case False
  then show ?thesis
    using j promo_fail_justified [OF j]
    by (auto simp: promo_poll_def Let_def target_built_def split_beta split: option.split sum.split)
next
  case True
  have "justified w (pr_to (pr_spec (mem s))) (snd (write_status out promotion_kind (promo_set_status f s)))"
    if "\<And>st. prs_promotion_requested (f st) = prs_promotion_requested st"
      "\<And>st. prs_completed_at (f st) = Some (pv_now_end w)" for f out
    using j req True that by (auto simp: justified_def split: option.splits)
  then show ?thesis
    using j promo_fail_justified [OF j]
    by (simp add: promo_poll_def Let_def split_beta split: option.split sum.split)
qed

lemma promo_request_justified:
  assumes j: "justified w (pr_to (pr_spec (mem s))) s"
    and np: "prs_phase (pr_status (mem s)) \<noteq> ''Succeeded''"
  shows "justified w (pr_to (pr_spec (mem s))) (snd (snd (promo_request w label s)))"
proof (cases "prs_promotion_requested (pr_status (mem s))")
  case True
  then show ?thesis using promo_poll_justified [OF j] by (simp add: promo_request_def)
next
  case False
  define s1 where "s1 = snd (attempt (pv_out w) (Call (PromoteProject label (pr_from (pr_spec (mem s))))) s)"
  have eq: "mem s1 = mem s" by (simp add: s1_def)
  have j1: "justified w (pr_to (pr_spec (mem s))) s1" using j by (simp add: s1_def justified_def)
  have j2: "justified w (pr_to (pr_spec (mem s)))
      (snd (write_status (pv_out w) promotion_kind
         (promo_set_status (\<lambda>st. st\<lparr>prs_promotion_requested := True\<rparr>) s1)))"
    using np by (intro justified_write [OF j1]) (simp add: eq)
  have j3: "justified w (pr_to (pr_spec (mem s)))
      (snd (write_status (pv_out w) promotion_kind (promo_set_status (promo_ready w g ok r m) s1)))" for g ok r m
    using np by (intro justified_write [OF j1]) (simp add: eq)
  note j4 = promo_poll_justified [of w "snd (write_status (pv_out w) promotion_kind
         (promo_set_status (\<lambda>st. st\<lparr>prs_promotion_requested := True\<rparr>) s1))"]
  show ?thesis
    using False j2 j3 j4 promo_fail_justified [OF j1]
    by (simp add: promo_request_def split_beta eq flip: s1_def split: option.split)
qed

lemma promo_start_justified:
  assumes j: "justified w (pr_to (pr_spec (mem s))) s"
    and np: "prs_phase (pr_status (mem s)) \<noteq> ''Succeeded''"
  shows "justified w (pr_to (pr_spec (mem s))) (snd (snd (promo_start w label v s)))"
proof (cases "prs_started_at (pr_status (mem s))")
  case (Some t)
  then show ?thesis using promo_request_justified [OF j np] by (simp add: promo_start_def)
next
  case None
  let ?s = "snd (write_status (pv_out w) promotion_kind
    (promo_set_status (\<lambda>st. st\<lparr>prs_started_at := Some (pv_now_start w), prs_phase := ''Running'',
       prs_promoted_version := v\<rparr>) s))"
  have j1: "justified w (pr_to (pr_spec (mem s))) ?s" by (rule justified_write [OF j]) simp
  then show ?thesis
    using None promo_request_justified [of w ?s label]
    by (simp add: promo_start_def split_beta split: option.split)
qed

lemma promo_checks_justified:
  assumes j: "justified w (pr_to (pr_spec (mem s))) s"
    and np: "prs_phase (pr_status (mem s)) \<noteq> ''Succeeded''"
  shows "justified w (pr_to (pr_spec (mem s))) (snd (snd (promo_checks w cp s)))"
  using promo_fail_justified [OF j] promo_pending_justified [OF j] promo_start_justified [OF assms]
  by (simp add: promo_checks_def Let_def split: option.split)

lemma own_organization_promo_spec:
  "own_organization out promotion_kind getOrg n s = (r, s') \<Longrightarrow> pr_spec (mem s') = pr_spec (mem s)"
  by (auto simp: own_organization_def write_object_def attempt_def Let_def
      split: option.splits prod.splits)

lemma promo_Reconcile_justified:
  fixes p :: "('a) promotion_scheme"
  assumes live: "collected p = Some p" and nt: "\<not> isTerminal (prs_phase (pr_status p))"
  shows "justified w (pr_to (pr_spec p)) (snd (snd (promo_Reconcile w p)))"
proof -
  have np: "prs_phase (pr_status p) \<noteq> ''Succeeded''" using nt by (simp add: isTerminal_def)
  obtain r and s :: "('a promotion_scheme, promo_call) pass" where own:
    "own_organization (pv_out w) promotion_kind (pv_get_org w)
      (orgRef (pr_organization_ref (pr_spec p))) (start_pass p) = (r, s)" by fastforce
  have sp: "pr_spec (mem s) = pr_spec p" using own_organization_promo_spec [OF own] by simp
  note o' = own_organization_promo [OF own live]
  have j0: "justified w (pr_to (pr_spec p)) (start_pass p)" using np by (simp add: justified_def)
  have j: "justified w (pr_to (pr_spec p)) s" using o'(1) np by (auto simp: justified_def)
  have c: "justified w (pr_to (pr_spec p)) (snd (snd (promo_checks w cp s)))" for cp
    using promo_checks_justified [of w s cp] j np o'(2) sp by simp
  show ?thesis
    using j c promo_fail_justified [OF j] promo_fail_justified [OF j0] nt
    by (simp add: promo_Reconcile_def Let_def own split_beta split: option.split sum.split)
qed

section \<open>Terminal phases, deletion, progress\<close>

lemma promo_terminal:
  assumes "isTerminal (prs_phase (pr_status p))"
  shows "promo_Reconcile w p =
     (case prs_completed_at (pr_status p) of
        Some t \<Rightarrow>
          if pr_ttl (pr_spec p) > 0 then
            if pv_now_gc w > t + pr_ttl (pr_spec p)
            then (result_done, pv_out w 0,
                  (start_pass p)\<lparr>stored := (if pv_out w 0 = None then collected (p\<lparr>obj_deleting := True\<rparr>)
                     else Some p), trace := [(DeleteObject, pv_out w 0 = None)]\<rparr>)
            else (result_after (t + pr_ttl (pr_spec p) - pv_wall w), None, start_pass p)
          else (result_done, None, start_pass p)
      | None \<Rightarrow> (result_done, None, start_pass p))"
  using assms
  by (simp add: promo_Reconcile_def Let_def delete_object_def attempt_def start_pass_def
      split: option.split)

text \<open>A pass in which nothing stands in the way.\<close>

definition clear_world :: "('g, 'c) promo_world \<Rightarrow> ('a) promotion_scheme \<Rightarrow> bool" where
  "clear_world w p =
     (pv_client w = None \<and> (\<forall>n. pv_out w n = None) \<and>
      (case pv_get_project w (obj_namespace p) (lor_name (pr_project_ref (pr_spec p))) of
         Inl _ \<Rightarrow> False
       | Inr cp \<Rightarrow> cps_build_status (cp_status cp) \<noteq> ''Building'' \<and>
           (case findEnvState (cps_environment_states (cp_status cp)) (pr_from (pr_spec p)) of
              None \<Rightarrow> False
            | Some st \<Rightarrow> pr_require_source_version (pr_spec p) \<in> {0, es_built_version st})) \<and>
      (case pr_not_before (pr_spec p) of None \<Rightarrow> True | Some t \<Rightarrow> t \<le> pv_now_sched w) \<and>
      (case pv_get_org w (obj_namespace p) (orgRef (pr_organization_ref (pr_spec p))) of
         Inr _ \<Rightarrow> True | Inl e \<Rightarrow> is_k8s_not_found e))"

lemma own_organization_clear:
  assumes "\<And>n. out n = None"
    and "case getOrg (obj_namespace p) orgName of Inr _ \<Rightarrow> True | Inl e \<Rightarrow> is_k8s_not_found e"
  shows "fst (own_organization out promotion_kind getOrg orgName (start_pass p)) = None"
  using assms
  by (auto simp: own_organization_def reconcileOrganizationOwnership_def write_object_def
      attempt_def Let_def split: option.splits sum.splits)

lemma promo_request_clear:
  fixes s :: "('b promotion_scheme, promo_call) pass"
  assumes "\<And>n. pv_out w n = None" "target_built w (pr_to (pr_spec (mem s)))" "stored s \<noteq> None"
  shows "\<exists>q. stored (snd (snd (promo_request w label s))) = Some q \<and>
    prs_phase (pr_status q) = ''Succeeded''"
proof -
  have poll: "\<exists>q. stored (snd (snd (promo_poll w s'))) = Some q \<and> prs_phase (pr_status q) = ''Succeeded''"
    if "stored s' \<noteq> None" "pr_spec (mem s') = pr_spec (mem s)" for s' :: "('b promotion_scheme, promo_call) pass"
    using assms that
    by (auto simp: promo_poll_def target_built_def Let_def split_beta split: option.splits sum.splits)
  show ?thesis
  proof (cases "prs_promotion_requested (pr_status (mem s))")
    case True
    then show ?thesis using poll [of s] assms(3) by (simp add: promo_request_def)
  next
    case False
    then show ?thesis
      using assms by (auto simp: promo_request_def split_beta assms(1) intro!: poll)
  qed
qed

lemma promo_Reconcile_progress:
  fixes p :: "('a) promotion_scheme"
  assumes live: "collected p = Some p" and nt: "\<not> isTerminal (prs_phase (pr_status p))"
    and cw: "clear_world w p" and b: "target_built w (pr_to (pr_spec p))"
  shows "\<exists>q. stored (snd (snd (promo_Reconcile w p))) = Some q \<and> prs_phase (pr_status q) = ''Succeeded''"
proof -
  obtain r and s :: "('a promotion_scheme, promo_call) pass" where own:
    "own_organization (pv_out w) promotion_kind (pv_get_org w)
      (orgRef (pr_organization_ref (pr_spec p))) (start_pass p) = (r, s)" by fastforce
  have out: "\<And>n. pv_out w n = None" using cw by (simp add: clear_world_def)
  have "fst (own_organization (pv_out w) promotion_kind (pv_get_org w)
      (orgRef (pr_organization_ref (pr_spec p)))
      (start_pass p :: ('a promotion_scheme, promo_call) pass)) = None"
    using cw by (intro own_organization_clear [OF out]) (simp add: clear_world_def)
  then have r: "r = None" unfolding own by simp
  have sp: "pr_spec (mem s) = pr_spec p" using own_organization_promo_spec [OF own] by simp
  have st: "stored s \<noteq> None" using own_organization_promo(1) [OF own live] by auto
  obtain cp src where cp: "pv_get_project w (obj_namespace p) (lor_name (pr_project_ref (pr_spec p))) = Inr cp"
    "cps_build_status (cp_status cp) \<noteq> ''Building''"
    "findEnvState (cps_environment_states (cp_status cp)) (pr_from (pr_spec p)) = Some src"
    "pr_require_source_version (pr_spec p) \<in> {0, es_built_version src}"
    using cw by (auto simp: clear_world_def split: sum.splits option.splits)
  have "\<not> (case pr_not_before (pr_spec p) of None \<Rightarrow> False | Some t \<Rightarrow> pv_now_sched w < t)"
    using cw by (auto simp: clear_world_def split: option.splits)
  then have checks: "promo_checks w cp s = promo_start w (cp_label (cp_spec cp)) (es_built_version src) s"
    using cp sp by (auto simp: promo_checks_def Let_def)
  have req: "\<exists>q. stored (snd (snd (promo_request w label s'))) = Some q \<and> prs_phase (pr_status q) = ''Succeeded''"
    if "stored s' \<noteq> None" "pr_spec (mem s') = pr_spec p" for s' :: "('a promotion_scheme, promo_call) pass" and label
    using promo_request_clear [OF out _ that(1)] b that(2) by simp
  have "\<exists>q. stored (snd (snd (promo_start w label v' s))) = Some q \<and> prs_phase (pr_status q) = ''Succeeded''" for label v'
    using st sp by (cases "prs_started_at (pr_status (mem s))")
      (auto simp: promo_start_def split_beta out intro!: req)
  then show ?thesis
    using cw nt by (simp add: promo_Reconcile_def Let_def own r cp(1) checks clear_world_def)
qed

section \<open>A concrete promotion\<close>

definition demo_promotion :: promotion where
  "demo_promotion = k8s_object.extend (mk_object ''ns'' ''p1'')
     \<lparr>pr_spec = \<lparr>pr_project_ref = \<lparr>lor_name = ''proj''\<rparr>, pr_from = ''dev'', pr_to = ''qa'',
        pr_require_source_version = 0, pr_not_before = None, pr_ttl = 100,
        pr_organization_ref = None\<rparr>,
      pr_status = \<lparr>prs_phase = [], prs_promoted_version = 0, prs_started_at = None,
        prs_completed_at = None, prs_failure_reason = [], prs_promotion_requested = False,
        prs_observed_generation = 0, prs_conditions = []\<rparr>\<rparr>"

definition demo_env :: "string \<Rightarrow> string \<Rightarrow> project_environment" where
  "demo_env l p = \<lparr>pe_label = l, pe_name = l, pe_description = [], pe_predecessor = p\<rparr>"

definition demo_state :: "string \<Rightarrow> environment_state" where
  "demo_state l = \<lparr>es_label = l, es_name = l, es_built_version = 0, es_built_at = None,
     es_derived_channels = []\<rparr>"

definition demo_project :: "string \<Rightarrow> content_project" where
  "demo_project build = k8s_object.extend (mk_object ''ns'' ''proj'')
     \<lparr>cp_spec = \<lparr>cp_label = ''lbl'', cp_name = ''proj'', cp_description = [], cp_source_refs = [],
        cp_channels = None, cp_environments = [demo_env ''dev'' [], demo_env ''qa'' ''dev'', demo_env ''prod'' ''qa''],
        cp_filters = [], cp_build = \<lparr>bp_auto_build_sources = False, bp_schedule = [], bp_message = []\<rparr>,
        cp_organization_ref = None\<rparr>,
      cp_status = \<lparr>cps_uyuni_id = 1, cps_attached_sources = [], cps_filter_ids = [],
        cps_environment_states = [demo_state ''dev'', demo_state ''qa'', demo_state ''prod''],
        cps_last_build_action_id = 0, cps_last_build_started_at = None,
        cps_last_build_fingerprint = [], cps_build_status = build, cps_observed_generation = 1,
        cps_conditions = []\<rparr>\<rparr>"

definition demo_target :: "string \<Rightarrow> string \<Rightarrow> project_environment_info" where
  "demo_target l st = \<lparr>pei_id = 1, pei_label = l, pei_name = l, pei_description = [],
     pei_version = 1, pei_previous = [], pei_status = st\<rparr>"

definition demo_world ::
  "string \<Rightarrow> project_environment_info list \<Rightarrow> answers \<Rightarrow> (unit, unit) promo_world" where
  "demo_world build envs out = \<lparr>pv_ssc = replace_cond, pv_now_gc = 10, pv_now_sched = 10,
     pv_now_start = 11, pv_now_end = 12, pv_wall = 10, pv_show_time = itoa, pv_client = None,
     pv_get_org = \<lambda>ns n. Inl (GoErr K8sNotFound []),
     pv_get_project = \<lambda>ns n. Inr (demo_project build), pv_envs = Inr envs, pv_out = out\<rparr>"

definition quiet :: answers where
  "quiet n = None"

section \<open>Properties\<close>

text \<open>
  C1.  Whatever fails and whenever the operator restarts, and whatever users edit between passes,
  Uyuni accepts at most one \<^verbatim>\<open>PromoteProject\<close> call for a promotion object, plus one for every pass
  in which the status write right after an accepted call failed.
\<close>

theorem promote_at_most_once:
  "total promote_count (fst (promo_run steps p)) \<le>
   1 + total lost_records (fst (promo_run steps p))"
  using promo_run_accounted [of steps p] by simp

text \<open>
  A pass turns a promotion into \<open>Succeeded\<close> only when Uyuni reports the target environment of
  its spec as built in that pass, and only with the promote call on record and a completion time.
\<close>

theorem succeeded_means_built:
  fixes p :: "('a) promotion_scheme"
  assumes "live p" "\<not> isTerminal (prs_phase (pr_status p))"
    and "stored (snd (snd (promo_Reconcile w p))) = Some q" "prs_phase (pr_status q) = ''Succeeded''"
  shows "target_built w (pr_to (pr_spec p)) \<and> prs_promotion_requested (pr_status q) \<and>
    prs_completed_at (pr_status q) = Some (pv_now_end w)"
  using promo_Reconcile_justified [OF collected_live(1) [OF assms(1)] assms(2), of w] assms(3,4) by (simp add: justified_def)

definition demo_done :: promotion where
  "demo_done = the (stored (snd (snd (promo_Reconcile
     (demo_world [] [demo_target ''qa'' ''built''] quiet) demo_promotion))))"

theorem succeeded_means_built_witness:
  "target_built (demo_world [] [demo_target ''qa'' ''built''] quiet) ''qa''"
proof -
  let ?w = "demo_world [] [demo_target ''qa'' ''built''] quiet"
  have a: "live demo_promotion" by code_simp
  have b: "\<not> isTerminal (prs_phase (pr_status demo_promotion))" by code_simp
  have c: "\<not> Option.is_none (stored (snd (snd (promo_Reconcile ?w demo_promotion))))" by code_simp
  have d: "prs_phase (pr_status demo_done) = ''Succeeded''" by code_simp
  have e: "pr_to (pr_spec demo_promotion) = ''qa''" by (simp add: demo_promotion_def k8s_object.defs mk_object_def)
  from c have "stored (snd (snd (promo_Reconcile ?w demo_promotion))) = Some demo_done"
    by (auto simp: demo_done_def Option.is_none_def)
  from succeeded_means_built [OF a b this d] e show ?thesis by simp
qed

text \<open>
  C12.  A live promotion that has neither succeeded nor failed succeeds in the next pass if no call and
  no write of that pass fails, a client can be had, its notBefore time has come, its project can be
  read and is not building, the project's status has the source environment, with the built version the
  promotion requires if it requires one, its organization can be read or does not exist, and Uyuni
  reports the target environment as built.
\<close>

theorem promotion_progress:
  fixes p :: "('a) promotion_scheme"
  assumes "live p" "prs_phase (pr_status p) \<notin> {''Succeeded'', ''Failed''}"
    and "clear_world w p" "target_built w (pr_to (pr_spec p))"
  shows "\<exists>q. stored (snd (snd (promo_Reconcile w p))) = Some q \<and>
    prs_phase (pr_status q) = ''Succeeded''"
proof -
  have "\<not> isTerminal (prs_phase (pr_status p))" using assms(2) by (simp add: isTerminal_def)
  from promo_Reconcile_progress [OF collected_live(1) [OF assms(1)] this assms(3,4)] show ?thesis .
qed

lemma demo_clear: "clear_world (demo_world [] envs quiet) demo_promotion"
proof -
  have "\<forall>n. quiet n = None" by (simp add: quiet_def)
  moreover have "findEnvState (cps_environment_states (cp_status (demo_project []))) ''dev'' = Some (demo_state ''dev'')"
    by code_simp
  ultimately show ?thesis
    by (simp add: clear_world_def demo_world_def demo_promotion_def k8s_object.defs mk_object_def
        orgRef_def demo_state_def demo_project_def)
qed

theorem promotion_progress_witness:
  "\<exists>q. stored (snd (snd (promo_Reconcile (demo_world [] [demo_target ''qa'' ''built''] quiet)
     demo_promotion))) = Some q \<and> prs_phase (pr_status q) = ''Succeeded''"
proof (rule promotion_progress [OF _ _ demo_clear])
  show "live demo_promotion" by code_simp
  show "prs_phase (pr_status demo_promotion) \<notin> {''Succeeded'', ''Failed''}" by code_simp
  show "target_built (demo_world [] [demo_target ''qa'' ''built''] quiet) (pr_to (pr_spec demo_promotion))"
    by code_simp
qed

text \<open>
  C13.  A finished promotion, one whose phase is \<^verbatim>\<open>Succeeded\<close> or \<^verbatim>\<open>Failed\<close>, never reaches Uyuni again and its stored object does not change, until
  its retention time after completion is over and the operator deletes it.
\<close>

theorem finished_promotion_inert:
  assumes "prs_phase (pr_status p) \<in> {''Succeeded'', ''Failed''}"
  shows "promote_count (trace (snd (snd (promo_Reconcile w p)))) = 0 \<and>
    (stored (snd (snd (promo_Reconcile w p))) = Some p \<or>
     (\<exists>t. prs_completed_at (pr_status p) = Some t \<and> pr_ttl (pr_spec p) > 0 \<and>
        pv_now_gc w > t + pr_ttl (pr_spec p) \<and>
        stored (snd (snd (promo_Reconcile w p))) = collected (p\<lparr>obj_deleting := True\<rparr>)))"
proof -
  have "isTerminal (prs_phase (pr_status p))" using assms by (auto simp: isTerminal_def)
  then show ?thesis by (simp only: promo_terminal) (cases "prs_completed_at (pr_status p)"; auto)
qed

theorem finished_promotion_inert_witness:
  "promote_count (trace (snd (snd (promo_Reconcile (demo_world [] [] quiet) demo_done)))) = 0"
proof -
  have "prs_phase (pr_status demo_done) \<in> {''Succeeded'', ''Failed''}" by code_simp
  from finished_promotion_inert [OF this] show ?thesis by blast
qed

definition other_pair :: "promotion \<Rightarrow> promotion" where
  "other_pair p = p\<lparr>pr_spec := (pr_spec p)\<lparr>pr_from := ''qa'', pr_to := ''prod''\<rparr>\<rparr>"

definition unfrozen_run :: "(unit, unit) promo_step list" where
  "unfrozen_run =
     [PPass (demo_world [] [demo_target ''qa'' ''NEW''] quiet),
      PPass (demo_world ''Building'' [demo_target ''qa'' ''NEW''] quiet),
      PEdit other_pair,
      PPass (demo_world [] [demo_target ''prod'' ''BUILT''] quiet)]"

definition after_two_passes :: promotion where
  "after_two_passes = the (snd (promo_run (take 2 unfrozen_run) demo_promotion))"

text \<open>
  A promotion that is running in Uyuni returns to \<open>Pending\<close> when its project starts a build;
  the webhook then accepts another pair of environments, and the promotion ends as \<open>Succeeded\<close>
  for a pair Uyuni was never asked to promote.
\<close>
theorem running_promotion_unfreezes:
  "prs_promotion_requested (pr_status after_two_passes) \<and>
   accepted (promotion_ValidateUpdate (\<lambda>ns n. Inr (demo_project [])) (\<lambda>ns. Inr ([] :: clm_environment list))
     after_two_passes (other_pair after_two_passes)) \<and>
   map_option (\<lambda>q. (prs_phase (pr_status q), pr_from (pr_spec q), pr_to (pr_spec q)))
     (snd (promo_run unfrozen_run demo_promotion)) = Some (''Succeeded'', ''qa'', ''prod'') \<and>
   filter promoted (concat (fst (promo_run unfrozen_run demo_promotion))) =
     [(Call (PromoteProject ''lbl'' ''dev''), True)]"
  by (intro conjI; code_simp)

end
