(* ===== verification/Go_Time.thy ===== *)
theory Go_Time
  imports Go_Prelude "HOL-Library.Word"
begin

text \<open>
  Go durations: a \<^verbatim>\<open>time.Duration\<close> is a signed 64-bit number of nanoseconds whose sums and products wrap
  around, while \<^verbatim>\<open>Time.Sub\<close> saturates.
\<close>

definition go_duration :: "int \<Rightarrow> int" where
  "go_duration x = sint (word_of_int x :: 64 word)"

definition go_sub :: "int \<Rightarrow> int \<Rightarrow> int" where
  "go_sub t u = max (- (2 ^ 63)) (min (2 ^ 63 - 1) (t - u))"

abbreviation one_hour :: int where "one_hour \<equiv> 60 * minute"

lemma go_duration_exact: "- (2 ^ 63) \<le> x \<Longrightarrow> x < 2 ^ 63 \<Longrightarrow> go_duration x = x"
  unfolding go_duration_def sint_sbintrunc'
  by (rule signed_take_bit_int_eq_self) simp_all

lemma go_sub_bound: "m \<le> 2 ^ 63 - 1 \<Longrightarrow> - (2 ^ 63) < m \<Longrightarrow> m \<le> go_sub t u \<Longrightarrow> m \<le> t - u"
  by (auto simp: go_sub_def max_def min_def split: if_splits)

end
