(* ===== verification/Task_Controller.thy ===== *)
theory Task_Controller
  imports Reconcile Uyuni_Types Go_Time Webhooks_Projects
begin

text \<open>
  \<^verbatim>\<open>task_controller.go\<close>: one-shot and re-runnable actions on systems.  A task keeps a history of
  runs; a pass refreshes the runs that are active from Uyuni, starts a new one when a trigger asks
  for it and none is active, and writes the status.
\<close>

section \<open>One pass\<close>

definition task_kind :: "(('a) task_scheme, task_status) kind_ops" where
  "task_kind = \<lparr>status_of = tk_status, with_status = \<lambda>st t. t\<lparr>tk_status := st\<rparr>\<rparr>"

datatype task_call =
    ScheduleHighstate "int list" "int option" bool
  | ScheduleRemoteCommand "int list" "int option" string string string int
  | ScheduleReboot int "int option"
  | ScheduleApplyPatches "int list" "int option" "string list"
  | ScheduleApplyConfigChannels "int list" "int option"
  | CancelAction int

text \<open>
  The zero \<^verbatim>\<open>time.Time\<close> is \<open>None\<close>.  \<open>tw_action_id\<close> and \<open>tw_action_ids\<close> give the result of the
  \<open>n\<close>-th event of the pass when it is a scheduling call that succeeds; \<open>tw_results\<close> is
  \<^verbatim>\<open>GetActionResults\<close> by action id.
\<close>

record ('g, 's, 'q) task_world =
  tw_ssc :: set_cond
  tw_now_results :: int
  tw_now_reboot :: int
  tw_now_start :: int
  tw_now_gc :: int
  tw_wall :: int
  tw_client :: "go_error option"
  tw_get_org :: "('g) organization_scheme k8s_get"
  tw_get_system :: "('s) uyuni_system_scheme k8s_get"
  tw_get_group :: "('q) system_group_scheme k8s_get"
  tw_results :: "int \<Rightarrow> go_error + system_action_result list"
  tw_action_id :: "nat \<Rightarrow> int"
  tw_action_ids :: "nat \<Rightarrow> int list"
  tw_out :: answers

definition maxRunHistory :: nat where
  "maxRunHistory = 10"

definition run_active :: "task_run \<Rightarrow> bool" where
  "run_active r = (tr_phase r = ''Pending'' \<or> tr_phase r = ''Running'')"

definition hasActiveRun :: "('a) task_scheme \<Rightarrow> bool" where
  "hasActiveRun t = list_ex run_active (ts_runs (tk_status t))"

definition latestRun :: "('a) task_scheme \<Rightarrow> task_run option" where
  "latestRun t = (if ts_runs (tk_status t) = [] then None else Some (last (ts_runs (tk_status t))))"

definition isTerminalPhase :: "string \<Rightarrow> bool" where
  "isTerminalPhase phase = (phase = ''Succeeded'' \<or> phase = ''Failed'' \<or> phase = ''Mixed'')"

definition decideTrigger :: "('a) task_scheme \<Rightarrow> string" where
  "decideTrigger t =
     (if has_annotation t AnnRerun then ''annotation''
      else if ts_runs (tk_status t) = [] then ''initial''
      else if ts_observed_generation (tk_status t) \<noteq> obj_generation t then ''spec-change''
      else [])"

definition task_set_status ::
  "(task_status \<Rightarrow> task_status) \<Rightarrow> (('a) task_scheme, 'u) pass \<Rightarrow> (('a) task_scheme, 'u) pass" where
  "task_set_status f s = s\<lparr>mem := (mem s)\<lparr>tk_status := f (tk_status (mem s))\<rparr>\<rparr>"

definition task_ready ::
  "('g, 's, 'q) task_world \<Rightarrow> int \<Rightarrow> bool \<Rightarrow> string \<Rightarrow> string \<Rightarrow> task_status \<Rightarrow> task_status" where
  "task_ready w gen ok reason msg st =
     st\<lparr>ts_conditions := setReady (tw_ssc w) (ts_conditions st) gen ok reason msg\<rparr>"

definition failTask ::
  "('g, 's, 'q) task_world \<Rightarrow> string \<Rightarrow> go_error \<Rightarrow> (('a) task_scheme, task_call) pass \<Rightarrow>
   (('a) task_scheme, task_call) outcome" where
  "failTask w reason err s =
     (let s1 = task_set_status (task_ready w (obj_generation (mem s)) False reason (err_text err)) s;
          (_, s2) = write_status (tw_out w) task_kind s1
      in (result_done, Some err, s2))"

subsection \<open>Results of the active runs\<close>

fun collect_results ::
  "('g, 's, 'q) task_world \<Rightarrow> int list \<Rightarrow> go_error + system_action_result list" where
  "collect_results w [] = Inr []"
| "collect_results w (aid # aids) =
     (case tw_results w aid of
        Inl e \<Rightarrow> Inl e
      | Inr rs \<Rightarrow> (case collect_results w aids of Inl e \<Rightarrow> Inl e | Inr rs' \<Rightarrow> Inr (rs @ rs')))"

definition to_run_result :: "system_action_result \<Rightarrow> task_run_result" where
  "to_run_result r = \<lparr>trr_system_id = sar_server_id r, trr_action_id = sar_action_id r,
     trr_status = sar_status r, trr_output = sar_result r, trr_exit_code = sar_exit_code r\<rparr>"

definition run_phase_of :: "system_action_result list \<Rightarrow> string" where
  "run_phase_of rs =
     (let anyRunning = list_ex (\<lambda>r. sar_status r = ''Running'' \<or> sar_status r = ''Pending'') rs;
          anyFailed = list_ex (\<lambda>r. sar_status r = ''Failed'') rs;
          anySucceeded = list_ex (\<lambda>r. sar_status r = ''Succeeded'') rs
      in if anyRunning then ''Running''
         else if anyFailed \<and> anySucceeded then ''Mixed''
         else if anyFailed then ''Failed''
         else if anySucceeded then ''Succeeded''
         else ''Running'')"

fun refreshActiveRuns ::
  "('g, 's, 'q) task_world \<Rightarrow> task_run list \<Rightarrow> go_error + task_run list" where
  "refreshActiveRuns w [] = Inr []"
| "refreshActiveRuns w (run # runs) =
     (if \<not> run_active run
      then (case refreshActiveRuns w runs of Inl e \<Rightarrow> Inl e | Inr rs \<Rightarrow> Inr (run # rs))
      else case collect_results w (tr_action_ids run) of
        Inl e \<Rightarrow> Inl e
      | Inr results \<Rightarrow>
          let run' = run\<lparr>tr_results := map to_run_result results, tr_phase := run_phase_of results\<rparr>;
              run'' = (if isTerminalPhase (tr_phase run')
                       then run'\<lparr>tr_completed_at := Some (tw_now_results w)\<rparr> else run')
          in case refreshActiveRuns w runs of Inl e \<Rightarrow> Inl e | Inr rs \<Rightarrow> Inr (run'' # rs))"

subsection \<open>Starting a run\<close>

fun parse_members :: "string list \<Rightarrow> int list" where
  "parse_members [] = []"
| "parse_members (s # ss) =
     (case parseInt s of None \<Rightarrow> parse_members ss | Some i \<Rightarrow> i # parse_members ss)"

definition resolveTarget ::
  "('g, 's, 'q) task_world \<Rightarrow> ('a) task_scheme \<Rightarrow> go_error + int list" where
  "resolveTarget w t =
     (let tgt = tk_target (tk_spec t) in
      case st_system_ref tgt of
        Some r \<Rightarrow> (case tw_get_system w (obj_namespace t) (lor_name r) of
            Inl e \<Rightarrow> Inl (wrap_err ''system ref: '' e)
          | Inr sys \<Rightarrow>
              if syss_uyuni_server_id (sys_status sys) = 0
              then Inl (errorf (''system '' @ go_quote (obj_name sys) @ '' not yet registered''))
              else Inr [syss_uyuni_server_id (sys_status sys)])
      | None \<Rightarrow> (case st_system_group_ref tgt of
            Some r \<Rightarrow> (case tw_get_group w (obj_namespace t) (lor_name r) of
                Inl e \<Rightarrow> Inl (wrap_err ''system group ref: '' e)
              | Inr sg \<Rightarrow> Inr (parse_members (sgs_resolved_members (sg_status sg))))
          | None \<Rightarrow>
              if st_server_ids tgt \<noteq> [] then Inr (st_server_ids tgt)
              else Inl (errorf ''target requires exactly one of systemRef, systemGroupRef, or serverIds (admission should have rejected)'')))"

fun reboot_loop ::
  "('g, 's, 'q) task_world \<Rightarrow> int option \<Rightarrow> int list \<Rightarrow> int list \<Rightarrow>
   (('a) task_scheme, task_call) pass \<Rightarrow> (go_error + int list) \<times> (('a) task_scheme, task_call) pass" where
  "reboot_loop w earliest [] ids s = (Inr ids, s)"
| "reboot_loop w earliest (sid # sids) ids s =
     (case attempt (tw_out w) (Call (ScheduleReboot sid earliest)) s of
        (Some e, s1) \<Rightarrow> (Inl e, s1)
      | (None, s1) \<Rightarrow>
          reboot_loop w earliest sids (ids @ [tw_action_id w (length (trace s))]) s1)"

definition single_call ::
  "('g, 's, 'q) task_world \<Rightarrow> task_call \<Rightarrow> (('a) task_scheme, task_call) pass \<Rightarrow>
   (go_error + int list) \<times> (('a) task_scheme, task_call) pass" where
  "single_call w c s =
     (case attempt (tw_out w) (Call c) s of
        (Some e, s1) \<Rightarrow> (Inl e, s1)
      | (None, s1) \<Rightarrow> (Inr [tw_action_id w (length (trace s))], s1))"

definition apply_patches_call ::
  "('g, 's, 'q) task_world \<Rightarrow> int list \<Rightarrow> int option \<Rightarrow> string list \<Rightarrow>
   (('a) task_scheme, task_call) pass \<Rightarrow> (go_error + int list) \<times> (('a) task_scheme, task_call) pass" where
  "apply_patches_call w serverIDs earliest advisories s =
     (case attempt (tw_out w) (Call (ScheduleApplyPatches serverIDs earliest advisories)) s of
        (Some e, s1) \<Rightarrow> (Inl e, s1)
      | (None, s1) \<Rightarrow> (Inr (tw_action_ids w (length (trace s))), s1))"

definition scheduleByKind ::
  "('g, 's, 'q) task_world \<Rightarrow> int list \<Rightarrow> int option \<Rightarrow> (('a) task_scheme, task_call) pass \<Rightarrow>
   (go_error + int list) \<times> (('a) task_scheme, task_call) pass" where
  "scheduleByKind w serverIDs earliest s =
     (let sp = tk_spec (mem s) in
      case tk_highstate sp of
        Some h \<Rightarrow> single_call w (ScheduleHighstate serverIDs earliest (hs_test h)) s
      | None \<Rightarrow> (case tk_remote_command sp of
          Some rc \<Rightarrow>
            let user = (if rc_user rc = [] then ''root'' else rc_user rc);
                grp = (if rc_group rc = [] then ''root'' else rc_group rc);
                timeout = (if rc_timeout_seconds rc = 0 then 300 else rc_timeout_seconds rc)
            in single_call w (ScheduleRemoteCommand serverIDs earliest (rc_command rc) user grp timeout) s
        | None \<Rightarrow> (case tk_reboot sp of
            Some rb \<Rightarrow>
              let earliestReboot = (if rb_delay_seconds rb > 0
                    then Some (tw_now_reboot w + go_duration (rb_delay_seconds rb * second)) else earliest)
              in reboot_loop w earliestReboot serverIDs [] s
          | None \<Rightarrow> (case tk_apply_patches sp of
              Some ap \<Rightarrow>
                apply_patches_call w serverIDs earliest (ap_include_advisories ap) s
            | None \<Rightarrow> (case tk_apply_config_channels sp of
                Some _ \<Rightarrow> single_call w (ScheduleApplyConfigChannels serverIDs earliest) s
              | None \<Rightarrow> (Inl (errorf ''no task kind specified (admission should have rejected; check webhook configuration)''), s))))))"

definition append_run :: "task_run \<Rightarrow> task_run list \<Rightarrow> task_run list" where
  "append_run run runs =
     (let rs = runs @ [run] in
      if length rs > maxRunHistory then drop (length rs - maxRunHistory) rs else rs)"

definition new_run ::
  "('g, 's, 'q) task_world \<Rightarrow> string \<Rightarrow> int list \<Rightarrow> task_run list \<Rightarrow> task_run" where
  "new_run w trigger actionIDs runs =
     \<lparr>tr_sequence = int (length runs) + 1, tr_action_ids = actionIDs, tr_phase = ''Pending'',
      tr_started_at = Some (tw_now_start w), tr_completed_at = None, tr_results = [],
      tr_failure_reason = [], tr_trigger = trigger\<rparr>"

definition startRun ::
  "('g, 's, 'q) task_world \<Rightarrow> string \<Rightarrow> (('a) task_scheme, task_call) pass \<Rightarrow>
   go_error option \<times> (('a) task_scheme, task_call) pass" where
  "startRun w trigger s =
     (case resolveTarget w (mem s) of
        Inl e \<Rightarrow> (Some e, s)
      | Inr serverIDs \<Rightarrow>
          if serverIDs = [] then (Some (errorf ''target resolved to zero systems''), s)
          else case scheduleByKind w serverIDs (tk_not_before (tk_spec (mem s))) s of
            (Inl e, s1) \<Rightarrow> (Some e, s1)
          | (Inr actionIDs, s1) \<Rightarrow>
              (None, task_set_status (\<lambda>st. st\<lparr>
                 ts_runs := append_run (new_run w trigger actionIDs (ts_runs st)) (ts_runs st),
                 ts_resolved_system_ids := serverIDs\<rparr>) s1))"

subsection \<open>The pass\<close>

definition updatePhase :: "('a) task_scheme \<Rightarrow> string" where
  "updatePhase t = (case latestRun t of None \<Rightarrow> [] | Some r \<Rightarrow> tr_phase r)"

definition task_requeue ::
  "('g, 's, 'q) task_world \<Rightarrow> (('a) task_scheme, task_call) pass \<Rightarrow> (('a) task_scheme, task_call) outcome" where
  "task_requeue w s =
     (let t = mem s; ttl = tk_ttl (tk_spec t) in
      if hasActiveRun t then (result_after (15 * second), None, s)
      else case (if isTerminalPhase (ts_phase (tk_status t)) \<and> ttl > 0
                 then Option.bind (latestRun t) tr_completed_at else None) of
             Some done \<Rightarrow>
               if tw_now_gc w > done + ttl
               then (case delete_object (tw_out w) s of (e, s1) \<Rightarrow> (result_done, e, s1))
               else (result_after (done + ttl - tw_wall w), None, s)
           | None \<Rightarrow> (result_after (5 * minute), None, s))"

definition task_finish ::
  "('g, 's, 'q) task_world \<Rightarrow> (('a) task_scheme, task_call) pass \<Rightarrow> (('a) task_scheme, task_call) outcome" where
  "task_finish w s =
     (let gen = obj_generation (mem s); phase = updatePhase (mem s);
          s1 = task_set_status (\<lambda>st.
            (if isTerminalPhase phase then task_ready w gen True ''Reconciled'' phase
             else task_ready w gen False ''InProgress'' phase)
            (st\<lparr>ts_phase := phase, ts_observed_generation := gen\<rparr>)) s
      in case write_status (tw_out w) task_kind s1 of
           (Some e, s2) \<Rightarrow> (result_done, Some e, s2)
         | (None, s2) \<Rightarrow> task_requeue w s2)"

text \<open>The run that a trigger starts, made durable before its annotation is stripped.\<close>

definition task_trigger ::
  "('g, 's, 'q) task_world \<Rightarrow> (('a) task_scheme, task_call) pass \<Rightarrow> (('a) task_scheme, task_call) outcome" where
  "task_trigger w s =
     (let trigger = decideTrigger (mem s) in
      if trigger \<noteq> [] \<and> \<not> hasActiveRun (mem s) then
        (case startRun w trigger s of
           (Some err, s1) \<Rightarrow> failTask w ''ScheduleFailed'' err s1
         | (None, s1) \<Rightarrow>
             (case write_status (tw_out w) task_kind s1 of
                (Some e, s2) \<Rightarrow> (result_done, Some e, s2)
              | (None, s2) \<Rightarrow>
                  if trigger = ''annotation'' \<and> has_annotation (mem s2) AnnRerun
                  then (case write_object (tw_out w) task_kind
                          (s2\<lparr>mem := (mem s2)\<lparr>obj_annotations := (obj_annotations (mem s2))(AnnRerun := None)\<rparr>\<rparr>) of
                          (Some e, s3) \<Rightarrow> (result_done, Some e, s3)
                        | (None, s3) \<Rightarrow> task_finish w s3)
                  else task_finish w s2))
      else task_finish w s)"

fun cancel_loop ::
  "('g, 's, 'q) task_world \<Rightarrow> int list \<Rightarrow> (('a) task_scheme, task_call) pass \<Rightarrow>
   (('a) task_scheme, task_call) pass" where
  "cancel_loop w [] s = s"
| "cancel_loop w (aid # aids) s =
     cancel_loop w aids (snd (attempt (tw_out w) (Call (CancelAction aid)) s))"

definition drop_finalizer ::
  "('g, 's, 'q) task_world \<Rightarrow> (('a) task_scheme, task_call) pass \<Rightarrow> (('a) task_scheme, task_call) outcome" where
  "drop_finalizer w s =
     (case write_object (tw_out w) task_kind (s\<lparr>mem := removeFinalizer (mem s) taskFinalizer\<rparr>) of
        (e, s1) \<Rightarrow> (result_done, e, s1))"

definition task_handleDeletion ::
  "('g, 's, 'q) task_world \<Rightarrow> (('a) task_scheme, task_call) pass \<Rightarrow> (('a) task_scheme, task_call) outcome" where
  "task_handleDeletion w s =
     (if \<not> containsFinalizer (mem s) taskFinalizer then (result_done, None, s)
      else if has_annotation (mem s) AnnForceDelete then drop_finalizer w s
      else drop_finalizer w
        (if tw_client w = None
         then cancel_loop w (concat (map tr_action_ids (filter run_active (ts_runs (tk_status (mem s)))))) s
         else s))"

definition task_Reconcile ::
  "('g, 's, 'q) task_world \<Rightarrow> ('a) task_scheme \<Rightarrow> (('a) task_scheme, task_call) outcome" where
  "task_Reconcile w t =
     (let s = start_pass t in
      if obj_deleting t then task_handleDeletion w s
      else case ensureFinalizer t taskFinalizer of
        (True, t') \<Rightarrow> (case write_object (tw_out w) task_kind (s\<lparr>mem := t'\<rparr>) of
            (e, s1) \<Rightarrow> (result_requeue, e, s1))
      | (False, _) \<Rightarrow>
          (case tw_client w of
             Some err \<Rightarrow> failTask w ''OrganizationError'' err s
           | None \<Rightarrow>
               (case own_organization (tw_out w) task_kind (tw_get_org w)
                       (orgRef (tk_organization_ref (tk_spec t))) s of
                  (Some e, s1) \<Rightarrow> (result_done, Some e, s1)
                | (None, s1) \<Rightarrow>
                    (case refreshActiveRuns w (ts_runs (tk_status (mem s1))) of
                       Inl e \<Rightarrow> (result_done, Some e, s1)
                     | Inr runs \<Rightarrow> task_trigger w (task_set_status (\<lambda>st. st\<lparr>ts_runs := runs\<rparr>) s1)))))"

interpretation task_status_field: status_field task_kind
  by unfold_locales (simp_all add: task_kind_def k8s_object.defs)

lemma task_kind_simps [simp]:
  "status_of task_kind t = tk_status t"
  "with_status task_kind st = (\<lambda>t. t\<lparr>tk_status := st\<rparr>)"
  by (simp_all add: task_kind_def)

lemma task_set_status_simps [simp]:
  "mem (task_set_status f s) = (mem s)\<lparr>tk_status := f (tk_status (mem s))\<rparr>"
  "stored (task_set_status f s) = stored s" "trace (task_set_status f s) = trace s"
  by (simp_all add: task_set_status_def)

lemma task_ready_simps [simp]:
  "ts_runs (task_ready w g ok r m st) = ts_runs st"
  "ts_phase (task_ready w g ok r m st) = ts_phase st"
  "ts_observed_generation (task_ready w g ok r m st) = ts_observed_generation st"
  by (simp_all add: task_ready_def)

section \<open>The run history\<close>

text \<open>
  What the history of a task says of each run, in terms of the results stored with it.  A run is
  complete exactly when its phase is \<^verbatim>\<open>Succeeded\<close>, \<^verbatim>\<open>Failed\<close> or \<^verbatim>\<open>Mixed\<close>, and the phase is the one that
  its results call for: with no result outstanding, \<^verbatim>\<open>Succeeded\<close> when some succeeded and none failed,
  \<^verbatim>\<open>Failed\<close> when some failed and none succeeded, \<^verbatim>\<open>Mixed\<close> when there are both.  At most ten runs are
  kept and only the newest can be active.
\<close>

definition has_result :: "task_run \<Rightarrow> string \<Rightarrow> bool" where
  "has_result r st = (\<exists>x\<in>set (tr_results r). trr_status x = st)"

definition outstanding :: "task_run \<Rightarrow> bool" where
  "outstanding r = (has_result r ''Running'' \<or> has_result r ''Pending'')"

definition run_ok :: "task_run \<Rightarrow> bool" where
  "run_ok r = (tr_phase r \<in> {''Pending'', ''Running'', ''Succeeded'', ''Failed'', ''Mixed''} \<and>
     (tr_phase r = ''Succeeded'') = (\<not> outstanding r \<and> has_result r ''Succeeded'' \<and> \<not> has_result r ''Failed'') \<and>
     (tr_phase r = ''Failed'') = (\<not> outstanding r \<and> has_result r ''Failed'' \<and> \<not> has_result r ''Succeeded'') \<and>
     (tr_phase r = ''Mixed'') = (\<not> outstanding r \<and> has_result r ''Failed'' \<and> has_result r ''Succeeded'') \<and>
     (tr_completed_at r = None) = (tr_phase r \<in> {''Pending'', ''Running''}))"

definition wf_runs :: "task_run list \<Rightarrow> bool" where
  "wf_runs rs = (length rs \<le> 10 \<and> list_all run_ok rs \<and>
     list_all (\<lambda>r. tr_phase r \<in> {''Succeeded'', ''Failed'', ''Mixed''}) (butlast rs))"

lemma run_phase_of_known:
  "run_phase_of rs = ''Running'' \<or> isTerminalPhase (run_phase_of rs)"
  by (simp add: run_phase_of_def isTerminalPhase_def Let_def)

lemma has_result_map [simp]:
  "tr_results r = map to_run_result rs \<Longrightarrow> has_result r st = (\<exists>x\<in>set rs. sar_status x = st)"
  by (simp add: has_result_def to_run_result_def)

lemma run_ok_active: "run_ok r \<Longrightarrow> run_active r = (tr_completed_at r = None)"
  by (simp add: run_ok_def run_active_def)

lemma run_ok_idle:
  "run_ok r \<Longrightarrow> (\<not> run_active r) = (tr_phase r \<in> {''Succeeded'', ''Failed'', ''Mixed''})"
  by (auto simp: run_ok_def run_active_def)

text \<open>What a refresh does to one run.\<close>

definition refreshed :: "('g, 's, 'q) task_world \<Rightarrow> task_run \<Rightarrow> task_run \<Rightarrow> bool" where
  "refreshed w r r' =
     (if \<not> run_active r then r' = r
      else \<exists>results. collect_results w (tr_action_ids r) = Inr results \<and>
        tr_phase r' = run_phase_of results \<and> tr_results r' = map to_run_result results \<and>
        tr_action_ids r' = tr_action_ids r \<and> tr_sequence r' = tr_sequence r \<and>
        tr_completed_at r' = (if isTerminalPhase (tr_phase r') then Some (tw_now_results w)
          else tr_completed_at r))"

lemma refreshActiveRuns_each:
  "refreshActiveRuns w rs = Inr rs' \<Longrightarrow> list_all2 (refreshed w) rs rs'"
proof (induction rs arbitrary: rs')
  case Nil
  then show ?case by simp
next
  case (Cons r rs)
  from Cons.prems obtain r' rs1 where "rs' = r' # rs1" "refreshActiveRuns w rs = Inr rs1" "refreshed w r r'"
    by (auto simp: refreshed_def Let_def split: if_splits sum.splits)
  with Cons.IH show ?case by simp
qed

lemma refreshed_ok:
  assumes "refreshed w r r'" "run_ok r"
  shows "run_ok r'"
proof (cases "run_active r")
  case True
  with assms(1) obtain rs where r: "tr_phase r' = run_phase_of rs" "tr_results r' = map to_run_result rs"
      "tr_completed_at r' = (if isTerminalPhase (tr_phase r') then Some (tw_now_results w) else tr_completed_at r)"
    by (auto simp: refreshed_def)
  have "tr_completed_at r = None" using assms(2) True by (simp add: run_ok_active)
  then show ?thesis using r(3)
    by (simp add: run_ok_def outstanding_def r(1) has_result_map [OF r(2)] run_phase_of_def
        list_ex_iff Let_def isTerminalPhase_def) blast
next
  case False
  with assms show ?thesis by (simp add: refreshed_def)
qed

lemma refreshed_active: "refreshed w r r' \<Longrightarrow> run_active r' \<Longrightarrow> run_active r"
  by (auto simp: refreshed_def split: if_splits)

lemma wf_runs_refresh:
  assumes "refreshActiveRuns w rs = Inr rs'" "wf_runs rs"
  shows "wf_runs rs'"
proof -
  have l: "list_all2 (refreshed w) rs rs'" by (rule refreshActiveRuns_each [OF assms(1)])
  have b: "list_all2 (refreshed w) (butlast rs) (butlast rs')"
    using list_all2_takeI [OF l, of "length rs - 1"] list_all2_lengthD [OF l] by (simp add: butlast_conv_take)
  have "run_ok (rs' ! n)" if "n < length rs'" for n
    using refreshed_ok [of w "rs ! n" "rs' ! n"] assms(2) l that
    by (simp add: wf_runs_def list_all_length list_all2_conv_all_nth)
  then have "list_all run_ok rs'" by (simp add: list_all_length)
  moreover have "list_all (\<lambda>r. tr_phase r \<in> {''Succeeded'', ''Failed'', ''Mixed''}) (butlast rs')"
  proof -
    have "tr_phase (butlast rs' ! n) \<in> {''Succeeded'', ''Failed'', ''Mixed''}" if "n < length (butlast rs')" for n
    proof -
      have n: "refreshed w (butlast rs ! n) (butlast rs' ! n)" "n < length (butlast rs)"
        using b that by (auto simp: list_all2_conv_all_nth)
      then have t: "tr_phase (butlast rs ! n) \<in> {''Succeeded'', ''Failed'', ''Mixed''}"
        using assms(2) by (simp add: wf_runs_def list_all_length)
      then have "\<not> run_active (butlast rs ! n)" by (auto simp: run_active_def)
      then show ?thesis using n(1) t by (simp add: refreshed_def)
    qed
    then show ?thesis by (simp add: list_all_length)
  qed
  ultimately show ?thesis using assms(2) list_all2_lengthD [OF l] by (simp add: wf_runs_def)
qed

lemma set_drop_butlast: "set (butlast (drop n xs)) \<subseteq> set (butlast xs)"
  by (simp add: butlast_drop set_drop_subset)

lemma wf_runs_append:
  assumes "wf_runs rs" "\<not> list_ex run_active rs"
    and r: "tr_phase r = ''Pending''" "tr_results r = []" "tr_completed_at r = None"
  shows "wf_runs (append_run r rs)"
proof -
  have "run_ok r" using r by (simp add: run_ok_def outstanding_def has_result_def)
  then have ok: "list_all run_ok (rs @ [r])" using assms(1) by (simp add: wf_runs_def)
  let ?new = "append_run r rs"
  have new: "?new = drop (length rs + 1 - maxRunHistory) (rs @ [r])"
    by (simp add: append_run_def Let_def)
  have "set ?new \<subseteq> set (rs @ [r])" unfolding new by (rule set_drop_subset)
  moreover have "set (butlast ?new) \<subseteq> set rs"
    using set_drop_butlast [of "length rs + 1 - maxRunHistory" "rs @ [r]"] unfolding new butlast_snoc .
  moreover have "length ?new \<le> 10" unfolding new by (simp add: maxRunHistory_def)
  moreover have "tr_phase x \<in> {''Succeeded'', ''Failed'', ''Mixed''}" if "x \<in> set rs" for x
  proof -
    have "run_ok x" "\<not> run_active x"
      using that ok assms(2) by (auto simp: list_all_iff list_ex_iff)
    then show ?thesis by (simp only: run_ok_idle)
  qed
  ultimately show ?thesis using ok unfolding wf_runs_def list_all_iff by blast
qed

section \<open>Every pass keeps the history well formed\<close>

abbreviation runs_of :: "('a) task_scheme \<Rightarrow> task_run list" where
  "runs_of t \<equiv> ts_runs (tk_status t)"

definition wf_pass :: "(('a) task_scheme, task_call) pass \<Rightarrow> bool" where
  "wf_pass s = (wf_runs (runs_of (mem s)) \<and>
     (case stored s of None \<Rightarrow> True | Some q \<Rightarrow> wf_runs (runs_of q)))"

lemma reboot_loop_keeps [simp]:
  "mem (snd (reboot_loop w e sids ids s)) = mem s"
  "stored (snd (reboot_loop w e sids ids s)) = stored s"
proof -
  have "mem (snd (reboot_loop w e sids ids s)) = mem s \<and> stored (snd (reboot_loop w e sids ids s)) = stored s"
  proof (induction sids arbitrary: ids s)
    case Nil
    show ?case by simp
  next
    case (Cons sid sids)
    show ?case
      by (cases "tw_out w (length (trace s))") (simp_all add: attempt_def Let_def Cons.IH)
  qed
  then show "mem (snd (reboot_loop w e sids ids s)) = mem s"
    "stored (snd (reboot_loop w e sids ids s)) = stored s" by simp_all
qed

lemma single_call_keeps [simp]:
  "mem (snd (single_call w c s)) = mem s" "stored (snd (single_call w c s)) = stored s"
  by (cases "tw_out w (length (trace s))"; simp add: single_call_def attempt_def Let_def)+

lemma apply_patches_keeps [simp]:
  "mem (snd (apply_patches_call w ids e adv s)) = mem s"
  "stored (snd (apply_patches_call w ids e adv s)) = stored s"
  by (cases "tw_out w (length (trace s))"; simp add: apply_patches_call_def attempt_def Let_def)+

lemma scheduleByKind_keeps [simp]:
  "mem (snd (scheduleByKind w ids e s)) = mem s"
  "stored (snd (scheduleByKind w ids e s)) = stored s"
  by (simp_all add: scheduleByKind_def Let_def split: option.split)

lemma startRun_keeps:
  "stored (snd (startRun w tr s)) = stored s"
  "fst (startRun w tr s) \<noteq> None \<Longrightarrow> mem (snd (startRun w tr s)) = mem s"
  "fst (startRun w tr s) = None \<Longrightarrow> \<exists>ids aids.
     mem (snd (startRun w tr s)) = (mem s)\<lparr>tk_status := (tk_status (mem s))
       \<lparr>ts_runs := append_run (new_run w tr aids (runs_of (mem s))) (runs_of (mem s)),
        ts_resolved_system_ids := ids\<rparr>\<rparr>"
  by (auto simp: startRun_def split_beta split: sum.splits if_splits)

lemma collected_Some: "collected x = Some y \<Longrightarrow> y = x"
  by (simp add: collected_def split: if_splits)

lemma wf_pass_write_status [simp]:
  "wf_pass s \<Longrightarrow> wf_pass (snd (write_status out task_kind s))"
  by (auto simp: wf_pass_def split: option.splits)

lemma wf_pass_write_object [simp]:
  "wf_pass s \<Longrightarrow> wf_pass (snd (write_object out task_kind s))"
  by (auto simp: wf_pass_def collected_def split: option.splits bind_splits)

lemma wf_pass_delete [simp]: "wf_pass s \<Longrightarrow> wf_pass (snd (delete_object out s))"
  by (auto simp: wf_pass_def collected_def split: option.splits bind_splits)

lemma wf_pass_set_status [simp]:
  "wf_pass s \<Longrightarrow> ts_runs (f (tk_status (mem s))) = runs_of (mem s) \<Longrightarrow> wf_pass (task_set_status f s)"
  by (simp add: wf_pass_def)

lemma failTask_wf: "wf_pass s \<Longrightarrow> wf_pass (snd (snd (failTask w rs e s)))"
  by (simp add: failTask_def Let_def split_beta)

lemma task_requeue_wf: "wf_pass s \<Longrightarrow> wf_pass (snd (snd (task_requeue w s)))"
  by (simp add: task_requeue_def Let_def split_beta split: option.split)

lemma task_finish_wf: "wf_pass s \<Longrightarrow> wf_pass (snd (snd (task_finish w s)))"
  by (simp add: task_finish_def Let_def split_beta task_requeue_wf split: option.split)

lemma startRun_wf:
  assumes "wf_pass s" "\<not> hasActiveRun (mem s)"
  shows "wf_pass (snd (startRun w tr s))"
proof (cases "fst (startRun w tr s)")
  case (Some e)
  then show ?thesis using assms(1) startRun_keeps(1,2) [of w tr s] by (simp add: wf_pass_def)
next
  case None
  from startRun_keeps(3) [OF None] obtain ids aids where
    r: "mem (snd (startRun w tr s)) = (mem s)\<lparr>tk_status := (tk_status (mem s))
       \<lparr>ts_runs := append_run (new_run w tr aids (runs_of (mem s))) (runs_of (mem s)),
        ts_resolved_system_ids := ids\<rparr>\<rparr>" by blast
  have "wf_runs (append_run (new_run w tr aids (runs_of (mem s))) (runs_of (mem s)))"
    using assms by (intro wf_runs_append)
      (simp_all add: wf_pass_def hasActiveRun_def new_run_def)
  then show ?thesis using assms(1) r startRun_keeps(1) [of w tr s] by (simp add: wf_pass_def)
qed

lemma task_trigger_wf:
  assumes "wf_pass s"
  shows "wf_pass (snd (snd (task_trigger w s)))"
proof (cases "decideTrigger (mem s) \<noteq> [] \<and> \<not> hasActiveRun (mem s)")
  case True
  obtain r s1 where st: "startRun w (decideTrigger (mem s)) s = (r, s1)" by fastforce
  have wf1: "wf_pass s1" using startRun_wf [OF assms, of w "decideTrigger (mem s)"] True st by simp
  let ?s2 = "snd (write_status (tw_out w) task_kind s1)"
  let ?s3 = "?s2\<lparr>mem := (mem ?s2)\<lparr>obj_annotations := (obj_annotations (mem ?s2))(AnnRerun := None)\<rparr>\<rparr>"
  have wf2: "wf_pass ?s2" using wf1 by simp
  then have wf3: "wf_pass ?s3" by (simp add: wf_pass_def)
  show ?thesis
    using True wf2 wf3 failTask_wf [OF wf1, of w] task_finish_wf [OF wf2, of w]
      task_finish_wf [OF wf_pass_write_object [OF wf3], of w "tw_out w"]
    by (simp add: task_trigger_def st split_beta Let_def del: write_status_simps write_object_simps
        split: option.split)
next
  case False
  then show ?thesis using task_finish_wf [OF assms, of w] by (auto simp: task_trigger_def Let_def)
qed

lemma own_organization_task:
  assumes "own_organization out task_kind getOrg n (start_pass t) = (r, s)"
  shows "tk_status (mem s) = tk_status t" "tk_spec (mem s) = tk_spec t"
    "obj_annotations (mem s) = obj_annotations t" "obj_generation (mem s) = obj_generation t"
    "obj_namespace (mem s) = obj_namespace t"
    "\<And>q. stored s = Some q \<Longrightarrow> tk_status q = tk_status t \<and> tk_spec q = tk_spec t \<and>
       obj_annotations q = obj_annotations t \<and> obj_generation q = obj_generation t"
    "trace s = [] \<or> (\<exists>b. trace s = [(WriteObject, b)])"
  using assms
  by (auto simp: own_organization_def write_object_def attempt_def collected_def Let_def
      split: option.splits prod.splits if_splits)

lemma cancel_loop_simps [simp]:
  "mem (cancel_loop w aids s) = mem s" "stored (cancel_loop w aids s) = stored s"
  "map fst (trace (cancel_loop w aids s)) = map fst (trace s) @ map (\<lambda>a. Call (CancelAction a)) aids"
  by (induction aids arbitrary: s) (simp_all)

lemma drop_finalizer_wf: "wf_pass s \<Longrightarrow> wf_pass (snd (snd (drop_finalizer w s)))"
proof -
  assume "wf_pass s"
  then have "wf_pass (s\<lparr>mem := removeFinalizer (mem s) taskFinalizer\<rparr>)"
    by (simp add: wf_pass_def removeFinalizer_def)
  then show ?thesis by (simp add: drop_finalizer_def split_beta del: write_object_simps)
qed

lemma task_handleDeletion_wf:
  "wf_pass s \<Longrightarrow> wf_pass (snd (snd (task_handleDeletion w s)))"
proof -
  assume wf: "wf_pass s"
  have "wf_pass (cancel_loop w aids s)" for aids using wf by (simp add: wf_pass_def)
  with wf show ?thesis by (simp add: task_handleDeletion_def drop_finalizer_wf)
qed

lemma task_Reconcile_wf:
  fixes t :: "('a) task_scheme"
  assumes "wf_runs (runs_of t)"
  shows "wf_pass (snd (snd (task_Reconcile w t)))"
proof -
  have wf0: "wf_pass (start_pass t)" using assms by (simp add: wf_pass_def)
  have wfF: "wf_pass ((start_pass t)\<lparr>mem := t\<lparr>obj_finalizers := fs\<rparr>\<rparr>)" for fs
    using assms by (simp add: wf_pass_def)
  obtain r and s :: "('a task_scheme, task_call) pass" where own:
    "own_organization (tw_out w) task_kind (tw_get_org w)
      (orgRef (tk_organization_ref (tk_spec t))) (start_pass t) = (r, s)" by fastforce
  note o' = own_organization_task [OF own]
  have wf1: "wf_pass s" using assms o'(1,6) by (auto simp: wf_pass_def split: option.splits)
  have wf2: "wf_pass (task_set_status (\<lambda>st. st\<lparr>ts_runs := runs\<rparr>) s)"
    if "refreshActiveRuns w (runs_of (mem s)) = Inr runs" for runs
    using wf1 wf_runs_refresh [OF that] by (simp add: wf_pass_def)
  have "wf_pass ((start_pass t)\<lparr>mem := snd (ensureFinalizer t taskFinalizer)\<rparr>)"
    using wfF assms by (simp add: ensureFinalizer_def wf_pass_def)
  then have ens: "wf_pass (snd (write_object (tw_out w) task_kind
      ((start_pass t)\<lparr>mem := snd (ensureFinalizer t taskFinalizer)\<rparr>)))"
    by (rule wf_pass_write_object)
  show ?thesis
    using wf0 wf1 wf2 ens failTask_wf [OF wf0, of w] task_handleDeletion_wf [OF wf0, of w]
    by (simp add: task_Reconcile_def Let_def own split_beta task_trigger_wf del: write_object_simps
        split: option.split sum.split bool.split)
qed

section \<open>When Uyuni is asked to act\<close>

definition schedules :: "(task_call event \<times> bool) list \<Rightarrow> task_call list" where
  "schedules t = concat (map (\<lambda>(e, _). case e of
      Call (CancelAction a) \<Rightarrow> [] | Call c \<Rightarrow> [c] | _ \<Rightarrow> []) t)"

lemma schedules_simps [simp]:
  "schedules [] = []" "schedules (t @ u) = schedules t @ schedules u"
  "schedules ((WriteStatus, ok) # t) = schedules t" "schedules ((WriteObject, ok) # t) = schedules t"
  "schedules ((DeleteObject, ok) # t) = schedules t"
  "schedules ((Call (CancelAction aid), ok) # t) = schedules t"
  by (simp_all add: schedules_def)

lemma task_requeue_schedules [simp]:
  "schedules (trace (snd (snd (task_requeue w s)))) = schedules (trace s)"
  by (simp add: task_requeue_def Let_def split_beta split: option.split)

lemma task_finish_schedules [simp]:
  "schedules (trace (snd (snd (task_finish w s)))) = schedules (trace s)"
  by (simp add: task_finish_def Let_def split_beta split: option.split)

lemma failTask_schedules [simp]:
  "schedules (trace (snd (snd (failTask w r e s)))) = schedules (trace s)"
  by (simp add: failTask_def Let_def split_beta)

lemma cancel_loop_schedules [simp]: "schedules (trace (cancel_loop w aids s)) = schedules (trace s)"
  by (induction aids arbitrary: s) simp_all

lemma task_handleDeletion_schedules [simp]:
  "schedules (trace (snd (snd (task_handleDeletion w s)))) = schedules (trace s)"
  by (simp add: task_handleDeletion_def drop_finalizer_def split_beta)

lemma task_trigger_quiet:
  "decideTrigger (mem s) = [] \<or> hasActiveRun (mem s) \<Longrightarrow>
     task_trigger w s = task_finish w s"
  by (auto simp: task_trigger_def Let_def)

text \<open>A pass asks Uyuni for work only when a trigger is there and no run is active any more.\<close>

lemma task_Reconcile_schedules:
  fixes t :: "('a) task_scheme"
  assumes "schedules (trace (snd (snd (task_Reconcile w t)))) \<noteq> []"
  shows "\<not> obj_deleting t \<and> (\<exists>runs. refreshActiveRuns w (runs_of t) = Inr runs \<and>
     \<not> list_ex run_active runs \<and>
     decideTrigger (t\<lparr>tk_status := (tk_status t)\<lparr>ts_runs := runs\<rparr>\<rparr>) \<noteq> [])"
proof -
  obtain r and s :: "('a task_scheme, task_call) pass" where own:
    "own_organization (tw_out w) task_kind (tw_get_org w)
      (orgRef (tk_organization_ref (tk_spec t))) (start_pass t) = (r, s)" by fastforce
  note o' = own_organization_task [OF own]
  have tr: "schedules (trace s) = []" using o'(7) by auto
  have same: "decideTrigger (mem (task_set_status (\<lambda>st. st\<lparr>ts_runs := runs\<rparr>) s)) =
      decideTrigger (t\<lparr>tk_status := (tk_status t)\<lparr>ts_runs := runs\<rparr>\<rparr>)" for runs
    using o'(1,3,4) by (simp add: decideTrigger_def has_annotation_def)
  show ?thesis
  proof (rule ccontr)
    assume c: "\<not> ?thesis"
    have q: "decideTrigger (mem (task_set_status (\<lambda>st. st\<lparr>ts_runs := runs\<rparr>) s)) = [] \<or>
        hasActiveRun (mem (task_set_status (\<lambda>st. st\<lparr>ts_runs := runs\<rparr>) s))"
      if "refreshActiveRuns w (runs_of (mem s)) = Inr runs" "\<not> obj_deleting t" for runs
      using c that o'(1) unfolding same by (auto simp: hasActiveRun_def)
    have "schedules (trace (snd (snd (task_Reconcile w t)))) = []"
      using tr q
      by (simp add: task_Reconcile_def Let_def own split_beta task_trigger_quiet
          split: option.split sum.split bool.split)
    with assms show False by simp
  qed
qed

section \<open>A task that has run and that nobody touches\<close>

definition task_quiet :: "('a) task_scheme \<Rightarrow> bool" where
  "task_quiet t = (runs_of t \<noteq> [] \<and> \<not> has_annotation t AnnRerun \<and>
     ts_observed_generation (tk_status t) = obj_generation t)"

definition quiet_pass :: "(('a) task_scheme, task_call) pass \<Rightarrow> bool" where
  "quiet_pass s = (task_quiet (mem s) \<and>
     (case stored s of None \<Rightarrow> True
      | Some q \<Rightarrow> task_quiet q \<and> obj_generation q = obj_generation (mem s)))"

lemma has_annotation_simps [simp]:
  "has_annotation (t\<lparr>tk_status := st\<rparr>) a = has_annotation t a"
  "has_annotation (obj\<lparr>obj_deleting := b\<rparr>) a = has_annotation obj a"
  "has_annotation (obj\<lparr>obj_finalizers := fs\<rparr>) a = has_annotation obj a"
  "has_annotation (removeFinalizer obj f) a = has_annotation obj a"
  by (simp_all add: has_annotation_def removeFinalizer_def)

lemma quiet_pass_simps [simp]:
  "quiet_pass s \<Longrightarrow> quiet_pass (snd (write_status out task_kind s))"
  "quiet_pass s \<Longrightarrow> quiet_pass (snd (write_object out task_kind s))"
  "quiet_pass s \<Longrightarrow> quiet_pass (snd (delete_object out s))"
  "quiet_pass s \<Longrightarrow> quiet_pass (snd (attempt out ev s))"
  by (auto simp: quiet_pass_def task_quiet_def collected_def split: option.splits bind_splits)

lemma quiet_pass_set_status [simp]:
  "quiet_pass s \<Longrightarrow> ts_runs (f (tk_status (mem s))) \<noteq> [] \<Longrightarrow>
     ts_observed_generation (f (tk_status (mem s))) = obj_generation (mem s) \<Longrightarrow>
     quiet_pass (task_set_status f s)"
  by (simp add: quiet_pass_def task_quiet_def split: option.splits)

lemma quiet_passD:
  "quiet_pass s \<Longrightarrow> runs_of (mem s) \<noteq> []"
  "quiet_pass s \<Longrightarrow> ts_observed_generation (tk_status (mem s)) = obj_generation (mem s)"
  "quiet_pass s \<Longrightarrow> decideTrigger (mem s) = []"
  by (auto simp: quiet_pass_def task_quiet_def decideTrigger_def split: option.splits)

lemma failTask_quiet: "quiet_pass s \<Longrightarrow> quiet_pass (snd (snd (failTask w r e s)))"
  by (simp add: failTask_def Let_def split_beta quiet_passD del: write_status_simps)

lemma task_finish_quiet: "quiet_pass s \<Longrightarrow> quiet_pass (snd (snd (task_finish w s)))"
proof -
  assume "quiet_pass s"
  then have 1: "quiet_pass (snd (write_status (tw_out w) task_kind (task_set_status (\<lambda>st.
            (if isTerminalPhase ph then task_ready w (obj_generation (mem s)) True ''Reconciled'' ph
             else task_ready w (obj_generation (mem s)) False ''InProgress'' ph)
            (st\<lparr>ts_phase := ph, ts_observed_generation := obj_generation (mem s)\<rparr>)) s)))" for ph
    by (intro quiet_pass_simps(1) quiet_pass_set_status) (simp_all add: quiet_passD)
  have rq: "quiet_pass s' \<Longrightarrow> quiet_pass (snd (snd (task_requeue w s')))" for s' :: "('a task_scheme, task_call) pass"
    by (simp add: task_requeue_def Let_def split_beta del: delete_object_simps split: option.split)
  show ?thesis
    using 1 [of "updatePhase (mem s)"] rq [OF 1, of "updatePhase (mem s)"]
    by (cases "isTerminalPhase (updatePhase (mem s))")
      (simp_all add: task_finish_def Let_def split_beta del: write_status_simps split: option.split)
qed

lemma cancel_loop_quiet: "quiet_pass s \<Longrightarrow> quiet_pass (cancel_loop w aids s)"
  by (simp add: quiet_pass_def split: option.splits)

lemma drop_finalizer_quiet: "quiet_pass s \<Longrightarrow> quiet_pass (snd (snd (drop_finalizer w s)))"
proof -
  assume "quiet_pass s"
  then have "quiet_pass (s\<lparr>mem := removeFinalizer (mem s) taskFinalizer\<rparr>)"
    by (simp add: quiet_pass_def task_quiet_def removeFinalizer_def has_annotation_def split: option.splits)
  then show ?thesis by (simp add: drop_finalizer_def split_beta del: write_object_simps)
qed

lemma task_Reconcile_quiet:
  fixes t :: "('a) task_scheme"
  assumes q: "task_quiet t"
  shows "quiet_pass (snd (snd (task_Reconcile w t)))"
proof -
  have q0: "quiet_pass (start_pass t)" using q by (simp add: quiet_pass_def)
  have qF: "quiet_pass ((start_pass t)\<lparr>mem := snd (ensureFinalizer t taskFinalizer)\<rparr>)"
    using q by (simp add: quiet_pass_def task_quiet_def ensureFinalizer_def)
  obtain r and s :: "('a task_scheme, task_call) pass" where own:
    "own_organization (tw_out w) task_kind (tw_get_org w)
      (orgRef (tk_organization_ref (tk_spec t))) (start_pass t) = (r, s)" by fastforce
  note o' = own_organization_task [OF own]
  have q1: "quiet_pass s"
    using q o'(1,3,4,6)
    by (auto simp: quiet_pass_def task_quiet_def has_annotation_def split: option.splits)
  have q2: "quiet_pass (task_set_status (\<lambda>st. st\<lparr>ts_runs := runs\<rparr>) s)"
    if "refreshActiveRuns w (runs_of (mem s)) = Inr runs" for runs
  proof -
    have "runs \<noteq> []"
      using quiet_passD(1) [OF q1] list_all2_lengthD [OF refreshActiveRuns_each [OF that]] by auto
    then show ?thesis using q1 by (simp add: quiet_passD)
  qed
  have q3: "quiet_pass (snd (snd (task_trigger w (task_set_status (\<lambda>st. st\<lparr>ts_runs := runs\<rparr>) s))))"
    if "refreshActiveRuns w (runs_of (mem s)) = Inr runs" for runs
    using task_finish_quiet [OF q2 [OF that], of w] quiet_passD(3) [OF q2 [OF that]]
    by (simp add: task_trigger_quiet)
  have d: "quiet_pass (snd (snd (task_handleDeletion w (start_pass t))))"
    using q0 by (simp add: task_handleDeletion_def drop_finalizer_quiet cancel_loop_quiet)
  show ?thesis
    using q0 q1 q3 quiet_pass_simps(2) [OF qF] failTask_quiet [OF q0, of w] d
    by (simp add: task_Reconcile_def Let_def own split_beta del: write_object_simps
        split: option.split sum.split bool.split)
qed

section \<open>A concrete task\<close>

definition demo_task :: "string list \<Rightarrow> task" where
  "demo_task finalizers = k8s_object.extend ((mk_object ''ns'' ''t1'')\<lparr>obj_finalizers := finalizers\<rparr>)
     \<lparr>tk_spec = \<lparr>tk_target = \<lparr>st_system_ref = None, st_system_group_ref = None, st_server_ids = [1, 2]\<rparr>,
        tk_highstate = None, tk_remote_command = None, tk_reboot = Some \<lparr>rb_delay_seconds = 0\<rparr>,
        tk_apply_patches = None, tk_apply_config_channels = None, tk_not_before = None, tk_ttl = 0,
        tk_organization_ref = None\<rparr>,
      tk_status = \<lparr>ts_runs = [], ts_phase = [], ts_resolved_system_ids = [],
        ts_observed_generation = 0, ts_conditions = []\<rparr>\<rparr>"

definition demo_result :: "string \<Rightarrow> int \<Rightarrow> system_action_result" where
  "demo_result st aid = \<lparr>sar_server_id = 1, sar_action_id = aid, sar_status = st, sar_result = [],
     sar_exit_code = None\<rparr>"

definition task_demo_world :: "string \<Rightarrow> answers \<Rightarrow> (unit, unit, unit) task_world" where
  "task_demo_world st out = \<lparr>tw_ssc = replace_cond, tw_now_results = 20, tw_now_reboot = 20,
     tw_now_start = 20, tw_now_gc = 20, tw_wall = 20, tw_client = None,
     tw_get_org = \<lambda>ns n. Inl (GoErr K8sNotFound []), tw_get_system = \<lambda>ns n. Inl (GoErr K8sNotFound []),
     tw_get_group = \<lambda>ns n. Inl (GoErr K8sNotFound []), tw_results = \<lambda>aid. Inr [demo_result st aid],
     tw_action_id = \<lambda>n. 100 + int n, tw_action_ids = \<lambda>n. [], tw_out = out\<rparr>"

definition task_after :: "(unit, unit, unit) task_world \<Rightarrow> task \<Rightarrow> task" where
  "task_after w t = (case stored (snd (snd (task_Reconcile w t))) of None \<Rightarrow> t | Some q \<Rightarrow> q)"

definition task_trace :: "(unit, unit, unit) task_world \<Rightarrow> task \<Rightarrow> (task_call event \<times> bool) list" where
  "task_trace w t = trace (snd (snd (task_Reconcile w t)))"

definition no_failure :: answers where
  "no_failure n = None"

definition finished_task :: task where
  "finished_task = task_after (task_demo_world ''Succeeded'' no_failure)
     (task_after (task_demo_world ''Running'' no_failure) (demo_task [taskFinalizer]))"

section \<open>Properties\<close>

text \<open>
  The states a task can be in: fresh, after a pass over a live task, and after an edit, which
  cannot touch the status.
\<close>

inductive task_reach :: "task \<Rightarrow> bool" where
  fresh: "runs_of t = [] \<Longrightarrow> task_reach t"
| pass: "task_reach t \<Longrightarrow> live t \<Longrightarrow>
     stored (snd (snd (task_Reconcile (w :: (unit, unit, unit) task_world) t))) = Some q \<Longrightarrow> task_reach q"
| edit: "task_reach t \<Longrightarrow> task_reach ((f t)\<lparr>tk_status := tk_status t\<rparr>)"

text \<open>
  C3.  In every reachable state the run history has at most ten runs, and only the newest can be
  active.  Every run is in one of the five phases, has its completion time exactly when it is
  finished, and its phase agrees with the results stored with it: it is \<^verbatim>\<open>Succeeded\<close> exactly when no
  result is outstanding, some succeeded and none failed, \<^verbatim>\<open>Failed\<close> exactly when no result is
  outstanding, some failed and none succeeded, and \<^verbatim>\<open>Mixed\<close> exactly when no result is outstanding and
  there are both.
\<close>

theorem task_history_well_formed:
  assumes "task_reach t"
  shows "wf_runs (runs_of t)"
  using assms
proof (induction rule: task_reach.induct)
  case (fresh t)
  then show ?case by (simp add: wf_runs_def)
next
  case (pass t w q)
  then show ?case using task_Reconcile_wf [of t w] by (simp add: wf_pass_def)
next
  case (edit t f)
  then show ?case by simp
qed

lemma finished_task_reach: "task_reach finished_task"
proof -
  have c: "Option.is_none (stored (snd (snd (task_Reconcile (task_demo_world st no_failure) t)))) = False \<Longrightarrow>
      stored (snd (snd (task_Reconcile (task_demo_world st no_failure) t))) =
        Some (task_after (task_demo_world st no_failure) t)" for st t
    by (cases "stored (snd (snd (task_Reconcile (task_demo_world st no_failure) t)))")
      (simp_all add: task_after_def)
  let ?t1 = "task_after (task_demo_world ''Running'' no_failure) (demo_task [taskFinalizer])"
  have 0: "task_reach (demo_task [taskFinalizer])"
    by (rule task_reach.fresh) (simp add: demo_task_def k8s_object.defs)
  have 1: "task_reach ?t1"
    by (rule task_reach.pass [OF 0 _ c]) (code_simp, code_simp)
  show ?thesis unfolding finished_task_def
    by (rule task_reach.pass [OF 1 _ c]) (code_simp, code_simp)
qed

theorem task_history_well_formed_witness:
  "wf_runs (runs_of finished_task) \<and> map tr_phase (runs_of finished_task) = [''Succeeded''] \<and>
   map (\<lambda>r. map trr_status (tr_results r)) (runs_of finished_task) = [[''Succeeded'', ''Succeeded'']]"
proof -
  have "map tr_phase (runs_of finished_task) = [''Succeeded''] \<and>
    map (\<lambda>r. map trr_status (tr_results r)) (runs_of finished_task) = [[''Succeeded'', ''Succeeded'']]"
    by code_simp
  then show ?thesis using task_history_well_formed [OF finished_task_reach] by simp
qed

text \<open>
  A pass schedules actions in Uyuni only for a task that is not being deleted, when after
  refreshing the results no run is active any more and a trigger asks for a run.
\<close>

theorem task_schedules_only_when_idle:
  fixes t :: "('a) task_scheme"
  assumes "schedules (trace (snd (snd (task_Reconcile w t)))) \<noteq> []"
  shows "\<not> obj_deleting t \<and> (\<exists>runs. refreshActiveRuns w (runs_of t) = Inr runs \<and>
     \<not> list_ex run_active runs \<and>
     decideTrigger (t\<lparr>tk_status := (tk_status t)\<lparr>ts_runs := runs\<rparr>\<rparr>) \<noteq> [])"
  using task_Reconcile_schedules [OF assms] .

theorem task_schedules_only_when_idle_witness:
  "\<not> obj_deleting (demo_task [taskFinalizer])"
proof -
  have "schedules (trace (snd (snd (task_Reconcile (task_demo_world ''Running'' no_failure)
      (demo_task [taskFinalizer]))))) \<noteq> []" by code_simp
  from task_schedules_only_when_idle [OF this] show ?thesis by blast
qed

lemma finished_task_quiet: "task_quiet finished_task"
  by code_simp

text \<open>
  C35.  A task that has a run on record, whose generation is the observed one and that carries no rerun
  annotation is not run again: whatever calls and writes fail, a pass schedules nothing, and if the
  object is still there after it, it has a run on record and no rerun annotation, and its generation
  is the observed one.
\<close>

theorem quiet_task_stays_quiet:
  fixes t :: "('a) task_scheme"
  assumes "ts_runs (tk_status t) \<noteq> []" "\<not> has_annotation t AnnRerun"
    and "ts_observed_generation (tk_status t) = obj_generation t"
  shows "schedules (trace (snd (snd (task_Reconcile w t)))) = [] \<and>
    (case stored (snd (snd (task_Reconcile w t))) of None \<Rightarrow> True
     | Some q \<Rightarrow> ts_runs (tk_status q) \<noteq> [] \<and> \<not> has_annotation q AnnRerun \<and>
         ts_observed_generation (tk_status q) = obj_generation q)"
proof
  have quiet: "task_quiet t" using assms by (simp add: task_quiet_def)
  show "schedules (trace (snd (snd (task_Reconcile w t)))) = []"
  proof (rule ccontr)
    assume "schedules (trace (snd (snd (task_Reconcile w t)))) \<noteq> []"
    from task_Reconcile_schedules [OF this] obtain runs where
      r: "refreshActiveRuns w (runs_of t) = Inr runs"
        "decideTrigger (t\<lparr>tk_status := (tk_status t)\<lparr>ts_runs := runs\<rparr>\<rparr>) \<noteq> []" by blast
    have "runs \<noteq> []" using refreshActiveRuns_each [OF r(1)] assms(1) by auto
    with r(2) assms show False by (auto simp: decideTrigger_def split: if_splits)
  qed
  show "case stored (snd (snd (task_Reconcile w t))) of None \<Rightarrow> True
     | Some q \<Rightarrow> ts_runs (tk_status q) \<noteq> [] \<and> \<not> has_annotation q AnnRerun \<and>
         ts_observed_generation (tk_status q) = obj_generation q"
    using task_Reconcile_quiet [OF quiet, of w] by (simp add: quiet_pass_def task_quiet_def split: option.splits)
qed

theorem quiet_task_stays_quiet_witness:
  "schedules (trace (snd (snd (task_Reconcile (task_demo_world ''Running'' no_failure) finished_task)))) = []"
proof -
  have "ts_runs (tk_status finished_task) \<noteq> []" "\<not> has_annotation finished_task AnnRerun"
    "ts_observed_generation (tk_status finished_task) = obj_generation finished_task"
    using finished_task_quiet by (simp_all add: task_quiet_def)
  from quiet_task_stays_quiet [OF this] show ?thesis by blast
qed

definition keep_longer :: "task \<Rightarrow> task" where
  "keep_longer t = t\<lparr>tk_spec := (tk_spec t)\<lparr>tk_ttl := 1000\<rparr>, obj_generation := obj_generation t + 1\<rparr>"

text \<open>
  Changing only \<^verbatim>\<open>ttlAfterFinished\<close> of a finished task, the one change the webhook allows
  then, runs the task again: the generation changes and the pass takes it for a spec change.
\<close>
theorem ttl_edit_runs_task_again:
  "accepted (task_ValidateUpdate (\<lambda>ns n. Inl (GoErr PlainErr []) :: go_error + unit)
     (\<lambda>ns n. Inl (GoErr PlainErr []) :: go_error + unit) finished_task (keep_longer finished_task)) \<and>
   isTerminalPhase (ts_phase (tk_status finished_task)) \<and>
   schedules (task_trace (task_demo_world ''Succeeded'' no_failure) (keep_longer finished_task)) =
     [ScheduleReboot 1 None, ScheduleReboot 2 None]"
  by (intro conjI; code_simp)

definition second_fails :: answers where
  "second_fails n = (if n = 2 then Some (errorf ''timeout'') else None)"

text \<open>
  When scheduling the reboots of a task fails part of the way, nothing records the systems
  already scheduled, and the next pass schedules their reboots again.
\<close>
theorem failed_reboot_batch_repeats:
  "schedules (filter snd (task_trace (task_demo_world ''Running'' second_fails) (demo_task [taskFinalizer]))) =
     [ScheduleReboot 1 None] \<and>
   schedules (filter snd (task_trace (task_demo_world ''Running'' no_failure)
     (task_after (task_demo_world ''Running'' second_fails) (demo_task [taskFinalizer])))) =
     [ScheduleReboot 1 None, ScheduleReboot 2 None]"
  by (intro conjI; code_simp)

text \<open>
  C14.  A task under deletion loses its finalizer only by the force-delete annotation, without a
  client for its organization, or after a cancellation was sent for every action of every active
  run; the finalizer write is the last event of the pass.
\<close>

theorem deleted_task_cancels_active_runs:
  fixes t :: "('a) task_scheme"
  assumes "obj_deleting t" "taskFinalizer \<in> set (obj_finalizers t)"
    and "\<not> has_annotation t AnnForceDelete" "tw_client w = None"
  shows "map fst (trace (snd (snd (task_Reconcile w t)))) =
    map (\<lambda>a. Call (CancelAction a)) (concat (map tr_action_ids (filter run_active (runs_of t))))
    @ [WriteObject]"
  using assms by (simp add: task_Reconcile_def task_handleDeletion_def drop_finalizer_def split_beta)

definition running_then_deleted :: task where
  "running_then_deleted = (task_after (task_demo_world ''Running'' no_failure)
     (demo_task [taskFinalizer]))\<lparr>obj_deleting := True\<rparr>"

theorem deleted_task_cancels_active_runs_witness:
  "map fst (trace (snd (snd (task_Reconcile (task_demo_world ''Running'' no_failure) running_then_deleted)))) =
    [Call (CancelAction 101), Call (CancelAction 102), WriteObject]"
proof -
  have a: "obj_deleting running_then_deleted" by code_simp
  have b: "taskFinalizer \<in> set (obj_finalizers running_then_deleted)" by code_simp
  have c: "\<not> has_annotation running_then_deleted AnnForceDelete" by code_simp
  have d: "tw_client (task_demo_world ''Running'' no_failure) = None" by (simp add: task_demo_world_def)
  have e: "concat (map tr_action_ids (filter run_active (runs_of running_then_deleted))) = [101, 102]"
    by code_simp
  show ?thesis using deleted_task_cancels_active_runs [OF a b c d] by (simp add: e)
qed

text \<open>
  Once the history is full, every new run gets the sequence number 11: the number is the
  length of the truncated history plus one, so it no longer counts the runs of the task.
\<close>

theorem sequence_number_saturates:
  assumes "length (runs_of (mem s)) = maxRunHistory" "fst (startRun w trigger s) = None"
  shows "tr_sequence (last (runs_of (mem (snd (startRun w trigger s))))) = 11 \<and>
    length (runs_of (mem (snd (startRun w trigger s)))) = maxRunHistory"
proof -
  from startRun_keeps(3) [OF assms(2)] obtain aids ids where
    r: "mem (snd (startRun w trigger s)) = (mem s)\<lparr>tk_status := (tk_status (mem s))
       \<lparr>ts_runs := append_run (new_run w trigger aids (runs_of (mem s))) (runs_of (mem s)),
        ts_resolved_system_ids := ids\<rparr>\<rparr>" by blast
  show ?thesis using assms(1)
    by (simp add: r append_run_def Let_def new_run_def maxRunHistory_def)
qed

definition old_run :: task_run where
  "old_run = \<lparr>tr_sequence = 1, tr_action_ids = [1], tr_phase = ''Succeeded'', tr_started_at = Some 1,
     tr_completed_at = Some 2, tr_results = [], tr_failure_reason = [], tr_trigger = ''initial''\<rparr>"

definition full_history :: task where
  "full_history = (let t = demo_task [taskFinalizer] in
     t\<lparr>tk_status := (tk_status t)\<lparr>ts_runs := replicate 10 old_run\<rparr>\<rparr>)"

theorem sequence_number_saturates_witness:
  "tr_sequence (last (runs_of (mem (snd (startRun (task_demo_world ''Running'' no_failure) ''annotation''
     (start_pass full_history)))))) = 11"
proof -
  have a: "length (runs_of (mem (start_pass full_history))) = maxRunHistory" by code_simp
  have "Option.is_none (fst (startRun (task_demo_world ''Running'' no_failure) ''annotation''
      (start_pass full_history)))" by code_simp
  then have b: "fst (startRun (task_demo_world ''Running'' no_failure) ''annotation''
      (start_pass full_history)) = None" by (simp add: Option.is_none_def)
  from sequence_number_saturates [OF a b] show ?thesis by simp
qed

end
