(* ===== verification/Project_Controller.thy ===== *)
theory Project_Controller
  imports Reconcile Uyuni_Types "HOL-Library.List_Lexorder" "HOL-Library.Char_ord" "HOL-Library.Multiset"
begin

text \<open>
  \<^verbatim>\<open>contentproject_controller.go\<close>: a content project is created or adopted in Uyuni, its sources
  and filters are brought in line with the spec, and a build is started when one is due.  Every
  error path that calls \<^verbatim>\<open>fail\<close> also writes the status as the pass has changed it so far, so the
  passes below thread the in-memory object through every step.
\<close>

section \<open>World and calls\<close>

definition project_kind :: "(('a) content_project_scheme, content_project_status) kind_ops" where
  "project_kind = \<lparr>status_of = cp_status, with_status = \<lambda>st p. p\<lparr>cp_status := st\<rparr>\<rparr>"

datatype cp_call =
    CreateProject string string string
  | BuildProject string string
  | RemoveProject string
  | AttachSourceWithPosition string string nat
  | DetachSource string string
  | CreateFilter string string string filter_criteria_wire
  | UpdateFilter int string string filter_criteria_wire
  | AttachFilter string int
  | DetachFilter string int
  | RemoveFilter int

text \<open>
  \<open>cw_created_id\<close> is the id Uyuni gives the filter created by the \<open>n\<close>-th event; \<open>cw_filters\<close> and
  \<open>cw_filters_later\<close> are the two \<^verbatim>\<open>ListFilters\<close> answers of a pass.  \<open>cw_cron\<close> is
  \<^verbatim>\<open>cron.ParseStandard\<close> with the schedule's \<^verbatim>\<open>Next\<close>, \<open>cw_hash\<close> the hexadecimal text of the first
  eight bytes of SHA-256.
\<close>

record ('g, 'c, 's, 'e) cp_world =
  cw_ssc :: set_cond
  cw_now_build :: int
  cw_now_cron :: int
  cw_wall :: int
  cw_client :: "go_error option"
  cw_get_org :: "('g) organization_scheme k8s_get"
  cw_get_channel :: "('s) software_channel_scheme k8s_get"
  cw_created_project :: project_details
  cw_lookup :: "go_error + project_details"
  cw_projects_ns :: "go_error + ('c) content_project_scheme list"
  cw_projects_all :: "go_error + ('c) content_project_scheme list"
  cw_projects_filter :: "go_error + ('c) content_project_scheme list"
  cw_sources :: "go_error + project_source list"
  cw_filters :: "go_error + filter_details list"
  cw_filters_later :: "go_error + filter_details list"
  cw_created_id :: "nat \<Rightarrow> int"
  cw_envs :: "go_error + ('e) clm_environment_scheme list"
  cw_envs_later :: "go_error + ('e) clm_environment_scheme list"
  cw_cron :: "string \<Rightarrow> (int \<Rightarrow> int) option"
  cw_hash :: "string \<Rightarrow> string"
  cw_promotions :: "go_error + promotion list"
  cw_keys :: "go_error + activation_key list"
  cw_systems :: "go_error + uyuni_system list"
  cw_out :: answers

definition cp_set_status ::
  "(content_project_status \<Rightarrow> content_project_status) \<Rightarrow> (('a) content_project_scheme, 'u) pass \<Rightarrow>
   (('a) content_project_scheme, 'u) pass" where
  "cp_set_status f s = s\<lparr>mem := (mem s)\<lparr>cp_status := f (cp_status (mem s))\<rparr>\<rparr>"

definition cp_ready ::
  "('g, 'c, 's, 'e) cp_world \<Rightarrow> int \<Rightarrow> bool \<Rightarrow> string \<Rightarrow> string \<Rightarrow> content_project_status \<Rightarrow>
   content_project_status" where
  "cp_ready w gen ok reason msg st =
     st\<lparr>cps_conditions := setReady (cw_ssc w) (cps_conditions st) gen ok reason msg\<rparr>"

definition cp_fail ::
  "('g, 'c, 's, 'e) cp_world \<Rightarrow> string \<Rightarrow> go_error \<Rightarrow> (('a) content_project_scheme, cp_call) pass \<Rightarrow>
   (('a) content_project_scheme, cp_call) outcome" where
  "cp_fail w reason err s =
     (let s1 = cp_set_status (cp_ready w (obj_generation (mem s)) False reason (err_text err)) s;
          (_, s2) = write_status (cw_out w) project_kind s1
      in (result_done, Some err, s2))"

text \<open>A step of the pass either ends it with an outcome or hands the pass on.\<close>

type_synonym ('o, 'u) cp_step = "('o, 'u) outcome + ('o, 'u) pass"

section \<open>Sources\<close>

fun resolve_refs ::
  "('s) software_channel_scheme k8s_get \<Rightarrow> string \<Rightarrow> local_object_ref list \<Rightarrow>
   go_error + string list \<times> string list" where
  "resolve_refs get ns [] = Inr ([], [])"
| "resolve_refs get ns (r # rs) =
     (let rest = resolve_refs get ns rs;
          add = (\<lambda>l m. case rest of Inl e \<Rightarrow> Inl e | Inr (ls, ms) \<Rightarrow> Inr (l @ ls, m @ ms))
      in case get ns (lor_name r) of
           Inl e \<Rightarrow> (if ignore_not_found e \<noteq> None then Inl e else add [] [lor_name r @ '' (not found)''])
         | Inr sc \<Rightarrow> (if scs_label (sc_status sc) = [] then add [] [lor_name r @ '' (not realized)'']
                     else add [scs_label (sc_status sc)] []))"

definition source_refs :: "content_project_spec \<Rightarrow> local_object_ref list" where
  "source_refs sp = (case cp_channels sp of
      Some ch \<Rightarrow> cc_base_refs ch @ cc_child_refs ch
    | None \<Rightarrow> cp_source_refs sp)"

definition resolveSources ::
  "('s) software_channel_scheme k8s_get \<Rightarrow> ('a) content_project_scheme \<Rightarrow>
   go_error + string list \<times> string list" where
  "resolveSources get cp = resolve_refs get (obj_namespace cp) (source_refs (cp_spec cp))"

fun attach_loop ::
  "answers \<Rightarrow> string \<Rightarrow> string list \<Rightarrow> nat \<Rightarrow> string list \<Rightarrow> ('o, cp_call) pass \<Rightarrow>
   go_error option \<times> ('o, cp_call) pass" where
  "attach_loop out proj current position [] s = (None, s)"
| "attach_loop out proj current position (label # labels) s =
     (if label \<in> set current then attach_loop out proj current (Suc position) labels s
      else case attempt out (Call (AttachSourceWithPosition proj label position)) s of
        (Some e, s1) \<Rightarrow> (Some (wrap_err (''attach source '' @ go_quote label @ '': '') e), s1)
      | (None, s1) \<Rightarrow> attach_loop out proj current (Suc position) labels s1)"

fun detach_loop ::
  "answers \<Rightarrow> string \<Rightarrow> string list \<Rightarrow> string list \<Rightarrow> ('o, cp_call) pass \<Rightarrow>
   go_error option \<times> ('o, cp_call) pass" where
  "detach_loop out proj desired [] s = (None, s)"
| "detach_loop out proj desired (source # sources) s =
     (if source = [] \<or> source \<in> set desired then detach_loop out proj desired sources s
      else case attempt out (Call (DetachSource proj source)) s of
        (Some e, s1) \<Rightarrow> (Some (wrap_err (''detach source '' @ go_quote source @ '': '') e), s1)
      | (None, s1) \<Rightarrow> detach_loop out proj desired sources s1)"

text \<open>\<^verbatim>\<open>currentSet\<close> is a Go map; its keys are visited in the order of first occurrence here.\<close>

definition reconcileSources ::
  "('g, 'c, 's, 'e) cp_world \<Rightarrow> string list \<Rightarrow> (('a) content_project_scheme, cp_call) pass \<Rightarrow>
   go_error option \<times> (('a) content_project_scheme, cp_call) pass" where
  "reconcileSources w desired s =
     (case cw_sources w of
        Inl e \<Rightarrow> (Some (wrap_err ''list sources: '' e), s)
      | Inr sources \<Rightarrow>
          let current = map psrc_channel_label sources; proj = cp_label (cp_spec (mem s)) in
          (case attach_loop (cw_out w) proj current 0 desired s of
             (Some e, s1) \<Rightarrow> (Some e, s1)
           | (None, s1) \<Rightarrow> detach_loop (cw_out w) proj desired (remdups current) s1))"

section \<open>Filters\<close>

definition all_by_name :: "filter_details list \<Rightarrow> (string \<rightharpoonup> filter_details)" where
  "all_by_name fs = foldl (\<lambda>m f. m(fd_name f \<mapsto> f)) Map.empty fs"

text \<open>Writing an entry of a Go map kept as an association list.\<close>

fun alist_put :: "'k \<Rightarrow> 'v \<Rightarrow> ('k \<times> 'v) list \<Rightarrow> ('k \<times> 'v) list" where
  "alist_put k v [] = [(k, v)]"
| "alist_put k v ((k', v') # m) = (if k' = k then (k, v) # m else (k', v') # alist_put k v m)"

definition alist_del :: "'k \<Rightarrow> ('k \<times> 'v) list \<Rightarrow> ('k \<times> 'v) list" where
  "alist_del k m = filter (\<lambda>e. fst e \<noteq> k) m"

definition put_filter_id ::
  "string \<Rightarrow> int \<Rightarrow> (('a) content_project_scheme, 'u) pass \<Rightarrow> (('a) content_project_scheme, 'u) pass" where
  "put_filter_id n i = cp_set_status (\<lambda>st. st\<lparr>cps_filter_ids := alist_put n i (cps_filter_ids st)\<rparr>)"

definition criteria_wire :: "project_filter \<Rightarrow> filter_criteria_wire" where
  "criteria_wire f = \<lparr>fcw_field = fc_field (pf_criteria f), fcw_matcher = fc_matcher (pf_criteria f),
     fcw_value = fc_value (pf_criteria f)\<rparr>"

fun filters_loop ::
  "('g, 'c, 's, 'e) cp_world \<Rightarrow> (string \<rightharpoonup> filter_details) \<Rightarrow> project_filter list \<Rightarrow> bool \<Rightarrow>
   (('a) content_project_scheme, cp_call) pass \<Rightarrow>
   (go_error + bool) \<times> (('a) content_project_scheme, cp_call) pass" where
  "filters_loop w byName [] changed s = (Inr changed, s)"
| "filters_loop w byName (f # fs) changed s =
     (case byName (pf_name f) of
        Some existing \<Rightarrow>
          if fd_rule existing = pf_rule f \<and> fd_criteria existing = criteria_wire f
          then filters_loop w byName fs changed (put_filter_id (pf_name f) (fd_id existing) s)
          else (case attempt (cw_out w)
                  (Call (UpdateFilter (fd_id existing) (pf_name f) (pf_rule f) (criteria_wire f))) s of
                  (Some e, s1) \<Rightarrow> (Inl (wrap_err (''update filter '' @ go_quote (pf_name f) @ '': '') e), s1)
                | (None, s1) \<Rightarrow>
                    filters_loop w byName fs True (put_filter_id (pf_name f) (fd_id existing) s1))
      | None \<Rightarrow>
          (case attempt (cw_out w)
                  (Call (CreateFilter (pf_name f) (pf_type f) (pf_rule f) (criteria_wire f))) s of
             (Some e, s1) \<Rightarrow> (Inl (wrap_err (''create filter '' @ go_quote (pf_name f) @ '': '') e), s1)
           | (None, s1) \<Rightarrow>
               let created = cw_created_id w (length (trace s)) in
               (case attempt (cw_out w)
                       (Call (AttachFilter (cp_label (cp_spec (mem s1))) created)) s1 of
                  (Some e, s2) \<Rightarrow> (Inl (wrap_err (''attach filter '' @ go_quote (pf_name f) @ '': '') e), s2)
                | (None, s2) \<Rightarrow> filters_loop w byName fs True (put_filter_id (pf_name f) created s2))))"

text \<open>Whether another project of the namespace has a filter of that name in its status.\<close>

definition used_by_other :: "('g, 'c, 's, 'e) cp_world \<Rightarrow> string \<Rightarrow> string \<Rightarrow> bool" where
  "used_by_other w self name =
     (case cw_projects_filter w of
        Inl _ \<Rightarrow> False
      | Inr ps \<Rightarrow> list_ex (\<lambda>p. obj_name p \<noteq> self \<and>
          list_ex (\<lambda>e. fst e = name) (cps_filter_ids (cp_status p))) ps)"

definition still_in_use :: "go_error \<Rightarrow> bool" where
  "still_in_use e = (str_contains (err_text e) ''still in use'' \<or> str_contains (err_text e) ''is used in'')"

definition remove_filter ::
  "('g, 'c, 's, 'e) cp_world \<Rightarrow> string \<Rightarrow> int \<Rightarrow> (('a) content_project_scheme, cp_call) pass \<Rightarrow>
   (('a) content_project_scheme, cp_call) pass" where
  "remove_filter w name i s =
     (case attempt (cw_out w) (Call (RemoveFilter i)) s of
        (None, s1) \<Rightarrow> s1
      | (Some e, s1) \<Rightarrow>
          if \<not> is_uyuni_not_found e \<and> still_in_use e \<and> \<not> used_by_other w (obj_name (mem s)) name
          then snd (attempt (cw_out w) (Call (RemoveFilter i)) s1)
          else s1)"

text \<open>The loop over the filters the status still tracks; \<open>ids\<close> is the map in iteration order.\<close>

fun untrack_loop ::
  "('g, 'c, 's, 'e) cp_world \<Rightarrow> string list \<Rightarrow> (string \<times> int) list \<Rightarrow> bool \<Rightarrow>
   (('a) content_project_scheme, cp_call) pass \<Rightarrow>
   (go_error + bool) \<times> (('a) content_project_scheme, cp_call) pass" where
  "untrack_loop w desiredNames [] changed s = (Inr changed, s)"
| "untrack_loop w desiredNames ((name, i) # ids) changed s =
     (if name \<in> set desiredNames then untrack_loop w desiredNames ids changed s
      else case attempt (cw_out w) (Call (DetachFilter (cp_label (cp_spec (mem s))) i)) s of
        (Some e, s1) \<Rightarrow> (Inl e, s1)
      | (None, s1) \<Rightarrow>
          untrack_loop w desiredNames ids True (remove_filter w name i
            (cp_set_status (\<lambda>st. st\<lparr>cps_filter_ids := alist_del name (cps_filter_ids st)\<rparr>) s1)))"

definition reconcileFilters ::
  "('g, 'c, 's, 'e) cp_world \<Rightarrow> (('a) content_project_scheme, cp_call) pass \<Rightarrow>
   (go_error + bool) \<times> (('a) content_project_scheme, cp_call) pass" where
  "reconcileFilters w s =
     (case cw_filters w of
        Inl _ \<Rightarrow> (Inr False, s)
      | Inr all \<Rightarrow>
          let filters = cp_filters (cp_spec (mem s)) in
          (case filters_loop w (all_by_name all) filters False s of
             (Inl e, s1) \<Rightarrow> (Inl e, s1)
           | (Inr changed, s1) \<Rightarrow>
               untrack_loop w (map pf_name filters) (cps_filter_ids (cp_status (mem s1))) changed s1))"

fun remove_orphans ::
  "answers \<Rightarrow> string list \<Rightarrow> filter_details list \<Rightarrow> ('o, cp_call) pass \<Rightarrow> ('o, cp_call) pass" where
  "remove_orphans out inUse [] s = s"
| "remove_orphans out inUse (f # fs) s =
     remove_orphans out inUse fs
       (if fd_name f \<in> set inUse then s else snd (attempt out (Call (RemoveFilter (fd_id f))) s))"

definition cleanupOrphanedFilters ::
  "('g, 'c, 's, 'e) cp_world \<Rightarrow> (('a) content_project_scheme, cp_call) pass \<Rightarrow>
   (('a) content_project_scheme, cp_call) pass" where
  "cleanupOrphanedFilters w s =
     (case cw_filters_later w of
        Inl _ \<Rightarrow> s
      | Inr all \<Rightarrow>
          (case cw_projects_all w of
             Inl _ \<Rightarrow> s
           | Inr ps \<Rightarrow> remove_orphans (cw_out w)
               (concat (map (\<lambda>p. map fst (cps_filter_ids (cp_status p))) ps)) all s))"

section \<open>Environment states and the build decision\<close>

definition envs_of_project :: "('a) content_project_scheme \<Rightarrow> ('e) clm_environment_scheme list \<Rightarrow> ('e) clm_environment_scheme list" where
  "envs_of_project cp items = filter (\<lambda>e. lor_name (env_project_ref (env_spec e)) = obj_name cp) items"

definition fresh_state :: "('e) clm_environment_scheme \<Rightarrow> environment_state" where
  "fresh_state e = \<lparr>es_label = env_id (env_spec e), es_name = env_name (env_spec e),
     es_built_version = 0, es_built_at = None, es_derived_channels = []\<rparr>"

definition refreshEnvironmentStates ::
  "('g, 'c, 's, 'e) cp_world \<Rightarrow> (('a) content_project_scheme, 'u) pass \<Rightarrow>
   (('a) content_project_scheme, 'u) pass" where
  "refreshEnvironmentStates w s =
     cp_set_status (\<lambda>st. st\<lparr>
       cps_environment_states := (case cw_envs w of
           Inl _ \<Rightarrow> [] | Inr items \<Rightarrow> map fresh_state (envs_of_project (mem s) items)),
       cps_build_status := ''Idle''\<rparr>) s"

definition isProjectReady :: "('a) content_project_scheme \<Rightarrow> bool" where
  "isProjectReady cp = (cps_environment_states (cp_status cp) \<noteq> [])"

definition areFiltersReady :: "('a) content_project_scheme \<Rightarrow> bool" where
  "areFiltersReady cp = (cp_filters (cp_spec cp) = [] \<or>
     length (cps_filter_ids (cp_status cp)) = length (cp_filters (cp_spec cp)))"

definition env_ready :: "('e) clm_environment_scheme \<Rightarrow> bool" where
  "env_ready e = list_ex (\<lambda>c. cond_type c = ''Ready'' \<and> cond_status c) (envs_conditions (env_status e))"

definition areEnvironmentsReady ::
  "('g, 'c, 's, 'e) cp_world \<Rightarrow> ('a) content_project_scheme \<Rightarrow> bool" where
  "areEnvironmentsReady w cp =
     (case cw_envs_later w of
        Inl _ \<Rightarrow> False
      | Inr items \<Rightarrow> \<not> length (filter env_ready (envs_of_project cp items)) <
          length (cps_environment_states (cp_status cp)))"

text \<open>
  \<^verbatim>\<open>fingerprintSources\<close>: the labels sorted, each followed by a zero byte, hashed.  (The code sorts
  the caller's slice in place; the callers only fingerprint it again.)
\<close>

definition fingerprint_input :: "string list \<Rightarrow> string" where
  "fingerprint_input labels = concat (map (\<lambda>l. l @ [CHR 0x00]) (sort labels))"

definition fingerprintSources :: "('g, 'c, 's, 'e) cp_world \<Rightarrow> string list \<Rightarrow> string" where
  "fingerprintSources w labels = cw_hash w (fingerprint_input labels)"

definition nextCronDeadline :: "('g, 'c, 's, 'e) cp_world \<Rightarrow> ('a) content_project_scheme \<Rightarrow> int option" where
  "nextCronDeadline w cp =
     (let sched = bp_schedule (cp_build (cp_spec cp)) in
      if sched = [] then None
      else case cw_cron w sched of
        None \<Rightarrow> None
      | Some next \<Rightarrow> Some (next (case cps_last_build_started_at (cp_status cp) of
          None \<Rightarrow> obj_created cp | Some t \<Rightarrow> t)))"

definition shouldBuild ::
  "('g, 'c, 's, 'e) cp_world \<Rightarrow> ('a) content_project_scheme \<Rightarrow> string list \<Rightarrow> bool \<Rightarrow> string" where
  "shouldBuild w cp sources filtersChanged =
     (let st = cp_status cp; b = cp_build (cp_spec cp) in
      if cps_build_status st = ''Building'' then []
      else if filtersChanged then
        (if \<not> isProjectReady cp then []
         else if \<not> areFiltersReady cp then [] else ''filters-changed'')
      else if cp_filters (cp_spec cp) \<noteq> [] \<and> areFiltersReady cp \<and>
              cps_last_build_started_at st = None \<and> isProjectReady cp then
        (if \<not> areEnvironmentsReady w cp then [] else ''initial-filters'')
      else if bp_auto_build_sources b \<and> fingerprintSources w sources \<noteq> cps_last_build_fingerprint st
      then ''source-content-changed''
      else if bp_schedule b \<noteq> [] \<and>
              (case nextCronDeadline w cp of None \<Rightarrow> False | Some next \<Rightarrow> cw_now_cron w > next)
      then ''cron''
      else [])"

section \<open>The pass\<close>

definition cp_create ::
  "('g, 'c, 's, 'e) cp_world \<Rightarrow> (('a) content_project_scheme, cp_call) pass \<Rightarrow>
   (('a) content_project_scheme, cp_call) cp_step" where
  "cp_create w s =
     (let sp = cp_spec (mem s);
          set_id = (\<lambda>i. cp_set_status (\<lambda>st. st\<lparr>cps_uyuni_id := i\<rparr>)) in
      case attempt (cw_out w) (Call (CreateProject (cp_label sp) (cp_name sp) (cp_description sp))) s of
        (None, s1) \<Rightarrow> Inr (set_id (pd_id (cw_created_project w)) s1)
      | (Some err, s1) \<Rightarrow>
          if \<not> str_contains (err_text err) ''already exists''
          then Inl (cp_fail w ''CreateProjectFailed'' err s1)
          else (case cw_lookup w of
              Inl e \<Rightarrow> Inl (cp_fail w ''LookupProjectFailed'' e s1)
            | Inr existing \<Rightarrow>
                (case cw_projects_ns w of
                   Inl e \<Rightarrow> Inl (result_done, Some e, s1)
                 | Inr items \<Rightarrow>
                     (case find (\<lambda>other. obj_name other \<noteq> obj_name (mem s) \<and>
                              cp_label (cp_spec other) = cp_label sp \<and>
                              cps_observed_generation (cp_status other) > 0) items of
                        Some other \<Rightarrow>
                          let s2 = cp_set_status (cp_ready w (obj_generation (mem s1)) False ''ProjectLabelConflict''
                                (''content project '' @ go_quote (cp_label sp) @ '' is already managed by ContentProject CR ''
                                 @ go_quote (obj_name other) @ ''; rename this project or delete the existing one first'')) s1
                          in Inl (result_after (5 * minute), None, snd (write_status (cw_out w) project_kind s2))
                      | None \<Rightarrow> Inr (set_id (pd_id existing) s1)))))"

definition cp_build_step ::
  "('g, 'c, 's, 'e) cp_world \<Rightarrow> string list \<Rightarrow> bool \<Rightarrow> (('a) content_project_scheme, cp_call) pass \<Rightarrow>
   (('a) content_project_scheme, cp_call) cp_step" where
  "cp_build_step w sources filtersChanged s =
     (let reason = shouldBuild w (mem s) sources filtersChanged; sp = cp_spec (mem s) in
      if reason = [] then Inr s
      else
        let msg = (if bp_message (cp_build sp) = []
                   then ''automated build by uyuni-operator: '' @ reason else bp_message (cp_build sp))
        in case attempt (cw_out w) (Call (BuildProject (cp_label sp) msg)) s of
             (Some err, s1) \<Rightarrow>
               if str_contains (err_text err) ''no environments'' then Inr s1
               else Inl (cp_fail w ''BuildFailed'' err s1)
           | (None, s1) \<Rightarrow> Inr (cp_set_status (\<lambda>st. st\<lparr>
               cps_last_build_started_at := Some (cw_now_build w), cps_build_status := ''Building'',
               cps_last_build_fingerprint := fingerprintSources w sources\<rparr>) s1))"

definition round_second :: "int \<Rightarrow> int" where
  "round_second d = (if d < 0 then - (((- d + second div 2) div second) * second)
     else ((d + second div 2) div second) * second)"

definition cp_finish ::
  "('g, 'c, 's, 'e) cp_world \<Rightarrow> string list \<Rightarrow> (('a) content_project_scheme, cp_call) pass \<Rightarrow>
   (('a) content_project_scheme, cp_call) outcome" where
  "cp_finish w missing s =
     (let gen = obj_generation (mem s);
          s1 = cp_set_status (\<lambda>st.
            (if missing \<noteq> []
             then cp_ready w gen False ''PartialSources''
               (itoa (int (length missing)) @ '' source(s) not ready: '' @ show_slice missing)
             else cp_ready w gen True ''Reconciled'' [])
            (st\<lparr>cps_observed_generation := gen\<rparr>)) s
      in case write_status (cw_out w) project_kind s1 of
           (Some err, s2) \<Rightarrow>
             if str_contains (err_text err) ''has been modified'' then (result_requeue, None, s2)
             else (result_done, Some err, s2)
         | (None, s2) \<Rightarrow>
             if cps_build_status (cp_status (mem s2)) = ''Building''
             then (result_after (30 * second), None, s2)
             else case nextCronDeadline w (mem s2) of
               Some next \<Rightarrow> (result_after (round_second (next - cw_wall w)), None, s2)
             | None \<Rightarrow> (result_after (5 * minute), None, s2))"

text \<open>Steps 3 to 7; \<^verbatim>\<open>reconcileEnvironments\<close> does nothing.\<close>

definition cp_converge ::
  "('g, 'c, 's, 'e) cp_world \<Rightarrow> string list \<Rightarrow> string list \<Rightarrow> (('a) content_project_scheme, cp_call) pass \<Rightarrow>
   (('a) content_project_scheme, cp_call) outcome" where
  "cp_converge w desired missing s =
     (case reconcileSources w desired s of
        (Some err, s1) \<Rightarrow> cp_fail w ''SourceReconcileFailed'' err s1
      | (None, s1) \<Rightarrow>
          (case reconcileFilters w (cp_set_status (\<lambda>st. st\<lparr>cps_attached_sources := desired\<rparr>) s1) of
             (Inl err, s2) \<Rightarrow> cp_fail w ''FilterReconcileFailed'' err s2
           | (Inr filtersChanged, s2) \<Rightarrow>
               (case cp_build_step w desired filtersChanged
                       (refreshEnvironmentStates w (cleanupOrphanedFilters w s2)) of
                  Inl r \<Rightarrow> r
                | Inr s3 \<Rightarrow> cp_finish w missing s3)))"

subsection \<open>Deletion\<close>

definition activePromotions :: "('a) content_project_scheme \<Rightarrow> promotion list \<Rightarrow> nat" where
  "activePromotions cp ps = length (filter (\<lambda>p. lor_name (pr_project_ref (pr_spec p)) = obj_name cp \<and>
     prs_phase (pr_status p) \<in> {[], ''Pending'', ''Running''}) ps)"

definition pendingOwnedDependents ::
  "('a) content_project_scheme \<Rightarrow> activation_key list \<Rightarrow> uyuni_system list \<Rightarrow> nat" where
  "pendingOwnedDependents cp aks syss =
     length (filter (\<lambda>a. isOwnedBy a cp) aks) + length (filter (\<lambda>s. isOwnedBy s cp) syss)"

definition cp_drop_finalizer ::
  "('g, 'c, 's, 'e) cp_world \<Rightarrow> (('a) content_project_scheme, cp_call) pass \<Rightarrow>
   (('a) content_project_scheme, cp_call) outcome" where
  "cp_drop_finalizer w s =
     (case write_object (cw_out w) project_kind (s\<lparr>mem := removeFinalizer (mem s) cpFinalizer\<rparr>) of
        (e, s1) \<Rightarrow> (result_done, e, s1))"

definition cp_wait ::
  "('g, 'c, 's, 'e) cp_world \<Rightarrow> string \<Rightarrow> string \<Rightarrow> int \<Rightarrow> (('a) content_project_scheme, cp_call) pass \<Rightarrow>
   (('a) content_project_scheme, cp_call) outcome" where
  "cp_wait w reason msg after s =
     (let s1 = cp_set_status (cp_ready w (obj_generation (mem s)) False reason msg) s
      in (result_after after, None, snd (write_status (cw_out w) project_kind s1)))"

fun remove_ids :: "answers \<Rightarrow> int list \<Rightarrow> ('o, cp_call) pass \<Rightarrow> ('o, cp_call) pass" where
  "remove_ids out [] s = s"
| "remove_ids out (i # ids) s = remove_ids out ids (snd (attempt out (Call (RemoveFilter i)) s))"

definition cp_clean_up ::
  "('g, 'c, 's, 'e) cp_world \<Rightarrow> (('a) content_project_scheme, cp_call) pass \<Rightarrow>
   (('a) content_project_scheme, cp_call) outcome" where
  "cp_clean_up w s =
     (case cw_client w of
        Some err \<Rightarrow> (result_done, Some err, s)
      | None \<Rightarrow>
          (case attempt (cw_out w) (Call (RemoveProject (cp_label (cp_spec (mem s))))) s of
             (e, s1) \<Rightarrow>
               if e \<noteq> None \<and> \<not> is_uyuni_not_found (the e) then (result_done, e, s1)
               else cp_drop_finalizer w
                 (remove_ids (cw_out w) (map snd (cps_filter_ids (cp_status (mem s1)))) s1)))"

definition cp_handleDeletion ::
  "('g, 'c, 's, 'e) cp_world \<Rightarrow> (('a) content_project_scheme, cp_call) pass \<Rightarrow>
   (('a) content_project_scheme, cp_call) outcome" where
  "cp_handleDeletion w s =
     (if \<not> containsFinalizer (mem s) cpFinalizer then (result_done, None, s)
      else if has_annotation (mem s) AnnForceDelete then cp_drop_finalizer w s
      else case cw_promotions w of
        Inl e \<Rightarrow> (result_done, Some e, s)
      | Inr ps \<Rightarrow>
          if activePromotions (mem s) ps > 0
          then cp_wait w ''PromotionInFlight'' (''waiting for '' @ itoa (int (activePromotions (mem s) ps))
                 @ '' active promotion(s)'') (30 * second) s
          else case (cw_keys w, cw_systems w) of
            (Inl e, _) \<Rightarrow> (result_done, Some e, s)
          | (Inr _, Inl e) \<Rightarrow> (result_done, Some e, s)
          | (Inr aks, Inr syss) \<Rightarrow>
              if pendingOwnedDependents (mem s) aks syss > 0
              then cp_wait w ''WaitingForDependents'' (''Kubernetes garbage collector is reclaiming ''
                     @ itoa (int (pendingOwnedDependents (mem s) aks syss)) @ '' owned resource(s)'')
                     (10 * second) s
              else cp_clean_up w s)"

definition cp_Reconcile ::
  "('g, 'c, 's, 'e) cp_world \<Rightarrow> ('a) content_project_scheme \<Rightarrow>
   (('a) content_project_scheme, cp_call) outcome" where
  "cp_Reconcile w cp =
     (let s = start_pass cp in
      if obj_deleting cp then cp_handleDeletion w s
      else case cw_client w of
        Some err \<Rightarrow> cp_fail w ''OrganizationError'' err s
      | None \<Rightarrow>
          (case ensureFinalizer cp cpFinalizer of
             (True, cp') \<Rightarrow> (case write_object (cw_out w) project_kind (s\<lparr>mem := cp'\<rparr>) of
                 (e, s1) \<Rightarrow> (result_requeue, e, s1))
           | (False, _) \<Rightarrow>
               (case own_organization (cw_out w) project_kind (cw_get_org w)
                       (orgRef (cp_organization_ref (cp_spec cp))) s of
                  (Some e, s1) \<Rightarrow> (result_done, Some e, s1)
                | (None, s1) \<Rightarrow>
                    (case resolveSources (cw_get_channel w) (mem s1) of
                       Inl e \<Rightarrow> (result_done, Some e, s1)
                     | Inr (desired, missing) \<Rightarrow>
                         (case cp_create w s1 of
                            Inl r \<Rightarrow> r
                          | Inr s2 \<Rightarrow> cp_converge w desired missing s2)))))"

section \<open>Helpers around the pass\<close>

definition deriveChannelLabels :: "string \<Rightarrow> string \<Rightarrow> string list \<Rightarrow> string list" where
  "deriveChannelLabels projectLabel envLabel sourceLabels =
     map (\<lambda>s. projectLabel @ ''-'' @ envLabel @ ''-'' @ s) sourceLabels"

text \<open>Which projects a changed object enqueues; requests are (namespace, name) pairs.\<close>

definition projectsForChannel ::
  "('c) content_project_scheme k8s_list \<Rightarrow> ('o) k8s_object_scheme \<Rightarrow> (string \<times> string) list" where
  "projectsForChannel listCP obj =
     (case listCP (obj_namespace obj) of
        Inl _ \<Rightarrow> []
      | Inr items \<Rightarrow> map (\<lambda>cp. (obj_namespace cp, obj_name cp))
          (filter (\<lambda>cp. list_ex (\<lambda>r. lor_name r = obj_name obj) (cp_source_refs (cp_spec cp))) items))"

definition projectsForPromotion :: "('p) promotion_scheme \<Rightarrow> (string \<times> string) list" where
  "projectsForPromotion p = [(obj_namespace p, lor_name (pr_project_ref (pr_spec p)))]"

definition projectsForRepository ::
  "('c) content_project_scheme k8s_list \<Rightarrow> ('o) k8s_object_scheme \<Rightarrow> (string \<times> string) list" where
  "projectsForRepository listCP obj =
     (case listCP (obj_namespace obj) of
        Inl _ \<Rightarrow> [] | Inr items \<Rightarrow> map (\<lambda>cp. (obj_namespace cp, obj_name cp)) items)"

definition projectsForEnvironment :: "('e) clm_environment_scheme \<Rightarrow> (string \<times> string) list" where
  "projectsForEnvironment e = [(obj_namespace e, lor_name (env_project_ref (env_spec e)))]"

interpretation project_status_field: status_field project_kind
  by unfold_locales (simp_all add: project_kind_def k8s_object.defs)

lemma project_kind_simps [simp]:
  "status_of project_kind p = cp_status p"
  "with_status project_kind st = (\<lambda>p. p\<lparr>cp_status := st\<rparr>)"
  by (simp_all add: project_kind_def)

lemma cp_set_status_simps [simp]:
  "mem (cp_set_status f s) = (mem s)\<lparr>cp_status := f (cp_status (mem s))\<rparr>"
  "stored (cp_set_status f s) = stored s" "trace (cp_set_status f s) = trace s"
  by (simp_all add: cp_set_status_def)

section \<open>Sources converge\<close>

text \<open>What the successful calls of a trace do to the sources Uyuni has attached to a project.\<close>

fun source_effect :: "string \<Rightarrow> (cp_call event \<times> bool) list \<Rightarrow> string set \<Rightarrow> string set" where
  "source_effect proj [] S = S"
| "source_effect proj ((Call (AttachSourceWithPosition p l n), True) # t) S =
     source_effect proj t (if p = proj then insert l S else S)"
| "source_effect proj ((Call (DetachSource p l), True) # t) S =
     source_effect proj t (if p = proj then S - {l} else S)"
| "source_effect proj (_ # t) S = source_effect proj t S"

lemma source_effect_append [simp]:
  "source_effect proj (t @ u) S = source_effect proj u (source_effect proj t S)"
  by (induction proj t S rule: source_effect.induct) auto

lemma source_effect_failed [simp]: "source_effect proj ((c, False) # t) S = source_effect proj t S"
proof (cases c)
  case (Call x)
  then show ?thesis by (cases x) auto
qed auto

lemma attach_loop_effect:
  "attach_loop out proj current n labels s = (r, s') \<Longrightarrow>
     mem s' = mem s \<and> stored s' = stored s \<and>
     (\<exists>t. trace s' = trace s @ t \<and>
       (\<forall>S. S \<subseteq> source_effect proj t S \<and>
            source_effect proj t S \<subseteq> S \<union> (set labels - set current) \<and>
            (r = None \<longrightarrow> source_effect proj t S = S \<union> (set labels - set current))))"
proof (induction labels arbitrary: n s)
  case Nil
  then show ?case by auto
next
  case (Cons l labels)
  show ?case
  proof (cases "l \<in> set current")
    case True
    with Cons.prems have "attach_loop out proj current (Suc n) labels s = (r, s')" by simp
    from Cons.IH [OF this] True show ?thesis by auto
  next
    case False
    let ?ev = "Call (AttachSourceWithPosition proj l n)"
    show ?thesis
    proof (cases "out (length (trace s))")
      case (Some e)
      with Cons.prems False show ?thesis
        by (auto simp: attempt_def Let_def intro!: exI [of _ "[(?ev, False)]"])
    next
      case None
      with Cons.prems False have
        "attach_loop out proj current (Suc n) labels (s\<lparr>trace := trace s @ [(?ev, True)]\<rparr>) = (r, s')"
        by (simp add: attempt_def Let_def)
      from Cons.IH [OF this] obtain t where t: "trace s' = trace s @ (?ev, True) # t"
        "mem s' = mem s" "stored s' = stored s"
        "\<And>S. S \<subseteq> source_effect proj t S" "\<And>S. source_effect proj t S \<subseteq> S \<union> (set labels - set current)"
        "\<And>S. r = None \<longrightarrow> source_effect proj t S = S \<union> (set labels - set current)" by auto
      have "S \<subseteq> source_effect proj t (insert l S)"
        "source_effect proj t (insert l S) \<subseteq> S \<union> (set (l # labels) - set current)"
        "r = None \<longrightarrow> source_effect proj t (insert l S) = S \<union> (set (l # labels) - set current)" for S
        using t(4-6) [of "insert l S"] False by auto
      then show ?thesis
        using t(1-3) by (intro conjI exI [of _ "(?ev, True) # t"]) simp_all
    qed
  qed
qed

lemma detach_loop_effect:
  "detach_loop out proj desired labels s = (r, s') \<Longrightarrow>
     mem s' = mem s \<and> stored s' = stored s \<and>
     (\<exists>t. trace s' = trace s @ t \<and>
       (\<forall>S. source_effect proj t S \<subseteq> S \<and> S - (set labels - insert [] (set desired)) \<subseteq> source_effect proj t S \<and>
            (r = None \<longrightarrow> source_effect proj t S = S - (set labels - insert [] (set desired)))))"
proof (induction labels arbitrary: s)
  case Nil
  then show ?case by auto
next
  case (Cons l labels)
  show ?case
  proof (cases "l = [] \<or> l \<in> set desired")
    case True
    with Cons.prems have "detach_loop out proj desired labels s = (r, s')" by auto
    from Cons.IH [OF this] True show ?thesis by (auto simp: insert_Diff_if)
  next
    case False
    let ?ev = "Call (DetachSource proj l)"
    show ?thesis
    proof (cases "out (length (trace s))")
      case (Some e)
      with Cons.prems False show ?thesis
        by (auto simp: attempt_def Let_def intro!: exI [of _ "[(?ev, False)]"])
    next
      case None
      with Cons.prems False have
        "detach_loop out proj desired labels (s\<lparr>trace := trace s @ [(?ev, True)]\<rparr>) = (r, s')"
        by (simp add: attempt_def Let_def)
      from Cons.IH [OF this] obtain t where t: "trace s' = trace s @ (?ev, True) # t"
        "mem s' = mem s" "stored s' = stored s"
        "\<And>S. source_effect proj t S \<subseteq> S"
        "\<And>S. S - (set labels - insert [] (set desired)) \<subseteq> source_effect proj t S"
        "\<And>S. r = None \<longrightarrow> source_effect proj t S = S - (set labels - insert [] (set desired))" by auto
      have "source_effect proj t (S - {l}) \<subseteq> S"
        "S - (set (l # labels) - insert [] (set desired)) \<subseteq> source_effect proj t (S - {l})"
        "r = None \<longrightarrow> source_effect proj t (S - {l}) = S - (set (l # labels) - insert [] (set desired))" for S
        using t(4-6) [of "S - {l}"] False by auto
      then show ?thesis
        using t(1-3) by (intro conjI exI [of _ "(?ev, True) # t"]) simp_all
    qed
  qed
qed

text \<open>
  From any state of the server between the wanted and the listed sources, a pass keeps what is
  wanted and listed, adds nothing that is not wanted, and when no call fails leaves exactly the
  wanted sources (an empty label, which the code never detaches, aside).
\<close>

lemma reconcileSources_effect:
  assumes "reconcileSources w desired s = (r, s')" "cw_sources w = Inr sources"
    and "S = set (map psrc_channel_label sources)" and "proj = cp_label (cp_spec (mem s))"
  shows "\<exists>t. trace s' = trace s @ t \<and> mem s' = mem s \<and>
    S \<inter> set desired \<subseteq> source_effect proj t S \<and> source_effect proj t S \<subseteq> S \<union> set desired \<and>
    (r = None \<longrightarrow> source_effect proj t S - {[]} = set desired - {[]})"
proof -
  let ?cur = "map psrc_channel_label sources"
  obtain r1 s1 where a: "attach_loop (cw_out w) proj ?cur 0 desired s = (r1, s1)" by fastforce
  from attach_loop_effect [OF a] obtain t1 where ts1: "trace s1 = trace s @ t1" "mem s1 = mem s"
    and all1: "\<forall>S. S \<subseteq> source_effect proj t1 S \<and>
      source_effect proj t1 S \<subseteq> S \<union> (set desired - set ?cur) \<and>
      (r1 = None \<longrightarrow> source_effect proj t1 S = S \<union> (set desired - set ?cur))" by (elim conjE exE)
  note t1 = ts1 all1 [rule_format, of S, THEN conjunct1]
    all1 [rule_format, of S, THEN conjunct2, THEN conjunct1]
    all1 [rule_format, of S, THEN conjunct2, THEN conjunct2]
  show ?thesis
  proof (cases r1)
    case (Some e)
    with assms a have "s' = s1" "r = Some e" by (simp_all add: reconcileSources_def Let_def)
    with t1 show ?thesis by auto
  next
    case None
    with assms a have d: "detach_loop (cw_out w) proj desired (remdups ?cur) s1 = (r, s')"
      by (simp add: reconcileSources_def Let_def)
    let ?S1 = "source_effect proj t1 S"
    from detach_loop_effect [OF d] obtain t2 where ts2: "trace s' = trace s1 @ t2" "mem s' = mem s1"
      and all2: "\<forall>S. source_effect proj t2 S \<subseteq> S \<and>
        S - (set (remdups ?cur) - insert [] (set desired)) \<subseteq> source_effect proj t2 S \<and>
        (r = None \<longrightarrow> source_effect proj t2 S = S - (set (remdups ?cur) - insert [] (set desired)))"
      by (elim conjE exE)
    note t2 = ts2 all2 [rule_format, of ?S1, THEN conjunct1]
      all2 [rule_format, of ?S1, THEN conjunct2, THEN conjunct1]
      all2 [rule_format, of ?S1, THEN conjunct2, THEN conjunct2]
    have S1: "?S1 = S \<union> set desired" using t1(5) None assms(3) by auto
    have cur: "set (remdups ?cur) = S" using assms(3) by simp
    have "S \<inter> set desired \<subseteq> source_effect proj t2 ?S1" using t2(4) unfolding S1 cur by blast
    moreover have "source_effect proj t2 ?S1 \<subseteq> S \<union> set desired" using t2(3) unfolding S1 .
    moreover have "r = None \<longrightarrow> source_effect proj t2 ?S1 - {[]} = set desired - {[]}"
      using t2(5) unfolding S1 cur by blast
    ultimately show ?thesis
      using t1(1,2) t2(1,2) by (intro exI [of _ "t1 @ t2"]) simp
  qed
qed

section \<open>The source fingerprint\<close>

definition nul :: char where
  "nul = CHR 0x00"

lemma fingerprint_input_nul: "fingerprint_input labels = concat (map (\<lambda>l. l @ [nul]) (sort labels))"
  by (simp add: fingerprint_input_def nul_def)

lemma split_terminated:
  "\<forall>l \<in> set ls. nul \<notin> set l \<Longrightarrow> split_on nul (concat (map (\<lambda>l. l @ [nul]) ls)) = ls @ [[]]"
proof (induction ls)
  case Nil
  show ?case by simp
next
  case (Cons l ls)
  then have "split_on nul (l @ nul # concat (map (\<lambda>l. l @ [nul]) ls)) =
      l # split_on nul (concat (map (\<lambda>l. l @ [nul]) ls))"
    by (intro split_on_append_sep) simp
  with Cons show ?case by simp
qed

text \<open>The hashed text forgets the order of the labels and nothing else.\<close>

lemma fingerprint_input_eq_iff:
  assumes "\<forall>l \<in> set xs \<union> set ys. nul \<notin> set l"
  shows "fingerprint_input xs = fingerprint_input ys \<longleftrightarrow> mset xs = mset ys"
proof
  assume "fingerprint_input xs = fingerprint_input ys"
  then have "split_on nul (fingerprint_input xs) = split_on nul (fingerprint_input ys)" by simp
  moreover have "split_on nul (fingerprint_input xs) = sort xs @ [[]]"
    "split_on nul (fingerprint_input ys) = sort ys @ [[]]"
    using assms by (simp_all add: fingerprint_input_nul split_terminated)
  ultimately have "sort xs = sort ys" by simp
  then show "mset xs = mset ys" by (metis mset_sort)
next
  assume "mset xs = mset ys"
  then have "sort xs = sort ys" by (metis mset_sort properties_for_sort sorted_sort)
  then show "fingerprint_input xs = fingerprint_input ys" by (simp add: fingerprint_input_nul)
qed

section \<open>Environment states carry no build\<close>

definition unbuilt :: "content_project_status \<Rightarrow> bool" where
  "unbuilt st = (\<forall>e \<in> set (cps_environment_states st). es_built_version e = 0 \<and> es_derived_channels e = [])"

definition flat :: "(('a) content_project_scheme, cp_call) pass \<Rightarrow> bool" where
  "flat s = (unbuilt (cp_status (mem s)) \<and>
     (case stored s of None \<Rightarrow> True | Some q \<Rightarrow> unbuilt (cp_status q)))"

lemma flat_basic [simp]:
  "flat s \<Longrightarrow> flat (snd (write_status out project_kind s))"
  "flat s \<Longrightarrow> flat (snd (write_object out project_kind s))"
  "flat s \<Longrightarrow> flat (snd (attempt out ev s))"
  by (auto simp: flat_def collected_def split: option.splits bind_splits)

lemma flat_set_status [simp]:
  "flat s \<Longrightarrow> unbuilt (f (cp_status (mem s))) \<Longrightarrow> flat (cp_set_status f s)"
  by (simp add: flat_def split: option.splits)

lemma flatD [simp]: "flat s \<Longrightarrow> unbuilt (cp_status (mem s))"
  by (simp add: flat_def)

lemma unbuilt_simps [simp]:
  "unbuilt (cp_ready w g ok r m st) = unbuilt st"
  "unbuilt (st\<lparr>cps_filter_ids := x\<rparr>) = unbuilt st"
  "unbuilt (st\<lparr>cps_uyuni_id := i\<rparr>) = unbuilt st"
  "unbuilt (st\<lparr>cps_attached_sources := y\<rparr>) = unbuilt st"
  "unbuilt (st\<lparr>cps_observed_generation := i\<rparr>) = unbuilt st"
  "unbuilt (st\<lparr>cps_last_build_started_at := t, cps_build_status := b, cps_last_build_fingerprint := z\<rparr>) = unbuilt st"
  by (simp_all add: unbuilt_def cp_ready_def)

lemma flat_trace [simp]: "flat (s\<lparr>trace := t\<rparr>) = flat s"
  by (simp add: flat_def)

lemma cp_fail_flat [simp]: "flat s \<Longrightarrow> flat (snd (snd (cp_fail w r e s)))"
  by (simp add: cp_fail_def Let_def split_beta del: write_status_simps)

lemma attach_loop_flat [simp]: "flat s \<Longrightarrow> flat (snd (attach_loop out p cur n ls s))"
proof (induction ls arbitrary: n s)
  case (Cons l ls)
  then show ?case
    by (cases "out (length (trace s))")
      (simp_all add: attempt_def Let_def)
qed simp

lemma detach_loop_flat [simp]: "flat s \<Longrightarrow> flat (snd (detach_loop out p des ls s))"
proof (induction ls arbitrary: s)
  case (Cons l ls)
  then show ?case
    by (cases "out (length (trace s))")
      (simp_all add: attempt_def Let_def)
qed simp

lemma put_filter_id_flat [simp]: "flat s \<Longrightarrow> flat (put_filter_id n i s)"
  by (simp add: put_filter_id_def)

lemma remove_filter_flat [simp]: "flat s \<Longrightarrow> flat (remove_filter w n i s)"
  by (cases "cw_out w (length (trace s))")
    (simp_all add: remove_filter_def attempt_def Let_def)

lemma untrack_loop_flat [simp]: "flat s \<Longrightarrow> flat (snd (untrack_loop w des ids ch s))"
proof (induction ids arbitrary: ch s)
  case (Cons e ids)
  obtain n i where e: "e = (n, i)" by (cases e)
  from Cons show ?case
    by (cases "cw_out w (length (trace s))")
      (simp_all add: e attempt_def Let_def)
qed simp

lemma filters_loop_flat [simp]: "flat s \<Longrightarrow> flat (snd (filters_loop w byName fs ch s))"
proof (induction fs arbitrary: ch s)
  case (Cons f fs)
  show ?case
  proof (cases "byName (pf_name f)")
    case (Some ex)
    with Cons show ?thesis
      by (cases "cw_out w (length (trace s))")
        (simp_all add: attempt_def Let_def)
  next
    case None
    show ?thesis
      using None Cons
      by (cases "cw_out w (length (trace s))"; cases "cw_out w (Suc (length (trace s)))")
        (simp_all add: attempt_def Let_def)
  qed
qed simp

lemma remove_orphans_flat [simp]: "flat s \<Longrightarrow> flat (remove_orphans out u fs s)"
  by (induction fs arbitrary: s) simp_all

lemma remove_ids_flat [simp]: "flat s \<Longrightarrow> flat (remove_ids out ids s)"
  by (induction ids arbitrary: s) simp_all

lemma cleanup_flat [simp]: "flat s \<Longrightarrow> flat (cleanupOrphanedFilters w s)"
  by (simp add: cleanupOrphanedFilters_def split: sum.split)

lemma refresh_flat [simp]: "flat s \<Longrightarrow> flat (refreshEnvironmentStates w s)"
  unfolding refreshEnvironmentStates_def
  by (rule flat_set_status) (auto simp: unbuilt_def fresh_state_def split: sum.split)

definition flat_step :: "(('a) content_project_scheme, cp_call) cp_step \<Rightarrow> bool" where
  "flat_step r = (case r of Inl (_, _, s) \<Rightarrow> flat s | Inr s \<Rightarrow> flat s)"

lemma flat_step_simps [simp]:
  "flat_step (Inr s) = flat s" "flat_step (Inl r) = flat (snd (snd r))"
  by (simp_all add: flat_step_def split_beta)

lemma cp_create_flat: "flat s \<Longrightarrow> flat_step (cp_create w s)"
  by (cases "cw_out w (length (trace s))")
    (simp_all add: cp_create_def attempt_def Let_def del: write_status_simps split: sum.split option.split)

lemma cp_build_step_flat: "flat s \<Longrightarrow> flat_step (cp_build_step w src ch s)"
  by (cases "cw_out w (length (trace s))")
    (simp_all add: cp_build_step_def attempt_def Let_def del: write_status_simps)

lemma cp_finish_flat:
  assumes "flat s"
  shows "flat (snd (snd (cp_finish w missing s)))"
proof -
  have "flat (snd (write_status (cw_out w) project_kind (cp_set_status (\<lambda>st.
            (if missing \<noteq> [] then cp_ready w g False ''PartialSources'' m else cp_ready w g True ''Reconciled'' [])
            (st\<lparr>cps_observed_generation := g\<rparr>)) s)))" for g m
    using assms by (intro flat_basic(1) flat_set_status) simp_all
  from this [of "obj_generation (mem s)"] show ?thesis
    by (cases "missing = []")
      (simp_all add: cp_finish_def Let_def split_beta del: write_status_simps split: option.split)
qed

lemma reconcileSources_flat: "flat s \<Longrightarrow> flat (snd (reconcileSources w des s))"
  by (simp add: reconcileSources_def Let_def split_beta split: sum.split option.split)

lemma reconcileFilters_flat: "flat s \<Longrightarrow> flat (snd (reconcileFilters w s))"
  by (simp add: reconcileFilters_def Let_def split_beta split: sum.split)

lemma cp_converge_flat:
  assumes "flat s"
  shows "flat (snd (snd (cp_converge w des missing s)))"
proof -
  let ?s1 = "snd (reconcileSources w des s)"
  let ?s2 = "snd (reconcileFilters w (cp_set_status (\<lambda>st. st\<lparr>cps_attached_sources := des\<rparr>) ?s1))"
  have 1: "flat ?s1" using assms by (rule reconcileSources_flat)
  then have 2: "flat ?s2" by (intro reconcileFilters_flat flat_set_status) simp_all
  have 3: "flat_step (cp_build_step w des ch (refreshEnvironmentStates w (cleanupOrphanedFilters w ?s2)))" for ch
    using 2 by (intro cp_build_step_flat) simp
  show ?thesis
  proof (cases "fst (reconcileSources w des s)")
    case (Some e)
    then show ?thesis using 1 by (simp add: cp_converge_def split_beta)
  next
    case None
    show ?thesis
    proof (cases "fst (reconcileFilters w (cp_set_status (\<lambda>st. st\<lparr>cps_attached_sources := des\<rparr>) ?s1))")
      case (Inl e)
      then show ?thesis using 2 None by (simp add: cp_converge_def split_beta)
    next
      case (Inr ch)
      then show ?thesis using 3 [of ch] None
        by (cases "cp_build_step w des ch (refreshEnvironmentStates w (cleanupOrphanedFilters w ?s2))")
          (simp_all add: cp_converge_def split_beta cp_finish_flat)
    qed
  qed
qed

lemma own_organization_project:
  assumes "own_organization out project_kind getOrg n (start_pass t) = (r, s)"
  shows "cp_status (mem s) = cp_status t" "cp_spec (mem s) = cp_spec t"
    "obj_namespace (mem s) = obj_namespace t" "obj_name (mem s) = obj_name t"
    "\<And>q. stored s = Some q \<Longrightarrow> cp_status q = cp_status t"
    "trace s = [] \<or> (\<exists>b. trace s = [(WriteObject, b)])"
  using assms
  by (auto simp: own_organization_def write_object_def attempt_def collected_def Let_def
      split: option.splits prod.splits if_splits)

lemma cp_drop_finalizer_flat: "flat s \<Longrightarrow> flat (snd (snd (cp_drop_finalizer w s)))"
proof -
  assume "flat s"
  then have "flat (s\<lparr>mem := removeFinalizer (mem s) cpFinalizer\<rparr>)"
    by (simp add: flat_def removeFinalizer_def split: option.splits)
  then show ?thesis by (simp add: cp_drop_finalizer_def split_beta del: write_object_simps)
qed

lemma cp_handleDeletion_flat: "flat s \<Longrightarrow> flat (snd (snd (cp_handleDeletion w s)))"
proof -
  assume f: "flat s"
  have wait: "flat (snd (snd (cp_wait w r m a s)))" for r m a
    using f by (simp add: cp_wait_def Let_def del: write_status_simps)
  have clean: "flat (snd (snd (cp_clean_up w s)))"
    using f by (cases "cw_out w (length (trace s))")
      (simp_all add: cp_clean_up_def attempt_def Let_def cp_drop_finalizer_flat split: option.split)
  show ?thesis
    using f wait clean
    by (simp add: cp_handleDeletion_def cp_drop_finalizer_flat split: sum.split)
qed

lemma cp_Reconcile_flat:
  fixes cp :: "('a) content_project_scheme"
  assumes "unbuilt (cp_status cp)"
  shows "flat (snd (snd (cp_Reconcile w cp)))"
proof -
  have f0: "flat (start_pass cp)" using assms by (simp add: flat_def)
  have "flat ((start_pass cp)\<lparr>mem := snd (ensureFinalizer cp cpFinalizer)\<rparr>)"
    using assms by (simp add: flat_def ensureFinalizer_def)
  then have fe: "flat (snd (write_object (cw_out w) project_kind
      ((start_pass cp)\<lparr>mem := snd (ensureFinalizer cp cpFinalizer)\<rparr>)))" by simp
  obtain r and s :: "('a content_project_scheme, cp_call) pass" where own:
    "own_organization (cw_out w) project_kind (cw_get_org w)
      (orgRef (cp_organization_ref (cp_spec cp))) (start_pass cp) = (r, s)" by fastforce
  note o' = own_organization_project [OF own]
  have f1: "flat s" using assms o'(1,5) by (auto simp: flat_def split: option.splits)
  have c: "flat (snd (snd (case cp_create w s of Inl r \<Rightarrow> r | Inr s2 \<Rightarrow> cp_converge w des missing s2)))"
    for des missing
    using cp_create_flat [OF f1, of w] by (cases "cp_create w s") (simp_all add: cp_converge_flat)
  show ?thesis
    using f0 f1 fe c cp_handleDeletion_flat [OF f0, of w]
    by (simp add: cp_Reconcile_def Let_def own split_beta del: write_object_simps
        split: option.split sum.split bool.split)
qed

section \<open>Deletion\<close>

lemma remove_ids_simps [simp]:
  "mem (remove_ids out ids s) = mem s" "stored (remove_ids out ids s) = stored s"
  "map fst (trace (remove_ids out ids s)) = map fst (trace s) @ map (\<lambda>i. Call (RemoveFilter i)) ids"
  by (induction ids arbitrary: s) simp_all

lemma remove_ids_hd: "trace s = x # t \<Longrightarrow> \<exists>t'. trace (remove_ids out ids s) = x # t'"
  by (induction ids arbitrary: s t) simp_all

lemma cp_deletion_guards:
  fixes cp :: "('a) content_project_scheme"
  assumes del: "obj_deleting cp" "\<not> has_annotation cp AnnForceDelete"
    and w: "(WriteObject, True) \<in> set (trace (snd (snd (cp_Reconcile w cp))))"
  shows "\<exists>ps aks syss t. cw_promotions w = Inr ps \<and> activePromotions cp ps = 0 \<and>
    cw_keys w = Inr aks \<and> cw_systems w = Inr syss \<and> pendingOwnedDependents cp aks syss = 0 \<and>
    trace (snd (snd (cp_Reconcile w cp))) =
      (Call (RemoveProject (cp_label (cp_spec cp))), cw_out w 0 = None) # t \<and>
    (case cw_out w 0 of None \<Rightarrow> True | Some e \<Rightarrow> is_uyuni_not_found e)"
proof -
  have eq: "cp_Reconcile w cp = cp_handleDeletion w (start_pass cp)"
    using del by (simp add: cp_Reconcile_def)
  have fin: "cpFinalizer \<in> set (obj_finalizers cp)"
    using w unfolding eq by (auto simp: cp_handleDeletion_def split: if_splits)
  obtain ps where ps: "cw_promotions w = Inr ps"
    using w fin del unfolding eq by (cases "cw_promotions w") (simp_all add: cp_handleDeletion_def)
  have act: "activePromotions cp ps = 0"
    using w fin del unfolding eq
    by (cases "activePromotions cp ps > 0") (simp_all add: cp_handleDeletion_def ps cp_wait_def Let_def)
  obtain aks where aks: "cw_keys w = Inr aks"
    using w fin del act unfolding eq by (cases "cw_keys w") (simp_all add: cp_handleDeletion_def ps)
  obtain syss where syss: "cw_systems w = Inr syss"
    using w fin del act unfolding eq by (cases "cw_systems w") (simp_all add: cp_handleDeletion_def ps aks)
  have pend: "pendingOwnedDependents cp aks syss = 0"
    using w fin del act unfolding eq
    by (cases "pendingOwnedDependents cp aks syss > 0")
      (simp_all add: cp_handleDeletion_def ps aks syss cp_wait_def Let_def)
  have cl: "cp_Reconcile w cp = cp_clean_up w (start_pass cp)"
    using fin del act pend unfolding eq by (simp add: cp_handleDeletion_def ps aks syss)
  have client: "cw_client w = None"
    using w unfolding cl by (cases "cw_client w") (simp_all add: cp_clean_up_def)
  let ?s1 = "snd (attempt (cw_out w) (Call (RemoveProject (cp_label (cp_spec cp)))) (start_pass cp))"
  have nf: "case cw_out w 0 of None \<Rightarrow> True | Some e \<Rightarrow> is_uyuni_not_found e"
    using w client unfolding cl
    by (cases "cw_out w 0") (auto simp: cp_clean_up_def split_beta split: if_splits)
  have "trace ?s1 = [(Call (RemoveProject (cp_label (cp_spec cp))), cw_out w 0 = None)]" by simp
  from remove_ids_hd [OF this, of "cw_out w" "map snd (cps_filter_ids (cp_status cp))"]
  have "\<exists>t. trace (snd (snd (cp_Reconcile w cp))) =
      (Call (RemoveProject (cp_label (cp_spec cp))), cw_out w 0 = None) # t"
    using client nf unfolding cl
    by (cases "cw_out w 0") (auto simp: cp_clean_up_def cp_drop_finalizer_def split_beta)
  with ps act aks syss pend nf show ?thesis by blast
qed

section \<open>A concrete project\<close>

definition demo_filter :: project_filter where
  "demo_filter = \<lparr>pf_name = ''f1'', pf_type = ''package'', pf_criteria =
     \<lparr>fc_field = ''name'', fc_matcher = ''contains'', fc_value = ''kernel''\<rparr>, pf_rule = ''deny''\<rparr>"

definition server_filter :: "int \<Rightarrow> string \<Rightarrow> filter_details" where
  "server_filter i rule = \<lparr>fd_id = i, fd_name = ''f1'', fd_entity_type = ''package'', fd_rule = rule,
     fd_criteria = criteria_wire demo_filter\<rparr>"

definition demo_cp :: "(string \<times> int) list \<Rightarrow> int option \<Rightarrow> content_project" where
  "demo_cp ids built = k8s_object.extend ((mk_object ''ns'' ''proj'')\<lparr>obj_finalizers := [cpFinalizer]\<rparr>)
     \<lparr>cp_spec = \<lparr>cp_label = ''lbl'', cp_name = ''proj'', cp_description = [], cp_source_refs = [],
        cp_channels = None, cp_environments = [], cp_filters = [demo_filter],
        cp_build = \<lparr>bp_auto_build_sources = False, bp_schedule = [], bp_message = []\<rparr>,
        cp_organization_ref = None\<rparr>,
      cp_status = \<lparr>cps_uyuni_id = 1, cps_attached_sources = [], cps_filter_ids = ids,
        cps_environment_states = [], cps_last_build_action_id = 0, cps_last_build_started_at = built,
        cps_last_build_fingerprint = [], cps_build_status = [], cps_observed_generation = 1,
        cps_conditions = []\<rparr>\<rparr>"

definition demo_clm_env :: clm_environment where
  "demo_clm_env = k8s_object.extend (mk_object ''ns'' ''e1'')
     \<lparr>env_spec = \<lparr>env_id = ''dev'', env_name = ''dev'', env_description = [],
        env_project_ref = \<lparr>lor_name = ''proj''\<rparr>, env_predecessor = [], env_cluster = None,
        env_organization_ref = None\<rparr>,
      env_status = \<lparr>envs_uyuni_label = ''dev'', envs_state = ''NEW'', envs_built_version = 0,
        envs_conditions = [], envs_observed_generation = 1\<rparr>\<rparr>"

definition cp_demo_world ::
  "filter_details list \<Rightarrow> filter_details list \<Rightarrow> content_project list \<Rightarrow> answers \<Rightarrow>
   (unit, unit, unit, unit) cp_world" where
  "cp_demo_world filters later projects out = \<lparr>cw_ssc = replace_cond, cw_now_build = 50,
     cw_now_cron = 50, cw_wall = 50, cw_client = None, cw_get_org = \<lambda>ns n. Inl (GoErr K8sNotFound []),
     cw_get_channel = \<lambda>ns n. Inl (GoErr K8sNotFound []),
     cw_created_project = \<lparr>pd_id = 1, pd_label = ''lbl'', pd_name = ''proj'', pd_description = []\<rparr>,
     cw_lookup = Inl (GoErr UyuniNotFound []), cw_projects_ns = Inr projects,
     cw_projects_all = Inr projects, cw_projects_filter = Inr projects, cw_sources = Inr [],
     cw_filters = Inr filters, cw_filters_later = Inr later, cw_created_id = \<lambda>n. 7,
     cw_envs = Inr [demo_clm_env], cw_envs_later = Inr [demo_clm_env], cw_cron = \<lambda>s. None,
     cw_hash = \<lambda>s. s, cw_promotions = Inr [], cw_keys = Inr [], cw_systems = Inr [], cw_out = out\<rparr>"

definition calls :: "('u event \<times> bool) list \<Rightarrow> 'u list" where
  "calls t = concat (map (\<lambda>(e, _). case e of Call c \<Rightarrow> [c] | _ \<Rightarrow> []) t)"

definition cp_calls :: "(unit, unit, unit, unit) cp_world \<Rightarrow> content_project \<Rightarrow> cp_call list" where
  "cp_calls w cp = calls (trace (snd (snd (cp_Reconcile w cp))))"

definition cp_after :: "(unit, unit, unit, unit) cp_world \<Rightarrow> content_project \<Rightarrow> content_project" where
  "cp_after w cp = (case stored (snd (snd (cp_Reconcile w cp))) of None \<Rightarrow> cp | Some q \<Rightarrow> q)"

definition cp_is_ready :: "content_project \<Rightarrow> bool" where
  "cp_is_ready cp = (case find_cond ''Ready'' (cps_conditions (cp_status cp)) of
     None \<Rightarrow> False | Some c \<Rightarrow> cond_status c)"

definition all_fine :: answers where
  "all_fine n = None"

definition build_fails :: answers where
  "build_fails n = (if n = 3 then Some (errorf ''timeout'') else None)"

section \<open>Properties\<close>

text \<open>
  C15.  Reconciling the sources converges: from the sources Uyuni lists, a pass never detaches a
  wanted source nor attaches one that is not wanted, and when no call fails exactly the wanted
  sources are attached afterwards.
\<close>

theorem sources_converge:
  assumes "reconcileSources w desired s = (r, s')" "cw_sources w = Inr sources"
  shows "\<exists>t. trace s' = trace s @ t \<and>
    (let proj = cp_label (cp_spec (mem s)); listed = set (map psrc_channel_label sources);
         after = source_effect proj t listed
     in listed \<inter> set desired \<subseteq> after \<and> after \<subseteq> listed \<union> set desired \<and>
        (r = None \<longrightarrow> after - {[]} = set desired - {[]}))"
  using reconcileSources_effect [OF assms refl refl] by (auto simp: Let_def)

definition listed_source :: "string \<Rightarrow> project_source" where
  "listed_source l = \<lparr>psrc_channel_id = 1, psrc_channel_label = l, psrc_state = ''ATTACHED''\<rparr>"

theorem sources_converge_witness:
  "\<exists>r s' t. reconcileSources ((cp_demo_world [] [] [] all_fine)\<lparr>cw_sources := Inr [listed_source ''a'']\<rparr>)
     [''b''] (start_pass (demo_cp [] None)) = (r, s') \<and> trace s' = t \<and>
     {''a''} \<inter> {''b''} \<subseteq> source_effect ''lbl'' t {''a''}"
proof -
  let ?w = "(cp_demo_world [] [] [] all_fine)\<lparr>cw_sources := Inr [listed_source ''a'']\<rparr>"
  obtain r s' where e: "reconcileSources ?w [''b''] (start_pass (demo_cp [] None)) = (r, s')" by fastforce
  have "cw_sources ?w = Inr [listed_source ''a'']" by simp
  from sources_converge [OF e this] have "{''a''} \<inter> {''b''} \<subseteq> source_effect ''lbl'' (trace s') {''a''}"
    by (auto simp: Let_def listed_source_def)
  with e show ?thesis by blast
qed

text \<open>
  C7.  A project under deletion loses its finalizer in one of two ways.  With the force annotation the
  write of the object is all the pass does: nothing is removed from Uyuni.  Without it, the pass listed
  the promotions, the activation keys and the systems, no promotion of the project is new, pending or
  running, no activation key and no system is owned by it, and Uyuni removed the project, or did not
  know it, by the first call of the pass.
\<close>

theorem project_deletion_guarded:
  fixes cp :: "('a) content_project_scheme"
  assumes "obj_deleting cp" "(WriteObject, True) \<in> set (trace (snd (snd (cp_Reconcile w cp))))"
  shows "if has_annotation cp AnnForceDelete then trace (snd (snd (cp_Reconcile w cp))) = [(WriteObject, True)]
    else \<exists>ps aks syss t. cw_promotions w = Inr ps \<and> cw_keys w = Inr aks \<and> cw_systems w = Inr syss \<and>
      filter (\<lambda>p. lor_name (pr_project_ref (pr_spec p)) = obj_name cp \<and>
        prs_phase (pr_status p) \<in> {[], ''Pending'', ''Running''}) ps = [] \<and>
      filter (\<lambda>k. \<exists>r\<in>set (obj_owners k). or_uid r = obj_uid cp) aks = [] \<and>
      filter (\<lambda>x. \<exists>r\<in>set (obj_owners x). or_uid r = obj_uid cp) syss = [] \<and>
      trace (snd (snd (cp_Reconcile w cp))) =
        (Call (RemoveProject (cp_label (cp_spec cp))), cw_out w 0 = None) # t \<and>
      (case cw_out w 0 of None \<Rightarrow> True | Some e \<Rightarrow> is_uyuni_not_found e)"
proof (cases "has_annotation cp AnnForceDelete")
  case True
  then show ?thesis using assms
    by (auto simp: cp_Reconcile_def cp_handleDeletion_def cp_drop_finalizer_def Let_def split_beta split: if_splits)
next
  case False
  from cp_deletion_guards [OF assms(1) False assms(2)] show ?thesis
    using False unfolding activePromotions_def pendingOwnedDependents_def isOwnedBy_def list_ex_iff
    by (auto simp del: filter_empty_conv)
qed

definition deleting_cp :: content_project where
  "deleting_cp = (demo_cp [(''f1'', 7)] None)\<lparr>obj_deleting := True\<rparr>"

theorem project_deletion_guarded_witness:
  "\<exists>t. trace (snd (snd (cp_Reconcile (cp_demo_world [] [] [] all_fine) deleting_cp))) =
     (Call (RemoveProject ''lbl''), True) # t"
proof -
  let ?w = "cp_demo_world [] [] [] all_fine"
  have a: "obj_deleting deleting_cp" by (simp add: deleting_cp_def)
  have b: "\<not> has_annotation deleting_cp AnnForceDelete" by code_simp
  have c: "(WriteObject, True) \<in> set (trace (snd (snd (cp_Reconcile ?w deleting_cp))))" by code_simp
  have d: "cp_label (cp_spec deleting_cp) = ''lbl''" by code_simp
  have e: "cw_out ?w 0 = None" by (simp add: cp_demo_world_def all_fine_def)
  from project_deletion_guarded [OF a c] b d e show ?thesis by auto
qed

text \<open>The states a project can be in, as for tasks.\<close>

inductive cp_reach :: "content_project \<Rightarrow> bool" where
  fresh: "cps_environment_states (cp_status cp) = [] \<Longrightarrow> cp_reach cp"
| pass: "cp_reach cp \<Longrightarrow> live cp \<Longrightarrow>
     stored (snd (snd (cp_Reconcile (w :: (unit, unit, unit, unit) cp_world) cp))) = Some q \<Longrightarrow> cp_reach q"
| edit: "cp_reach cp \<Longrightarrow> cp_reach ((f cp)\<lparr>cp_status := cp_status cp\<rparr>)"

text \<open>
  In every reachable state every environment of a project has built version 0 and no derived
  channels: the pass rebuilds the environment states from the ClmEnvironment objects and leaves
  both fields at their zero values.
\<close>

theorem environments_never_built:
  assumes "cp_reach cp"
  shows "unbuilt (cp_status cp)"
  using assms
proof (induction rule: cp_reach.induct)
  case (fresh cp)
  then show ?case by (simp add: unbuilt_def)
next
  case (pass cp w q)
  then show ?case using cp_Reconcile_flat [of cp w] by (simp add: flat_def)
next
  case (edit cp f)
  then show ?case by simp
qed

theorem environments_never_built_witness:
  "unbuilt (cp_status (cp_after (cp_demo_world [] [] [] all_fine) (demo_cp [] None))) \<and>
   map es_label (cps_environment_states (cp_status (cp_after (cp_demo_world [] [] [] all_fine) (demo_cp [] None)))) = [''dev'']"
proof -
  let ?w = "cp_demo_world [] [] [] all_fine"
  have a: "cp_reach (demo_cp [] None)"
    by (rule cp_reach.fresh) (simp add: demo_cp_def k8s_object.defs)
  have b: "live (demo_cp [] None)" by code_simp
  have c: "\<not> Option.is_none (stored (snd (snd (cp_Reconcile ?w (demo_cp [] None)))))" by code_simp
  then obtain q where q: "stored (snd (snd (cp_Reconcile ?w (demo_cp [] None)))) = Some q"
    by (auto simp: Option.is_none_def)
  have "cp_reach q" by (rule cp_reach.pass [OF a b q])
  moreover have "q = cp_after ?w (demo_cp [] None)" using q by (simp add: cp_after_def)
  ultimately have "unbuilt (cp_status (cp_after ?w (demo_cp [] None)))"
    using environments_never_built by blast
  moreover have "map es_label (cps_environment_states (cp_status (cp_after ?w (demo_cp [] None)))) = [''dev'']"
    by code_simp
  ultimately show ?thesis by blast
qed

text \<open>
  The source fingerprint depends on the labels as a bag: reordering the sources never causes
  a build, and (up to the hash) every other change of labels without zero bytes does.
\<close>

theorem fingerprint_is_of_the_bag:
  assumes "\<forall>l \<in> set xs \<union> set ys. nul \<notin> set l"
  shows "(mset xs = mset ys \<longrightarrow> fingerprintSources w xs = fingerprintSources w ys) \<and>
    (inj (cw_hash w) \<longrightarrow> fingerprintSources w xs = fingerprintSources w ys \<longrightarrow> mset xs = mset ys)"
  using fingerprint_input_eq_iff [OF assms] by (auto simp: fingerprintSources_def inj_eq)

theorem fingerprint_is_of_the_bag_witness:
  "fingerprintSources (cp_demo_world [] [] [] all_fine) [''b'', ''a''] =
   fingerprintSources (cp_demo_world [] [] [] all_fine) [''a'', ''b'']"
proof -
  have "\<forall>l \<in> set [''b'', ''a''] \<union> set [''a'', ''b'']. nul \<notin> set l" by (simp add: nul_def)
  from fingerprint_is_of_the_bag [OF this] show ?thesis by (simp add: add_mset_commute)
qed

text \<open>
  A build that fails after a filter change is never retried: the next pass finds the filter
  in line, sees no change, starts no build and reports the project as ready.
\<close>

theorem failed_filter_build_is_lost:
  "let first = cp_demo_world [server_filter 7 ''allow''] [server_filter 7 ''allow''] [demo_cp [(''f1'', 7)] (Some 5)] build_fails;
       second = cp_demo_world [server_filter 7 ''deny''] [server_filter 7 ''deny''] [demo_cp [(''f1'', 7)] (Some 5)] all_fine;
       after = cp_after first (demo_cp [(''f1'', 7)] (Some 5))
   in cp_calls first (demo_cp [(''f1'', 7)] (Some 5)) =
        [CreateProject ''lbl'' ''proj'' [], UpdateFilter 7 ''f1'' ''deny'' (criteria_wire demo_filter),
         BuildProject ''lbl'' ''automated build by uyuni-operator: filters-changed''] \<and>
      \<not> cp_is_ready after \<and>
      cp_calls second after = [CreateProject ''lbl'' ''proj'' []] \<and>
      cp_is_ready (cp_after second after)"
  unfolding Let_def by (intro conjI; code_simp)

text \<open>
  A filter that already exists in Uyuni is tracked and reported as reconciled, but no call
  attaches it to the project.
\<close>

theorem existing_filter_never_attached:
  "let w = cp_demo_world [server_filter 9 ''deny''] [server_filter 9 ''deny''] [demo_cp [(''f1'', 9)] (Some 5)] all_fine;
       after = cp_after w (demo_cp [] (Some 5))
   in cp_calls w (demo_cp [] (Some 5)) = [CreateProject ''lbl'' ''proj'' []] \<and>
      cps_filter_ids (cp_status after) = [(''f1'', 9)] \<and> cp_is_ready after"
  unfolding Let_def by (intro conjI; code_simp)

text \<open>
  The clean-up of orphaned filters runs before the pass stores its status, so it asks Uyuni to
  remove the very filter the pass has just created and attached.
\<close>

theorem new_filter_removed_as_orphan:
  "cp_calls (cp_demo_world [] [server_filter 7 ''deny''] [demo_cp [] (Some 5)] all_fine) (demo_cp [] (Some 5)) =
     [CreateProject ''lbl'' ''proj'' [],
      CreateFilter ''f1'' ''package'' ''deny'' (criteria_wire demo_filter), AttachFilter ''lbl'' 7,
      RemoveFilter 7,
      BuildProject ''lbl'' ''automated build by uyuni-operator: filters-changed'']"
  by code_simp

section \<open>The chain Uyuni reports\<close>

definition by_previous :: "project_environment_info list \<Rightarrow> (string \<rightharpoonup> project_environment_info)" where
  "by_previous envs = foldl (\<lambda>m e. m(pei_previous e \<mapsto> e)) Map.empty envs"

lemma by_previous_in: "by_previous envs c = Some e \<Longrightarrow> e \<in> set envs \<and> pei_previous e = c"
proof -
  have "foldl (\<lambda>m e. m(pei_previous e \<mapsto> e)) m envs c = Some e \<Longrightarrow>
      m c = Some e \<or> e \<in> set envs \<and> pei_previous e = c" for m
  proof (induction envs arbitrary: m)
    case Nil
    then show ?case by simp
  next
    case (Cons a envs)
    then show ?case by (cases "pei_previous a = c") force+
  qed
  then show "by_previous envs c = Some e \<Longrightarrow> e \<in> set envs \<and> pei_previous e = c"
    unfolding by_previous_def by fastforce
qed

text \<open>\<^verbatim>\<open>chainOrderFromUyuni\<close>: this walk has the guard \<^verbatim>\<open>ChainOrder\<close> lacks and always ends.\<close>

function chain_walk ::
  "project_environment_info list \<Rightarrow> string list \<Rightarrow> string \<Rightarrow> project_environment_info list" where
  "chain_walk envs visited cursor =
     (case by_previous envs cursor of
        None \<Rightarrow> []
      | Some next \<Rightarrow>
          if pei_label next \<in> set visited then []
          else next # chain_walk envs (pei_label next # visited) (pei_label next))"
  by pat_completeness auto
termination
proof (relation "measure (\<lambda>(envs, visited, cursor). card (pei_label ` set envs - set visited))")
  show "wf (measure (\<lambda>(envs, visited, cursor). card (pei_label ` set envs - set visited)))" by simp
next
  fix envs :: "project_environment_info list" and visited :: "string list" and cursor :: string and n
  assume n: "by_previous envs cursor = Some n" "pei_label n \<notin> set visited"
  then have "pei_label n \<in> pei_label ` set envs" using by_previous_in by blast
  then have "pei_label ` set envs - set (pei_label n # visited) \<subset> pei_label ` set envs - set visited"
    using n(2) by auto
  then have "card (pei_label ` set envs - set (pei_label n # visited)) < card (pei_label ` set envs - set visited)"
    by (intro psubset_card_mono) auto
  then show "((envs, pei_label n # visited, pei_label n), envs, visited, cursor)
    \<in> measure (\<lambda>(envs, visited, cursor). card (pei_label ` set envs - set visited))" by simp
qed

declare chain_walk.simps [simp del]

definition chainOrderFromUyuni :: "project_environment_info list \<Rightarrow> project_environment_info list" where
  "chainOrderFromUyuni envs = chain_walk envs [] []"

lemma chain_walk_sound:
  "set (chain_walk envs visited c) \<subseteq> set envs \<and>
   distinct (map pei_label (chain_walk envs visited c)) \<and>
   pei_label ` set (chain_walk envs visited c) \<inter> set visited = {}"
proof (induction envs visited c rule: chain_walk.induct)
  case (1 envs visited c)
  show ?case
  proof (cases "by_previous envs c")
    case None
    then show ?thesis by (simp add: chain_walk.simps)
  next
    case (Some n)
    then show ?thesis
      using "1" [OF Some] by_previous_in [OF Some] by (subst (1 2 3) chain_walk.simps) auto
  qed
qed

end
