(* ===== verification/Channel_Resolve.thy ===== *)
theory Channel_Resolve
  imports Webhooks_Systems
begin

text \<open>
  \<^verbatim>\<open>channelresolve.go\<close>: how a reference written in a spec is resolved.  References to channels and
  groups may name the Kubernetes object, a suffix of its name, the Uyuni label or the display
  name; a reference into a content project names an environment and a source channel.  The reads
  of one resolution see one state of the API server: a \<^verbatim>\<open>Get\<close> and a \<^verbatim>\<open>List\<close> function.
\<close>

section \<open>Software channels\<close>

record 'a finder =
  fd_get :: "'a k8s_get"
  fd_list :: "'a k8s_list"

definition findSoftwareChannelByLabel ::
  "('s) software_channel_scheme finder \<Rightarrow> string \<Rightarrow> string \<Rightarrow>
   go_error + ('s) software_channel_scheme option" where
  "findSoftwareChannelByLabel rd ns label =
     (case fd_list rd ns of
        Inl e \<Rightarrow> Inl e
      | Inr items \<Rightarrow> Inr (find (\<lambda>sc. sc_label (sc_spec sc) = label) items))"

text \<open>The loop shared by the two display-name searches: a realized match wins, else the first match.\<close>

fun prefer_realized :: "('a \<Rightarrow> bool) \<Rightarrow> ('a \<Rightarrow> int) \<Rightarrow> 'a option \<Rightarrow> 'a list \<Rightarrow> 'a option" where
  "prefer_realized matches uyuni_id fallback [] = fallback"
| "prefer_realized matches uyuni_id fallback (x # xs) =
     (if \<not> matches x then prefer_realized matches uyuni_id fallback xs
      else if uyuni_id x \<noteq> 0 then Some x
      else prefer_realized matches uyuni_id (case fallback of None \<Rightarrow> Some x | Some _ \<Rightarrow> fallback) xs)"

definition findSoftwareChannelByDisplayName ::
  "('s) software_channel_scheme finder \<Rightarrow> string \<Rightarrow> string \<Rightarrow>
   go_error + ('s) software_channel_scheme option" where
  "findSoftwareChannelByDisplayName rd ns displayName =
     (case fd_list rd ns of
        Inl e \<Rightarrow> Inl e
      | Inr items \<Rightarrow> Inr (prefer_realized (\<lambda>sc. sc_name (sc_spec sc) = displayName)
          (\<lambda>sc. scs_uyuni_id (sc_status sc)) None items))"

definition suffix_match :: "string \<Rightarrow> ('a) k8s_object_scheme \<Rightarrow> bool" where
  "suffix_match name obj = has_suffix (obj_name obj) (CHR ''-'' # name)"

definition findSoftwareChannel ::
  "('s) software_channel_scheme finder \<Rightarrow> string \<Rightarrow> string \<Rightarrow>
   go_error + ('s) software_channel_scheme option" where
  "findSoftwareChannel rd ns name =
     (case cut_prefix name ''label:'' of
        Some label \<Rightarrow> findSoftwareChannelByLabel rd ns label
      | None \<Rightarrow>
     (case cut_prefix name ''name:'' of
        Some displayName \<Rightarrow> findSoftwareChannelByDisplayName rd ns displayName
      | None \<Rightarrow>
     (case fd_get rd ns name of
        Inr sc \<Rightarrow> Inr (Some sc)
      | Inl e \<Rightarrow>
          if ignore_not_found e \<noteq> None then Inl e
          else case fd_list rd ns of
            Inl e' \<Rightarrow> Inl e'
          | Inr items \<Rightarrow>
              (case find (suffix_match name) items of
                 Some sc \<Rightarrow> Inr (Some sc)
               | None \<Rightarrow>
                   (case findSoftwareChannelByLabel rd ns name of
                      Inl e'' \<Rightarrow> Inl e''
                    | Inr (Some sc) \<Rightarrow> Inr (Some sc)
                    | Inr None \<Rightarrow> findSoftwareChannelByDisplayName rd ns name)))))"

section \<open>System groups and systems\<close>

definition findSystemGroup ::
  "('g) system_group_scheme finder \<Rightarrow> string \<Rightarrow> string \<Rightarrow>
   go_error + ('g) system_group_scheme option" where
  "findSystemGroup rd ns name =
     (case fd_get rd ns name of
        Inr sg \<Rightarrow> Inr (Some sg)
      | Inl e \<Rightarrow>
          if ignore_not_found e \<noteq> None then Inl e
          else case fd_list rd ns of
            Inl e' \<Rightarrow> Inl e'
          | Inr items \<Rightarrow>
              (case find (suffix_match name) items of
                 Some sg \<Rightarrow> Inr (Some sg)
               | None \<Rightarrow> Inr (prefer_realized (\<lambda>sg. sg_name (sg_spec sg) = name)
                   (\<lambda>sg. sgs_uyuni_id (sg_status sg)) None items)))"

definition hostname_matches :: "string \<Rightarrow> ('s) uyuni_system_scheme \<Rightarrow> bool" where
  "hostname_matches name sys =
     (sys_hostname (sys_spec sys) = name \<or> hostname_short (sys_hostname (sys_spec sys)) = Some name)"

definition findSystem ::
  "('s) uyuni_system_scheme finder \<Rightarrow> string \<Rightarrow> string \<Rightarrow> go_error + ('s) uyuni_system_scheme option"
where
  "findSystem rd ns name =
     (case fd_get rd ns name of
        Inr sys \<Rightarrow> Inr (Some sys)
      | Inl e \<Rightarrow>
          if ignore_not_found e \<noteq> None then Inl e
          else case fd_list rd ns of
            Inl e' \<Rightarrow> Inl e'
          | Inr items \<Rightarrow>
              (case find (\<lambda>sys. sys_minion_id (sys_spec sys) = name) items of
                 Some sys \<Rightarrow> Inr (Some sys)
               | None \<Rightarrow> Inr (find (hostname_matches name) items)))"

definition systemRefMatches :: "local_object_ref \<Rightarrow> ('s) uyuni_system_scheme \<Rightarrow> bool" where
  "systemRefMatches ref sys =
     (lor_name ref = obj_name sys \<or> sys_minion_id (sys_spec sys) = lor_name ref
      \<or> hostname_matches (lor_name ref) sys)"

section \<open>Labels of references\<close>

text \<open>The results \<^verbatim>\<open>(label, waitDetail, hardError)\<close>, of which the code fills exactly one.\<close>

datatype resolved = Label string | Wait string | Hard string

definition resolveDirectChannelRef ::
  "('s) software_channel_scheme finder \<Rightarrow> string \<Rightarrow> local_object_ref \<Rightarrow> go_error + resolved" where
  "resolveDirectChannelRef rd ns ref =
     (case findSoftwareChannel rd ns (lor_name ref) of
        Inl e \<Rightarrow> Inl e
      | Inr None \<Rightarrow> Inr (Hard (''SoftwareChannel '' @ go_quote (lor_name ref) @ '' not found''))
      | Inr (Some sc) \<Rightarrow>
          if scs_label (sc_status sc) = []
          then Inr (Wait (''SoftwareChannel '' @ go_quote (lor_name ref) @ '' not yet realized in Uyuni''))
          else Inr (Label (scs_label (sc_status sc))))"

definition env_declared ::
  "('p) content_project_scheme \<Rightarrow> ('e) clm_environment_scheme list \<Rightarrow> string \<Rightarrow> bool" where
  "env_declared cp envs environment =
     (list_ex (\<lambda>e. pe_label e = environment) (cp_environments (cp_spec cp))
      \<or> list_ex (\<lambda>e. lor_name (env_project_ref (env_spec e)) = obj_name cp
                   \<and> env_id (env_spec e) = environment) envs)"

definition derived_label :: "('p) content_project_scheme \<Rightarrow> channel_from_project \<Rightarrow> string" where
  "derived_label cp ref =
     cp_label (cp_spec cp) @ ''-'' @ cfp_environment ref @ ''-'' @ cfp_source_label ref"

definition resolveFromProject ::
  "('p) content_project_scheme k8s_get \<Rightarrow> ('e) clm_environment_scheme k8s_list \<Rightarrow> string \<Rightarrow>
   channel_from_project \<Rightarrow> go_error + resolved" where
  "resolveFromProject getCP listEnv ns ref =
     (case getCP ns (lor_name (cfp_project_ref ref)) of
        Inl e \<Rightarrow>
          if ignore_not_found e = None
          then Inr (Hard (''ContentProject '' @ go_quote (lor_name (cfp_project_ref ref)) @ '' not found''))
          else Inl e
      | Inr cp \<Rightarrow>
     (case listEnv ns of
        Inl e \<Rightarrow> Inl e
      | Inr envs \<Rightarrow>
          if \<not> env_declared cp envs (cfp_environment ref)
          then Inr (Hard (''environment '' @ go_quote (cfp_environment ref)
                 @ '' not declared in ContentProject '' @ go_quote (obj_name cp)))
          else
            let wait = Inr (Wait (''environment '' @ go_quote (cfp_environment ref) @ '' of ContentProject ''
                  @ go_quote (obj_name cp) @ '' has not been built yet''))
            in case find (\<lambda>st. es_label st = cfp_environment ref) (cps_environment_states (cp_status cp)) of
                 None \<Rightarrow> wait
               | Some state \<Rightarrow>
                   if es_built_version state = 0 then wait
                   else if derived_label cp ref \<in> set (es_derived_channels state)
                   then Inr (Label (derived_label cp ref))
                   else Inr (Hard (''source channel '' @ go_quote (cfp_source_label ref)
                     @ '' not in environment '' @ go_quote (cfp_environment ref)
                     @ '' of ContentProject '' @ go_quote (obj_name cp)
                     @ '' (current derived channels: '' @ show_slice (es_derived_channels state)
                     @ ''); add it to the project's sourceRefs and rebuild''))))"

section \<open>All references of an object\<close>

record channel_resolution =
  cr_base_label :: string
  cr_child_labels :: "string list"
  cr_wait_reason :: string
  cr_wait_detail :: string
  cr_hard_error :: string

record channel_refs =
  crf_base_ref :: "local_object_ref option"
  crf_child_refs :: "local_object_ref list"
  crf_base_from :: "channel_from_project option"
  crf_children_from :: "channel_from_project list"

definition no_resolution :: channel_resolution where
  "no_resolution = \<lparr>cr_base_label = [], cr_child_labels = [], cr_wait_reason = [],
     cr_wait_detail = [], cr_hard_error = []\<rparr>"

definition is_direct :: "channel_from_project \<Rightarrow> bool" where
  "is_direct ref = (lor_name (cfp_project_ref ref) = [])"

text \<open>
  One resolved reference.  The first component of the result tells whether the function goes on
  (\<open>Inr\<close>) or returns \<open>out\<close> (\<open>Inl\<close>).
\<close>

definition take_result ::
  "string \<Rightarrow> (string \<Rightarrow> channel_resolution \<Rightarrow> channel_resolution) \<Rightarrow> channel_resolution \<Rightarrow>
   resolved \<Rightarrow> channel_resolution + channel_resolution" where
  "take_result reason put out r =
     (case r of
        Hard h \<Rightarrow> Inl (out\<lparr>cr_hard_error := h\<rparr>)
      | Wait d \<Rightarrow> Inl (out\<lparr>cr_wait_reason := reason, cr_wait_detail := d\<rparr>)
      | Label l \<Rightarrow> Inr (put l out))"

fun child_loop ::
  "('r \<Rightarrow> go_error + resolved) \<Rightarrow> string \<Rightarrow> 'r list \<Rightarrow> channel_resolution \<Rightarrow>
   go_error + (channel_resolution + channel_resolution)" where
  "child_loop res reason [] out = Inr (Inr out)"
| "child_loop res reason (r # rs) out =
     (case res r of
        Inl e \<Rightarrow> Inl e
      | Inr x \<Rightarrow>
          (case take_result reason (\<lambda>l o'. o'\<lparr>cr_child_labels := cr_child_labels o' @ [l]\<rparr>) out x of
             Inl final \<Rightarrow> Inr (Inl final)
           | Inr out' \<Rightarrow> child_loop res reason rs out'))"

definition base_step ::
  "('b \<Rightarrow> go_error + resolved) \<Rightarrow> string \<Rightarrow> 'b \<Rightarrow> channel_resolution \<Rightarrow>
   go_error + (channel_resolution + channel_resolution)" where
  "base_step res reason r out =
     (case res r of
        Inl e \<Rightarrow> Inl e
      | Inr x \<Rightarrow> Inr (take_result reason (\<lambda>l o'. o'\<lparr>cr_base_label := l\<rparr>) out x))"

definition and_then ::
  "go_error + (channel_resolution + channel_resolution) \<Rightarrow>
   (channel_resolution \<Rightarrow> go_error + (channel_resolution + channel_resolution)) \<Rightarrow>
   go_error + (channel_resolution + channel_resolution)" where
  "and_then m f = (case m of Inl e \<Rightarrow> Inl e | Inr (Inl final) \<Rightarrow> Inr (Inl final) | Inr (Inr out) \<Rightarrow> f out)"

definition returned ::
  "go_error + (channel_resolution + channel_resolution) \<Rightarrow> go_error + channel_resolution" where
  "returned m = (case m of Inl e \<Rightarrow> Inl e | Inr (Inl out) \<Rightarrow> Inr out | Inr (Inr out) \<Rightarrow> Inr out)"

text \<open>
  The first block: references with an empty project name are direct labels, the others go on to
  resolution.
\<close>

definition project_base :: "channel_refs \<Rightarrow> channel_from_project option" where
  "project_base refs = (case crf_base_from refs of
     None \<Rightarrow> None | Some r \<Rightarrow> if is_direct r then None else Some r)"

definition direct_base :: "channel_refs \<Rightarrow> string" where
  "direct_base refs = (case crf_base_from refs of
     None \<Rightarrow> [] | Some r \<Rightarrow> if is_direct r \<and> cfp_source_label r \<noteq> [] then cfp_source_label r else [])"

definition project_children :: "channel_refs \<Rightarrow> channel_from_project list" where
  "project_children refs = filter (\<lambda>r. \<not> is_direct r) (crf_children_from refs)"

definition direct_labels :: "channel_refs \<Rightarrow> string list" where
  "direct_labels refs =
     map cfp_source_label (filter (\<lambda>r. is_direct r \<and> cfp_source_label r \<noteq> []) (crf_children_from refs))"

definition direct_part :: "channel_refs \<Rightarrow> channel_resolution" where
  "direct_part refs = no_resolution\<lparr>cr_base_label := direct_base refs, cr_child_labels := direct_labels refs\<rparr>"

definition resolve_base ::
  "(local_object_ref \<Rightarrow> go_error + resolved) \<Rightarrow> (channel_from_project \<Rightarrow> go_error + resolved) \<Rightarrow>
   channel_refs \<Rightarrow> channel_resolution \<Rightarrow> go_error + (channel_resolution + channel_resolution)" where
  "resolve_base direct from_project refs out =
     (case crf_base_ref refs of
        Some r \<Rightarrow> base_step direct ''WaitingForChannel'' r out
      | None \<Rightarrow>
          (case project_base refs of
             Some r \<Rightarrow> base_step from_project ''WaitingForEnvironmentBuild'' r out
           | None \<Rightarrow> Inr (Inr out)))"

definition resolveChannelRefs ::
  "('s) software_channel_scheme finder \<Rightarrow> ('p) content_project_scheme k8s_get \<Rightarrow>
   ('e) clm_environment_scheme k8s_list \<Rightarrow> string \<Rightarrow> channel_refs \<Rightarrow>
   go_error + channel_resolution" where
  "resolveChannelRefs rd getCP listEnv ns refs =
     (let direct = resolveDirectChannelRef rd ns;
          from_project = resolveFromProject getCP listEnv ns;
          out = direct_part refs
      in if crf_base_ref refs \<noteq> None \<and> project_base refs \<noteq> None
         then Inr (out\<lparr>cr_hard_error := ''baseChannelRef and baseChannelFrom both set; admission should have rejected, check webhook configuration''\<rparr>)
         else if crf_child_refs refs \<noteq> [] \<and> project_children refs \<noteq> []
         then Inr (out\<lparr>cr_hard_error := ''childChannelRefs and childChannelsFrom both set; admission should have rejected, check webhook configuration''\<rparr>)
         else returned
           (and_then
             (and_then (resolve_base direct from_project refs out)
               (child_loop direct ''WaitingForChannel'' (crf_child_refs refs)))
             (child_loop from_project ''WaitingForEnvironmentBuild'' (project_children refs))))"

section \<open>What the searches find\<close>

lemma prefer_realized_sound:
  "prefer_realized m u fb xs = Some x \<Longrightarrow> fb = Some x \<or> x \<in> set xs \<and> m x"
  by (induction xs arbitrary: fb) (auto split: if_splits option.splits)

lemma prefer_realized_None: "prefer_realized m u fb xs = None \<longleftrightarrow> fb = None \<and> (\<forall>x \<in> set xs. \<not> m x)"
  by (induction xs arbitrary: fb) (auto split: option.splits)

lemma prefer_realized_realized:
  "x \<in> set xs \<Longrightarrow> m x \<Longrightarrow> u x \<noteq> 0 \<Longrightarrow> \<exists>y. prefer_realized m u fb xs = Some y \<and> u y \<noteq> 0"
  by (induction xs arbitrary: fb) auto

lemma cut_prefix_None: "cut_prefix s p = None \<longleftrightarrow> \<not> has_prefix s p"
  by (simp add: cut_prefix_def)

lemma find_Some_in: "find P xs = Some x \<Longrightarrow> x \<in> set xs \<and> P x"
  by (auto simp: find_Some_iff)

text \<open>The four ways a name can designate a channel, once the API server has no object of that name.\<close>

definition channel_answers :: "string \<Rightarrow> ('s) software_channel_scheme \<Rightarrow> bool" where
  "channel_answers name sc =
     (suffix_match name sc \<or> sc_label (sc_spec sc) = name \<or> sc_name (sc_spec sc) = name)"

lemma findSoftwareChannel_plain:
  fixes rd :: "('s) software_channel_scheme finder"
  assumes "\<not> has_prefix name ''label:''" "\<not> has_prefix name ''name:''"
    and "fd_get rd ns name = Inl e" "is_k8s_not_found e" "fd_list rd ns = Inr items"
  shows "findSoftwareChannel rd ns name =
    Inr (case find (suffix_match name) items of
           Some sc \<Rightarrow> Some sc
         | None \<Rightarrow> (case find (\<lambda>sc. sc_label (sc_spec sc) = name) items of
             Some sc \<Rightarrow> Some sc
           | None \<Rightarrow> prefer_realized (\<lambda>sc. sc_name (sc_spec sc) = name)
               (\<lambda>sc. scs_uyuni_id (sc_status sc)) None items))"
proof -
  have "cut_prefix name ''label:'' = None" "cut_prefix name ''name:'' = None"
    using assms(1,2) by (simp_all only: cut_prefix_None not_False_eq_True)
  then show ?thesis
    using assms(3-5)
    by (simp add: findSoftwareChannel_def findSoftwareChannelByLabel_def
        findSoftwareChannelByDisplayName_def split: option.split)
qed

lemma findSoftwareChannel_answers:
  fixes rd :: "('s) software_channel_scheme finder"
  assumes "\<not> has_prefix name ''label:''" "\<not> has_prefix name ''name:''"
    and "fd_get rd ns name = Inl e" "is_k8s_not_found e" "fd_list rd ns = Inr items"
  obtains "findSoftwareChannel rd ns name = Inr None" "\<forall>sc \<in> set items. \<not> channel_answers name sc"
  | sc where "findSoftwareChannel rd ns name = Inr (Some sc)" "sc \<in> set items" "channel_answers name sc"
proof -
  note eq = findSoftwareChannel_plain [OF assms]
  show thesis
  proof (cases "find (suffix_match name) items")
    case (Some sc)
    then show thesis using that(2) [of sc] eq find_Some_in [OF Some] by (simp add: channel_answers_def)
  next
    case no_suffix: None
    show thesis
    proof (cases "find (\<lambda>sc. sc_label (sc_spec sc) = name) items")
      case (Some sc)
      then show thesis using that(2) [of sc] eq no_suffix find_Some_in [OF Some]
        by (simp add: channel_answers_def)
    next
      case no_label: None
      let ?p = "prefer_realized (\<lambda>sc. sc_name (sc_spec sc) = name) (\<lambda>sc. scs_uyuni_id (sc_status sc)) None items"
      show thesis
      proof (cases ?p)
        case None
        then have "\<forall>sc \<in> set items. sc_name (sc_spec sc) \<noteq> name" by (simp add: prefer_realized_None)
        moreover have "findSoftwareChannel rd ns name = Inr None" using None eq no_suffix no_label by simp
        ultimately show thesis
          using that(1) no_suffix no_label by (auto simp: channel_answers_def find_None_iff)
      next
        case (Some sc)
        then show thesis using that(2) [of sc] eq no_suffix no_label prefer_realized_sound [OF Some]
          by (simp add: channel_answers_def)
      qed
    qed
  qed
qed

lemma findSystem_cases:
  fixes rd :: "('s) uyuni_system_scheme finder"
  assumes "fd_get rd ns name = Inl e" "is_k8s_not_found e" "fd_list rd ns = Inr items"
  shows "findSystem rd ns name = Inr None \<longleftrightarrow>
    (\<forall>s \<in> set items. sys_minion_id (sys_spec s) \<noteq> name \<and> \<not> hostname_matches name s)"
  using assms by (auto simp: findSystem_def find_None_iff dest: find_Some_in split: option.split)

section \<open>What resolution returns\<close>

lemma direct_nonempty:
  "resolveDirectChannelRef rd ns ref = Inr (Hard h) \<Longrightarrow> h \<noteq> []"
  "resolveDirectChannelRef rd ns ref = Inr (Label l) \<Longrightarrow> l \<noteq> []"
  by (auto simp: resolveDirectChannelRef_def split: sum.splits option.splits if_splits)

lemma from_project_nonempty:
  "resolveFromProject getCP listEnv ns ref = Inr (Hard h) \<Longrightarrow> h \<noteq> []"
  by (auto simp: resolveFromProject_def Let_def split: sum.splits option.splits if_splits)

text \<open>A result that the reconcilers use: neither a hard error nor a reason to wait.\<close>

definition complete :: "channel_resolution \<Rightarrow> bool" where
  "complete out = (cr_wait_reason out = [] \<and> cr_hard_error out = [])"

lemma take_result_cases:
  assumes "complete out" "reason \<noteq> []" "\<And>h. r = Hard h \<Longrightarrow> h \<noteq> []"
  shows "case take_result reason put out r of
     Inl final \<Rightarrow> \<not> complete final \<and> (\<forall>l. r \<noteq> Label l) | Inr out' \<Rightarrow> \<exists>l. r = Label l \<and> out' = put l out"
  using assms by (cases r) (auto simp: take_result_def complete_def)

lemma child_loop_complete:
  assumes "complete out" "reason \<noteq> []" "\<forall>r h. res r = Inr (Hard h) \<longrightarrow> h \<noteq> []"
  shows "case child_loop res reason rs out of
     Inl e \<Rightarrow> \<exists>r \<in> set rs. res r = Inl e
   | Inr (Inl final) \<Rightarrow> \<not> complete final \<and> (\<exists>r \<in> set rs. \<forall>l. res r \<noteq> Inr (Label l))
   | Inr (Inr out') \<Rightarrow> \<exists>ls. list_all2 (\<lambda>r l. res r = Inr (Label l)) rs ls \<and>
       out' = out\<lparr>cr_child_labels := cr_child_labels out @ ls\<rparr>"
  using assms(1)
proof (induction rs arbitrary: out)
  case Nil
  then show ?case by simp
next
  case (Cons r rs)
  show ?case
  proof (cases "res r")
    case (Inl e)
    then show ?thesis by simp
  next
    case (Inr x)
    show ?thesis
    proof (cases x)
      case (Label l)
      let ?out = "out\<lparr>cr_child_labels := cr_child_labels out @ [l]\<rparr>"
      have c: "complete ?out" using Cons.prems by (simp add: complete_def)
      note IH = Cons.IH [OF c]
      have eq: "child_loop res reason (r # rs) out = child_loop res reason rs ?out"
        using Inr Label by (simp add: take_result_def)
      show ?thesis
      proof (cases "child_loop res reason rs ?out")
        case (Inl e)
        then have "\<exists>r \<in> set rs. res r = Inl e" using IH by simp
        then show ?thesis unfolding eq Inl by simp
      next
        case res: (Inr y)
        show ?thesis
        proof (cases y)
          case (Inl final)
          then have "\<not> complete final" "\<exists>r \<in> set rs. \<forall>l. res r \<noteq> Inr (Label l)"
            using IH unfolding res by simp_all
          then show ?thesis unfolding eq res Inl by simp
        next
          case fin: (Inr out')
          with IH res obtain ls where ls: "list_all2 (\<lambda>r l. res r = Inr (Label l)) rs ls"
            "out' = ?out\<lparr>cr_child_labels := cr_child_labels ?out @ ls\<rparr>" by auto
          then have "list_all2 (\<lambda>r l. res r = Inr (Label l)) (r # rs) (l # ls)"
            "out' = out\<lparr>cr_child_labels := cr_child_labels out @ l # ls\<rparr>"
            using Inr Label by simp_all
          then have "\<exists>ls. list_all2 (\<lambda>r l. res r = Inr (Label l)) (r # rs) ls \<and>
              out' = out\<lparr>cr_child_labels := cr_child_labels out @ ls\<rparr>" by blast
          then show ?thesis unfolding eq res fin by simp
        qed
      qed
    next
      case (Wait d)
      then show ?thesis using Inr Cons.prems assms(2) by (auto simp: take_result_def complete_def)
    next
      case (Hard h)
      then show ?thesis using Inr Cons.prems assms(3) by (auto simp: take_result_def complete_def)
    qed
  qed
qed

lemma list_all2_labels_unique:
  "list_all2 (\<lambda>r l. res r = Inr (Label l)) rs ls \<Longrightarrow> list_all2 (\<lambda>r l. res r = Inr (Label l)) rs ls' \<Longrightarrow>
     ls = ls'"
  unfolding list_all2_conv_all_nth by (rule nth_equalityI) (simp, force)

lemma list_all2_labels_all:
  "list_all2 (\<lambda>r l. res r = Inr (Label l)) rs ls \<Longrightarrow> r \<in> set rs \<Longrightarrow> \<exists>l. res r = Inr (Label l)"
  by (induction rs ls rule: list_all2_induct) auto

lemma child_loop_iff:
  assumes "complete out" "reason \<noteq> []" "\<forall>r h. res r = Inr (Hard h) \<longrightarrow> h \<noteq> []"
  shows "child_loop res reason rs out = Inr (Inr out') \<longleftrightarrow>
      (\<exists>ls. list_all2 (\<lambda>r l. res r = Inr (Label l)) rs ls \<and>
        out' = out\<lparr>cr_child_labels := cr_child_labels out @ ls\<rparr>)"
    and "child_loop res reason rs out = Inr (Inl final) \<Longrightarrow> \<not> complete final"
proof -
  note c = child_loop_complete [of out reason res rs, OF assms]
  show "child_loop res reason rs out = Inr (Inl final) \<Longrightarrow> \<not> complete final" using c by simp
  have stuck: "\<nexists>ls. list_all2 (\<lambda>r l. res r = Inr (Label l)) rs ls"
    if "r \<in> set rs" "\<And>l. res r \<noteq> Inr (Label l)" for r
    using that list_all2_labels_all [of res rs _ r] by blast
  show "child_loop res reason rs out = Inr (Inr out') \<longleftrightarrow>
      (\<exists>ls. list_all2 (\<lambda>r l. res r = Inr (Label l)) rs ls \<and>
        out' = out\<lparr>cr_child_labels := cr_child_labels out @ ls\<rparr>)"
  proof (cases "child_loop res reason rs out")
    case (Inl e)
    then obtain r where "r \<in> set rs" "res r = Inl e" using c by auto
    then show ?thesis using Inl stuck [of r] by auto
  next
    case (Inr x)
    show ?thesis
    proof (cases x)
      case (Inl f)
      then obtain r where "r \<in> set rs" "\<forall>l. res r \<noteq> Inr (Label l)" using c Inr by auto
      then show ?thesis using Inl Inr stuck [of r] by auto
    next
      case (Inr o')
      then obtain ls where ls: "list_all2 (\<lambda>r l. res r = Inr (Label l)) rs ls"
        "o' = out\<lparr>cr_child_labels := cr_child_labels out @ ls\<rparr>" using c \<open>child_loop res reason rs out = Inr x\<close> by auto
      have l: "child_loop res reason rs out = Inr (Inr o')" using Inr \<open>child_loop res reason rs out = Inr x\<close> by simp
      show ?thesis
        unfolding l ls(2) using ls(1) list_all2_labels_unique [OF ls(1)] by blast
    qed
  qed
qed

text \<open>What it means that the references resolve to a base label and a list of child labels.\<close>

definition base_resolves ::
  "(local_object_ref \<Rightarrow> go_error + resolved) \<Rightarrow> (channel_from_project \<Rightarrow> go_error + resolved) \<Rightarrow>
   channel_refs \<Rightarrow> string \<Rightarrow> bool" where
  "base_resolves direct from_project refs l =
     (case (crf_base_ref refs, crf_base_from refs) of
        (None, None) \<Rightarrow> l = []
      | (None, Some f) \<Rightarrow> if is_direct f then l = cfp_source_label f else from_project f = Inr (Label l)
      | (Some r, None) \<Rightarrow> direct r = Inr (Label l)
      | (Some r, Some f) \<Rightarrow> is_direct f \<and> direct r = Inr (Label l))"

definition children_resolve ::
  "(local_object_ref \<Rightarrow> go_error + resolved) \<Rightarrow> (channel_from_project \<Rightarrow> go_error + resolved) \<Rightarrow>
   channel_refs \<Rightarrow> string list \<Rightarrow> bool" where
  "children_resolve direct from_project refs ls =
     ((crf_child_refs refs = [] \<or> project_children refs = []) \<and>
      (\<exists>as bs. ls = direct_labels refs @ as @ bs \<and>
         list_all2 (\<lambda>r l. direct r = Inr (Label l)) (crf_child_refs refs) as \<and>
         list_all2 (\<lambda>r l. from_project r = Inr (Label l)) (project_children refs) bs))"

lemma base_step_iff:
  "base_step res reason r out = Inr (Inr out') \<longleftrightarrow>
     (\<exists>l. res r = Inr (Label l) \<and> out' = out\<lparr>cr_base_label := l\<rparr>)"
  by (auto simp: base_step_def take_result_def split: sum.splits resolved.splits)

lemma base_step_final:
  assumes "base_step res reason r out = Inr (Inl final)" "reason \<noteq> []"
    and "\<And>h. res r = Inr (Hard h) \<Longrightarrow> h \<noteq> []"
  shows "\<not> complete final"
  using assms by (auto simp: base_step_def take_result_def complete_def split: sum.splits resolved.splits)

lemma and_then_iff:
  "and_then m f = Inr (Inr out) \<longleftrightarrow> (\<exists>o'. m = Inr (Inr o') \<and> f o' = Inr (Inr out))"
  "and_then m f = Inr (Inl out) \<longleftrightarrow> m = Inr (Inl out) \<or> (\<exists>o'. m = Inr (Inr o') \<and> f o' = Inr (Inl out))"
  by (auto simp: and_then_def split: sum.splits)

lemma returned_iff: "returned m = Inr out \<longleftrightarrow> m = Inr (Inl out) \<or> m = Inr (Inr out)"
  by (auto simp: returned_def split: sum.splits)

text \<open>The three stages of a resolution, each with what it returns when it goes on and when it stops.\<close>

lemma direct_part_simps [simp]:
  "complete no_resolution" "complete (direct_part refs)" "cr_child_labels (direct_part refs) = direct_labels refs"
  "complete (out\<lparr>cr_base_label := l\<rparr>) = complete out" "complete (out\<lparr>cr_child_labels := ls\<rparr>) = complete out"
  by (simp_all add: direct_part_def complete_def no_resolution_def)

lemma resolve_base_ok:
  "\<not> (crf_base_ref refs \<noteq> None \<and> project_base refs \<noteq> None) \<Longrightarrow>
   resolve_base direct from_project refs (direct_part refs) = Inr (Inr out) \<longleftrightarrow>
     (\<exists>l. base_resolves direct from_project refs l \<and> out = (direct_part refs)\<lparr>cr_base_label := l\<rparr>)"
  by (cases "crf_base_ref refs"; cases "crf_base_from refs")
    (auto simp: resolve_base_def project_base_def base_resolves_def base_step_iff direct_part_def
      direct_base_def split: if_splits)

lemma resolve_base_stop:
  assumes "resolve_base direct from_project refs out = Inr (Inl final)"
    and "\<forall>r h. direct r = Inr (Hard h) \<longrightarrow> h \<noteq> []" "\<forall>r h. from_project r = Inr (Hard h) \<longrightarrow> h \<noteq> []"
  shows "\<not> complete final"
  using assms by (auto simp: resolve_base_def split: option.splits dest!: base_step_final)

definition children_stages ::
  "(local_object_ref \<Rightarrow> go_error + resolved) \<Rightarrow> (channel_from_project \<Rightarrow> go_error + resolved) \<Rightarrow>
   channel_refs \<Rightarrow> channel_resolution \<Rightarrow> go_error + (channel_resolution + channel_resolution)" where
  "children_stages direct from_project refs out =
     and_then (child_loop direct ''WaitingForChannel'' (crf_child_refs refs) out)
       (child_loop from_project ''WaitingForEnvironmentBuild'' (project_children refs))"

lemma and_then_assoc: "and_then (and_then m f) g = and_then m (\<lambda>x. and_then (f x) g)"
  by (simp add: and_then_def split: sum.split)

lemma ex_through: "(\<exists>y. (\<exists>x. A x \<and> y = f x) \<and> Q y) \<longleftrightarrow> (\<exists>x. A x \<and> Q (f x))"
  by blast

lemma children_stages_ok:
  assumes "complete out" and hd: "\<forall>r h. direct r = Inr (Hard h) \<longrightarrow> h \<noteq> []"
    and hp: "\<forall>r h. from_project r = Inr (Hard h) \<longrightarrow> h \<noteq> []"
  shows "children_stages direct from_project refs out = Inr (Inr out') \<longleftrightarrow>
      (\<exists>as bs. list_all2 (\<lambda>r l. direct r = Inr (Label l)) (crf_child_refs refs) as \<and>
         list_all2 (\<lambda>r l. from_project r = Inr (Label l)) (project_children refs) bs \<and>
         out' = out\<lparr>cr_child_labels := cr_child_labels out @ as @ bs\<rparr>)"
    and "children_stages direct from_project refs out = Inr (Inl final) \<Longrightarrow> \<not> complete final"
proof -
  have ne: "''WaitingForChannel'' \<noteq> []" "''WaitingForEnvironmentBuild'' \<noteq> []" by simp_all
  note d = child_loop_iff [OF assms(1) ne(1) hd]
  note p = child_loop_iff [OF _ ne(2) hp]
  show "children_stages direct from_project refs out = Inr (Inr out') \<longleftrightarrow>
      (\<exists>as bs. list_all2 (\<lambda>r l. direct r = Inr (Label l)) (crf_child_refs refs) as \<and>
         list_all2 (\<lambda>r l. from_project r = Inr (Label l)) (project_children refs) bs \<and>
         out' = out\<lparr>cr_child_labels := cr_child_labels out @ as @ bs\<rparr>)"
    unfolding children_stages_def and_then_iff d(1) ex_through using assms(1)
    by (simp add: p(1))
  assume "children_stages direct from_project refs out = Inr (Inl final)"
  then consider "child_loop direct ''WaitingForChannel'' (crf_child_refs refs) out = Inr (Inl final)"
    | o' where "child_loop direct ''WaitingForChannel'' (crf_child_refs refs) out = Inr (Inr o')"
      "child_loop from_project ''WaitingForEnvironmentBuild'' (project_children refs) o' = Inr (Inl final)"
    unfolding children_stages_def and_then_iff by blast
  then show "\<not> complete final"
  proof cases
    case 1
    then show ?thesis by (rule d(2))
  next
    case (2 o')
    then have "complete o'" using assms(1) by (auto simp: d(1))
    then show ?thesis using 2(2) p(2) by blast
  qed
qed

lemma resolveChannelRefs_stages:
  "resolveChannelRefs rd getCP listEnv ns refs = Inr out \<and> complete out \<longleftrightarrow>
     \<not> (crf_base_ref refs \<noteq> None \<and> project_base refs \<noteq> None) \<and>
     (crf_child_refs refs = [] \<or> project_children refs = []) \<and> complete out \<and>
     returned (and_then (resolve_base (resolveDirectChannelRef rd ns) (resolveFromProject getCP listEnv ns)
         refs (direct_part refs))
       (children_stages (resolveDirectChannelRef rd ns) (resolveFromProject getCP listEnv ns) refs)) = Inr out"
proof -
  have "\<not> complete (o'\<lparr>cr_hard_error := h\<rparr>)" if "h \<noteq> []" for o' h using that by (simp add: complete_def)
  then show ?thesis
    unfolding resolveChannelRefs_def Let_def and_then_assoc children_stages_def by auto
qed

text \<open>
  C16.  What \<^verbatim>\<open>resolveChannelRefs\<close> hands to a reconciler.  It returns a result with neither a hard
  error nor a reason to wait exactly when baseChannelRef is not set together with a baseChannelFrom
  that goes through a project, childChannelRefs not together with entries of childChannelsFrom that
  do, and every reference resolves.  The base label is then the resolved base reference, or the
  sourceChannelLabel if only that is given, or empty; the child labels are first the
  sourceChannelLabels of childChannelsFrom, in their order, and then the resolved references
  (childChannelRefs, or the entries that go through a project) in theirs.  No reference is dropped
  silently, and no unresolved one leaves a partial list.
\<close>

theorem resolution_complete_iff:
  "resolveChannelRefs rd getCP listEnv ns refs = Inr out \<and> complete out \<longleftrightarrow>
     base_resolves (resolveDirectChannelRef rd ns) (resolveFromProject getCP listEnv ns) refs (cr_base_label out) \<and>
     children_resolve (resolveDirectChannelRef rd ns) (resolveFromProject getCP listEnv ns) refs (cr_child_labels out) \<and>
     out = no_resolution\<lparr>cr_base_label := cr_base_label out, cr_child_labels := cr_child_labels out\<rparr>"
proof -
  let ?d = "resolveDirectChannelRef rd ns" and ?p = "resolveFromProject getCP listEnv ns"
  have hd: "\<forall>r h. ?d r = Inr (Hard h) \<longrightarrow> h \<noteq> []" and hp: "\<forall>r h. ?p r = Inr (Hard h) \<longrightarrow> h \<noteq> []"
    using direct_nonempty(1) from_project_nonempty by blast+
  let ?mixed = "crf_base_ref refs \<noteq> None \<and> project_base refs \<noteq> None"
  let ?run = "and_then (resolve_base ?d ?p refs (direct_part refs)) (children_stages ?d ?p refs)"
  have mixed: "base_resolves ?d ?p refs l \<Longrightarrow> \<not> ?mixed" for l
    by (auto simp: base_resolves_def project_base_def split: option.splits if_splits)
  have go: "?run = Inr (Inr out) \<longleftrightarrow>
      (\<exists>l as bs. base_resolves ?d ?p refs l \<and>
        list_all2 (\<lambda>r l. ?d r = Inr (Label l)) (crf_child_refs refs) as \<and>
        list_all2 (\<lambda>r l. ?p r = Inr (Label l)) (project_children refs) bs \<and>
        out = no_resolution\<lparr>cr_base_label := l, cr_child_labels := direct_labels refs @ as @ bs\<rparr>)"
    if "\<not> ?mixed"
  proof -
    have "children_stages ?d ?p refs ((direct_part refs)\<lparr>cr_base_label := l\<rparr>) = Inr (Inr out) \<longleftrightarrow>
        (\<exists>as bs. list_all2 (\<lambda>r l. ?d r = Inr (Label l)) (crf_child_refs refs) as \<and>
          list_all2 (\<lambda>r l. ?p r = Inr (Label l)) (project_children refs) bs \<and>
          out = no_resolution\<lparr>cr_base_label := l, cr_child_labels := direct_labels refs @ as @ bs\<rparr>)" for l
      by (subst children_stages_ok(1) [OF _ hd hp]) (simp_all add: direct_part_def)
    then show ?thesis unfolding and_then_iff resolve_base_ok [OF that] ex_through by blast
  qed
  have stop: "\<not> complete out" if run: "?run = Inr (Inl out)" and nm: "\<not> ?mixed"
  proof -
    consider "resolve_base ?d ?p refs (direct_part refs) = Inr (Inl out)"
      | o' where "resolve_base ?d ?p refs (direct_part refs) = Inr (Inr o')"
        "children_stages ?d ?p refs o' = Inr (Inl out)"
      using run unfolding and_then_iff by blast
    then show ?thesis
    proof cases
      case 1
      then show ?thesis by (rule resolve_base_stop [OF _ hd hp])
    next
      case (2 o')
      then have "complete o'" unfolding resolve_base_ok [OF nm] by auto
      then show ?thesis by (rule children_stages_ok(2) [OF _ hd hp 2(2)])
    qed
  qed
  show ?thesis
    unfolding resolveChannelRefs_stages returned_iff children_resolve_def
    using go stop mixed by (cases ?mixed) (auto simp: no_resolution_def complete_def)
qed

end
