(* ===== verification/Rpm_Header.thy ===== *)
theory Rpm_Header
  imports Go_Prelude "HOL-Library.Word"
begin

text \<open>
  \<^verbatim>\<open>internal/rpm/header.go\<close>: reading the name, epoch, version, release and architecture of a package
  out of the bytes of an RPM file.  The bytes come from a git repository, so the reader must stand
  any input.  A Go slice expression or \<^verbatim>\<open>binary.BigEndian.Uint32\<close> out of range panics: here that is
  the result \<open>Panic\<close>, next to the errors the code returns.

  Offsets are Go \<^verbatim>\<open>int\<close>s on a 64-bit platform.  Counts and sizes are read from 32 bits, so every sum
  below stays under \<open>2 ^ 40\<close> and the naturals used here agree with them.
\<close>

unbundle bit_operations_syntax

section \<open>Bytes, slices and outcomes\<close>

type_synonym bytes = "8 word list"

datatype 'a exec = Panic | Fail string | Done 'a

definition bind_exec :: "'a exec \<Rightarrow> ('a \<Rightarrow> 'b exec) \<Rightarrow> 'b exec" where
  "bind_exec m f = (case m of Panic \<Rightarrow> Panic | Fail e \<Rightarrow> Fail e | Done x \<Rightarrow> f x)"

lemma bind_exec_simps [simp]:
  "bind_exec Panic f = Panic" "bind_exec (Fail e) f = Fail e" "bind_exec (Done x) f = f x"
  by (simp_all add: bind_exec_def)

text \<open>\<^verbatim>\<open>d[a:b]\<close>, \<^verbatim>\<open>d[a:]\<close> and \<^verbatim>\<open>binary.BigEndian.Uint32(d)\<close>.\<close>

definition slice :: "bytes \<Rightarrow> nat \<Rightarrow> nat \<Rightarrow> bytes exec" where
  "slice d a b = (if a \<le> b \<and> b \<le> length d then Done (take (b - a) (drop a d)) else Panic)"

definition slice_from :: "bytes \<Rightarrow> nat \<Rightarrow> bytes exec" where
  "slice_from d a = slice d a (length d)"

definition be32 :: "8 word \<Rightarrow> 8 word \<Rightarrow> 8 word \<Rightarrow> 8 word \<Rightarrow> 32 word" where
  "be32 a b c d = ucast d OR push_bit 8 (ucast c) OR push_bit 16 (ucast b) OR push_bit 24 (ucast a)"

definition uint32_be :: "bytes \<Rightarrow> 32 word exec" where
  "uint32_be ds = (case ds of a # b # c # d # _ \<Rightarrow> Done (be32 a b c d) | _ \<Rightarrow> Panic)"

definition bytes_string :: "bytes \<Rightarrow> string" where
  "bytes_string bs = map (\<lambda>b. char_of (unat b)) bs"

section \<open>The header\<close>

record rpm_header =
  hdr_name :: string
  hdr_epoch :: string
  hdr_version :: string
  hdr_release :: string
  hdr_arch :: string
  hdr_source :: bool

record rpm_entry =
  ent_typ :: "32 word"
  ent_offset :: "32 word"

definition tagName :: "32 word" where "tagName = 1000"

definition tagVersion :: "32 word" where "tagVersion = 1001"

definition tagRelease :: "32 word" where "tagRelease = 1002"

definition tagEpoch :: "32 word" where "tagEpoch = 1003"

definition tagArch :: "32 word" where "tagArch = 1022"

definition tagSourceRPM :: "32 word" where "tagSourceRPM = 1044"

definition typeInt32 :: "32 word" where "typeInt32 = 4"

definition typeString :: "32 word" where "typeString = 6"

lemmas tag_defs = tagName_def tagVersion_def tagRelease_def tagEpoch_def tagArch_def
  tagSourceRPM_def typeInt32_def typeString_def

type_synonym entries = "32 word \<rightharpoonup> rpm_entry"

text \<open>The loop over the index: \<open>n\<close> entries are left, the next one is number \<open>i\<close>.\<close>

fun entry_loop :: "bytes \<Rightarrow> nat \<Rightarrow> nat \<Rightarrow> nat \<Rightarrow> entries \<Rightarrow> entries exec" where
  "entry_loop d off i 0 m = Done m"
| "entry_loop d off i (Suc n) m =
     bind_exec (slice_from d (off + 16 + 16 * i)) (\<lambda>e.
     bind_exec (uint32_be e) (\<lambda>tag.
     bind_exec (bind_exec (slice_from e 4) uint32_be) (\<lambda>typ.
     bind_exec (bind_exec (slice_from e 8) uint32_be) (\<lambda>offset.
     entry_loop d off (Suc i) n (m(tag \<mapsto> \<lparr>ent_typ = typ, ent_offset = offset\<rparr>))))))"

definition parseHeader :: "bytes \<Rightarrow> nat \<Rightarrow> (entries \<times> bytes \<times> nat) exec" where
  "parseHeader d off =
     (if length d < off + 16 then Fail ''bad header magic''
      else bind_exec (slice d off (off + 3)) (\<lambda>magic.
        if magic \<noteq> [0x8e, 0xad, 0xe8] then Fail ''bad header magic''
        else bind_exec (bind_exec (slice_from d (off + 8)) uint32_be) (\<lambda>count32.
        bind_exec (bind_exec (slice_from d (off + 12)) uint32_be) (\<lambda>size32.
          let count = unat count32; storeStart = off + 16 + 16 * count; end = storeStart + unat size32
          in if end > length d then Fail ''truncated header''
             else bind_exec (entry_loop d off 0 count Map.empty) (\<lambda>entries.
               bind_exec (slice d storeStart end) (\<lambda>store. Done (entries, store, end - off)))))))"

definition readString :: "entries \<Rightarrow> bytes \<Rightarrow> 32 word \<Rightarrow> string exec" where
  "readString entries store tag =
     (case entries tag of
        None \<Rightarrow> Done []
      | Some e \<Rightarrow>
          if ent_typ e \<noteq> typeString \<or> unat (ent_offset e) \<ge> length store then Done []
          else bind_exec (slice_from store (unat (ent_offset e))) (\<lambda>s.
            Done (bytes_string (takeWhile (\<lambda>b. b \<noteq> 0) s))))"

definition readEpoch :: "entries \<Rightarrow> bytes \<Rightarrow> string exec" where
  "readEpoch entries store =
     (case entries tagEpoch of
        None \<Rightarrow> Done []
      | Some e \<Rightarrow>
          if ent_typ e = typeInt32 \<and> unat (ent_offset e) + 4 \<le> length store
          then bind_exec (bind_exec (slice_from store (unat (ent_offset e))) uint32_be) (\<lambda>v.
            Done (nat_digits (unat v)))
          else Done [])"

text \<open>An error of \<^verbatim>\<open>parseHeader\<close> gets a prefix.\<close>

definition prefix_error :: "string \<Rightarrow> 'a exec \<Rightarrow> 'a exec" where
  "prefix_error p m = (case m of Fail e \<Rightarrow> Fail (p @ e) | _ \<Rightarrow> m)"

definition header_of :: "entries \<Rightarrow> bytes \<Rightarrow> rpm_header exec" where
  "header_of entries store =
     bind_exec (readString entries store tagName) (\<lambda>name.
     bind_exec (readString entries store tagVersion) (\<lambda>version.
     bind_exec (readString entries store tagRelease) (\<lambda>release.
     bind_exec (readString entries store tagArch) (\<lambda>arch.
     bind_exec (readEpoch entries store) (\<lambda>epoch.
       if name = [] \<or> version = [] \<or> release = [] \<or> arch = [] then Fail ''incomplete RPM header''
       else Done \<lparr>hdr_name = name, hdr_epoch = epoch, hdr_version = version, hdr_release = release,
         hdr_arch = arch, hdr_source = (entries tagSourceRPM = None)\<rparr>)))))"

definition ReadHeader :: "bytes \<Rightarrow> rpm_header exec" where
  "ReadHeader d =
     (if length d < 96 then Fail ''not an RPM file''
      else bind_exec (slice d 0 4) (\<lambda>lead.
        if lead \<noteq> [0xed, 0xab, 0xee, 0xdb] then Fail ''not an RPM file''
        else bind_exec (prefix_error ''signature header: '' (parseHeader d 96)) (\<lambda>(_, _, sigLen).
          let mainOff = 96 + sigLen + (8 - sigLen mod 8) mod 8
          in bind_exec (prefix_error ''main header: '' (parseHeader d mainOff)) (\<lambda>(entries, store, _).
            header_of entries store))))"

section \<open>No input makes the reader panic\<close>

lemma slice_Done [simp]: "a \<le> b \<Longrightarrow> b \<le> length d \<Longrightarrow> slice d a b = Done (take (b - a) (drop a d))"
  by (simp add: slice_def)

lemma slice_from_Done [simp]: "a \<le> length d \<Longrightarrow> slice_from d a = Done (drop a d)"
  by (simp add: slice_from_def)

lemma uint32_be_Done: "length d \<ge> 4 \<Longrightarrow> \<exists>w. uint32_be d = Done w"
  unfolding uint32_be_def by (auto simp: Suc_le_length_iff numeral_eq_Suc)

lemma uint32_at:
  "a + 4 \<le> length d \<Longrightarrow> \<exists>w. bind_exec (slice_from d a) uint32_be = Done w"
  using uint32_be_Done [of "drop a d"] by simp

lemma entry_loop_Done:
  "off + 16 + 16 * (i + n) \<le> length d \<Longrightarrow> \<exists>m'. entry_loop d off i n m = Done m'"
proof (induction n arbitrary: i m)
  case 0
  then show ?case by simp
next
  case (Suc n)
  let ?e = "drop (off + 16 + 16 * i) d"
  have len: "length ?e \<ge> 16" using Suc.prems by simp
  obtain tag ty offset where "uint32_be ?e = Done tag"
    "bind_exec (slice_from ?e 4) uint32_be = Done ty"
    "bind_exec (slice_from ?e 8) uint32_be = Done offset"
    using uint32_be_Done [of ?e] uint32_at [of 4 ?e] uint32_at [of 8 ?e] len by force
  moreover have "slice_from d (off + 16 + 16 * i) = Done ?e" using Suc.prems by simp
  moreover have "off + 16 + 16 * (Suc i + n) \<le> length d" using Suc.prems by simp
  ultimately show ?case using Suc.IH by simp
qed

lemma parseHeader_total:
  "(\<exists>e. parseHeader d off = Fail e) \<or> (\<exists>entries store n. parseHeader d off = Done (entries, store, n))"
proof (cases "length d < off + 16 \<or> take 3 (drop off d) \<noteq> [0x8e, 0xad, 0xe8]")
  case True
  then show ?thesis by (auto simp: parseHeader_def)
next
  case False
  then obtain c s where cs: "bind_exec (slice_from d (off + 8)) uint32_be = Done c"
    "bind_exec (slice_from d (off + 12)) uint32_be = Done s"
    using uint32_at [of "off + 8" d] uint32_at [of "off + 12" d] by auto
  show ?thesis
  proof (cases "off + 16 + 16 * unat c + unat s > length d")
    case True
    then show ?thesis using False cs by (simp add: parseHeader_def Let_def)
  next
    case fits: False
    then obtain m where "entry_loop d off 0 (unat c) Map.empty = Done m"
      using entry_loop_Done [of off 0 "unat c" d Map.empty] by auto
    then show ?thesis using False cs fits by (simp add: parseHeader_def Let_def)
  qed
qed

lemma readString_total: "\<exists>s. readString entries store tag = Done s"
  by (auto simp: readString_def split: option.split)

lemma readEpoch_total: "\<exists>s. readEpoch entries store = Done s"
  using uint32_at [of _ store] by (fastforce simp: readEpoch_def split: option.split)

lemma header_of_total: "header_of entries store \<noteq> Panic"
proof -
  obtain n v r a e where "readString entries store tagName = Done n"
    "readString entries store tagVersion = Done v" "readString entries store tagRelease = Done r"
    "readString entries store tagArch = Done a" "readEpoch entries store = Done e"
    using readString_total readEpoch_total by meson
  then show ?thesis by (simp add: header_of_def)
qed

text \<open>
  C19.  Whatever bytes it is given, the reader returns a header or an error: every slice expression
  and every integer read of it is in range.
\<close>

theorem read_header_never_panics: "ReadHeader d \<noteq> Panic"
proof (cases "length d < 96 \<or> take 4 d \<noteq> [0xed, 0xab, 0xee, 0xdb]")
  case True
  then show ?thesis by (auto simp: ReadHeader_def)
next
  case False
  have main: "bind_exec (prefix_error p (parseHeader d off)) (\<lambda>(entries, store, _). header_of entries store) \<noteq> Panic"
    for p off
    using parseHeader_total [of d off] header_of_total by (auto simp: prefix_error_def)
  show ?thesis
    using parseHeader_total [of d 96] main False by (auto simp: ReadHeader_def prefix_error_def Let_def)
qed

section \<open>The layout of a package file\<close>

definition be_bytes :: "32 word \<Rightarrow> bytes" where
  "be_bytes w = [ucast (drop_bit 24 w), ucast (drop_bit 16 w), ucast (drop_bit 8 w), ucast w]"

lemma length_be_bytes [simp]: "length (be_bytes w) = 4"
  by (simp add: be_bytes_def)

lemma uint32_be_bytes [simp]: "uint32_be (be_bytes w @ rest) = Done w"
proof -
  have "be32 (ucast (drop_bit 24 w)) (ucast (drop_bit 16 w)) (ucast (drop_bit 8 w)) (ucast w) = w"
    unfolding be32_def
  proof (rule bit_word_eqI)
    fix n
    assume "n < LENGTH(32)"
    then show "bit (ucast (ucast w :: 8 word) OR push_bit 8 (ucast (ucast (drop_bit 8 w) :: 8 word))
        OR push_bit 16 (ucast (ucast (drop_bit 16 w) :: 8 word))
        OR push_bit 24 (ucast (ucast (drop_bit 24 w) :: 8 word)) :: 32 word) n = bit w n"
      by (cases "n < 8"; cases "n < 16"; cases "n < 24") (auto simp: bit_simps)
  qed
  then show ?thesis by (simp add: be_bytes_def uint32_be_def)
qed

text \<open>An index entry: tag, type, offset into the store, number of values.\<close>

type_synonym index_entry = "32 word \<times> 32 word \<times> 32 word \<times> 32 word"

definition entry_bytes :: "index_entry \<Rightarrow> bytes" where
  "entry_bytes e = (case e of (tag, typ, offset, n) \<Rightarrow> be_bytes tag @ be_bytes typ @ be_bytes offset @ be_bytes n)"

definition header_bytes :: "bytes \<Rightarrow> index_entry list \<Rightarrow> bytes \<Rightarrow> bytes" where
  "header_bytes reserved es store =
     [0x8e, 0xad, 0xe8] @ reserved @ be_bytes (of_nat (length es)) @ be_bytes (of_nat (length store))
     @ concat (map entry_bytes es) @ store"

definition index_map :: "index_entry list \<Rightarrow> entries \<Rightarrow> entries" where
  "index_map es m = foldl (\<lambda>m (tag, typ, offset, n). m(tag \<mapsto> \<lparr>ent_typ = typ, ent_offset = offset\<rparr>)) m es"

lemma length_entry_bytes [simp]: "length (entry_bytes e) = 16"
  by (simp add: entry_bytes_def split: prod.split)

lemma length_index [simp]: "length (concat (map entry_bytes es)) = 16 * length es"
  by (induction es) simp_all

lemma length_header_bytes:
  "length reserved = 5 \<Longrightarrow> length (header_bytes reserved es store) = 16 + 16 * length es + length store"
  by (simp add: header_bytes_def)

lemma entry_loop_bytes:
  "length pre = off + 16 + 16 * i \<Longrightarrow>
     entry_loop (pre @ concat (map entry_bytes es) @ post) off i (length es) m = Done (index_map es m)"
proof (induction es arbitrary: pre i m)
  case Nil
  then show ?case by (simp add: index_map_def)
next
  case (Cons e es)
  obtain tag ty offset n where e: "e = (tag, ty, offset, n)" by (cases e)
  have "length (pre @ entry_bytes e) = off + 16 + 16 * Suc i" using Cons.prems by simp
  from Cons.IH [OF this] show ?case
    using Cons.prems by (simp add: e entry_bytes_def index_map_def)
qed

lemma parse_header_bytes:
  assumes "length reserved = 5" "length es < 2 ^ 32" "length store < 2 ^ 32"
  shows "parseHeader (pre @ header_bytes reserved es store @ post) (length pre) =
    Done (index_map es Map.empty, store, length (header_bytes reserved es store))"
proof -
  let ?d = "pre @ header_bytes reserved es store @ post"
  have es: "unat (of_nat (length es) :: 32 word) = length es" "unat (of_nat (length store) :: 32 word) = length store"
    using assms by (simp_all add: unsigned_of_nat take_bit_nat_eq_self_iff)
  have d: "?d = (pre @ [0x8e, 0xad, 0xe8] @ reserved @ be_bytes (of_nat (length es))
      @ be_bytes (of_nat (length store))) @ concat (map entry_bytes es) @ store @ post"
    by (simp add: header_bytes_def)
  have loop: "entry_loop ?d (length pre) 0 (length es) Map.empty = Done (index_map es Map.empty)"
    unfolding d by (rule entry_loop_bytes) (use assms in simp)
  have drops: "drop (length pre + 8) ?d = be_bytes (of_nat (length es)) @ be_bytes (of_nat (length store))
      @ concat (map entry_bytes es) @ store @ post"
    "drop (length pre + 12) ?d = be_bytes (of_nat (length store)) @ concat (map entry_bytes es) @ store @ post"
    "take 3 (drop (length pre) ?d) = [0x8e, 0xad, 0xe8]"
    using assms(1) by (simp_all add: header_bytes_def)
  define P where "P = pre @ [0x8e, 0xad, 0xe8] @ reserved @ be_bytes (of_nat (length es))
      @ be_bytes (of_nat (length store)) @ concat (map entry_bytes es)"
  have lP: "length pre + 16 + 16 * length es = length P" and dP: "?d = P @ store @ post"
    using assms(1) by (simp_all add: P_def header_bytes_def)
  have store: "take (length store) (drop (length pre + 16 + 16 * length es) ?d) = store"
    unfolding lP dP by simp
  have len: "length ?d = length pre + 16 + 16 * length es + length store + length post"
    using assms(1) by (simp add: length_header_bytes)
  define dd where "dd = ?d"
  have "bind_exec (slice_from dd (length pre + 8)) uint32_be = Done (of_nat (length es))"
    "bind_exec (slice_from dd (length pre + 12)) uint32_be = Done (of_nat (length store))"
    using drops(1,2) len unfolding dd_def by (simp_all del: append_assoc drop_append)
  moreover note drops(3) store loop len
  ultimately show ?thesis
    unfolding dd_def [symmetric]
    by (simp add: parseHeader_def Let_def es length_header_bytes [OF assms(1)])
qed

text \<open>
  A package file: the 96-byte lead, the signature header, padding to a multiple of eight bytes and
  the main header; the payload \<open>rest\<close> follows.
\<close>

definition rpm_file ::
  "bytes \<Rightarrow> bytes \<Rightarrow> index_entry list \<Rightarrow> bytes \<Rightarrow> bytes \<Rightarrow> index_entry list \<Rightarrow> bytes \<Rightarrow> bytes \<Rightarrow> bytes" where
  "rpm_file lead sres ses sstore res es store rest =
     lead @ header_bytes sres ses sstore
     @ replicate ((8 - length (header_bytes sres ses sstore) mod 8) mod 8) 0
     @ header_bytes res es store @ rest"

definition lead_ok :: "bytes \<Rightarrow> bool" where
  "lead_ok lead = (length lead = 96 \<and> take 4 lead = [0xed, 0xab, 0xee, 0xdb])"

lemma read_rpm_file:
  assumes lead: "lead_ok lead" and sig: "length sres = 5" "length ses < 2 ^ 32" "length sstore < 2 ^ 32"
    and hdr: "length res = 5" "length es < 2 ^ 32" "length store < 2 ^ 32"
  shows "ReadHeader (rpm_file lead sres ses sstore res es store rest) = header_of (index_map es Map.empty) store"
proof -
  let ?sig = "header_bytes sres ses sstore" and ?hdr = "header_bytes res es store"
  let ?pad = "replicate ((8 - length ?sig mod 8) mod 8) 0 :: bytes"
  let ?d = "rpm_file lead sres ses sstore res es store rest"
  have l: "length lead = 96" using lead by (simp add: lead_ok_def)
  have d: "?d = lead @ ?sig @ (?pad @ ?hdr @ rest)" "?d = (lead @ ?sig @ ?pad) @ ?hdr @ rest"
    by (simp_all add: rpm_file_def)
  have p1: "parseHeader ?d 96 = Done (index_map ses Map.empty, sstore, length ?sig)"
    using parse_header_bytes [OF sig, of lead "?pad @ ?hdr @ rest"] l unfolding d(1) by simp
  have p2: "parseHeader ?d (96 + length ?sig + (8 - length ?sig mod 8) mod 8) =
      Done (index_map es Map.empty, store, length ?hdr)"
    using parse_header_bytes [OF hdr, of "lead @ ?sig @ ?pad" rest] l unfolding d(2) by (simp add: add.assoc)
  have "take 4 ?d = [0xed, 0xab, 0xee, 0xdb]" "96 \<le> length ?d"
    using lead unfolding d(1) by (simp_all add: lead_ok_def)
  then show ?thesis
    using p1 p2 by (simp add: ReadHeader_def prefix_error_def Let_def)
qed

text \<open>
  The main header of a package with given fields: the strings one after the other with their zero
  bytes, then the epoch; source packages lack the source tag.
\<close>

definition nevra_store :: "bytes \<Rightarrow> bytes \<Rightarrow> bytes \<Rightarrow> bytes \<Rightarrow> 32 word option \<Rightarrow> bytes" where
  "nevra_store name version release arch epoch =
     name @ [0] @ version @ [0] @ release @ [0] @ arch @ [0]
     @ (case epoch of None \<Rightarrow> [] | Some e \<Rightarrow> be_bytes e)"

definition nevra_index :: "bytes \<Rightarrow> bytes \<Rightarrow> bytes \<Rightarrow> bytes \<Rightarrow> 32 word option \<Rightarrow> bool \<Rightarrow> index_entry list" where
  "nevra_index name version release arch epoch source =
     (let o1 = length name + 1; o2 = o1 + length version + 1; o3 = o2 + length release + 1;
          o4 = o3 + length arch + 1
      in [(tagName, typeString, 0, 1), (tagVersion, typeString, of_nat o1, 1),
          (tagRelease, typeString, of_nat o2, 1), (tagArch, typeString, of_nat o3, 1)]
         @ (case epoch of None \<Rightarrow> [] | Some _ \<Rightarrow> [(tagEpoch, typeInt32, of_nat o4, 1)])
         @ (if source then [] else [(tagSourceRPM, typeString, 0, 1)]))"

lemma read_string_at:
  assumes "entries tag = Some \<lparr>ent_typ = typeString, ent_offset = of_nat (length pre)\<rparr>"
    and "store = pre @ s @ 0 # post" "0 \<notin> set s" "length store < 2 ^ 32"
  shows "readString entries store tag = Done (bytes_string s)"
proof -
  have "unat (of_nat (length pre) :: 32 word) = length pre"
    using assms(2,4) by (simp add: unsigned_of_nat take_bit_nat_eq_self_iff)
  moreover have "takeWhile (\<lambda>b. b \<noteq> 0) (s @ 0 # post) = s"
    using assms(3) by (subst takeWhile_append2) auto
  ultimately show ?thesis using assms(1,2) by (simp add: readString_def)
qed

lemma nevra_store_parts:
  "nevra_store name version release arch epoch = [] @ name @ 0 # (version @ [0] @ release @ [0] @ arch @ [0]
     @ (case epoch of None \<Rightarrow> [] | Some e \<Rightarrow> be_bytes e))"
  "nevra_store name version release arch epoch = (name @ [0]) @ version @ 0 # (release @ [0] @ arch @ [0]
     @ (case epoch of None \<Rightarrow> [] | Some e \<Rightarrow> be_bytes e))"
  "nevra_store name version release arch epoch = (name @ [0] @ version @ [0]) @ release @ 0 # (arch @ [0]
     @ (case epoch of None \<Rightarrow> [] | Some e \<Rightarrow> be_bytes e))"
  "nevra_store name version release arch epoch = (name @ [0] @ version @ [0] @ release @ [0]) @ arch
     @ 0 # (case epoch of None \<Rightarrow> [] | Some e \<Rightarrow> be_bytes e)"
  by (simp_all add: nevra_store_def)

lemma tags_distinct:
  "distinct [tagName, tagVersion, tagRelease, tagEpoch, tagArch, tagSourceRPM]"
  by code_simp

lemma nevra_index_map:
  fixes name version release arch :: bytes and epoch :: "32 word option" and source :: bool
  defines "m \<equiv> index_map (nevra_index name version release arch epoch source) Map.empty"
  shows "m tagName = Some \<lparr>ent_typ = typeString, ent_offset = of_nat (length ([] :: bytes))\<rparr>"
    "m tagVersion = Some \<lparr>ent_typ = typeString, ent_offset = of_nat (length (name @ [0]))\<rparr>"
    "m tagRelease = Some \<lparr>ent_typ = typeString, ent_offset = of_nat (length (name @ [0] @ version @ [0]))\<rparr>"
    "m tagArch = Some \<lparr>ent_typ = typeString,
       ent_offset = of_nat (length (name @ [0] @ version @ [0] @ release @ [0]))\<rparr>"
    "m tagEpoch = (case epoch of None \<Rightarrow> None | Some _ \<Rightarrow> Some \<lparr>ent_typ = typeInt32,
       ent_offset = of_nat (length (name @ [0] @ version @ [0] @ release @ [0] @ arch @ [0]))\<rparr>)"
    "m tagSourceRPM = None \<longleftrightarrow> source"
  using tags_distinct unfolding m_def
  by (auto simp: nevra_index_def index_map_def Let_def add_ac split: option.split)

text \<open>
  C18.  Reading gives back what a package says: for a file with any signature header and payload and
  a main header that states non-empty fields without zero bytes, the reader returns exactly these
  fields, the epoch in decimal (empty when there is none), and source packages are told by the
  missing source tag.
\<close>

theorem nevra_roundtrip:
  fixes name version release arch :: bytes and epoch :: "32 word option" and source :: bool
  defines "store \<equiv> nevra_store name version release arch epoch"
  assumes "lead_ok lead" "length sres = 5" "length ses < 2 ^ 32" "length sstore < 2 ^ 32" "length res = 5"
    and fields: "0 \<notin> set name" "0 \<notin> set version" "0 \<notin> set release" "0 \<notin> set arch"
      "name \<noteq> []" "version \<noteq> []" "release \<noteq> []" "arch \<noteq> []"
    and size: "length store < 2 ^ 32"
  shows "ReadHeader (rpm_file lead sres ses sstore res
      (nevra_index name version release arch epoch source) store rest) =
    Done \<lparr>hdr_name = bytes_string name,
      hdr_epoch = (case epoch of None \<Rightarrow> [] | Some e \<Rightarrow> nat_digits (unat e)),
      hdr_version = bytes_string version, hdr_release = bytes_string release,
      hdr_arch = bytes_string arch, hdr_source = source\<rparr>"
proof -
  let ?es = "nevra_index name version release arch epoch source"
  let ?m = "index_map ?es Map.empty"
  have few: "length ?es < 2 ^ 32" by (simp add: nevra_index_def Let_def split: option.split)
  note m = nevra_index_map [of name version release arch epoch source]
  note sz = size [unfolded store_def]
  note parts = nevra_store_parts [of name version release arch epoch]
  have strings: "readString ?m store tagName = Done (bytes_string name)"
    "readString ?m store tagVersion = Done (bytes_string version)"
    "readString ?m store tagRelease = Done (bytes_string release)"
    "readString ?m store tagArch = Done (bytes_string arch)"
    unfolding store_def
    by (rule read_string_at [where entries = ?m and pre = "[]" and s = name, OF m(1) parts(1) fields(1) sz]
        read_string_at [where entries = ?m and pre = "name @ [0]" and s = version, OF m(2) parts(2) fields(2) sz]
        read_string_at [where entries = ?m and pre = "name @ [0] @ version @ [0]" and s = release, OF m(3) parts(3) fields(3) sz]
        read_string_at [where entries = ?m and pre = "name @ [0] @ version @ [0] @ release @ [0]" and s = arch,
          OF m(4) parts(4) fields(4) sz])+
  have epoch: "readEpoch ?m store = Done (case epoch of None \<Rightarrow> [] | Some e \<Rightarrow> nat_digits (unat e))"
  proof (cases epoch)
    case None
    then show ?thesis using m(5) by (simp add: readEpoch_def)
  next
    case (Some e)
    let ?pre = "name @ [0] @ version @ [0] @ release @ [0] @ arch @ [0]"
    have s: "store = ?pre @ be_bytes e @ []" using Some by (simp add: store_def nevra_store_def)
    define n where "n = length ?pre"
    have len: "length store = n + 4" unfolding s n_def length_append by simp
    then have "n < 2 ^ 32" using size by linarith
    then have un: "unat (of_nat n :: 32 word) = n" by (simp add: unsigned_of_nat take_bit_nat_eq_self_iff)
    have "drop n store = be_bytes e @ []" unfolding s n_def by (rule append_eq_conv_conj [THEN iffD1, THEN conjunct2, symmetric]) simp
    note n = un len this
    have e: "?m tagEpoch = Some \<lparr>ent_typ = typeInt32, ent_offset = of_nat n\<rparr>"
      using m(5) Some by (simp add: n_def)
    show ?thesis using Some n uint32_be_bytes [of e "[]"] unfolding readEpoch_def e by simp
  qed
  have "ReadHeader (rpm_file lead sres ses sstore res ?es store rest) = header_of ?m store"
    using assms few by (intro read_rpm_file) simp_all
  then show ?thesis
    using strings epoch m(6) fields(5-8) by (simp add: header_of_def bytes_string_def)
qed

definition demo_lead :: bytes where
  "demo_lead = [0xed, 0xab, 0xee, 0xdb] @ replicate 92 0"

theorem nevra_roundtrip_witness:
  "ReadHeader (rpm_file demo_lead [1, 0, 0, 0, 0] [] [] [1, 0, 0, 0, 0]
      (nevra_index [0x61] [0x31] [0x32] [0x78] (Some 3) False)
      (nevra_store [0x61] [0x31] [0x32] [0x78] (Some 3)) []) =
    Done \<lparr>hdr_name = ''a'', hdr_epoch = ''3'', hdr_version = ''1'', hdr_release = ''2'', hdr_arch = ''x'',
      hdr_source = False\<rparr>"
proof -
  have "lead_ok demo_lead" by (simp add: lead_ok_def demo_lead_def)
  moreover have "length (nevra_store [0x61] [0x31] [0x32] [0x78] (Some 3)) < 2 ^ 32"
    by (simp add: nevra_store_def)
  moreover have "nat_digits (unat (3 :: 32 word)) = ''3''" by code_simp
  moreover have "bytes_string [0x61] = ''a''" "bytes_string [0x31] = ''1''" "bytes_string [0x32] = ''2''"
    "bytes_string [0x78] = ''x''" by code_simp+
  ultimately show ?thesis
    using nevra_roundtrip [of demo_lead "[1, 0, 0, 0, 0]" "[]" "[]" "[1, 0, 0, 0, 0]"
        "[0x61]" "[0x31]" "[0x32]" "[0x78]" "Some 3" False "[]"] by simp
qed

end
