(* ===== verification/Cobbler_Xmlrpc.thy ===== *)
theory Cobbler_Xmlrpc
  imports Go_Prelude
begin

text \<open>
  \<^verbatim>\<open>internal/cobbler/xmlrpc.go\<close>: the hand-written XMLRPC codec.  The encoder writes XML text and the
  decoder reads the tokens of \<^verbatim>\<open>encoding/xml\<close>; both are modelled on tokens (\<^verbatim>\<open>xml.StartElement\<close>,
  \<^verbatim>\<open>xml.EndElement\<close>, \<^verbatim>\<open>xml.CharData\<close>), and \<open>render\<close> is the text of a token list, with
  \<^verbatim>\<open>xml.EscapeText\<close> as a parameter.  A reader that runs out of tokens gets \<^verbatim>\<open>io.EOF\<close> or a syntax
  error from the standard library.

  A Go map is an association list with distinct keys, in its iteration order when it is encoded.
  The \<^verbatim>\<open>%g\<close> text of a \<^verbatim>\<open>float64\<close> and \<^verbatim>\<open>strconv.ParseFloat\<close> are parameters.
\<close>

section \<open>Values and tokens\<close>

datatype token = TStart string | TEnd string | TText string

text \<open>The arguments \<^verbatim>\<open>encodeValue\<close> supports; any other Go type is
  \<open>AOther\<close> with its name (the \<^verbatim>\<open>%T\<close> verb).\<close>

datatype 'd xarg =
    AStr string
  | ABool bool
  | AInt int
  | AFloat 'd
  | AMapString "(string \<times> string) list"
  | AMapAny "(string \<times> 'd xarg) list"
  | AStrings "string list"
  | AList "'d xarg list"
  | AOther string

datatype 'd xval =
    XStr string
  | XInt int
  | XBool bool
  | XFloat 'd
  | XStruct "(string \<times> 'd xval) list"
  | XArray "'d xval list"
  | XNil

definition put :: "'k \<Rightarrow> 'v \<Rightarrow> ('k \<times> 'v) list \<Rightarrow> ('k \<times> 'v) list" where
  "put k v m = (if k \<in> fst ` set m then map (\<lambda>(k', v'). (k', if k' = k then v else v')) m else m @ [(k, v)])"

section \<open>Encoding\<close>

definition text_tokens :: "string \<Rightarrow> token list" where
  "text_tokens s = (if s = [] then [] else [TText s])"

definition element :: "string \<Rightarrow> token list \<Rightarrow> token list" where
  "element n ts = TStart n # ts @ [TEnd n]"

definition member_tokens :: "string \<Rightarrow> token list \<Rightarrow> token list" where
  "member_tokens k ts = element ''member'' (element ''name'' (text_tokens k) @ ts)"

fun encodeString :: "string \<Rightarrow> token list" where
  "encodeString s = element ''value'' (element ''string'' (text_tokens s))"

fun encodeValue :: "('d \<Rightarrow> string) \<Rightarrow> 'd xarg \<Rightarrow> go_error + token list"
  and encodeMembers :: "('d \<Rightarrow> string) \<Rightarrow> (string \<times> 'd xarg) list \<Rightarrow> go_error + token list"
  and encodeItems :: "('d \<Rightarrow> string) \<Rightarrow> 'd xarg list \<Rightarrow> go_error + token list" where
  "encodeValue fmt (AStr s) = Inr (encodeString s)"
| "encodeValue fmt (ABool b) =
     Inr (element ''value'' (element ''boolean'' [TText (if b then ''1'' else ''0'')]))"
| "encodeValue fmt (AInt i) = Inr (element ''value'' (element ''int'' [TText (itoa i)]))"
| "encodeValue fmt (AFloat d) = Inr (element ''value'' (element ''double'' [TText (fmt d)]))"
| "encodeValue fmt (AMapString m) =
     Inr (element ''value'' (element ''struct'' (concat (map (\<lambda>(k, s). member_tokens k (encodeString s)) m))))"
| "encodeValue fmt (AMapAny m) =
     (case encodeMembers fmt m of
        Inl e \<Rightarrow> Inl e | Inr ts \<Rightarrow> Inr (element ''value'' (element ''struct'' ts)))"
| "encodeValue fmt (AStrings ss) =
     Inr (element ''value'' (element ''array'' (element ''data'' (concat (map encodeString ss)))))"
| "encodeValue fmt (AList xs) =
     (case encodeItems fmt xs of
        Inl e \<Rightarrow> Inl e | Inr ts \<Rightarrow> Inr (element ''value'' (element ''array'' (element ''data'' ts))))"
| "encodeValue fmt (AOther t) = Inl (errorf (''cobbler xmlrpc: unsupported argument type '' @ t))"
| "encodeMembers fmt [] = Inr []"
| "encodeMembers fmt ((k, a) # m) =
     (case encodeValue fmt a of
        Inl e \<Rightarrow> Inl e
      | Inr ts \<Rightarrow> (case encodeMembers fmt m of Inl e \<Rightarrow> Inl e | Inr us \<Rightarrow> Inr (member_tokens k ts @ us)))"
| "encodeItems fmt [] = Inr []"
| "encodeItems fmt (a # xs) =
     (case encodeValue fmt a of
        Inl e \<Rightarrow> Inl e
      | Inr ts \<Rightarrow> (case encodeItems fmt xs of Inl e \<Rightarrow> Inl e | Inr us \<Rightarrow> Inr (ts @ us)))"

fun encodeParams :: "('d \<Rightarrow> string) \<Rightarrow> 'd xarg list \<Rightarrow> go_error + token list" where
  "encodeParams fmt [] = Inr []"
| "encodeParams fmt (a # args) =
     (case encodeValue fmt a of
        Inl e \<Rightarrow> Inl e
      | Inr ts \<Rightarrow> (case encodeParams fmt args of Inl e \<Rightarrow> Inl e | Inr us \<Rightarrow> Inr (element ''param'' ts @ us)))"

definition render_token :: "(string \<Rightarrow> string) \<Rightarrow> token \<Rightarrow> string" where
  "render_token escape t = (case t of TStart n \<Rightarrow> ''<'' @ n @ ''>'' | TEnd n \<Rightarrow> ''</'' @ n @ ''>''
     | TText s \<Rightarrow> escape s)"

definition render :: "(string \<Rightarrow> string) \<Rightarrow> token list \<Rightarrow> string" where
  "render escape ts = concat (map (render_token escape) ts)"

definition encodeRequest ::
  "(string \<Rightarrow> string) \<Rightarrow> ('d \<Rightarrow> string) \<Rightarrow> string \<Rightarrow> 'd xarg list \<Rightarrow> go_error + string" where
  "encodeRequest escape fmt method args =
     (case encodeParams fmt args of
        Inl e \<Rightarrow> Inl e
      | Inr ts \<Rightarrow> Inr (''<?xml version='' @ [CHR 0x22] @ ''1.0'' @ [CHR 0x22] @ ''?>''
          @ render escape (element ''methodCall''
              (element ''methodName'' (text_tokens method) @ element ''params'' ts))))"

section \<open>Decoding\<close>

text \<open>
  A reader returns a value with the tokens it has left, or the error of the token stream, or it has
  used up its fuel; the fuel counts tokens, and \<open>decode_enough_fuel\<close> shows that it never runs out.
\<close>

datatype 'a decoded = OutOfFuel | Failed go_error | Read 'a "token list"

definition then_read :: "'a decoded \<Rightarrow> ('a \<Rightarrow> token list \<Rightarrow> 'b decoded) \<Rightarrow> 'b decoded" where
  "then_read m f = (case m of OutOfFuel \<Rightarrow> OutOfFuel | Failed e \<Rightarrow> Failed e | Read x ts \<Rightarrow> f x ts)"

lemma then_read_simps [simp]:
  "then_read OutOfFuel f = OutOfFuel" "then_read (Failed e) f = Failed e" "then_read (Read x ts) f = f x ts"
  by (simp_all add: then_read_def)

definition is_space :: "char \<Rightarrow> bool" where
  "is_space c = (c \<in> {CHR '' '', CHR 0x09, CHR 0x0A, CHR 0x0B, CHR 0x0C, CHR 0x0D})"

text \<open>\<^verbatim>\<open>strings.TrimSpace\<close> on ASCII text.\<close>

definition trim_space :: "string \<Rightarrow> string" where
  "trim_space s = rev (dropWhile is_space (rev (dropWhile is_space s)))"

fun readText :: "go_error \<Rightarrow> string \<Rightarrow> token list \<Rightarrow> string decoded" where
  "readText eof sb [] = Failed eof"
| "readText eof sb (TText s # ts) = readText eof (sb @ s) ts"
| "readText eof sb (TEnd n # ts) = Read sb ts"
| "readText eof sb (TStart n # ts) = readText eof sb ts"

fun skipTo :: "go_error \<Rightarrow> string \<Rightarrow> token list \<Rightarrow> unit decoded" where
  "skipTo eof name [] = Failed eof"
| "skipTo eof name (TEnd n # ts) = (if n = name then Read () ts else skipTo eof name ts)"
| "skipTo eof name (TStart n # ts) = skipTo eof name ts"
| "skipTo eof name (TText s # ts) = skipTo eof name ts"

definition read_int :: "go_error \<Rightarrow> token list \<Rightarrow> 'd xval decoded" where
  "read_int eof ts = then_read (readText eof [] ts) (\<lambda>s ts'.
     case atoi (trim_space s) of None \<Rightarrow> Failed (errorf ''strconv.Atoi'') | Some i \<Rightarrow> Read (XInt i) ts')"

definition read_float :: "(string \<Rightarrow> 'd option) \<Rightarrow> go_error \<Rightarrow> token list \<Rightarrow> 'd xval decoded" where
  "read_float parse eof ts = then_read (readText eof [] ts) (\<lambda>s ts'.
     case parse (trim_space s) of None \<Rightarrow> Failed (errorf ''strconv.ParseFloat'') | Some d \<Rightarrow> Read (XFloat d) ts')"

text \<open>
  The value loop has the character data so far and the last typed element (\<^verbatim>\<open>result\<close>, with
  \<^verbatim>\<open>typed\<close> as \<open>Some\<close>); the member loop the name and value so far.
\<close>

function decodeValue :: "(string \<Rightarrow> 'd option) \<Rightarrow> go_error \<Rightarrow> nat \<Rightarrow> string \<Rightarrow> 'd xval option \<Rightarrow> token list \<Rightarrow>
    'd xval decoded"
  and decodeStruct :: "(string \<Rightarrow> 'd option) \<Rightarrow> go_error \<Rightarrow> nat \<Rightarrow> (string \<times> 'd xval) list \<Rightarrow> token list \<Rightarrow>
    (string \<times> 'd xval) list decoded"
  and decodeMember :: "(string \<Rightarrow> 'd option) \<Rightarrow> go_error \<Rightarrow> nat \<Rightarrow> string \<Rightarrow> 'd xval \<Rightarrow> token list \<Rightarrow>
    (string \<times> 'd xval) decoded"
  and decodeArray :: "(string \<Rightarrow> 'd option) \<Rightarrow> go_error \<Rightarrow> nat \<Rightarrow> 'd xval list \<Rightarrow> token list \<Rightarrow>
    'd xval list decoded" where
  "decodeValue pf eof 0 cd res ts = OutOfFuel"
| "decodeValue pf eof (Suc n) cd res ts = (case ts of
     [] \<Rightarrow> Failed eof
   | TText s # ts \<Rightarrow> decodeValue pf eof n (case res of None \<Rightarrow> cd @ s | Some _ \<Rightarrow> cd) res ts
   | TEnd name # ts \<Rightarrow>
       if name = ''value'' then Read (case res of Some v \<Rightarrow> v | None \<Rightarrow> XStr cd) ts
       else decodeValue pf eof n cd res ts
   | TStart name # ts \<Rightarrow>
       then_read
         (if name = ''string'' then then_read (readText eof [] ts) (\<lambda>s ts'. Read (XStr s) ts')
          else if name = ''int'' \<or> name = ''i4'' then read_int eof ts
          else if name = ''boolean''
          then then_read (readText eof [] ts) (\<lambda>s ts'. Read (XBool (trim_space s = ''1'')) ts')
          else if name = ''double'' then read_float pf eof ts
          else if name = ''struct'' then then_read (decodeStruct pf eof n [] ts) (\<lambda>m ts'. Read (XStruct m) ts')
          else if name = ''array'' then then_read (decodeArray pf eof n [] ts) (\<lambda>xs ts'. Read (XArray xs) ts')
          else then_read (skipTo eof name ts) (\<lambda>_ ts'. Read XNil ts'))
         (\<lambda>v ts'. decodeValue pf eof n cd (Some v) ts'))"
| "decodeStruct pf eof 0 m ts = OutOfFuel"
| "decodeStruct pf eof (Suc n) m ts = (case ts of
     [] \<Rightarrow> Failed eof
   | TText s # ts \<Rightarrow> decodeStruct pf eof n m ts
   | TEnd name # ts \<Rightarrow> if name = ''struct'' then Read m ts else decodeStruct pf eof n m ts
   | TStart name # ts \<Rightarrow>
       if name = ''member''
       then then_read (decodeMember pf eof n [] XNil ts) (\<lambda>(k, v) ts'. decodeStruct pf eof n (put k v m) ts')
       else decodeStruct pf eof n m ts)"
| "decodeMember pf eof 0 k v ts = OutOfFuel"
| "decodeMember pf eof (Suc n) k v ts = (case ts of
     [] \<Rightarrow> Failed eof
   | TText s # ts \<Rightarrow> decodeMember pf eof n k v ts
   | TEnd name # ts \<Rightarrow> if name = ''member'' then Read (k, v) ts else decodeMember pf eof n k v ts
   | TStart name # ts \<Rightarrow>
       if name = ''name'' then then_read (readText eof [] ts) (\<lambda>s ts'. decodeMember pf eof n s v ts')
       else if name = ''value''
       then then_read (decodeValue pf eof n [] None ts) (\<lambda>x ts'. decodeMember pf eof n k x ts')
       else decodeMember pf eof n k v ts)"
| "decodeArray pf eof 0 xs ts = OutOfFuel"
| "decodeArray pf eof (Suc n) xs ts = (case ts of
     [] \<Rightarrow> Failed eof
   | TText s # ts \<Rightarrow> decodeArray pf eof n xs ts
   | TEnd name # ts \<Rightarrow> if name = ''array'' then Read xs ts else decodeArray pf eof n xs ts
   | TStart name # ts \<Rightarrow>
       if name = ''value''
       then then_read (decodeValue pf eof n [] None ts) (\<lambda>v ts'. decodeArray pf eof n (xs @ [v]) ts')
       else decodeArray pf eof n xs ts)"
  by pat_completeness auto

termination
  by (relation "measure (\<lambda>x. case x of
        Inl (Inl (_, _, n, _)) \<Rightarrow> n | Inl (Inr (_, _, n, _)) \<Rightarrow> n
      | Inr (Inl (_, _, n, _)) \<Rightarrow> n | Inr (Inr (_, _, n, _)) \<Rightarrow> n)") auto

text \<open>The loop of \<^verbatim>\<open>decodeResponse\<close>: \<open>Inl\<close> is a fault, whose fields default to zero values.\<close>

definition fault_of :: "'d xval \<Rightarrow> int \<times> string" where
  "fault_of v =
     (let m = (case v of XStruct m \<Rightarrow> map_of m | _ \<Rightarrow> Map.empty)
      in (case m ''faultCode'' of Some (XInt c) \<Rightarrow> c | _ \<Rightarrow> 0,
          case m ''faultString'' of Some (XStr s) \<Rightarrow> s | _ \<Rightarrow> []))"

fun response_loop ::
  "(string \<Rightarrow> 'd option) \<Rightarrow> go_error \<Rightarrow> go_error \<Rightarrow> bool \<Rightarrow> token list \<Rightarrow>
   ((int \<times> string) + 'd xval) decoded" where
  "response_loop pf eof at_end fault [] = Failed at_end"
| "response_loop pf eof at_end fault (TStart name # ts) =
     (if name = ''fault'' then response_loop pf eof at_end True ts
      else if name = ''value''
      then then_read (decodeValue pf eof (Suc (length ts)) [] None ts) (\<lambda>v ts'.
        Read (if fault then Inl (fault_of v) else Inr v) ts')
      else response_loop pf eof at_end fault ts)"
| "response_loop pf eof at_end fault (TEnd name # ts) = response_loop pf eof at_end fault ts"
| "response_loop pf eof at_end fault (TText s # ts) = response_loop pf eof at_end fault ts"

text \<open>
  \<open>stream_end\<close> is what \<^verbatim>\<open>Token\<close> returns after the last token: \<open>None\<close> is \<^verbatim>\<open>io.EOF\<close>.  Outside of a
  value \<^verbatim>\<open>io.EOF\<close> is reported as a missing value; inside one it is returned as it is.
\<close>

definition decodeResponse ::
  "(string \<Rightarrow> 'd option) \<Rightarrow> go_error option \<Rightarrow> token list \<Rightarrow> ((int \<times> string) + 'd xval) decoded" where
  "decodeResponse pf stream_end ts =
     (case stream_end of
        Some e \<Rightarrow> response_loop pf e e False ts
      | None \<Rightarrow> response_loop pf (errorf ''EOF'')
          (errorf ''cobbler xmlrpc: no value in response'') False ts)"

section \<open>The decoder never runs out of fuel\<close>

declare encodeString.simps [simp del] decodeValue.simps [simp del] decodeStruct.simps [simp del] decodeMember.simps [simp del]
  decodeArray.simps [simp del]

text \<open>A reader makes progress: what it leaves is shorter than what it was given.\<close>

definition progress :: "'a decoded \<Rightarrow> token list \<Rightarrow> bool" where
  "progress m ts = (\<forall>x ts'. m = Read x ts' \<longrightarrow> length ts' < length ts)"

lemma readText_progress: "progress (readText eof sb ts) ts"
proof (induction ts arbitrary: sb)
  case Nil
  show ?case by (simp add: progress_def)
next
  case (Cons t ts)
  then show ?case by (cases t) (auto simp: progress_def less_Suc_eq)
qed

lemma skipTo_progress: "progress (skipTo eof name ts) ts"
proof (induction ts)
  case Nil
  show ?case by (simp add: progress_def)
next
  case (Cons t ts)
  then show ?case by (cases t) (auto simp: progress_def less_Suc_eq)
qed

lemma readText_fuel [simp]: "readText eof sb ts \<noteq> OutOfFuel"
proof (induction ts arbitrary: sb)
  case (Cons t ts)
  then show ?case by (cases t) simp_all
qed simp

lemma skipTo_fuel [simp]: "skipTo eof name ts \<noteq> OutOfFuel"
proof (induction ts)
  case (Cons t ts)
  then show ?case by (cases t) simp_all
qed simp

lemma then_read_progress:
  assumes "progress m ts" "\<And>x ts'. progress (f x ts') ts'"
  shows "progress (then_read m f) ts"
  using assms by (cases m) (fastforce simp: progress_def)+

lemma then_read_fuel:
  "m \<noteq> OutOfFuel \<Longrightarrow> (\<And>x ts'. m = Read x ts' \<Longrightarrow> f x ts' \<noteq> OutOfFuel) \<Longrightarrow> then_read m f \<noteq> OutOfFuel"
  by (cases m) simp_all

lemma read_scalar_progress [simp]:
  "progress (read_int eof ts) ts" "progress (read_float pf eof ts) ts"
  using readText_progress [of eof "[]" ts]
  by (cases "readText eof [] ts"; auto simp: read_int_def read_float_def progress_def split: option.splits)+

lemma read_scalar_fuel [simp]: "read_int eof ts \<noteq> OutOfFuel" "read_float pf eof ts \<noteq> OutOfFuel"
  by (cases "readText eof [] ts"; auto simp: read_int_def read_float_def split: option.splits)+

lemma progress_Cons: "progress m ts \<Longrightarrow> progress m (t # ts)"
  by (auto simp: progress_def less_SucI)

lemma progress_leaf [simp]: "progress (Read x ts) (t # ts)" "progress (Failed e) ts" "progress OutOfFuel ts"
  by (simp_all add: progress_def)

lemma then_keep_progress: "progress m ts \<Longrightarrow> progress (then_read m (\<lambda>x ts'. Read (f x) ts')) ts"
  by (cases m) (auto simp: progress_def)

lemma then_keep_fuel: "m \<noteq> OutOfFuel \<Longrightarrow> then_read m (\<lambda>x ts'. Read (f x) ts') \<noteq> OutOfFuel"
  by (cases m) auto

text \<open>A reader is good with fuel \<open>n\<close> when it makes progress and its fuel lasts for shorter inputs.\<close>

definition good :: "nat \<Rightarrow> token list \<Rightarrow> 'a decoded \<Rightarrow> bool" where
  "good n ts m = (progress m ts \<and> (length ts < n \<longrightarrow> m \<noteq> OutOfFuel))"

lemma good_then:
  assumes "good n ts m" "\<And>x ts'. good n ts' (f x ts')"
  shows "good n ts (then_read m f)"
proof -
  have "then_read m f \<noteq> OutOfFuel" if "length ts < n"
  proof (rule then_read_fuel)
    show "m \<noteq> OutOfFuel" using assms(1) that by (simp add: good_def)
    show "f x ts' \<noteq> OutOfFuel" if r: "m = Read x ts'" for x ts'
    proof -
      have "length ts' < n" using assms(1) r \<open>length ts < n\<close> by (simp add: good_def progress_def)
      then show ?thesis using assms(2) [of ts' x] by (simp add: good_def)
    qed
  qed
  moreover have "progress (then_read m f) ts"
    using assms by (intro then_read_progress) (simp_all add: good_def)
  ultimately show ?thesis by (simp add: good_def)
qed

lemma good_Cons: "good n ts m \<Longrightarrow> good (Suc n) (t # ts) m"
  by (simp add: good_def progress_Cons)

lemma good_leaf [simp]: "good n (t # ts) (Read x ts)" "good n ts (Failed e)"
  by (simp_all add: good_def)

lemma good_keep: "good n ts m \<Longrightarrow> good n ts (then_read m (\<lambda>x ts'. Read (f x) ts'))"
  by (simp add: good_def then_keep_progress then_keep_fuel)

lemma good_scalar [simp]:
  "good n ts (readText eof sb ts)" "good n ts (skipTo eof name ts)" "good n ts (read_int eof ts)"
  "good n ts (read_float pf eof ts)"
  by (simp_all add: good_def readText_progress skipTo_progress)

lemma decoders_good:
  "good n ts (decodeValue pf eof n cd res ts)" "good n ts (decodeStruct pf eof n m ts)"
  "good n ts (decodeMember pf eof n k v ts)" "good n ts (decodeArray pf eof n xs ts)"
proof (induction n arbitrary: ts cd res m k v xs)
  case 0
  {
    case 1
    show ?case by (simp add: good_def decodeValue.simps)
  next
    case 2
    show ?case by (simp add: good_def decodeStruct.simps)
  next
    case 3
    show ?case by (simp add: good_def decodeMember.simps)
  next
    case 4
    show ?case by (simp add: good_def decodeArray.simps)
  }
next
  case (Suc n)
  note IH = Suc.IH
  {
    case 1
    show ?case
    proof (cases ts)
      case (Cons t us)
      have "good n us (then_read (decodeStruct pf eof n [] us) (\<lambda>m ts'. Read (XStruct m) ts'))"
        "good n us (then_read (decodeArray pf eof n [] us) (\<lambda>m ts'. Read (XArray m) ts'))"
        "good n us (then_read (readText eof [] us) (\<lambda>s ts'. Read (XStr s) ts'))"
        "good n us (then_read (readText eof [] us) (\<lambda>s ts'. Read (XBool (trim_space s = ''1'')) ts'))"
        "good n us (then_read (skipTo eof name us) (\<lambda>u ts'. Read XNil ts'))" for name
        by (rule good_keep; simp add: IH)+
      note kept = this
      show ?thesis
      proof (cases t)
        case (TStart name)
        show ?thesis
          unfolding Cons TStart decodeValue.simps(2) list.case token.case
          by (intro good_Cons good_then) (simp_all only: kept IH good_scalar split: if_split, simp_all)
      qed (simp_all add: Cons decodeValue.simps(2) good_Cons IH)
    qed (simp add: decodeValue.simps(2))
  next
    case 2
    show ?case
      by (auto simp: decodeStruct.simps(2) split_beta split: list.split token.split intro!: good_Cons good_then IH)
  next
    case 3
    show ?case
      by (auto simp: decodeMember.simps(2) split: list.split token.split intro!: good_Cons good_then IH)
  next
    case 4
    show ?case
      by (auto simp: decodeArray.simps(2) split: list.split token.split intro!: good_Cons good_then IH)
  }
qed

lemma response_loop_fuel: "response_loop pf eof at_end fault ts \<noteq> OutOfFuel"
proof (induction ts arbitrary: fault)
  case (Cons t ts)
  have "then_read (decodeValue pf eof (Suc (length ts)) [] None ts) (\<lambda>v ts'. Read (g v) ts') \<noteq> OutOfFuel" for g
    using decoders_good(1) [of "Suc (length ts)" ts pf eof "[]" None] by (simp add: good_def then_keep_fuel)
  note keep = this [of "\<lambda>v. if fault then Inl (fault_of v) else Inr v"]
  then show ?case using Cons by (cases t) (simp_all del: if_image_distrib)
qed simp

section \<open>Decoding undoes encoding\<close>

text \<open>The Go value an argument comes back as.\<close>

fun value_of :: "'d xarg \<Rightarrow> 'd xval" where
  "value_of (AStr s) = XStr s"
| "value_of (ABool b) = XBool b"
| "value_of (AInt i) = XInt i"
| "value_of (AFloat d) = XFloat d"
| "value_of (AMapString m) = XStruct (map (\<lambda>(k, s). (k, XStr s)) m)"
| "value_of (AMapAny m) = XStruct (map (\<lambda>(k, a). (k, value_of a)) m)"
| "value_of (AStrings ss) = XArray (map XStr ss)"
| "value_of (AList xs) = XArray (map value_of xs)"
| "value_of (AOther t) = XNil"

text \<open>Go values: integers of 64 bits and maps with distinct keys.\<close>

fun go_value :: "'d xarg \<Rightarrow> bool" where
  "go_value (AInt i) = (- (2 ^ 63) \<le> i \<and> i < 2 ^ 63)"
| "go_value (AMapString m) = distinct (map fst m)"
| "go_value (AMapAny m) = (distinct (map fst m) \<and> list_all (\<lambda>(k, a). go_value a) m)"
| "go_value (AList xs) = list_all go_value xs"
| "go_value _ = True"

definition float_law :: "('d \<Rightarrow> string) \<Rightarrow> (string \<Rightarrow> 'd option) \<Rightarrow> bool" where
  "float_law fmt pf = (\<forall>d. pf (trim_space (fmt d)) = Some d)"

text \<open>The tokens \<open>ts\<close> of a value are read back as \<open>v\<close>, whatever follows them.\<close>

definition value_reads ::
  "(string \<Rightarrow> 'd option) \<Rightarrow> go_error \<Rightarrow> token list \<Rightarrow> 'd xval \<Rightarrow> bool" where
  "value_reads pf eof ts v = (\<exists>us. ts = TStart ''value'' # us \<and>
     (\<forall>n rest. length us \<le> n \<longrightarrow> decodeValue pf eof n [] None (us @ rest) = Read v rest))"

lemma readText_tokens [simp]: "readText eof [] (text_tokens s @ TEnd x # rest) = Read s rest"
  by (simp add: text_tokens_def)

lemma trim_space_id: "list_all (\<lambda>c. \<not> is_space c) s \<Longrightarrow> trim_space s = s"
proof -
  assume a: "list_all (\<lambda>c. \<not> is_space c) s"
  then have "dropWhile is_space s = s" by (cases s) simp_all
  moreover have "dropWhile is_space (rev s) = rev s"
    using a by (cases "rev s") (auto simp: list_all_iff)
  ultimately show ?thesis by (simp add: trim_space_def)
qed

lemma digit_no_space: "is_digit c \<Longrightarrow> \<not> is_space c"
  by (auto simp: is_digit_def is_space_def)

lemma trim_itoa [simp]: "trim_space (itoa i) = itoa i"
proof (rule trim_space_id)
  have "list_all (\<lambda>c. \<not> is_space c) (nat_digits n)" for n
    using nat_digits_all_digits [of n] by (simp add: list_all_iff digit_no_space)
  moreover have "\<not> is_space (CHR ''-'')" by (simp add: is_space_def)
  ultimately show "list_all (\<lambda>c. \<not> is_space c) (itoa i)" by (simp add: itoa_def)
qed

lemma trim_bool [simp]: "trim_space ''1'' = ''1''" "trim_space ''0'' = ''0''"
  by code_simp+

text \<open>A value with one typed element whose body is read back as \<open>v\<close>.\<close>

lemma value_readsI:
  assumes "\<And>n rest. length body < n \<Longrightarrow> decodeValue pf eof (Suc n) [] None (TStart name # body @ TEnd name # rest) =
      decodeValue pf eof n [] (Some v) rest"
  shows "value_reads pf eof (element ''value'' (element name body)) v"
proof -
  let ?us = "body @ [TEnd name]"
  have "decodeValue pf eof n [] None ((TStart name # ?us @ [TEnd ''value'']) @ rest) = Read v rest"
    if n: "length (TStart name # ?us @ [TEnd ''value'']) \<le> n" for n rest
  proof -
    obtain k where k: "n = Suc (Suc k)" using n by (cases n; cases "n - 1") auto
    have "decodeValue pf eof n [] None (TStart name # body @ TEnd name # TEnd ''value'' # rest) =
        decodeValue pf eof (Suc k) [] (Some v) (TEnd ''value'' # rest)"
      unfolding k by (rule assms) (use n k in simp)
    then show ?thesis by (simp add: decodeValue.simps(2))
  qed
  then show ?thesis unfolding value_reads_def element_def by auto
qed

lemma string_reads: "value_reads pf eof (encodeString s) (XStr s)"
  unfolding encodeString.simps by (rule value_readsI) (simp add: decodeValue.simps(2))

lemma bool_reads:
  "value_reads pf eof (element ''value'' (element ''boolean'' [TText (if b then ''1'' else ''0'')])) (XBool b)"
  by (rule value_readsI) (simp add: decodeValue.simps(2))

lemma int_reads:
  "- (2 ^ 63) \<le> i \<Longrightarrow> i < 2 ^ 63 \<Longrightarrow>
     value_reads pf eof (element ''value'' (element ''int'' [TText (itoa i)])) (XInt i)"
  by (rule value_readsI) (simp add: decodeValue.simps(2) read_int_def atoi_itoa)

lemma float_reads:
  "float_law fmt pf \<Longrightarrow>
     value_reads pf eof (element ''value'' (element ''double'' [TText (fmt d)])) (XFloat d)"
  by (rule value_readsI) (simp add: decodeValue.simps(2) read_float_def float_law_def)

text \<open>The loops over the members of a struct and the items of an array.\<close>

lemma put_fresh: "k \<notin> fst ` set m \<Longrightarrow> put k v m = m @ [(k, v)]"
  by (simp add: put_def)

lemma struct_member:
  assumes v: "value_reads pf eof ts v" and k: "k \<notin> fst ` set m" and n: "length (member_tokens k ts) \<le> n"
  shows "decodeStruct pf eof (Suc n) m (member_tokens k ts @ rest) = decodeStruct pf eof n (m @ [(k, v)]) rest"
proof -
  obtain us where us: "ts = TStart ''value'' # us"
    "\<And>n rest. length us \<le> n \<Longrightarrow> decodeValue pf eof n [] None (us @ rest) = Read v rest"
    using v unfolding value_reads_def by blast
  obtain j where j: "n = Suc (Suc (Suc j))" "length us \<le> Suc j"
    using n us(1) by (cases n; cases "n - 1"; cases "n - 2") (auto simp: member_tokens_def element_def)
  have "decodeMember pf eof n [] XNil (TStart ''name'' # text_tokens k @ TEnd ''name'' # ts @ TEnd ''member'' # rest)
      = Read (k, v) rest"
    using us(2) [of "Suc j"] j by (simp add: decodeMember.simps(2) us(1))
  then show ?thesis
    by (simp add: member_tokens_def element_def decodeStruct.simps(2) put_fresh [OF k])
qed

lemma struct_members:
  assumes "\<forall>(k, ts, v) \<in> set l. value_reads pf eof ts v" "distinct (map fst m @ map fst l)"
    and "length (concat (map (\<lambda>(k, ts, v). member_tokens k ts) l)) < n"
  shows "decodeStruct pf eof n m (concat (map (\<lambda>(k, ts, v). member_tokens k ts) l) @ TEnd ''struct'' # rest) =
    Read (m @ map (\<lambda>(k, ts, v). (k, v)) l) rest"
  using assms
proof (induction l arbitrary: m n)
  case Nil
  then show ?case by (cases n) (simp_all add: decodeStruct.simps(2))
next
  case (Cons e l)
  obtain k ts v where e: "e = (k, ts, v)" by (cases e)
  let ?ls = "concat (map (\<lambda>(k, ts, v). member_tokens k ts) l)"
  have pos: "length (member_tokens k ts) > 0" by (simp add: member_tokens_def element_def)
  have len: "length (member_tokens k ts) + length ?ls < n" using Cons.prems(3) by (simp add: e)
  then obtain j where n: "n = Suc j" by (cases n) auto
  have j: "n = Suc j" "length (member_tokens k ts) \<le> j" "length ?ls < j" using len pos n by linarith+
  have v: "value_reads pf eof ts v" and k: "k \<notin> fst ` set m" using Cons.prems by (auto simp: e)
  have "decodeStruct pf eof j (m @ [(k, v)]) (?ls @ TEnd ''struct'' # rest) =
      Read ((m @ [(k, v)]) @ map (\<lambda>(k, ts, v). (k, v)) l) rest"
    by (rule Cons.IH) (use Cons.prems j in \<open>auto simp: e\<close>)
  then show ?case using struct_member [OF v k j(2)] by (simp add: e j(1))
qed

lemma array_item:
  assumes v: "value_reads pf eof ts v" and n: "length ts \<le> Suc n"
  shows "decodeArray pf eof (Suc n) xs (ts @ rest) = decodeArray pf eof n (xs @ [v]) rest"
  using assms unfolding value_reads_def by (auto simp: decodeArray.simps(2))

lemma array_items:
  assumes "\<forall>(ts, v) \<in> set l. value_reads pf eof ts v" "length (concat (map fst l)) + 2 \<le> n"
  shows "decodeArray pf eof n xs (concat (map fst l) @ TEnd ''data'' # TEnd ''array'' # rest) =
    Read (xs @ map snd l) rest"
  using assms
proof (induction l arbitrary: xs n)
  case Nil
  then obtain j where "n = Suc (Suc j)" by (cases n; cases "n - 1") auto
  then show ?case by (simp add: decodeArray.simps(2))
next
  case (Cons e l)
  obtain ts v where e: "e = (ts, v)" by (cases e)
  have v: "value_reads pf eof ts v" using Cons.prems(1) by (simp add: e)
  then have pos: "length ts > 0" by (auto simp: value_reads_def)
  have len: "length ts + length (concat (map fst l)) + 2 \<le> n" using Cons.prems(2) by (simp add: e)
  then obtain j where n: "n = Suc j" by (cases n) auto
  have j: "n = Suc j" "length ts \<le> Suc j" "length (concat (map fst l)) + 2 \<le> j" using len pos n by linarith+
  have "decodeArray pf eof j (xs @ [v]) (concat (map fst l) @ TEnd ''data'' # TEnd ''array'' # rest) =
      Read ((xs @ [v]) @ map snd l) rest"
    by (rule Cons.IH) (use Cons.prems j in \<open>auto simp: e\<close>)
  then show ?case using array_item [OF v j(2)] by (simp add: e j(1))
qed

lemma struct_reads:
  assumes "\<forall>(k, ts, v) \<in> set l. value_reads pf eof ts v" "distinct (map fst l)"
  shows "value_reads pf eof (element ''value'' (element ''struct''
      (concat (map (\<lambda>(k, ts, v). member_tokens k ts) l)))) (XStruct (map (\<lambda>(k, ts, v). (k, v)) l))"
  by (rule value_readsI) (use assms struct_members [of l pf eof "[]"] in \<open>simp add: decodeValue.simps(2)\<close>)

lemma array_reads:
  assumes "\<forall>(ts, v) \<in> set l. value_reads pf eof ts v"
  shows "value_reads pf eof (element ''value'' (element ''array'' (element ''data'' (concat (map fst l)))))
    (XArray (map snd l))"
proof (rule value_readsI)
  fix n rest
  assume n: "length (element ''data'' (concat (map fst l))) < n"
  then obtain j where j: "n = Suc j" "length (concat (map fst l)) + 2 \<le> j"
    by (cases n) (auto simp: element_def)
  show "decodeValue pf eof (Suc n) [] None (TStart ''array'' # element ''data'' (concat (map fst l)) @ TEnd ''array'' # rest)
      = decodeValue pf eof n [] (Some (XArray (map snd l))) rest"
    using array_items [OF assms j(2), of "[]" rest]
    by (simp add: decodeValue.simps(2) decodeArray.simps(2) element_def j(1))
qed

text \<open>By the recursion of the encoder, every encoded argument is read back.\<close>

lemma encode_reads:
  fixes fmt :: "'d \<Rightarrow> string"
  shows "float_law fmt pf \<Longrightarrow> encodeValue fmt a = Inr ts \<Longrightarrow> go_value a \<Longrightarrow> value_reads pf eof ts (value_of a)"
    and "float_law fmt pf \<Longrightarrow> encodeMembers fmt m = Inr us \<Longrightarrow> list_all (\<lambda>(k, a). go_value a) m \<Longrightarrow>
      \<exists>l. us = concat (map (\<lambda>(k, ts, v). member_tokens k ts) l) \<and>
        (\<forall>(k, ts, v) \<in> set l. value_reads pf eof ts v) \<and>
        map (\<lambda>(k, ts, v). (k, v)) l = map (\<lambda>(k, a). (k, value_of a)) m"
    and "float_law fmt pf \<Longrightarrow> encodeItems fmt xs = Inr vs \<Longrightarrow> list_all go_value xs \<Longrightarrow>
      \<exists>l. vs = concat (map fst l) \<and> (\<forall>(ts, v) \<in> set l. value_reads pf eof ts v) \<and> map snd l = map value_of xs"
proof (induction fmt a and fmt m and fmt xs arbitrary: ts and us and vs
    rule: encodeValue_encodeMembers_encodeItems.induct)
  case (1 fmt s)
  then show ?case using string_reads by auto
next
  case (2 fmt b)
  then show ?case using bool_reads [of pf eof b] by auto
next
  case (3 fmt i)
  then show ?case using int_reads [of i pf eof] by auto
next
  case (4 fmt d)
  then show ?case using float_reads by auto
next
  case (5 fmt m)
  let ?l = "map (\<lambda>(k, s). (k, encodeString s, XStr s :: 'd xval)) m"
  have "value_reads pf eof (element ''value'' (element ''struct''
      (concat (map (\<lambda>(k, ts, v). member_tokens k ts) ?l)))) (XStruct (map (\<lambda>(k, ts, v). (k, v)) ?l))"
    by (rule struct_reads) (use 5 string_reads in \<open>auto simp: comp_def split_beta\<close>)
  then show ?case using 5 by (auto simp: comp_def case_prod_beta')
next
  case (6 fmt m)
  then obtain us where us: "encodeMembers fmt m = Inr us" by (auto split: sum.splits)
  with 6 obtain l where l: "us = concat (map (\<lambda>(k, ts, v). member_tokens k ts) l)"
    "\<forall>(k, ts, v) \<in> set l. value_reads pf eof ts v"
    "map (\<lambda>(k, ts, v). (k, v)) l = map (\<lambda>(k, a). (k, value_of a)) m" by force
  have "map fst l = map fst (map (\<lambda>(k, ts, v). (k, v)) l)" by (simp add: comp_def split_beta)
  also have "\<dots> = map fst m" unfolding l(3) by (simp add: comp_def split_beta)
  finally have "distinct (map fst l)" using 6 by simp
  from struct_reads [OF l(2) this] show ?case using 6 us l by simp
next
  case (7 fmt ss)
  let ?l = "map (\<lambda>s. (encodeString s, XStr s :: 'd xval)) ss"
  have "value_reads pf eof (element ''value'' (element ''array'' (element ''data'' (concat (map fst ?l)))))
      (XArray (map snd ?l))"
    by (rule array_reads) (use string_reads in auto)
  then show ?case using 7 by (simp add: comp_def)
next
  case (8 fmt xs)
  then obtain vs where vs: "encodeItems fmt xs = Inr vs" by (auto split: sum.splits)
  with 8 obtain l where l: "vs = concat (map fst l)" "\<forall>(ts, v) \<in> set l. value_reads pf eof ts v"
    "map snd l = map value_of xs" by force
  from array_reads [OF l(2)] show ?case using 8 vs l by simp
next
  case (9 fmt)
  then show ?case by simp
next
  case (10 fmt)
  then show ?case by simp
next
  case (11 fmt k a m)
  then obtain ts us' where e: "encodeValue fmt a = Inr ts" "encodeMembers fmt m = Inr us'"
    "us = member_tokens k ts @ us'" by (auto split: sum.splits)
  with 11 obtain l where "us' = concat (map (\<lambda>(k, ts, v). member_tokens k ts) l)"
    "\<forall>(k, ts, v) \<in> set l. value_reads pf eof ts v"
    "map (\<lambda>(k, ts, v). (k, v)) l = map (\<lambda>(k, a). (k, value_of a)) m" by force
  moreover have "value_reads pf eof ts (value_of a)" using 11 e by simp
  ultimately show ?case using e(3) by (intro exI [of _ "(k, ts, value_of a) # l"]) auto
next
  case (12 fmt)
  then show ?case by simp
next
  case (13 fmt a xs)
  then obtain ts vs' where e: "encodeValue fmt a = Inr ts" "encodeItems fmt xs = Inr vs'"
    "vs = ts @ vs'" by (auto split: sum.splits)
  with 13 obtain l where "vs' = concat (map fst l)" "\<forall>(ts, v) \<in> set l. value_reads pf eof ts v"
    "map snd l = map value_of xs" by force
  moreover have "value_reads pf eof ts (value_of a)" using 13 e by simp
  ultimately show ?case using e(3) by (intro exI [of _ "(ts, value_of a) # l"]) auto
qed

text \<open>A \<^verbatim>\<open>methodResponse\<close> with one value, and one with a fault.\<close>

definition response_tokens :: "token list \<Rightarrow> token list" where
  "response_tokens ts = element ''methodResponse'' (element ''params'' (element ''param'' ts))"

definition fault_tokens :: "token list \<Rightarrow> token list" where
  "fault_tokens ts = element ''methodResponse'' (element ''fault'' ts)"

text \<open>
  C17.  The decoder undoes the encoder: for every argument the encoder supports, with integers of
  64 bits and maps with distinct keys, a response that carries the encoded value is decoded to
  that value, and a fault response that carries it to the fault with its code and text.  The text
  form of a \<^verbatim>\<open>float64\<close> is assumed to parse back.
\<close>

theorem xmlrpc_roundtrip:
  assumes "float_law fmt pf" "go_value a" "encodeValue fmt a = Inr ts"
  shows "(\<exists>rest. decodeResponse pf stream_end (response_tokens ts) = Read (Inr (value_of a)) rest) \<and>
    (\<exists>rest. decodeResponse pf stream_end (fault_tokens ts) = Read (Inl (fault_of (value_of a))) rest)"
proof -
  have reads: "(\<exists>rest. response_loop pf e e' False (response_tokens ts) = Read (Inr (value_of a)) rest) \<and>
      (\<exists>rest. response_loop pf e e' False (fault_tokens ts) = Read (Inl (fault_of (value_of a))) rest)" for e e'
  proof -
    have "value_reads pf e ts (value_of a)" by (rule encode_reads(1) [OF assms(1,3,2)])
    then obtain us where us: "ts = TStart ''value'' # us"
      "\<And>n rest. length us \<le> n \<Longrightarrow> decodeValue pf e n [] None (us @ rest) = Read (value_of a) rest"
      unfolding value_reads_def by blast
    show ?thesis
      unfolding response_tokens_def fault_tokens_def element_def us(1) by (simp_all add: us(2))
  qed
  then show ?thesis by (cases stream_end) (simp_all add: decodeResponse_def)
qed

theorem xmlrpc_roundtrip_witness:
  "\<exists>rest. decodeResponse (\<lambda>s. Some (s = ''1'')) None (response_tokens (element ''value'' (element ''struct''
      (member_tokens ''uid'' (encodeString ''x'') @ member_tokens ''on'' (element ''value''
        (element ''double'' [TText ''1''])))))) =
    Read (Inr (XStruct [(''uid'', XStr ''x''), (''on'', XFloat True)])) rest"
proof -
  let ?fmt = "\<lambda>b. if b then ''1'' else ''0''" and ?a = "AMapAny [(''uid'', AStr ''x''), (''on'', AFloat True)]"
  have "float_law ?fmt (\<lambda>s. Some (s = ''1''))" by (auto simp: float_law_def)
  moreover have "go_value ?a" by simp
  moreover have "encodeValue ?fmt ?a = Inr (element ''value'' (element ''struct''
      (member_tokens ''uid'' (encodeString ''x'') @ member_tokens ''on'' (element ''value''
        (element ''double'' [TText ''1'']))))) " by simp
  ultimately show ?thesis using xmlrpc_roundtrip [THEN conjunct1] by fastforce
qed

text \<open>
  Decoding any token stream ends: with the fuel the code's loops get here, the number of
  tokens, no response runs out of it.
\<close>

theorem decode_enough_fuel: "decodeResponse pf stream_end ts \<noteq> OutOfFuel"
  by (cases stream_end) (simp_all add: decodeResponse_def response_loop_fuel)

end
