(* ===== verification/Pass_Steps.thy ===== *)
theory Pass_Steps
  imports Reconcile
begin

text \<open>
  The steps most reconcilers share.  Every controller of \<^verbatim>\<open>internal/controller\<close> has a \<^verbatim>\<open>fail\<close>
  method with the same body (set Ready to false with the error, write the status, ignore the error
  of that write, return the first error), adds its finalizer with an update and a requeue, and
  drops it with an update.  A \<open>kit\<close> holds what differs between the kinds: the status field, the
  conditions in it, and the answers of the pass.
\<close>

record ('o, 'st) kit =
  kit_ops :: "('o, 'st) kind_ops"
  kit_conditions :: "(condition list \<Rightarrow> condition list) \<Rightarrow> 'st \<Rightarrow> 'st"
  kit_ssc :: set_cond
  kit_out :: answers

section \<open>Steps\<close>

definition set_st :: "('o, 'st) kit \<Rightarrow> ('st \<Rightarrow> 'st) \<Rightarrow> ('o, 'u) pass \<Rightarrow> ('o, 'u) pass" where
  "set_st k f s = s\<lparr>mem := with_status (kit_ops k) (f (status_of (kit_ops k) (mem s))) (mem s)\<rparr>"

text \<open>\<^verbatim>\<open>setReady(&obj.Status.Conditions, obj.Generation, ...)\<close> on the object in memory.\<close>

definition become ::
  "(('a) k8s_object_scheme, 'st) kit \<Rightarrow> bool \<Rightarrow> string \<Rightarrow> string \<Rightarrow> (('a) k8s_object_scheme, 'u) pass \<Rightarrow>
   (('a) k8s_object_scheme, 'u) pass" where
  "become k ok reason msg s =
     set_st k (kit_conditions k (\<lambda>cs. setReady (kit_ssc k) cs (obj_generation (mem s)) ok reason msg)) s"

text \<open>The common body of the \<^verbatim>\<open>fail\<close> methods.\<close>

definition fail_with ::
  "(('a) k8s_object_scheme, 'st) kit \<Rightarrow> string \<Rightarrow> go_error \<Rightarrow> (('a) k8s_object_scheme, 'u) pass \<Rightarrow>
   (('a) k8s_object_scheme, 'u) outcome" where
  "fail_with k reason err s =
     (result_done, Some err,
      snd (write_status (kit_out k) (kit_ops k) (become k False reason (err_text err) s)))"

text \<open>\<^verbatim>\<open>if err := r.Status().Update(ctx, &obj); err != nil { return ctrl.Result{}, err }; return res, nil\<close>.\<close>

definition save_and ::
  "(('a) k8s_object_scheme, 'st) kit \<Rightarrow> ctrl_result \<Rightarrow> (('a) k8s_object_scheme, 'u) pass \<Rightarrow>
   (('a) k8s_object_scheme, 'u) outcome" where
  "save_and k res s =
     (case write_status (kit_out k) (kit_ops k) s of
        (Some e, s1) \<Rightarrow> (result_done, Some e, s1)
      | (None, s1) \<Rightarrow> (res, None, s1))"

definition release ::
  "(('a) k8s_object_scheme, 'st) kit \<Rightarrow> string \<Rightarrow> (('a) k8s_object_scheme, 'u) pass \<Rightarrow>
   (('a) k8s_object_scheme, 'u) outcome" where
  "release k fin s =
     (case write_object (kit_out k) (kit_ops k) (s\<lparr>mem := removeFinalizer (mem s) fin\<rparr>) of
        (e, s1) \<Rightarrow> (result_done, e, s1))"

text \<open>\<^verbatim>\<open>if ensureFinalizer(&obj, fin) { return ctrl.Result{Requeue: true}, r.Update(ctx, &obj) }\<close>.\<close>

definition with_finalizer ::
  "(('a) k8s_object_scheme, 'st) kit \<Rightarrow> string \<Rightarrow>
   ((('a) k8s_object_scheme, 'u) pass \<Rightarrow> (('a) k8s_object_scheme, 'u) outcome) \<Rightarrow>
   (('a) k8s_object_scheme, 'u) pass \<Rightarrow> (('a) k8s_object_scheme, 'u) outcome" where
  "with_finalizer k fin rest s =
     (case ensureFinalizer (mem s) fin of
        (True, obj) \<Rightarrow> (case write_object (kit_out k) (kit_ops k) (s\<lparr>mem := obj\<rparr>) of
            (e, s1) \<Rightarrow> (result_requeue, e, s1))
      | (False, _) \<Rightarrow> rest s)"

text \<open>A call whose error ends the pass with an outcome, and one whose error is ignored.\<close>

definition call_or ::
  "answers \<Rightarrow> 'u \<Rightarrow> (go_error \<Rightarrow> ('o, 'u) pass \<Rightarrow> ('o, 'u) outcome) \<Rightarrow>
   (('o, 'u) pass \<Rightarrow> ('o, 'u) outcome) \<Rightarrow> ('o, 'u) pass \<Rightarrow> ('o, 'u) outcome" where
  "call_or out u handle rest s =
     (case attempt out (Call u) s of (Some e, s1) \<Rightarrow> handle e s1 | (None, s1) \<Rightarrow> rest s1)"

definition try_call :: "answers \<Rightarrow> 'u \<Rightarrow> ('o, 'u) pass \<Rightarrow> ('o, 'u) pass" where
  "try_call out u s = snd (attempt out (Call u) s)"

text \<open>An effect that cannot fail, such as evicting a client from the pool.\<close>

definition effect :: "'u \<Rightarrow> ('o, 'u) pass \<Rightarrow> ('o, 'u) pass" where
  "effect u s = s\<lparr>trace := trace s @ [(Call u, True)]\<rparr>"

definition return_error :: "go_error \<Rightarrow> ('o, 'u) pass \<Rightarrow> ('o, 'u) outcome" where
  "return_error e s = (result_done, Some e, s)"

text \<open>\<^verbatim>\<open>setCondition\<close> for any condition type, on the object in memory.\<close>

definition mark ::
  "(('a) k8s_object_scheme, 'st) kit \<Rightarrow> string \<Rightarrow> bool \<Rightarrow> string \<Rightarrow> string \<Rightarrow>
   (('a) k8s_object_scheme, 'u) pass \<Rightarrow> (('a) k8s_object_scheme, 'u) pass" where
  "mark k t ok reason msg s =
     set_st k (kit_conditions k (\<lambda>cs. setCondition (kit_ssc k) cs t ok (obj_generation (mem s)) reason msg)) s"

text \<open>
  The other ways to end with a status write: \<^verbatim>\<open>return res, r.Status().Update(ctx, obj)\<close>, the write
  whose error is dropped, and the write after which the pass goes on.
\<close>

definition save_with ::
  "(('a) k8s_object_scheme, 'st) kit \<Rightarrow> ctrl_result \<Rightarrow> (('a) k8s_object_scheme, 'u) pass \<Rightarrow>
   (('a) k8s_object_scheme, 'u) outcome" where
  "save_with k res s = (case write_status (kit_out k) (kit_ops k) s of (e, s1) \<Rightarrow> (res, e, s1))"

definition save_ignoring ::
  "(('a) k8s_object_scheme, 'st) kit \<Rightarrow> ctrl_result \<Rightarrow> (('a) k8s_object_scheme, 'u) pass \<Rightarrow>
   (('a) k8s_object_scheme, 'u) outcome" where
  "save_ignoring k res s = (res, None, snd (write_status (kit_out k) (kit_ops k) s))"

definition save_then ::
  "(('a) k8s_object_scheme, 'st) kit \<Rightarrow>
   ((('a) k8s_object_scheme, 'u) pass \<Rightarrow> (('a) k8s_object_scheme, 'u) outcome) \<Rightarrow>
   (('a) k8s_object_scheme, 'u) pass \<Rightarrow> (('a) k8s_object_scheme, 'u) outcome" where
  "save_then k rest s =
     (case write_status (kit_out k) (kit_ops k) s of
        (Some e, s1) \<Rightarrow> (result_done, Some e, s1)
      | (None, s1) \<Rightarrow> rest s1)"

definition update_with ::
  "(('a) k8s_object_scheme, 'st) kit \<Rightarrow> ctrl_result \<Rightarrow> (('a) k8s_object_scheme, 'u) pass \<Rightarrow>
   (('a) k8s_object_scheme, 'u) outcome" where
  "update_with k res s = (case write_object (kit_out k) (kit_ops k) s of (e, s1) \<Rightarrow> (res, e, s1))"

text \<open>\<^verbatim>\<open>if err := reconcileOrganizationOwnership(...); err != nil { return ctrl.Result{}, err }\<close>.\<close>

definition with_owner ::
  "(('a) k8s_object_scheme, 'st) kit \<Rightarrow> ('g) organization_scheme k8s_get \<Rightarrow> string \<Rightarrow>
   ((('a) k8s_object_scheme, 'u) pass \<Rightarrow> (('a) k8s_object_scheme, 'u) outcome) \<Rightarrow>
   (('a) k8s_object_scheme, 'u) pass \<Rightarrow> (('a) k8s_object_scheme, 'u) outcome" where
  "with_owner k getOrg n rest s =
     (case own_organization (kit_out k) (kit_ops k) getOrg n s of
        (Some e, s1) \<Rightarrow> return_error e s1
      | (None, s1) \<Rightarrow> rest s1)"

text \<open>A loop of calls, the first error of which ends the pass.\<close>

fun call_each ::
  "answers \<Rightarrow> (go_error \<Rightarrow> ('o, 'u) pass \<Rightarrow> ('o, 'u) outcome) \<Rightarrow> 'u list \<Rightarrow>
   (('o, 'u) pass \<Rightarrow> ('o, 'u) outcome) \<Rightarrow> ('o, 'u) pass \<Rightarrow> ('o, 'u) outcome" where
  "call_each out handle [] rest s = rest s"
| "call_each out handle (u # us) rest s = call_or out u handle (call_each out handle us rest) s"

text \<open>
  An update of the object in the middle of a pass whose status changes are not stored yet.  The answer is
  decoded into the object in memory: \<open>keep mine theirs\<close> takes the fields the answer has, and leaves those
  that are empty in the stored status, and so absent from the answer (\<^verbatim>\<open>omitempty\<close>), as they were.
\<close>

definition keep_list :: "'x list \<Rightarrow> 'x list \<Rightarrow> 'x list" where
  "keep_list mine theirs = (if theirs = [] then mine else theirs)"

definition keep_int :: "int \<Rightarrow> int \<Rightarrow> int" where
  "keep_int mine theirs = (if theirs = 0 then mine else theirs)"

definition keep_option :: "'x option \<Rightarrow> 'x option \<Rightarrow> 'x option" where
  "keep_option mine theirs = (if theirs = None then mine else theirs)"

lemmas keep_defs = keep_list_def keep_int_def keep_option_def

definition refresh ::
  "(('a) k8s_object_scheme, 'st) kit \<Rightarrow> ('st \<Rightarrow> 'st \<Rightarrow> 'st) \<Rightarrow> (('a) k8s_object_scheme, 'u) pass \<Rightarrow>
   go_error option \<times> (('a) k8s_object_scheme, 'u) pass" where
  "refresh k keep s =
     (case write_object (kit_out k) (kit_ops k) s of
        (Some e, s1) \<Rightarrow> (Some e, s1)
      | (None, s1) \<Rightarrow> (None, set_st k (keep (status_of (kit_ops k) (mem s))) s1))"

lemma set_st_simps [simp]: "trace (set_st k f s) = trace s" "stored (set_st k f s) = stored s"
  by (simp_all add: set_st_def)

lemma become_simps [simp]: "trace (become k ok r m s) = trace s" "stored (become k ok r m s) = stored s"
  by (simp_all add: become_def)

lemma effect_simps [simp]:
  "trace (effect u s) = trace s @ [(Call u, True)]" "mem (effect u s) = mem s" "stored (effect u s) = stored s"
  by (simp_all add: effect_def)

lemma try_call_simps [simp]:
  "trace (try_call out u s) = trace s @ [(Call u, out (length (trace s)) = None)]"
  "mem (try_call out u s) = mem s" "stored (try_call out u s) = stored s"
  by (simp_all add: try_call_def)

lemma with_finalizer_eq:
  "with_finalizer k fin rest s =
     (if fin \<in> set (obj_finalizers (mem s)) then rest s
      else (let s0 = s\<lparr>mem := snd (ensureFinalizer (mem s) fin)\<rparr>
            in (result_requeue, kit_out k (length (trace s)), snd (write_object (kit_out k) (kit_ops k) s0))))"
proof -
  let ?s = "s\<lparr>mem := snd (ensureFinalizer (mem s) fin)\<rparr>"
  obtain r s1 where w: "write_object (kit_out k) (kit_ops k) ?s = (r, s1)" by fastforce
  then have "r = kit_out k (length (trace s))" by (metis fst_conv pass.select_convs(3) pass.surjective pass.update_convs(1) write_object_simps(1))
  then show ?thesis using w by (auto simp: with_finalizer_def ensureFinalizer_def list_ex_iff)
qed

section \<open>The calls of a trace\<close>

definition call_log :: "('u event \<times> bool) list \<Rightarrow> ('u \<times> bool) list" where
  "call_log t = List.map_filter (\<lambda>(ev, ok). case ev of Call u \<Rightarrow> Some (u, ok) | _ \<Rightarrow> None) t"

lemma call_log_simps [simp]:
  "call_log [] = []" "call_log (t @ t') = call_log t @ call_log t'"
  "call_log ((Call u, ok) # t) = (u, ok) # call_log t" "call_log ((WriteStatus, ok) # t) = call_log t"
  "call_log ((WriteObject, ok) # t) = call_log t" "call_log ((DeleteObject, ok) # t) = call_log t"
  by (simp_all add: call_log_def map_filter_def)

abbreviation pass_of :: "('o, 'u) outcome \<Rightarrow> ('o, 'u) pass" where
  "pass_of r \<equiv> snd (snd r)"

lemma save_and_eq:
  "save_and k res s =
     (case kit_out k (length (trace s)) of
        Some e \<Rightarrow> (result_done, Some e, snd (write_status (kit_out k) (kit_ops k) s))
      | None \<Rightarrow> (res, None, snd (write_status (kit_out k) (kit_ops k) s)))"
proof -
  obtain r s1 where w: "write_status (kit_out k) (kit_ops k) s = (r, s1)" by fastforce
  then have "r = kit_out k (length (trace s))" by (metis fst_conv write_status_simps(1))
  then show ?thesis using w by (simp add: save_and_def split: option.split)
qed

lemma release_eq:
  "release k fin s =
     (let s0 = s\<lparr>mem := removeFinalizer (mem s) fin\<rparr>
      in (result_done, kit_out k (length (trace s)), snd (write_object (kit_out k) (kit_ops k) s0)))"
proof -
  let ?s = "s\<lparr>mem := removeFinalizer (mem s) fin\<rparr>"
  obtain r s1 where w: "write_object (kit_out k) (kit_ops k) ?s = (r, s1)" by fastforce
  then have "r = kit_out k (length (trace s))" by (metis fst_conv pass.select_convs(3) pass.surjective pass.update_convs(1) write_object_simps(1))
  then show ?thesis using w by (simp add: release_def)
qed

lemma call_log_of_writes [simp]:
  "call_log (trace (pass_of (fail_with k r e s))) = call_log (trace s)"
  "call_log (trace (pass_of (save_and k res s))) = call_log (trace s)"
  "call_log (trace (pass_of (release k fin s))) = call_log (trace s)"
  by (simp_all add: fail_with_def save_and_eq release_eq Let_def split: option.split)

lemma own_organization_log:
  "call_log (trace (snd (own_organization out K getOrg n s))) = call_log (trace s)"
  by (simp add: own_organization_def Let_def split: option.split)

text \<open>What that step leaves in memory: new owners, and after an update the stored status.\<close>

lemma own_organization_mem:
  assumes "own_organization out K getOrg n s = (r, s')"
  shows "(\<exists>os. mem s' = (mem s)\<lparr>obj_owners := os\<rparr>) \<or>
    (\<exists>os st. mem s' = with_status K st ((mem s)\<lparr>obj_owners := os\<rparr>))"
proof -
  let ?o = "reconcileOrganizationOwnership getOrg (\<lambda>_. out (length (trace s))) (mem s) n"
  let ?s = "s\<lparr>mem := (mem s)\<lparr>obj_owners := in_memory ?o\<rparr>\<rparr>"
  show ?thesis
  proof (cases "sent ?o")
    case None
    then show ?thesis using assms by (auto simp: own_organization_def Let_def)
  next
    case (Some os)
    then have "mem s' = mem (snd (write_object out K ?s))"
      using assms by (simp add: own_organization_def Let_def)
    then have "mem s' = (mem s)\<lparr>obj_owners := in_memory ?o\<rparr> \<or>
        (\<exists>st. mem s' = with_status K st ((mem s)\<lparr>obj_owners := in_memory ?o\<rparr>))"
      by (auto split: option.splits if_splits)
    then show ?thesis by blast
  qed
qed

lemma refresh_eq:
  "refresh k keep s =
     (let s1 = snd (write_object (kit_out k) (kit_ops k) s) in
      case kit_out k (length (trace s)) of
        Some e \<Rightarrow> (Some e, s1)
      | None \<Rightarrow> (None, set_st k (keep (status_of (kit_ops k) (mem s))) s1))"
proof -
  obtain r s1 where w: "write_object (kit_out k) (kit_ops k) s = (r, s1)" by fastforce
  then have "r = kit_out k (length (trace s))" by (metis fst_conv write_object_simps(1))
  then show ?thesis using w by (simp add: refresh_def split: option.split)
qed

lemma call_or_eq:
  "call_or out u h rest s =
     (if out (length (trace s)) = None then rest (try_call out u s)
      else h (the (out (length (trace s)))) (try_call out u s))"
  by (auto simp: call_or_def try_call_def attempt_def Let_def split: option.split)

end
