(* ===== verification/Samples.thy ===== *)
theory Samples
  imports Api_Projects Api_Systems
begin

text \<open>
  Small concrete resources for the witnesses of the controller theories: each has its name and what
  a witness varies as arguments, and zero values elsewhere.
\<close>

definition sample_meta :: "string \<Rightarrow> string list \<Rightarrow> bool \<Rightarrow> k8s_object" where
  "sample_meta n fins deleting = (mk_object ''ns'' n)\<lparr>obj_finalizers := fins, obj_deleting := deleting\<rparr>"

definition ready_condition :: "bool \<Rightarrow> condition" where
  "ready_condition ok = \<lparr>cond_type = ''Ready'', cond_status = ok, cond_reason = [], cond_message = [],
     cond_observed_generation = 1\<rparr>"

definition sample_project :: "string \<Rightarrow> condition list \<Rightarrow> content_project" where
  "sample_project n conds = k8s_object.extend (sample_meta n [] False)
     \<lparr>cp_spec = \<lparr>cp_label = ''lbl'', cp_name = n, cp_description = [], cp_source_refs = [],
        cp_channels = None, cp_environments = [], cp_filters = [],
        cp_build = \<lparr>bp_auto_build_sources = False, bp_schedule = [], bp_message = []\<rparr>,
        cp_organization_ref = None\<rparr>,
      cp_status = \<lparr>cps_uyuni_id = 1, cps_attached_sources = [], cps_filter_ids = [],
        cps_environment_states = [], cps_last_build_action_id = 0, cps_last_build_started_at = None,
        cps_last_build_fingerprint = [], cps_build_status = [], cps_observed_generation = 1,
        cps_conditions = conds\<rparr>\<rparr>"

definition sample_environment :: "string \<Rightarrow> string list \<Rightarrow> bool \<Rightarrow> clm_environment" where
  "sample_environment n fins deleting = k8s_object.extend (sample_meta n fins deleting)
     \<lparr>env_spec = \<lparr>env_id = ''dev'', env_name = ''dev'', env_description = [],
        env_project_ref = \<lparr>lor_name = ''proj''\<rparr>, env_predecessor = [], env_cluster = None,
        env_organization_ref = None\<rparr>,
      env_status = \<lparr>envs_uyuni_label = [], envs_state = [], envs_built_version = 0,
        envs_conditions = [], envs_observed_generation = 1\<rparr>\<rparr>"

lemmas sample_simps = sample_meta_def ready_condition_def sample_project_def sample_environment_def
  mk_object_def k8s_object.defs

end
