(* ===== verification/Environment_Controller.thy ===== *)
theory Environment_Controller
  imports Pass_Steps Uyuni_Types Samples
begin

text \<open>
  \<^verbatim>\<open>clmenvironment_controller.go\<close>: one environment of a content project is created in Uyuni once its
  project is ready and its predecessor is there, and kept in line afterwards.  The name of an
  environment in Uyuni is its spec id; two resources of one project can ask for the same id.
\<close>

section \<open>World and calls\<close>

definition environment_kind :: "(('a) clm_environment_scheme, clm_environment_status) kind_ops" where
  "environment_kind = \<lparr>status_of = env_status, with_status = \<lambda>st e. e\<lparr>env_status := st\<rparr>\<rparr>"

datatype env_call =
    CreateEnvironment string string string string string
  | UpdateEnvironment string string string string
  | RemoveEnvironment string string string string

record ('a, 'g, 'c) env_world =
  ew_ssc :: set_cond
  ew_client :: "go_error option"
  ew_get_org :: "('g) organization_scheme k8s_get"
  ew_get_project :: "('c) content_project_scheme k8s_get"
  ew_list :: "string \<Rightarrow> go_error + project_environment_info list"
  ew_items :: "('a) clm_environment_scheme k8s_list"
  ew_out :: answers

definition env_kit ::
  "('a, 'g, 'c) env_world \<Rightarrow> (('a) clm_environment_scheme, clm_environment_status) kit" where
  "env_kit w = \<lparr>kit_ops = environment_kind, kit_conditions = envs_conditions_update,
     kit_ssc = ew_ssc w, kit_out = ew_out w\<rparr>"

section \<open>The pass\<close>

definition project_ready :: "('c) content_project_scheme \<Rightarrow> bool" where
  "project_ready cp =
     list_ex (\<lambda>c. cond_type c = ''Ready'' \<and> cond_status c) (cps_conditions (cp_status cp))"

text \<open>The predecessor is looked up only when there is one, and a failing list lets the pass go on.\<close>

definition predecessor_missing ::
  "('a, 'g, 'c) env_world \<Rightarrow> string \<Rightarrow> clm_environment_spec \<Rightarrow> bool" where
  "predecessor_missing w label sp =
     (env_predecessor sp \<noteq> [] \<and>
      (case ew_list w label of
         Inl _ \<Rightarrow> False
       | Inr envs \<Rightarrow> \<not> list_ex (\<lambda>e. pei_label e = env_predecessor sp) envs))"

definition already_exists :: "go_error \<Rightarrow> bool" where
  "already_exists e = (str_contains (err_text e) ''already exists'' \<or> str_contains (err_text e) ''500:'')"

definition env_create ::
  "('a, 'g, 'c) env_world \<Rightarrow> string \<Rightarrow> (('a) clm_environment_scheme, env_call) pass \<Rightarrow>
   (('a) clm_environment_scheme, env_call) pass" where
  "env_create w label s =
     (let sp = env_spec (mem s) in
      case attempt (ew_out w) (Call (CreateEnvironment label (env_id sp) (env_name sp)
             (env_description sp) (env_predecessor sp))) s of
        (e, s1) \<Rightarrow> set_st (env_kit w) (\<lambda>st. st\<lparr>envs_uyuni_label := env_id sp,
          envs_state := (if e \<noteq> None \<and> \<not> already_exists (the e) then ''PENDING'' else ''NEW'')\<rparr>) s1)"

text \<open>The first other resource of the namespace that has been reconciled with the same id and project.\<close>

definition env_rival ::
  "('a) clm_environment_scheme list \<Rightarrow> ('a) clm_environment_scheme \<Rightarrow> ('a) clm_environment_scheme option" where
  "env_rival items env =
     find (\<lambda>other. obj_name other \<noteq> obj_name env \<and> env_id (env_spec other) = env_id (env_spec env) \<and>
       lor_name (env_project_ref (env_spec other)) = lor_name (env_project_ref (env_spec env)) \<and>
       envs_observed_generation (env_status other) > 0) items"

definition env_conflict ::
  "('a, 'g, 'c) env_world \<Rightarrow> ('a) clm_environment_scheme \<Rightarrow> (('a) clm_environment_scheme, env_call) pass \<Rightarrow>
   (('a) clm_environment_scheme, env_call) outcome" where
  "env_conflict w other s =
     (let s1 = become (env_kit w) False ''EnvironmentIDConflict''
            (''environment '' @ go_quote (env_id (env_spec (mem s))) @ '' in project ''
             @ go_quote (lor_name (env_project_ref (env_spec (mem s))))
             @ '' is already managed by ClmEnvironment CR '' @ go_quote (obj_name other)
             @ ''; rename this environment or delete the existing one first'') s
      in (result_after (5 * minute), None, snd (write_status (ew_out w) environment_kind s1)))"

definition env_adopt ::
  "('a, 'g, 'c) env_world \<Rightarrow> string \<Rightarrow> (('a) clm_environment_scheme, env_call) pass \<Rightarrow>
   (('a) clm_environment_scheme, env_call) outcome" where
  "env_adopt w label s =
     (let sp = env_spec (mem s);
          s1 = try_call (ew_out w) (UpdateEnvironment label (env_id sp) (env_name sp) (env_description sp)) s;
          s2 = set_st (env_kit w) (\<lambda>st. st\<lparr>envs_observed_generation := obj_generation (mem s1)\<rparr>) s1
      in save_and (env_kit w) (result_after (5 * minute)) (become (env_kit w) True ''Reconciled'' [] s2))"

definition env_realize ::
  "('a, 'g, 'c) env_world \<Rightarrow> string \<Rightarrow> (('a) clm_environment_scheme, env_call) pass \<Rightarrow>
   (('a) clm_environment_scheme, env_call) outcome" where
  "env_realize w label s =
     (let s1 = env_create w label s in
      case (case ew_items w (obj_namespace (mem s1)) of
              Inl _ \<Rightarrow> None | Inr items \<Rightarrow> env_rival items (mem s1)) of
        Some other \<Rightarrow> env_conflict w other s1
      | None \<Rightarrow> env_adopt w label s1)"

definition env_checks ::
  "('a, 'g, 'c) env_world \<Rightarrow> (('a) clm_environment_scheme, env_call) pass \<Rightarrow>
   (('a) clm_environment_scheme, env_call) outcome" where
  "env_checks w s =
     (case ew_get_project w (obj_namespace (mem s)) (lor_name (env_project_ref (env_spec (mem s)))) of
        Inl e \<Rightarrow> fail_with (env_kit w) ''ProjectNotFound'' e s
      | Inr cp \<Rightarrow>
          if \<not> project_ready cp
          then fail_with (env_kit w) ''ProjectNotReady''
                 (errorf ''parent ContentProject is not ready in Uyuni - cannot create environment'') s
          else if predecessor_missing w (cp_label (cp_spec cp)) (env_spec (mem s))
          then fail_with (env_kit w) ''WaitingForPredecessor'' (errorf (''predecessor environment ''
                 @ go_quote (env_predecessor (env_spec (mem s))) @ '' does not exist yet'')) s
          else env_realize w (cp_label (cp_spec cp)) s)"

definition env_handleDeletion ::
  "('a, 'g, 'c) env_world \<Rightarrow> (('a) clm_environment_scheme, env_call) pass \<Rightarrow>
   (('a) clm_environment_scheme, env_call) outcome" where
  "env_handleDeletion w s =
     (let env = mem s; sp = env_spec env in
      if \<not> containsFinalizer env clmEnvFinalizer then (result_done, None, s)
      else if has_annotation env AnnForceDelete then release (env_kit w) clmEnvFinalizer s
      else case ew_get_project w (obj_namespace env) (lor_name (env_project_ref sp)) of
        Inl _ \<Rightarrow> release (env_kit w) clmEnvFinalizer s
      | Inr cp \<Rightarrow>
          (case ew_client w of
             Some e \<Rightarrow> return_error e s
           | None \<Rightarrow> call_or (ew_out w)
               (RemoveEnvironment (cp_label (cp_spec cp)) (env_id sp) (env_name sp) (env_description sp))
               (\<lambda>e s1. if is_uyuni_not_found e then release (env_kit w) clmEnvFinalizer s1
                       else return_error e s1)
               (release (env_kit w) clmEnvFinalizer) s))"

definition env_Reconcile ::
  "('a, 'g, 'c) env_world \<Rightarrow> ('a) clm_environment_scheme \<Rightarrow> (('a) clm_environment_scheme, env_call) outcome" where
  "env_Reconcile w env =
     (let s = start_pass env in
      if obj_deleting env then env_handleDeletion w s
      else case ew_client w of
        Some e \<Rightarrow> fail_with (env_kit w) ''OrganizationError'' e s
      | None \<Rightarrow> with_finalizer (env_kit w) clmEnvFinalizer (\<lambda>s.
          (case own_organization (ew_out w) environment_kind (ew_get_org w)
                  (orgRef (env_organization_ref (env_spec env))) s of
             (Some e, s1) \<Rightarrow> return_error e s1
           | (None, s1) \<Rightarrow> env_checks w s1)) s)"

text \<open>Which environments a changed project enqueues.\<close>

definition envsForProject ::
  "('a) clm_environment_scheme k8s_list \<Rightarrow> ('c) k8s_object_scheme \<Rightarrow> (string \<times> string) list" where
  "envsForProject list obj =
     (case list (obj_namespace obj) of
        Inl _ \<Rightarrow> []
      | Inr items \<Rightarrow> map (\<lambda>e. (obj_namespace e, obj_name e))
          (filter (\<lambda>e. lor_name (env_project_ref (env_spec e)) = obj_name obj) items))"

interpretation environment_status_field: status_field environment_kind
  by unfold_locales (simp_all add: environment_kind_def k8s_object.defs)

section \<open>Environments are created in the order of the chain\<close>

lemma environment_kind_simps [simp]:
  "status_of environment_kind e = env_status e"
  "with_status environment_kind st e = e\<lparr>env_status := st\<rparr>"
  by (simp_all add: environment_kind_def)

lemma env_kit_simps [simp]:
  "kit_ops (env_kit w) = environment_kind" "kit_out (env_kit w) = ew_out w"
  "kit_ssc (env_kit w) = ew_ssc w" "kit_conditions (env_kit w) = envs_conditions_update"
  by (simp_all add: env_kit_def)

lemma env_own_keeps:
  "own_organization out environment_kind getOrg n s = (r, s') \<Longrightarrow>
     env_spec (mem s') = env_spec (mem s) \<and> obj_namespace (mem s') = obj_namespace (mem s) \<and>
     obj_name (mem s') = obj_name (mem s) \<and> obj_generation (mem s') = obj_generation (mem s)"
  by (drule own_organization_mem) auto

lemma env_create_simps [simp]:
  "env_spec (mem (env_create w label s)) = env_spec (mem s)"
  "obj_generation (mem (env_create w label s)) = obj_generation (mem s)"
  "stored (env_create w label s) = stored s"
  "trace (env_create w label s) = trace s @ [(Call (CreateEnvironment label (env_id (env_spec (mem s)))
     (env_name (env_spec (mem s))) (env_description (env_spec (mem s)))
     (env_predecessor (env_spec (mem s)))), ew_out w (length (trace s)) = None)]"
  by (simp_all add: env_create_def Let_def set_st_def attempt_def)

text \<open>The calls of the part after the checks: always the create call, then at most the update.\<close>

lemma env_realize_calls:
  "\<exists>rest. call_log (trace (pass_of (env_realize w label s))) = call_log (trace s) @
     (CreateEnvironment label (env_id (env_spec (mem s))) (env_name (env_spec (mem s)))
       (env_description (env_spec (mem s))) (env_predecessor (env_spec (mem s))),
      ew_out w (length (trace s)) = None) # rest \<and>
     (\<forall>x \<in> set rest. case fst x of UpdateEnvironment _ _ _ _ \<Rightarrow> True | _ \<Rightarrow> False)"
  by (auto simp: env_realize_def env_conflict_def env_adopt_def Let_def split: option.split sum.split)

lemma env_checks_calls:
  "(u, ok) \<in> set (call_log (trace (pass_of (env_checks w s)))) \<Longrightarrow> call_log (trace s) = [] \<Longrightarrow>
   \<exists>cp. ew_get_project w (obj_namespace (mem s)) (lor_name (env_project_ref (env_spec (mem s)))) = Inr cp \<and>
     project_ready cp \<and> \<not> predecessor_missing w (cp_label (cp_spec cp)) (env_spec (mem s)) \<and>
     (case u of CreateEnvironment p i n d pre \<Rightarrow>
        p = cp_label (cp_spec cp) \<and> i = env_id (env_spec (mem s)) \<and> n = env_name (env_spec (mem s)) \<and>
        d = env_description (env_spec (mem s)) \<and> pre = env_predecessor (env_spec (mem s))
      | UpdateEnvironment _ _ _ _ \<Rightarrow> True | RemoveEnvironment _ _ _ _ \<Rightarrow> False)"
proof -
  assume u: "(u, ok) \<in> set (call_log (trace (pass_of (env_checks w s))))" and none: "call_log (trace s) = []"
  from u none obtain cp where cp:
    "ew_get_project w (obj_namespace (mem s)) (lor_name (env_project_ref (env_spec (mem s)))) = Inr cp"
    "project_ready cp" "\<not> predecessor_missing w (cp_label (cp_spec cp)) (env_spec (mem s))"
    "env_checks w s = env_realize w (cp_label (cp_spec cp)) s"
    by (auto simp: env_checks_def split: sum.splits if_splits)
  with u none env_realize_calls [of w "cp_label (cp_spec cp)" s]
  show ?thesis by (auto split: env_call.splits)
qed

text \<open>
  C27.  A pass asks Uyuni to create an environment only for a live resource that has its finalizer,
  whose project exists and has a true Ready condition, under the label of that project and with the id,
  name, description and predecessor of the spec, and only when the environment is the root of its
  chain, or its predecessor is among the environments Uyuni lists, or that list could not be read.
\<close>

theorem environment_created_in_order:
  assumes "(CreateEnvironment p i n d pre, ok) \<in> set (call_log (trace (pass_of (env_Reconcile w env))))"
  shows "\<not> obj_deleting env \<and> clmEnvFinalizer \<in> set (obj_finalizers env) \<and>
    i = env_id (env_spec env) \<and> n = env_name (env_spec env) \<and> d = env_description (env_spec env) \<and>
    pre = env_predecessor (env_spec env) \<and>
    (\<exists>cp. ew_get_project w (obj_namespace env) (lor_name (env_project_ref (env_spec env))) = Inr cp \<and>
       p = cp_label (cp_spec cp) \<and> (\<exists>c\<in>set (cps_conditions (cp_status cp)). cond_type c = ''Ready'' \<and> cond_status c) \<and>
       (pre = [] \<or> (case ew_list w p of Inl _ \<Rightarrow> True | Inr envs \<Rightarrow> pre \<in> pei_label ` set envs)))"
proof (cases "obj_deleting env")
  case True
  then show ?thesis using assms
    by (auto simp: env_Reconcile_def env_handleDeletion_def call_or_eq return_error_def Let_def
        split: option.splits sum.splits if_splits)
next
  case False
  then have client: "ew_client w = None" and fin: "clmEnvFinalizer \<in> set (obj_finalizers env)"
    using assms by (auto simp: env_Reconcile_def with_finalizer_eq Let_def split: option.splits if_splits)
  obtain r and s1 :: "('a clm_environment_scheme, env_call) pass" where own: "own_organization (ew_out w) environment_kind (ew_get_org w)
      (orgRef (env_organization_ref (env_spec env))) (start_pass env) = (r, s1)" by fastforce
  have none: "call_log (trace s1) = []"
    using own_organization_log [of "ew_out w" environment_kind "ew_get_org w" _ "start_pass env"] own
    by (metis call_log_simps(1) snd_conv start_pass_simps(3))
  have "(CreateEnvironment p i n d pre, ok) \<in> set (call_log (trace (pass_of (env_checks w s1))))"
    using assms False client fin own none
    by (auto simp: env_Reconcile_def with_finalizer_eq return_error_def split: option.splits)
  from env_checks_calls [OF this none] env_own_keeps [OF own] obtain cp where cp:
    "ew_get_project w (obj_namespace env) (lor_name (env_project_ref (env_spec env))) = Inr cp"
    "project_ready cp" "\<not> predecessor_missing w p (env_spec env)" "p = cp_label (cp_spec cp)"
    "i = env_id (env_spec env)" "pre = env_predecessor (env_spec env)" "n = env_name (env_spec env)"
    "d = env_description (env_spec env)" by auto
  from cp(3,6) have "pre = [] \<or> (case ew_list w p of Inl _ \<Rightarrow> True | Inr envs \<Rightarrow> pre \<in> pei_label ` set envs)"
    by (cases "ew_list w p"; simp add: predecessor_missing_def list_ex_iff image_iff; metis)
  moreover have "\<exists>c\<in>set (cps_conditions (cp_status cp)). cond_type c = ''Ready'' \<and> cond_status c"
    using cp(2) by (auto simp: project_ready_def list_ex_iff)
  ultimately show ?thesis using False fin cp(1,4-8) by blast
qed

definition env_demo_world ::
  "clm_environment list \<Rightarrow> answers \<Rightarrow> (unit, unit, unit) env_world" where
  "env_demo_world items out = \<lparr>ew_ssc = replace_cond, ew_client = None,
     ew_get_org = \<lambda>_ _. Inl (errorf ''none''),
     ew_get_project = \<lambda>_ _. Inr (sample_project ''proj'' [ready_condition True]),
     ew_list = \<lambda>_. Inr [], ew_items = \<lambda>_. Inr items, ew_out = out\<rparr>"

definition sample_env_info :: "string \<Rightarrow> project_environment_info" where
  "sample_env_info l = \<lparr>pei_id = 1, pei_label = l, pei_name = l, pei_description = [], pei_version = 1,
     pei_previous = [], pei_status = []\<rparr>"

text \<open>The second environment of a chain, whose predecessor Uyuni has.\<close>

theorem environment_created_in_order_witness:
  "(CreateEnvironment ''lbl'' ''dev'' ''dev'' [] ''base'', True) \<in> set (call_log (trace (pass_of (env_Reconcile
      ((env_demo_world [] (\<lambda>_. None))\<lparr>ew_list := \<lambda>_. Inr [sample_env_info ''base'']\<rparr>)
      ((sample_environment ''e'' [clmEnvFinalizer] False)\<lparr>env_spec :=
         (env_spec (sample_environment ''e'' [clmEnvFinalizer] False))\<lparr>env_predecessor := ''base''\<rparr>\<rparr>))))) \<and>
   ''base'' \<in> pei_label ` {sample_env_info ''base''}"
proof
  let ?w = "(env_demo_world [] (\<lambda>_. None))\<lparr>ew_list := \<lambda>_. Inr [sample_env_info ''base'']\<rparr>"
    and ?e = "(sample_environment ''e'' [clmEnvFinalizer] False)\<lparr>env_spec :=
         (env_spec (sample_environment ''e'' [clmEnvFinalizer] False))\<lparr>env_predecessor := ''base''\<rparr>\<rparr>"
  show "(CreateEnvironment ''lbl'' ''dev'' ''dev'' [] ''base'', True) \<in>
      set (call_log (trace (pass_of (env_Reconcile ?w ?e))))" by code_simp
  from environment_created_in_order [OF this] show "''base'' \<in> pei_label ` {sample_env_info ''base''}" by auto
qed

text \<open>
  Two resources that name the same environment: the one that loses the conflict check still
  has its finalizer, and when it is deleted Uyuni is asked to remove the environment the other one
  manages.
\<close>

theorem rival_environment_removed:
  assumes "env_rival items env = Some other" "obj_deleting env"
    and "clmEnvFinalizer \<in> set (obj_finalizers env)" "\<not> has_annotation env AnnForceDelete"
    and "ew_client w = None"
    and "ew_get_project w (obj_namespace env) (lor_name (env_project_ref (env_spec env))) = Inr cp"
  shows "call_log (trace (pass_of (env_Reconcile w env))) =
    [(RemoveEnvironment (cp_label (cp_spec cp)) (env_id (env_spec other)) (env_name (env_spec env))
        (env_description (env_spec env)), ew_out w 0 = None)]"
proof -
  have "env_id (env_spec other) = env_id (env_spec env)"
    using assms(1) by (auto simp: env_rival_def find_Some_iff)
  then show ?thesis using assms(2-)
    by (simp add: env_Reconcile_def env_handleDeletion_def call_or_eq return_error_def Let_def)
qed

theorem rival_environment_removed_witness:
  "call_log (trace (pass_of (env_Reconcile (env_demo_world [] (\<lambda>_. None))
      (sample_environment ''b'' [clmEnvFinalizer] True)))) = [(RemoveEnvironment ''lbl'' ''dev'' ''dev'' [], True)]"
  using rival_environment_removed [of "[sample_environment ''a'' [] False]"
    "sample_environment ''b'' [clmEnvFinalizer] True" "sample_environment ''a'' [] False"
    "env_demo_world [] (\<lambda>_. None)" "sample_project ''proj'' [ready_condition True]"]
  by (simp add: env_rival_def env_demo_world_def sample_simps has_annotation_def)

text \<open>
  An environment Uyuni refuses to create is reported as Ready: when the create call fails with
  any error but a duplicate and the status write succeeds, the stored resource has Ready true, the
  current generation as observed, and only the state \<open>PENDING\<close> to tell.
\<close>

theorem refused_environment_is_ready:
  assumes "condition_law (ew_ssc w)" "stored s = Some st"
    and "ew_out w (length (trace s)) = Some e" "\<not> already_exists e"
    and "(case ew_items w (obj_namespace (mem s)) of Inl _ \<Rightarrow> True | Inr items \<Rightarrow> env_rival items (mem s) = None)"
    and "ew_out w (length (trace s) + 2) = None"
  shows "\<exists>st'. stored (pass_of (env_realize w label s)) = Some st' \<and> envs_state (env_status st') = ''PENDING'' \<and>
    envs_observed_generation (env_status st') = obj_generation (mem s) \<and>
    map_option cond_status (find_cond ''Ready'' (envs_conditions (env_status st'))) = Some True"
proof -
  let ?s1 = "env_create w label s"
  let ?s2 = "set_st (env_kit w) (\<lambda>st. st\<lparr>envs_observed_generation := obj_generation (mem s)\<rparr>)
    (try_call (ew_out w) (UpdateEnvironment label (env_id (env_spec (mem s))) (env_name (env_spec (mem s)))
      (env_description (env_spec (mem s)))) ?s1)"
  have "env_rival items (mem ?s1) = env_rival items (mem s)" "obj_namespace (mem ?s1) = obj_namespace (mem s)" for items
    by (simp_all add: env_rival_def env_create_def set_st_def attempt_def Let_def)
  then have "env_realize w label s = env_adopt w label ?s1"
    using assms(5) by (simp add: env_realize_def split: sum.splits)
  moreover have "stored (pass_of (env_adopt w label ?s1)) =
      Some (with_status environment_kind (env_status (mem (become (env_kit w) True ''Reconciled'' [] ?s2))) st)"
    using assms(2,6) by (simp add: env_adopt_def save_and_eq Let_def)
  moreover have "env_status (mem (become (env_kit w) True ''Reconciled'' [] ?s2)) =
      (env_status (mem s))\<lparr>envs_uyuni_label := env_id (env_spec (mem s)), envs_state := ''PENDING'',
        envs_observed_generation := obj_generation (mem s),
        envs_conditions := setReady (ew_ssc w) (envs_conditions (env_status (mem s))) (obj_generation (mem s))
          True ''Reconciled'' []\<rparr>"
    using assms(3,4) by (simp add: become_def env_create_def set_st_def attempt_def Let_def)
  ultimately show ?thesis by (simp add: setReady_Ready [OF assms(1)])
qed

theorem refused_environment_is_ready_witness:
  "\<exists>st'. stored (pass_of (env_realize (env_demo_world [] (\<lambda>n. if n = 0 then Some (errorf ''denied'') else None))
        ''lbl'' (start_pass (sample_environment ''e'' [clmEnvFinalizer] False)))) = Some st' \<and>
     envs_state (env_status st') = ''PENDING'' \<and>
     map_option cond_status (find_cond ''Ready'' (envs_conditions (env_status st'))) = Some True"
proof -
  let ?w = "env_demo_world [] (\<lambda>n. if n = 0 then Some (errorf ''denied'') else None)"
  let ?s = "start_pass (sample_environment ''e'' [clmEnvFinalizer] False) :: (clm_environment, env_call) pass"
  have "condition_law (ew_ssc ?w)" by (simp add: env_demo_world_def replace_cond_law)
  moreover have "\<not> already_exists (errorf ''denied'')" by code_simp
  ultimately show ?thesis
    using refused_environment_is_ready [of ?w ?s _ "errorf ''denied''" "''lbl''"]
    by (fastforce simp: env_demo_world_def env_rival_def)
qed

end
