(* ===== verification/Formula_Values.thy ===== *)
theory Formula_Values
  imports Sets_Ownership "HOL-Library.Finite_Map" "HOL-Library.Multiset"
begin

text \<open>
  \<^verbatim>\<open>internal/controller/formula_values.go\<close>: the form data of Salt formulas.  A formula's data is a
  nested map built from static values, bulk sources and single values; it is written to Uyuni, or
  compared with what Uyuni has to report drift.

  A decoded JSON value is a \<open>jval\<close>.  A Go map in it is a finite map, so two of them are equal
  exactly when \<^verbatim>\<open>reflect.DeepEqual\<close> says so; a \<^verbatim>\<open>range\<close> over a map visits its keys in an order that
  the model takes as a list.  \<^verbatim>\<open>int64\<close> numbers come from Kubernetes objects, \<^verbatim>\<open>float64\<close> ones from
  JSON and YAML text and from Uyuni; they are never \<^verbatim>\<open>DeepEqual\<close>.
\<close>

section \<open>Nested values\<close>

datatype 'd jval =
    JNull
  | JBool bool
  | JInt int
  | JFloat 'd
  | JStr string
  | JList "'d jval list"
  | JMap "(string, 'd jval) fmap"

definition is_jmap :: "'d jval \<Rightarrow> bool" where
  "is_jmap v = (case v of JMap _ \<Rightarrow> True | _ \<Rightarrow> False)"

definition go_type :: "'d jval \<Rightarrow> string" where
  "go_type v = (case v of JNull \<Rightarrow> ''<nil>'' | JBool _ \<Rightarrow> ''bool'' | JInt _ \<Rightarrow> ''int64''
     | JFloat _ \<Rightarrow> ''float64'' | JStr _ \<Rightarrow> ''string'' | JList _ \<Rightarrow> ''[]interface {}''
     | JMap _ \<Rightarrow> ''map[string]interface {}'')"

text \<open>\<^verbatim>\<open>setPath\<close> on the parts of a path; the Go code walks and updates the nested maps in place.\<close>

fun set_parts :: "string list \<Rightarrow> 'd jval \<Rightarrow> (string, 'd jval) fmap \<Rightarrow> (string, 'd jval) fmap" where
  "set_parts [] v m = m"
| "set_parts [p] v m = fmupd p v m"
| "set_parts (p # q # ps) v m =
     fmupd p (JMap (set_parts (q # ps) v
       (case fmlookup m p of Some (JMap m') \<Rightarrow> m' | _ \<Rightarrow> fmempty))) m"

definition setPath :: "string \<Rightarrow> 'd jval \<Rightarrow> (string, 'd jval) fmap \<Rightarrow> (string, 'd jval) fmap" where
  "setPath path v m = set_parts (split_on (CHR ''.'') path) v m"

definition joinPath :: "string \<Rightarrow> string \<Rightarrow> string" where
  "joinPath pre key = (if pre = [] then key else pre @ ''.'' @ key)"

text \<open>
  \<^verbatim>\<open>mapSubset\<close>, with \<open>subset_val\<close> for one pair of values: a wanted map is compared key by key, any
  other value with \<^verbatim>\<open>reflect.DeepEqual\<close>.
\<close>

primrec subset_val :: "'d jval \<Rightarrow> 'd jval \<Rightarrow> bool" where
  "subset_val JNull g = (g = JNull)"
| "subset_val (JBool b) g = (g = JBool b)"
| "subset_val (JInt i) g = (g = JInt i)"
| "subset_val (JFloat d) g = (g = JFloat d)"
| "subset_val (JStr s) g = (g = JStr s)"
| "subset_val (JList xs) g = (g = JList xs)"
| "subset_val (JMap wm) g =
     (case g of
        JMap gm \<Rightarrow> fmpred (\<lambda>k f. case fmlookup gm k of None \<Rightarrow> False | Some gv \<Rightarrow> f gv) (fmmap subset_val wm)
      | _ \<Rightarrow> False)"

definition mapSubset :: "(string, 'd jval) fmap \<Rightarrow> (string, 'd jval) fmap \<Rightarrow> bool" where
  "mapSubset want got = fmpred (\<lambda>k wv. case fmlookup got k of None \<Rightarrow> False | Some gv \<Rightarrow> subset_val wv gv) want"

section \<open>Resolving values\<close>

text \<open>
  What the reader and the libraries answer: Secrets and ConfigMaps as their data in the order a
  \<^verbatim>\<open>range\<close> visits it, a resource of the operator's group as its decoded content, the JSON and YAML
  decoders, \<^verbatim>\<open>schema.ParseGroupVersion\<close> (the group) and the k8s JSONPath evaluator (the results of
  the first expression).
\<close>

record 'd value_reader =
  vr_secret :: "(string \<times> string) list k8s_get"
  vr_config_map :: "(string \<times> string) list k8s_get"
  vr_object :: "string \<Rightarrow> string \<Rightarrow> string \<Rightarrow> string \<Rightarrow> go_error + 'd jval"
  vr_group :: "string \<Rightarrow> go_error + string"
  vr_json :: "string \<Rightarrow> go_error + 'd jval"
  vr_yaml :: "string \<Rightarrow> go_error + 'd jval"
  vr_jsonpath :: "'d jval \<Rightarrow> string \<Rightarrow> go_error + 'd jval list"

text \<open>A reference either resolves, or is not there yet (a wait reason), or fails.\<close>

datatype 'a resolve = Resolved 'a | Wait string | Broken go_error

definition parseFormulaValue :: "'d value_reader \<Rightarrow> string \<Rightarrow> string \<Rightarrow> go_error + 'd jval" where
  "parseFormulaValue r raw format =
     (if format = [] \<or> format = ''string'' then Inr (JStr raw)
      else if format = ''yaml'' then vr_yaml r raw
      else if format = ''json'' then vr_json r raw
      else Inl (errorf (''unsupported format '' @ go_quote format)))"

text \<open>\<^verbatim>\<open>json.Unmarshal\<close> into a map gives nil for \<^verbatim>\<open>null\<close>, which the caller replaces by an empty map.\<close>

definition rawExtensionToMap :: "'d value_reader \<Rightarrow> string \<Rightarrow> go_error + (string, 'd jval) fmap" where
  "rawExtensionToMap r raw =
     (if raw = [] then Inr fmempty
      else case vr_json r raw of
        Inl e \<Rightarrow> Inl e
      | Inr (JMap m) \<Rightarrow> Inr m
      | Inr JNull \<Rightarrow> Inr fmempty
      | Inr v \<Rightarrow> Inl (errorf (''json: cannot unmarshal '' @ go_type v)))"

definition evalJSONPath :: "'d value_reader \<Rightarrow> 'd jval \<Rightarrow> string \<Rightarrow> go_error + 'd jval" where
  "evalJSONPath r obj path =
     (let expr = (if \<not> has_prefix path ''.'' \<and> \<not> has_prefix path ''['' then ''.'' @ path else path)
      in case vr_jsonpath r obj (''{'' @ expr @ ''}'') of
           Inl e \<Rightarrow> Inl e
         | Inr [] \<Rightarrow> Inr JNull
         | Inr [v] \<Rightarrow> Inr v
         | Inr vs \<Rightarrow> Inr (JList vs))"

definition resolveObjectFieldRef :: "'d value_reader \<Rightarrow> string \<Rightarrow> object_field_ref \<Rightarrow> 'd jval resolve" where
  "resolveObjectFieldRef r ns ref =
     (case vr_group r (ofr_api_version ref) of
        Inl e \<Rightarrow> Broken (wrap_err (''objectFieldRef apiVersion '' @ go_quote (ofr_api_version ref) @ '': '') e)
      | Inr g \<Rightarrow>
          if g \<noteq> Group
          then Broken (errorf (''objectFieldRef only supports the '' @ Group @ '' API group, got '' @ go_quote g))
          else case vr_object r (ofr_api_version ref) (ofr_kind ref) ns (ofr_name ref) of
            Inl e \<Rightarrow>
              if ignore_not_found e = None
              then Wait (ofr_kind ref @ '' '' @ go_quote (ofr_name ref) @ '' not found (objectFieldRef)'')
              else Broken e
          | Inr obj \<Rightarrow>
              (case evalJSONPath r obj (ofr_field_path ref) of
                 Inl e \<Rightarrow> Broken (wrap_err (''objectFieldRef fieldPath '' @ go_quote (ofr_field_path ref)
                   @ '' on '' @ ofr_kind ref @ '' '' @ go_quote (ofr_name ref) @ '': '') e)
               | Inr JNull \<Rightarrow> Wait (ofr_kind ref @ '' '' @ go_quote (ofr_name ref) @ '' field ''
                   @ go_quote (ofr_field_path ref) @ '' is empty (not populated yet?)'')
               | Inr v \<Rightarrow> Resolved v))"

text \<open>One key of a Secret or ConfigMap, with the name of the kind for the messages.\<close>

definition resolve_key ::
  "'d value_reader \<Rightarrow> string \<Rightarrow> (string \<times> string) list k8s_get \<Rightarrow> string \<Rightarrow> formula_value_from \<Rightarrow>
   string \<Rightarrow> string \<Rightarrow> 'd jval resolve" where
  "resolve_key r kind get ns vf name key =
     (case get ns name of
        Inl e \<Rightarrow>
          if ignore_not_found e = None
          then Wait (kind @ '' '' @ go_quote name @ '' not found (valuesFrom '' @ go_quote (fvf_path vf) @ '')'')
          else Broken e
      | Inr data \<Rightarrow>
          (case map_of data key of
             None \<Rightarrow> Wait (''key '' @ go_quote key @ '' not in '' @ kind @ '' '' @ go_quote name)
           | Some raw \<Rightarrow>
               (case parseFormulaValue r raw (fvf_format vf) of
                  Inl e \<Rightarrow> Broken (wrap_err (''valuesFrom '' @ go_quote (fvf_path vf) @ '': parsing '' @ kind @ '' ''
                    @ go_quote name @ '' key '' @ go_quote key @ '' as '' @ fvf_format vf @ '': '') e)
                | Inr v \<Rightarrow> Resolved v)))"

definition resolveFormulaValueFrom ::
  "'d value_reader \<Rightarrow> string \<Rightarrow> formula_value_from \<Rightarrow> 'd jval resolve" where
  "resolveFormulaValueFrom r ns vf =
     (case (fvf_secret_key_ref vf, fvf_config_map_key_ref vf, fvf_object_field_ref vf) of
        (Some k, _, _) \<Rightarrow> resolve_key r ''Secret'' (vr_secret r) ns vf (skr_name k) (skr_key k)
      | (None, Some k, _) \<Rightarrow> resolve_key r ''ConfigMap'' (vr_config_map r) ns vf (cmr_name k) (cmr_key k)
      | (None, None, Some ref) \<Rightarrow> resolveObjectFieldRef r ns ref
      | (None, None, None) \<Rightarrow> Resolved JNull)"

definition bulk_data ::
  "string \<Rightarrow> (string \<times> string) list k8s_get \<Rightarrow> string \<Rightarrow> string \<Rightarrow> (string \<times> string) list resolve" where
  "bulk_data kind get ns name =
     (case get ns name of
        Inl e \<Rightarrow>
          if ignore_not_found e = None
          then Wait (kind @ '' '' @ go_quote name @ '' not found (valuesFromSources)'') else Broken e
      | Inr data \<Rightarrow> Resolved data)"

definition resolveFormulaBulkSource ::
  "'d value_reader \<Rightarrow> string \<Rightarrow> formula_value_source \<Rightarrow> (string \<times> string) list resolve" where
  "resolveFormulaBulkSource r ns src =
     (case (fvs_secret_ref src, fvs_config_map_ref src) of
        (Some ref, _) \<Rightarrow> bulk_data ''Secret'' (vr_secret r) ns (lor_name ref)
      | (None, Some ref) \<Rightarrow> bulk_data ''ConfigMap'' (vr_config_map r) ns (lor_name ref)
      | (None, None) \<Rightarrow> Resolved [])"

definition merge_bulk ::
  "string \<Rightarrow> (string \<times> string) list \<Rightarrow> (string, 'd jval) fmap \<Rightarrow> (string, 'd jval) fmap" where
  "merge_bulk path kvs data = fold (\<lambda>(k, v). setPath (joinPath path k) (JStr v)) kvs data"

fun bulk_loop ::
  "'d value_reader \<Rightarrow> string \<Rightarrow> formula_value_source list \<Rightarrow> (string, 'd jval) fmap \<Rightarrow>
   (string, 'd jval) fmap resolve" where
  "bulk_loop r ns [] data = Resolved data"
| "bulk_loop r ns (src # srcs) data =
     (case resolveFormulaBulkSource r ns src of
        Broken e \<Rightarrow> Broken e
      | Wait s \<Rightarrow> Wait s
      | Resolved m \<Rightarrow> bulk_loop r ns srcs (merge_bulk (fvs_path src) m data))"

fun from_loop ::
  "'d value_reader \<Rightarrow> string \<Rightarrow> string \<Rightarrow> formula_value_from list \<Rightarrow> (string, 'd jval) fmap \<Rightarrow>
   (string, 'd jval) fmap resolve" where
  "from_loop r ns name [] data = Resolved data"
| "from_loop r ns name (vf # vfs) data =
     (case resolveFormulaValueFrom r ns vf of
        Broken e \<Rightarrow> Broken e
      | Wait s \<Rightarrow> Wait s
      | Resolved v \<Rightarrow>
          if fvf_path vf = []
          then (case v of
                  JMap m \<Rightarrow> from_loop r ns name vfs (data ++\<^sub>f m)
                | _ \<Rightarrow> Broken (errorf (''formula '' @ go_quote name
                    @ '' valuesFrom with empty path requires a structured (map) value, got '' @ go_type v)))
          else from_loop r ns name vfs (setPath (fvf_path vf) v data))"

definition resolveFormulaValues ::
  "'d value_reader \<Rightarrow> string \<Rightarrow> formula_assignment \<Rightarrow> (string, 'd jval) fmap resolve" where
  "resolveFormulaValues r ns f =
     (case rawExtensionToMap r (fa_values f) of
        Inl e \<Rightarrow> Broken (wrap_err (''formula '' @ go_quote (fa_name f) @ '' values: '') e)
      | Inr data \<Rightarrow>
          (case bulk_loop r ns (fa_values_from_sources f) data of
             Resolved data' \<Rightarrow> from_loop r ns (fa_name f) (fa_values_from f) data'
           | x \<Rightarrow> x))"

section \<open>The store of a system or a group\<close>

text \<open>
  The formula calls of the Uyuni client on one system or group, with Uyuni's state \<open>'s\<close> passed on:
  \<open>fe_\<close> fields are Uyuni's endpoints.  The client sends no empty formula list, because the API
  cannot take one.
\<close>

record ('s, 'd) formula_endpoints =
  fe_list :: "'s \<Rightarrow> go_error + string list"
  fe_get :: "int \<Rightarrow> 's \<Rightarrow> go_error + string list"
  fe_set :: "int \<Rightarrow> string list \<Rightarrow> 's \<Rightarrow> go_error option \<times> 's"
  fe_get_data :: "int \<Rightarrow> string \<Rightarrow> 's \<Rightarrow> go_error + (string, 'd jval) fmap"
  fe_set_data :: "int \<Rightarrow> string \<Rightarrow> (string, 'd jval) fmap \<Rightarrow> 's \<Rightarrow> go_error option \<times> 's"

record ('s, 'd) formula_store =
  fs_assigned :: "'s \<Rightarrow> go_error + string list"
  fs_assign :: "string list \<Rightarrow> 's \<Rightarrow> go_error option \<times> 's"
  fs_data :: "string \<Rightarrow> 's \<Rightarrow> go_error + (string, 'd jval) fmap"
  fs_set_data :: "string \<Rightarrow> (string, 'd jval) fmap \<Rightarrow> 's \<Rightarrow> go_error option \<times> 's"

definition SetServerFormulas ::
  "('s, 'd) formula_endpoints \<Rightarrow> int \<Rightarrow> string list \<Rightarrow> 's \<Rightarrow> go_error option \<times> 's" where
  "SetServerFormulas api serverID formulas s =
     (if formulas = [] then (None, s) else fe_set api serverID formulas s)"

definition SetGroupFormulas ::
  "('s, 'd) formula_endpoints \<Rightarrow> int \<Rightarrow> string list \<Rightarrow> 's \<Rightarrow> go_error option \<times> 's" where
  "SetGroupFormulas api groupID formulas s =
     (if formulas = [] then (None, s) else fe_set api groupID formulas s)"

text \<open>The endpoints of systems and of groups are different ones, so \<open>api\<close> is either set of calls.\<close>

definition serverFormulas :: "('s, 'd) formula_endpoints \<Rightarrow> int \<Rightarrow> ('s, 'd) formula_store" where
  "serverFormulas api i = \<lparr>fs_assigned = fe_get api i, fs_assign = SetServerFormulas api i,
     fs_data = fe_get_data api i, fs_set_data = fe_set_data api i\<rparr>"

definition groupFormulas :: "('s, 'd) formula_endpoints \<Rightarrow> int \<Rightarrow> ('s, 'd) formula_store" where
  "groupFormulas api i = \<lparr>fs_assigned = fe_get api i, fs_assign = SetGroupFormulas api i,
     fs_data = fe_get_data api i, fs_set_data = fe_set_data api i\<rparr>"

section \<open>Keeping formulas in sync\<close>

definition not_found_or :: "'a \<Rightarrow> go_error + 'a \<Rightarrow> go_error + 'a" where
  "not_found_or z r = (case r of Inl e \<Rightarrow> if is_uyuni_not_found e then Inr z else Inl e | Inr x \<Rightarrow> Inr x)"

fun data_loop ::
  "('s, 'd) formula_store \<Rightarrow> (formula_assignment \<Rightarrow> (string, 'd jval) fmap resolve) \<Rightarrow> bool \<Rightarrow>
   formula_assignment list \<Rightarrow> bool \<Rightarrow> 's \<Rightarrow> bool resolve \<times> 's" where
  "data_loop S values applyData [] drift s = (Resolved drift, s)"
| "data_loop S values applyData (f # fs) drift s =
     (case values f of
        Broken e \<Rightarrow> (Broken e, s)
      | Wait w \<Rightarrow> (Wait w, s)
      | Resolved want \<Rightarrow>
          if want = fmempty then data_loop S values applyData fs drift s
          else case not_found_or fmempty (fs_data S (fa_name f) s) of
            Inl e \<Rightarrow> (Broken e, s)
          | Inr got \<Rightarrow>
              if mapSubset want got then data_loop S values applyData fs drift s
              else if applyData
              then (case fs_set_data S (fa_name f) want s of
                      (Some e, s') \<Rightarrow> (Broken e, s')
                    | (None, s') \<Rightarrow> data_loop S values applyData fs drift s')
              else data_loop S values applyData fs True s)"

text \<open>\<open>avail\<close> is \<^verbatim>\<open>uc.ListFormulas\<close>; the result holds the enabled formulas and the drift flag.\<close>

definition missing_formula :: "(go_error + string list) \<Rightarrow> string list \<Rightarrow> unit resolve" where
  "missing_formula avail desired =
     (if desired = [] then Resolved ()
      else case avail of
        Inl e \<Rightarrow> Broken e
      | Inr names \<Rightarrow>
          (case find (\<lambda>n. n \<notin> set names) desired of
             None \<Rightarrow> Resolved ()
           | Some n \<Rightarrow> Wait (''formula '' @ go_quote n @ '' is not installed on the Uyuni server'')))"

definition sync_data ::
  "('s, 'd) formula_store \<Rightarrow> (formula_assignment \<Rightarrow> (string, 'd jval) fmap resolve) \<Rightarrow> bool \<Rightarrow>
   formula_assignment list \<Rightarrow> 's \<Rightarrow> (string list \<times> bool) resolve \<times> 's" where
  "sync_data S values applyData formulas s =
     (case data_loop S values applyData formulas False s of
        (Broken e, s') \<Rightarrow> (Broken e, s')
      | (Wait w, s') \<Rightarrow> (Wait w, s')
      | (Resolved drift, s') \<Rightarrow> (Resolved (map fa_name formulas, drift), s'))"

definition syncFormulas ::
  "('s, 'd) formula_store \<Rightarrow> (go_error + string list) \<Rightarrow>
   (formula_assignment \<Rightarrow> (string, 'd jval) fmap resolve) \<Rightarrow> bool \<Rightarrow> formula_assignment list \<Rightarrow> 's \<Rightarrow>
   (string list \<times> bool) resolve \<times> 's" where
  "syncFormulas S avail values applyData formulas s =
     (let desired = map fa_name formulas in
      case missing_formula avail desired of
        Broken e \<Rightarrow> (Broken e, s)
      | Wait w \<Rightarrow> (Wait w, s)
      | Resolved _ \<Rightarrow>
          (case not_found_or [] (fs_assigned S s) of
             Inl e \<Rightarrow> (Broken e, s)
           | Inr current \<Rightarrow>
               let (add, rm) = diffStringSets current desired in
               if length add + length rm > 0
               then (case fs_assign S desired s of
                       (Some e, s') \<Rightarrow> (Broken e, s')
                     | (None, s') \<Rightarrow> sync_data S values applyData formulas s')
               else sync_data S values applyData formulas s))"

section \<open>What a merge holds\<close>

text \<open>The value at a path, given by its parts.\<close>

fun at :: "string list \<Rightarrow> (string, 'd jval) fmap \<Rightarrow> 'd jval option" where
  "at [] m = Some (JMap m)"
| "at (p # ps) m =
     (case fmlookup m p of
        None \<Rightarrow> None
      | Some v \<Rightarrow> if ps = [] then Some v else (case v of JMap m' \<Rightarrow> at ps m' | _ \<Rightarrow> None))"

text \<open>Writes to paths of which neither is a prefix of the other can be swapped.\<close>

lemma set_parts_commute:
  "\<not> prefix ps qs \<Longrightarrow> \<not> prefix qs ps \<Longrightarrow>
     set_parts ps v (set_parts qs u m) = set_parts qs u (set_parts ps v m)"
proof (induction ps arbitrary: qs m)
  case (Cons p ps)
  obtain q qs' where qs: "qs = q # qs'" using Cons.prems(2) by (cases qs) auto
  show ?case
  proof (cases "p = q")
    case True
    with Cons.prems qs have "\<not> prefix ps qs'" "\<not> prefix qs' ps" by auto
    then obtain p' ps' q' qs'' where shape: "ps = p' # ps'" "qs' = q' # qs''"
      by (cases ps; cases qs') auto
    have "set_parts ps v (set_parts qs' u m') = set_parts qs' u (set_parts ps v m')" for m'
      using Cons.IH \<open>\<not> prefix ps qs'\<close> \<open>\<not> prefix qs' ps\<close> by blast
    with True qs shape show ?thesis by simp
  next
    case False
    with qs show ?thesis
      by (cases ps; cases qs') (auto simp: fmupd_reorder_neq)
  qed
qed simp

definition clash_free :: "string \<Rightarrow> (string \<times> string) list \<Rightarrow> bool" where
  "clash_free path kvs = (\<forall>x \<in> set kvs. \<forall>y \<in> set kvs. x \<noteq> y \<longrightarrow>
     \<not> prefix (split_on (CHR ''.'') (joinPath path (fst x))) (split_on (CHR ''.'') (joinPath path (fst y))))"

lemma merge_bulk_perm:
  fixes data :: "(string, 'd jval) fmap"
  assumes "clash_free path kvs" "mset kvs' = mset kvs"
  shows "merge_bulk path kvs' data = merge_bulk path kvs data"
proof -
  let ?f = "\<lambda>(k, v). setPath (joinPath path k) (JStr v :: 'd jval)"
  have "set kvs' = set kvs" using assms(2) by (rule mset_eq_setD)
  have swap: "?f x \<circ> ?f y = ?f y \<circ> ?f x" if "x \<in> set kvs'" "y \<in> set kvs'" for x y
  proof (cases "x = y")
    case False
    then have "\<not> prefix (split_on (CHR ''.'') (joinPath path (fst x))) (split_on (CHR ''.'') (joinPath path (fst y)))"
      "\<not> prefix (split_on (CHR ''.'') (joinPath path (fst y))) (split_on (CHR ''.'') (joinPath path (fst x)))"
      using assms(1) that \<open>set kvs' = set kvs\<close> by (auto simp: clash_free_def)
    then show ?thesis by (auto simp: setPath_def fun_eq_iff set_parts_commute split: prod.splits)
  qed simp
  have "fold ?f kvs' = fold ?f kvs" by (rule fold_multiset_equiv [OF _ assms(2)]) (rule swap)
  then show ?thesis by (simp add: merge_bulk_def)
qed

text \<open>Two readings of the same Secrets and ConfigMaps that differ in the order of a \<^verbatim>\<open>range\<close>.\<close>

definition same_data :: "(string \<times> string) list k8s_get \<Rightarrow> (string \<times> string) list k8s_get \<Rightarrow> bool" where
  "same_data get get' = (\<forall>ns n. case (get ns n, get' ns n) of
      (Inl e, Inl e') \<Rightarrow> e' = e
    | (Inr d, Inr d') \<Rightarrow> mset d' = mset d \<and> distinct (map fst d)
    | _ \<Rightarrow> False)"

definition same_reader :: "'d value_reader \<Rightarrow> 'd value_reader \<Rightarrow> bool" where
  "same_reader r r' = (same_data (vr_secret r) (vr_secret r') \<and> same_data (vr_config_map r) (vr_config_map r') \<and>
     vr_object r' = vr_object r \<and> vr_group r' = vr_group r \<and> vr_json r' = vr_json r \<and>
     vr_yaml r' = vr_yaml r \<and> vr_jsonpath r' = vr_jsonpath r)"

definition sources_clash_free :: "'d value_reader \<Rightarrow> string \<Rightarrow> formula_value_source list \<Rightarrow> bool" where
  "sources_clash_free r ns srcs = (\<forall>src \<in> set srcs. case resolveFormulaBulkSource r ns src of
      Resolved kvs \<Rightarrow> clash_free (fvs_path src) kvs | _ \<Rightarrow> True)"

lemma map_of_mset: "mset d' = mset d \<Longrightarrow> distinct (map fst d) \<Longrightarrow> map_of d' = map_of d"
  by (metis map_of_inject_set mset_eq_setD mset_map mset_eq_imp_distinct_iff)

lemma same_data_cases:
  assumes "same_data get get'"
  obtains e where "get ns n = Inl e" "get' ns n = Inl e"
  | d d' where "get ns n = Inr d" "get' ns n = Inr d'" "mset d' = mset d" "map_of d' = map_of d"
proof -
  from assms have "case (get ns n, get' ns n) of (Inl e, Inl e') \<Rightarrow> e' = e
    | (Inr d, Inr d') \<Rightarrow> mset d' = mset d \<and> distinct (map fst d) | _ \<Rightarrow> False"
    by (simp add: same_data_def)
  then show ?thesis using that map_of_mset
    by (cases "get ns n"; cases "get' ns n") auto
qed

lemma resolve_key_same:
  assumes "same_data get get'" "vr_json r' = vr_json r" "vr_yaml r' = vr_yaml r"
  shows "resolve_key r' kind get' ns vf n key = resolve_key r kind get ns vf n key"
proof -
  have parse: "parseFormulaValue r' = parseFormulaValue r"
    by (simp add: fun_eq_iff parseFormulaValue_def assms(2,3))
  show ?thesis
    unfolding resolve_key_def parse by (rule same_data_cases [OF assms(1), of ns n]) simp_all
qed

lemma from_loop_same:
  assumes "same_reader r r'"
  shows "from_loop r' ns n vfs data = from_loop r ns n vfs data"
proof -
  have sd: "same_data (vr_secret r) (vr_secret r')" "same_data (vr_config_map r) (vr_config_map r')"
    using assms by (simp_all add: same_reader_def)
  have lib: "vr_object r' = vr_object r" "vr_group r' = vr_group r" "vr_jsonpath r' = vr_jsonpath r"
    using assms by (simp_all add: same_reader_def)
  have "resolveObjectFieldRef r' ns ref = resolveObjectFieldRef r ns ref" for ref
    unfolding resolveObjectFieldRef_def evalJSONPath_def lib ..
  moreover have text_lib: "vr_json r' = vr_json r" "vr_yaml r' = vr_yaml r"
    using assms by (simp_all add: same_reader_def)
  ultimately have "resolveFormulaValueFrom r' ns vf = resolveFormulaValueFrom r ns vf" for vf
    unfolding resolveFormulaValueFrom_def resolve_key_same [OF sd(1) text_lib] resolve_key_same [OF sd(2) text_lib]
    by (simp split: option.split)
  then show ?thesis by (induction vfs arbitrary: data) (simp_all split: resolve.split jval.split)
qed

definition same_bulk :: "(string \<times> string) list resolve \<Rightarrow> (string \<times> string) list resolve \<Rightarrow> bool" where
  "same_bulk x y = (case (x, y) of
      (Resolved d, Resolved d') \<Rightarrow> mset d' = mset d
    | (Wait v, Wait w) \<Rightarrow> v = w
    | (Broken e, Broken e') \<Rightarrow> e = e'
    | _ \<Rightarrow> False)"

lemma bulk_data_same:
  "same_data get get' \<Longrightarrow> same_bulk (bulk_data kind get ns n) (bulk_data kind get' ns n)"
  by (erule same_data_cases [of _ _ ns n]) (simp_all add: bulk_data_def same_bulk_def)

lemma bulk_source_same:
  "same_reader r r' \<Longrightarrow> same_bulk (resolveFormulaBulkSource r ns src) (resolveFormulaBulkSource r' ns src)"
  by (auto simp: resolveFormulaBulkSource_def same_reader_def same_bulk_def [of "Resolved []"]
      intro: bulk_data_same split: option.split)

lemma bulk_loop_same:
  assumes "same_reader r r'" "sources_clash_free r ns srcs"
  shows "bulk_loop r' ns srcs data = bulk_loop r ns srcs data"
  using assms(2)
proof (induction srcs arbitrary: data)
  case (Cons src srcs)
  then have IH: "bulk_loop r' ns srcs data = bulk_loop r ns srcs data" for data
    by (simp add: sources_clash_free_def)
  show ?case
  proof (cases "resolveFormulaBulkSource r ns src"; cases "resolveFormulaBulkSource r' ns src")
    fix d d'
    assume d: "resolveFormulaBulkSource r ns src = Resolved d" "resolveFormulaBulkSource r' ns src = Resolved d'"
    then have "mset d' = mset d" using bulk_source_same [OF assms(1), of ns src] by (simp add: same_bulk_def)
    moreover have "clash_free (fvs_path src) d" using Cons.prems d by (auto simp: sources_clash_free_def)
    ultimately show ?thesis using IH d by (simp add: merge_bulk_perm [of "fvs_path src" d d'])
  qed (use bulk_source_same [OF assms(1), of ns src] in \<open>simp_all add: same_bulk_def\<close>)
qed simp

text \<open>
  The form data of a formula does not depend on the order in which the keys of Secrets and
  ConfigMaps are visited, as long as within one bulk source no key's path is a prefix of another's.
\<close>

theorem formula_values_deterministic:
  assumes "same_reader r r'" "sources_clash_free r ns (fa_values_from_sources f)"
  shows "resolveFormulaValues r' ns f = resolveFormulaValues r ns f"
proof -
  have "rawExtensionToMap r' raw = rawExtensionToMap r raw" for raw
    using assms(1) by (simp add: same_reader_def rawExtensionToMap_def)
  then show ?thesis
    using from_loop_same [OF assms(1)] bulk_loop_same [OF assms]
    by (simp add: resolveFormulaValues_def split: sum.split resolve.split)
qed

definition demo_reader :: "(string \<times> string) list \<Rightarrow> unit value_reader" where
  "demo_reader kvs = \<lparr>vr_secret = \<lambda>_ _. Inr kvs, vr_config_map = \<lambda>_ _. Inr [],
     vr_object = \<lambda>_ _ _ _. Inr JNull, vr_group = \<lambda>_. Inr Group, vr_json = \<lambda>_. Inr JNull,
     vr_yaml = \<lambda>_. Inr JNull, vr_jsonpath = \<lambda>_ _. Inr []\<rparr>"

definition demo_formula :: formula_assignment where
  "demo_formula = \<lparr>fa_name = ''f'', fa_values = [], fa_values_from = [],
     fa_values_from_sources = [\<lparr>fvs_path = ''root'', fvs_secret_ref = Some \<lparr>lor_name = ''s''\<rparr>,
       fvs_config_map_ref = None\<rparr>]\<rparr>"

lemma demo_values:
  "resolveFormulaValues (demo_reader kvs) ns demo_formula = Resolved (merge_bulk ''root'' kvs fmempty)"
  by (simp add: resolveFormulaValues_def demo_formula_def demo_reader_def rawExtensionToMap_def
      resolveFormulaBulkSource_def bulk_data_def)

theorem formula_values_deterministic_witness:
  "resolveFormulaValues (demo_reader [(''b.c'', ''1''), (''a'', ''2'')]) ''ns'' demo_formula =
   resolveFormulaValues (demo_reader [(''a'', ''2''), (''b.c'', ''1'')]) ''ns'' demo_formula"
proof (rule formula_values_deterministic)
  let ?d = "[(''a'', ''2''), (''b.c'', ''1'')]" and ?d' = "[(''b.c'', ''1''), (''a'', ''2'')]"
  show "same_reader (demo_reader ?d) (demo_reader ?d')"
    by (simp add: same_reader_def same_data_def demo_reader_def add_mset_commute)
  show "sources_clash_free (demo_reader ?d) ''ns'' (fa_values_from_sources demo_formula)"
    by (simp add: sources_clash_free_def demo_formula_def demo_reader_def resolveFormulaBulkSource_def
        bulk_data_def clash_free_def joinPath_def)
qed

text \<open>With clashing keys the order of the \<^verbatim>\<open>range\<close> decides what Uyuni gets.\<close>

lemma clashing_keys_order_dependent:
  "resolveFormulaValues (demo_reader [(''a'', ''1''), (''a.b'', ''2'')]) ''ns'' demo_formula \<noteq>
   resolveFormulaValues (demo_reader [(''a.b'', ''2''), (''a'', ''1'')]) ''ns'' demo_formula"
proof -
  have "merge_bulk ''root'' [(''a'', ''1''), (''a.b'', ''2'')] fmempty =
      fmupd ''root'' (JMap (fmupd ''a'' (JMap (fmupd ''b'' (JStr ''2'' :: unit jval) fmempty))
        (fmupd ''a'' (JStr ''1'') fmempty))) (fmupd ''root'' (JMap (fmupd ''a'' (JStr ''1'') fmempty)) fmempty)"
    by (simp add: merge_bulk_def setPath_def joinPath_def)
  moreover have "at [''root'', ''a''] \<dots> \<noteq> Some (JStr ''1'')" by simp
  moreover have "at [''root'', ''a''] (merge_bulk ''root'' [(''a.b'', ''2''), (''a'', ''1'')] fmempty :: (string, unit jval) fmap)
      = Some (JStr ''1'')"
    by (simp add: merge_bulk_def setPath_def joinPath_def)
  ultimately show ?thesis by (metis demo_values resolve.inject(1))
qed

section \<open>The drift check\<close>

lemma subset_val_JMap [simp]:
  "subset_val (JMap wm) g = (case g of JMap gm \<Rightarrow> mapSubset wm gm | _ \<Rightarrow> False)"
  by (auto simp: mapSubset_def fmpred_iff split: jval.split)

declare subset_val.simps(7) [simp del]

lemma subset_val_leaf: "\<not> is_jmap v \<Longrightarrow> subset_val v g = (g = v)"
  by (cases v) (auto simp: is_jmap_def)

text \<open>What the wanted value \<open>v\<close> of a path asks of the value Uyuni has there.\<close>

definition path_agrees :: "'d jval \<Rightarrow> 'd jval option \<Rightarrow> bool" where
  "path_agrees v x = (if is_jmap v then (\<exists>gm. x = Some (JMap gm)) else x = Some v)"

lemma paths_agree_step:
  "(\<forall>ps v. at ps want = Some v \<longrightarrow> path_agrees v (at ps got)) \<longleftrightarrow>
     (\<forall>k wv. fmlookup want k = Some wv \<longrightarrow> (\<exists>gv. fmlookup got k = Some gv \<and>
        (case wv of
           JMap wm \<Rightarrow> \<exists>gm. gv = JMap gm \<and> (\<forall>ps v. at ps wm = Some v \<longrightarrow> path_agrees v (at ps gm))
         | _ \<Rightarrow> gv = wv)))" (is "?L = ?R")
proof
  assume L: ?L
  show ?R
  proof (intro allI impI)
    fix k wv
    assume k: "fmlookup want k = Some wv"
    then have top: "path_agrees wv (at [k] got)" using L [rule_format, of "[k]"] by simp
    show "\<exists>gv. fmlookup got k = Some gv \<and> (case wv of
        JMap wm \<Rightarrow> \<exists>gm. gv = JMap gm \<and> (\<forall>ps v. at ps wm = Some v \<longrightarrow> path_agrees v (at ps gm)) | _ \<Rightarrow> gv = wv)"
    proof (cases wv)
      case (JMap wm)
      then obtain gm where gm: "fmlookup got k = Some (JMap gm)"
        using top by (auto simp: path_agrees_def is_jmap_def split: option.splits)
      have "path_agrees v (at ps gm)" if "at ps wm = Some v" for ps v
      proof (cases "ps = []")
        case True
        then show ?thesis using that by (auto simp: path_agrees_def is_jmap_def)
      next
        case False
        then show ?thesis using L [rule_format, of "k # ps" v] that k gm JMap by simp
      qed
      with gm JMap show ?thesis by simp
    qed (use top in \<open>auto simp: path_agrees_def is_jmap_def split: option.splits\<close>)
  qed
next
  assume R: ?R
  show ?L
  proof (intro allI impI)
    fix ps v
    assume v: "at ps want = Some v"
    show "path_agrees v (at ps got)"
    proof (cases ps)
      case Nil
      then show ?thesis using v by (auto simp: path_agrees_def is_jmap_def)
    next
      case (Cons k qs)
      then obtain wv where wv: "fmlookup want k = Some wv" using v by (auto split: option.splits)
      from R [rule_format, OF this] obtain gv where gv: "fmlookup got k = Some gv"
        and rest: "case wv of
          JMap wm \<Rightarrow> \<exists>gm. gv = JMap gm \<and> (\<forall>ps v. at ps wm = Some v \<longrightarrow> path_agrees v (at ps gm)) | _ \<Rightarrow> gv = wv"
        by blast
      show ?thesis using Cons v wv gv rest
        by (cases wv) (auto simp: path_agrees_def is_jmap_def split: if_splits)
    qed
  qed
qed

lemma mapSubset_step:
  "mapSubset want got \<longleftrightarrow>
     (\<forall>k wv. fmlookup want k = Some wv \<longrightarrow> (\<exists>gv. fmlookup got k = Some gv \<and> subset_val wv gv))"
proof -
  have "(case x of None \<Rightarrow> False | Some gv \<Rightarrow> P gv) = (\<exists>gv. x = Some gv \<and> P gv)" for x :: "'a jval option" and P
    by (cases x) auto
  then show ?thesis by (simp only: mapSubset_def fmpred_iff)
qed

lemma mapSubset_paths_agree:
  "case w of JMap want \<Rightarrow> \<forall>got. mapSubset want got \<longleftrightarrow>
       (\<forall>ps v. at ps want = Some v \<longrightarrow> path_agrees v (at ps got))
   | _ \<Rightarrow> True"
proof (induction w)
  case (JMap want)
  have "subset_val wv gv \<longleftrightarrow> (case wv of
      JMap wm \<Rightarrow> \<exists>gm. gv = JMap gm \<and> (\<forall>ps v. at ps wm = Some v \<longrightarrow> path_agrees v (at ps gm)) | _ \<Rightarrow> gv = wv)"
    if "fmlookup want k = Some wv" for k wv gv
  proof (cases wv)
    case J: (JMap wm)
    have "mapSubset wm gm \<longleftrightarrow> (\<forall>ps v. at ps wm = Some v \<longrightarrow> path_agrees v (at ps gm))" for gm
      using JMap [of wv] fmran'I [OF that] J by simp
    then show ?thesis using J by (cases gv) auto
  qed (auto simp: subset_val_leaf is_jmap_def)
  then have same: "(\<exists>gv. fmlookup got k = Some gv \<and> subset_val wv gv) \<longleftrightarrow> (\<exists>gv. fmlookup got k = Some gv \<and> (case wv of
      JMap wm \<Rightarrow> \<exists>gm. gv = JMap gm \<and> (\<forall>ps v. at ps wm = Some v \<longrightarrow> path_agrees v (at ps gm)) | _ \<Rightarrow> gv = wv))"
    if "fmlookup want k = Some wv" for k wv got using that by presburger
  have "mapSubset want got \<longleftrightarrow> (\<forall>ps v. at ps want = Some v \<longrightarrow> path_agrees v (at ps got))" for got
  proof (rule trans [OF mapSubset_step], rule trans [OF _ paths_agree_step [symmetric]])
    show "(\<forall>k wv. fmlookup want k = Some wv \<longrightarrow> (\<exists>gv. fmlookup got k = Some gv \<and> subset_val wv gv)) \<longleftrightarrow>
      (\<forall>k wv. fmlookup want k = Some wv \<longrightarrow> (\<exists>gv. fmlookup got k = Some gv \<and> (case wv of
        JMap wm \<Rightarrow> \<exists>gm. gv = JMap gm \<and> (\<forall>ps v. at ps wm = Some v \<longrightarrow> path_agrees v (at ps gm)) | _ \<Rightarrow> gv = wv)))"
      by (intro iff_allI imp_cong refl) (rule same)
  qed
  then show ?case by simp
qed simp_all

text \<open>
  \<^verbatim>\<open>mapSubset\<close> accepts exactly when the form data Uyuni holds has, at every path of the wanted
  data, the wanted value when that value is not a map, and a map when it is one: what Uyuni adds
  beside the wanted keys does not count as drift.
\<close>

theorem mapSubset_iff_paths:
  "mapSubset want got \<longleftrightarrow>
     (\<forall>ps v. at ps want = Some v \<longrightarrow>
        (if is_jmap v then (\<exists>gm. at ps got = Some (JMap gm)) else at ps got = Some v))"
  using mapSubset_paths_agree [of "JMap want"] by (simp add: path_agrees_def)

theorem mapSubset_iff_paths_witness:
  "at [''a'', ''b''] (fmupd ''a'' (JMap (fmupd ''c'' JNull (fmupd ''b'' (JBool True) fmempty))) fmempty)
    = Some (JBool True :: unit jval)"
proof -
  let ?want = "fmupd ''a'' (JMap (fmupd ''b'' (JBool True) fmempty)) fmempty :: (string, unit jval) fmap"
  let ?got = "fmupd ''a'' (JMap (fmupd ''c'' JNull (fmupd ''b'' (JBool True) fmempty))) fmempty"
  have "mapSubset ?want ?got" by (simp add: mapSubset_step)
  with mapSubset_iff_paths [of ?want ?got] have "at [''a'', ''b''] ?want = Some (JBool True) \<longrightarrow>
      at [''a'', ''b''] ?got = Some (JBool True)" by (auto simp: is_jmap_def)
  then show ?thesis by simp
qed

section \<open>A successful sync leaves nothing to do\<close>

text \<open>
  What Uyuni does with formula calls: an assignment is read back, form data is read back as JSON
  (\<open>num\<close> is the \<^verbatim>\<open>float64\<close> an integer is decoded to) with what Uyuni adds to it, and neither touches
  the rest.
\<close>

primrec as_json :: "(int \<Rightarrow> 'd) \<Rightarrow> 'd jval \<Rightarrow> 'd jval" where
  "as_json num JNull = JNull"
| "as_json num (JBool b) = JBool b"
| "as_json num (JInt i) = JFloat (num i)"
| "as_json num (JFloat d) = JFloat d"
| "as_json num (JStr s) = JStr s"
| "as_json num (JList xs) = JList (map (as_json num) xs)"
| "as_json num (JMap m) = JMap (fmmap (as_json num) m)"

definition json_plain :: "(int \<Rightarrow> 'd) \<Rightarrow> (string, 'd jval) fmap \<Rightarrow> bool" where
  "json_plain num m = (fmmap (as_json num) m = m)"

definition lawful_store :: "(int \<Rightarrow> 'd) \<Rightarrow> ('s, 'd) formula_store \<Rightarrow> bool" where
  "lawful_store num S = (
     (\<forall>fs s s'. fs \<noteq> [] \<and> fs_assign S fs s = (None, s') \<longrightarrow>
        (\<exists>cur. fs_assigned S s' = Inr cur \<and> set cur = set fs)) \<and>
     (\<forall>s. fs_assign S [] s = (None, s)) \<and>
     (\<forall>f d s s'. fs_set_data S f d s = (None, s') \<longrightarrow>
        (\<exists>got. fs_data S f s' = Inr got \<and> mapSubset (fmmap (as_json num) d) got) \<and>
        (\<forall>g. g \<noteq> f \<longrightarrow> fs_data S g s' = fs_data S g s) \<and> fs_assigned S s' = fs_assigned S s) \<and>
     (\<forall>f s got. fs_data S f s = Inr got \<longrightarrow> json_plain num got))"

definition in_sync ::
  "('s, 'd) formula_store \<Rightarrow> (formula_assignment \<Rightarrow> (string, 'd jval) fmap resolve) \<Rightarrow> 's \<Rightarrow>
   formula_assignment \<Rightarrow> bool" where
  "in_sync S values s f = (case values f of
      Resolved want \<Rightarrow> want = fmempty \<or>
        (case not_found_or fmempty (fs_data S (fa_name f) s) of Inl _ \<Rightarrow> False | Inr got \<Rightarrow> mapSubset want got)
    | _ \<Rightarrow> False)"

lemma data_loop_idle:
  "list_all (in_sync S values s) fs \<Longrightarrow> data_loop S values applyData fs drift s = (Resolved drift, s)"
  by (induction fs) (auto simp: in_sync_def split: resolve.splits sum.splits)

lemma in_sync_cong:
  "fs_data S (fa_name f) s' = fs_data S (fa_name f) s \<Longrightarrow> in_sync S values s' f = in_sync S values s f"
  by (simp add: in_sync_def split: resolve.split)

lemma lawful_storeD:
  assumes "lawful_store num S"
  shows "fs \<noteq> [] \<Longrightarrow> fs_assign S fs s = (None, s') \<Longrightarrow> \<exists>cur. fs_assigned S s' = Inr cur \<and> set cur = set fs"
    and "fs_assign S [] s = (None, s)"
    and "fs_set_data S f d s = (None, s') \<Longrightarrow>
        (\<exists>got. fs_data S f s' = Inr got \<and> mapSubset (fmmap (as_json num) d) got) \<and>
        (\<forall>g. g \<noteq> f \<longrightarrow> fs_data S g s' = fs_data S g s) \<and> fs_assigned S s' = fs_assigned S s"
    and "fs_data S f s = Inr got \<Longrightarrow> json_plain num got"
  using assms by (simp_all add: lawful_store_def)

definition values_plain ::
  "(int \<Rightarrow> 'd) \<Rightarrow> (formula_assignment \<Rightarrow> (string, 'd jval) fmap resolve) \<Rightarrow> formula_assignment list \<Rightarrow> bool" where
  "values_plain num values fs = list_all (\<lambda>f. case values f of Resolved want \<Rightarrow> json_plain num want | _ \<Rightarrow> True) fs"

lemma data_loop_syncs:
  assumes "lawful_store num S" "distinct (map fa_name fs)" "values_plain num values fs"
    and "data_loop S values True fs drift s = (Resolved d, s')"
  shows "d = drift \<and> fs_assigned S s' = fs_assigned S s \<and> list_all (in_sync S values s') fs \<and>
    (\<forall>g. g \<notin> fa_name ` set fs \<longrightarrow> fs_data S g s' = fs_data S g s)"
  using assms(2-)
proof (induction fs arbitrary: s)
  case (Cons f fs)
  then obtain want where want: "values f = Resolved want" by (auto split: resolve.splits)
  have head_kept: "in_sync S values s' f" if "in_sync S values s1 f"
      "\<forall>g. g \<notin> fa_name ` set fs \<longrightarrow> fs_data S g s' = fs_data S g s1" for s1
    using that Cons.prems(1) by (subst in_sync_cong [of S f s' s1]) auto
  show ?case
  proof (cases "in_sync S values s f")
    case True
    then have "data_loop S values True fs drift s = (Resolved d, s')"
      using Cons.prems(3) want by (auto simp: in_sync_def split: sum.splits if_splits)
    with Cons have "d = drift \<and> fs_assigned S s' = fs_assigned S s \<and> list_all (in_sync S values s') fs \<and>
        (\<forall>g. g \<notin> fa_name ` set fs \<longrightarrow> fs_data S g s' = fs_data S g s)"
      by (simp add: values_plain_def)
    then show ?thesis using head_kept [of s] True by simp
  next
    case False
    then obtain got s1 where got: "not_found_or fmempty (fs_data S (fa_name f) s) = Inr got"
      and set: "fs_set_data S (fa_name f) want s = (None, s1)"
      and rest: "data_loop S values True fs drift s1 = (Resolved d, s')"
      using Cons.prems(3) want
      by (auto simp: in_sync_def split: sum.splits prod.splits option.splits if_splits)
    have "fmmap (as_json num) want = want"
      using Cons.prems(2) want by (simp add: values_plain_def json_plain_def)
    with lawful_storeD(3) [OF assms(1) set] have s1: "in_sync S values s1 f" "fs_assigned S s1 = fs_assigned S s"
      "\<forall>g. g \<noteq> fa_name f \<longrightarrow> fs_data S g s1 = fs_data S g s"
      by (auto simp: in_sync_def want not_found_or_def)
    from Cons rest have "d = drift \<and> fs_assigned S s' = fs_assigned S s1 \<and> list_all (in_sync S values s') fs \<and>
        (\<forall>g. g \<notin> fa_name ` set fs \<longrightarrow> fs_data S g s' = fs_data S g s1)"
      by (simp add: values_plain_def)
    then show ?thesis using head_kept [of s1] s1 by simp
  qed
qed simp

lemma diffStringSets_none: "diffStringSets cur names = ([], []) \<longleftrightarrow> set cur = set names"
proof -
  have "diffStringSets cur names = ([], []) \<longleftrightarrow>
      set (fst (diffStringSets cur names)) = {} \<and> set (snd (diffStringSets cur names)) = {}"
    by (simp add: prod_eq_iff)
  also have "\<dots> \<longleftrightarrow> set cur = set names" unfolding strings.adds strings.removes by auto
  finally show ?thesis .
qed

lemma syncFormulas_step:
  assumes "missing_formula avail (map fa_name formulas) = Resolved ()"
    and "not_found_or [] (fs_assigned S s) = Inr cur"
  shows "syncFormulas S avail values applyData formulas s =
    (if set cur = set (map fa_name formulas) then sync_data S values applyData formulas s
     else case fs_assign S (map fa_name formulas) s of
       (Some e, s') \<Rightarrow> (Broken e, s') | (None, s') \<Rightarrow> sync_data S values applyData formulas s')"
proof -
  obtain add rm where diff: "diffStringSets cur (map fa_name formulas) = (add, rm)" by fastforce
  then have "0 < length add + length rm \<longleftrightarrow> set cur \<noteq> set (map fa_name formulas)"
    using diffStringSets_none [of cur "map fa_name formulas"] by auto
  then show ?thesis using assms diff by (simp only: syncFormulas_def Let_def resolve.case sum.case prod.case if_not_P if_P split: if_split) auto
qed

text \<open>
  C25.  A sync that applies the form data and succeeds leaves the system (or group) in sync: it
  reports no drift, and the next sync with the same resolved values, applying or not, changes
  nothing and reports the same.  It is assumed that Uyuni reads back what it was told to store, that
  the formulas of the spec have distinct names, and that no resolved value holds an \<^verbatim>\<open>int64\<close> number,
  which objectFieldRef can give and which never equals the \<^verbatim>\<open>float64\<close> that is read back.
\<close>

theorem formula_sync_converges:
  assumes "lawful_store num S" "distinct (map fa_name formulas)" "values_plain num values formulas"
    and "syncFormulas S avail values True formulas s = (Resolved r, s')"
  shows "r = (map fa_name formulas, False) \<and> syncFormulas S avail values applyData formulas s' = (Resolved r, s')"
proof -
  let ?names = "map fa_name formulas"
  have installed: "missing_formula avail ?names = Resolved ()"
    using assms(4) by (cases "missing_formula avail ?names") (auto simp: syncFormulas_def Let_def)
  then obtain cur where cur: "not_found_or [] (fs_assigned S s) = Inr cur"
    using assms(4) by (auto simp: syncFormulas_def Let_def split: sum.splits)
  obtain s1 where s1: "sync_data S values True formulas s1 = (Resolved r, s')"
    and kept: "s1 = s \<and> (set cur = set ?names \<or> ?names = []) \<or>
      (\<exists>cur'. fs_assigned S s1 = Inr cur' \<and> set cur' = set ?names)"
  proof (cases "set cur = set ?names \<or> ?names = []")
    case True
    then have "sync_data S values True formulas s = (Resolved r, s')"
      using assms(4) syncFormulas_step [OF installed cur] lawful_storeD(2) [OF assms(1), of s]
      by (simp split: if_splits)
    with True show thesis using that by blast
  next
    case False
    then obtain s1 where "fs_assign S ?names s = (None, s1)" "sync_data S values True formulas s1 = (Resolved r, s')"
      using assms(4) syncFormulas_step [OF installed cur] by (auto split: prod.splits option.splits)
    with False lawful_storeD(1) [OF assms(1), of ?names s s1] show thesis using that by blast
  qed
  from s1 obtain d where d: "data_loop S values True formulas False s1 = (Resolved d, s')" "r = (?names, d)"
    by (auto simp: sync_data_def split: prod.splits resolve.splits)
  from data_loop_syncs [OF assms(1-3) d(1)] have final: "d = False" "fs_assigned S s' = fs_assigned S s1"
    "list_all (in_sync S values s') formulas" by auto
  have again: "sync_data S values applyData formulas s' = (Resolved r, s')"
    using data_loop_idle [OF final(3)] d(2) final(1) by (simp add: sync_data_def)
  obtain cur' where cur': "not_found_or [] (fs_assigned S s') = Inr cur'"
    "set cur' = set ?names \<or> ?names = []"
    using kept cur final(2) by (auto simp: not_found_or_def)
  have "syncFormulas S avail values applyData formulas s' = (Resolved r, s')"
    using cur'(2) again lawful_storeD(2) [OF assms(1), of s'] syncFormulas_step [OF installed cur'(1)] by auto
  then show ?thesis using d(2) final(1) by simp
qed

text \<open>A server that keeps the formulas and form data of every system as it is told.\<close>

definition memory_api ::
  "((int \<Rightarrow> string list) \<times> (int \<Rightarrow> string \<Rightarrow> (string, int jval) fmap), int) formula_endpoints" where
  "memory_api = \<lparr>fe_list = \<lambda>_. Inr [''f''], fe_get = \<lambda>i (a, d). Inr (a i),
     fe_set = \<lambda>i fs (a, d). (None, (a(i := fs), d)),
     fe_get_data = \<lambda>i f (a, d). Inr (fmmap (as_json id) (d i f)),
     fe_set_data = \<lambda>i f m (a, d). (None, (a, d(i := (d i)(f := m))))\<rparr>"

lemma as_json_idem: "as_json num (as_json num v) = as_json num v"
proof (induction v)
  case (JList xs)
  then show ?case by simp
next
  case (JMap m)
  have "fmmap (as_json num \<circ> as_json num) m = fmmap (as_json num) m"
    using JMap by (intro fmap.map_cong0) simp
  then show ?case by (simp add: fmap.map_comp)
qed simp_all

lemma fmmap_as_json_idem:
  fixes m :: "(string, 'd jval) fmap"
  shows "fmmap (as_json num) (fmmap (as_json num) m) = fmmap (as_json num) m"
  using as_json_idem [of num "JMap m"] by simp

lemma subset_val_refl: "subset_val v v"
proof (induction v)
  case (JMap m)
  then show ?case using fmran'I by (fastforce simp: mapSubset_step)
qed simp_all

lemma mapSubset_refl: "mapSubset m m"
  using subset_val_refl [of "JMap m"] by simp

lemma memory_store_lawful: "lawful_store id (serverFormulas memory_api i)"
  by (auto simp: lawful_store_def serverFormulas_def SetServerFormulas_def memory_api_def mapSubset_refl
      json_plain_def fmmap_as_json_idem)

theorem formula_sync_converges_witness:
  "\<exists>s'. syncFormulas (serverFormulas memory_api 7) (Inr [''f'']) (\<lambda>_. Resolved (fmupd ''a'' JNull fmempty)) True
      [demo_formula] (\<lambda>_. [], \<lambda>_ _. fmempty) = (Resolved ([''f''], False), s') \<and>
    syncFormulas (serverFormulas memory_api 7) (Inr [''f'']) (\<lambda>_. Resolved (fmupd ''a'' JNull fmempty)) False
      [demo_formula] s' = (Resolved ([''f''], False), s')"
proof -
  let ?S = "serverFormulas memory_api 7" and ?v = "\<lambda>_. Resolved (fmupd ''a'' JNull fmempty)"
  have plain: "values_plain id ?v [demo_formula]" by (simp add: values_plain_def json_plain_def fmap_ext)
  obtain s' where "syncFormulas ?S (Inr [''f'']) ?v True [demo_formula] (\<lambda>_. [], \<lambda>_ _. fmempty) =
      (Resolved ([''f''], False), s')"
    by (simp add: syncFormulas_def missing_formula_def not_found_or_def serverFormulas_def memory_api_def
        SetServerFormulas_def diffStringSets_def sync_data_def mapSubset_step demo_formula_def)
  with formula_sync_converges [OF memory_store_lawful _ plain this, of False] show ?thesis by (intro exI) auto
qed

text \<open>
  A value that comes from an integer field of a Kubernetes object is never in sync: right after
  it was applied the next pass reports drift again, or writes it again when it may.
\<close>

theorem int_reference_always_drifts:
  assumes "lawful_store num S" "values f = Resolved want" "fmlookup want k = Some (JInt i)"
    and "syncFormulas S avail values True [f] s = (Resolved r, s')"
  shows "fst (syncFormulas S avail values False [f] s') = Resolved ([fa_name f], True)"
proof -
  have never: "\<not> mapSubset want got" if "json_plain num got" for got
  proof -
    have "fmlookup got k \<noteq> Some (JInt i)"
    proof
      assume "fmlookup got k = Some (JInt i)"
      then have "fmlookup (fmmap (as_json num) got) k = Some (JFloat (num i))" by simp
      moreover have "fmmap (as_json num) got = got" using that by (simp add: json_plain_def)
      ultimately show False using \<open>fmlookup got k = Some (JInt i)\<close> by (metis jval.distinct(23) option.inject)
    qed
    then show ?thesis using assms(3) by (auto simp: mapSubset_step intro!: exI [of _ k] exI [of _ "JInt i"])
  qed
  have plain: "json_plain num got" if "not_found_or fmempty (fs_data S n t) = Inr got" for n t got
    using that lawful_storeD(4) [OF assms(1), of n t got]
    by (auto simp: not_found_or_def json_plain_def split: sum.splits if_splits)
  have installed: "missing_formula avail (map fa_name [f]) = Resolved ()"
    using assms(4) by (cases "missing_formula avail (map fa_name [f])") (auto simp: syncFormulas_def Let_def)
  then obtain cur where cur: "not_found_or [] (fs_assigned S s) = Inr cur"
    using assms(4) by (auto simp: syncFormulas_def Let_def split: sum.splits)
  obtain s1 where s1: "sync_data S values True [f] s1 = (Resolved r, s')"
    and assigned: "\<exists>cur'. not_found_or [] (fs_assigned S s1) = Inr cur' \<and> set cur' = {fa_name f}"
  proof (cases "set cur = {fa_name f}")
    case True
    then show thesis using assms(4) syncFormulas_step [OF installed cur] cur that [of s] by simp
  next
    case False
    then obtain s1 where a: "fs_assign S [fa_name f] s = (None, s1)" "sync_data S values True [f] s1 = (Resolved r, s')"
      using assms(4) syncFormulas_step [OF installed cur] by (auto split: prod.splits option.splits)
    then show thesis using lawful_storeD(1) [OF assms(1) _ a(1)] that [OF a(2)] by (auto simp: not_found_or_def)
  qed
  have "want \<noteq> fmempty" using assms(3) by auto
  with s1 assms(2) obtain got where got: "not_found_or fmempty (fs_data S (fa_name f) s1) = Inr got"
    by (auto simp: sync_data_def split: sum.splits)
  with s1 assms(2) \<open>want \<noteq> fmempty\<close> never [OF plain [OF got]]
  have set: "fs_set_data S (fa_name f) want s1 = (None, s')"
    by (auto simp: sync_data_def split: prod.splits option.splits)
  from lawful_storeD(3) [OF assms(1) set] obtain got' where got': "fs_data S (fa_name f) s' = Inr got'"
    and "fs_assigned S s' = fs_assigned S s1" by blast
  with assigned obtain cur' where cur': "not_found_or [] (fs_assigned S s') = Inr cur'" "set cur' = {fa_name f}" by auto
  have "not_found_or fmempty (fs_data S (fa_name f) s') = Inr got'" using got' by (simp add: not_found_or_def)
  then have "sync_data S values False [f] s' = (Resolved ([fa_name f], True), s')"
    using assms(2) \<open>want \<noteq> fmempty\<close> never [OF plain] by (simp add: sync_data_def)
  then show ?thesis using syncFormulas_step [OF installed cur'(1)] cur'(2) by simp
qed

theorem int_reference_always_drifts_witness:
  "\<exists>s'. fst (syncFormulas (serverFormulas memory_api 7) (Inr [''f''])
      (\<lambda>_. Resolved (fmupd ''id'' (JInt 3) fmempty)) False [demo_formula] s') = Resolved ([''f''], True)"
proof -
  let ?S = "serverFormulas memory_api 7" and ?v = "\<lambda>_. Resolved (fmupd ''id'' (JInt 3) fmempty)"
  obtain r s' where "syncFormulas ?S (Inr [''f'']) ?v True [demo_formula] (\<lambda>_. [], \<lambda>_ _. fmempty) = (Resolved r, s')"
    by (simp add: syncFormulas_def missing_formula_def not_found_or_def serverFormulas_def memory_api_def
        SetServerFormulas_def diffStringSets_def sync_data_def mapSubset_step demo_formula_def)
  from int_reference_always_drifts [OF memory_store_lawful _ _ this, where k = "''id''" and i = 3]
  have "fst (syncFormulas ?S (Inr [''f'']) ?v False [demo_formula] s') = Resolved ([''f''], True)"
    by (simp add: demo_formula_def)
  then show ?thesis by (rule exI)
qed

end
