(* ===== verification/Client_Pool.thy ===== *)
theory Client_Pool
  imports K8s_Objects Api_Systems
begin

text \<open>
  \<^verbatim>\<open>internal/pool/pool.go\<close>: API clients for providers, organizations and Cobbler, built from the
  Kubernetes resources on first use and cached until they are invalidated.  A client is what it was
  built from: URL, credentials, TLS settings.  The locks only serialise accesses to the three maps.
\<close>

section \<open>Clients and state\<close>

record api_client =
  ac_url :: string
  ac_user :: string
  ac_pass :: string
  ac_insecure :: bool
  ac_ca :: string

record pool =
  pl_operator_ns :: string
  pl_cache :: "string \<rightharpoonup> api_client \<times> int"
  pl_orgs :: "string \<rightharpoonup> api_client \<times> string"
  pl_cobbler :: "string \<rightharpoonup> api_client"

text \<open>
  Providers are cluster scoped: they are read by name alone.  \<open>pw_connect\<close> is the outcome of
  \<^verbatim>\<open>uyuni.NewClient\<close>, which logs in; \<open>pw_pem\<close> is \<^verbatim>\<open>AppendCertsFromPEM\<close>.
\<close>

record pool_world =
  pw_provider :: "string \<Rightarrow> go_error + uyuni_provider"
  pw_providers :: "go_error + uyuni_provider list"
  pw_secret :: "(string \<rightharpoonup> string) k8s_get"
  pw_org :: "organization k8s_get"
  pw_orgs :: "organization k8s_list"
  pw_connect :: "api_client \<Rightarrow> go_error option"
  pw_org_id :: "api_client \<Rightarrow> go_error + int"
  pw_pem :: "string \<Rightarrow> bool"

type_synonym 'a pooled = "(go_error + 'a) \<times> pool"

definition New :: "string \<Rightarrow> pool" where
  "New ns = \<lparr>pl_operator_ns = ns, pl_cache = Map.empty, pl_orgs = Map.empty, pl_cobbler = Map.empty\<rparr>"

section \<open>Providers\<close>

definition resolveName :: "pool_world \<Rightarrow> string \<Rightarrow> go_error + string" where
  "resolveName w ref =
     (if ref \<noteq> [] then Inr ref
      else case pw_providers w of
        Inl e \<Rightarrow> Inl (wrap_err ''listing UyuniProviders: '' e)
      | Inr items \<Rightarrow>
          (case find (\<lambda>p. prov_is_default (prov_spec p)) items of
             Some p \<Rightarrow> Inr (obj_name p)
           | None \<Rightarrow> Inl (errorf ''no default UyuniProvider found; set spec.isDefault=true on one provider'')))"

definition secret_ns :: "string \<Rightarrow> secret_reference \<Rightarrow> string" where
  "secret_ns ns r = (if sr_namespace r \<noteq> [] then sr_namespace r else ns)"

text \<open>The username and password of a credentials Secret; both must be there.\<close>

definition credentials ::
  "pool_world \<Rightarrow> string \<Rightarrow> string \<Rightarrow> string \<Rightarrow> string \<Rightarrow> go_error + string \<times> string" where
  "credentials w ns n reading missing =
     (case pw_secret w ns n of
        Inl e \<Rightarrow> Inl (wrap_err (reading @ '': '') e)
      | Inr data \<Rightarrow>
          let u = map_get data [] ''username''; p = map_get data [] ''password''
          in if u = [] \<or> p = [] then Inl (errorf missing) else Inr (u, p))"

definition ca_cert :: "pool_world \<Rightarrow> string \<Rightarrow> string \<Rightarrow> secret_reference option \<Rightarrow> go_error + string" where
  "ca_cert w ns reading ref =
     (case ref of
        None \<Rightarrow> Inr []
      | Some r \<Rightarrow> (case pw_secret w ns (sr_name r) of
            Inl e \<Rightarrow> Inl (wrap_err (reading @ '': '') e)
          | Inr data \<Rightarrow> Inr (map_get data [] ''ca.crt'')))"

definition resolveCreds ::
  "pool_world \<Rightarrow> string \<Rightarrow> string \<Rightarrow> go_error + uyuni_provider \<times> string \<times> string \<times> string" where
  "resolveCreds w ns name =
     (case pw_provider w name of
        Inl e \<Rightarrow> Inl (wrap_err (''getting UyuniProvider '' @ go_quote name @ '': '') e)
      | Inr prov \<Rightarrow>
          let c = prov_credentials (prov_spec prov); ca = prov_ca_cert (prov_spec prov)
          in case credentials w (secret_ns ns c) (sr_name c)
                    (''reading credentials secret for provider '' @ go_quote name)
                    (''credentials secret for provider '' @ go_quote name
                     @ '' must contain non-empty 'username' and 'password' keys'') of
               Inl e \<Rightarrow> Inl e
             | Inr (u, p) \<Rightarrow>
                 (case ca_cert w (case ca of None \<Rightarrow> [] | Some r \<Rightarrow> secret_ns ns r)
                         (''reading CA cert secret for provider '' @ go_quote name) ca of
                    Inl e \<Rightarrow> Inl e
                  | Inr cert \<Rightarrow> Inr (prov, u, p, cert)))"

text \<open>\<^verbatim>\<open>build\<close>: a failing \<^verbatim>\<open>GetOrgID\<close> leaves the organization id at 0.\<close>

definition build :: "pool_world \<Rightarrow> string \<Rightarrow> pool \<Rightarrow> api_client pooled" where
  "build w name p =
     (case resolveCreds w (pl_operator_ns p) name of
        Inl e \<Rightarrow> (Inl e, p)
      | Inr (prov, user, pass, cert) \<Rightarrow>
          let c = \<lparr>ac_url = prov_url (prov_spec prov), ac_user = user, ac_pass = pass,
                   ac_insecure = prov_insecure_skip_verify (prov_spec prov), ac_ca = cert\<rparr>
          in case pw_connect w c of
               Some e \<Rightarrow> (Inl (wrap_err (''connecting to provider '' @ go_quote name @ '': '') e), p)
             | None \<Rightarrow>
                 (Inr c, p\<lparr>pl_cache := (pl_cache p)(name \<mapsto>
                    (c, case pw_org_id w c of Inl _ \<Rightarrow> 0 | Inr i \<Rightarrow> i))\<rparr>))"

definition ForProvider :: "pool_world \<Rightarrow> string \<Rightarrow> pool \<Rightarrow> api_client pooled" where
  "ForProvider w ref p =
     (case resolveName w ref of
        Inl e \<Rightarrow> (Inl e, p)
      | Inr name \<Rightarrow> (case pl_cache p name of Some (c, _) \<Rightarrow> (Inr c, p) | None \<Rightarrow> build w name p))"

definition cobblerHTTPClient :: "pool_world \<Rightarrow> string \<Rightarrow> go_error option" where
  "cobblerHTTPClient w cert =
     (if cert \<noteq> [] \<and> \<not> pw_pem w cert then Some (errorf ''parsing provider CA certificate'') else None)"

definition Cobbler :: "pool_world \<Rightarrow> string \<Rightarrow> pool \<Rightarrow> api_client pooled" where
  "Cobbler w ref p =
     (case resolveName w ref of
        Inl e \<Rightarrow> (Inl e, p)
      | Inr name \<Rightarrow>
          (case pl_cobbler p name of
             Some c \<Rightarrow> (Inr c, p)
           | None \<Rightarrow>
               (case resolveCreds w (pl_operator_ns p) name of
                  Inl e \<Rightarrow> (Inl e, p)
                | Inr (prov, user, pass, cert) \<Rightarrow>
                    (case cobblerHTTPClient w cert of
                       Some e \<Rightarrow> (Inl e, p)
                     | None \<Rightarrow>
                         let c = \<lparr>ac_url = prov_url (prov_spec prov), ac_user = user, ac_pass = pass,
                                  ac_insecure = prov_insecure_skip_verify (prov_spec prov), ac_ca = cert\<rparr>
                         in (Inr c, p\<lparr>pl_cobbler := (pl_cobbler p)(name \<mapsto> c)\<rparr>)))))"

definition OrgID :: "string \<Rightarrow> pool \<Rightarrow> int \<times> bool" where
  "OrgID name p = (case pl_cache p name of Some (_, i) \<Rightarrow> (i, True) | None \<Rightarrow> (0, False))"

section \<open>Organizations\<close>

definition org_key :: "string \<Rightarrow> string \<Rightarrow> string" where
  "org_key ns n = ns @ ''/'' @ n"

text \<open>By the name of the resource, or else by the name of the organization in Uyuni.\<close>

definition find_org :: "pool_world \<Rightarrow> string \<Rightarrow> string \<Rightarrow> go_error + organization" where
  "find_org w n ns =
     (let wrap = wrap_err (''getting Organization '' @ go_quote ns @ ''/'' @ go_quote n @ '': '') in
      case pw_org w ns n of
        Inr org \<Rightarrow> Inr org
      | Inl e \<Rightarrow>
          if \<not> is_k8s_not_found e then Inl (wrap e)
          else case pw_orgs w ns of
            Inl _ \<Rightarrow> Inl (wrap e)
          | Inr items \<Rightarrow>
              (case find (\<lambda>x. org_name (org_spec x) = n) items of
                 Some org \<Rightarrow> Inr org | None \<Rightarrow> Inl (wrap e)))"

definition no_snapshot :: "organization \<Rightarrow> string \<Rightarrow> go_error" where
  "no_snapshot org n = errorf (''getting UyuniProvider '' @ go_quote (lor_name (org_provider_ref (org_spec org)))
     @ '' for Organization '' @ go_quote n @ '': not found, and Organization has no provider snapshot'')"

definition resolveProviderDetails ::
  "pool_world \<Rightarrow> organization \<Rightarrow> go_error + string \<times> bool \<times> secret_reference option" where
  "resolveProviderDetails w org =
     (case pw_provider w (lor_name (org_provider_ref (org_spec org))) of
        Inr prov \<Rightarrow> Inr (prov_url (prov_spec prov), prov_insecure_skip_verify (prov_spec prov),
                     prov_ca_cert (prov_spec prov))
      | Inl _ \<Rightarrow>
          let st = org_status org
          in if orgs_provider_url st \<noteq> []
             then Inr (orgs_provider_url st, orgs_provider_insecure st, orgs_provider_ca_cert st)
             else Inl (no_snapshot org (obj_name org)))"

text \<open>Connecting with given details and caching the client for one organization.\<close>

definition connect_org ::
  "pool_world \<Rightarrow> string \<Rightarrow> string \<Rightarrow> api_client \<Rightarrow> pool \<Rightarrow> api_client pooled" where
  "connect_org w n key c p =
     (case pw_connect w c of
        Some e \<Rightarrow> (Inl (wrap_err (''connecting for Organization '' @ go_quote n @ '': '') e), p)
      | None \<Rightarrow> (Inr c, p\<lparr>pl_orgs := (pl_orgs p)(key \<mapsto> (c, []))\<rparr>))"

definition ref_ns :: "secret_reference option \<Rightarrow> string" where
  "ref_ns r = (case r of None \<Rightarrow> [] | Some x \<Rightarrow> sr_namespace x)"

definition buildFromSnapshot ::
  "pool_world \<Rightarrow> organization \<Rightarrow> string \<Rightarrow> string \<Rightarrow> pool \<Rightarrow> api_client pooled" where
  "buildFromSnapshot w org n key p =
     (let st = org_status org in
      case orgs_provider_credentials st of
        None \<Rightarrow> (Inl (no_snapshot org n), p)
      | Some cr \<Rightarrow>
          if orgs_provider_url st = [] then (Inl (no_snapshot org n), p)
          else case credentials w (sr_namespace cr) (sr_name cr)
                 (''reading provider credentials secret for Organization '' @ go_quote n)
                 (''provider credentials secret for Organization '' @ go_quote n
                  @ '' must contain non-empty 'username' and 'password' keys'') of
            Inl e \<Rightarrow> (Inl e, p)
          | Inr (u, pw) \<Rightarrow>
              (case ca_cert w (ref_ns (orgs_provider_ca_cert st))
                      (''reading CA cert secret for Organization '' @ go_quote n) (orgs_provider_ca_cert st) of
                 Inl e \<Rightarrow> (Inl e, p)
               | Inr cert \<Rightarrow> connect_org w n key \<lparr>ac_url = orgs_provider_url st, ac_user = u, ac_pass = pw,
                   ac_insecure = orgs_provider_insecure st, ac_ca = cert\<rparr> p))"

text \<open>An organization with credentials of its own.\<close>

definition build_own ::
  "pool_world \<Rightarrow> organization \<Rightarrow> local_object_ref \<Rightarrow> string \<Rightarrow> string \<Rightarrow> string \<Rightarrow> pool \<Rightarrow> api_client pooled" where
  "build_own w org cred n ns key p =
     (case resolveProviderDetails w org of
        Inl e \<Rightarrow> (Inl e, p)
      | Inr (url, insecure, ca) \<Rightarrow>
          (case ca_cert w (ref_ns ca) (''reading CA cert secret for Organization '' @ go_quote n) ca of
             Inl e \<Rightarrow> (Inl e, p)
           | Inr cert \<Rightarrow>
               (case credentials w ns (lor_name cred)
                       (''reading org credentials secret for Organization '' @ go_quote n)
                       (''org credentials secret for Organization '' @ go_quote n
                        @ '' must contain non-empty 'username' and 'password' keys'') of
                  Inl e \<Rightarrow> (Inl e, p)
                | Inr (u, pw) \<Rightarrow> connect_org w n key \<lparr>ac_url = url, ac_user = u, ac_pass = pw,
                    ac_insecure = insecure, ac_ca = cert\<rparr> p)))"

definition buildForOrg :: "pool_world \<Rightarrow> string \<Rightarrow> string \<Rightarrow> string \<Rightarrow> pool \<Rightarrow> api_client pooled" where
  "buildForOrg w n ns key p =
     (case find_org w n ns of
        Inl e \<Rightarrow> (Inl e, p)
      | Inr org \<Rightarrow>
          (case org_credentials_secret_ref (org_spec org) of
             Some cred \<Rightarrow> build_own w org cred n ns key p
           | None \<Rightarrow>
               (let prov = lor_name (org_provider_ref (org_spec org)) in
                case ForProvider w prov p of
                  (Inr c, p') \<Rightarrow> (Inr c, p'\<lparr>pl_orgs := (pl_orgs p')(key \<mapsto> (c, prov))\<rparr>)
                | (Inl _, p') \<Rightarrow> buildFromSnapshot w org n key p')))"

definition ForOrganization :: "pool_world \<Rightarrow> string \<Rightarrow> string \<Rightarrow> pool \<Rightarrow> api_client pooled" where
  "ForOrganization w n ns p =
     (if n = [] then (Inl (errorf ''organizationRef is required''), p)
      else case pl_orgs p (org_key ns n) of
        Some (c, _) \<Rightarrow> (Inr c, p)
      | None \<Rightarrow> buildForOrg w n ns (org_key ns n) p)"

section \<open>Eviction\<close>

definition Invalidate :: "string \<Rightarrow> pool \<Rightarrow> pool" where
  "Invalidate name p = p\<lparr>pl_cache := (pl_cache p)(name := None), pl_cobbler := (pl_cobbler p)(name := None),
     pl_orgs := (\<lambda>k. case pl_orgs p k of
        Some (c, prov) \<Rightarrow> if prov = name then None else Some (c, prov) | None \<Rightarrow> None)\<rparr>"

definition InvalidateOrg :: "string \<Rightarrow> pool \<Rightarrow> pool" where
  "InvalidateOrg key p = p\<lparr>pl_orgs := (pl_orgs p)(key := None)\<rparr>"

section \<open>Caching is transparent while the cluster does not change\<close>

text \<open>
  The requests a pool gets.  The answer is a client or an error; evictions have none.
\<close>

datatype pool_op =
    GetProvider string
  | GetOrg string string
  | GetCobbler string
  | Evict string
  | EvictOrg string

fun pool_step :: "pool_world \<Rightarrow> pool_op \<Rightarrow> pool \<Rightarrow> (go_error + api_client) option \<times> pool" where
  "pool_step w (GetProvider ref) p = (case ForProvider w ref p of (r, p') \<Rightarrow> (Some r, p'))"
| "pool_step w (GetOrg n ns) p = (case ForOrganization w n ns p of (r, p') \<Rightarrow> (Some r, p'))"
| "pool_step w (GetCobbler ref) p = (case Cobbler w ref p of (r, p') \<Rightarrow> (Some r, p'))"
| "pool_step w (Evict name) p = (None, Invalidate name p)"
| "pool_step w (EvictOrg key) p = (None, InvalidateOrg key p)"

definition run_pool :: "pool_world \<Rightarrow> pool_op list \<Rightarrow> pool \<Rightarrow> pool" where
  "run_pool w ops p = fold (\<lambda>op p. snd (pool_step w op p)) ops p"

text \<open>A Kubernetes namespace has no slash, so the key of an organization is unambiguous.\<close>

definition op_ok :: "pool_op \<Rightarrow> bool" where
  "op_ok op = (case op of GetOrg _ ns \<Rightarrow> CHR ''/'' \<notin> set ns | _ \<Rightarrow> True)"

lemma org_key_inject:
  assumes "CHR ''/'' \<notin> set ns" "CHR ''/'' \<notin> set ns'" "org_key ns n = org_key ns' n'"
  shows "ns = ns' \<and> n = n'"
proof -
  have "takeWhile (\<lambda>c. c \<noteq> CHR ''/'') (org_key m k) = m" if "CHR ''/'' \<notin> set m" for m k
    using that by (subst org_key_def, subst takeWhile_append2) auto
  then have "ns = ns'" using assms by metis
  then show ?thesis using assms(3) by (simp add: org_key_def)
qed

text \<open>What a provider's Cobbler client is built from, without the cache.\<close>

definition cobbler_client :: "pool_world \<Rightarrow> string \<Rightarrow> string \<Rightarrow> go_error + api_client" where
  "cobbler_client w ns name =
     (case resolveCreds w ns name of
        Inl e \<Rightarrow> Inl e
      | Inr (prov, user, pass, cert) \<Rightarrow>
          (case cobblerHTTPClient w cert of
             Some e \<Rightarrow> Inl e
           | None \<Rightarrow> Inr \<lparr>ac_url = prov_url (prov_spec prov), ac_user = user, ac_pass = pass,
               ac_insecure = prov_insecure_skip_verify (prov_spec prov), ac_ca = cert\<rparr>))"

lemma Cobbler_eq:
  "Cobbler w ref p =
     (case resolveName w ref of
        Inl e \<Rightarrow> (Inl e, p)
      | Inr name \<Rightarrow>
          (case pl_cobbler p name of
             Some c \<Rightarrow> (Inr c, p)
           | None \<Rightarrow>
               (case cobbler_client w (pl_operator_ns p) name of
                  Inl e \<Rightarrow> (Inl e, p)
                | Inr c \<Rightarrow> (Inr c, p\<lparr>pl_cobbler := (pl_cobbler p)(name \<mapsto> c)\<rparr>))))"
  by (simp add: Cobbler_def cobbler_client_def Let_def split: sum.split option.split prod.split)

text \<open>Every cached client is the one a pool without a cache would build.\<close>

definition coherent :: "pool_world \<Rightarrow> pool \<Rightarrow> bool" where
  "coherent w p = (let new = New (pl_operator_ns p) in
     (\<forall>name c i. pl_cache p name = Some (c, i) \<longrightarrow> fst (build w name new) = Inr c) \<and>
     (\<forall>name c. pl_cobbler p name = Some c \<longrightarrow> cobbler_client w (pl_operator_ns p) name = Inr c) \<and>
     (\<forall>ns n c prov. CHR ''/'' \<notin> set ns \<and> pl_orgs p (org_key ns n) = Some (c, prov) \<longrightarrow>
        n \<noteq> [] \<and> fst (buildForOrg w n ns (org_key ns n) new) = Inr c))"

lemma New_simps [simp]:
  "pl_operator_ns (New ns) = ns" "pl_cache (New ns) = Map.empty" "pl_orgs (New ns) = Map.empty"
  "pl_cobbler (New ns) = Map.empty"
  by (simp_all add: New_def)

lemma coherentD:
  assumes "coherent w p"
  shows "pl_cache p name = Some (c', i) \<Longrightarrow> fst (build w name (New (pl_operator_ns p))) = Inr c'"
    and "pl_cobbler p name = Some c \<Longrightarrow> cobbler_client w (pl_operator_ns p) name = Inr c"
    and "CHR ''/'' \<notin> set ns \<Longrightarrow> pl_orgs p (org_key ns n) = Some (c'', prov) \<Longrightarrow>
      n \<noteq> [] \<and> fst (buildForOrg w n ns (org_key ns n) (New (pl_operator_ns p))) = Inr c''"
  using assms unfolding coherent_def Let_def by blast+

lemma coherentI:
  assumes "pl_operator_ns p = ns"
    and "\<And>name c i. pl_cache p name = Some (c, i) \<Longrightarrow> fst (build w name (New ns)) = Inr c"
    and "\<And>name c. pl_cobbler p name = Some c \<Longrightarrow> cobbler_client w ns name = Inr c"
    and "\<And>m n c prov. CHR ''/'' \<notin> set m \<Longrightarrow> pl_orgs p (org_key m n) = Some (c, prov) \<Longrightarrow>
      n \<noteq> [] \<and> fst (buildForOrg w n m (org_key m n) (New ns)) = Inr c"
  shows "coherent w p"
  using assms unfolding coherent_def Let_def by blast

lemma build_cases:
  "\<exists>r. build w name p = (r, (case r of Inl _ \<Rightarrow> p | Inr c \<Rightarrow> p\<lparr>pl_cache := (pl_cache p)(name \<mapsto>
      (c, case pw_org_id w c of Inl _ \<Rightarrow> 0 | Inr i \<Rightarrow> i))\<rparr>)) \<and>
    fst (build w name (New (pl_operator_ns p))) = r"
  by (auto simp: build_def Let_def split: sum.split option.split)

lemma ForProvider_coherent:
  assumes "coherent w p"
  shows "\<exists>r p'. ForProvider w ref p = (r, p') \<and> fst (ForProvider w ref (New (pl_operator_ns p))) = r \<and>
    coherent w p' \<and> pl_operator_ns p' = pl_operator_ns p \<and> pl_orgs p' = pl_orgs p"
proof (cases "resolveName w ref")
  case (Inl e)
  then show ?thesis using assms by (simp add: ForProvider_def)
next
  case (Inr name)
  show ?thesis
  proof (cases "pl_cache p name")
    case (Some e)
    then obtain c i where e: "pl_cache p name = Some (c, i)" by (cases e) auto
    then show ?thesis using Inr assms coherentD(1) [OF assms e] by (simp add: ForProvider_def)
  next
    case None
    obtain r where r: "build w name p = (r, (case r of Inl _ \<Rightarrow> p | Inr c \<Rightarrow> p\<lparr>pl_cache := (pl_cache p)(name \<mapsto>
        (c, case pw_org_id w c of Inl _ \<Rightarrow> 0 | Inr i \<Rightarrow> i))\<rparr>))" "fst (build w name (New (pl_operator_ns p))) = r"
      using build_cases by blast
    then show ?thesis using Inr None assms
      by (cases r) (auto simp: ForProvider_def coherent_def Let_def)
  qed
qed

text \<open>Building for an organization does the same with and without a coherent cache.\<close>

lemma connect_org_cases:
  "\<exists>r. connect_org w n key c p = (r, (case r of Inl _ \<Rightarrow> p | Inr c' \<Rightarrow> p\<lparr>pl_orgs := (pl_orgs p)(key \<mapsto> (c', []))\<rparr>)) \<and>
     fst (connect_org w n key c new) = r"
  by (auto simp: connect_org_def split: option.split)

definition org_step :: "pool \<Rightarrow> string \<Rightarrow> api_client pooled \<Rightarrow> api_client pooled \<Rightarrow> bool" where
  "org_step p key x y = (fst y = fst x \<and> (case fst x of
      Inl _ \<Rightarrow> snd x = p | Inr c \<Rightarrow> \<exists>prov. snd x = p\<lparr>pl_orgs := (pl_orgs p)(key \<mapsto> (c, prov))\<rparr>))"

lemma org_step_Inl: "org_step p key (Inl e, p) (Inl e, q)"
  by (simp add: org_step_def)

lemma connect_org_step: "org_step p key (connect_org w n key c p) (connect_org w n key c q)"
  by (auto simp: connect_org_def org_step_def split: option.split)

lemma buildFromSnapshot_step:
  "org_step p key (buildFromSnapshot w org n key p) (buildFromSnapshot w org n key q)"
  by (auto simp: buildFromSnapshot_def Let_def org_step_Inl connect_org_step split: option.split sum.split)

lemma build_own_step:
  "org_step p key (build_own w org cred n ns key p) (build_own w org cred n ns key q)"
  by (auto simp: build_own_def org_step_Inl connect_org_step split: option.split sum.split)

lemma org_step_coherent:
  assumes "org_step p' (org_key ns n) x y" "coherent w p'" "CHR ''/'' \<notin> set ns" "n \<noteq> []"
    and "fst (buildForOrg w n ns (org_key ns n) (New (pl_operator_ns p'))) = fst x"
  shows "coherent w (snd x) \<and> pl_operator_ns (snd x) = pl_operator_ns p'"
proof (cases "fst x")
  case (Inl e)
  then show ?thesis using assms(1,2) by (simp add: org_step_def)
next
  case (Inr c)
  then obtain prov where x: "snd x = p'\<lparr>pl_orgs := (pl_orgs p')(org_key ns n \<mapsto> (c, prov))\<rparr>"
    using assms(1) by (auto simp: org_step_def)
  have "coherent w (snd x)"
  proof (rule coherentI)
    fix ns' n' c' q
    assume slash: "CHR ''/'' \<notin> set ns'" and found: "pl_orgs (snd x) (org_key ns' n') = Some (c', q)"
    show "n' \<noteq> [] \<and> fst (buildForOrg w n' ns' (org_key ns' n') (New (pl_operator_ns p'))) = Inr c'"
    proof (cases "org_key ns' n' = org_key ns n")
      case True
      then have "ns' = ns \<and> n' = n" using org_key_inject slash assms(3) by metis
      then show ?thesis using found x assms(4,5) Inr by simp
    next
      case False
      then show ?thesis using found x coherentD(3) [OF assms(2) slash] by simp
    qed
  qed (use x coherentD(1,2) [OF assms(2)] in simp_all)
  then show ?thesis using x by simp
qed

lemma buildForOrg_coherent:
  assumes "coherent w p" "CHR ''/'' \<notin> set ns" "n \<noteq> []"
  shows "fst (buildForOrg w n ns (org_key ns n) p) = fst (buildForOrg w n ns (org_key ns n) (New (pl_operator_ns p))) \<and>
    coherent w (snd (buildForOrg w n ns (org_key ns n) p)) \<and>
    pl_operator_ns (snd (buildForOrg w n ns (org_key ns n) p)) = pl_operator_ns p"
proof -
  let ?new = "New (pl_operator_ns p)" and ?key = "org_key ns n"
  show ?thesis
  proof (cases "find_org w n ns")
    case (Inl e)
    then show ?thesis using assms(1) by (simp add: buildForOrg_def)
  next
    case (Inr org)
    show ?thesis
    proof (cases "org_credentials_secret_ref (org_spec org)")
      case (Some cred)
      let ?x = "build_own w org cred n ns ?key p" and ?y = "build_own w org cred n ns ?key ?new"
      have eq: "buildForOrg w n ns ?key p = ?x" "buildForOrg w n ns ?key ?new = ?y"
        using Inr Some by (simp_all add: buildForOrg_def)
      have "org_step p ?key ?x ?y" by (rule build_own_step)
      then show ?thesis using org_step_coherent [of p ns n ?x ?y w] assms eq by (simp add: org_step_def)
    next
      case None
      let ?prov = "lor_name (org_provider_ref (org_spec org))"
      obtain r p' where fp: "ForProvider w ?prov p = (r, p')" "coherent w p'"
        "pl_operator_ns p' = pl_operator_ns p" "fst (ForProvider w ?prov ?new) = r"
        using ForProvider_coherent [OF assms(1)] by blast
      let ?x = "buildForOrg w n ns ?key p"
      obtain q where q: "ForProvider w ?prov ?new = (r, q)" using fp(4) by (cases "ForProvider w ?prov ?new") auto
      have step: "org_step p' ?key ?x (buildForOrg w n ns ?key ?new)"
      proof (cases r)
        case (Inl e)
        then show ?thesis using Inr None fp(1) q
          by (simp add: buildForOrg_def Let_def buildFromSnapshot_step)
      next
        case (Inr c)
        then show ?thesis using \<open>find_org w n ns = Inr org\<close> None fp(1) q
          by (auto simp: buildForOrg_def Let_def org_step_def)
      qed
      then show ?thesis using org_step_coherent [OF step fp(2) assms(2,3)] fp(3) by (simp add: org_step_def)
    qed
  qed
qed

lemma ForOrganization_coherent:
  assumes "coherent w p" "CHR ''/'' \<notin> set ns"
  shows "fst (ForOrganization w n ns p) = fst (ForOrganization w n ns (New (pl_operator_ns p))) \<and>
    coherent w (snd (ForOrganization w n ns p)) \<and>
    pl_operator_ns (snd (ForOrganization w n ns p)) = pl_operator_ns p"
proof (cases "pl_orgs p (org_key ns n)")
  case None
  then show ?thesis using assms buildForOrg_coherent [OF assms, of n] by (simp add: ForOrganization_def)
next
  case (Some e)
  then obtain c prov where "pl_orgs p (org_key ns n) = Some (c, prov)" by (cases e) auto
  with coherentD(3) [OF assms(1,2) this] show ?thesis using assms(1) by (simp add: ForOrganization_def)
qed

lemma Cobbler_coherent:
  assumes "coherent w p"
  shows "fst (Cobbler w ref p) = fst (Cobbler w ref (New (pl_operator_ns p))) \<and>
    coherent w (snd (Cobbler w ref p)) \<and> pl_operator_ns (snd (Cobbler w ref p)) = pl_operator_ns p"
proof (cases "resolveName w ref")
  case (Inl e)
  then show ?thesis using assms by (simp add: Cobbler_def)
next
  case (Inr name)
  show ?thesis
  proof (cases "pl_cobbler p name")
    case (Some c)
    then show ?thesis using Inr assms coherentD(2) [OF assms Some] by (simp add: Cobbler_eq)
  next
    case None
    then show ?thesis using Inr assms
      by (cases "cobbler_client w (pl_operator_ns p) name") (auto simp: Cobbler_eq coherent_def Let_def)
  qed
qed

lemma evict_coherent: "coherent w p \<Longrightarrow> coherent w (Invalidate name p) \<and> coherent w (InvalidateOrg key p)"
  using coherentD [of w p]
  by (intro conjI; intro coherentI [OF refl])
    (force simp: Invalidate_def InvalidateOrg_def split: option.splits if_splits)+

lemma pool_step_coherent:
  assumes "coherent w p" "op_ok op"
  shows "fst (pool_step w op p) = fst (pool_step w op (New (pl_operator_ns p))) \<and>
    coherent w (snd (pool_step w op p)) \<and> pl_operator_ns (snd (pool_step w op p)) = pl_operator_ns p"
proof (cases op)
  case (GetProvider ref)
  then show ?thesis using ForProvider_coherent [OF assms(1), of ref] by (auto split: prod.splits)
next
  case (GetOrg n ns)
  then show ?thesis using ForOrganization_coherent [OF assms(1), of ns n] assms(2)
    by (cases "ForOrganization w n ns p"; cases "ForOrganization w n ns (New (pl_operator_ns p))")
      (simp add: op_ok_def)
next
  case (GetCobbler ref)
  then show ?thesis using Cobbler_coherent [OF assms(1), of ref]
    by (cases "Cobbler w ref p"; cases "Cobbler w ref (New (pl_operator_ns p))") simp
qed (use assms(1) evict_coherent [OF assms(1)] in \<open>simp_all add: Invalidate_def InvalidateOrg_def\<close>)

lemma run_pool_coherent:
  "coherent w p \<Longrightarrow> list_all op_ok ops \<Longrightarrow>
     coherent w (run_pool w ops p) \<and> pl_operator_ns (run_pool w ops p) = pl_operator_ns p"
proof (induction ops arbitrary: p)
  case (Cons op ops)
  then show ?case using pool_step_coherent [of w p op] by (simp add: run_pool_def)
qed (simp add: run_pool_def)

text \<open>
  C26.  While providers, organizations and Secrets do not change, caching is transparent: after any
  sequence of requests and evictions a pool answers every request as a new pool does.
\<close>

theorem pool_transparent:
  assumes "list_all op_ok (op # ops)"
  shows "fst (pool_step w op (run_pool w ops (New ns))) = fst (pool_step w op (New ns))"
proof -
  have "coherent w (New ns)" by (simp add: coherent_def Let_def)
  then have "coherent w (run_pool w ops (New ns))" "pl_operator_ns (run_pool w ops (New ns)) = ns"
    using run_pool_coherent [of w "New ns" ops] assms by simp_all
  then show ?thesis using pool_step_coherent [of w _ op] assms by force
qed

definition demo_pool_world :: "string \<Rightarrow> pool_world" where
  "demo_pool_world url = \<lparr>pw_provider = \<lambda>n. Inr (k8s_object.extend (mk_object [] n)
       \<lparr>prov_spec = \<lparr>prov_url = url, prov_credentials = \<lparr>sr_name = ''creds'', sr_namespace = []\<rparr>,
          prov_insecure_skip_verify = False, prov_ca_cert = None, prov_timeout = 0, prov_is_default = False\<rparr>,
        prov_status = \<lparr>provs_server_version = [], provs_org_id = 0, provs_last_reachable_time = None,
          provs_observed_generation = 0, provs_conditions = []\<rparr>\<rparr>),
     pw_providers = Inr [], pw_secret = \<lambda>_ _. Inr [''username'' \<mapsto> ''admin'', ''password'' \<mapsto> ''secret''],
     pw_org = \<lambda>_ _. Inl (GoErr K8sNotFound []), pw_orgs = \<lambda>_. Inr [],
     pw_connect = \<lambda>_. None, pw_org_id = \<lambda>_. Inr 1, pw_pem = \<lambda>_. True\<rparr>"

definition demo_client :: "string \<Rightarrow> api_client" where
  "demo_client url = \<lparr>ac_url = url, ac_user = ''admin'', ac_pass = ''secret'', ac_insecure = False, ac_ca = []\<rparr>"

lemma demo_build:
  "build (demo_pool_world url) n p =
     (Inr (demo_client url), p\<lparr>pl_cache := (pl_cache p)(n \<mapsto> (demo_client url, 1))\<rparr>)"
  by (simp add: build_def resolveCreds_def demo_pool_world_def credentials_def ca_cert_def map_get_def
      demo_client_def k8s_object.defs Let_def)

theorem pool_transparent_witness:
  "fst (pool_step (demo_pool_world ''u'') (GetProvider ''p'')
      (run_pool (demo_pool_world ''u'') [GetProvider ''p'', Evict ''q''] (New ''ops''))) = Some (Inr (demo_client ''u''))"
  by (subst pool_transparent)
    (simp_all add: op_ok_def ForProvider_def resolveName_def demo_build)

end
