(* ===== verification/Provider_Controller.thy ===== *)
theory Provider_Controller
  imports Client_Pool Pass_Steps
begin

text \<open>
  \<^verbatim>\<open>uyuniprovider_controller.go\<close>: the reconciler that probes a provider through the client pool and
  evicts clients when a Secret changes.  Its passes change the pool as well as the resource, so the
  pool is threaded through them.
\<close>

section \<open>World and pass\<close>

definition provider_kind :: "(('a) uyuni_provider_scheme, uyuni_provider_status) kind_ops" where
  "provider_kind = \<lparr>status_of = prov_status, with_status = \<lambda>st p. p\<lparr>prov_status := st\<rparr>\<rparr>"

interpretation provider_status_field: status_field provider_kind
  by unfold_locales (simp_all add: provider_kind_def k8s_object.defs)

record provider_world =
  vw_ssc :: set_cond
  vw_pool :: pool_world
  vw_now :: int
  vw_version :: "api_client \<Rightarrow> go_error + string"
  vw_out :: answers

definition provider_kit :: "provider_world \<Rightarrow> (uyuni_provider, uyuni_provider_status) kit" where
  "provider_kit w = \<lparr>kit_ops = provider_kind, kit_conditions = provs_conditions_update,
     kit_ssc = vw_ssc w, kit_out = vw_out w\<rparr>"

definition findOtherDefault :: "pool_world \<Rightarrow> string \<Rightarrow> go_error + string" where
  "findOtherDefault w self =
     (case pw_providers w of
        Inl e \<Rightarrow> Inl e
      | Inr items \<Rightarrow>
          (case find (\<lambda>p. obj_name p \<noteq> self \<and> prov_is_default (prov_spec p)) items of
             Some p \<Rightarrow> Inr (obj_name p) | None \<Rightarrow> Inr []))"

text \<open>An unreachable provider is reported and probed again after 30 seconds.\<close>

definition unreachable ::
  "provider_world \<Rightarrow> string \<Rightarrow> go_error \<Rightarrow> (uyuni_provider, unit) pass \<Rightarrow> (uyuni_provider, unit) outcome" where
  "unreachable w reason err s =
     (result_after (30 * second), None,
      snd (write_status (vw_out w) provider_kind (become (provider_kit w) False reason (err_text err) s)))"

definition prov_probe ::
  "provider_world \<Rightarrow> pool \<Rightarrow> (uyuni_provider, unit) pass \<Rightarrow> (uyuni_provider, unit) outcome \<times> pool" where
  "prov_probe w p s =
     (case ForProvider (vw_pool w) (obj_name (mem s)) p of
        (Inl e, p') \<Rightarrow> (unreachable w ''Unreachable'' e s, p')
      | (Inr c, p') \<Rightarrow>
          (case vw_version w c of
             Inl e \<Rightarrow> (unreachable w ''VersionProbeFailed'' e s, p')
           | Inr v \<Rightarrow>
               let s1 = set_st (provider_kit w) (\<lambda>st. st\<lparr>provs_server_version := v,
                      provs_org_id := fst (OrgID (obj_name (mem s)) p'),
                      provs_last_reachable_time := Some (vw_now w),
                      provs_observed_generation := obj_generation (mem s)\<rparr>) s
               in (save_and (provider_kit w) (result_after (2 * minute))
                     (become (provider_kit w) True ''Reachable'' [] s1), p')))"

text \<open>\<open>get\<close> is the \<^verbatim>\<open>Get\<close> of the provider itself; when it fails the client is evicted.\<close>

definition prov_Reconcile ::
  "provider_world \<Rightarrow> pool \<Rightarrow> string \<Rightarrow> go_error + uyuni_provider \<Rightarrow>
   (ctrl_result \<times> go_error option \<times> (uyuni_provider, unit) pass option) \<times> pool" where
  "prov_Reconcile w p name get =
     (case get of
        Inl e \<Rightarrow> ((result_done, ignore_not_found e, None), Invalidate name p)
      | Inr prov \<Rightarrow>
          let s = start_pass prov;
              out = (\<lambda>(r, p'). case r of (res, err, s') \<Rightarrow> ((res, err, Some s'), p'))
          in if prov_is_default (prov_spec prov)
             then (case findOtherDefault (vw_pool w) (obj_name prov) of
                     Inl e \<Rightarrow> out (return_error e s, p)
                   | Inr dup \<Rightarrow>
                       if dup \<noteq> []
                       then (case write_status (vw_out w) provider_kind
                                (become (provider_kit w) False ''DuplicateDefault''
                                   (''UyuniProvider '' @ go_quote dup
                                    @ '' is also marked default; resolve by removing isDefault on one'') s) of
                               (e, s1) \<Rightarrow> out ((result_done, e, s1), p))
                       else out (prov_probe w p s))
             else out (prov_probe w p s))"

text \<open>
  The watch on Secrets of the operator namespace: which providers are enqueued, and the pool without
  their clients.
\<close>

definition refs_secret :: "string \<Rightarrow> uyuni_provider \<Rightarrow> bool" where
  "refs_secret name prov = list_ex (\<lambda>r. sr_name r = name)
     (prov_credentials (prov_spec prov) # (case prov_ca_cert (prov_spec prov) of None \<Rightarrow> [] | Some r \<Rightarrow> [r]))"

definition providersForSecret ::
  "pool_world \<Rightarrow> string \<Rightarrow> string \<Rightarrow> pool \<Rightarrow> string list \<times> pool" where
  "providersForSecret w ns name p =
     (if ns \<noteq> pl_operator_ns p then ([], p)
      else case pw_providers w of
        Inl _ \<Rightarrow> ([], p)
      | Inr items \<Rightarrow>
          let hit = map obj_name (filter (refs_secret name) items) in (hit, fold Invalidate hit p))"

section \<open>What an eviction guarantees\<close>

text \<open>
  The client pool as its users see it: \<open>ask\<close> returns a client, \<open>evict\<close> forgets one, and \<open>built\<close> is
  the client the cluster's resources ask for.  Between evictions an answer does not change.
\<close>

locale evicting_cache =
  fixes ask :: "string \<Rightarrow> 's \<Rightarrow> (go_error + 'c) \<times> 's"
    and evict :: "string \<Rightarrow> 's \<Rightarrow> 's"
    and built :: "'s \<Rightarrow> string \<Rightarrow> go_error + 'c"
  assumes after_evict: "n \<noteq> [] \<Longrightarrow> fst (ask n (evict n s)) = built s n"
    and sticky: "n \<noteq> [] \<Longrightarrow> fst (ask n s) = Inr c \<Longrightarrow> fst (ask n (snd (ask m s))) = Inr c"
    and evict_other: "n \<noteq> m \<Longrightarrow> n \<noteq> [] \<Longrightarrow> fst (ask n (evict m s)) = fst (ask n s)"
    and built_evict: "built (evict m s) = built s" "built (snd (ask m s)) = built s"
begin

text \<open>Evicting a set of clients makes every one of them fresh.\<close>

lemma fold_evict_built [simp]: "built (fold evict ms s) = built s"
  by (induction ms arbitrary: s) (simp_all add: built_evict)

lemma fold_evict_fresh: "n \<in> set ms \<Longrightarrow> n \<noteq> [] \<Longrightarrow> fst (ask n (fold evict ms s)) = built s n"
proof (induction ms arbitrary: s)
  case (Cons m ms)
  show ?case
  proof (cases "n \<in> set ms")
    case True
    then show ?thesis using Cons by (simp add: built_evict)
  next
    case False
    then have kept: "fst (ask n (fold evict ms t)) = fst (ask n t)" for t
      using Cons.prems(2) evict_other by (induction ms arbitrary: t) auto
    have "n = m" using Cons.prems(1) False by simp
    then show ?thesis using kept [of "evict m s"] after_evict [OF Cons.prems(2)] by simp
  qed
qed simp

text \<open>A client that was handed out stays the answer through any number of requests.\<close>

lemma stays: "n \<noteq> [] \<Longrightarrow> fst (ask n s) = Inr c \<Longrightarrow> fst (ask n (fold (\<lambda>m s. snd (ask m s)) ms s)) = Inr c"
  by (induction ms arbitrary: s) (simp_all add: sticky)

end

lemma ForProvider_named:
  "n \<noteq> [] \<Longrightarrow> ForProvider w n p = (case pl_cache p n of Some (c, _) \<Rightarrow> (Inr c, p) | None \<Rightarrow> build w n p)"
  by (simp add: ForProvider_def resolveName_def)

lemma build_result:
  "build w n p = (case fst (build w n (New (pl_operator_ns p))) of
     Inl e \<Rightarrow> (Inl e, p)
   | Inr c \<Rightarrow> (Inr c, p\<lparr>pl_cache := (pl_cache p)(n \<mapsto> (c, case pw_org_id w c of Inl _ \<Rightarrow> 0 | Inr i \<Rightarrow> i))\<rparr>))"
  using build_cases [of w n p] by (auto split: sum.splits)

lemma ForProvider_keeps:
  assumes "ForProvider w m p = (r, p')"
  shows "pl_operator_ns p' = pl_operator_ns p \<and> (\<forall>n. pl_cache p' n = pl_cache p n \<or>
    (pl_cache p n = None \<and> (\<exists>c i. pl_cache p' n = Some (c, i) \<and>
       fst (build w n (New (pl_operator_ns p))) = Inr c)))"
  using assms
  by (auto simp: ForProvider_def build_result [of w _ p] split: sum.splits option.splits prod.splits if_splits)

definition provider_built :: "pool_world \<Rightarrow> pool \<Rightarrow> string \<Rightarrow> go_error + api_client" where
  "provider_built w p n = fst (build w n (New (pl_operator_ns p)))"

lemma ForProvider_answer:
  "n \<noteq> [] \<Longrightarrow> fst (ForProvider w n p) =
     (case pl_cache p n of Some (c, _) \<Rightarrow> Inr c | None \<Rightarrow> provider_built w p n)"
  by (simp add: ForProvider_named provider_built_def build_result [of w n p] split: option.split sum.split prod.split)

interpretation provider_clients: evicting_cache "ForProvider w" Invalidate "provider_built w" for w
proof unfold_locales
  fix n :: string and s
  assume "n \<noteq> []"
  then show "fst (ForProvider w n (Invalidate n s)) = provider_built w s n"
    by (simp add: ForProvider_answer Invalidate_def provider_built_def)
next
  fix n m :: string and s c
  assume n: "n \<noteq> []" and c: "fst (ForProvider w n s) = Inr c"
  obtain r s' where s': "ForProvider w m s = (r, s')" by fastforce
  then show "fst (ForProvider w n (snd (ForProvider w m s))) = Inr c"
    using n c ForProvider_keeps [OF s', THEN conjunct1] ForProvider_keeps [OF s', THEN conjunct2, rule_format, of n]
    by (auto simp: ForProvider_answer provider_built_def split: option.splits)
next
  fix n m :: string and s
  assume "n \<noteq> m" "n \<noteq> []"
  then show "fst (ForProvider w n (Invalidate m s)) = fst (ForProvider w n s)"
    by (simp add: ForProvider_answer Invalidate_def provider_built_def split: option.split)
next
  fix m s
  show "provider_built w (Invalidate m s) = provider_built w s"
    by (simp add: provider_built_def Invalidate_def fun_eq_iff)
next
  fix m s
  obtain r s' where s': "ForProvider w m s = (r, s')" by fastforce
  then show "provider_built w (snd (ForProvider w m s)) = provider_built w s"
    using ForProvider_keeps [OF s'] by (simp add: provider_built_def fun_eq_iff)
qed

text \<open>
  After a Secret of the operator namespace changed, every provider that refers to it by name is
  enqueued and is answered with a client built from the new Secret.
\<close>

theorem secret_change_rebuilds:
  assumes "pw_providers w = Inr items" "prov \<in> set items" "refs_secret name prov" "obj_name prov \<noteq> []"
  shows "obj_name prov \<in> set (fst (providersForSecret w (pl_operator_ns p) name p)) \<and>
    fst (ForProvider w (obj_name prov) (snd (providersForSecret w (pl_operator_ns p) name p))) =
      fst (build w (obj_name prov) (New (pl_operator_ns p)))"
  using provider_clients.fold_evict_fresh [of "obj_name prov" "map obj_name (filter (refs_secret name) items)" w p] assms
  by (auto simp: providersForSecret_def Let_def provider_built_def)

text \<open>
  An edited provider goes unnoticed: when a client for it is cached, a pass on any new spec (not
  marked default) probes the old client, keeps it in the pool, and reports the new generation as
  Ready.  Nothing but a changed Secret or a deletion evicts it.
\<close>

theorem provider_edit_unnoticed:
  assumes "condition_law (vw_ssc w)" "\<not> prov_is_default (prov_spec prov)" "obj_name prov \<noteq> []"
    and "pl_cache p (obj_name prov) = Some (old, i)" "vw_version w old = Inr v" "vw_out w 0 = None"
  shows "\<exists>s'. prov_Reconcile w p (obj_name prov) (Inr prov) = ((result_after (2 * minute), None, Some s'), p) \<and>
    (\<exists>st'. stored s' = Some st' \<and> provs_observed_generation (prov_status st') = obj_generation prov \<and>
      map_option cond_status (find_cond ''Ready'' (provs_conditions (prov_status st'))) = Some True)"
proof -
  have "ForProvider (vw_pool w) (obj_name prov) p = (Inr old, p)"
    using assms(3,4) by (simp add: ForProvider_named)
  then show ?thesis using assms
    by (simp add: prov_Reconcile_def prov_probe_def Let_def save_and_eq provider_kit_def provider_kind_def
        become_def set_st_def setReady_Ready)
qed

definition provider_demo_world :: provider_world where
  "provider_demo_world = \<lparr>vw_ssc = replace_cond, vw_pool = demo_pool_world ''new'', vw_now = 5,
     vw_version = \<lambda>_. Inr ''5.0'', vw_out = \<lambda>_. None\<rparr>"

definition demo_provider :: uyuni_provider where
  "demo_provider = (case pw_provider (demo_pool_world ''new'') ''p'' of Inr prov \<Rightarrow> prov | Inl _ \<Rightarrow> undefined)"

lemma demo_provider_simps [simp]:
  "obj_name demo_provider = ''p''" "prov_is_default (prov_spec demo_provider) = False"
  "prov_credentials (prov_spec demo_provider) = \<lparr>sr_name = ''creds'', sr_namespace = []\<rparr>"
  by (simp_all add: demo_provider_def demo_pool_world_def mk_object_def k8s_object.defs)

theorem provider_edit_unnoticed_witness:
  "\<exists>s' st'. fst (prov_Reconcile provider_demo_world
        ((New ''ops'')\<lparr>pl_cache := [''p'' \<mapsto> (demo_client ''old'', 1)]\<rparr>) ''p'' (Inr demo_provider)) =
      (result_after (2 * minute), None, Some s') \<and> stored s' = Some st' \<and>
    map_option cond_status (find_cond ''Ready'' (provs_conditions (prov_status st'))) = Some True"
proof -
  let ?p = "(New ''ops'')\<lparr>pl_cache := [''p'' \<mapsto> (demo_client ''old'', 1)]\<rparr>"
  have "condition_law (vw_ssc provider_demo_world)" by (simp add: provider_demo_world_def replace_cond_law)
  then show ?thesis
    using provider_edit_unnoticed [of provider_demo_world demo_provider ?p "demo_client ''old''" 1 "''5.0''"]
    by (fastforce simp: provider_demo_world_def)
qed

theorem secret_change_rebuilds_witness:
  "fst (ForProvider ((demo_pool_world ''new'')\<lparr>pw_providers := Inr [demo_provider]\<rparr>) ''p''
      (snd (providersForSecret ((demo_pool_world ''new'')\<lparr>pw_providers := Inr [demo_provider]\<rparr>) ''ops'' ''creds''
        ((New ''ops'')\<lparr>pl_cache := [''p'' \<mapsto> (demo_client ''old'', 1)]\<rparr>)))) = Inr (demo_client ''new'')"
proof -
  let ?w = "(demo_pool_world ''new'')\<lparr>pw_providers := Inr [demo_provider]\<rparr>"
    and ?p = "(New ''ops'')\<lparr>pl_cache := [''p'' \<mapsto> (demo_client ''old'', 1)]\<rparr>"
  have "refs_secret ''creds'' demo_provider" by (simp add: refs_secret_def)
  moreover have "fst (build ?w ''p'' (New ''ops'')) = fst (build (demo_pool_world ''new'') ''p'' (New ''ops''))"
    by (simp add: build_def resolveCreds_def credentials_def ca_cert_def demo_pool_world_def Let_def k8s_object.defs)
  ultimately show ?thesis
    using secret_change_rebuilds [of ?w "[demo_provider]" demo_provider "''creds''" ?p] by (simp add: demo_build)
qed

end
