(* ===== verification/Api_Content.thy ===== *)
theory Api_Content
  imports Api_Systems
begin

text \<open>
  The custom resources of \<^verbatim>\<open>autoinstall_types.go\<close>, \<^verbatim>\<open>cobbler_types.go\<close>, \<^verbatim>\<open>config_types.go\<close>,
  \<^verbatim>\<open>configurationchannel_types.go\<close>, \<^verbatim>\<open>custominfokey_types.go\<close>, \<^verbatim>\<open>image_types.go\<close>,
  \<^verbatim>\<open>packagecleanup_types.go\<close>, \<^verbatim>\<open>proxy_types.go\<close> and the \<^verbatim>\<open>Repository\<close> of \<^verbatim>\<open>channel_types.go\<close>: one record
  per struct, one field per field.  A \<^verbatim>\<open>map[string]string\<close> is an association list in the order a
  \<^verbatim>\<open>range\<close> visits it.
\<close>

section \<open>Repository (\<^verbatim>\<open>channel_types.go\<close>)\<close>

record repository_spec =
  rp_label :: string
  rp_url :: string
  rp_type :: string
  rp_has_signed_metadata :: bool
  rp_ssl_cert_ref :: "local_object_ref option"
  rp_organization_ref :: "local_object_ref option"

record repository_status =
  rps_uyuni_id :: int
  rps_label :: string
  rps_observed_generation :: int
  rps_conditions :: "condition list"

record repository = k8s_object +
  repo_spec :: repository_spec
  repo_status :: repository_status

section \<open>Autoinstallation (\<^verbatim>\<open>autoinstall_types.go\<close>)\<close>

record distribution_spec =
  ad_label :: string
  ad_base_path :: string
  ad_channel_ref :: local_object_ref
  ad_install_type :: string
  ad_kernel_options :: string
  ad_post_kernel_options :: string
  ad_organization_ref :: "local_object_ref option"

record distribution_status =
  ads_uyuni_id :: int
  ads_channel_label :: string
  ads_observed_generation :: int
  ads_conditions :: "condition list"

record distribution = k8s_object +
  dist_spec :: distribution_spec
  dist_status :: distribution_status

record script_spec =
  as_name :: string
  as_contents :: string
  as_interpreter :: string
  as_type :: string
  as_chroot :: bool
  as_template :: bool
  as_error_on_fail :: bool

record script_status =
  ass_name :: string
  ass_uyuni_id :: int

record autoinstall_profile_spec =
  ap_label :: string
  ap_mode :: string
  ap_distribution_ref :: "local_object_ref option"
  ap_root_password_secret_ref :: "secret_key_ref option"
  ap_virtualization_type :: string
  ap_kickstart_host :: string
  ap_child_channel_refs :: "local_object_ref list"
  ap_variables :: "(string \<times> string) list"
  ap_scripts :: "script_spec list"
  ap_update_type :: string
  ap_preserve_ks_file :: bool
  ap_kickstart_contents :: string
  ap_organization_ref :: "local_object_ref option"

record autoinstall_profile_status =
  aps_conditions :: "condition list"
  aps_observed_generation :: int
  aps_script_ids :: "script_status list"
  aps_child_channel_labels :: "string list"
  aps_distribution_label :: string
  aps_external :: bool
  aps_contents_hash :: string

record autoinstall_profile = k8s_object +
  prof_spec :: autoinstall_profile_spec
  prof_status :: autoinstall_profile_status

section \<open>Cobbler records (\<^verbatim>\<open>cobbler_types.go\<close>)\<close>

record cobbler_distro_spec =
  cds_name :: string
  cds_mode :: string
  cds_provider_ref :: "local_object_ref option"
  cds_kernel :: string
  cds_initrd :: string
  cds_breed :: string
  cds_os_version :: string
  cds_arch :: string
  cds_kernel_options :: string
  cds_autoinstall_meta :: "(string \<times> string) list"

record cobbler_distro_status =
  cdst_cobbler_id :: string
  cdst_found :: bool
  cdst_observed_generation :: int
  cdst_conditions :: "condition list"

record cobbler_distro = k8s_object +
  cdistro_spec :: cobbler_distro_spec
  cdistro_status :: cobbler_distro_status

record cobbler_profile_spec =
  cpfs_name :: string
  cpfs_mode :: string
  cpfs_provider_ref :: "local_object_ref option"
  cpfs_distro_name :: string
  cpfs_distro_ref :: "local_object_ref option"
  cpfs_autoinstall :: string
  cpfs_kernel_options :: string
  cpfs_autoinstall_meta :: "(string \<times> string) list"
  cpfs_enable_menu :: "bool option"

record cobbler_profile_status =
  cpfst_cobbler_id :: string
  cpfst_found :: bool
  cpfst_distro_name :: string
  cpfst_observed_generation :: int
  cpfst_conditions :: "condition list"

record cobbler_profile = k8s_object +
  cprofile_spec :: cobbler_profile_spec
  cprofile_status :: cobbler_profile_status

record cobbler_interface =
  ci_name :: string
  ci_mac_address :: string
  ci_ip_address :: string
  ci_dns_name :: string
  ci_management :: bool

record cobbler_system_spec =
  csys_name :: string
  csys_hostname :: string
  csys_mode :: string
  csys_provider_ref :: "local_object_ref option"
  csys_profile_name :: string
  csys_profile_ref :: "local_object_ref option"
  csys_interfaces :: "cobbler_interface list"
  csys_autoinstall_meta :: "(string \<times> string) list"
  csys_server :: string
  csys_comment :: string

record cobbler_system_status =
  csyst_cobbler_id :: string
  csyst_found :: bool
  csyst_profile_name :: string
  csyst_netboot_enabled :: "bool option"
  csyst_observed_generation :: int
  csyst_conditions :: "condition list"

record cobbler_system = k8s_object +
  csystem_spec :: cobbler_system_spec
  csystem_status :: cobbler_system_status

section \<open>Configuration files (\<^verbatim>\<open>config_types.go\<close>)\<close>

record config_file_spec =
  cf_channel_ref :: local_object_ref
  cf_path :: string
  cf_type :: string
  cf_contents :: string
  cf_contents_from :: "local_object_ref option"
  cf_target_path :: string
  cf_owner :: string
  cf_group :: string
  cf_permissions :: string
  cf_selinux_context :: string
  cf_macro :: bool
  cf_organization_ref :: "local_object_ref option"

record config_file_status =
  cfs_revision :: int
  cfs_content_hash :: string
  cfs_observed_generation :: int
  cfs_conditions :: "condition list"

record config_file = k8s_object +
  cfile_spec :: config_file_spec
  cfile_status :: config_file_status

section \<open>Configuration channels (\<^verbatim>\<open>configurationchannel_types.go\<close>)\<close>

record configuration_channel_spec =
  cch_id :: string
  cch_name :: string
  cch_description :: string
  cch_type :: string
  cch_cluster :: string
  cch_organization_ref :: string
  cch_url :: string
  cch_repository_type :: string
  cch_auto_sync :: "bool option"
  cch_repository_ref :: string
  cch_repository_path :: string
  cch_auth :: "basic_auth_ref option"
  cch_sync_schedule :: string

record configuration_channel_status =
  cchs_uyuni_id :: int
  cchs_observed_generation :: int
  cchs_conditions :: "condition list"
  cchs_last_sync_time :: "int option"
  cchs_synced_file_count :: int
  cchs_sync_status :: string
  cchs_repository_hash :: string
  cchs_synced_files :: "string list"

record configuration_channel = k8s_object +
  cchan_spec :: configuration_channel_spec
  cchan_status :: configuration_channel_status

section \<open>Custom info keys (\<^verbatim>\<open>custominfokey_types.go\<close>)\<close>

record custom_info_key_spec =
  cik_label :: string
  cik_description :: string
  cik_organization_ref :: "local_object_ref option"

record custom_info_key_status =
  ciks_uyuni_id :: int
  ciks_observed_generation :: int
  ciks_conditions :: "condition list"

record custom_info_key = k8s_object +
  cikey_spec :: custom_info_key_spec
  cikey_status :: custom_info_key_status

section \<open>Images (\<^verbatim>\<open>image_types.go\<close>)\<close>

record image_store_spec =
  ist_label :: string
  ist_type :: string
  ist_uri :: string
  ist_credentials_secret_ref :: "local_object_ref option"
  ist_organization_ref :: "local_object_ref option"

record image_store_status =
  ists_uyuni_id :: int
  ists_observed_generation :: int
  ists_conditions :: "condition list"

record image_store = k8s_object +
  istore_spec :: image_store_spec
  istore_status :: image_store_status

record git_source =
  gs_repository :: string
  gs_reference :: string
  gs_path :: string

record image_retention =
  ir_keep_last_succeeded :: int
  ir_keep_last_failed :: int

record image_profile_spec =
  ip_label :: string
  ip_type :: string
  ip_store_ref :: "local_object_ref option"
  ip_activation_key_ref :: "local_object_ref option"
  ip_url :: string
  ip_git :: "git_source option"
  ip_auth :: "basic_auth_ref option"
  ip_custom_info :: "(string \<times> string) list"
  ip_build_policy :: string
  ip_build_host_ref :: "local_object_ref option"
  ip_kiwi_options :: string
  ip_organization_ref :: "local_object_ref option"
  ip_retention :: "image_retention option"

record image_file =
  imf_name :: string
  imf_type :: string
  imf_url :: string

record image_build_record =
  ibr_build_id :: int
  ibr_version :: string
  ibr_revision :: int
  ibr_started_at :: "int option"
  ibr_completed_at :: "int option"
  ibr_status :: string
  ibr_failure_reason :: string
  ibr_trigger :: string
  ibr_checksum :: string
  ibr_files :: "image_file list"
  ibr_image_url :: string

record image_profile_status =
  ips_uyuni_id :: int
  ips_last_build :: "image_build_record option"
  ips_last_build_name :: string
  ips_boot_image :: string
  ips_applied_kiwi_options :: string
  ips_observed_generation :: int
  ips_conditions :: "condition list"

record image_profile = k8s_object +
  iprof_spec :: image_profile_spec
  iprof_status :: image_profile_status

record image_build_spec =
  ibs_profile_ref :: local_object_ref
  ibs_version :: string
  ibs_build_host_ref :: "local_object_ref option"
  ibs_earliest :: "int option"
  ibs_timeout_minutes :: int

record image_build_status =
  ibst_action_id :: int
  ibst_image_id :: int
  ibst_baseline_image_id :: int
  ibst_name :: string
  ibst_version :: string
  ibst_revision :: int
  ibst_started_at :: "int option"
  ibst_build_status :: string
  ibst_files :: "image_file list"
  ibst_image_url :: string
  ibst_checksum :: string
  ibst_observed_generation :: int
  ibst_conditions :: "condition list"

record image_build = k8s_object +
  ibuild_spec :: image_build_spec
  ibuild_status :: image_build_status

section \<open>Package clean-up (\<^verbatim>\<open>packagecleanup_types.go\<close>)\<close>

record cleanup_policy_spec =
  pc_organization_ref :: "local_object_ref option"
  pc_min_orphan_age_days :: int
  pc_dry_run :: bool
  pc_max_delete_per_run :: int
  pc_batch_interval_seconds :: int

record cleanup_policy_status =
  pcs_last_run_time :: "int option"
  pcs_candidates_found :: int
  pcs_skipped_too_recent :: int
  pcs_skipped_errata_linked :: int
  pcs_skipped_installed :: int
  pcs_deleted_this_run :: int
  pcs_remaining_candidates :: int
  pcs_observed_generation :: int
  pcs_conditions :: "condition list"

record cleanup_policy = k8s_object +
  pclean_spec :: cleanup_policy_spec
  pclean_status :: cleanup_policy_status

section \<open>Proxies (\<^verbatim>\<open>proxy_types.go\<close>)\<close>

record proxy_spec =
  px_provider_ref :: local_object_ref
  px_fqdn :: string
  px_parent_server :: string
  px_ssh_port :: int
  px_max_cache_mb :: int
  px_email :: string
  px_tls_secret_ref :: "local_object_ref option"

record proxy_status =
  pxs_secret_name :: string
  pxs_files :: "string list"
  pxs_config :: string
  pxs_input_hash :: string
  pxs_generated_at :: "int option"
  pxs_observed_generation :: int
  pxs_conditions :: "condition list"

record proxy = k8s_object +
  pxy_spec :: proxy_spec
  pxy_status :: proxy_status

end
