(* ===== verification/Organization_Controller.thy ===== *)
theory Organization_Controller
  imports Client_Pool Pass_Steps Samples Webhooks_Projects Api_Content
begin

text \<open>
  \<^verbatim>\<open>organization_controller.go\<close>: an organization is created in Uyuni, adopted by name or imported by
  id, and removed again once nothing in the cluster needs it.  Its state in Uyuni is shared by all
  resources on that server, so the reconciler looks at the other organizations before it adopts or
  deletes one.
\<close>

section \<open>World and calls\<close>

definition organization_kind :: "(('a) organization_scheme, organization_status) kind_ops" where
  "organization_kind = \<lparr>status_of = org_status, with_status = \<lambda>st o'. o'\<lparr>org_status := st\<rparr>\<rparr>"

interpretation organization_status_field: status_field organization_kind
  by unfold_locales (simp_all add: organization_kind_def k8s_object.defs)

record org_details =
  odt_id :: int
  odt_name :: string

text \<open>\<open>EvictOrganization\<close> is \<^verbatim>\<open>r.Clients.InvalidateOrg\<close>, which cannot fail.\<close>

datatype org_call =
    UpdateOrganizationName int string
  | CreateOrganization string string string string string string
  | DeleteOrganization int
  | EvictOrganization string

text \<open>The resources \<^verbatim>\<open>organizationDependent\<close> lists, in its order.\<close>

record org_dependents =
  od_keys :: "go_error + activation_key list"
  od_groups :: "go_error + system_group list"
  od_repositories :: "go_error + repository list"
  od_channels :: "go_error + software_channel list"
  od_config_channels :: "go_error + configuration_channel list"
  od_projects :: "go_error + content_project list"
  od_promotions :: "go_error + promotion list"
  od_environments :: "go_error + clm_environment list"
  od_systems :: "go_error + uyuni_system list"
  od_tasks :: "go_error + task list"
  od_distributions :: "go_error + distribution list"
  od_autoinstall_profiles :: "go_error + autoinstall_profile list"
  od_image_profiles :: "go_error + image_profile list"

record org_world =
  ow_ssc :: set_cond
  ow_operator_ns :: string
  ow_pool :: pool_world
  ow_client :: "go_error option"
  ow_by_id :: "int \<Rightarrow> go_error + org_details"
  ow_by_name :: "string \<Rightarrow> go_error + org_details"
  ow_created :: int
  ow_all :: "go_error + organization list"
  ow_deps :: org_dependents
  ow_out :: answers

type_synonym org_pass = "(organization, org_call) pass"

type_synonym org_outcome = "(organization, org_call) outcome"

definition org_kit :: "org_world \<Rightarrow> (organization, organization_status) kit" where
  "org_kit w = \<lparr>kit_ops = organization_kind, kit_conditions = orgs_conditions_update,
     kit_ssc = ow_ssc w, kit_out = ow_out w\<rparr>"

definition same_resource :: "organization \<Rightarrow> organization \<Rightarrow> bool" where
  "same_resource a b = (obj_namespace a = obj_namespace b \<and> obj_name a = obj_name b)"

definition provider_name :: "organization \<Rightarrow> string" where
  "provider_name org = lor_name (org_provider_ref (org_spec org))"

section \<open>Looking at the other organizations\<close>

definition org_providerURL :: "org_world \<Rightarrow> string \<Rightarrow> go_error + string" where
  "org_providerURL w n = (case pw_provider (ow_pool w) n of Inl e \<Rightarrow> Inl e | Inr prov \<Rightarrow> Inr (prov_url (prov_spec prov)))"

definition realized_twin :: "org_world \<Rightarrow> string \<Rightarrow> organization \<Rightarrow> organization \<Rightarrow> bool" where
  "realized_twin w myURL org other =
     (\<not> same_resource other org \<and> org_import (org_spec other) = None \<and>
      org_name (org_spec other) = org_name (org_spec org) \<and> orgs_uyuni_org_id (org_status other) \<noteq> 0 \<and>
      org_providerURL w (provider_name other) = Inr myURL)"

definition findRealizedDuplicate :: "org_world \<Rightarrow> organization \<Rightarrow> go_error + (string \<times> int)" where
  "findRealizedDuplicate w org =
     (case org_providerURL w (provider_name org) of
        Inl _ \<Rightarrow> Inr ([], 0)
      | Inr myURL \<Rightarrow>
          (case ow_all w of
             Inl e \<Rightarrow> Inl e
           | Inr items \<Rightarrow>
               (case find (realized_twin w myURL org) items of
                  None \<Rightarrow> Inr ([], 0)
                | Some other \<Rightarrow> Inr (obj_namespace other @ ''/'' @ obj_name other,
                    orgs_uyuni_org_id (org_status other)))))"

definition sharedByOther :: "org_world \<Rightarrow> organization \<Rightarrow> go_error + bool" where
  "sharedByOther w org =
     (case ow_all w of
        Inl e \<Rightarrow> Inl e
      | Inr items \<Rightarrow> Inr (list_ex (\<lambda>other. \<not> same_resource other org \<and> \<not> obj_deleting other \<and>
          orgs_uyuni_org_id (org_status other) \<noteq> 0 \<and>
          orgs_uyuni_org_id (org_status other) = orgs_uyuni_org_id (org_status org)) items))"

definition refs_org :: "string \<Rightarrow> local_object_ref option \<Rightarrow> bool" where
  "refs_org n ref = (case ref of None \<Rightarrow> False | Some r \<Rightarrow> lor_name r = n)"

definition dep_in ::
  "string \<Rightarrow> (('x) k8s_object_scheme \<Rightarrow> bool) \<Rightarrow> go_error + ('x) k8s_object_scheme list \<Rightarrow>
   go_error + string \<Rightarrow> go_error + string" where
  "dep_in kind refers items rest =
     (case items of
        Inl e \<Rightarrow> Inl e
      | Inr xs \<Rightarrow> (case find refers xs of
            Some x \<Rightarrow> Inr (kind @ '' '' @ go_quote (obj_name x)) | None \<Rightarrow> rest))"

definition organizationDependent :: "org_dependents \<Rightarrow> organization \<Rightarrow> go_error + string" where
  "organizationDependent d org =
     (let hit = refs_org (obj_name org) in
      dep_in ''ActivationKey'' (\<lambda>x. hit (ak_organization_ref (ak_spec x))) (od_keys d)
     (dep_in ''SystemGroup'' (\<lambda>x. hit (sg_organization_ref (sg_spec x))) (od_groups d)
     (dep_in ''Repository'' (\<lambda>x. hit (rp_organization_ref (repo_spec x))) (od_repositories d)
     (dep_in ''SoftwareChannel'' (\<lambda>x. hit (sc_organization_ref (sc_spec x))) (od_channels d)
     (dep_in ''ConfigurationChannel'' (\<lambda>x. cch_organization_ref (cchan_spec x) = obj_name org) (od_config_channels d)
     (dep_in ''ContentProject'' (\<lambda>x. hit (cp_organization_ref (cp_spec x))) (od_projects d)
     (dep_in ''ContentProjectPromotion'' (\<lambda>x. hit (pr_organization_ref (pr_spec x))) (od_promotions d)
     (dep_in ''ClmEnvironment'' (\<lambda>x. hit (env_organization_ref (env_spec x))) (od_environments d)
     (dep_in ''System'' (\<lambda>x. hit (sys_organization_ref (sys_spec x))) (od_systems d)
     (dep_in ''Task'' (\<lambda>x. hit (tk_organization_ref (tk_spec x))) (od_tasks d)
     (dep_in ''AutoinstallDistribution'' (\<lambda>x. hit (ad_organization_ref (dist_spec x))) (od_distributions d)
     (dep_in ''AutoinstallProfile'' (\<lambda>x. hit (ap_organization_ref (prof_spec x))) (od_autoinstall_profiles d)
     (dep_in ''ImageProfile'' (\<lambda>x. hit (ip_organization_ref (iprof_spec x))) (od_image_profiles d)
        (Inr []))))))))))))))"

section \<open>The pass\<close>

definition snapshotProvider :: "org_world \<Rightarrow> organization \<Rightarrow> organization_status \<Rightarrow> go_error + organization_status" where
  "snapshotProvider w org st =
     (case pw_provider (ow_pool w) (provider_name org) of
        Inl e \<Rightarrow> Inl (wrap_err (''getting UyuniProvider '' @ go_quote (provider_name org) @ '': '') e)
      | Inr prov \<Rightarrow>
          let local = (\<lambda>r. r\<lparr>sr_namespace := secret_ns (ow_operator_ns w) r\<rparr>)
          in Inr (st\<lparr>orgs_provider_url := prov_url (prov_spec prov),
               orgs_provider_insecure := prov_insecure_skip_verify (prov_spec prov),
               orgs_provider_credentials := Some (local (prov_credentials (prov_spec prov))),
               orgs_provider_ca_cert := map_option local (prov_ca_cert (prov_spec prov))\<rparr>))"

text \<open>\<^verbatim>\<open>createOrg\<close>: the call, and the error that precedes it when the Secret is not usable.\<close>

definition or_default :: "string \<Rightarrow> string \<Rightarrow> string" where
  "or_default s d = (if s = [] then d else s)"

definition createOrg :: "org_world \<Rightarrow> organization \<Rightarrow> go_error + org_call" where
  "createOrg w org =
     (case org_credentials_secret_ref (org_spec org) of
        None \<Rightarrow> Inl (errorf ''credentialsSecretRef is required to create a new organization (set spec.import to adopt an existing one)'')
      | Some ref \<Rightarrow>
          (case pw_secret (ow_pool w) (obj_namespace org) (lor_name ref) of
             Inl e \<Rightarrow> Inl (wrap_err ''reading credentials secret: '' e)
           | Inr data \<Rightarrow>
               let get = map_get data []; username = get ''username''; password = get ''password''
               in if username = [] \<or> password = []
                  then Inl (errorf ''credentials secret must contain non-empty 'username' and 'password' keys'')
                  else Inr (CreateOrganization (org_name (org_spec org)) username password
                    (or_default (get ''firstName'') ''Org'') (or_default (get ''lastName'') ''Admin'')
                    (or_default (get ''email'') (username @ ''@uyuni.local'')))))"

definition org_set_id :: "org_world \<Rightarrow> int \<Rightarrow> org_pass \<Rightarrow> org_pass" where
  "org_set_id w i = set_st (org_kit w) (\<lambda>st. st\<lparr>orgs_uyuni_org_id := i\<rparr>)"

definition org_finish :: "org_world \<Rightarrow> org_pass \<Rightarrow> org_outcome" where
  "org_finish w s =
     (let s1 = effect (EvictOrganization (org_key (obj_namespace (mem s)) (obj_name (mem s)))) s;
          s2 = set_st (org_kit w) (\<lambda>st. st\<lparr>orgs_observed_generation := obj_generation (mem s1)\<rparr>) s1
      in save_and (org_kit w) (result_after (10 * minute)) (become (org_kit w) True ''Reconciled'' [] s2))"

definition org_wait :: "org_world \<Rightarrow> string \<Rightarrow> string \<Rightarrow> int \<Rightarrow> org_pass \<Rightarrow> org_outcome" where
  "org_wait w reason msg after s =
     save_and (org_kit w) (result_after after) (become (org_kit w) False reason msg s)"

definition org_import_step :: "org_world \<Rightarrow> int \<Rightarrow> org_pass \<Rightarrow> org_outcome" where
  "org_import_step w i s =
     (case ow_by_id w i of
        Inl e \<Rightarrow> fail_with (org_kit w) ''LookupFailed'' e s
      | Inr d \<Rightarrow> org_finish w (org_set_id w (odt_id d) s))"

definition org_realized_step :: "org_world \<Rightarrow> org_pass \<Rightarrow> org_outcome" where
  "org_realized_step w s =
     (let i = orgs_uyuni_org_id (org_status (mem s)) in
      case ow_by_id w i of
        Inl e \<Rightarrow>
          if is_uyuni_not_found e
          then org_wait w ''OrganizationMissing'' (''Uyuni organization '' @ itoa i
                 @ '' is no longer found; it was removed outside of this CR's lifecycle'') (5 * minute) s
          else fail_with (org_kit w) ''LookupFailed'' e s
      | Inr d \<Rightarrow>
          if odt_name d \<noteq> org_name (org_spec (mem s))
          then call_or (ow_out w) (UpdateOrganizationName (odt_id d) (org_name (org_spec (mem s))))
                 (fail_with (org_kit w) ''UpdateFailed'') (org_finish w) s
          else org_finish w s)"

definition org_adopt_step :: "org_world \<Rightarrow> org_pass \<Rightarrow> org_outcome" where
  "org_adopt_step w s =
     (case findRealizedDuplicate w (mem s) of
        Inl e \<Rightarrow> return_error e s
      | Inr (other, otherID) \<Rightarrow>
          if other \<noteq> []
          then org_wait w ''DuplicateOrganization'' (''Organization '' @ other @ '' already manages Uyuni org ''
                 @ itoa otherID @ '' with name '' @ go_quote (org_name (org_spec (mem s)))
                 @ '' on this Uyuni server; rename one of them or adopt the existing org via spec.import'')
                 (5 * minute) s
          else case ow_by_name w (org_name (org_spec (mem s))) of
            Inr d \<Rightarrow> org_finish w (org_set_id w (odt_id d) s)
          | Inl e \<Rightarrow>
              if \<not> is_uyuni_not_found e then return_error e s
              else case createOrg w (mem s) of
                Inl err \<Rightarrow> fail_with (org_kit w) ''CreateFailed'' err s
              | Inr create \<Rightarrow> call_or (ow_out w) create (fail_with (org_kit w) ''CreateFailed'')
                  (\<lambda>s1. org_finish w (org_set_id w (ow_created w) s1)) s)"

definition org_realize :: "org_world \<Rightarrow> org_pass \<Rightarrow> org_outcome" where
  "org_realize w s =
     (case org_import (org_spec (mem s)) of
        Some imp \<Rightarrow> org_import_step w (oi_organization_id imp) s
      | None \<Rightarrow>
          if orgs_uyuni_org_id (org_status (mem s)) \<noteq> 0 then org_realized_step w s
          else org_adopt_step w s)"

definition org_release :: "org_world \<Rightarrow> org_pass \<Rightarrow> org_outcome" where
  "org_release w s = release (org_kit w) orgFinalizer
     (effect (EvictOrganization (org_key (obj_namespace (mem s)) (obj_name (mem s)))) s)"

text \<open>The client for the deletion: from the snapshot in the status, or else from the pool.\<close>

definition clientFromSnapshot :: "org_world \<Rightarrow> organization \<Rightarrow> go_error option" where
  "clientFromSnapshot w org =
     (let st = org_status org in
      case orgs_provider_credentials st of
        None \<Rightarrow> ow_client w
      | Some ref \<Rightarrow>
          if orgs_provider_url st = [] then ow_client w
          else case credentials (ow_pool w) (sr_namespace ref) (sr_name ref) ''reading provider credentials secret''
                 ''provider credentials secret must contain non-empty 'username' and 'password' keys'' of
            Inl e \<Rightarrow> Some e
          | Inr (u, p) \<Rightarrow>
              (case ca_cert (ow_pool w) (ref_ns (orgs_provider_ca_cert st)) ''reading provider CA cert secret''
                      (orgs_provider_ca_cert st) of
                 Inl e \<Rightarrow> Some e
               | Inr cert \<Rightarrow> pw_connect (ow_pool w) \<lparr>ac_url = orgs_provider_url st, ac_user = u, ac_pass = p,
                   ac_insecure = orgs_provider_insecure st, ac_ca = cert\<rparr>))"

definition org_delete_remote :: "org_world \<Rightarrow> org_pass \<Rightarrow> org_outcome" where
  "org_delete_remote w s =
     (case sharedByOther w (mem s) of
        Inl e \<Rightarrow> return_error e s
      | Inr True \<Rightarrow> org_release w s
      | Inr False \<Rightarrow>
          (case clientFromSnapshot w (mem s) of
             Some e \<Rightarrow> return_error e s
           | None \<Rightarrow> call_or (ow_out w) (DeleteOrganization (orgs_uyuni_org_id (org_status (mem s))))
               (\<lambda>e s1. if is_uyuni_not_found e then org_release w s1 else return_error e s1)
               (org_release w) s))"

definition org_handleDeletion :: "org_world \<Rightarrow> org_pass \<Rightarrow> org_outcome" where
  "org_handleDeletion w s =
     (let org = mem s in
      if \<not> containsFinalizer org orgFinalizer then (result_done, None, s)
      else if has_annotation org AnnForceDelete then release (org_kit w) orgFinalizer s
      else case organizationDependent (ow_deps w) org of
        Inl e \<Rightarrow> return_error e s
      | Inr blocker \<Rightarrow>
          if blocker \<noteq> []
          then org_wait w ''InUse'' (''waiting for '' @ blocker
                 @ '' to finish its own cleanup before deleting Organization'') (10 * second) s
          else if org_import (org_spec org) = None \<and> orgs_uyuni_org_id (org_status org) > 0
          then org_delete_remote w s
          else org_release w s)"

definition org_Reconcile :: "org_world \<Rightarrow> organization \<Rightarrow> org_outcome" where
  "org_Reconcile w org =
     (let s = start_pass org in
      if obj_deleting org then org_handleDeletion w s
      else with_finalizer (org_kit w) orgFinalizer (\<lambda>s.
        case ow_client w of
          Some e \<Rightarrow> fail_with (org_kit w) ''ProviderError'' e s
        | None \<Rightarrow>
            (case snapshotProvider w org (org_status org) of
               Inl e \<Rightarrow> fail_with (org_kit w) ''ProviderError'' e s
             | Inr st \<Rightarrow> org_realize w (set_st (org_kit w) (\<lambda>_. st) s))) s)"

section \<open>What one pass does to the stored resource\<close>

lemma organization_kind_simps [simp]:
  "status_of organization_kind x = org_status x"
  "with_status organization_kind st x = x\<lparr>org_status := st\<rparr>"
  by (simp_all add: organization_kind_def)

lemma org_kit_simps [simp]:
  "kit_ops (org_kit w) = organization_kind" "kit_out (org_kit w) = ow_out w"
  "kit_ssc (org_kit w) = ow_ssc w" "kit_conditions (org_kit w) = orgs_conditions_update"
  by (simp_all add: org_kit_def)

text \<open>
  The identity and the spec of the resource stay, and its organization id stays within \<open>P\<close>, in
  memory and in the API server.
\<close>

definition same_org :: "organization \<Rightarrow> organization \<Rightarrow> bool" where
  "same_org org x = (org_spec x = org_spec org \<and> same_resource x org)"

lemma same_org_simps [simp]:
  "same_org org (x\<lparr>org_status := st\<rparr>) = same_org org x"
  "same_org org (removeFinalizer x fin) = same_org org x"
  "org_status (removeFinalizer x fin) = org_status x"
  by (simp_all add: same_org_def same_resource_def removeFinalizer_def)

definition org_like :: "(int \<Rightarrow> bool) \<Rightarrow> organization \<Rightarrow> organization \<Rightarrow> bool" where
  "org_like P org x = (same_org org x \<and> P (orgs_uyuni_org_id (org_status x)))"

definition stays :: "(int \<Rightarrow> bool) \<Rightarrow> organization \<Rightarrow> org_pass \<Rightarrow> bool" where
  "stays P org s = (org_like P org (mem s) \<and> (case stored s of None \<Rightarrow> True | Some x \<Rightarrow> org_like P org x))"

lemma stays_write_status:
  "stays P org s \<Longrightarrow> stays P org (snd (write_status out organization_kind s))"
  by (cases "stored s") (simp_all add: stays_def org_like_def)

lemma stays_write_object:
  "stays P org s \<Longrightarrow> stays P org (snd (write_object out organization_kind s))"
  by (cases "stored s") (simp_all add: stays_def org_like_def collected_def)

lemma stays_set_st:
  "stays P org s \<Longrightarrow> (\<And>st. P (orgs_uyuni_org_id st) \<Longrightarrow> P (orgs_uyuni_org_id (f st))) \<Longrightarrow>
     stays P org (set_st (org_kit w) f s)"
  by (simp add: stays_def org_like_def set_st_def)

lemma stays_set_id: "stays P org s \<Longrightarrow> P i \<Longrightarrow> stays P org (org_set_id w i s)"
  unfolding org_set_id_def by (erule stays_set_st) simp

lemma stays_become: "stays P org s \<Longrightarrow> stays P org (become (org_kit w) ok r m s)"
  unfolding become_def by (erule stays_set_st) simp

lemma stays_calls [simp]:
  "stays P org (try_call out u s) = stays P org s" "stays P org (effect u s) = stays P org s"
  by (simp_all add: stays_def)

lemma stays_outcomes:
  assumes "stays P org s"
  shows "stays P org (pass_of (fail_with (org_kit w) r e s))"
    and "stays P org (pass_of (save_and (org_kit w) res s))"
    and "stays P org (pass_of (release (org_kit w) fin s))"
proof -
  have fin: "stays P org (s\<lparr>mem := removeFinalizer (mem s) fin\<rparr>)"
    using assms by (simp add: stays_def org_like_def)
  show "stays P org (pass_of (fail_with (org_kit w) r e s))"
    using stays_write_status [OF stays_become [OF assms]] by (simp add: fail_with_def)
  show "stays P org (pass_of (save_and (org_kit w) res s))"
    using stays_write_status [OF assms] by (simp add: save_and_eq split: option.split)
  show "stays P org (pass_of (release (org_kit w) fin s))"
    using stays_write_object [OF fin] by (simp add: release_eq Let_def)
qed

lemma stays_finish: "stays P org s \<Longrightarrow> stays P org (pass_of (org_finish w s))"
  unfolding org_finish_def Let_def by (intro stays_outcomes stays_become stays_set_st) simp_all

lemma stays_wait: "stays P org s \<Longrightarrow> stays P org (pass_of (org_wait w r m a s))"
  unfolding org_wait_def by (intro stays_outcomes stays_become)

lemma stays_release: "stays P org s \<Longrightarrow> stays P org (pass_of (org_release w s))"
  unfolding org_release_def by (intro stays_outcomes) simp

lemma stays_return: "stays P org s \<Longrightarrow> stays P org (pass_of (return_error e s))"
  by (simp add: return_error_def)

lemmas stays_intros = stays_finish stays_wait stays_release stays_return stays_outcomes stays_set_id

lemma stays_deletion: "stays P org s \<Longrightarrow> stays P org (pass_of (org_handleDeletion w s))"
  unfolding org_handleDeletion_def org_delete_remote_def Let_def call_or_eq
  by (simp add: stays_intros split: sum.split option.split bool.split)

lemma stays_realized: "stays P org s \<Longrightarrow> stays P org (pass_of (org_realized_step w s))"
  unfolding org_realized_step_def Let_def call_or_eq by (simp add: stays_intros split: sum.split)

text \<open>The id an organization gets that is neither imported nor realized: looked up by its name, or created.\<close>

definition gets_by_name :: "org_world \<Rightarrow> organization \<Rightarrow> int \<Rightarrow> bool" where
  "gets_by_name w org i = (i = ow_created w \<or>
     (case ow_by_name w (org_name (org_spec org)) of Inl _ \<Rightarrow> False | Inr d \<Rightarrow> i = odt_id d))"

lemma stays_adopt:
  assumes "stays P org s"
    and "\<And>x i. findRealizedDuplicate w (mem s) = Inr ([], x) \<Longrightarrow> gets_by_name w (mem s) i \<Longrightarrow> P i"
  shows "stays P org (pass_of (org_adopt_step w s))"
proof (cases "findRealizedDuplicate w (mem s)")
  case (Inr d)
  then show ?thesis using assms
    by (cases d) (simp add: org_adopt_step_def call_or_eq stays_intros gets_by_name_def split: sum.split)
qed (simp add: org_adopt_step_def assms stays_intros)

text \<open>
  A pass gives a resource without an id one only when it is imported, or when it has no realized
  twin and the id is the one of its name.
\<close>

definition may_get :: "org_world \<Rightarrow> organization \<Rightarrow> int \<Rightarrow> bool" where
  "may_get w org i = (i = orgs_uyuni_org_id (org_status org) \<or> org_import (org_spec org) \<noteq> None \<or>
     gets_by_name w org i \<and>
     (\<forall>myURL. org_providerURL w (provider_name org) = Inr myURL \<longrightarrow>
        (\<exists>items. ow_all w = Inr items \<and> (\<forall>other \<in> set items. \<not> realized_twin w myURL org other))))"

lemma stays_realize:
  assumes "stays (may_get w org) org s"
  shows "stays (may_get w org) org (pass_of (org_realize w s))"
proof (cases "org_import (org_spec org)")
  case (Some imp)
  then have "may_get w org i" for i by (simp add: may_get_def)
  moreover have "org_spec (mem s) = org_spec org" using assms by (simp add: stays_def org_like_def same_org_def)
  ultimately show ?thesis using assms Some
    by (simp add: org_realize_def org_import_step_def stays_intros split: sum.split)
next
  case None
  then have sp: "org_spec (mem s) = org_spec org" "same_resource (mem s) org"
    using assms by (simp_all add: stays_def org_like_def same_org_def)
  have twin: "realized_twin w u (mem s) other = realized_twin w u org other" for u other
    using sp by (simp add: realized_twin_def same_resource_def)
  then have twin_fun: "realized_twin w u (mem s) = realized_twin w u org" for u by (simp add: fun_eq_iff)
  have may: "may_get w org i" if dup: "findRealizedDuplicate w (mem s) = Inr ([], x)"
    and named: "gets_by_name w (mem s) i" for i x
  proof -
    have "\<exists>items. ow_all w = Inr items \<and> (\<forall>other \<in> set items. \<not> realized_twin w u org other)"
      if u: "org_providerURL w (provider_name org) = Inr u" for u
    proof -
      obtain items where i: "ow_all w = Inr items" "find (realized_twin w u org) items = None"
        using dup u sp by (auto simp: findRealizedDuplicate_def provider_name_def twin_fun split: sum.splits option.splits)
      then show ?thesis by (auto simp: find_None_iff)
    qed
    moreover have "gets_by_name w org i" using named sp by (simp add: gets_by_name_def)
    ultimately show ?thesis by (auto simp: may_get_def)
  qed
  show ?thesis
    using None sp(1) assms stays_adopt [OF assms may] by (simp add: org_realize_def stays_realized)
qed

lemma org_Reconcile_stays: "stays (may_get w org) org (pass_of (org_Reconcile w org))"
proof -
  let ?P = "may_get w org" and ?s = "start_pass org :: org_pass"
  have start: "stays ?P org ?s" by (simp add: stays_def org_like_def same_org_def same_resource_def may_get_def)
  have status: "snapshotProvider w org st = Inr st' \<Longrightarrow> orgs_uyuni_org_id st' = orgs_uyuni_org_id st" for st st'
    by (auto simp: snapshotProvider_def Let_def split: sum.splits)
  have "stays ?P org (?s\<lparr>mem := snd (ensureFinalizer org orgFinalizer)\<rparr>)"
    using start by (simp add: stays_def org_like_def same_org_def same_resource_def ensureFinalizer_def)
  moreover have "stays ?P org (set_st (org_kit w) (\<lambda>_. st) ?s)" if "snapshotProvider w org (org_status org) = Inr st" for st
    using start status [OF that] by (simp add: stays_def org_like_def set_st_def)
  ultimately show ?thesis using start
    by (simp add: org_Reconcile_def with_finalizer_eq Let_def stays_write_object stays_intros stays_deletion
        stays_realize split: option.split sum.split)
qed

section \<open>No two organizations manage one organization of a server\<close>

text \<open>
  The organizations of the cluster over time: creations and edits the webhook and the schema accept,
  and passes on any organization, however their calls and writes fail.  Assumed of the cluster: the
  server URL of a provider stays and every pass can read the providers, and a pass that can list the
  organizations sees the current list.  Assumed of Uyuni: an organization id stands for one name for
  ever (\<open>called\<close>: ids are not used again, and nobody else renames an organization), the lookup by name
  answers with an organization of that name, and a created organization has the name asked for.
\<close>

definition import_ok :: "organization \<Rightarrow> bool" where
  "import_ok org = (case org_import (org_spec org) of None \<Rightarrow> True | Some i \<Rightarrow> oi_organization_id i \<ge> 1)"

definition names_kept :: "(string \<Rightarrow> string) \<Rightarrow> (string \<Rightarrow> int \<Rightarrow> string) \<Rightarrow> org_world \<Rightarrow> organization \<Rightarrow> bool" where
  "names_kept url called w org =
     (called (url (provider_name org)) (ow_created w) = org_name (org_spec org) \<and>
      (case ow_by_name w (org_name (org_spec org)) of Inl _ \<Rightarrow> True
       | Inr d \<Rightarrow> called (url (provider_name org)) (odt_id d) = org_name (org_spec org)))"

inductive org_reach :: "(string \<Rightarrow> string) \<Rightarrow> (string \<Rightarrow> int \<Rightarrow> string) \<Rightarrow> organization list \<Rightarrow> bool"
  for url called where
  org_none: "org_reach url called []"
| org_create: "org_reach url called items \<Longrightarrow> list_all (\<lambda>x. \<not> same_resource x org) items \<Longrightarrow>
    orgs_uyuni_org_id (org_status org) = 0 \<Longrightarrow> org_validateSpec org None = None \<Longrightarrow> import_ok org \<Longrightarrow>
    org_reach url called (org # items)"
| org_edit: "org_reach url called (xs @ org # ys) \<Longrightarrow> same_resource org' org \<Longrightarrow>
    org_status org' = org_status org \<Longrightarrow> org_validateSpec org' (Some org) = None \<Longrightarrow> import_ok org' \<Longrightarrow>
    org_reach url called (xs @ org' # ys)"
| org_pass: "org_reach url called (xs @ org # ys) \<Longrightarrow> (\<And>l. ow_all w = Inr l \<Longrightarrow> l = xs @ org # ys) \<Longrightarrow>
    \<forall>n. org_providerURL w n = Inr (url n) \<Longrightarrow> names_kept url called w org \<Longrightarrow>
    stored (pass_of (org_Reconcile w org)) = r \<Longrightarrow>
    org_reach url called (xs @ (case r of None \<Rightarrow> [] | Some x \<Rightarrow> [x]) @ ys)"

text \<open>The organization of Uyuni a resource manages: the server and the id; an import manages none.\<close>

definition managed :: "(string \<Rightarrow> string) \<Rightarrow> organization \<Rightarrow> (string \<times> int) option" where
  "managed url org =
     (if org_import (org_spec org) = None \<and> orgs_uyuni_org_id (org_status org) \<noteq> 0
      then Some (url (provider_name org), orgs_uyuni_org_id (org_status org)) else None)"

definition twins :: "(string \<Rightarrow> string) \<Rightarrow> organization \<Rightarrow> organization \<Rightarrow> bool" where
  "twins url a b = (org_import (org_spec a) = None \<and> org_import (org_spec b) = None \<and>
     orgs_uyuni_org_id (org_status a) \<noteq> 0 \<and> orgs_uyuni_org_id (org_status b) \<noteq> 0 \<and>
     org_name (org_spec a) = org_name (org_spec b) \<and> url (provider_name a) = url (provider_name b))"

definition apart :: "(string \<Rightarrow> string) \<Rightarrow> organization \<Rightarrow> organization \<Rightarrow> bool" where
  "apart url a b = (\<not> same_resource a b \<and> \<not> twins url a b)"

definition rightly_named :: "(string \<Rightarrow> string) \<Rightarrow> (string \<Rightarrow> int \<Rightarrow> string) \<Rightarrow> organization \<Rightarrow> bool" where
  "rightly_named url called a =
     (case managed url a of None \<Rightarrow> True | Some (u, i) \<Rightarrow> called u i = org_name (org_spec a))"

definition org_inv :: "(string \<Rightarrow> string) \<Rightarrow> (string \<Rightarrow> int \<Rightarrow> string) \<Rightarrow> organization list \<Rightarrow> bool" where
  "org_inv url called items = (sorted_wrt (apart url) items \<and>
     list_all (\<lambda>a. org_name (org_spec a) \<noteq> [] \<and> provider_name a \<noteq> [] \<and> import_ok a \<and>
       rightly_named url called a) items)"

lemma same_managed_twins:
  assumes "managed url a = Some m" "managed url b = Some m"
    and "rightly_named url called a" "rightly_named url called b"
  shows "twins url a b"
  using assms by (cases m) (auto simp: managed_def rightly_named_def twins_def split: if_splits)

lemma twins_sym: "twins url a b = twins url b a"
  by (auto simp: twins_def)

lemma same_resource_sym: "same_resource a b = same_resource b a"
  by (auto simp: same_resource_def)

lemma apart_sym: "apart url a b = apart url b a"
  unfolding apart_def by (metis twins_sym same_resource_sym)

text \<open>Replacing one element of a list that keeps its relation to the others.\<close>

lemma sorted_wrt_replace:
  assumes "sorted_wrt R (xs @ a # ys)" "\<And>x y. R x y = R y x"
    and "\<And>b. b \<in> set xs \<union> set ys \<Longrightarrow> R a b \<Longrightarrow> R a' b"
  shows "sorted_wrt R (xs @ a' # ys)"
proof -
  have "R b a'" if "b \<in> set xs" for b
    using assms(1) assms(2) [of b a] assms(2) [of b a'] assms(3) [of b] that by (simp add: sorted_wrt_append)
  moreover have "R a' b" if "b \<in> set ys" for b
    using assms(1) assms(3) [of b] that by (simp add: sorted_wrt_append)
  ultimately show ?thesis using assms(1) by (simp add: sorted_wrt_append)
qed

lemma edit_keeps_twins:
  assumes "org_validateSpec org' (Some org) = None" "org_name (org_spec org) \<noteq> []" "provider_name org \<noteq> []"
    and "import_ok org" "org_status org' = org_status org"
  shows "twins url org' b \<Longrightarrow> twins url org b"
    and "rightly_named url called org \<Longrightarrow> rightly_named url called org'"
    and "org_name (org_spec org') \<noteq> [] \<and> provider_name org' \<noteq> []"
proof -
  have v: "org_name (org_spec org') = org_name (org_spec org)" "provider_name org' = provider_name org"
    "import_id (org_spec org) \<noteq> 0 \<longrightarrow> import_id (org_spec org') = import_id (org_spec org)"
    using assms(1-3) by (auto simp: org_validateSpec_def provider_name_def Let_def split: if_splits)
  show "org_name (org_spec org') \<noteq> [] \<and> provider_name org' \<noteq> []" using v assms by simp
  have imp: "org_import (org_spec org) = None" if "org_import (org_spec org') = None"
    using that v(3) assms(4)
    by (cases "org_import (org_spec org)") (auto simp: import_id_def import_ok_def)
  show "twins url org b" if "twins url org' b"
    using that imp v assms(5) by (simp add: twins_def)
  show "rightly_named url called org'" if "rightly_named url called org"
    using that imp v assms(5) by (auto simp: rightly_named_def managed_def)
qed

lemma pass_makes_no_twin:
  assumes "org_like (may_get w org) org x" "\<And>l. ow_all w = Inr l \<Longrightarrow> l = items"
    and "\<forall>n. org_providerURL w n = Inr (url n)"
    and "b \<in> set items" "\<not> same_resource b org" "\<not> twins url org b"
  shows "\<not> twins url x b"
proof
  assume x: "twins url x b"
  have sp: "org_spec x = org_spec org" and may: "may_get w org (orgs_uyuni_org_id (org_status x))"
    using assms(1) by (simp_all add: org_like_def same_org_def)
  have "orgs_uyuni_org_id (org_status x) \<noteq> orgs_uyuni_org_id (org_status org)" "org_import (org_spec org) = None"
    using x sp assms(6) by (auto simp: twins_def provider_name_def)
  then have "\<not> realized_twin w (url (provider_name org)) org b"
    using may assms(2-4) by (auto simp: may_get_def)
  then show False using x sp assms(3,5)
    by (simp add: twins_def realized_twin_def provider_name_def)
qed

lemma pass_keeps_names:
  assumes "org_like (may_get w org) org x" "rightly_named url called org" "names_kept url called w org"
  shows "rightly_named url called x"
proof -
  have sp: "org_spec x = org_spec org" and may: "may_get w org (orgs_uyuni_org_id (org_status x))"
    using assms(1) by (simp_all add: org_like_def same_org_def)
  show ?thesis using may assms(2,3) sp
    by (auto simp: may_get_def rightly_named_def managed_def names_kept_def gets_by_name_def provider_name_def
        split: sum.splits)
qed

lemma org_inv_replace:
  assumes "org_inv url called (xs @ a # ys)" "same_resource x a"
    and "\<And>b. b \<in> set xs \<union> set ys \<Longrightarrow> \<not> same_resource b a \<Longrightarrow> \<not> twins url a b \<Longrightarrow> \<not> twins url x b"
    and "org_name (org_spec x) \<noteq> [] \<and> provider_name x \<noteq> [] \<and> import_ok x \<and> rightly_named url called x"
  shows "org_inv url called (xs @ x # ys)"
proof -
  have "same_resource x b = same_resource a b" for b
    using assms(2) by (simp add: same_resource_def)
  then have "apart url x b" if "b \<in> set xs \<union> set ys" "apart url a b" for b
    using that assms(3) [of b] by (simp add: apart_def same_resource_sym [of b a])
  then have "sorted_wrt (apart url) (xs @ x # ys)"
    using sorted_wrt_replace [of "apart url" xs a ys x] assms(1) apart_sym by (simp add: org_inv_def)
  then show ?thesis using assms(1,4) by (simp add: org_inv_def)
qed

lemma org_reach_inv: "org_reach url called items \<Longrightarrow> org_inv url called items"
proof (induction rule: org_reach.induct)
  case org_none
  show ?case by (simp add: org_inv_def)
next
  case (org_create items org)
  have "org_name (org_spec org) \<noteq> []" "provider_name org \<noteq> []"
    using org_create.hyps(4) by (auto simp: org_validateSpec_def provider_name_def Let_def split: if_splits)
  moreover have "\<not> twins url org b" for b using org_create.hyps(3) by (simp add: twins_def)
  moreover have "rightly_named url called org"
    using org_create.hyps(3) by (simp add: rightly_named_def managed_def)
  moreover have "\<not> same_resource org b" if "b \<in> set items" for b
    using org_create.hyps(2) that by (simp add: list_all_iff same_resource_sym [of org])
  ultimately show ?case using org_create.IH org_create.hyps(5) by (simp add: org_inv_def apart_def)
next
  case (org_edit xs org ys org')
  have old: "org_name (org_spec org) \<noteq> []" "provider_name org \<noteq> []" "import_ok org"
    using org_edit.IH by (auto simp: org_inv_def)
  have named: "rightly_named url called org" using org_edit.IH by (simp add: org_inv_def)
  note new = edit_keeps_twins [OF org_edit.hyps(4) old org_edit.hyps(3)]
  show ?case
    by (rule org_inv_replace [OF org_edit.IH])
      (use org_edit.hyps new(1,3) new(2) [OF named] in \<open>auto simp: same_resource_def\<close>)
next
  case (org_pass xs org ys w r)
  show ?case
  proof (cases r)
    case None
    then show ?thesis using org_pass.IH by (simp add: org_inv_def sorted_wrt_append)
  next
    case (Some x)
    then have x: "org_like (may_get w org) org x"
      using org_Reconcile_stays [of w org] org_pass.hyps(5) by (simp add: stays_def)
    have named: "rightly_named url called x"
      using pass_keeps_names [OF x _ org_pass.hyps(4)] org_pass.IH by (simp add: org_inv_def)
    have "org_inv url called (xs @ x # ys)"
    proof (rule org_inv_replace [OF org_pass.IH])
      show "same_resource x org" using x by (simp add: org_like_def same_org_def same_resource_sym)
      show "org_name (org_spec x) \<noteq> [] \<and> provider_name x \<noteq> [] \<and> import_ok x \<and> rightly_named url called x"
        using x org_pass.IH named
        by (simp add: org_like_def same_org_def org_inv_def provider_name_def import_ok_def)
      show "\<not> twins url x b" if "b \<in> set xs \<union> set ys" "\<not> same_resource b org" "\<not> twins url org b" for b
        using pass_makes_no_twin [OF x org_pass.hyps(2,3), of b] that by auto
    qed
    then show ?thesis using Some by simp
  qed
qed


definition sample_organization :: "string \<Rightarrow> int \<Rightarrow> bool \<Rightarrow> organization" where
  "sample_organization n i deleting = k8s_object.extend (sample_meta n [orgFinalizer] deleting)
     \<lparr>org_spec = \<lparr>org_name = ''Acme'', org_provider_ref = \<lparr>lor_name = ''main''\<rparr>,
        org_credentials_secret_ref = None, org_import = None\<rparr>,
      org_status = \<lparr>orgs_uyuni_org_id = i, orgs_observed_generation = 1, orgs_conditions = [], orgs_provider_url = [],
        orgs_provider_insecure = False, orgs_provider_credentials = None, orgs_provider_ca_cert = None\<rparr>\<rparr>"

definition no_dependents :: org_dependents where
  "no_dependents = \<lparr>od_keys = Inr [], od_groups = Inr [], od_repositories = Inr [], od_channels = Inr [],
     od_config_channels = Inr [], od_projects = Inr [], od_promotions = Inr [], od_environments = Inr [],
     od_systems = Inr [], od_tasks = Inr [], od_distributions = Inr [], od_autoinstall_profiles = Inr [],
     od_image_profiles = Inr []\<rparr>"

text \<open>A cluster whose one Uyuni server knows the organization 7 and nothing else.\<close>

definition org_demo_world :: "organization list \<Rightarrow> org_world" where
  "org_demo_world items = \<lparr>ow_ssc = replace_cond, ow_operator_ns = ''op'', ow_pool = demo_pool_world ''u'',
     ow_client = None, ow_by_id = \<lambda>i. Inr \<lparr>odt_id = i, odt_name = ''Acme''\<rparr>,
     ow_by_name = \<lambda>n. Inr \<lparr>odt_id = 7, odt_name = n\<rparr>, ow_created = 7, ow_all = Inr items,
     ow_deps = no_dependents, ow_out = \<lambda>_. None\<rparr>"

lemmas org_sample_simps = sample_organization_def no_dependents_def org_demo_world_def sample_simps

text \<open>
  The first of two organizations of one name adopts; the second, whose pass then sees the first,
  adopts nothing and stays unmanaged.
\<close>

definition org_after :: "organization list \<Rightarrow> organization \<Rightarrow> organization" where
  "org_after items org =
     (case stored (pass_of (org_Reconcile (org_demo_world items) org)) of Some x \<Rightarrow> x | None \<Rightarrow> org)"

definition first_organization :: organization where
  "first_organization = org_after [sample_organization ''a'' 0 False] (sample_organization ''a'' 0 False)"

definition second_organization :: organization where
  "second_organization = org_after [sample_organization ''b'' 0 False, first_organization]
     (sample_organization ''b'' 0 False)"

lemma org_demo_pass:
  assumes "org_reach (\<lambda>_. ''u'') (\<lambda>_ _. ''Acme'') (xs @ org # ys)" "org_name (org_spec org) = ''Acme''"
    and "\<not> Option.is_none (stored (pass_of (org_Reconcile (org_demo_world (xs @ org # ys)) org)))"
  shows "org_reach (\<lambda>_. ''u'') (\<lambda>_ _. ''Acme'') (xs @ org_after (xs @ org # ys) org # ys)"
proof -
  have "stored (pass_of (org_Reconcile (org_demo_world (xs @ org # ys)) org)) = Some (org_after (xs @ org # ys) org)"
    using assms(3) by (simp add: org_after_def Option.is_none_def split: option.split)
  then have "org_reach (\<lambda>_. ''u'') (\<lambda>_ _. ''Acme'')
      (xs @ (case Some (org_after (xs @ org # ys) org) of None \<Rightarrow> [] | Some x \<Rightarrow> [x]) @ ys)"
    using assms(1,2) by (intro org_pass [of _ _ xs org ys "org_demo_world (xs @ org # ys)"])
      (simp_all add: org_demo_world_def org_providerURL_def demo_pool_world_def k8s_object.defs names_kept_def)
  then show ?thesis by simp
qed


section \<open>Deletion\<close>

abbreviation org_calls :: "org_outcome \<Rightarrow> (org_call \<times> bool) list" where
  "org_calls r \<equiv> call_log (trace (pass_of r))"

lemma org_calls_of_ends [simp]:
  "org_calls (org_release w s) = call_log (trace s) @ [(EvictOrganization (org_key (obj_namespace (mem s)) (obj_name (mem s))), True)]"
  "org_calls (org_finish w s) = call_log (trace s) @ [(EvictOrganization (org_key (obj_namespace (mem s)) (obj_name (mem s))), True)]"
  "org_calls (org_wait w r m t s) = call_log (trace s)"
  "org_calls (return_error e s) = call_log (trace s)"
  by (simp_all add: org_release_def org_finish_def org_wait_def return_error_def Let_def)

lemma createOrg_creates: "createOrg w org = Inr c \<Longrightarrow> c \<noteq> DeleteOrganization i"
  by (auto simp: createOrg_def Let_def split: option.splits sum.splits if_splits)

lemma realize_deletes_nothing:
  "(DeleteOrganization i, ok) \<in> set (org_calls (org_realize w s)) \<Longrightarrow> (DeleteOrganization i, ok) \<in> set (call_log (trace s))"
  by (auto simp: org_realize_def org_import_step_def org_realized_step_def org_adopt_step_def call_or_eq Let_def
      org_set_id_def return_error_def dest!: createOrg_creates split: option.splits sum.splits if_splits)


text \<open>
  The check for other managers of the organization compares the numeric ids and not the servers:
  when a live resource on another Uyuni server happens to record the same id, the deleted resource
  loses its finalizer and its organization stays behind in Uyuni.
\<close>

theorem organization_left_behind:
  assumes "obj_deleting org" "\<not> has_annotation org AnnForceDelete" "organizationDependent (ow_deps w) org = Inr []"
    and "ow_all w = Inr items" "other \<in> set items" "\<not> same_resource other org" "\<not> obj_deleting other"
    and "orgs_uyuni_org_id (org_status other) = orgs_uyuni_org_id (org_status org)"
    and "obj_finalizers org = [orgFinalizer]" "ow_out w 1 = None"
  shows "stored (pass_of (org_Reconcile w org)) = None \<and>
    (\<forall>i. DeleteOrganization i \<notin> fst ` set (call_log (trace (pass_of (org_Reconcile w org)))))"
proof -
  let ?i = "orgs_uyuni_org_id (org_status org)"
  have shared: "sharedByOther w org = Inr True" if "?i \<noteq> 0"
    using that assms(4-8) by (auto simp: sharedByOther_def list_ex_iff)
  have "org_Reconcile w org = org_release w (start_pass org)"
    using assms(1-3,9) shared
    by (cases "?i > 0") (simp_all add: org_Reconcile_def org_handleDeletion_def org_delete_remote_def Let_def)
  then show ?thesis using assms(1,9,10)
    by (simp add: org_release_def release_eq Let_def collected_def removeFinalizer_def)
qed

definition second_server :: organization where
  "second_server = (sample_organization ''b'' 7 False)\<lparr>org_spec :=
     (org_spec (sample_organization ''b'' 7 False))\<lparr>org_provider_ref := \<lparr>lor_name = ''second''\<rparr>\<rparr>\<rparr>"

theorem organization_left_behind_witness:
  "stored (pass_of (org_Reconcile (org_demo_world [second_server]) (sample_organization ''a'' 7 True))) = None"
  using organization_left_behind [of "sample_organization ''a'' 7 True" "org_demo_world [second_server]"
    "[second_server]" second_server]
  by (simp add: org_sample_simps second_server_def organizationDependent_def dep_in_def has_annotation_def
      same_resource_def)

end
