(* ===== verification/Uyuni_Wire.thy ===== *)
theory Uyuni_Wire
  imports Uyuni_Types
begin

text \<open>
  The other structs of \<^verbatim>\<open>internal/uyuni/types.go\<close>, one record per struct and one field per field.  A
  \<^verbatim>\<open>time.Time\<close> is \<open>None\<close> when it is zero.
\<close>

record system_details =
  sd_id :: int
  sd_name :: string
  sd_minion_id :: string
  sd_hostname :: string
  sd_description :: string
  sd_contact_method :: string
  sd_base_channel_label :: string
  sd_child_channel_labels :: "string list"
  sd_base_entitlement :: string
  sd_last_checkin :: "int option"

record system_details_update =
  sdu_description :: string
  sdu_contact_method :: string

record system_profile_data =
  spd_hw_address :: string
  spd_hostname :: string

record system_group_details =
  sgd_id :: int
  sgd_name :: string
  sgd_description :: string
  sgd_system_count :: int

record activation_key_details =
  akd_key :: string
  akd_description :: string
  akd_base_channel_label :: string
  akd_child_channels :: "string list"
  akd_config_channels :: "string list"
  akd_entitlements :: "string list"
  akd_usage_limit :: int
  akd_universal_default :: bool
  akd_disabled :: bool
  akd_contact_method :: string
  akd_server_group_ids :: "int list"

record channel_details =
  chd_id :: int
  chd_label :: string
  chd_name :: string
  chd_summary :: string
  chd_description :: string
  chd_arch_name :: string
  chd_parent_channel_label :: string
  chd_checksum_label :: string
  chd_gpg_key_url :: string
  chd_gpg_key_id :: string
  chd_gpg_key_fp :: string
  chd_gpg_check :: bool
  chd_sync_status :: string

record repo_details =
  rpd_id :: int
  rpd_label :: string
  rpd_url :: string
  rpd_type :: string
  rpd_has_signed_metadata :: bool

record config_channel_details =
  ccd_id :: int
  ccd_label :: string
  ccd_name :: string
  ccd_description :: string
  ccd_type :: string

record config_file_details =
  cfd_path :: string
  cfd_type :: string
  cfd_revision :: int
  cfd_contents :: string
  cfd_target_path :: string
  cfd_owner :: string
  cfd_group :: string
  cfd_permissions :: string
  cfd_selinux_ctx :: string
  cfd_macro :: bool
  cfd_binary :: bool

record config_file_upsert =
  cfu_path :: string
  cfu_type :: string
  cfu_contents :: string
  cfu_target_path :: string
  cfu_owner :: string
  cfu_group :: string
  cfu_permissions :: string
  cfu_selinux_ctx :: string
  cfu_macro :: bool

record project_filter_info =
  pfi_state :: string
  pfi_filter :: filter_details

record filter_criteria_option =
  fco_type :: string
  fco_matcher :: string
  fco_field :: string

record image_store_details =
  isd_id :: int
  isd_label :: string
  isd_uri :: string
  isd_type :: string

record image_profile_details =
  ipd_id :: int
  ipd_label :: string
  ipd_type :: string
  ipd_store_label :: string
  ipd_activation_key :: string
  ipd_source_path :: string
  ipd_source_url :: string
  ipd_source_branch :: string
  ipd_kiwi_options :: string

record image_info =
  imi_id :: int
  imi_name :: string
  imi_version :: string
  imi_revision :: int

record image_file_detail =
  ifd_name :: string
  ifd_type :: string
  ifd_url :: string

record image_details =
  imd_id :: int
  imd_name :: string
  imd_version :: string
  imd_revision :: int
  imd_checksum :: string
  imd_build_status :: string
  imd_files :: "image_file_detail list"

record package_nevra =
  pn_name :: string
  pn_epoch :: string
  pn_version :: string
  pn_release :: string
  pn_arch :: string

record orphaned_package =
  orp_id :: int
  orp_name :: string
  orp_version :: string
  orp_release :: string
  orp_epoch :: string
  orp_arch :: string
  orp_last_modified :: "int option"

record errata_ref =
  err_advisory :: string

record system_ref =
  srf_id :: int
  srf_name :: string

record distribution_details =
  dd_id :: int
  dd_label :: string
  dd_base_path :: string
  dd_channel_label :: string
  dd_install_type :: string
  dd_kernel_options :: string
  dd_post_kernel_options :: string

record custom_info_key_details =
  ckd_id :: int
  ckd_label :: string
  ckd_description :: string

record proxy_hop =
  ph_position :: int
  ph_id :: int
  ph_hostname :: string

record proxy_container_args =
  pca_proxy_name :: string
  pca_parent_server :: string
  pca_proxy_port :: int
  pca_max_cache_mb :: int
  pca_email :: string
  pca_root_ca :: string
  pca_intermediate_cas :: "string list"
  pca_proxy_crt :: string
  pca_proxy_key :: string

record profile_create_args =
  prc_label :: string
  prc_virtualization_type :: string
  prc_tree_label :: string
  prc_kickstart_host :: string
  prc_root_password :: string
  prc_update_type :: string

record profile_import_args =
  pri_label :: string
  pri_tree_label :: string
  pri_kickstart_host :: string
  pri_contents :: string

record profile_details =
  prd_label :: string
  prd_virtualization_type :: string
  prd_tree_label :: string
  prd_update_type :: string

record profile_script =
  psc_id :: int
  psc_name :: string
  psc_contents :: string
  psc_interpreter :: string
  psc_type :: string
  psc_chroot :: bool
  psc_template :: bool
  psc_error_on_fail :: bool

record scheduled_action =
  sa_id :: int
  sa_name :: string
  sa_type :: string
  sa_status :: string
  sa_started_at :: "int option"
  sa_finished_at :: "int option"

record calendar_details =
  mcd_id :: int
  mcd_org_id :: int
  mcd_label :: string
  mcd_url :: string
  mcd_i_cal :: string

record schedule_details =
  msd_id :: int
  msd_org_id :: int
  msd_name :: string
  msd_type :: string
  msd_calendar :: "calendar_details option"

end
