(* ===== verification/System_Resolve.thy ===== *)
theory System_Resolve
  imports Channel_Resolve Pass_Steps Formula_Values Api_Content Uyuni_Wire "HOL-Library.AList"
begin

text \<open>
  What the System reconciler reads before it acts (\<^verbatim>\<open>system_controller.go\<close>): finding the system in
  Uyuni, and resolving configuration channels, groups, the installation profile and its variables,
  custom info values and the proxy.  A result \<^verbatim>\<open>(value, wait, err)\<close> is a \<open>resolve\<close>.
\<close>

section \<open>What is read\<close>

text \<open>
  Secrets and ConfigMaps hold their data in the order a \<^verbatim>\<open>range\<close> visits it.  \<open>sw_set_controller\<close> is
  \<^verbatim>\<open>controllerutil.SetControllerReference\<close>, a library function that changes the owner references of
  the object it returns and nothing else.
\<close>

record ('f) system_world =
  sw_ssc :: set_cond
  sw_legacy :: "(string \<times> string) list"
  sw_now :: int
  sw_duration :: "int \<Rightarrow> string"
  sw_client :: "go_error option"
  sw_get_org :: "organization k8s_get"
  sw_get_profile :: "autoinstall_profile k8s_get"
  sw_get_config_channel :: "configuration_channel k8s_get"
  sw_groups :: "system_group finder"
  sw_systems :: "uyuni_system finder"
  sw_channels :: "software_channel finder"
  sw_get_project :: "content_project k8s_get"
  sw_environments :: "clm_environment k8s_list"
  sw_get_info_key :: "custom_info_key k8s_get"
  sw_get_proxy :: "proxy k8s_get"
  sw_get_cobbler :: "cobbler_system k8s_get"
  sw_set_controller :: "uyuni_system \<Rightarrow> cobbler_system \<Rightarrow> go_error + cobbler_system"
  sw_reader :: "'f value_reader"
  su_details :: "int \<Rightarrow> go_error + system_details"
  su_by_minion :: "string \<Rightarrow> go_error + system_details"
  su_by_mac :: "string \<Rightarrow> go_error + system_details"
  su_id_by_name :: "string \<Rightarrow> go_error + int"
  su_base_channel :: "int \<Rightarrow> go_error + string"
  su_child_channels :: "int \<Rightarrow> go_error + string list"
  su_entitlements :: "int \<Rightarrow> go_error + string list"
  su_custom_info :: "int \<Rightarrow> go_error + (string \<times> string) list"
  su_action :: "int \<Rightarrow> go_error + scheduled_action"
  su_checkin :: "int \<Rightarrow> go_error + int"
  su_formulas :: "go_error + string list"
  su_assigned :: "int \<Rightarrow> go_error + string list"
  su_formula_data :: "int \<Rightarrow> string \<Rightarrow> go_error + (string, 'f jval) fmap"
  su_new_id :: int
  su_exists_ids :: "int list"
  su_provision_id :: int
  su_channel_action_id :: int
  su_proxy_actions :: "int list"
  sw_out :: answers

text \<open>
  \<open>get_or wait rest r\<close> is the common answer to a \<^verbatim>\<open>Get\<close>: an absent object makes the caller wait, another
  error ends it.
\<close>

definition get_or :: "string \<Rightarrow> ('o \<Rightarrow> 'r resolve) \<Rightarrow> go_error + 'o \<Rightarrow> 'r resolve" where
  "get_or wait rest r =
     (case r of
        Inl e \<Rightarrow> if ignore_not_found e = None then resolve.Wait wait else Broken e
      | Inr x \<Rightarrow> rest x)"

definition then_resolve :: "'r resolve \<Rightarrow> ('r \<Rightarrow> 's resolve) \<Rightarrow> 's resolve" where
  "then_resolve r f = (case r of Resolved x \<Rightarrow> f x | resolve.Wait w \<Rightarrow> resolve.Wait w | Broken e \<Rightarrow> Broken e)"

section \<open>Finding the system in Uyuni\<close>

definition systemMatchesSpec :: "system_spec \<Rightarrow> system_details \<Rightarrow> bool" where
  "systemMatchesSpec sp found =
     (if sd_base_entitlement found \<noteq> ''bootstrap_entitled'' \<and> sd_minion_id found \<noteq> []
      then sd_minion_id found = sys_minion_id sp
      else if sd_hostname found \<noteq> [] then sd_hostname found = sys_hostname sp
      else False)"

text \<open>The loop over the network cards: a match is returned, an error other than not-found too.\<close>

fun mac_loop :: "'f system_world \<Rightarrow> system_spec \<Rightarrow> network_interface list \<Rightarrow> go_error + system_details option" where
  "mac_loop w sp [] = Inr None"
| "mac_loop w sp (nic # nics) =
     (if ni_mac_address nic = [] then mac_loop w sp nics
      else case su_by_mac w (ni_mac_address nic) of
        Inr d \<Rightarrow> if systemMatchesSpec sp d then Inr (Some d) else mac_loop w sp nics
      | Inl e \<Rightarrow> if is_uyuni_not_found e then mac_loop w sp nics else Inl e)"

definition by_minion_or_mac :: "'f system_world \<Rightarrow> system_spec \<Rightarrow> go_error + system_details option" where
  "by_minion_or_mac w sp =
     (let macs = (if sys_pre_create sp then mac_loop w sp (sys_network sp) else Inr None) in
      case su_by_minion w (sys_minion_id sp) of
        Inr d \<Rightarrow> if systemMatchesSpec sp d then Inr (Some d) else macs
      | Inl e \<Rightarrow> if is_uyuni_not_found e then macs else Inl e)"

text \<open>
  \<^verbatim>\<open>findOrAdopt\<close>; the second component is the recorded server id afterwards.  A recorded system that
  does not match any more clears the id, and then \<^verbatim>\<open>!uyuni.IsNotFound(nil)\<close> returns at once.
\<close>

definition findOrAdopt ::
  "'f system_world \<Rightarrow> system_spec \<Rightarrow> int \<Rightarrow> (go_error + system_details option) \<times> int" where
  "findOrAdopt w sp serverID =
     (if serverID = 0 then (by_minion_or_mac w sp, serverID)
      else case su_details w serverID of
        Inr d \<Rightarrow> if systemMatchesSpec sp d then (Inr (Some d), serverID) else (Inr None, 0)
      | Inl e \<Rightarrow> if is_uyuni_not_found e then (by_minion_or_mac w sp, serverID) else (Inl e, serverID))"

definition systemProfileDisplayName :: "string \<Rightarrow> string" where
  "systemProfileDisplayName hostname = takeWhile (\<lambda>c. c \<noteq> CHR ''.'') hostname"

section \<open>Configuration channels and groups\<close>

definition add_label :: "string \<Rightarrow> string list \<Rightarrow> string list" where
  "add_label l labels = (if l \<in> set labels then labels else labels @ [l])"

fun direct_cc_loop ::
  "'f system_world \<Rightarrow> string \<Rightarrow> local_object_ref list \<Rightarrow> string list \<Rightarrow> string list resolve" where
  "direct_cc_loop w ns [] labels = Resolved labels"
| "direct_cc_loop w ns (ref # refs) labels =
     get_or (''ConfigurationChannel '' @ go_quote (lor_name ref) @ '' not found'')
       (\<lambda>cc. if cchs_uyuni_id (cchan_status cc) = 0
         then resolve.Wait (''ConfigurationChannel '' @ go_quote (lor_name ref) @ '' not yet realized'')
         else direct_cc_loop w ns refs (add_label (cch_id (cchan_spec cc)) labels))
       (sw_get_config_channel w ns (lor_name ref))"

fun group_cc_loop ::
  "'f system_world \<Rightarrow> string \<Rightarrow> local_object_ref list \<Rightarrow> string list \<Rightarrow> string list resolve" where
  "group_cc_loop w ns [] labels = Resolved labels"
| "group_cc_loop w ns (ref # refs) labels =
     (case sw_get_config_channel w ns (lor_name ref) of
        Inl e \<Rightarrow> if ignore_not_found e = None then group_cc_loop w ns refs labels else Broken e
      | Inr cc \<Rightarrow> group_cc_loop w ns refs
          (if cchs_uyuni_id (cchan_status cc) = 0 then labels else add_label (cch_id (cchan_spec cc)) labels))"

fun groups_cc_loop ::
  "'f system_world \<Rightarrow> string \<Rightarrow> local_object_ref list \<Rightarrow> string list \<Rightarrow> string list resolve" where
  "groups_cc_loop w ns [] labels = Resolved labels"
| "groups_cc_loop w ns (ref # refs) labels =
     (case findSystemGroup (sw_groups w) ns (lor_name ref) of
        Inl e \<Rightarrow> Broken e
      | Inr None \<Rightarrow> groups_cc_loop w ns refs labels
      | Inr (Some sg) \<Rightarrow> then_resolve (group_cc_loop w ns (sg_config_channel_refs (sg_spec sg)) labels)
          (groups_cc_loop w ns refs))"

definition resolveOrderedConfigChannels :: "'f system_world \<Rightarrow> uyuni_system \<Rightarrow> string list resolve" where
  "resolveOrderedConfigChannels w sys =
     then_resolve (direct_cc_loop w (obj_namespace sys) (sys_config_channel_refs (sys_spec sys)) [])
       (groups_cc_loop w (obj_namespace sys) (sys_group_refs (sys_spec sys)))"

fun group_loop ::
  "'f system_world \<Rightarrow> string \<Rightarrow> local_object_ref list \<Rightarrow> string list \<Rightarrow> string list resolve" where
  "group_loop w ns [] names = Resolved names"
| "group_loop w ns (ref # refs) names =
     (case findSystemGroup (sw_groups w) ns (lor_name ref) of
        Inl e \<Rightarrow> Broken e
      | Inr None \<Rightarrow> resolve.Wait (''SystemGroup '' @ go_quote (lor_name ref) @ '' not found'')
      | Inr (Some sg) \<Rightarrow>
          if sgs_uyuni_id (sg_status sg) = 0
          then resolve.Wait (''SystemGroup '' @ go_quote (lor_name ref) @ '' not yet realized'')
          else group_loop w ns refs (names @ [sg_name (sg_spec sg)]))"

definition resolveGroupMembership :: "'f system_world \<Rightarrow> uyuni_system \<Rightarrow> string list resolve" where
  "resolveGroupMembership w sys = group_loop w (obj_namespace sys) (sys_group_refs (sys_spec sys)) []"

section \<open>Installation profile and variables\<close>

definition resolveProfileLabel :: "'f system_world \<Rightarrow> uyuni_system \<Rightarrow> string resolve" where
  "resolveProfileLabel w sys =
     (case sys_autoinstall (sys_spec sys) of
        None \<Rightarrow> Resolved []
      | Some ai \<Rightarrow>
          if ai_profile ai \<noteq> [] then Resolved (ai_profile ai)
          else case ai_profile_ref ai of
            None \<Rightarrow> Resolved []
          | Some ref \<Rightarrow>
              get_or (''AutoinstallProfile '' @ go_quote (lor_name ref) @ '' not found'')
                (\<lambda>prof. if aps_distribution_label (prof_status prof) = []
                  then resolve.Wait (''AutoinstallProfile '' @ go_quote (lor_name ref)
                    @ '' not yet realized (no distributionLabel in status)'')
                  else Resolved (ap_label (prof_spec prof)))
                (sw_get_profile w (obj_namespace sys) (lor_name ref)))"

text \<open>The variables are a Go map, here an association list with one entry per key: a later assignment of a key replaces an earlier one.\<close>

definition put_all :: "string \<Rightarrow> (string \<times> string) list \<Rightarrow> (string \<times> string) list \<Rightarrow> (string \<times> string) list" where
  "put_all pre data out = foldl (\<lambda>m (k, v). AList.update (pre @ k) v m) out data"

fun variables_from ::
  "'f system_world \<Rightarrow> string \<Rightarrow> autoinstall_variable_source list \<Rightarrow> (string \<times> string) list \<Rightarrow> (string \<times> string) list resolve"
where
  "variables_from w ns [] out = Resolved out"
| "variables_from w ns (src # srcs) out =
     (case (avs_secret_ref src, avs_config_map_ref src) of
        (Some ref, _) \<Rightarrow> get_or (''Secret '' @ go_quote (lor_name ref) @ '' not found (variablesFrom)'')
          (\<lambda>data. variables_from w ns srcs (put_all (avs_prefix src) data out)) (vr_secret (sw_reader w) ns (lor_name ref))
      | (None, Some ref) \<Rightarrow> get_or (''ConfigMap '' @ go_quote (lor_name ref) @ '' not found (variablesFrom)'')
          (\<lambda>data. variables_from w ns srcs (put_all (avs_prefix src) data out)) (vr_config_map (sw_reader w) ns (lor_name ref))
      | (None, None) \<Rightarrow> variables_from w ns srcs out)"

definition key_of ::
  "string \<Rightarrow> string \<Rightarrow> string \<Rightarrow> string \<Rightarrow> go_error + (string \<times> string) list \<Rightarrow> string resolve" where
  "key_of kind n k var r =
     get_or (kind @ '' '' @ go_quote n @ '' not found (variable '' @ go_quote var @ '')'')
       (\<lambda>data. case map_of data k of
          None \<Rightarrow> resolve.Wait (''key '' @ go_quote k @ '' not found in '' @ kind @ '' '' @ go_quote n
            @ '' (variable '' @ go_quote var @ '')'')
        | Some v \<Rightarrow> Resolved v) r"

fun variables_set ::
  "'f system_world \<Rightarrow> string \<Rightarrow> autoinstall_variable list \<Rightarrow> (string \<times> string) list \<Rightarrow> (string \<times> string) list resolve"
where
  "variables_set w ns [] out = Resolved out"
| "variables_set w ns (v # vs) out =
     (case av_value_from v of
        None \<Rightarrow> variables_set w ns vs (AList.update (av_name v) (av_value v) out)
      | Some from \<Rightarrow>
          (case (avf_secret_key_ref from, avf_config_map_key_ref from) of
             (Some ref, _) \<Rightarrow> then_resolve
               (key_of ''Secret'' (skr_name ref) (skr_key ref) (av_name v) (vr_secret (sw_reader w) ns (skr_name ref)))
               (\<lambda>x. variables_set w ns vs (AList.update (av_name v) x out))
           | (None, Some ref) \<Rightarrow> then_resolve
               (key_of ''ConfigMap'' (cmr_name ref) (cmr_key ref) (av_name v) (vr_config_map (sw_reader w) ns (cmr_name ref)))
               (\<lambda>x. variables_set w ns vs (AList.update (av_name v) x out))
           | (None, None) \<Rightarrow> variables_set w ns vs out))"

definition resolveAutoinstallVariables :: "'f system_world \<Rightarrow> uyuni_system \<Rightarrow> (string \<times> string) list resolve" where
  "resolveAutoinstallVariables w sys =
     (case sys_autoinstall (sys_spec sys) of
        None \<Rightarrow> Resolved []
      | Some ai \<Rightarrow> then_resolve (variables_from w (obj_namespace sys) (ai_variables_from ai) [])
          (variables_set w (obj_namespace sys) (ai_variables ai)))"

definition resolveOrgID :: "'f system_world \<Rightarrow> uyuni_system \<Rightarrow> int" where
  "resolveOrgID w sys =
     (case sys_organization_ref (sys_spec sys) of
        None \<Rightarrow> 1
      | Some ref \<Rightarrow>
          (case sw_get_org w (obj_namespace sys) (lor_name ref) of
             Inl _ \<Rightarrow> 1
           | Inr org \<Rightarrow> if orgs_uyuni_org_id (org_status org) = 0 then 1 else orgs_uyuni_org_id (org_status org)))"

definition resolveProxyHost :: "'f system_world \<Rightarrow> uyuni_system \<Rightarrow> string" where
  "resolveProxyHost w sys =
     (case sys_proxy_ref (sys_spec sys) of
        None \<Rightarrow> []
      | Some ref \<Rightarrow>
          if lor_name ref = [] then []
          else case fd_get (sw_systems w) (obj_namespace sys) (lor_name ref) of
            Inl _ \<Rightarrow> []
          | Inr p \<Rightarrow> if sys_hostname (sys_spec p) \<noteq> [] then sys_hostname (sys_spec p) else sys_minion_id (sys_spec p))"

definition cobblerProviderRefForOrg :: "organization k8s_get \<Rightarrow> string \<Rightarrow> string \<Rightarrow> local_object_ref option" where
  "cobblerProviderRefForOrg getOrg ns orgName =
     (if orgName = [] then None
      else case getOrg ns orgName of
        Inl _ \<Rightarrow> None
      | Inr org \<Rightarrow>
          if lor_name (org_provider_ref (org_spec org)) = [] then None
          else Some \<lparr>lor_name = lor_name (org_provider_ref (org_spec org))\<rparr>)"

section \<open>Entitlements, custom info, proxy\<close>

definition baseEntitlements :: "string list" where
  "baseEntitlements = [''salt_entitled'', ''foreign_entitled'', ''bootstrap_entitled'', ''enterprise_entitled'',
     ''management_entitled'']"

definition filterOutBaseEntitlements :: "string list \<Rightarrow> string list" where
  "filterOutBaseEntitlements ents = filter (\<lambda>e. e \<notin> set baseEntitlements) ents"

fun info_loop ::
  "'f system_world \<Rightarrow> string \<Rightarrow> custom_info_value list \<Rightarrow> (string \<times> string) list \<Rightarrow> (string \<times> string) list resolve"
where
  "info_loop w ns [] out = Resolved out"
| "info_loop w ns (v # vs) out =
     get_or (''CustomInfoKey '' @ go_quote (lor_name (civ_key_ref v)) @ '' not found'')
       (\<lambda>key. if ciks_uyuni_id (cikey_status key) = 0
         then resolve.Wait (''CustomInfoKey '' @ go_quote (lor_name (civ_key_ref v)) @ '' not yet realized in Uyuni'')
         else info_loop w ns vs (AList.update (cik_label (cikey_spec key)) (civ_value v) out))
       (sw_get_info_key w ns (lor_name (civ_key_ref v)))"

definition resolveCustomInfoValues :: "'f system_world \<Rightarrow> uyuni_system \<Rightarrow> (string \<times> string) list resolve" where
  "resolveCustomInfoValues w sys = info_loop w (obj_namespace sys) (sys_custom_info_values (sys_spec sys)) []"

definition resolveProxyID :: "'f system_world \<Rightarrow> uyuni_system \<Rightarrow> int resolve" where
  "resolveProxyID w sys =
     (case sys_proxy_ref (sys_spec sys) of
        None \<Rightarrow> Resolved 0
      | Some ref \<Rightarrow>
          let n = lor_name ref; ns = obj_namespace sys in
          if n = [] then Resolved 0
          else case fd_get (sw_systems w) ns n of
            Inr p \<Rightarrow>
              if syss_uyuni_server_id (sys_status p) = 0
              then resolve.Wait (''proxy System '' @ go_quote n @ '' not yet registered in Uyuni'')
              else Resolved (syss_uyuni_server_id (sys_status p))
          | Inl e \<Rightarrow>
              if ignore_not_found e \<noteq> None then Broken e
              else get_or (''proxy '' @ go_quote n @ '' not found'')
                (\<lambda>p. case su_id_by_name w (px_fqdn (pxy_spec p)) of
                   Inr i \<Rightarrow> Resolved i
                 | Inl e' \<Rightarrow>
                     if is_uyuni_not_found e'
                     then resolve.Wait (''proxy '' @ go_quote n @ '' ('' @ px_fqdn (pxy_spec p)
                       @ '') not yet registered in Uyuni'')
                     else Broken e')
                (sw_get_proxy w ns n))"

section \<open>Which systems an event concerns\<close>

type_synonym requests = "(string \<times> string) list"

definition systems_where :: "(go_error + uyuni_system list) \<Rightarrow> (uyuni_system \<Rightarrow> bool) \<Rightarrow> requests" where
  "systems_where items concerned =
     (case items of
        Inl _ \<Rightarrow> []
      | Inr xs \<Rightarrow> map (\<lambda>sys. (obj_namespace sys, obj_name sys)) (filter concerned xs))"

definition refs_to :: "string \<Rightarrow> local_object_ref list \<Rightarrow> bool" where
  "refs_to n refs = list_ex (\<lambda>r. lor_name r = n) refs"

definition systemsForCustomInfoKey :: "(go_error + uyuni_system list) \<Rightarrow> string \<Rightarrow> requests" where
  "systemsForCustomInfoKey items n = systems_where items
     (\<lambda>sys. list_ex (\<lambda>v. lor_name (civ_key_ref v) = n) (sys_custom_info_values (sys_spec sys)))"

definition systemsForGroup :: "(go_error + uyuni_system list) \<Rightarrow> string \<Rightarrow> requests" where
  "systemsForGroup items n = systems_where items (\<lambda>sys. refs_to n (sys_group_refs (sys_spec sys)))"

definition systemsForConfigChannel :: "(go_error + uyuni_system list) \<Rightarrow> string \<Rightarrow> requests" where
  "systemsForConfigChannel items n = systems_where items (\<lambda>sys. refs_to n (sys_config_channel_refs (sys_spec sys)))"

definition systemsForSoftwareChannel :: "(go_error + uyuni_system list) \<Rightarrow> string \<Rightarrow> requests" where
  "systemsForSoftwareChannel items n = systems_where items
     (\<lambda>sys. (case sys_base_channel_ref (sys_spec sys) of None \<Rightarrow> False | Some r \<Rightarrow> lor_name r = n) \<or>
        refs_to n (sys_child_channel_refs (sys_spec sys)))"

definition systemsForAutoinstallProfile :: "(go_error + uyuni_system list) \<Rightarrow> string \<Rightarrow> requests" where
  "systemsForAutoinstallProfile items n = systems_where items
     (\<lambda>sys. case sys_autoinstall (sys_spec sys) of
        None \<Rightarrow> False
      | Some ai \<Rightarrow> (case ai_profile_ref ai of None \<Rightarrow> False | Some r \<Rightarrow> lor_name r = n))"

definition stringSlicesEqual :: "string list \<Rightarrow> string list \<Rightarrow> bool" where
  "stringSlicesEqual a b = (length a = length b \<and> list_all (\<lambda>s. s \<in> set a) b)"

end
