(* ===== verification/System_Controller.thy ===== *)
theory System_Controller
  imports System_Resolve
begin

text \<open>
  The System reconciler (\<^verbatim>\<open>system_controller.go\<close>): it finds the system in Uyuni, creates a profile for
  one that has not booted yet, keeps an owned CobblerSystem for the installation, and pushes the
  wanted configuration of a registered system step by step.  Every step either ends the pass (waiting,
  failing) or hands over to the next one, so a step takes the rest of the pass as an argument.
\<close>

section \<open>World and calls\<close>

definition system_kind :: "(uyuni_system, system_status) kind_ops" where
  "system_kind = \<lparr>status_of = sys_status, with_status = \<lambda>st o'. o'\<lparr>sys_status := st\<rparr>\<rparr>"

interpretation system_status_field: status_field system_kind
  by unfold_locales (simp_all add: system_kind_def k8s_object.defs)

text \<open>
  \<open>PutCobblerSystem\<close> is the \<^verbatim>\<open>Create\<close> or \<^verbatim>\<open>Update\<close> that \<^verbatim>\<open>controllerutil.CreateOrUpdate\<close> makes of the owned
  CobblerSystem, with the spec its mutate function leaves, \<open>AnnotateCobblerSystem\<close> the \<^verbatim>\<open>Update\<close> that sets its netboot annotation.
\<close>

datatype 'f sys_call =
    CreateSystemProfile string string string
  | ProvisionSystem int string int
  | SetSystemDetails int string string
  | SetBaseChannel int string
  | SetChildChannels int "string list"
  | ScheduleChangeChannels int string "string list" int
  | SetSystemConfigChannels int "string list"
  | AddSystemsToGroup string "int list"
  | RemoveSystemsFromGroup string "int list"
  | AddEntitlements int "string list"
  | RemoveEntitlements int "string list"
  | SetCustomInfo int "(string \<times> string) list"
  | DeleteCustomInfo int "string list"
  | SetFormulas int "string list"
  | SetFormulaData int string "(string, 'f jval) fmap"
  | ChangeProxy "int list" int
  | ScheduleHighstate "int list" int bool
  | DeleteSystem int
  | PutCobblerSystem string string cobbler_system_spec
  | AnnotateCobblerSystem string string string

type_synonym 'f sys_pass = "(uyuni_system, 'f sys_call) pass"

type_synonym 'f sys_outcome = "(uyuni_system, 'f sys_call) outcome"

definition system_kit :: "'f system_world \<Rightarrow> (uyuni_system, system_status) kit" where
  "system_kit w = \<lparr>kit_ops = system_kind, kit_conditions = syss_conditions_update,
     kit_ssc = sw_ssc w, kit_out = sw_out w\<rparr>"

definition sys_set :: "'f system_world \<Rightarrow> (system_status \<Rightarrow> system_status) \<Rightarrow> 'f sys_pass \<Rightarrow> 'f sys_pass" where
  "sys_set w f = set_st (system_kit w) f"

abbreviation server_id :: "'f sys_pass \<Rightarrow> int" where
  "server_id s \<equiv> syss_uyuni_server_id (sys_status (mem s))"

definition sys_fail :: "'f system_world \<Rightarrow> string \<Rightarrow> go_error \<Rightarrow> 'f sys_pass \<Rightarrow> 'f sys_outcome" where
  "sys_fail w = fail_with (system_kit w)"

definition sys_wait :: "'f system_world \<Rightarrow> string \<Rightarrow> string \<Rightarrow> 'f sys_pass \<Rightarrow> 'f sys_outcome" where
  "sys_wait w reason msg s =
     save_with (system_kit w) (result_after (30 * second)) (become (system_kit w) False reason msg s)"

text \<open>A call whose failure ends the pass with the reason \<^verbatim>\<open>UpdateFailed\<close>.\<close>

definition sys_call ::
  "'f system_world \<Rightarrow> 'f sys_call \<Rightarrow> ('f sys_pass \<Rightarrow> 'f sys_outcome) \<Rightarrow> 'f sys_pass \<Rightarrow> 'f sys_outcome" where
  "sys_call w u next s = call_or (sw_out w) u (sys_fail w ''UpdateFailed'') next s"

definition sys_call_if ::
  "'f system_world \<Rightarrow> bool \<Rightarrow> 'f sys_call \<Rightarrow> ('f sys_pass \<Rightarrow> 'f sys_outcome) \<Rightarrow> 'f sys_pass \<Rightarrow> 'f sys_outcome" where
  "sys_call_if w c u next s = (if c then sys_call w u next s else next s)"

section \<open>The owned CobblerSystem\<close>

definition no_cobbler_spec :: cobbler_system_spec where
  "no_cobbler_spec = \<lparr>csys_name = [], csys_hostname = [], csys_mode = [], csys_provider_ref = None,
     csys_profile_name = [], csys_profile_ref = None, csys_interfaces = [], csys_autoinstall_meta = [],
     csys_server = [], csys_comment = []\<rparr>"

text \<open>The first network card carries the host name and is the management interface.\<close>

definition cobbler_interfaces :: "system_spec \<Rightarrow> cobbler_interface list" where
  "cobbler_interfaces sp = map (\<lambda>(i, n). \<lparr>ci_name = ni_name n, ci_mac_address = ni_mac_address n,
     ci_ip_address = ni_ip_address n, ci_dns_name = (if i = 0 then sys_hostname sp else []),
     ci_management = (i = 0)\<rparr>) (indexed (sys_network sp))"

definition cobbler_name :: "'f system_world \<Rightarrow> uyuni_system \<Rightarrow> string" where
  "cobbler_name w sys = sys_hostname (sys_spec sys) @ '':'' @ itoa (resolveOrgID w sys)"

definition cobbler_spec ::
  "'f system_world \<Rightarrow> uyuni_system \<Rightarrow> string \<Rightarrow> (string \<times> string) list \<Rightarrow> cobbler_system_spec \<Rightarrow> cobbler_system_spec" where
  "cobbler_spec w sys profileLabel vars old =
     old\<lparr>csys_mode := ''create'', csys_name := cobbler_name w sys, csys_hostname := sys_hostname (sys_spec sys),
       csys_provider_ref := cobblerProviderRefForOrg (sw_get_org w) (obj_namespace sys)
         (orgRef (sys_organization_ref (sys_spec sys))),
       csys_profile_name := profileLabel, csys_interfaces := cobbler_interfaces (sys_spec sys),
       csys_autoinstall_meta := vars, csys_server := resolveProxyHost w sys,
       csys_comment := sys_description (sys_spec sys)\<rparr>"

definition blank_cobbler :: "string \<Rightarrow> string \<Rightarrow> cobbler_system" where
  "blank_cobbler ns n = k8s_object.extend ((mk_object ns n)\<lparr>obj_uid := []\<rparr>)
     \<lparr>csystem_spec = no_cobbler_spec,
      csystem_status = \<lparr>csyst_cobbler_id = [], csyst_found = False, csyst_profile_name = [],
        csyst_netboot_enabled = None, csyst_observed_generation = 0, csyst_conditions = []\<rparr>\<rparr>"

text \<open>
  \<^verbatim>\<open>controllerutil.CreateOrUpdate\<close>: an absent object is created, an existing one is updated only if the
  mutate function changed it; an error of the read or of the mutate function ends it.
\<close>

definition put_cobbler ::
  "'f system_world \<Rightarrow> uyuni_system \<Rightarrow> string \<Rightarrow> (string \<times> string) list \<Rightarrow> 'f sys_pass \<Rightarrow> go_error option \<times> 'f sys_pass"
where
  "put_cobbler w sys label vars s =
     (let ns = obj_namespace sys; n = obj_name sys;
          mutate = (\<lambda>cs. sw_set_controller w sys
            (cs\<lparr>csystem_spec := cobbler_spec w sys label vars (csystem_spec cs)\<rparr>));
          put = (\<lambda>cs. attempt (sw_out w) (Call (PutCobblerSystem ns n (csystem_spec cs))) s)
      in case sw_get_cobbler w ns n of
           Inl e \<Rightarrow>
             if is_k8s_not_found e
             then (case mutate (blank_cobbler ns n) of Inl x \<Rightarrow> (Some x, s) | Inr cs \<Rightarrow> put cs)
             else (Some e, s)
         | Inr old \<Rightarrow>
             (case mutate old of
                Inl x \<Rightarrow> (Some x, s)
              | Inr cs \<Rightarrow>
                  if csystem_spec cs = csystem_spec old \<and> obj_owners cs = obj_owners old then (None, s)
                  else put cs))"

definition reconcileCobblerSystem :: "'f system_world \<Rightarrow> 'f sys_pass \<Rightarrow> go_error option \<times> 'f sys_pass" where
  "reconcileCobblerSystem w s =
     (let sys = mem s in
      if \<not> sys_pre_create (sys_spec sys) \<or> sys_autoinstall (sys_spec sys) = None then (None, s)
      else case resolveProfileLabel w sys of
        Broken e \<Rightarrow> (Some e, s)
      | resolve.Wait _ \<Rightarrow> (None, s)
      | Resolved label \<Rightarrow>
          if label = [] then (None, s)
          else case resolveAutoinstallVariables w sys of
            Broken e \<Rightarrow> (Some e, s)
          | resolve.Wait _ \<Rightarrow> (None, s)
          | Resolved vars \<Rightarrow>
              (case put_cobbler w sys label vars s of
                (Some e, s1) \<Rightarrow> (Some e, s1)
              | (None, s1) \<Rightarrow> (None, sys_set w (\<lambda>st. st\<lparr>syss_cobbler_system_name := cobbler_name w sys\<rparr>) s1)))"

definition drop_annotation :: "string \<Rightarrow> 'f sys_pass \<Rightarrow> 'f sys_pass" where
  "drop_annotation a s = s\<lparr>mem := (mem s)\<lparr>obj_annotations := (obj_annotations (mem s))(a := None)\<rparr>\<rparr>"

text \<open>The result tells whether the pass has to wait for a CobblerSystem.\<close>

definition reconcileNetbootAnnotation :: "'f system_world \<Rightarrow> 'f sys_pass \<Rightarrow> (go_error + bool) \<times> 'f sys_pass" where
  "reconcileNetbootAnnotation w s =
     (case obj_annotations (mem s) AnnNetboot of
        None \<Rightarrow> (Inr False, s)
      | Some val \<Rightarrow>
          let ns = obj_namespace (mem s); n = obj_name (mem s);
              report = (\<lambda>(e, s1). ((case e of None \<Rightarrow> Inr False | Some x \<Rightarrow> Inl x), s1))
          in if val \<noteq> ''true'' \<and> val \<noteq> ''false''
             then report (write_object (sw_out w) system_kind (drop_annotation AnnNetboot s))
             else case sw_get_cobbler w ns n of
               Inl e \<Rightarrow> if is_k8s_not_found e then (Inr True, s) else (Inl e, s)
             | Inr cs \<Rightarrow>
                 if obj_annotations cs AnnNetboot = Some val then (Inr False, s)
                 else report (attempt (sw_out w) (Call (AnnotateCobblerSystem ns n val)) s))"

section \<open>A system Uyuni does not know\<close>

definition first_mac :: "network_interface list \<Rightarrow> string" where
  "first_mac nics = (case find (\<lambda>n. ni_mac_address n \<noteq> []) nics of None \<Rightarrow> [] | Some n \<Rightarrow> ni_mac_address n)"

definition conflict_message :: "'f system_world \<Rightarrow> uyuni_system \<Rightarrow> string" where
  "conflict_message w sys =
     (let shown = go_quote (systemProfileDisplayName (sys_hostname (sys_spec sys)));
          plain = ''a system named '' @ shown @ '' already exists in Uyuni (IDs: ''
            @ show_slice (map itoa (su_exists_ids w)) @ ''); rename this system or delete the existing one first''
      in case fd_list (sw_systems w) (obj_namespace sys) of
           Inl _ \<Rightarrow> plain
         | Inr items \<Rightarrow>
             (case find (\<lambda>other. obj_name other \<noteq> obj_name sys \<and>
                     syss_uyuni_server_id (sys_status other) \<in> set (su_exists_ids w)) items of
                None \<Rightarrow> plain
              | Some other \<Rightarrow> ''a system named '' @ shown @ '' is already managed by System CR ''
                  @ go_quote (obj_name other) @ ''; rename this system or delete the existing one first''))"

definition sys_pre_provision :: "'f system_world \<Rightarrow> 'f sys_pass \<Rightarrow> 'f sys_outcome" where
  "sys_pre_provision w s =
     (let sp = sys_spec (mem s); K = system_kit w in
      call_or (sw_out w)
        (CreateSystemProfile (systemProfileDisplayName (sys_hostname sp)) (first_mac (sys_network sp)) (sys_hostname sp))
        (\<lambda>e s1. if su_exists_ids w \<noteq> []
           then save_ignoring K (result_after (5 * minute))
             (become K False ''SystemNameConflict'' (conflict_message w (mem s1)) s1)
           else sys_fail w ''CreateFailed'' e s1)
        (\<lambda>s1. save_and K (result_after (30 * second))
           (become K False ''WaitingForRegistration'' ''system profile pre-created; waiting for first registration''
             (mark K ''PreProvisioned'' True ''PreProvisioned'' ''system profile created; waiting for minion registration''
               (sys_set w (\<lambda>st. st\<lparr>syss_uyuni_server_id := su_new_id w, syss_phase := ''PreProvisioned'',
                  syss_phase_transition_time := Some (sw_now w)\<rparr>) s1))))
        s)"

definition sys_wait_registration :: "'f system_world \<Rightarrow> 'f sys_pass \<Rightarrow> 'f sys_outcome" where
  "sys_wait_registration w s = save_and (system_kit w) (result_after (30 * second))
     (become (system_kit w) False ''WaitingForRegistration'' ''waiting for minion to register with Uyuni'' s)"

definition handleNotRegistered :: "'f system_world \<Rightarrow> 'f sys_pass \<Rightarrow> 'f sys_outcome" where
  "handleNotRegistered w s =
     (let sp = sys_spec (mem s); st = sys_status (mem s); K = system_kit w in
      if sys_pre_create sp \<and> syss_phase st \<noteq> ''PreProvisioned'' \<and> syss_phase st \<noteq> ''Reprovisioning''
      then sys_pre_provision w s
      else case syss_phase_transition_time st of
        Some t \<Rightarrow>
          if sw_now w > t + sys_adoption_timeout sp
          then save_ignoring K result_done (become K False ''AdoptionTimedOut''
                 (''system did not register within '' @ sw_duration w (sys_adoption_timeout sp)) s)
          else sys_wait_registration w s
      | None \<Rightarrow>
          if sys_pre_create sp
          then sys_wait_registration w (snd (write_status (sw_out w) system_kind
                 (sys_set w (\<lambda>st. st\<lparr>syss_phase_transition_time := Some (sw_now w), syss_phase := ''Pending''\<rparr>) s)))
          else sys_wait_registration w s)"

section \<open>Reinstalling\<close>

definition sys_schedule_reinstall :: "'f system_world \<Rightarrow> autoinstall_spec \<Rightarrow> string \<Rightarrow> 'f sys_pass \<Rightarrow> 'f sys_outcome" where
  "sys_schedule_reinstall w ai label s =
     (let K = system_kit w;
          earliest = (case ai_earliest ai of None \<Rightarrow> sw_now w | Some t \<Rightarrow> t)
      in call_or (sw_out w) (ProvisionSystem (server_id s) label earliest) (sys_fail w ''ScheduleFailed'')
        (\<lambda>s1. save_then K (\<lambda>s2. update_with K (result_after (30 * second)) (drop_annotation AnnReinstallNow s2))
          (become K False ''WaitingForRegistration'' ''reprovisioning scheduled; waiting for system to re-register''
            (mark K ''AutoinstallScheduled'' True ''Scheduled''
              (''reinstall action '' @ itoa (su_provision_id w) @ '' scheduled for profile '' @ go_quote label)
              (sys_set w (\<lambda>st. st\<lparr>syss_autoinstall_action_id := su_provision_id w,
                 syss_autoinstall_status := ''Scheduled'', syss_phase := ''Reprovisioning'',
                 syss_phase_transition_time := Some (sw_now w)\<rparr>) s1)))) s)"

definition sys_reinstall :: "'f system_world \<Rightarrow> 'f sys_pass \<Rightarrow> 'f sys_outcome" where
  "sys_reinstall w s =
     (let K = system_kit w in
      case sys_autoinstall (sys_spec (mem s)) of
        None \<Rightarrow> save_ignoring K result_done (become K False ''CreateFailed''
          ''admission should have rejected: reinstall-now requires spec.autoinstall'' s)
      | Some ai \<Rightarrow>
          (case resolveProfileLabel w (mem s) of
             Broken e \<Rightarrow> sys_fail w ''ResolveProfileFailed'' e s
           | resolve.Wait m \<Rightarrow>
               save_ignoring K (result_after (30 * second)) (become K False ''WaitingForProfile'' m s)
           | Resolved label \<Rightarrow> sys_schedule_reinstall w ai label s))"

section \<open>The steps of a registered system\<close>

definition wanted_contact :: "system_spec \<Rightarrow> string" where
  "wanted_contact sp = (if sys_contact_method sp = [] then ''default'' else sys_contact_method sp)"

definition sys_details_step ::
  "'f system_world \<Rightarrow> system_details \<Rightarrow> ('f sys_pass \<Rightarrow> 'f sys_outcome) \<Rightarrow> 'f sys_pass \<Rightarrow> 'f sys_outcome" where
  "sys_details_step w cur next s =
     (let sp = sys_spec (mem s);
          desc = (sd_description cur \<noteq> sys_description sp); contact = (sd_contact_method cur \<noteq> wanted_contact sp)
      in sys_call_if w (desc \<or> contact)
           (SetSystemDetails (server_id s) (if desc then sys_description sp else [])
             (if contact then wanted_contact sp else [])) next s)"

text \<open>The message of the drift of an immutable field, if any.\<close>

definition identity_drift :: "system_spec \<Rightarrow> system_details \<Rightarrow> string option" where
  "identity_drift sp cur =
     (if sd_base_entitlement cur = ''bootstrap_entitled'' then None
      else if sd_hostname cur \<noteq> sys_hostname sp
      then Some (''hostname in Uyuni ('' @ sd_hostname cur @ '') differs from spec ('' @ sys_hostname sp @ '')'')
      else if sd_minion_id cur \<noteq> sys_minion_id sp
      then Some (''minionId in Uyuni ('' @ sd_minion_id cur @ '') differs from spec ('' @ sys_minion_id sp @ '')'')
      else None)"

definition sys_mark_drift :: "'f system_world \<Rightarrow> system_details \<Rightarrow> 'f sys_pass \<Rightarrow> 'f sys_pass" where
  "sys_mark_drift w cur s =
     sys_set w (syss_conditions_update (\<lambda>cs.
       case identity_drift (sys_spec (mem s)) cur of
         Some msg \<Rightarrow> setDrift (sw_ssc w) cs (obj_generation (mem s)) True ''ImmutableFieldDrift'' msg
       | None \<Rightarrow> setDrift (sw_ssc w) cs (obj_generation (mem s)) False ''InSync'' [])) s"

text \<open>\<^verbatim>\<open>channelActionFailed\<close> also forgets an action that completed or vanished.\<close>

definition forget_action :: "'f system_world \<Rightarrow> 'f sys_pass \<Rightarrow> 'f sys_pass" where
  "forget_action w = sys_set w (\<lambda>st. st\<lparr>syss_channel_action_id := 0, syss_channel_action_time := None\<rparr>)"

definition channelActionFailed :: "'f system_world \<Rightarrow> 'f sys_pass \<Rightarrow> bool \<times> 'f sys_pass" where
  "channelActionFailed w s =
     (let st = sys_status (mem s) in
      if syss_channel_action_id st = 0 then (False, s)
      else case su_action w (syss_channel_action_id st) of
        Inl e \<Rightarrow> (False, if is_uyuni_not_found e then forget_action w s else s)
      | Inr a \<Rightarrow>
          if sa_status a = ''Completed'' then (False, forget_action w s)
          else if sa_status a = ''Failed'' then
            (case syss_channel_action_time st of
               None \<Rightarrow> (True, s)
             | Some t \<Rightarrow>
                 (case su_checkin w (syss_uyuni_server_id st) of Inl _ \<Rightarrow> (False, s) | Inr c \<Rightarrow> (c > t, s)))
          else (False, s))"

definition sys_sync_groups ::
  "'f system_world \<Rightarrow> string list \<Rightarrow> ('f sys_pass \<Rightarrow> 'f sys_outcome) \<Rightarrow> 'f sys_pass \<Rightarrow> 'f sys_outcome" where
  "sys_sync_groups w desired next s =
     (case diffStringSets (syss_group_names (sys_status (mem s))) desired of
        (add, rm) \<Rightarrow>
          call_each (sw_out w) (sys_fail w ''UpdateFailed'')
            (map (\<lambda>n. AddSystemsToGroup n [server_id s]) add @ map (\<lambda>n. RemoveSystemsFromGroup n [server_id s]) rm)
            (\<lambda>s1. next (sys_set w (\<lambda>st. st\<lparr>syss_group_names := desired\<rparr>) s1)) s)"

section \<open>Formulas\<close>

definition sys_formula_api :: "'f system_world \<Rightarrow> ('f sys_pass, 'f) formula_endpoints" where
  "sys_formula_api w = \<lparr>fe_list = (\<lambda>_. su_formulas w), fe_get = (\<lambda>i _. su_assigned w i),
     fe_set = (\<lambda>i fs. attempt (sw_out w) (Call (SetFormulas i fs))),
     fe_get_data = (\<lambda>i f _. su_formula_data w i f),
     fe_set_data = (\<lambda>i f d. attempt (sw_out w) (Call (SetFormulaData i f d)))\<rparr>"

definition sys_apply_data :: "uyuni_system \<Rightarrow> bool" where
  "sys_apply_data sys = (obj_generation sys \<noteq> syss_formula_data_generation (sys_status sys) \<or>
     has_annotation sys AnnApplyFormulaValues)"

text \<open>
  The annotation is dropped whatever its value; the \<^verbatim>\<open>Update\<close> brings the stored status back to memory,
  except for the fields it does not have (every field of the status is \<^verbatim>\<open>omitempty\<close>).
\<close>

definition keep_system :: "system_status \<Rightarrow> system_status \<Rightarrow> system_status" where
  "keep_system a b =
     \<lparr>syss_uyuni_server_id = keep_int (syss_uyuni_server_id a) (syss_uyuni_server_id b),
      syss_phase = keep_list (syss_phase a) (syss_phase b),
      syss_phase_transition_time = keep_option (syss_phase_transition_time a) (syss_phase_transition_time b),
      syss_base_channel_label = keep_list (syss_base_channel_label a) (syss_base_channel_label b),
      syss_child_channel_labels = keep_list (syss_child_channel_labels a) (syss_child_channel_labels b),
      syss_active_add_ons = keep_list (syss_active_add_ons a) (syss_active_add_ons b),
      syss_last_checkin_time = keep_option (syss_last_checkin_time a) (syss_last_checkin_time b),
      syss_active_formulas = keep_list (syss_active_formulas a) (syss_active_formulas b),
      syss_formula_data_generation = keep_int (syss_formula_data_generation a) (syss_formula_data_generation b),
      syss_proxy_server_id = keep_int (syss_proxy_server_id a) (syss_proxy_server_id b),
      syss_proxy_action_id = keep_int (syss_proxy_action_id a) (syss_proxy_action_id b),
      syss_channel_action_id = keep_int (syss_channel_action_id a) (syss_channel_action_id b),
      syss_channel_action_time = keep_option (syss_channel_action_time a) (syss_channel_action_time b),
      syss_config_channel_labels = keep_list (syss_config_channel_labels a) (syss_config_channel_labels b),
      syss_group_names = keep_list (syss_group_names a) (syss_group_names b),
      syss_autoinstall_action_id = keep_int (syss_autoinstall_action_id a) (syss_autoinstall_action_id b),
      syss_cobbler_system_name = keep_list (syss_cobbler_system_name a) (syss_cobbler_system_name b),
      syss_autoinstall_status = keep_list (syss_autoinstall_status a) (syss_autoinstall_status b),
      syss_netboot_enabled = keep_option (syss_netboot_enabled a) (syss_netboot_enabled b),
      syss_observed_generation = keep_int (syss_observed_generation a) (syss_observed_generation b),
      syss_conditions = keep_list (syss_conditions a) (syss_conditions b)\<rparr>"

definition sys_data_applied :: "'f system_world \<Rightarrow> 'f sys_pass \<Rightarrow> unit resolve \<times> 'f sys_pass" where
  "sys_data_applied w s =
     (let s1 = sys_set w (\<lambda>st. st\<lparr>syss_formula_data_generation := obj_generation (mem s)\<rparr>) s in
      if obj_annotations (mem s) AnnApplyFormulaValues = None then (Resolved (), s1)
      else case refresh (system_kit w) keep_system (drop_annotation AnnApplyFormulaValues s1) of
        (Some e, s2) \<Rightarrow> (Broken e, s2)
      | (None, s2) \<Rightarrow> (Resolved (), s2))"

definition sys_mark_formulas :: "'f system_world \<Rightarrow> string list \<Rightarrow> bool \<Rightarrow> 'f sys_pass \<Rightarrow> 'f sys_pass" where
  "sys_mark_formulas w desired drift s =
     sys_set w (\<lambda>st. st\<lparr>syss_active_formulas := desired\<rparr>)
       (if drift
        then mark (system_kit w) ''FormulaValuesDrift'' True ''Drift''
          (''resolved formula reference values differ from what was applied; set annotation ''
           @ AnnApplyFormulaValues @ ''=\"true\" to apply'') s
        else mark (system_kit w) ''FormulaValuesDrift'' False ''InSync'' [] s)"

definition sys_reconcileFormulas :: "'f system_world \<Rightarrow> 'f sys_pass \<Rightarrow> unit resolve \<times> 'f sys_pass" where
  "sys_reconcileFormulas w s =
     (let sys = mem s; applyData = sys_apply_data sys in
      case syncFormulas (serverFormulas (sys_formula_api w) (server_id s)) (su_formulas w)
             (resolveFormulaValues (sw_reader w) (obj_namespace sys)) applyData (sys_formulas (sys_spec sys)) s of
        (Broken e, s1) \<Rightarrow> (Broken e, s1)
      | (resolve.Wait m, s1) \<Rightarrow> (resolve.Wait m, s1)
      | (Resolved (desired, drift), s1) \<Rightarrow>
          (case (if applyData then sys_data_applied w s1 else (Resolved (), s1)) of
             (Resolved _, s2) \<Rightarrow> (Resolved (), sys_mark_formulas w desired drift s2)
           | r \<Rightarrow> r))"

definition sys_formula_step ::
  "'f system_world \<Rightarrow> ('f sys_pass \<Rightarrow> 'f sys_outcome) \<Rightarrow> 'f sys_pass \<Rightarrow> 'f sys_outcome" where
  "sys_formula_step w next s =
     (case sys_reconcileFormulas w s of
        (Broken e, s1) \<Rightarrow> sys_fail w ''UpdateFailed'' e s1
      | (resolve.Wait m, s1) \<Rightarrow> sys_wait w ''WaitingForFormula'' m s1
      | (Resolved _, s1) \<Rightarrow> next s1)"

section \<open>Channels\<close>

definition bootstrap_message :: string where
  "bootstrap_message = ''system has not completed registration yet (still on bootstrap base entitlement); software channels are applied after registration''"

definition sys_bootstrap_formulas :: "'f system_world \<Rightarrow> 'f sys_pass \<Rightarrow> 'f sys_outcome" where
  "sys_bootstrap_formulas w s =
     (case sys_reconcileFormulas w s of
        (Broken e, s1) \<Rightarrow> sys_fail w ''UpdateFailed'' e s1
      | (resolve.Wait m, s1) \<Rightarrow> sys_wait w ''WaitingForBaseEntitlement'' m s1
      | (Resolved _, s1) \<Rightarrow> sys_wait w ''WaitingForBaseEntitlement'' bootstrap_message s1)"

definition sys_bootstrap :: "'f system_world \<Rightarrow> 'f sys_pass \<Rightarrow> 'f sys_outcome" where
  "sys_bootstrap w s =
     (if sys_group_refs (sys_spec (mem s)) = [] then sys_bootstrap_formulas w s
      else case resolveGroupMembership w (mem s) of
        Broken e \<Rightarrow> sys_fail w ''ResolveRefs'' e s
      | resolve.Wait _ \<Rightarrow> sys_bootstrap_formulas w s
      | Resolved desired \<Rightarrow> sys_sync_groups w desired (sys_bootstrap_formulas w) s)"

definition sys_schedule_channels ::
  "'f system_world \<Rightarrow> channel_resolution \<Rightarrow> ('f sys_pass \<Rightarrow> 'f sys_outcome) \<Rightarrow> 'f sys_pass \<Rightarrow> 'f sys_outcome" where
  "sys_schedule_channels w res next s =
     sys_call w (ScheduleChangeChannels (server_id s) (cr_base_label res) (cr_child_labels res) (sw_now w))
       (\<lambda>s1. next (sys_set w (\<lambda>st. st\<lparr>syss_channel_action_id := su_channel_action_id w,
          syss_channel_action_time := Some (sw_now w)\<rparr>) s1)) s"

text \<open>\<open>base\<close> and \<open>children\<close> are the current subscriptions.\<close>

definition sys_subscribe ::
  "'f system_world \<Rightarrow> system_details \<Rightarrow> channel_resolution \<Rightarrow> string \<Rightarrow> string list \<Rightarrow>
   ('f sys_pass \<Rightarrow> 'f sys_outcome) \<Rightarrow> 'f sys_pass \<Rightarrow> 'f sys_outcome" where
  "sys_subscribe w cur res base children next s =
     (if base = [] then
        if sd_base_entitlement cur = ''bootstrap_entitled'' then sys_bootstrap w s
        else sys_call_if w (cr_base_label res \<noteq> []) (SetBaseChannel (server_id s) (cr_base_label res))
          (\<lambda>s1. sys_call_if w (\<not> stringSlicesEqual children (cr_child_labels res))
             (SetChildChannels (server_id s1) (cr_child_labels res)) next s1) s
      else if base \<noteq> cr_base_label res \<or> \<not> stringSlicesEqual children (cr_child_labels res)
      then sys_schedule_channels w res next s
      else case channelActionFailed w s of
        (True, s1) \<Rightarrow> sys_schedule_channels w res next s1
      | (False, s1) \<Rightarrow> next s1)"

definition sys_channel_refs :: "system_spec \<Rightarrow> channel_refs" where
  "sys_channel_refs sp = \<lparr>crf_base_ref = sys_base_channel_ref sp, crf_child_refs = sys_child_channel_refs sp,
     crf_base_from = sys_base_channel_from sp, crf_children_from = sys_child_channels_from sp\<rparr>"

definition sys_channel_step ::
  "'f system_world \<Rightarrow> system_details \<Rightarrow> ('f sys_pass \<Rightarrow> 'f sys_outcome) \<Rightarrow> 'f sys_pass \<Rightarrow> 'f sys_outcome" where
  "sys_channel_step w cur next s =
     (case resolveChannelRefs (sw_channels w) (sw_get_project w) (sw_environments w) (obj_namespace (mem s))
             (sys_channel_refs (sys_spec (mem s))) of
        Inl e \<Rightarrow> sys_fail w ''ResolveRefs'' e s
      | Inr res \<Rightarrow>
          if cr_hard_error res \<noteq> [] then sys_wait w ''ReferenceUnavailable'' (cr_hard_error res) s
          else if cr_wait_reason res \<noteq> [] then sys_wait w (cr_wait_reason res) (cr_wait_detail res) s
          else
            let s1 = sys_set w (\<lambda>st. st\<lparr>syss_base_channel_label := cr_base_label res,
                       syss_child_channel_labels := cr_child_labels res\<rparr>) s;
                base = (case su_base_channel w (server_id s1) of Inr b \<Rightarrow> b | Inl _ \<Rightarrow> sd_base_channel_label cur);
                children = (case su_child_channels w (server_id s1) of
                              Inr c \<Rightarrow> c | Inl _ \<Rightarrow> sd_child_channel_labels cur)
            in sys_subscribe w cur res base children next s1)"

section \<open>Configuration channels, groups, add-ons, custom info\<close>

definition sys_config_step ::
  "'f system_world \<Rightarrow> ('f sys_pass \<Rightarrow> 'f sys_outcome) \<Rightarrow> 'f sys_pass \<Rightarrow> 'f sys_outcome" where
  "sys_config_step w next s =
     (case resolveOrderedConfigChannels w (mem s) of
        Broken e \<Rightarrow> sys_fail w ''ResolveRefs'' e s
      | resolve.Wait m \<Rightarrow> sys_wait w ''WaitingForConfigChannel'' m s
      | Resolved labels \<Rightarrow>
          sys_call_if w (\<not> stringSlicesEqual (syss_config_channel_labels (sys_status (mem s))) labels)
            (SetSystemConfigChannels (server_id s) labels)
            (\<lambda>s1. next (sys_set w (\<lambda>st. st\<lparr>syss_config_channel_labels := labels\<rparr>) s1)) s)"

definition sys_group_step ::
  "'f system_world \<Rightarrow> ('f sys_pass \<Rightarrow> 'f sys_outcome) \<Rightarrow> 'f sys_pass \<Rightarrow> 'f sys_outcome" where
  "sys_group_step w next s =
     (case resolveGroupMembership w (mem s) of
        Broken e \<Rightarrow> sys_fail w ''ResolveRefs'' e s
      | resolve.Wait m \<Rightarrow> sys_wait w ''WaitingForSystemGroup'' m s
      | Resolved desired \<Rightarrow> sys_sync_groups w desired next s)"

definition no_base_message :: string where
  "no_base_message = ''system has not completed registration yet (still on bootstrap base entitlement); cannot grant add-on entitlements''"

definition sys_addon_step ::
  "'f system_world \<Rightarrow> ('f sys_pass \<Rightarrow> 'f sys_outcome) \<Rightarrow> 'f sys_pass \<Rightarrow> 'f sys_outcome" where
  "sys_addon_step w next s =
     (case not_found_or [] (su_entitlements w (server_id s)) of
        Inl e \<Rightarrow> sys_fail w ''ProviderError'' e s
      | Inr ents \<Rightarrow>
          (case diffStringSets (filterOutBaseEntitlements ents) (sys_add_ons (sys_spec (mem s))) of
             (add, rm) \<Rightarrow>
               let remove = sys_call_if w (rm \<noteq> []) (RemoveEntitlements (server_id s) rm)
                     (\<lambda>s1. next (sys_set w (\<lambda>st. st\<lparr>syss_active_add_ons := sys_add_ons (sys_spec (mem s))\<rparr>) s1))
               in if add = [] then remove s
                  else call_or (sw_out w) (AddEntitlements (server_id s) add)
                    (\<lambda>e s1. if str_contains (err_text e) ''Invalid entitlement''
                       then sys_wait w ''WaitingForBaseEntitlement'' no_base_message s1
                       else sys_fail w ''UpdateFailed'' e s1)
                    remove s))"

definition sys_info_step ::
  "'f system_world \<Rightarrow> ('f sys_pass \<Rightarrow> 'f sys_outcome) \<Rightarrow> 'f sys_pass \<Rightarrow> 'f sys_outcome" where
  "sys_info_step w next s =
     (case resolveCustomInfoValues w (mem s) of
        Broken e \<Rightarrow> sys_fail w ''ResolveRefs'' e s
      | resolve.Wait m \<Rightarrow> sys_wait w ''WaitingForCustomInfoKey'' m s
      | Resolved desired \<Rightarrow>
          (case not_found_or [] (su_custom_info w (server_id s)) of
             Inl e \<Rightarrow> sys_fail w ''ProviderError'' e s
           | Inr current \<Rightarrow>
               (case diffCustomInfo current desired of
                  (setKV, delKeys) \<Rightarrow>
                    sys_call_if w (setKV \<noteq> []) (SetCustomInfo (server_id s) setKV)
                      (\<lambda>s1. sys_call_if w (delKeys \<noteq> []) (DeleteCustomInfo (server_id s1) delKeys) next s1) s)))"

section \<open>Proxy and the end of the pass\<close>

definition reconcileProxy :: "'f system_world \<Rightarrow> 'f sys_pass \<Rightarrow> unit resolve \<times> 'f sys_pass" where
  "reconcileProxy w s =
     (case resolveProxyID w (mem s) of
        Broken e \<Rightarrow> (Broken e, s)
      | resolve.Wait m \<Rightarrow> (resolve.Wait m, s)
      | Resolved i \<Rightarrow>
          if i = syss_proxy_server_id (sys_status (mem s)) then (Resolved (), s)
          else case attempt (sw_out w) (Call (ChangeProxy [server_id s] i)) s of
            (Some e, s1) \<Rightarrow> (Broken e, s1)
          | (None, s1) \<Rightarrow> (Resolved (), sys_set w (\<lambda>st. st\<lparr>syss_proxy_server_id := i,
              syss_proxy_action_id := (case su_proxy_actions w of [] \<Rightarrow> syss_proxy_action_id st | a # _ \<Rightarrow> a)\<rparr>) s1))"

definition sys_proxy_step ::
  "'f system_world \<Rightarrow> ('f sys_pass \<Rightarrow> 'f sys_outcome) \<Rightarrow> 'f sys_pass \<Rightarrow> 'f sys_outcome" where
  "sys_proxy_step w next s =
     (case reconcileProxy w s of
        (Broken e, s1) \<Rightarrow> sys_fail w ''UpdateFailed'' e s1
      | (resolve.Wait m, s1) \<Rightarrow> sys_wait w ''WaitingForProxy'' m s1
      | (Resolved _, s1) \<Rightarrow> next s1)"

definition autoinstall_progress :: "'f system_world \<Rightarrow> system_status \<Rightarrow> system_status" where
  "autoinstall_progress w st =
     (if syss_autoinstall_action_id st \<noteq> 0 \<and> syss_autoinstall_status st = ''Scheduled'' then
        (case su_action w (syss_autoinstall_action_id st) of
           Inl _ \<Rightarrow> st
         | Inr a \<Rightarrow>
             if sa_status a = [] \<or> sa_status a = ''Queued'' \<or> sa_status a = ''InProgress'' then st
             else st\<lparr>syss_autoinstall_status := (if sa_status a = ''Completed'' then ''Completed'' else ''Failed'')\<rparr>)
      else st)"

definition sys_finish :: "'f system_world \<Rightarrow> system_details \<Rightarrow> 'f sys_pass \<Rightarrow> 'f sys_outcome" where
  "sys_finish w cur s =
     (let K = system_kit w;
          s1 = sys_set w (\<lambda>st. (case sd_last_checkin cur of None \<Rightarrow> autoinstall_progress w st
                 | Some t \<Rightarrow> (autoinstall_progress w st)\<lparr>syss_last_checkin_time := Some t\<rparr>)) s
      in sys_call_if w (sys_apply_high_state (sys_spec (mem s1)) \<and> syss_phase (sys_status (mem s1)) \<noteq> ''Reconciled'')
           (ScheduleHighstate [server_id s1] (sw_now w) False)
           (\<lambda>s2. save_and K (result_after (5 * minute))
              (become K True ''Reconciled'' []
                (mark K ''PreProvisioned'' False ''Registered'' ''system is registered and managed''
                  (sys_set w (\<lambda>st. st\<lparr>syss_phase := ''Reconciled'', syss_observed_generation := obj_generation (mem s2)\<rparr>) s2))))
           s1)"

definition applyConfig :: "'f system_world \<Rightarrow> system_details \<Rightarrow> 'f sys_pass \<Rightarrow> 'f sys_outcome" where
  "applyConfig w cur s =
     (if has_annotation (mem s) AnnReinstallNow then sys_reinstall w s
      else sys_details_step w cur
        (\<lambda>s. sys_channel_step w cur
        (sys_config_step w
        (sys_group_step w
        (sys_addon_step w
        (sys_info_step w
        (sys_formula_step w
        (sys_proxy_step w
        (sys_finish w cur))))))) (sys_mark_drift w cur s)) s)"

section \<open>The pass\<close>

definition sys_find :: "'f system_world \<Rightarrow> 'f sys_pass \<Rightarrow> 'f sys_outcome" where
  "sys_find w s =
     (case findOrAdopt w (sys_spec (mem s)) (server_id s) of
        (r, i) \<Rightarrow>
          let s1 = sys_set w (\<lambda>st. st\<lparr>syss_uyuni_server_id := i\<rparr>) s in
          (case r of
             Inl e \<Rightarrow> sys_fail w ''ProviderError'' e s1
           | Inr None \<Rightarrow> handleNotRegistered w s1
           | Inr (Some d) \<Rightarrow>
               if server_id s1 \<noteq> sd_id d
               then save_then (system_kit w) (applyConfig w d)
                      (sys_set w (\<lambda>st. st\<lparr>syss_uyuni_server_id := sd_id d\<rparr>) s1)
               else applyConfig w d s1))"

definition sys_realize :: "'f system_world \<Rightarrow> 'f sys_pass \<Rightarrow> 'f sys_outcome" where
  "sys_realize w s =
     (case reconcileCobblerSystem w s of
        (Some e, s1) \<Rightarrow> sys_fail w ''ResolveRefs'' e s1
      | (None, s1) \<Rightarrow>
          (case reconcileNetbootAnnotation w s1 of
             (Inl e, s2) \<Rightarrow> sys_fail w ''ResolveRefs'' e s2
           | (Inr True, s2) \<Rightarrow> (result_after (30 * second), None, s2)
           | (Inr False, s2) \<Rightarrow> sys_find w s2))"

text \<open>The calls of the loop over the groups ignore their errors.\<close>

fun leave_groups :: "'f system_world \<Rightarrow> string list \<Rightarrow> 'f sys_pass \<Rightarrow> 'f sys_pass" where
  "leave_groups w [] s = s"
| "leave_groups w (n # ns) s =
     leave_groups w ns (try_call (sw_out w) (RemoveSystemsFromGroup n [server_id s]) s)"

definition sys_release :: "'f system_world \<Rightarrow> 'f sys_pass \<Rightarrow> 'f sys_outcome" where
  "sys_release w = release (system_kit w) sysFinalizer"

definition sys_handleDeletion :: "'f system_world \<Rightarrow> 'f sys_pass \<Rightarrow> 'f sys_outcome" where
  "sys_handleDeletion w s =
     (let sys = mem s in
      if \<not> containsFinalizer sys sysFinalizer then (result_done, None, s)
      else if has_annotation sys AnnForceDelete then sys_release w s
      else if server_id s = 0 then sys_release w s
      else case sw_client w of
        Some e \<Rightarrow> return_error e s
      | None \<Rightarrow>
          let s1 = leave_groups w (syss_group_names (sys_status sys)) s in
          if sys_deletion_policy (sys_spec sys) = ''Delete''
          then call_or (sw_out w) (DeleteSystem (server_id s1))
                 (\<lambda>e s2. if is_uyuni_not_found e then sys_release w s2 else return_error e s2)
                 (sys_release w) s1
          else sys_release w s1)"

definition sys_Reconcile :: "'f system_world \<Rightarrow> uyuni_system \<Rightarrow> 'f sys_outcome" where
  "sys_Reconcile w sys =
     (let s = start_pass sys; K = system_kit w in
      case migrateAnnotations (sw_legacy w) sys of
        (True, sys') \<Rightarrow> update_with K result_done (s\<lparr>mem := sys'\<rparr>)
      | (False, _) \<Rightarrow>
          if obj_deleting sys then sys_handleDeletion w s
          else case sw_client w of
            Some e \<Rightarrow> sys_fail w ''OrganizationError'' e s
          | None \<Rightarrow> with_finalizer K sysFinalizer
              (with_owner K (sw_get_org w) (orgRef (sys_organization_ref (sys_spec sys))) (sys_realize w)) s)"

end
