(* ===== verification/Pass_Rules.thy ===== *)
theory Pass_Rules
  imports Pass_Steps
begin

text \<open>
  Proving an invariant of a pass.  The steps of \<open>Pass_Steps\<close> reach a pass through five primitive
  changes: a status field, a metadata field of the object in memory, the two writes and a call.  The
  locale \<open>pass_rule\<close> takes the invariant, the status changes \<open>F\<close> and the calls \<open>U\<close> under which it is
  stable, and gives one introduction rule per step.
\<close>

locale pass_rule =
  fixes k :: "(('a) k8s_object_scheme, 'st) kit"
    and I :: "(('a) k8s_object_scheme, 'u) pass \<Rightarrow> bool"
    and F :: "('st \<Rightarrow> 'st) \<Rightarrow> bool"
    and U :: "'u \<Rightarrow> bool"
  assumes set_status: "I s \<Longrightarrow> F f \<Longrightarrow> I (set_st k f s)"
    and conditions: "F (kit_conditions k g)"
    and finalizers: "I s \<Longrightarrow> I (s\<lparr>mem := (mem s)\<lparr>obj_finalizers := fs\<rparr>\<rparr>)"
    and annotations: "I s \<Longrightarrow> I (s\<lparr>mem := (mem s)\<lparr>obj_annotations := as\<rparr>\<rparr>)"
    and owners: "I s \<Longrightarrow> I (s\<lparr>mem := (mem s)\<lparr>obj_owners := os\<rparr>\<rparr>)"
    and status_write: "I s \<Longrightarrow> I (snd (write_status (kit_out k) (kit_ops k) s))"
    and object_write: "I s \<Longrightarrow> I (snd (write_object (kit_out k) (kit_ops k) s))"
    and call: "I s \<Longrightarrow> U u \<Longrightarrow> I (snd (attempt (kit_out k) (Call u) s))"
begin

lemma become_I: "I s \<Longrightarrow> I (become k ok r m s)"
  by (simp add: become_def set_status conditions)

lemma mark_I: "I s \<Longrightarrow> I (mark k t ok r m s)"
  by (simp add: mark_def set_status conditions)

lemma fail_I: "I s \<Longrightarrow> I (pass_of (fail_with k r e s))"
  by (simp add: fail_with_def status_write become_I)

lemma return_I: "I s \<Longrightarrow> I (pass_of (return_error e s))"
  by (simp add: return_error_def)

lemma save_and_I: "I s \<Longrightarrow> I (pass_of (save_and k res s))"
  by (simp add: save_and_eq status_write split: option.split)

lemma save_with_I: "I s \<Longrightarrow> I (pass_of (save_with k res s))"
  using status_write by (simp add: save_with_def split: prod.split)

lemma save_ignoring_I: "I s \<Longrightarrow> I (pass_of (save_ignoring k res s))"
  by (simp add: save_ignoring_def status_write)

lemma save_then_I:
  assumes "I s" "\<And>s. I s \<Longrightarrow> I (pass_of (rest s))"
  shows "I (pass_of (save_then k rest s))"
proof (cases "write_status (kit_out k) (kit_ops k) s")
  case (Pair e s1)
  then have "I s1" using status_write [OF assms(1)] by simp
  then show ?thesis using Pair assms(2) by (simp add: save_then_def split: option.split)
qed

lemma update_with_I: "I s \<Longrightarrow> I (pass_of (update_with k res s))"
  using object_write by (simp add: update_with_def split: prod.split)

lemma refresh_I:
  assumes "I s" "F (keep (status_of (kit_ops k) (mem s)))"
  shows "I (snd (refresh k keep s))"
  using assms by (simp add: refresh_eq Let_def object_write set_status split: option.split)

lemma release_I: "I s \<Longrightarrow> I (pass_of (release k fin s))"
  by (simp add: release_eq Let_def removeFinalizer_def object_write finalizers)

lemma with_finalizer_I:
  assumes "I s" "\<And>s. I s \<Longrightarrow> I (pass_of (rest s))"
  shows "I (pass_of (with_finalizer k fin rest s))"
  using assms by (simp add: with_finalizer_eq Let_def ensureFinalizer_def object_write finalizers)

lemma own_organization_I: "I s \<Longrightarrow> I (snd (own_organization (kit_out k) (kit_ops k) getOrg n s))"
  by (simp add: own_organization_def Let_def owners object_write split: option.split)

lemma with_owner_I:
  assumes "I s" "\<And>s. I s \<Longrightarrow> I (pass_of (rest s))"
  shows "I (pass_of (with_owner k getOrg n rest s))"
proof (cases "own_organization (kit_out k) (kit_ops k) getOrg n s")
  case (Pair e s1)
  then have "I s1" using own_organization_I [OF assms(1), of getOrg n] by simp
  then show ?thesis using Pair assms(2) by (simp add: with_owner_def return_I split: option.split)
qed

lemma call_or_I:
  assumes "I s" "U u" "\<And>e s. I s \<Longrightarrow> I (pass_of (h e s))" "\<And>s. I s \<Longrightarrow> I (pass_of (rest s))"
  shows "I (pass_of (call_or (kit_out k) u h rest s))"
  using call [OF assms(1,2)] assms(3,4) by (simp add: call_or_eq try_call_def)

lemma try_call_I: "I s \<Longrightarrow> U u \<Longrightarrow> I (try_call (kit_out k) u s)"
  by (simp add: try_call_def call)

lemma call_each_I:
  assumes "I s" "\<forall>u \<in> set us. U u" "\<And>e s. I s \<Longrightarrow> I (pass_of (h e s))" "\<And>s. I s \<Longrightarrow> I (pass_of (rest s))"
  shows "I (pass_of (call_each (kit_out k) h us rest s))"
  using assms by (induction us arbitrary: s) (simp_all add: call_or_I)

lemmas rules = become_I mark_I fail_I return_I save_and_I save_with_I save_ignoring_I save_then_I
  update_with_I release_I with_finalizer_I with_owner_I call_or_I try_call_I call_each_I

end

text \<open>The invariant that every call made satisfies \<open>U\<close>.\<close>

definition only_calls :: "('u \<Rightarrow> bool) \<Rightarrow> ('o, 'u) pass \<Rightarrow> bool" where
  "only_calls U s = (\<forall>u ok. (u, ok) \<in> set (call_log (trace s)) \<longrightarrow> U u)"

lemma only_calls_simps [simp]:
  "only_calls U (start_pass obj)"
  "only_calls U (s\<lparr>mem := m\<rparr>) = only_calls U s"
  "only_calls U (set_st k f s) = only_calls U s"
  "only_calls U (snd (write_status out K s')) = only_calls U s'"
  "only_calls U (snd (write_object out K s')) = only_calls U s'"
  "only_calls U (snd (attempt out (Call u) s)) = (only_calls U s \<and> U u)"
  by (auto simp: only_calls_def)

lemma only_calls_rule: "pass_rule k (only_calls U) (\<lambda>_. True) U"
  by unfold_locales simp_all

lemma call_log_of_ends [simp]:
  "call_log (trace (pass_of (save_with k res s))) = call_log (trace s)"
  "call_log (trace (pass_of (save_ignoring k res s))) = call_log (trace s)"
  "call_log (trace (pass_of (update_with k res s))) = call_log (trace s)"
  "call_log (trace (pass_of (return_error e s))) = call_log (trace s)"
  "call_log (trace (pass_of (save_and k res s))) = call_log (trace s)"
  "trace (become k ok r m s) = trace s"
  "trace (mark k t ok r m s) = trace s"
  by (simp_all add: save_with_def save_ignoring_def save_and_eq update_with_def return_error_def become_def mark_def set_st_def
      Let_def split: prod.split option.split)

end
