(* ===== verification/Kind_Steps.thy ===== *)
theory Kind_Steps
  imports System_Resolve Pass_Rules Samples
begin

text \<open>
  What the reconcilers of the smaller kinds have in common beyond \<open>Pass_Steps\<close>: the world they all
  read, the opening of a pass, the wait and conflict answers, and the deletion of the object in Uyuni.
  Every controller extends \<open>base_world\<close> with its own reads.
\<close>

section \<open>World and kit\<close>

record base_world =
  bw_ssc :: set_cond
  bw_client :: "go_error option"
  bw_get_org :: "organization k8s_get"
  bw_out :: answers

definition kit_of ::
  "('o, 'st) kind_ops \<Rightarrow> ((condition list \<Rightarrow> condition list) \<Rightarrow> 'st \<Rightarrow> 'st) \<Rightarrow> ('x) base_world_scheme \<Rightarrow> ('o, 'st) kit" where
  "kit_of K conds w = \<lparr>kit_ops = K, kit_conditions = conds, kit_ssc = bw_ssc w, kit_out = bw_out w\<rparr>"

lemma kit_of_simps [simp]:
  "kit_ops (kit_of K conds w) = K" "kit_conditions (kit_of K conds w) = conds"
  "kit_ssc (kit_of K conds w) = bw_ssc w" "kit_out (kit_of K conds w) = bw_out w"
  by (simp_all add: kit_of_def)

section \<open>Text\<close>

text \<open>\<^verbatim>\<open>strings.ToLower\<close> and \<^verbatim>\<open>strings.TrimPrefix\<close> on ASCII text.\<close>

definition to_lower_char :: "char \<Rightarrow> char" where
  "to_lower_char c =
     (if 65 \<le> (of_char c :: nat) \<and> (of_char c :: nat) \<le> 90 then char_of (of_char c + 32 :: nat) else c)"

definition to_lower :: "string \<Rightarrow> string" where
  "to_lower = map to_lower_char"

definition trim_prefix :: "string \<Rightarrow> string \<Rightarrow> string" where
  "trim_prefix s p = (case cut_prefix s p of Some r \<Rightarrow> r | None \<Rightarrow> s)"

text \<open>The errors that reconcilers read as a name that is taken.\<close>

definition says_duplicate :: "go_error \<Rightarrow> bool" where
  "says_duplicate e = (str_contains (to_lower (err_text e)) ''already exists'' \<or>
     str_contains (to_lower (err_text e)) ''duplicate'')"

section \<open>Steps\<close>

text \<open>
  \<^verbatim>\<open>setReady(... False, reason, msg); _ = r.Status().Update(ctx, &obj); return RequeueAfter\<close>.
\<close>

definition refuse ::
  "(('a) k8s_object_scheme, 'st) kit \<Rightarrow> int \<Rightarrow> string \<Rightarrow> string \<Rightarrow> (('a) k8s_object_scheme, 'u) pass \<Rightarrow>
   (('a) k8s_object_scheme, 'u) outcome" where
  "refuse k after reason msg s = save_ignoring k (result_after after) (become k False reason msg s)"

abbreviation hold ::
  "(('a) k8s_object_scheme, 'st) kit \<Rightarrow> string \<Rightarrow> string \<Rightarrow> (('a) k8s_object_scheme, 'u) pass \<Rightarrow>
   (('a) k8s_object_scheme, 'u) outcome" where
  "hold k \<equiv> refuse k (30 * second)"

abbreviation conflict ::
  "(('a) k8s_object_scheme, 'st) kit \<Rightarrow> string \<Rightarrow> string \<Rightarrow> (('a) k8s_object_scheme, 'u) pass \<Rightarrow>
   (('a) k8s_object_scheme, 'u) outcome" where
  "conflict k \<equiv> refuse k (5 * minute)"

text \<open>A reference: an error fails the pass with one reason, a wait reason holds it with another.\<close>

definition with_resolved ::
  "(('a) k8s_object_scheme, 'st) kit \<Rightarrow> string \<Rightarrow> string \<Rightarrow> 'r resolve \<Rightarrow>
   ('r \<Rightarrow> (('a) k8s_object_scheme, 'u) pass \<Rightarrow> (('a) k8s_object_scheme, 'u) outcome) \<Rightarrow>
   (('a) k8s_object_scheme, 'u) pass \<Rightarrow> (('a) k8s_object_scheme, 'u) outcome" where
  "with_resolved k failure waiting r rest s =
     (case r of
        Broken e \<Rightarrow> fail_with k failure e s
      | resolve.Wait m \<Rightarrow> hold k waiting m s
      | Resolved x \<Rightarrow> rest x s)"

text \<open>
  The opening of a pass on a live object: the client of its organization, the finalizer, the owner
  reference to the organization.
\<close>

definition begin_pass ::
  "(('a) k8s_object_scheme, 'st) kit \<Rightarrow> ('x) base_world_scheme \<Rightarrow> string \<Rightarrow> string \<Rightarrow>
   ((('a) k8s_object_scheme, 'u) pass \<Rightarrow> (('a) k8s_object_scheme, 'u) outcome) \<Rightarrow>
   (('a) k8s_object_scheme, 'u) pass \<Rightarrow> (('a) k8s_object_scheme, 'u) outcome" where
  "begin_pass k w fin orgName rest s =
     (case bw_client w of
        Some e \<Rightarrow> fail_with k ''OrganizationError'' e s
      | None \<Rightarrow> with_finalizer k fin (with_owner k (bw_get_org w) orgName rest) s)"

text \<open>
  The deletion: nothing without the finalizer, no call with the force annotation or for an object that
  was never realized (\<open>present\<close>), else the call, for which an object Uyuni does not know is no error.
\<close>

definition delete_call ::
  "(('a) k8s_object_scheme, 'st) kit \<Rightarrow> go_error option \<Rightarrow> string \<Rightarrow> 'u \<Rightarrow>
   (('a) k8s_object_scheme, 'u) pass \<Rightarrow> (('a) k8s_object_scheme, 'u) outcome" where
  "delete_call k client fin u s =
     (case client of
        Some e \<Rightarrow> return_error e s
      | None \<Rightarrow> call_or (kit_out k) u
          (\<lambda>e s1. if is_uyuni_not_found e then release k fin s1 else return_error e s1) (release k fin) s)"

definition delete_guarded ::
  "(('a) k8s_object_scheme, 'st) kit \<Rightarrow> string \<Rightarrow>
   ((('a) k8s_object_scheme, 'u) pass \<Rightarrow> (('a) k8s_object_scheme, 'u) outcome) \<Rightarrow>
   (('a) k8s_object_scheme, 'u) pass \<Rightarrow> (('a) k8s_object_scheme, 'u) outcome" where
  "delete_guarded k fin rest s =
     (if \<not> containsFinalizer (mem s) fin then (result_done, None, s)
      else if has_annotation (mem s) AnnForceDelete then release k fin s
      else rest s)"

definition delete_remote ::
  "(('a) k8s_object_scheme, 'st) kit \<Rightarrow> go_error option \<Rightarrow> string \<Rightarrow> bool \<Rightarrow> 'u \<Rightarrow>
   (('a) k8s_object_scheme, 'u) pass \<Rightarrow> (('a) k8s_object_scheme, 'u) outcome" where
  "delete_remote k client fin present u =
     delete_guarded k fin (\<lambda>s. if present then delete_call k client fin u s else release k fin s)"

text \<open>\<^verbatim>\<open>delete(obj.Annotations, a)\<close>.\<close>

definition strip_annotation :: "string \<Rightarrow> (('a) k8s_object_scheme, 'u) pass \<Rightarrow> (('a) k8s_object_scheme, 'u) pass" where
  "strip_annotation a s = s\<lparr>mem := (mem s)\<lparr>obj_annotations := (obj_annotations (mem s))(a := None)\<rparr>\<rparr>"

section \<open>What the steps leave\<close>

lemma call_log_of_kind_steps [simp]:
  "call_log (trace (pass_of (refuse k after r m s))) = call_log (trace s)"
  "trace (pass_of (return_error e s)) = trace s"
  by (simp_all add: refuse_def return_error_def)

lemma call_log_of_delete_call:
  "call_log (trace (pass_of (delete_call k client fin u s))) =
     call_log (trace s) @ (if client = None then [(u, kit_out k (length (trace s)) = None)] else [])"
  by (auto simp: delete_call_def call_or_eq split: option.split)

lemma call_log_of_delete_remote:
  "call_log (trace (pass_of (delete_remote k client fin present u s))) =
     call_log (trace s) @
     (if containsFinalizer (mem s) fin \<and> \<not> has_annotation (mem s) AnnForceDelete \<and> present \<and> client = None
      then [(u, kit_out k (length (trace s)) = None)] else [])"
  by (simp add: delete_remote_def delete_guarded_def call_log_of_delete_call)

context pass_rule
begin

lemma refuse_I: "I s \<Longrightarrow> I (pass_of (refuse k after r m s))"
  by (simp add: refuse_def save_ignoring_I become_I)

lemma with_resolved_I:
  assumes "I s" "\<And>x s. I s \<Longrightarrow> I (pass_of (rest x s))"
  shows "I (pass_of (with_resolved k f wt r rest s))"
  using assms by (simp add: with_resolved_def refuse_I fail_I split: resolve.split)

lemma strip_annotation_I: "I s \<Longrightarrow> I (strip_annotation a s)"
  by (simp add: strip_annotation_def annotations)

lemma begin_pass_I:
  assumes "I s" "\<And>s. I s \<Longrightarrow> I (pass_of (rest s))"
  shows "I (pass_of (begin_pass k w fin n rest s))"
  using assms by (simp add: begin_pass_def fail_I with_finalizer_I with_owner_I split: option.split)

lemma delete_call_I: "I s \<Longrightarrow> U u \<Longrightarrow> I (pass_of (delete_call k client fin u s))"
  by (simp add: delete_call_def call_or_I release_I return_I split: option.split)

lemma delete_guarded_I:
  assumes "I s" "\<And>s. I s \<Longrightarrow> I (pass_of (rest s))"
  shows "I (pass_of (delete_guarded k fin rest s))"
  using assms by (simp add: delete_guarded_def release_I)

lemma delete_remote_I: "I s \<Longrightarrow> (present \<Longrightarrow> U u) \<Longrightarrow> I (pass_of (delete_remote k client fin present u s))"
  by (simp add: delete_remote_def delete_guarded_I delete_call_I release_I)

end

section \<open>Invariants of object and calls\<close>

text \<open>A property of an object that no write and no status changes.\<close>

definition steady :: "(('a) k8s_object_scheme, 'st) kind_ops \<Rightarrow> (('a) k8s_object_scheme \<Rightarrow> bool) \<Rightarrow> bool" where
  "steady K Q = ((\<forall>st x. Q (with_status K st x) = Q x) \<and> (\<forall>fs x. Q (x\<lparr>obj_finalizers := fs\<rparr>) = Q x) \<and>
     (\<forall>as x. Q (x\<lparr>obj_annotations := as\<rparr>) = Q x) \<and> (\<forall>os x. Q (x\<lparr>obj_owners := os\<rparr>) = Q x))"

lemma steady_rule:
  assumes "steady (kit_ops k) Q" "\<And>l u ok. J l \<Longrightarrow> U u \<Longrightarrow> J (l @ [(u, ok)])"
  shows "pass_rule k (\<lambda>s. Q (mem s) \<and> J (call_log (trace s))) (\<lambda>_. True) U"
  using assms by unfold_locales (auto simp: steady_def set_st_def split: option.split)

lemma call_each_cases:
  "(\<exists>e s'. call_each out h us rest s = h e s') \<or>
   (\<exists>s'. call_each out h us rest s = rest s' \<and> mem s' = mem s \<and> stored s' = stored s \<and>
      call_log (trace s') = call_log (trace s) @ map (\<lambda>u. (u, True)) us)"
proof (induction us arbitrary: s)
  case (Cons u us)
  show ?case
  proof (cases "out (length (trace s))")
    case None
    then show ?thesis using Cons.IH [of "try_call out u s"] by (simp add: call_or_eq)
  next
    case (Some e)
    then show ?thesis by (auto simp: call_or_eq)
  qed
qed auto

text \<open>A sync of formulas changes its state by its store's two writes alone.\<close>

lemma data_loop_keeps:
  assumes "\<And>f d s. I s \<Longrightarrow> I (snd (fs_set_data S f d s))"
  shows "I s \<Longrightarrow> I (snd (data_loop S values applyData fs drift s))"
proof (induction fs arbitrary: drift s)
  case (Cons f fs)
  have "I (snd (fs_set_data S (fa_name f) d s))" for d using assms Cons.prems .
  then have "I s'" if "fs_set_data S (fa_name f) d s = (r, s')" for r s' d
    using that by (metis snd_conv)
  with Cons show ?case by (auto split: resolve.split sum.split option.split prod.split)
qed simp

lemma syncFormulas_keeps:
  assumes "\<And>f d s. I s \<Longrightarrow> I (snd (fs_set_data S f d s))" "\<And>fs s. I s \<Longrightarrow> I (snd (fs_assign S fs s))"
    and "I s"
  shows "I (snd (syncFormulas S avail values applyData formulas s))"
proof -
  have "I (snd (sync_data S values applyData formulas s'))" if "I s'" for s'
    using data_loop_keeps [of I S, OF assms(1) that, of "values" applyData formulas False]
    by (auto simp: sync_data_def split: prod.split resolve.split)
  moreover have "I s'" if "fs_assign S fs s = (r, s')" for fs r s'
    using assms(2) [OF assms(3), of fs] that by simp
  ultimately show ?thesis using assms(3)
    by (auto simp: syncFormulas_def Let_def split: resolve.split sum.split option.split prod.split)
qed

end
