(* ===== verification/System_Facts.thy ===== *)
theory System_Facts
  imports System_Controller Kind_Steps
begin

text \<open>
  What a pass on a System does and does not do: it touches only the Uyuni system it matched, it is
  silent on a system that is as wanted, it deletes and reinstalls only when asked to, and where it
  falls short of its comments.
\<close>

section \<open>One step at a time\<close>

lemma system_kind_simps [simp]:
  "status_of system_kind x = sys_status x" "with_status system_kind st x = x\<lparr>sys_status := st\<rparr>"
  by (simp_all add: system_kind_def)

lemma system_kit_simps [simp]:
  "kit_ops (system_kit w) = system_kind" "kit_out (system_kit w) = sw_out w"
  "kit_ssc (system_kit w) = sw_ssc w" "kit_conditions (system_kit w) = syss_conditions_update"
  by (simp_all add: system_kit_def)

text \<open>The Uyuni systems a call addresses.\<close>

fun call_target :: "'f sys_call \<Rightarrow> int list" where
  "call_target (CreateSystemProfile _ _ _) = []"
| "call_target (ProvisionSystem i _ _) = [i]"
| "call_target (SetSystemDetails i _ _) = [i]"
| "call_target (SetBaseChannel i _) = [i]"
| "call_target (SetChildChannels i _) = [i]"
| "call_target (ScheduleChangeChannels i _ _ _) = [i]"
| "call_target (SetSystemConfigChannels i _) = [i]"
| "call_target (AddSystemsToGroup _ is) = is"
| "call_target (RemoveSystemsFromGroup _ is) = is"
| "call_target (AddEntitlements i _) = [i]"
| "call_target (RemoveEntitlements i _) = [i]"
| "call_target (SetCustomInfo i _) = [i]"
| "call_target (DeleteCustomInfo i _) = [i]"
| "call_target (SetFormulas i _) = [i]"
| "call_target (SetFormulaData i _ _) = [i]"
| "call_target (ChangeProxy is _) = is"
| "call_target (ScheduleHighstate is _ _) = is"
| "call_target (DeleteSystem i) = [i]"
| "call_target (PutCobblerSystem _ _ _) = []"
| "call_target (AnnotateCobblerSystem _ _ _) = []"

definition on_server :: "('f sys_call \<Rightarrow> bool) \<Rightarrow> system_spec \<Rightarrow> int \<Rightarrow> 'f sys_pass \<Rightarrow> bool" where
  "on_server U sp i s = (sys_spec (mem s) = sp \<and> server_id s = i \<and>
     pred_option (\<lambda>st. syss_uyuni_server_id (sys_status st) = i) (stored s) \<and> only_calls U s)"

definition keeps_id :: "(system_status \<Rightarrow> system_status) \<Rightarrow> bool" where
  "keeps_id f = (\<forall>st. syss_uyuni_server_id (f st) = syss_uyuni_server_id st)"

lemma on_server_set: "on_server U sp i s \<Longrightarrow> keeps_id f \<Longrightarrow> on_server U sp i (set_st (system_kit w) f s)"
  by (simp add: on_server_def keeps_id_def) (simp add: set_st_def)

lemma on_server_rule:
  fixes U :: "'f sys_call \<Rightarrow> bool"
  shows "pass_rule (system_kit w) (on_server U sp i) keeps_id U"
proof
  fix s :: "'f sys_pass" and f :: "system_status \<Rightarrow> system_status"
  assume "on_server U sp i s" "keeps_id f"
  then show "on_server U sp i (set_st (system_kit w) f s)"
    by (rule on_server_set)
next
  fix s :: "'f sys_pass"
  assume "on_server U sp i s"
  then show "on_server U sp i (snd (write_status (kit_out (system_kit w)) (kit_ops (system_kit w)) s))"
    by (cases "stored s") (auto simp: on_server_def)
next
  fix s :: "'f sys_pass"
  assume "on_server U sp i s"
  then show "on_server U sp i (snd (write_object (kit_out (system_kit w)) (kit_ops (system_kit w)) s))"
    by (cases "stored s") (auto simp: on_server_def collected_def)
qed (auto simp: on_server_def keeps_id_def option.pred_map split: if_splits)

lemma keep_system_id: "syss_uyuni_server_id (keep_system a b) = keep_int (syss_uyuni_server_id a) (syss_uyuni_server_id b)"
  by (simp add: keep_system_def)

lemma on_server_refresh:
  assumes "on_server U sp i s"
  shows "on_server U sp i (snd (refresh (system_kit w) keep_system s))"
proof -
  let ?s1 = "snd (write_object (kit_out (system_kit w)) (kit_ops (system_kit w)) s)"
  have s1: "on_server U sp i ?s1"
    by (rule pass_rule.object_write [OF on_server_rule assms])
  then have "on_server U sp i (set_st (system_kit w) (keep_system (sys_status (mem s))) ?s1)"
    using assms by (auto simp: on_server_def set_st_def keep_system_id keep_int_def simp del: write_object_simps)
  with s1 show ?thesis by (simp add: refresh_eq Let_def system_kind_def split: option.split del: write_object_simps)
qed


text \<open>
  The calls of the configuration steps, all of them on the system of the pass.  An invariant that
  allows them is kept by every step, if the rest of the pass keeps it.
\<close>

fun config_call :: "'f sys_call \<Rightarrow> bool" where
  "config_call (CreateSystemProfile _ _ _) = False"
| "config_call (ProvisionSystem _ _ _) = False"
| "config_call (DeleteSystem _) = False"
| "config_call (PutCobblerSystem _ _ _) = False"
| "config_call (AnnotateCobblerSystem _ _ _) = False"
| "config_call _ = True"

locale system_rule = pass_rule "system_kit w" I keeps_id U
  for w :: "'f system_world" and I :: "'f sys_pass \<Rightarrow> bool" and U :: "'f sys_call \<Rightarrow> bool" +
  assumes allowed: "I s \<Longrightarrow> config_call u \<Longrightarrow> set (call_target u) \<subseteq> {server_id s} \<Longrightarrow> U u"
    and refreshed: "I s \<Longrightarrow> I (snd (refresh (system_kit w) keep_system s))"
begin

lemma set_I: "I s \<Longrightarrow> keeps_id f \<Longrightarrow> I (sys_set w f s)"
  by (simp add: sys_set_def set_status)

lemma fail_step: "I s \<Longrightarrow> I (pass_of (sys_fail w r e s))"
  by (simp add: sys_fail_def fail_I)

lemma wait_step: "I s \<Longrightarrow> I (pass_of (sys_wait w r m s))"
  by (simp add: sys_wait_def save_with_I become_I)

lemma call_step:
  assumes "I s" "config_call u" "set (call_target u) \<subseteq> {server_id s}" "\<And>s. I s \<Longrightarrow> I (pass_of (next s))"
  shows "I (pass_of (sys_call w u next s))"
  using call_or_I [of s u "sys_fail w ''UpdateFailed''" "next"] assms allowed [OF assms(1-3)] fail_step
  by (simp add: sys_call_def)

lemma call_if_step:
  assumes "I s" "c \<Longrightarrow> config_call u \<and> set (call_target u) \<subseteq> {server_id s}" "\<And>s. I s \<Longrightarrow> I (pass_of (next s))"
  shows "I (pass_of (sys_call_if w c u next s))"
  using assms call_step by (simp add: sys_call_if_def)

lemma details_step: "I s \<Longrightarrow> (\<And>s. I s \<Longrightarrow> I (pass_of (next s))) \<Longrightarrow> I (pass_of (sys_details_step w cur next s))"
  by (simp add: sys_details_step_def Let_def call_if_step)

lemma drift_step: "I s \<Longrightarrow> I (sys_mark_drift w cur s)"
  by (simp add: sys_mark_drift_def set_I keeps_id_def)

lemma sync_groups_step:
  assumes "I s" "\<And>s. I s \<Longrightarrow> I (pass_of (next s))"
  shows "I (pass_of (sys_sync_groups w desired next s))"
proof -
  obtain add rm where d: "diffStringSets (syss_group_names (sys_status (mem s))) desired = (add, rm)" by fastforce
  let ?us = "map (\<lambda>n. AddSystemsToGroup n [server_id s]) add @ map (\<lambda>n. RemoveSystemsFromGroup n [server_id s]) rm"
  have "\<forall>u \<in> set ?us. U u" using allowed [OF assms(1)] by auto
  from call_each_I [OF assms(1) this, of "sys_fail w ''UpdateFailed''"
      "\<lambda>s1. next (sys_set w (\<lambda>st. st\<lparr>syss_group_names := desired\<rparr>) s1)"]
  show ?thesis using assms(2) by (simp add: sys_sync_groups_def d fail_step set_I keeps_id_def)
qed

lemma formula_store_step:
  assumes "I s" "server_id s = i"
  shows "I (snd (fs_assign (serverFormulas (sys_formula_api w) i) fs s))"
    and "I (snd (fs_set_data (serverFormulas (sys_formula_api w) i) f d s))"
    and "server_id (snd (fs_assign (serverFormulas (sys_formula_api w) i) fs s)) = i"
    and "server_id (snd (fs_set_data (serverFormulas (sys_formula_api w) i) f d s)) = i"
  using call [OF assms(1), of "SetFormulas i fs"] call [OF assms(1), of "SetFormulaData i f d"]
    allowed [OF assms(1), of "SetFormulas i fs"] allowed [OF assms(1), of "SetFormulaData i f d"] assms
  by (simp_all add: serverFormulas_def sys_formula_api_def SetServerFormulas_def)

lemma formulas_step:
  assumes "I s"
  shows "I (snd (sys_reconcileFormulas w s))"
proof -
  let ?S = "serverFormulas (sys_formula_api w) (server_id s)"
  let ?sync = "syncFormulas ?S (su_formulas w) (resolveFormulaValues (sw_reader w) (obj_namespace (mem s)))
    (sys_apply_data (mem s)) (sys_formulas (sys_spec (mem s))) s"
  have "I (snd ?sync) \<and> server_id (snd ?sync) = server_id s"
    by (rule syncFormulas_keeps [of "\<lambda>s'. I s' \<and> server_id s' = server_id s"])
      (use assms formula_store_step in auto)
  then have "I s1" if "?sync = (r, s1)" for r s1 using that by simp
  moreover have "I (snd (sys_data_applied w s1))" if "I s1" for s1
    using refreshed annotations set_I [OF that, of "\<lambda>st. st\<lparr>syss_formula_data_generation := g\<rparr>" for g]
    by (simp add: sys_data_applied_def Let_def keeps_id_def drop_annotation_def split: prod.split option.split)
      (metis snd_conv)
  then have "I s2" if "I s1" "sys_data_applied w s1 = (r, s2)" for r s1 s2 using that by (metis snd_conv)
  moreover have "I (sys_mark_formulas w desired drift s1)" if "I s1" for desired drift s1
    using that mark_I by (simp add: sys_mark_formulas_def set_I keeps_id_def)
  ultimately show ?thesis
    by (auto simp: sys_reconcileFormulas_def Let_def split: prod.splits resolve.splits)
qed

lemma formula_step:
  assumes "I s" "\<And>s. I s \<Longrightarrow> I (pass_of (next s))"
  shows "I (pass_of (sys_formula_step w next s))"
proof -
  obtain r s1 where f: "sys_reconcileFormulas w s = (r, s1)" by fastforce
  then have "I s1" using formulas_step [OF assms(1)] by simp
  then show ?thesis using assms(2) f
    by (simp add: sys_formula_step_def fail_step wait_step split: resolve.split)
qed

lemma bootstrap_formulas_step: "I s \<Longrightarrow> I (pass_of (sys_bootstrap_formulas w s))"
proof -
  assume s: "I s"
  obtain r s1 where f: "sys_reconcileFormulas w s = (r, s1)" by fastforce
  then have "I s1" using formulas_step [OF s] by simp
  then show ?thesis using f by (simp add: sys_bootstrap_formulas_def fail_step wait_step split: resolve.split)
qed

lemma bootstrap_step: "I s \<Longrightarrow> I (pass_of (sys_bootstrap w s))"
  by (simp add: sys_bootstrap_def fail_step bootstrap_formulas_step sync_groups_step split: resolve.split)

lemma action_step: "I s \<Longrightarrow> I (snd (channelActionFailed w s))"
  by (simp add: channelActionFailed_def forget_action_def Let_def set_I keeps_id_def
      split: sum.split option.split)

lemma schedule_step:
  assumes "I s" "\<And>s. I s \<Longrightarrow> I (pass_of (next s))"
  shows "I (pass_of (sys_schedule_channels w res next s))"
  unfolding sys_schedule_channels_def
  by (rule call_step) (use assms in \<open>simp_all add: set_I keeps_id_def\<close>)

lemma subscribe_step:
  assumes "I s" "\<And>s. I s \<Longrightarrow> I (pass_of (next s))"
  shows "I (pass_of (sys_subscribe w cur res base children next s))"
proof -
  obtain failed s1 where a: "channelActionFailed w s = (failed, s1)" by fastforce
  then have "I s1" using action_step [OF assms(1)] by simp
  then show ?thesis using assms a
    by (cases failed) (simp_all add: sys_subscribe_def bootstrap_step schedule_step call_if_step)
qed

lemma channel_step:
  assumes "I s" "\<And>s. I s \<Longrightarrow> I (pass_of (next s))"
  shows "I (pass_of (sys_channel_step w cur next s))"
  using assms by (simp add: sys_channel_step_def fail_step wait_step subscribe_step set_I keeps_id_def Let_def split: sum.split)

lemma config_step:
  assumes "I s" "\<And>s. I s \<Longrightarrow> I (pass_of (next s))"
  shows "I (pass_of (sys_config_step w next s))"
  using assms by (simp add: sys_config_step_def fail_step wait_step call_if_step set_I keeps_id_def split: resolve.split)

lemma group_step:
  assumes "I s" "\<And>s. I s \<Longrightarrow> I (pass_of (next s))"
  shows "I (pass_of (sys_group_step w next s))"
  using assms by (simp add: sys_group_step_def fail_step wait_step sync_groups_step split: resolve.split)

lemma addon_step:
  assumes "I s" "\<And>s. I s \<Longrightarrow> I (pass_of (next s))"
  shows "I (pass_of (sys_addon_step w next s))"
proof -
  let ?i = "server_id s" and ?done = "\<lambda>s1. next (sys_set w (\<lambda>st. st\<lparr>syss_active_add_ons := sys_add_ons (sys_spec (mem s))\<rparr>) s1)"
  have ended: "I (pass_of (?done s1))" if "I s1" for s1 using assms(2) that by (simp add: set_I keeps_id_def)
  have remove: "I (pass_of (sys_call_if w c (RemoveEntitlements ?i rm) ?done s1))"
    if "I s1" "U (RemoveEntitlements ?i rm)" for c rm s1
    using that call_or_I [of s1 "RemoveEntitlements ?i rm" "sys_fail w ''UpdateFailed''" ?done] ended fail_step
    by (simp add: sys_call_if_def sys_call_def)
  have U: "U (RemoveEntitlements ?i rm)" "U (AddEntitlements ?i add)" for rm add
    using allowed [OF assms(1)] by simp_all
  show ?thesis
  proof (cases "not_found_or [] (su_entitlements w ?i)")
    case (Inl e)
    then show ?thesis using assms(1) by (simp add: sys_addon_step_def fail_step)
  next
    case (Inr ents)
    obtain add rm where d: "diffStringSets (filterOutBaseEntitlements ents) (sys_add_ons (sys_spec (mem s))) = (add, rm)"
      by fastforce
    show ?thesis using Inr d
      call_or_I [OF assms(1) U(2) [of add], of "\<lambda>e s1. if str_contains (err_text e) ''Invalid entitlement''
        then sys_wait w ''WaitingForBaseEntitlement'' no_base_message s1 else sys_fail w ''UpdateFailed'' e s1"
        "sys_call_if w (rm \<noteq> []) (RemoveEntitlements ?i rm) ?done"] remove U(1) assms(1)
      by (simp add: sys_addon_step_def fail_step wait_step Let_def)
  qed
qed

lemma info_step:
  assumes "I s" "\<And>s. I s \<Longrightarrow> I (pass_of (next s))"
  shows "I (pass_of (sys_info_step w next s))"
  using assms
  by (simp add: sys_info_step_def fail_step wait_step call_if_step split: resolve.split sum.split prod.split)

lemma proxy_step:
  assumes "I s" "\<And>s. I s \<Longrightarrow> I (pass_of (next s))"
  shows "I (pass_of (sys_proxy_step w next s))"
proof -
  have call_ok: "I (snd (attempt (sw_out w) (Call (ChangeProxy [server_id s] i)) s))" for i
    using call [OF assms(1), of "ChangeProxy [server_id s] i"] allowed [OF assms(1), of "ChangeProxy [server_id s] i"]
    by simp
  obtain r s1 where p: "reconcileProxy w s = (r, s1)" by fastforce
  have "I s1" if "attempt (sw_out w) (Call (ChangeProxy [server_id s] i)) s = (e, s1)" for i e s1
    using call_ok [of i] that by simp
  then have "I s1" using p assms(1)
    by (auto simp: reconcileProxy_def set_I keeps_id_def split: resolve.splits if_splits prod.splits option.splits)
  then show ?thesis using assms(2) p
    by (simp add: sys_proxy_step_def fail_step wait_step split: resolve.split)
qed

lemma finish_step: "I s \<Longrightarrow> I (pass_of (sys_finish w cur s))"
  unfolding sys_finish_def Let_def
  by (rule call_if_step)
    (simp_all add: set_I keeps_id_def autoinstall_progress_def save_and_I become_I mark_I split: sum.split option.split)

lemma configure:
  assumes "I s" "\<not> has_annotation (mem s) AnnReinstallNow"
  shows "I (pass_of (applyConfig w cur s))"
  using assms
  by (simp add: applyConfig_def details_step drift_step channel_step config_step group_step addon_step info_step
      formula_step proxy_step finish_step)

end

text \<open>The steps before the system is found address no system.\<close>

locale system_start = pass_rule "system_kit w" I keeps_id U
  for w :: "'f system_world" and I :: "'f sys_pass \<Rightarrow> bool" and U :: "'f sys_call \<Rightarrow> bool" +
  assumes untargeted: "call_target u = [] \<Longrightarrow> U u"
begin

lemmas start_call_or = call_or_I [unfolded system_kit_simps]

lemma start_set: "I s \<Longrightarrow> keeps_id f \<Longrightarrow> I (sys_set w f s)"
  by (simp add: sys_set_def set_status)

lemma start_call: "I s \<Longrightarrow> call_target u = [] \<Longrightarrow> attempt (sw_out w) (Call u) s = (r, s1) \<Longrightarrow> I s1"
  using call [of s u] untargeted [of u] by simp

lemma cobbler_step:
  assumes "I s"
  shows "I (snd (reconcileCobblerSystem w s))"
proof -
  have "I s1" if "attempt (sw_out w) (Call (PutCobblerSystem a b c)) s = (r, s1)" for a b c r s1
    using start_call [OF assms _ that] by simp
  then have "I s1" if "put_cobbler w x label vars s = (r, s1)" for x label vars r s1
    using that assms by (auto simp: put_cobbler_def Let_def split: sum.splits if_splits)
  moreover have "keeps_id (\<lambda>st. st\<lparr>syss_cobbler_system_name := n\<rparr>)" for n by (simp add: keeps_id_def)
  ultimately show ?thesis using assms
    by (auto simp: reconcileCobblerSystem_def Let_def start_set split: resolve.split prod.split option.split)
qed

lemma netboot_step:
  assumes "I s"
  shows "I (snd (reconcileNetbootAnnotation w s))"
proof -
  have "I (snd (write_object (sw_out w) system_kind (drop_annotation AnnNetboot s)))"
    using object_write [OF annotations [OF assms]] by (simp add: drop_annotation_def)
  then have "I s1" if "write_object (sw_out w) system_kind (drop_annotation AnnNetboot s) = (r, s1)" for r s1
    using that by simp
  moreover have "I s1" if "attempt (sw_out w) (Call (AnnotateCobblerSystem a b c)) s = (r, s1)" for a b c r s1
    using start_call [OF assms _ that] by simp
  ultimately show ?thesis using assms
    by (auto simp: reconcileNetbootAnnotation_def Let_def split: option.split sum.split prod.split)
qed

end

interpretation start_calls: system_start w "only_calls (\<lambda>u. call_target u = [])" "\<lambda>u. call_target u = []"
  for w :: "'f system_world"
  by unfold_locales (simp_all add: keeps_id_def)

interpretation start_server: system_start w "on_server (\<lambda>u. call_target u = []) sp i" "\<lambda>u. call_target u = []"
  for w :: "'f system_world" and sp i
  by (intro system_start.intro on_server_rule system_start_axioms.intro)

interpretation on_match: system_rule w "on_server (\<lambda>u. set (call_target u) \<subseteq> {i}) sp i"
    "\<lambda>u. set (call_target u) \<subseteq> {i}"
  for w :: "'f system_world" and sp i
  by (intro system_rule.intro on_server_rule system_rule_axioms.intro on_server_refresh) (simp_all add: on_server_def)

lemma not_registered_untargeted:
  assumes "only_calls (\<lambda>u. call_target u = []) s"
  shows "only_calls (\<lambda>u. call_target u = []) (pass_of (handleNotRegistered w s))"
proof -
  let ?O = "only_calls (\<lambda>u. call_target u = [])"
  have "?O (pass_of (sys_wait_registration w s))" if "?O s" for s
    using that by (simp add: sys_wait_registration_def start_calls.save_and_I start_calls.become_I)
  moreover have "?O (pass_of (sys_pre_provision w s))"
    unfolding sys_pre_provision_def Let_def
    by (rule start_calls.start_call_or)
      (use assms in \<open>simp_all add: sys_fail_def sys_set_def start_calls.save_ignoring_I start_calls.save_and_I
          start_calls.become_I start_calls.mark_I start_calls.fail_I\<close>)
  ultimately show ?thesis using assms
    by (simp add: handleNotRegistered_def Let_def sys_set_def start_calls.save_ignoring_I start_calls.become_I
        split: option.split)
qed


lemma only_calls_mono: "only_calls U s \<Longrightarrow> (\<And>u. U u \<Longrightarrow> V u) \<Longrightarrow> only_calls V s"
  by (auto simp: only_calls_def)

lemma findOrAdopt_sound:
  assumes "fst (findOrAdopt w sp i) = Inr (Some d)"
  shows "systemMatchesSpec sp d" and "snd (findOrAdopt w sp i) = i"
proof -
  have "systemMatchesSpec sp d" if "mac_loop w sp nics = Inr (Some d)" for nics
    using that by (induction nics) (auto split: sum.splits if_splits)
  then have "systemMatchesSpec sp d" if "by_minion_or_mac w sp = Inr (Some d)"
    using that by (auto simp: by_minion_or_mac_def Let_def split: sum.splits if_splits)
  then show "systemMatchesSpec sp d" "snd (findOrAdopt w sp i) = i"
    using assms by (auto simp: findOrAdopt_def split: sum.splits if_splits)
qed

text \<open>The calls a live pass may make: none on a system but the one it matched.\<close>

definition on_found :: "'f system_world \<Rightarrow> system_spec \<Rightarrow> int \<Rightarrow> 'f sys_call \<Rightarrow> bool" where
  "on_found w sp i u = (\<forall>t \<in> set (call_target u). \<exists>d. fst (findOrAdopt w sp i) = Inr (Some d) \<and> sd_id d = t)"

lemma untargeted_found: "only_calls (\<lambda>u. call_target u = []) s \<Longrightarrow> only_calls (on_found w sp i) s"
  by (erule only_calls_mono) (simp add: on_found_def)

lemma matched_found:
  "fst (findOrAdopt w sp i) = Inr (Some d) \<Longrightarrow> on_server (\<lambda>u. set (call_target u) \<subseteq> {sd_id d}) sp j s \<Longrightarrow>
   only_calls (on_found w sp i) s"
  unfolding on_server_def by (elim conjE, erule only_calls_mono) (auto simp: on_found_def)

lemma reinstall_step:
  fixes w :: "'f system_world"
  assumes "on_server (\<lambda>u. set (call_target u) \<subseteq> {i}) sp i s"
  shows "on_server (\<lambda>u. set (call_target u) \<subseteq> {i}) sp i (pass_of (sys_reinstall w s))"
proof -
  let ?I = "on_server (\<lambda>u. set (call_target u) \<subseteq> {i}) sp i :: 'f sys_pass \<Rightarrow> bool"
  have dropped: "?I (drop_annotation a s)" if "?I s" for a s
    using on_match.annotations [OF that] by (simp add: drop_annotation_def)
  have strip: "?I (pass_of (update_with (system_kit w) res (drop_annotation a s)))" if "?I s" for res a s
    by (rule on_match.update_with_I, rule dropped, rule that)
  have i: "server_id s = i" using assms by (simp add: on_server_def)
  have "?I (pass_of (sys_schedule_reinstall w ai label s))" for ai label
    unfolding sys_schedule_reinstall_def Let_def
    by (rule on_match.call_or_I [unfolded system_kit_simps])
      (use assms i in \<open>simp_all add: on_match.fail_step on_match.save_then_I strip
          on_match.become_I on_match.mark_I on_match.set_I keeps_id_def\<close>)
  then show ?thesis using assms
    by (simp add: sys_reinstall_def Let_def on_match.save_ignoring_I on_match.become_I on_match.fail_step
        split: option.split resolve.split)
qed

lemma apply_on_match:
  assumes "on_server (\<lambda>u. set (call_target u) \<subseteq> {i}) sp i s"
  shows "on_server (\<lambda>u. set (call_target u) \<subseteq> {i}) sp i (pass_of (applyConfig w d s))"
  using assms reinstall_step [OF assms] on_match.configure [OF assms]
  by (cases "has_annotation (mem s) AnnReinstallNow") (simp_all add: applyConfig_def)

lemma find_on_found:
  fixes w :: "'f system_world"
  assumes "on_server (\<lambda>u. call_target u = []) sp i s"
  shows "only_calls (on_found w sp i) (pass_of (sys_find w s))"
proof -
  have sp: "sys_spec (mem s) = sp" "server_id s = i" and un: "only_calls (\<lambda>u. call_target u = []) s"
    using assms by (simp_all add: on_server_def)
  obtain r j where f: "findOrAdopt w sp i = (r, j)" by fastforce
  let ?set = "\<lambda>x. sys_set w (\<lambda>st. st\<lparr>syss_uyuni_server_id := x\<rparr>)"
  have un1: "only_calls (\<lambda>u. call_target u = []) (?set x s)" for x using un by (simp add: sys_set_def)
  show ?thesis
  proof (cases r)
    case (Inl e)
    have "only_calls (\<lambda>u. call_target u = []) (pass_of (sys_fail w ''ProviderError'' e (?set j s)))"
      unfolding sys_fail_def by (rule start_calls.fail_I, rule un1)
    then show ?thesis using f Inl sp by (simp add: sys_find_def untargeted_found)
  next
    case r: (Inr found)
    show ?thesis
    proof (cases found)
      case None
      then show ?thesis using f r sp untargeted_found [OF not_registered_untargeted [OF un1]]
        by (simp add: sys_find_def)
    next
      case (Some d)
      then have j: "j = i" and found: "fst (findOrAdopt w sp i) = Inr (Some d)"
        using f r findOrAdopt_sound(2) [of w sp i d] by simp_all
      let ?U = "\<lambda>u :: 'f sys_call. set (call_target u) \<subseteq> {sd_id d}"
      have weaker: "only_calls ?U s'" if "only_calls (\<lambda>u. call_target u = []) s'" for s'
        using that by (rule only_calls_mono) simp
      have goal: "only_calls (on_found w sp i) (pass_of (applyConfig w d s'))" if "on_server ?U sp (sd_id d) s'" for s'
        using matched_found [OF found apply_on_match [OF that]] .
      show ?thesis
      proof (cases "sd_id d = i")
        case True
        then have "on_server ?U sp (sd_id d) (?set i s)"
          using assms weaker [OF un1] by (simp add: on_server_def sys_set_def) (simp add: set_st_def)
        then show ?thesis using f r Some sp j True goal by (simp add: sys_find_def Let_def sys_set_def set_st_def)
      next
        case False
        let ?s = "?set (sd_id d) (?set i s)"
        obtain e s2 where wr: "write_status (sw_out w) system_kind ?s = (e, s2)" by fastforce
        have "e = sw_out w (length (trace s))" and s2: "s2 = snd (write_status (sw_out w) system_kind ?s)"
          using wr write_status_simps(1) [of "sw_out w" system_kind ?s] by (simp_all add: sys_set_def)
        then have "on_server ?U sp (sd_id d) s2" if "e = None"
          using that assms weaker [OF un1] unfolding s2
          by (cases "stored s") (simp_all add: on_server_def sys_set_def, simp_all add: set_st_def)
        moreover have "only_calls (on_found w sp i) s2"
          unfolding s2 using untargeted_found un by (simp add: sys_set_def)
        ultimately show ?thesis using f r Some sp j False goal wr
          by (simp add: sys_find_def save_then_def sys_set_def set_st_def split: option.split)
      qed
    qed
  qed
qed

text \<open>All the calls of a live pass.\<close>

locale system_calls =
  fixes w :: "'f system_world" and U :: "'f sys_call \<Rightarrow> bool"
  assumes configuring: "config_call u \<Longrightarrow> U u"
    and addressless: "call_target u = [] \<Longrightarrow> U u"
    and reinstalling: "U (ProvisionSystem i l t)"
begin

sublocale start: system_start w "only_calls U" U
  by unfold_locales (simp_all add: addressless keeps_id_def)

sublocale steps: system_rule w "only_calls U" U
  by unfold_locales (simp_all add: configuring refresh_eq Let_def split: option.split)

lemma reinstall_calls: "only_calls U s \<Longrightarrow> only_calls U (pass_of (sys_reinstall w s))"
proof -
  assume s: "only_calls U s"
  have "only_calls U (pass_of (sys_schedule_reinstall w ai label s))" for ai label
    unfolding sys_schedule_reinstall_def Let_def
    by (rule start.start_call_or)
      (use s in \<open>simp_all add: reinstalling steps.fail_step start.save_then_I start.update_with_I drop_annotation_def
          start.become_I start.mark_I sys_set_def\<close>)
  then show ?thesis using s
    by (simp add: sys_reinstall_def Let_def start.save_ignoring_I start.become_I steps.fail_step
        split: option.split resolve.split)
qed

lemma apply_calls: "only_calls U s \<Longrightarrow> only_calls U (pass_of (applyConfig w d s))"
  using reinstall_calls steps.configure
  by (cases "has_annotation (mem s) AnnReinstallNow") (simp_all add: applyConfig_def)

lemma unregistered_calls: "only_calls U s \<Longrightarrow> only_calls U (pass_of (handleNotRegistered w s))"
proof -
  assume s: "only_calls U s"
  have "only_calls U (pass_of (sys_wait_registration w s'))" if "only_calls U s'" for s'
    using that by (simp add: sys_wait_registration_def start.save_and_I start.become_I)
  moreover have "only_calls U (pass_of (sys_pre_provision w s))"
    unfolding sys_pre_provision_def Let_def
    by (rule start.start_call_or)
      (use s in \<open>simp_all add: addressless sys_fail_def sys_set_def start.save_ignoring_I start.save_and_I
          start.become_I start.mark_I start.fail_I\<close>)
  ultimately show ?thesis using s
    by (simp add: handleNotRegistered_def Let_def sys_set_def start.save_ignoring_I start.become_I
        split: option.split)
qed

lemma find_calls: "only_calls U s \<Longrightarrow> only_calls U (pass_of (sys_find w s))"
  by (simp add: sys_find_def Let_def steps.fail_step unregistered_calls apply_calls start.save_then_I sys_set_def
      split: prod.split sum.split option.split)

lemma realize_calls:
  assumes "only_calls U s"
  shows "only_calls U (pass_of (sys_realize w s))"
proof -
  obtain e s1 where c: "reconcileCobblerSystem w s = (e, s1)" by fastforce
  then have s1: "only_calls U s1" using start.cobbler_step [OF assms] by simp
  obtain b s2 where n: "reconcileNetbootAnnotation w s1 = (b, s2)" by fastforce
  then have s2: "only_calls U s2" using start.netboot_step [OF s1] by simp
  show ?thesis using c n s1 s2
    by (simp add: sys_realize_def steps.fail_step find_calls split: option.split sum.split bool.split)
qed

lemma live_pass: "\<not> obj_deleting sys \<Longrightarrow> only_calls U (pass_of (sys_Reconcile w sys))"
  by (simp add: sys_Reconcile_def Let_def start.update_with_I steps.fail_step start.with_finalizer_I start.with_owner_I
      realize_calls split: prod.split bool.split option.split)

end

interpretation no_delete: system_calls w "\<lambda>u. \<forall>i. u \<noteq> DeleteSystem i" for w :: "'f system_world"
  by unfold_locales auto

text \<open>What a live pass calls.\<close>

lemma live_pass_found:
  fixes w :: "'f system_world"
  assumes "\<not> obj_deleting sys"
  shows "only_calls (on_found w (sys_spec sys) (syss_uyuni_server_id (sys_status sys))) (pass_of (sys_Reconcile w sys))"
proof -
  let ?sp = "sys_spec sys" and ?i = "syss_uyuni_server_id (sys_status sys)"
  let ?pre = "on_server (\<lambda>u. call_target u = []) ?sp ?i :: 'f sys_pass \<Rightarrow> bool"
    and ?ok = "only_calls (on_found w ?sp ?i) :: 'f sys_pass \<Rightarrow> bool"
  have pre_ok: "?ok s" if "?pre s" for s
    using that untargeted_found [of s w ?sp ?i] by (simp add: on_server_def)
  have realize: "?ok (pass_of (sys_realize w s))" if s: "?pre s" for s
  proof -
    obtain e s1 where c: "reconcileCobblerSystem w s = (e, s1)" by fastforce
    then have s1: "?pre s1" using start_server.cobbler_step [OF s, of w] by simp
    obtain b s2 where n: "reconcileNetbootAnnotation w s1 = (b, s2)" by fastforce
    then have s2: "?pre s2" using start_server.netboot_step [OF s1, of w] by simp
    show ?thesis using c n pre_ok [OF start_server.fail_I [OF s1]] pre_ok [OF start_server.fail_I [OF s2]]
        pre_ok [OF s2] find_on_found [OF s2]
      by (simp add: sys_realize_def sys_fail_def split: option.split sum.split bool.split)
  qed
  have start: "?pre (start_pass sys)" by (simp add: on_server_def)
  have owner: "?ok (pass_of (with_owner (system_kit w) getOrg n (sys_realize w) s))" if "?pre s" for getOrg :: "organization k8s_get" and n s
  proof -
    obtain e s1 where o': "own_organization (sw_out w) system_kind getOrg n s = (e, s1)" by fastforce
    then have "?pre s1" using start_server.own_organization_I [OF that, of w getOrg n] by simp
    then show ?thesis using o' pre_ok realize by (simp add: with_owner_def return_error_def split: option.split)
  qed
  have "?ok (pass_of (with_finalizer (system_kit w) sysFinalizer (with_owner (system_kit w) getOrg n (sys_realize w))
      (start_pass sys)))" for getOrg :: "organization k8s_get" and n
    using owner [OF start] by (simp add: with_finalizer_eq Let_def)
  moreover have "?ok (pass_of (update_with (system_kit w) res ((start_pass sys)\<lparr>mem := x\<rparr>)))" for res x
    by (simp add: update_with_def split: prod.split)
  ultimately show ?thesis
    using assms pre_ok [OF start_server.fail_I [OF start]]
    by (simp add: sys_Reconcile_def Let_def sys_fail_def split: prod.split bool.split option.split)
qed

text \<open>What a pass on a resource under deletion calls.\<close>

lemma leave_groups_simps [simp]:
  "mem (leave_groups w ns s) = mem s" "stored (leave_groups w ns s) = stored s"
  "DeleteSystem i \<in> fst ` set (call_log (trace (leave_groups w ns s))) \<longleftrightarrow> DeleteSystem i \<in> fst ` set (call_log (trace s))"
  by (induction ns arbitrary: s) (simp_all add: image_Un)

lemma leave_groups_targets:
  "(u, ok) \<in> set (call_log (trace (leave_groups w ns s))) \<Longrightarrow>
     (u, ok) \<in> set (call_log (trace s)) \<or> call_target u = [server_id s]"
  by (induction ns arbitrary: s) fastforce+

lemma deletion_targets:
  assumes "obj_deleting sys" "(u, ok) \<in> set (call_log (trace (pass_of (sys_Reconcile w sys))))"
  shows "call_target u = [syss_uyuni_server_id (sys_status sys)] \<and> syss_uyuni_server_id (sys_status sys) \<noteq> 0"
proof -
  let ?s = "leave_groups w (syss_group_names (sys_status sys)) (start_pass sys)"
  obtain b sys' where m: "migrateAnnotations (sw_legacy w) sys = (b, sys')" by fastforce
  have "\<not> b" using assms(2) m by (auto simp: sys_Reconcile_def update_with_def Let_def split: prod.splits bool.splits)
  then have "syss_uyuni_server_id (sys_status sys) \<noteq> 0 \<and>
      ((u, ok) \<in> set (call_log (trace ?s)) \<or> u = DeleteSystem (syss_uyuni_server_id (sys_status sys)))"
    using assms m
    by (auto simp: sys_Reconcile_def sys_handleDeletion_def sys_release_def call_or_eq return_error_def Let_def
        split: if_splits option.splits)
  then show ?thesis using leave_groups_targets [of u ok w _ "start_pass sys"] by auto
qed

lemma findOrAdopt_reported:
  assumes "fst (findOrAdopt w sp i) = Inr (Some d)"
  shows "i \<noteq> 0 \<and> su_details w i = Inr d \<or> su_by_minion w (sys_minion_id sp) = Inr d \<or>
    (\<exists>n\<in>set (sys_network sp). ni_mac_address n \<noteq> [] \<and> su_by_mac w (ni_mac_address n) = Inr d)"
proof -
  have mac: "\<exists>n\<in>set nics. ni_mac_address n \<noteq> [] \<and> su_by_mac w (ni_mac_address n) = Inr d"
    if "mac_loop w sp nics = Inr (Some d)" for nics
    using that by (induction nics) (auto split: sum.splits if_splits)
  have "su_by_minion w (sys_minion_id sp) = Inr d \<or>
      (\<exists>n\<in>set (sys_network sp). ni_mac_address n \<noteq> [] \<and> su_by_mac w (ni_mac_address n) = Inr d)"
    if "by_minion_or_mac w sp = Inr (Some d)"
    using that mac by (auto simp: by_minion_or_mac_def Let_def split: sum.splits if_splits)
  then show ?thesis
    using assms by (auto simp: findOrAdopt_def split: sum.splits if_splits)
qed

text \<open>
  The system \<open>i\<close> is the one of the spec: Uyuni reports it for the recorded id, for the minion id or for
  the address of a network card of the spec, and it has the minion id of the spec, or the host name
  of the spec when it is not registered or has no minion id.
\<close>

definition system_of_spec :: "'f system_world \<Rightarrow> uyuni_system \<Rightarrow> int \<Rightarrow> bool" where
  "system_of_spec w sys i =
     (let sp = sys_spec sys; recorded = syss_uyuni_server_id (sys_status sys) in
      \<exists>d. sd_id d = i \<and>
        (recorded \<noteq> 0 \<and> su_details w recorded = Inr d \<or> su_by_minion w (sys_minion_id sp) = Inr d \<or>
         (\<exists>n\<in>set (sys_network sp). ni_mac_address n \<noteq> [] \<and> su_by_mac w (ni_mac_address n) = Inr d)) \<and>
        (if sd_base_entitlement d = ''bootstrap_entitled'' \<or> sd_minion_id d = []
         then sd_hostname d \<noteq> [] \<and> sd_hostname d = sys_hostname sp
         else sd_minion_id d = sys_minion_id sp))"

lemma on_found_of_spec:
  assumes "on_found w (sys_spec sys) (syss_uyuni_server_id (sys_status sys)) u" "i \<in> set (call_target u)"
  shows "system_of_spec w sys i"
proof -
  obtain d where d: "fst (findOrAdopt w (sys_spec sys) (syss_uyuni_server_id (sys_status sys))) = Inr (Some d)"
      "sd_id d = i" using assms by (auto simp: on_found_def)
  from findOrAdopt_sound(1) [OF d(1)]
  have "if sd_base_entitlement d = ''bootstrap_entitled'' \<or> sd_minion_id d = []
      then sd_hostname d \<noteq> [] \<and> sd_hostname d = sys_hostname (sys_spec sys)
      else sd_minion_id d = sys_minion_id (sys_spec sys)"
    by (auto simp: systemMatchesSpec_def split: if_splits)
  with findOrAdopt_reported [OF d(1)] d(2) show ?thesis unfolding system_of_spec_def Let_def by blast
qed

text \<open>
  C6.  Whose system a pass touches.  Every call that addresses systems by their id addresses, when the
  resource is being deleted, the server id it recorded, which is not zero;
  otherwise a system that Uyuni reported in this pass for the recorded id, for the minion id or for
  the address of a network card of the spec, and that has the minion id of the spec, or, while it is
  not registered or has no minion id, the host name of the spec.
\<close>

theorem system_pass_on_match:
  fixes w :: "'f system_world"
  assumes "(u, ok) \<in> set (call_log (trace (pass_of (sys_Reconcile w sys))))" "i \<in> set (call_target u)"
  shows "if obj_deleting sys then i = syss_uyuni_server_id (sys_status sys) \<and> i \<noteq> 0 else system_of_spec w sys i"
proof (cases "obj_deleting sys")
  case True
  then show ?thesis using deletion_targets [OF True assms(1)] assms(2) by simp
next
  case False
  then show ?thesis
    using live_pass_found [OF False, of w] assms on_found_of_spec [of w sys u i] by (fastforce simp: only_calls_def)
qed

definition sample_system_spec :: system_spec where
  "sample_system_spec = \<lparr>sys_minion_id = ''m1'', sys_type = [], sys_pre_create = False, sys_apply_high_state = False,
     sys_hostname = ''m1.x'', sys_network = [], sys_description = ''d'', sys_base_channel_ref = None,
     sys_base_channel_from = None, sys_child_channel_refs = [], sys_child_channels_from = [],
     sys_custom_info_values = [], sys_formulas = [], sys_proxy_ref = None, sys_add_ons = [],
     sys_deletion_policy = ''Delete'', sys_adoption_timeout = 0, sys_organization_ref = Some \<lparr>lor_name = ''o''\<rparr>,
     sys_config_channel_refs = [], sys_group_refs = [], sys_autoinstall = None, sys_contact_method = []\<rparr>"

definition sample_system_status :: "int \<Rightarrow> system_status" where
  "sample_system_status i = \<lparr>syss_uyuni_server_id = i, syss_phase = ''Reconciled'', syss_phase_transition_time = None,
     syss_base_channel_label = ''base'', syss_child_channel_labels = [], syss_active_add_ons = [],
     syss_last_checkin_time = None, syss_active_formulas = [], syss_formula_data_generation = 1,
     syss_proxy_server_id = 0, syss_proxy_action_id = 0, syss_channel_action_id = 0, syss_channel_action_time = None,
     syss_config_channel_labels = [], syss_group_names = [''g''], syss_autoinstall_action_id = 0,
     syss_cobbler_system_name = [], syss_autoinstall_status = [], syss_netboot_enabled = None,
     syss_observed_generation = 1, syss_conditions = []\<rparr>"

definition sample_system :: "string list \<Rightarrow> bool \<Rightarrow> int \<Rightarrow> uyuni_system" where
  "sample_system fins deleting i = k8s_object.extend (sample_meta ''s'' fins deleting)
     \<lparr>sys_spec = sample_system_spec, sys_status = sample_system_status i\<rparr>"

definition sample_details :: "string \<Rightarrow> system_details" where
  "sample_details minion = \<lparr>sd_id = 7, sd_name = ''m1'', sd_minion_id = minion, sd_hostname = ''m1.x'',
     sd_description = ''old'', sd_contact_method = ''default'', sd_base_channel_label = [],
     sd_child_channel_labels = [], sd_base_entitlement = ''salt_entitled'', sd_last_checkin = None\<rparr>"

text \<open>An empty cluster, and a Uyuni server with one system.\<close>

definition system_demo_world :: "string \<Rightarrow> answers \<Rightarrow> unit system_world" where
  "system_demo_world minion out = (let absent = GoErr K8sNotFound [] in
     \<lparr>sw_ssc = replace_cond, sw_legacy = legacyAnnotationMap, sw_now = 0, sw_duration = itoa, sw_client = None,
      sw_get_org = \<lambda>_ _. Inl absent, sw_get_profile = \<lambda>_ _. Inl absent, sw_get_config_channel = \<lambda>_ _. Inl absent,
      sw_groups = \<lparr>fd_get = \<lambda>_ _. Inl absent, fd_list = \<lambda>_. Inr []\<rparr>,
      sw_systems = \<lparr>fd_get = \<lambda>_ _. Inl absent, fd_list = \<lambda>_. Inr []\<rparr>,
      sw_channels = \<lparr>fd_get = \<lambda>_ _. Inl absent, fd_list = \<lambda>_. Inr []\<rparr>,
      sw_get_project = \<lambda>_ _. Inl absent, sw_environments = \<lambda>_. Inr [], sw_get_info_key = \<lambda>_ _. Inl absent,
      sw_get_proxy = \<lambda>_ _. Inl absent, sw_get_cobbler = \<lambda>_ _. Inl absent, sw_set_controller = \<lambda>_. Inr,
      sw_reader = demo_reader [],
      su_details = \<lambda>i. if i = 7 then Inr (sample_details minion) else Inl (GoErr UyuniNotFound []),
      su_by_minion = \<lambda>m. if m = minion then Inr (sample_details minion) else Inl (GoErr UyuniNotFound []),
      su_by_mac = \<lambda>_. Inl (GoErr UyuniNotFound []), su_id_by_name = \<lambda>_. Inl (GoErr UyuniNotFound []),
      su_base_channel = \<lambda>_. Inr ''base'', su_child_channels = \<lambda>_. Inr [], su_entitlements = \<lambda>_. Inr [],
      su_custom_info = \<lambda>_. Inr [], su_action = \<lambda>_. Inl (GoErr UyuniNotFound []), su_checkin = \<lambda>_. Inr 0,
      su_formulas = Inr [], su_assigned = \<lambda>_. Inr [], su_formula_data = \<lambda>_ _. Inr fmempty, su_new_id = 9,
      su_exists_ids = [], su_provision_id = 1, su_channel_action_id = 2, su_proxy_actions = [], sw_out = out\<rparr>)"

lemmas system_sample_simps = sample_system_def sample_system_spec_def sample_system_status_def sample_details_def
  system_demo_world_def sample_simps

theorem system_pass_on_match_witness:
  "(SetSystemDetails 7 ''d'' [], True) \<in> set (call_log (trace (pass_of (sys_Reconcile
      (system_demo_world ''m1'' (\<lambda>_. None)) (sample_system [sysFinalizer] False 7))))) \<and>
   system_of_spec (system_demo_world ''m1'' (\<lambda>_. None)) (sample_system [sysFinalizer] False 7) 7"
proof
  let ?w = "system_demo_world ''m1'' (\<lambda>_. None)" and ?s = "sample_system [sysFinalizer] False 7"
  show log: "(SetSystemDetails 7 ''d'' [], True) \<in> set (call_log (trace (pass_of (sys_Reconcile ?w ?s))))"
    by code_simp
  show "system_of_spec ?w ?s 7"
    using system_pass_on_match [OF log, of 7] by (simp add: sample_system_def sample_simps)
qed

section \<open>Deletion\<close>

text \<open>
  C22.  A system is deleted in Uyuni by a pass exactly when its resource is being deleted, holds the
  finalizer and not the force annotation, says so by its deletion policy, has a recorded server id, a
  client can be had, and no annotation had to be renamed first; the id deleted is the recorded one.
\<close>

theorem system_deleted_iff:
  "DeleteSystem i \<in> fst ` set (call_log (trace (pass_of (sys_Reconcile w sys)))) \<longleftrightarrow>
     \<not> fst (migrateAnnotations (sw_legacy w) sys) \<and> obj_deleting sys \<and> sysFinalizer \<in> set (obj_finalizers sys) \<and>
     \<not> has_annotation sys AnnForceDelete \<and> sys_deletion_policy (sys_spec sys) = ''Delete'' \<and>
     i = syss_uyuni_server_id (sys_status sys) \<and> i \<noteq> 0 \<and> sw_client w = None"
proof (cases "obj_deleting sys")
  case False
  then show ?thesis using no_delete.live_pass [of sys w] by (force simp: only_calls_def)
next
  case True
  obtain b sys' where m: "migrateAnnotations (sw_legacy w) sys = (b, sys')" by fastforce
  show ?thesis
  proof (cases b)
    case False
    show ?thesis using True m False
      by (auto simp: sys_Reconcile_def sys_handleDeletion_def sys_release_def call_or_eq return_error_def Let_def image_Un
          split: option.split)
  qed (use m in \<open>simp add: sys_Reconcile_def Let_def\<close>)
qed

section \<open>A system that is as wanted\<close>

text \<open>
  The system is as wanted, said of what Uyuni and the cluster report and not of what the code
  compares: description and contact method, the base channel and the child channels in any order, the
  configuration channels in their order, the groups, the add-ons beside the five base entitlements, the
  custom info as a map, the formulas with the value of every wanted key, and the proxy.  No one-shot
  action is asked for and no channel action is outstanding.
\<close>

definition read_opt :: "'a \<Rightarrow> go_error + 'a \<Rightarrow> 'a option" where
  "read_opt absent r = (case r of Inr x \<Rightarrow> Some x | Inl e \<Rightarrow> if is_uyuni_not_found e then Some absent else None)"

definition formulas_in_place :: "'f system_world \<Rightarrow> uyuni_system \<Rightarrow> bool" where
  "formulas_in_place w sys =
     (let fs = sys_formulas (sys_spec sys); names = map fa_name fs; i = syss_uyuni_server_id (sys_status sys) in
      (names = [] \<or> (case su_formulas w of Inl _ \<Rightarrow> False | Inr avail \<Rightarrow> set names \<subseteq> set avail)) \<and>
      (case read_opt [] (su_assigned w i) of None \<Rightarrow> False | Some cur \<Rightarrow> set cur = set names) \<and>
      list_all (\<lambda>f. case resolveFormulaValues (sw_reader w) (obj_namespace sys) f of
          Resolved want \<Rightarrow>
            (case read_opt fmempty (su_formula_data w i (fa_name f)) of
               None \<Rightarrow> False | Some got \<Rightarrow> fmpred (\<lambda>k v. fmlookup got k = Some v) want)
        | _ \<Rightarrow> False) fs)"

definition channels_in_place :: "'f system_world \<Rightarrow> uyuni_system \<Rightarrow> bool" where
  "channels_in_place w sys =
     (let i = syss_uyuni_server_id (sys_status sys) in
      case resolveChannelRefs (sw_channels w) (sw_get_project w) (sw_environments w) (obj_namespace sys)
             (sys_channel_refs (sys_spec sys)) of
        Inl _ \<Rightarrow> False
      | Inr res \<Rightarrow> cr_hard_error res = [] \<and> cr_wait_reason res = [] \<and> cr_base_label res \<noteq> [] \<and>
          su_base_channel w i = Inr (cr_base_label res) \<and>
          (case su_child_channels w i of Inl _ \<Rightarrow> False | Inr c \<Rightarrow> mset c = mset (cr_child_labels res)) \<and>
          syss_channel_action_id (sys_status sys) = 0)"

definition in_place :: "'f system_world \<Rightarrow> system_details \<Rightarrow> uyuni_system \<Rightarrow> bool" where
  "in_place w d sys =
     (let sp = sys_spec sys; st = sys_status sys; i = syss_uyuni_server_id st in
      sd_description d = sys_description sp \<and>
      sd_contact_method d = (if sys_contact_method sp = [] then ''default'' else sys_contact_method sp) \<and>
      channels_in_place w sys \<and>
      resolveOrderedConfigChannels w sys = Resolved (syss_config_channel_labels st) \<and>
      (case resolveGroupMembership w sys of
         Resolved names \<Rightarrow> set (syss_group_names st) = set names | _ \<Rightarrow> False) \<and>
      (case read_opt [] (su_entitlements w i) of
         None \<Rightarrow> False
       | Some ents \<Rightarrow> set ents - {''salt_entitled'', ''foreign_entitled'', ''bootstrap_entitled'',
           ''enterprise_entitled'', ''management_entitled''} = set (sys_add_ons sp)) \<and>
      (case resolveCustomInfoValues w sys of
         Resolved want \<Rightarrow> (case read_opt [] (su_custom_info w i) of
           None \<Rightarrow> False
         | Some cur \<Rightarrow> distinct (map fst cur) \<and> set cur = set want) | _ \<Rightarrow> False) \<and>
      formulas_in_place w sys \<and> resolveProxyID w sys = Resolved (syss_proxy_server_id st) \<and>
      (sys_apply_high_state sp \<longrightarrow> syss_phase st = ''Reconciled'') \<and>
      obj_annotations sys AnnApplyFormulaValues = None \<and> obj_annotations sys AnnReinstallNow \<noteq> Some ''true'')"

text \<open>Then every guard of the code is off.\<close>

lemma read_opt_Some: "read_opt a r = Some x \<longleftrightarrow> not_found_or a r = Inr x"
  by (auto simp: read_opt_def not_found_or_def split: sum.splits)

lemma mset_stringSlicesEqual: "mset a = mset b \<Longrightarrow> stringSlicesEqual a b"
  by (auto simp: stringSlicesEqual_def list_all_iff dest: mset_eq_length mset_eq_setD)

lemma same_info_no_diff:
  assumes "distinct (map fst cur)" "set cur = set want"
  shows "diffCustomInfo cur want = ([], [])"
proof -
  have "map_of cur k = Some v" if "(k, v) \<in> set want" for k v
    using assms that by simp
  then have "fst (diffCustomInfo cur want) = []"
    by (auto simp: diffCustomInfo_def filter_empty_conv map_get_def)
  moreover have "map_of want k \<noteq> None" if "(k, v) \<in> set cur" for k v
    using assms(2) that by (auto simp: map_of_eq_None_iff rev_image_eqI)
  then have "snd (diffCustomInfo cur want) = []"
    by (auto simp: diffCustomInfo_def filter_empty_conv)
  ultimately show ?thesis by (simp add: prod_eq_iff)
qed

lemma value_of_each_key: "fmpred (\<lambda>k v. fmlookup got k = Some v) want \<Longrightarrow> mapSubset want got"
  by (auto simp: mapSubset_def fmpred_iff subset_val_refl)

lemma in_placeD:
  assumes "in_place w d x"
  defines "i \<equiv> syss_uyuni_server_id (sys_status x)"
  shows "sd_description d = sys_description (sys_spec x)" "sd_contact_method d = wanted_contact (sys_spec x)"
    and "resolveOrderedConfigChannels w x = Resolved (syss_config_channel_labels (sys_status x))"
    and "\<exists>names. resolveGroupMembership w x = Resolved names \<and> set (syss_group_names (sys_status x)) = set names"
    and "\<exists>ents. not_found_or [] (su_entitlements w i) = Inr ents \<and>
      set (filterOutBaseEntitlements ents) = set (sys_add_ons (sys_spec x))"
    and "\<exists>want cur. resolveCustomInfoValues w x = Resolved want \<and> not_found_or [] (su_custom_info w i) = Inr cur \<and>
      diffCustomInfo cur want = ([], [])"
    and "formulas_in_place w x" "resolveProxyID w x = Resolved (syss_proxy_server_id (sys_status x))"
    and "sys_apply_high_state (sys_spec x) \<Longrightarrow> syss_phase (sys_status x) = ''Reconciled''"
    and "obj_annotations x AnnApplyFormulaValues = None" "\<not> has_annotation x AnnReinstallNow"
    and "channels_in_place w x"
proof -
  note p = assms(1) [unfolded in_place_def Let_def, folded i_def]
  show "sd_description d = sys_description (sys_spec x)" "sd_contact_method d = wanted_contact (sys_spec x)"
    "resolveOrderedConfigChannels w x = Resolved (syss_config_channel_labels (sys_status x))"
    "formulas_in_place w x" "resolveProxyID w x = Resolved (syss_proxy_server_id (sys_status x))"
    "obj_annotations x AnnApplyFormulaValues = None" "\<not> has_annotation x AnnReinstallNow"
    "channels_in_place w x"
    "sys_apply_high_state (sys_spec x) \<Longrightarrow> syss_phase (sys_status x) = ''Reconciled''"
    using p by (simp_all add: wanted_contact_def has_annotation_def map_get_def split: option.splits) auto
  show "\<exists>names. resolveGroupMembership w x = Resolved names \<and> set (syss_group_names (sys_status x)) = set names"
    using p by (cases "resolveGroupMembership w x") simp_all
  from p obtain ents where e: "read_opt [] (su_entitlements w i) = Some ents"
    "set ents - {''salt_entitled'', ''foreign_entitled'', ''bootstrap_entitled'',
       ''enterprise_entitled'', ''management_entitled''} = set (sys_add_ons (sys_spec x))"
    by (cases "read_opt [] (su_entitlements w i)") simp_all
  from e(1) have "not_found_or [] (su_entitlements w i) = Inr ents" by (simp only: read_opt_Some)
  moreover have "set (filterOutBaseEntitlements ents) = set (sys_add_ons (sys_spec x))"
    unfolding e(2) [symmetric] by (auto simp: filterOutBaseEntitlements_def baseEntitlements_def)
  ultimately show "\<exists>ents. not_found_or [] (su_entitlements w i) = Inr ents \<and>
      set (filterOutBaseEntitlements ents) = set (sys_add_ons (sys_spec x))" by blast
  from p obtain want cur where "resolveCustomInfoValues w x = Resolved want"
    "read_opt [] (su_custom_info w i) = Some cur" "distinct (map fst cur)" "set cur = set want"
    by (cases "resolveCustomInfoValues w x"; cases "read_opt [] (su_custom_info w i)") simp_all
  then show "\<exists>want cur. resolveCustomInfoValues w x = Resolved want \<and> not_found_or [] (su_custom_info w i) = Inr cur \<and>
      diffCustomInfo cur want = ([], [])"
    by (auto simp: read_opt_Some intro: same_info_no_diff)
qed

text \<open>The reads of a step depend on the spec and the namespace alone.\<close>

lemma resolve_cong:
  assumes "sys_spec x = sys_spec y" "obj_namespace x = obj_namespace y"
  shows "resolveOrderedConfigChannels w x = resolveOrderedConfigChannels w y"
    and "resolveGroupMembership w x = resolveGroupMembership w y"
    and "resolveCustomInfoValues w x = resolveCustomInfoValues w y"
    and "resolveProxyID w x = resolveProxyID w y"
  by (simp_all only: resolveOrderedConfigChannels_def resolveGroupMembership_def resolveCustomInfoValues_def
      resolveProxyID_def assms)

text \<open>A pass that has not called yet and still carries what the next steps read.\<close>

definition untouched :: "'f system_world \<Rightarrow> uyuni_system \<Rightarrow> 'f sys_pass \<Rightarrow> bool" where
  "untouched w x s = (sys_spec (mem s) = sys_spec x \<and> obj_namespace (mem s) = obj_namespace x \<and>
     obj_annotations (mem s) = obj_annotations x \<and> server_id s = syss_uyuni_server_id (sys_status x) \<and>
     syss_channel_action_id (sys_status (mem s)) = syss_channel_action_id (sys_status x) \<and>
     syss_proxy_server_id (sys_status (mem s)) = syss_proxy_server_id (sys_status x) \<and>
     syss_phase (sys_status (mem s)) = syss_phase (sys_status x) \<and>
     (case resolveOrderedConfigChannels w x of
        Resolved labels \<Rightarrow> stringSlicesEqual (syss_config_channel_labels (sys_status (mem s))) labels | _ \<Rightarrow> False) \<and>
     (case resolveGroupMembership w x of
        Resolved names \<Rightarrow> set (syss_group_names (sys_status (mem s))) = set names | _ \<Rightarrow> False) \<and>
     call_log (trace s) = [])"

lemma stringSlicesEqual_refl [simp]: "stringSlicesEqual xs xs"
  by (simp add: stringSlicesEqual_def list_all_iff)

lemma diffStringSets_same: "set a = set b \<Longrightarrow> diffStringSets a b = ([], [])"
  by (simp add: strings.diff_empty_iff)

lemma untouched_set:
  assumes "untouched w x s"
  shows "untouched w x (sys_set w (syss_conditions_update f) s)"
    and "untouched w x (sys_set w (\<lambda>st. st\<lparr>syss_base_channel_label := b, syss_child_channel_labels := c\<rparr>) s)"
    and "untouched w x (sys_set w (\<lambda>st. st\<lparr>syss_active_add_ons := a\<rparr>) s)"
    and "untouched w x (sys_set w (\<lambda>st. st\<lparr>syss_active_formulas := a\<rparr>) s)"
    and "untouched w x (sys_set w (\<lambda>st. st\<lparr>syss_formula_data_generation := g\<rparr>) s)"
  using assms by (simp_all add: untouched_def sys_set_def set_st_def split: resolve.splits)

lemma formulas_installed:
  "formulas_in_place w x \<Longrightarrow> missing_formula (su_formulas w) (map fa_name (sys_formulas (sys_spec x))) = Resolved ()"
  by (auto simp: formulas_in_place_def Let_def missing_formula_def find_Some_iff set_conv_nth
      split: sum.splits option.split)

lemma silent_steps:
  assumes "in_place w d x" "untouched w x s" "\<And>s. untouched w x s \<Longrightarrow> call_log (trace (pass_of (next s))) = []"
  shows silent_config: "call_log (trace (pass_of (sys_config_step w next s))) = []"
    and silent_groups: "call_log (trace (pass_of (sys_group_step w next s))) = []"
    and silent_addons: "call_log (trace (pass_of (sys_addon_step w next s))) = []"
    and silent_info: "call_log (trace (pass_of (sys_info_step w next s))) = []"
    and silent_proxy: "call_log (trace (pass_of (sys_proxy_step w next s))) = []"
    and silent_details: "call_log (trace (pass_of (sys_details_step w d next s))) = []"
proof -
  have sp: "sys_spec (mem s) = sys_spec x" "obj_namespace (mem s) = obj_namespace x"
    and id: "server_id s = syss_uyuni_server_id (sys_status x)"
    using assms(2) by (simp_all add: untouched_def)
  note reads = resolve_cong [OF sp, of w]
  obtain labels where l: "resolveOrderedConfigChannels w x = Resolved labels"
    "stringSlicesEqual (syss_config_channel_labels (sys_status (mem s))) labels"
    using assms(2) by (auto simp: untouched_def split: resolve.splits)
  have "untouched w x (sys_set w (\<lambda>st. st\<lparr>syss_config_channel_labels := labels\<rparr>) s)"
    using assms(2) l by (simp add: untouched_def sys_set_def set_st_def split: resolve.splits)
  then show "call_log (trace (pass_of (sys_config_step w next s))) = []"
    using reads l assms(3) by (simp add: sys_config_step_def sys_call_if_def)
  obtain names where n: "resolveGroupMembership w x = Resolved names"
    "set (syss_group_names (sys_status (mem s))) = set names"
    using assms(2) by (auto simp: untouched_def split: resolve.splits)
  have "untouched w x (sys_set w (\<lambda>st. st\<lparr>syss_group_names := names\<rparr>) s)"
    using assms(2) n by (simp add: untouched_def sys_set_def set_st_def split: resolve.splits)
  then show "call_log (trace (pass_of (sys_group_step w next s))) = []"
    using reads n assms(3) by (simp add: sys_group_step_def sys_sync_groups_def diffStringSets_same)
  obtain ents where "not_found_or [] (su_entitlements w (server_id s)) = Inr ents"
    "set (filterOutBaseEntitlements ents) = set (sys_add_ons (sys_spec x))"
    using in_placeD(5) [OF assms(1)] id by auto
  then show "call_log (trace (pass_of (sys_addon_step w next s))) = []"
    using sp assms(3) untouched_set(3) [OF assms(2)]
    by (simp add: sys_addon_step_def sys_call_if_def diffStringSets_same)
  obtain want cur where "resolveCustomInfoValues w x = Resolved want"
    "not_found_or [] (su_custom_info w (server_id s)) = Inr cur" "diffCustomInfo cur want = ([], [])"
    using in_placeD(6) [OF assms(1)] id by auto
  then show "call_log (trace (pass_of (sys_info_step w next s))) = []"
    using reads assms(2,3) by (simp add: sys_info_step_def sys_call_if_def)
  have "resolveProxyID w x = Resolved (syss_proxy_server_id (sys_status (mem s)))"
    using in_placeD(8) [OF assms(1)] assms(2) by (simp add: untouched_def)
  then show "call_log (trace (pass_of (sys_proxy_step w next s))) = []"
    using reads assms(2,3) by (simp add: sys_proxy_step_def reconcileProxy_def)
  show "call_log (trace (pass_of (sys_details_step w d next s))) = []"
    using assms sp in_placeD(1,2) [OF assms(1)] by (simp add: sys_details_step_def sys_call_if_def Let_def)
qed

lemma silent_formulas:
  assumes "in_place w d x" "untouched w x s" "\<And>s. untouched w x s \<Longrightarrow> call_log (trace (pass_of (next s))) = []"
  shows "call_log (trace (pass_of (sys_formula_step w next s))) = []"
proof -
  have sp: "sys_spec (mem s) = sys_spec x" "obj_namespace (mem s) = obj_namespace x"
    and id: "server_id s = syss_uyuni_server_id (sys_status x)" and ann: "obj_annotations (mem s) = obj_annotations x"
    using assms(2) by (simp_all add: untouched_def)
  let ?S = "serverFormulas (sys_formula_api w) (server_id s)" and ?fs = "sys_formulas (sys_spec x)"
  let ?v = "resolveFormulaValues (sw_reader w) (obj_namespace x)"
  have place: "formulas_in_place w x" by (rule in_placeD(7) [OF assms(1)])
  then obtain cur where cur: "not_found_or [] (su_assigned w (server_id s)) = Inr cur" "set cur = set (map fa_name ?fs)"
    using id by (auto simp: formulas_in_place_def Let_def read_opt_Some split: option.splits)
  have installed: "missing_formula (su_formulas w) (map fa_name ?fs) = Resolved ()"
    using place by (rule formulas_installed)
  have "list_all (in_sync ?S ?v s) ?fs"
    using place id
    by (fastforce simp: formulas_in_place_def Let_def in_sync_def list_all_iff serverFormulas_def sys_formula_api_def
        read_opt_Some value_of_each_key split: resolve.splits option.splits)
  then have "data_loop ?S ?v ap ?fs False s = (Resolved False, s)" for ap by (rule data_loop_idle)
  then have sync: "syncFormulas ?S (su_formulas w) ?v ap ?fs s = (Resolved (map fa_name ?fs, False), s)" for ap
    using installed cur diffStringSets_same [OF cur(2)]
    by (simp add: syncFormulas_def sync_data_def Let_def serverFormulas_def sys_formula_api_def)
  have "obj_annotations x AnnApplyFormulaValues = None" by (rule in_placeD(10) [OF assms(1)])
  then obtain s1 where "sys_reconcileFormulas w s = (Resolved (), sys_mark_formulas w (map fa_name ?fs) False s1)"
    and s1: "untouched w x s1"
    using sync sp ann assms(2) untouched_set(5) [OF assms(2)]
    by (cases "sys_apply_data (mem s)") (simp_all add: sys_reconcileFormulas_def sys_data_applied_def Let_def)
  moreover have "untouched w x (sys_set w (\<lambda>st. st\<lparr>syss_active_formulas := a\<rparr>) (sys_set w (syss_conditions_update f) s1))"
    for a f by (rule untouched_set(4) [OF untouched_set(1) [OF s1]])
  then have "untouched w x (sys_mark_formulas w names False s1)" for names
    by (simp add: sys_mark_formulas_def mark_def sys_set_def)
  ultimately show ?thesis using assms(3) by (simp add: sys_formula_step_def)
qed

lemma silent_channels:
  assumes "in_place w d x" "untouched w x s" "\<And>s. untouched w x s \<Longrightarrow> call_log (trace (pass_of (next s))) = []"
  shows "call_log (trace (pass_of (sys_channel_step w cur next s))) = []"
proof -
  have sp: "sys_spec (mem s) = sys_spec x" "obj_namespace (mem s) = obj_namespace x"
    and id: "server_id s = syss_uyuni_server_id (sys_status x)"
    using assms(2) by (simp_all add: untouched_def)
  obtain res c where res: "resolveChannelRefs (sw_channels w) (sw_get_project w) (sw_environments w) (obj_namespace x)
      (sys_channel_refs (sys_spec x)) = Inr res" "cr_hard_error res = []" "cr_wait_reason res = []" "cr_base_label res \<noteq> []"
    "su_base_channel w (syss_uyuni_server_id (sys_status x)) = Inr (cr_base_label res)"
    "su_child_channels w (syss_uyuni_server_id (sys_status x)) = Inr c" "stringSlicesEqual c (cr_child_labels res)"
    "syss_channel_action_id (sys_status x) = 0"
    using in_placeD(12) [OF assms(1)]
    by (auto simp: channels_in_place_def Let_def intro: mset_stringSlicesEqual split: sum.splits)
  let ?s = "sys_set w (\<lambda>st. st\<lparr>syss_base_channel_label := cr_base_label res,
    syss_child_channel_labels := cr_child_labels res\<rparr>) s"
  have un: "untouched w x ?s" by (rule untouched_set(2) [OF assms(2)])
  then have "server_id ?s = syss_uyuni_server_id (sys_status x)"
    "syss_channel_action_id (sys_status (mem ?s)) = 0"
    using res(8) by (simp_all add: untouched_def)
  then have "sys_channel_step w cur next s = next ?s"
    using res sp by (simp add: sys_channel_step_def sys_subscribe_def channelActionFailed_def Let_def)
  then show ?thesis using assms(3) [OF un] by simp
qed

lemma silent_finish:
  assumes "in_place w d x" "untouched w x s"
  shows "call_log (trace (pass_of (sys_finish w cur s))) = []"
proof -
  have "autoinstall_progress w st = st\<lparr>syss_autoinstall_status := syss_autoinstall_status (autoinstall_progress w st)\<rparr>" for st
    by (simp add: autoinstall_progress_def split: sum.split)
  then have "syss_phase (autoinstall_progress w st) = syss_phase st" for st
    by (metis system_status.select_convs(2) system_status.surjective system_status.update_convs(18))
  moreover have "sys_apply_high_state (sys_spec x) \<longrightarrow> syss_phase (sys_status x) = ''Reconciled''"
    using in_placeD(9) [OF assms(1)] by blast
  moreover have "sys_spec (mem s) = sys_spec x" "syss_phase (sys_status (mem s)) = syss_phase (sys_status x)"
    "call_log (trace s) = []"
    using assms(2) by (simp_all add: untouched_def)
  ultimately show ?thesis
    by (auto simp: sys_finish_def sys_call_if_def sys_set_def set_st_def Let_def split: option.split)
qed

lemma silent_apply:
  assumes "in_place w d x" "untouched w x s"
  shows "call_log (trace (pass_of (applyConfig w d s))) = []"
proof -
  have "\<not> has_annotation (mem s) AnnReinstallNow"
    using in_placeD(11) [OF assms(1)] assms(2) by (simp add: untouched_def has_annotation_def)
  moreover have "untouched w x (sys_mark_drift w d s')" if "untouched w x s'" for s'
    using untouched_set(1) [OF that] by (simp add: sys_mark_drift_def)
  ultimately show ?thesis
    by (simp add: applyConfig_def silent_details [OF assms(1)] silent_channels [OF assms(1)] silent_config [OF assms(1)]
        silent_groups [OF assms(1)] silent_addons [OF assms(1)] silent_info [OF assms(1)] silent_formulas [OF assms(1)]
        silent_proxy [OF assms(1)] silent_finish [OF assms(1)] assms(2))
qed

lemma own_start:
  fixes x :: uyuni_system and s :: "(uyuni_system, 'u) pass"
  assumes "own_organization out system_kind getOrg n (start_pass x) = (r, s)"
  shows "\<exists>os. mem s = x\<lparr>obj_owners := os\<rparr>"
proof -
  let ?o = "reconcileOrganizationOwnership getOrg (\<lambda>_. out 0) x n"
  have same: "x\<lparr>obj_owners := os, sys_status := sys_status x\<rparr> = x\<lparr>obj_owners := os\<rparr>" for os
    by (cases x) simp
  show ?thesis
  proof (cases "sent ?o")
    case None
    then show ?thesis using assms by (auto simp: own_organization_def Let_def)
  next
    case (Some os)
    let ?s = "(start_pass x :: (uyuni_system, 'u) pass)\<lparr>mem := x\<lparr>obj_owners := in_memory ?o\<rparr>\<rparr>"
    have "write_object out system_kind ?s = (r, s)"
      using Some assms by (simp add: own_organization_def Let_def)
    from arg_cong [OF this, of "\<lambda>p. mem (snd p)"] show ?thesis by (cases "out 0") (auto simp: system_kind_def same dest: sym)
  qed
qed

text \<open>
  C23.  A registered system that is as wanted is left alone.  Let the resource be live, with no annotation
  waiting to be renamed, no request for netboot, reinstallation or a replay of formulas, no channel change
  under way and not both preCreate and autoinstall, and let Uyuni report for the recorded id a registered
  system with the minion id of the spec.  If what Uyuni reports of it is what the spec asks for
  (description, contact method, base channel, child channels, add-ons, custom info, every wanted formula
  value), and what the status records of it is so too (the configuration channels in their order, the set
  of groups, the proxy, the highstate), all of which \<open>in_place\<close> says, then a pass makes no call to Uyuni,
  whatever the writes to the cluster answer.
\<close>

theorem system_in_place_is_left_alone:
  fixes w :: "'f system_world"
  assumes "\<not> fst (migrateAnnotations (sw_legacy w) sys)" "\<not> obj_deleting sys"
    and "\<not> sys_pre_create (sys_spec sys) \<or> sys_autoinstall (sys_spec sys) = None"
    and "obj_annotations sys AnnNetboot = None"
    and "syss_uyuni_server_id (sys_status sys) \<noteq> 0"
    and "su_details w (syss_uyuni_server_id (sys_status sys)) = Inr d"
    and "sd_id d = syss_uyuni_server_id (sys_status sys)"
    and "sd_base_entitlement d \<noteq> ''bootstrap_entitled'' \<and> sd_minion_id d \<noteq> [] \<and>
      sd_minion_id d = sys_minion_id (sys_spec sys)"
    and "in_place w d sys"
  shows "call_log (trace (pass_of (sys_Reconcile w sys))) = []"
proof -
  have realize: "call_log (trace (pass_of (sys_realize w s))) = []"
    if log: "call_log (trace s) = []" and x: "mem s = sys\<lparr>obj_owners := os\<rparr>" for s :: "'f sys_pass" and os
  proof -
    let ?s = "sys_set w (\<lambda>st. st\<lparr>syss_uyuni_server_id := syss_uyuni_server_id (sys_status sys)\<rparr>) s"
    have "untouched w sys ?s"
      using in_placeD(3,4) [OF assms(9)] log x by (auto simp: untouched_def sys_set_def set_st_def)
    then have "call_log (trace (pass_of (applyConfig w d ?s))) = []" by (rule silent_apply [OF assms(9)])
    moreover have "findOrAdopt w (sys_spec sys) (syss_uyuni_server_id (sys_status sys)) =
        (Inr (Some d), syss_uyuni_server_id (sys_status sys))"
      using assms(5-8) by (auto simp: findOrAdopt_def systemMatchesSpec_def)
    moreover have "reconcileCobblerSystem w s = (None, s)" "reconcileNetbootAnnotation w s = (Inr False, s)"
      using assms(3,4) x by (auto simp: reconcileCobblerSystem_def reconcileNetbootAnnotation_def Let_def)
    moreover have "server_id ?s = sd_id d" using assms(7) by (simp add: sys_set_def set_st_def)
    ultimately show ?thesis using x assms(7) by (simp add: sys_realize_def sys_find_def Let_def)
  qed
  have "call_log (trace (pass_of (with_owner (system_kit w) getOrg n (sys_realize w) (start_pass sys)))) = []"
    for getOrg :: "organization k8s_get" and n
  proof -
    obtain e s1 where o': "own_organization (sw_out w) system_kind getOrg n (start_pass sys) = (e, s1 :: 'f sys_pass)"
      by fastforce
    then obtain os where "mem s1 = sys\<lparr>obj_owners := os\<rparr>" using own_start by blast
    moreover have "call_log (trace s1) = []"
      using own_organization_log [of "sw_out w" system_kind getOrg n "start_pass sys :: 'f sys_pass"] o' by simp
    ultimately show ?thesis using o' realize by (simp add: with_owner_def return_error_def split: option.split)
  qed
  then have "call_log (trace (pass_of (with_finalizer (system_kit w) sysFinalizer
      (with_owner (system_kit w) getOrg n (sys_realize w)) (start_pass sys)))) = []"
    for getOrg :: "organization k8s_get" and n by (simp add: with_finalizer_eq Let_def)
  then show ?thesis using assms(1,2)
    by (simp add: sys_Reconcile_def Let_def sys_fail_def split: prod.split bool.split option.split)
qed

definition sample_channel :: software_channel where
  "sample_channel = k8s_object.extend (sample_meta ''c'' [] False)
     \<lparr>sc_spec = \<lparr>sc_label = ''base'', sc_name = ''base'', sc_summary = [], sc_description = [], sc_arch = [],
        sc_parent_channel_ref = None, sc_checksum = [],
        sc_gpg_key = \<lparr>gpg_url = [], gpg_key_id = [], gpg_fingerprint = [], gpg_check = False\<rparr>,
        sc_repository_refs = [], sc_sync = \<lparr>ss_cron = [], ss_sync_on_create = False\<rparr>, sc_package_source = None, sc_organization_ref = None\<rparr>,
      sc_status = \<lparr>scs_uyuni_id = 1, scs_label = ''base'', scs_associated_repos = [], scs_last_sync_time = None,
        scs_package_count = 0, scs_package_source_revision = [], scs_observed_generation = 1, scs_conditions = []\<rparr>\<rparr>"

theorem system_in_place_is_left_alone_witness:
  "call_log (trace (pass_of (sys_Reconcile
     ((system_demo_world ''m1'' (\<lambda>_. None))\<lparr>sw_channels := \<lparr>fd_get = \<lambda>_ _. Inr sample_channel, fd_list = \<lambda>_. Inr []\<rparr>\<rparr>)
     ((sample_system [sysFinalizer] False 7)
        \<lparr>sys_spec := sample_system_spec\<lparr>sys_description := ''old'', sys_base_channel_ref := Some \<lparr>lor_name = ''c''\<rparr>\<rparr>,
         sys_status := (sample_system_status 7)\<lparr>syss_group_names := []\<rparr>\<rparr>)))) = []"
proof (rule system_in_place_is_left_alone [where d = "sample_details ''m1''"])
  let ?w = "(system_demo_world ''m1'' (\<lambda>_. None))\<lparr>sw_channels := \<lparr>fd_get = \<lambda>_ _. Inr sample_channel, fd_list = \<lambda>_. Inr []\<rparr>\<rparr>"
    and ?s = "(sample_system [sysFinalizer] False 7)
        \<lparr>sys_spec := sample_system_spec\<lparr>sys_description := ''old'', sys_base_channel_ref := Some \<lparr>lor_name = ''c''\<rparr>\<rparr>,
         sys_status := (sample_system_status 7)\<lparr>syss_group_names := []\<rparr>\<rparr>"
  show "in_place ?w (sample_details ''m1'') ?s"
    by code_simp
  show "\<not> fst (migrateAnnotations (sw_legacy ?w) ?s)" by code_simp
qed (simp_all add: system_sample_simps Let_def)

text \<open>
  The configuration channels are compared without their order: a system whose recorded channels are
  the wanted ones in another order gets no call, and the new order is recorded as if it had been sent.
\<close>

theorem config_order_not_sent:
  assumes "resolveOrderedConfigChannels w (mem s) = Resolved labels"
    and "mset (syss_config_channel_labels (sys_status (mem s))) = mset labels"
  shows "sys_config_step w next s = next (sys_set w (\<lambda>st. st\<lparr>syss_config_channel_labels := labels\<rparr>) s)"
  using assms by (simp add: sys_config_step_def sys_call_if_def mset_stringSlicesEqual)

end
