(* ===== verification/Group_Controller.thy ===== *)
theory Group_Controller
  imports Kind_Steps
begin

text \<open>
  The SystemGroup reconciler (\<^verbatim>\<open>systemgroup_controller.go\<close>): it creates or adopts the group in Uyuni,
  keeps its formulas, its members when the resource declares any, and its configuration channels.
\<close>

section \<open>World and calls\<close>

definition group_kind :: "(system_group, system_group_status) kind_ops" where
  "group_kind = \<lparr>status_of = sg_status, with_status = \<lambda>st o'. o'\<lparr>sg_status := st\<rparr>\<rparr>"

interpretation group_status_field: status_field group_kind
  by unfold_locales (simp_all add: group_kind_def k8s_object.defs)

record ('f) group_world = base_world +
  gw_get_system :: "uyuni_system k8s_get"
  gw_get_config_channel :: "configuration_channel k8s_get"
  gw_config_channels :: "configuration_channel k8s_list"
  gw_groups :: "system_group k8s_list"
  gw_reader :: "'f value_reader"
  gu_group :: "string \<Rightarrow> go_error + system_group_details"
  gu_created_id :: int
  gu_by_minion :: "string \<Rightarrow> go_error + system_details"
  gu_members :: "string \<Rightarrow> go_error + int list"
  gu_formulas :: "go_error + string list"
  gu_assigned :: "int \<Rightarrow> go_error + string list"
  gu_formula_data :: "int \<Rightarrow> string \<Rightarrow> go_error + (string, 'f jval) fmap"

datatype 'f group_call =
    CreateSystemGroup string string
  | UpdateSystemGroupDescription string string
  | AddSystemsToGroup string "int list"
  | RemoveSystemsFromGroup string "int list"
  | SubscribeGroupToConfigChannel string string
  | UnsubscribeGroupFromConfigChannel string string
  | SetFormulasOfGroup int "string list"
  | SetFormulaDataOfGroup int string "(string, 'f jval) fmap"
  | DeleteSystemGroup string

type_synonym 'f group_pass = "(system_group, 'f group_call) pass"

type_synonym 'f group_outcome = "(system_group, 'f group_call) outcome"

definition group_kit :: "'f group_world \<Rightarrow> (system_group, system_group_status) kit" where
  "group_kit w = kit_of group_kind sgs_conditions_update w"

abbreviation group_name :: "'f group_pass \<Rightarrow> string" where
  "group_name s \<equiv> sg_name (sg_spec (mem s))"

definition group_fail :: "'f group_world \<Rightarrow> string \<Rightarrow> go_error \<Rightarrow> 'f group_pass \<Rightarrow> 'f group_outcome" where
  "group_fail w = fail_with (group_kit w)"

section \<open>The group in Uyuni\<close>

definition group_rival :: "system_group \<Rightarrow> system_group list \<Rightarrow> system_group option" where
  "group_rival sg others =
     find (\<lambda>o'. obj_name o' \<noteq> obj_name sg \<and> sg_name (sg_spec o') = sg_name (sg_spec sg) \<and>
                sgs_uyuni_id (sg_status o') \<noteq> 0) others"

definition set_group_id :: "'f group_world \<Rightarrow> int \<Rightarrow> 'f group_pass \<Rightarrow> 'f group_pass" where
  "set_group_id w i = set_st (group_kit w) (\<lambda>st. st\<lparr>sgs_uyuni_id := i\<rparr>)"

definition group_create ::
  "'f group_world \<Rightarrow> ('f group_pass \<Rightarrow> 'f group_outcome) \<Rightarrow> 'f group_pass \<Rightarrow> 'f group_outcome" where
  "group_create w next s =
     call_or (bw_out w) (CreateSystemGroup (group_name s) (sg_description (sg_spec (mem s))))
       (\<lambda>e s1. if says_duplicate e
          then conflict (group_kit w) ''GroupNameConflict''
            (''a system group named '' @ go_quote (group_name s1)
             @ '' already exists in Uyuni; rename this group or delete the existing one first'') s1
          else group_fail w ''CreateFailed'' e s1)
       (\<lambda>s1. next (set_group_id w (gu_created_id w) s1)) s"

definition group_adopt ::
  "'f group_world \<Rightarrow> system_group_details \<Rightarrow> ('f group_pass \<Rightarrow> 'f group_outcome) \<Rightarrow> 'f group_pass \<Rightarrow>
   'f group_outcome" where
  "group_adopt w current next s =
     (case gw_groups w (obj_namespace (mem s)) of
        Inl e \<Rightarrow> return_error e s
      | Inr others \<Rightarrow>
          (case group_rival (mem s) others of
             Some o' \<Rightarrow> conflict (group_kit w) ''GroupNameConflict''
               (''system group '' @ go_quote (group_name s) @ '' is already managed by SystemGroup CR ''
                @ go_quote (obj_name o') @ ''; rename this group or delete the existing one first'') s
           | None \<Rightarrow>
               let s1 = set_group_id w (sgd_id current) s in
               if sgd_description current \<noteq> sg_description (sg_spec (mem s1))
               then call_or (bw_out w)
                      (UpdateSystemGroupDescription (group_name s1) (sg_description (sg_spec (mem s1))))
                      return_error next s1
               else next s1))"

definition group_realize ::
  "'f group_world \<Rightarrow> ('f group_pass \<Rightarrow> 'f group_outcome) \<Rightarrow> 'f group_pass \<Rightarrow> 'f group_outcome" where
  "group_realize w next s =
     (case gu_group w (group_name s) of
        Inr current \<Rightarrow> group_adopt w current next s
      | Inl e \<Rightarrow>
          if is_uyuni_not_found e \<or> str_contains (to_lower (err_text e)) ''unable to locate''
          then group_create w next s
          else group_fail w ''GetFailed'' e s)"

section \<open>Formulas\<close>

definition group_formula_api :: "'f group_world \<Rightarrow> ('f group_pass, 'f) formula_endpoints" where
  "group_formula_api w = \<lparr>fe_list = (\<lambda>_. gu_formulas w), fe_get = (\<lambda>i _. gu_assigned w i),
     fe_set = (\<lambda>i fs. attempt (bw_out w) (Call (SetFormulasOfGroup i fs))),
     fe_get_data = (\<lambda>i f _. gu_formula_data w i f),
     fe_set_data = (\<lambda>i f d. attempt (bw_out w) (Call (SetFormulaDataOfGroup i f d)))\<rparr>"

definition group_apply_data :: "system_group \<Rightarrow> bool" where
  "group_apply_data sg = (obj_generation sg \<noteq> sgs_formula_data_generation (sg_status sg) \<or>
     has_annotation sg AnnApplyFormulaValues)"

definition stamp_generation :: "'f group_world \<Rightarrow> 'f group_pass \<Rightarrow> 'f group_pass" where
  "stamp_generation w s = set_st (group_kit w) (\<lambda>st. st\<lparr>sgs_formula_data_generation := obj_generation (mem s)\<rparr>) s"

text \<open>The status is kept over the \<^verbatim>\<open>Update\<close>, which brings the stored one to memory.\<close>

definition group_data_applied :: "'f group_world \<Rightarrow> 'f group_pass \<Rightarrow> unit resolve \<times> 'f group_pass" where
  "group_data_applied w s =
     (if obj_annotations (mem s) AnnApplyFormulaValues = None then (Resolved (), stamp_generation w s)
      else let kept = sg_status (mem s) in
        (case write_object (bw_out w) group_kind (strip_annotation AnnApplyFormulaValues s) of
           (Some e, s1) \<Rightarrow> (Broken e, s1)
         | (None, s1) \<Rightarrow> (Resolved (), stamp_generation w (set_st (group_kit w) (\<lambda>_. kept) s1))))"

definition group_mark_formulas :: "'f group_world \<Rightarrow> string list \<Rightarrow> bool \<Rightarrow> 'f group_pass \<Rightarrow> 'f group_pass" where
  "group_mark_formulas w desired drift s =
     set_st (group_kit w) (\<lambda>st. st\<lparr>sgs_active_formulas := desired\<rparr>)
       (if drift
        then mark (group_kit w) ''FormulaValuesDrift'' True ''Drift''
          (''resolved formula reference values differ from what was applied; set annotation ''
           @ AnnApplyFormulaValues @ ''=\"true\" to apply'') s
        else mark (group_kit w) ''FormulaValuesDrift'' False ''InSync'' [] s)"

definition group_reconcileFormulas :: "'f group_world \<Rightarrow> 'f group_pass \<Rightarrow> unit resolve \<times> 'f group_pass" where
  "group_reconcileFormulas w s =
     (let sg = mem s; applyData = group_apply_data sg in
      case syncFormulas (groupFormulas (group_formula_api w) (sgs_uyuni_id (sg_status sg))) (gu_formulas w)
             (resolveFormulaValues (gw_reader w) (obj_namespace sg)) applyData (sg_formulas (sg_spec sg)) s of
        (Broken e, s1) \<Rightarrow> (Broken e, s1)
      | (resolve.Wait m, s1) \<Rightarrow> (resolve.Wait m, s1)
      | (Resolved (desired, drift), s1) \<Rightarrow>
          (case (if applyData then group_data_applied w s1 else (Resolved (), s1)) of
             (Resolved _, s2) \<Rightarrow> (Resolved (), group_mark_formulas w desired drift s2)
           | r \<Rightarrow> r))"

definition group_formula_step ::
  "'f group_world \<Rightarrow> ('f group_pass \<Rightarrow> 'f group_outcome) \<Rightarrow> 'f group_pass \<Rightarrow> 'f group_outcome" where
  "group_formula_step w next s =
     (case group_reconcileFormulas w s of
        (r, s1) \<Rightarrow> with_resolved (group_kit w) ''UpdateFailed'' ''WaitingForFormula'' r (\<lambda>_. next) s1)"

section \<open>Members\<close>

fun member_loop :: "'f group_world \<Rightarrow> string \<Rightarrow> local_object_ref list \<Rightarrow> (int \<times> string) list resolve" where
  "member_loop w ns [] = Resolved []"
| "member_loop w ns (ref # refs) =
     get_or (''System '' @ go_quote (lor_name ref) @ '' not found'')
       (\<lambda>sys. if syss_uyuni_server_id (sys_status sys) = 0
         then resolve.Wait (''System '' @ go_quote (lor_name ref) @ '' not yet registered in Uyuni'')
         else then_resolve (member_loop w ns refs)
           (\<lambda>ms. Resolved ((syss_uyuni_server_id (sys_status sys), sys_minion_id (sys_spec sys)) # ms)))
       (gw_get_system w ns (lor_name ref))"

fun minion_loop :: "'f group_world \<Rightarrow> string list \<Rightarrow> (int \<times> string) list resolve" where
  "minion_loop w [] = Resolved []"
| "minion_loop w (m # ms) =
     (case gu_by_minion w m of
        Inl e \<Rightarrow>
          if is_uyuni_not_found e
          then resolve.Wait (''system with minionId '' @ go_quote m @ '' not yet registered in Uyuni'')
          else Broken e
      | Inr d \<Rightarrow> then_resolve (minion_loop w ms) (\<lambda>r. Resolved ((sd_id d, m) # r)))"

text \<open>The two result lists of \<^verbatim>\<open>resolveMembers\<close> grow together; here they are one list of pairs.\<close>

definition resolveMembers :: "'f group_world \<Rightarrow> system_group \<Rightarrow> (int \<times> string) list resolve" where
  "resolveMembers w sg =
     then_resolve (member_loop w (obj_namespace sg) (sg_member_refs (sg_spec sg)))
       (\<lambda>ms. then_resolve (minion_loop w (sg_static_minion_ids (sg_spec sg))) (\<lambda>more. Resolved (ms @ more)))"

definition declares_members :: "system_group_spec \<Rightarrow> bool" where
  "declares_members sp = (sg_member_refs sp \<noteq> [] \<or> sg_static_minion_ids sp \<noteq> [])"

definition group_member_step ::
  "'f group_world \<Rightarrow> int list \<Rightarrow> (int list \<Rightarrow> 'f group_pass \<Rightarrow> 'f group_outcome) \<Rightarrow> 'f group_pass \<Rightarrow>
   'f group_outcome" where
  "group_member_step w desired next s =
     (case not_found_or [] (gu_members w (group_name s)) of
        Inl e \<Rightarrow> return_error e s
      | Inr current \<Rightarrow>
          if declares_members (sg_spec (mem s))
          then (case diffIntSets current desired of
             (add, rm) \<Rightarrow> call_each (bw_out w) return_error
               ((if add = [] then [] else [AddSystemsToGroup (group_name s) add])
                @ (if rm = [] then [] else [RemoveSystemsFromGroup (group_name s) rm])) (next current) s)
          else next current s)"

section \<open>Configuration channels\<close>

definition findConfigChannel ::
  "'f group_world \<Rightarrow> string \<Rightarrow> string \<Rightarrow> go_error + configuration_channel option" where
  "findConfigChannel w ns nameOrID =
     (case gw_get_config_channel w ns nameOrID of
        Inr cc \<Rightarrow> Inr (Some cc)
      | Inl e \<Rightarrow>
          if ignore_not_found e \<noteq> None then Inl e
          else case gw_config_channels w ns of
            Inl e' \<Rightarrow> Inl e'
          | Inr items \<Rightarrow> Inr (find (\<lambda>cc. cch_id (cchan_spec cc) = nameOrID) items))"

fun group_channel_loop :: "'f group_world \<Rightarrow> string \<Rightarrow> local_object_ref list \<Rightarrow> string list resolve" where
  "group_channel_loop w ns [] = Resolved []"
| "group_channel_loop w ns (ref # refs) =
     (case findConfigChannel w ns (lor_name ref) of
        Inl e \<Rightarrow> Broken e
      | Inr None \<Rightarrow> resolve.Wait (''ConfigurationChannel '' @ go_quote (lor_name ref) @ '' not found'')
      | Inr (Some cc) \<Rightarrow>
          if cchs_uyuni_id (cchan_status cc) = 0
          then resolve.Wait (''ConfigurationChannel '' @ go_quote (lor_name ref) @ '' not yet realized'')
          else then_resolve (group_channel_loop w ns refs) (\<lambda>ls. Resolved (cch_id (cchan_spec cc) # ls)))"

definition group_resolveConfigChannels :: "'f group_world \<Rightarrow> system_group \<Rightarrow> string list resolve" where
  "group_resolveConfigChannels w sg = group_channel_loop w (obj_namespace sg) (sg_config_channel_refs (sg_spec sg))"

definition group_channel_step ::
  "'f group_world \<Rightarrow> (string list \<Rightarrow> 'f group_pass \<Rightarrow> 'f group_outcome) \<Rightarrow> 'f group_pass \<Rightarrow> 'f group_outcome" where
  "group_channel_step w next s =
     with_resolved (group_kit w) ''ResolveConfigChannelsFailed'' ''WaitingForConfigChannel''
       (group_resolveConfigChannels w (mem s))
       (\<lambda>desired s1.
          (case diffStringSets (sgs_active_config_channel_labels (sg_status (mem s1))) desired of
             (add, rm) \<Rightarrow> call_each (bw_out w) return_error
               (map (SubscribeGroupToConfigChannel (group_name s1)) add
                @ map (UnsubscribeGroupFromConfigChannel (group_name s1)) rm) (next desired) s1)) s"

section \<open>The pass\<close>

definition group_finish ::
  "'f group_world \<Rightarrow> string list \<Rightarrow> int list \<Rightarrow> string list \<Rightarrow> 'f group_pass \<Rightarrow> 'f group_outcome" where
  "group_finish w minions current channels s =
     save_and (group_kit w) (result_after (5 * minute))
       (become (group_kit w) True ''Reconciled'' []
         (set_st (group_kit w) (\<lambda>st. st\<lparr>sgs_member_count := int (length current), sgs_resolved_members := minions,
            sgs_active_config_channel_labels := channels, sgs_observed_generation := obj_generation (mem s)\<rparr>) s))"

definition group_converge :: "'f group_world \<Rightarrow> 'f group_pass \<Rightarrow> 'f group_outcome" where
  "group_converge w =
     group_formula_step w (\<lambda>s.
       with_resolved (group_kit w) ''ResolveMembersFailed'' ''WaitingForMember'' (resolveMembers w (mem s))
         (\<lambda>ms. group_member_step w (map fst ms)
            (\<lambda>current. group_channel_step w (group_finish w (map snd ms) current))) s)"

definition group_handleDeletion :: "'f group_world \<Rightarrow> 'f group_pass \<Rightarrow> 'f group_outcome" where
  "group_handleDeletion w s =
     delete_remote (group_kit w) (bw_client w) sgFinalizer (sgs_uyuni_id (sg_status (mem s)) \<noteq> 0)
       (DeleteSystemGroup (group_name s)) s"

definition group_Reconcile :: "'f group_world \<Rightarrow> system_group \<Rightarrow> 'f group_outcome" where
  "group_Reconcile w sg =
     (let s = start_pass sg in
      if obj_deleting sg then group_handleDeletion w s
      else begin_pass (group_kit w) w sgFinalizer (orgRef (sg_organization_ref (sg_spec sg)))
             (group_realize w (group_converge w)) s)"

text \<open>The watch mappers.  The changed object is a ConfigurationChannel with its id, or not (\<open>None\<close>).\<close>

definition groups_where :: "(go_error + system_group list) \<Rightarrow> (system_group \<Rightarrow> bool) \<Rightarrow> requests" where
  "groups_where l P =
     (case l of Inl _ \<Rightarrow> [] | Inr gs \<Rightarrow> map (\<lambda>g. (obj_namespace g, obj_name g)) (filter P gs))"

definition groupsForSystem :: "(go_error + system_group list) \<Rightarrow> string \<Rightarrow> requests" where
  "groupsForSystem l n = groups_where l (\<lambda>g. refs_to n (sg_member_refs (sg_spec g)))"

definition groupsForConfigChannel ::
  "(go_error + system_group list) \<Rightarrow> string \<Rightarrow> string option \<Rightarrow> requests" where
  "groupsForConfigChannel l crName changed =
     (let specID = (case changed of Some i \<Rightarrow> i | None \<Rightarrow> []) in
      groups_where l (\<lambda>g. \<exists>ref \<in> set (sg_config_channel_refs (sg_spec g)).
        lor_name ref = crName \<or> (specID \<noteq> [] \<and> lor_name ref = specID)))"

end
