(* ===== verification/Kind_Facts.thy ===== *)
theory Kind_Facts
  imports Kind_Steps
begin

text \<open>
  More steps and facts for the controllers of the smaller kinds: the owner references to content
  projects, the annotations of a pass, and the calls a pass did not make.
\<close>

section \<open>Owner references to projects\<close>

definition own_projects ::
  "answers \<Rightarrow> (('a) k8s_object_scheme, 'st) kind_ops \<Rightarrow> ('p) content_project_scheme k8s_get \<Rightarrow> string list \<Rightarrow>
   (('a) k8s_object_scheme, 'u) pass \<Rightarrow> go_error option \<times> (('a) k8s_object_scheme, 'u) pass" where
  "own_projects out K get names s =
     (let r = reconcileProjectOwnership get (\<lambda>_. out (length (trace s))) (mem s) names;
          s' = s\<lparr>mem := (mem s)\<lparr>obj_owners := in_memory r\<rparr>\<rparr>
      in case sent r of
           None \<Rightarrow> (own_err r, s')
         | Some _ \<Rightarrow> write_object out K s')"

definition with_projects ::
  "(('a) k8s_object_scheme, 'st) kit \<Rightarrow> ('p) content_project_scheme k8s_get \<Rightarrow> string list \<Rightarrow>
   ((('a) k8s_object_scheme, 'u) pass \<Rightarrow> (('a) k8s_object_scheme, 'u) outcome) \<Rightarrow>
   (('a) k8s_object_scheme, 'u) pass \<Rightarrow> (('a) k8s_object_scheme, 'u) outcome" where
  "with_projects k get names rest s =
     (case own_projects (kit_out k) (kit_ops k) get names s of
        (Some e, s1) \<Rightarrow> return_error e s1
      | (None, s1) \<Rightarrow> rest s1)"

context pass_rule
begin

lemma own_projects_I: "I s \<Longrightarrow> I (snd (own_projects (kit_out k) (kit_ops k) get names s))"
  by (simp add: own_projects_def Let_def owners object_write split: option.split)

lemma with_projects_I:
  assumes "I s" "\<And>s. I s \<Longrightarrow> I (pass_of (rest s))"
  shows "I (pass_of (with_projects k get names rest s))"
proof (cases "own_projects (kit_out k) (kit_ops k) get names s")
  case (Pair e s1)
  then have "I s1" using own_projects_I [OF assms(1), of get names] by simp
  then show ?thesis using Pair assms(2) by (simp add: with_projects_def return_I split: option.split)
qed

end

section \<open>Calls\<close>

text \<open>A call that is made under a condition.\<close>

definition call_if ::
  "bool \<Rightarrow> answers \<Rightarrow> (go_error \<Rightarrow> ('o, 'u) pass \<Rightarrow> ('o, 'u) outcome) \<Rightarrow> 'u \<Rightarrow> (('o, 'u) pass \<Rightarrow> ('o, 'u) outcome) \<Rightarrow>
   ('o, 'u) pass \<Rightarrow> ('o, 'u) outcome" where
  "call_if c out handle u rest s = (if c then call_or out u handle rest s else rest s)"

lemma call_each_none [simp]: "call_each out h [] rest = rest"
  by (rule ext) simp

lemma call_if_each: "call_if c out h u rest s = call_each out h (if c then [u] else []) rest s"
  by (simp add: call_if_def)

context pass_rule
begin

lemma call_if_I:
  assumes "I s" "c \<Longrightarrow> U u" "\<And>e s. I s \<Longrightarrow> I (pass_of (h e s))" "\<And>s. I s \<Longrightarrow> I (pass_of (rest s))"
  shows "I (pass_of (call_if c (kit_out k) h u rest s))"
  using assms by (simp add: call_if_def call_or_I)

end

lemma only_calls_absent: "only_calls U s \<Longrightarrow> \<not> U u \<Longrightarrow> u \<notin> fst ` set (call_log (trace s))"
  by (auto simp: only_calls_def)

section \<open>The Ready condition at the end of a pass\<close>

definition reports_ready :: "condition list \<Rightarrow> bool" where
  "reports_ready cs = (case find_cond ''Ready'' cs of None \<Rightarrow> False | Some c \<Rightarrow> cond_status c)"

lemma refuse_not_ready:
  fixes k :: "(('a) k8s_object_scheme, 'st) kit"
  assumes "condition_law (kit_ssc k)" "\<And>st x. status_of (kit_ops k) (with_status (kit_ops k) st x) = st"
    and "\<And>f st. conds (kit_conditions k f st) = f (conds st)"
  shows "\<not> reports_ready (conds (status_of (kit_ops k) (mem (pass_of (refuse k after r m s)))))"
  using assms by (simp add: refuse_def save_ignoring_def become_def set_st_def reports_ready_def setReady_Ready)

text \<open>
  An outcome that satisfies \<open>Q\<close> if it is the one of a pass that went through (no error, the next pass
  in five minutes) and reports Ready.
\<close>

definition went_through :: "('o \<Rightarrow> condition list) \<Rightarrow> (('o, 'u) pass \<Rightarrow> bool) \<Rightarrow> ('o, 'u) outcome \<Rightarrow> bool" where
  "went_through conds Q r = (\<forall>s. r = (result_after (5 * minute), None, s) \<longrightarrow>
     reports_ready (conds (mem s)) \<longrightarrow> Q s)"

lemma went_through_simps [simp]:
  "went_through conds Q (return_error e s)" "went_through conds Q (fail_with k r e s)"
  "went_through conds Q (result_requeue, r', s)" "went_through conds Q (result_done, r', s)"
  "went_through conds Q (release k fin s)" "went_through conds Q (save_and k result_requeue s)"
  "after \<noteq> 5 * minute \<Longrightarrow> went_through conds Q (save_and k (result_after after) s)"
  "after \<noteq> 5 * minute \<Longrightarrow> went_through conds Q (save_with k (result_after after) s)"
  by (simp_all add: went_through_def return_error_def fail_with_def result_after_def result_requeue_def result_done_def
      release_eq save_and_eq save_with_def Let_def split: option.split prod.split)

lemma went_through_if: "Q (pass_of r) \<Longrightarrow> went_through conds Q r"
  by (auto simp: went_through_def)

lemma went_through_mono: "went_through conds Q r \<Longrightarrow> (\<And>s. Q s \<Longrightarrow> Q' s) \<Longrightarrow> went_through conds Q' r"
  by (simp add: went_through_def)

lemma went_through_delete:
  "went_through conds Q (delete_remote k client fin present u s)"
  by (simp add: delete_remote_def delete_guarded_def delete_call_def call_or_eq split: option.split)

section \<open>Invariants of the status\<close>

text \<open>
  An invariant of the status has to hold of the stored object as well, because an update of the object
  brings the stored status back to memory.
\<close>

definition status_stays ::
  "('o, 'st) kind_ops \<Rightarrow> ('o \<Rightarrow> bool) \<Rightarrow> ('st \<Rightarrow> bool) \<Rightarrow> (('u \<times> bool) list \<Rightarrow> bool) \<Rightarrow> ('o, 'u) pass \<Rightarrow> bool" where
  "status_stays K Q R J s = (Q (mem s) \<and> R (status_of K (mem s)) \<and> J (call_log (trace s)) \<and>
     (case stored s of None \<Rightarrow> True | Some x \<Rightarrow> R (status_of K x)))"

lemma status_rule:
  fixes k :: "(('a) k8s_object_scheme, 'st) kit"
  assumes "steady (kit_ops k) Q" and laws: "status_field (kit_ops k)"
    and meta: "\<And>x fs. status_of (kit_ops k) (x\<lparr>obj_finalizers := fs\<rparr>) = status_of (kit_ops k) x"
      "\<And>x as. status_of (kit_ops k) (x\<lparr>obj_annotations := as\<rparr>) = status_of (kit_ops k) x"
      "\<And>x os. status_of (kit_ops k) (x\<lparr>obj_owners := os\<rparr>) = status_of (kit_ops k) x"
    and "\<And>g st. R (kit_conditions k g st) = R st" "\<And>l u ok. J l \<Longrightarrow> U u \<Longrightarrow> J (l @ [(u, ok)])"
  shows "pass_rule k (status_stays (kit_ops k) Q R J) (\<lambda>f. \<forall>st. R st \<longrightarrow> R (f st)) U"
  using assms status_field.read_write [OF laws]
  by unfold_locales
    (auto simp: status_stays_def steady_def set_st_def collected_def Option.bind_eq_Some_conv split: option.splits if_splits)

end
