(* ===== verification/Group_Facts.thy ===== *)
theory Group_Facts
  imports Group_Controller Kind_Facts
begin

text \<open>
  What a pass on a SystemGroup does: the members of the group in Uyuni become the declared ones, a
  group that declares none is not touched, and the group is removed only for a resource being deleted.
\<close>

section \<open>The calls on members\<close>

lemma group_kind_simps [simp]:
  "status_of group_kind x = sg_status x" "with_status group_kind st x = x\<lparr>sg_status := st\<rparr>"
  by (simp_all add: group_kind_def)

lemma group_kit_simps [simp]:
  "kit_ops (group_kit w) = group_kind" "kit_out (group_kit w) = bw_out w" "kit_ssc (group_kit w) = bw_ssc w"
  "kit_conditions (group_kit w) = sgs_conditions_update"
  by (simp_all add: group_kit_def)

text \<open>The members of a group after the calls that succeeded.\<close>

fun members_after :: "string \<Rightarrow> ('f group_call \<times> bool) list \<Rightarrow> int set \<Rightarrow> int set" where
  "members_after n [] M = M"
| "members_after n ((AddSystemsToGroup g is, True) # l) M = members_after n l (if g = n then M \<union> set is else M)"
| "members_after n ((RemoveSystemsFromGroup g is, True) # l) M = members_after n l (if g = n then M - set is else M)"
| "members_after n (_ # l) M = members_after n l M"

fun member_call :: "'f group_call \<Rightarrow> bool" where
  "member_call (AddSystemsToGroup _ _) = True"
| "member_call (RemoveSystemsFromGroup _ _) = True"
| "member_call _ = False"

fun removal_call :: "'f group_call \<Rightarrow> bool" where
  "removal_call (DeleteSystemGroup _) = True"
| "removal_call _ = False"

lemma members_after_append: "members_after n (l @ l') M = members_after n l' (members_after n l M)"
  by (induction n l M rule: members_after.induct) simp_all

lemma members_after_other: "\<not> member_call u \<Longrightarrow> members_after n [(u, ok)] M = M"
  by (cases u; cases ok) simp_all

definition same_group :: "system_group \<Rightarrow> system_group \<Rightarrow> bool" where
  "same_group x y = (sg_spec y = sg_spec x \<and> obj_namespace y = obj_namespace x \<and> obj_name y = obj_name x)"

lemma same_group_steady: "steady group_kind (same_group x)"
  by (simp add: steady_def same_group_def)

text \<open>The invariant of a pass that has made no call on members yet, and of one that makes none any more.\<close>

definition members_are :: "system_group \<Rightarrow> int set \<Rightarrow> int set \<Rightarrow> 'f group_pass \<Rightarrow> bool" where
  "members_are x M M' s = (same_group x (mem s) \<and> members_after (sg_name (sg_spec x)) (call_log (trace s)) M = M')"

lemma members_rule:
  "pass_rule (group_kit w) (members_are x M M') (\<lambda>_. True) (\<lambda>u. \<not> member_call u)"
  for w :: "'f group_world"
  unfolding members_are_def
  by (rule steady_rule) (simp_all add: same_group_steady members_after_append members_after_other)

section \<open>Steps\<close>

locale group_rule = pass_rule "group_kit w" I "\<lambda>_. True" U
  for w :: "'f group_world" and I :: "'f group_pass \<Rightarrow> bool" and U :: "'f group_call \<Rightarrow> bool" +
  assumes harmless: "\<not> member_call u \<Longrightarrow> \<not> removal_call u \<Longrightarrow> U u"
begin

lemma formulas_I:
  assumes "I s"
  shows "I (snd (group_reconcileFormulas w s))"
proof -
  have step: "I (snd (attempt (bw_out w) (Call u) s'))" if "I s'" "\<not> member_call u" "\<not> removal_call u" for u s'
    using call [of s' u] that harmless by simp
  have sync: "I (snd (syncFormulas (groupFormulas (group_formula_api w) i) av vs ap fs s))" for i av vs ap fs
    by (rule syncFormulas_keeps) (auto simp: groupFormulas_def group_formula_api_def SetGroupFormulas_def assms step)
  have stamp: "I (stamp_generation w s')" if "I s'" for s'
    using that by (simp add: stamp_generation_def set_status)
  have applied: "I (snd (group_data_applied w s'))" if "I s'" for s'
  proof -
    have "I s1" if "write_object (bw_out w) group_kind (strip_annotation a s') = (r, s1)" for a r s1
      using object_write [OF strip_annotation_I [OF \<open>I s'\<close>], of a] that by simp
    then show ?thesis using that by (simp add: group_data_applied_def stamp set_status Let_def split: prod.split option.split)
  qed
  have marked: "I (group_mark_formulas w d dr s')" if "I s'" for d dr s'
    using that by (simp add: group_mark_formulas_def set_status mark_I)
  have "I s1" if "syncFormulas (groupFormulas (group_formula_api w) i) av vs ap fs s = (r, s1)" for i av vs ap fs r s1
    using sync [of i av vs ap fs] that by simp
  moreover have "I s1" if "group_data_applied w s' = (r, s1)" "I s'" for s' r s1
    using applied [of s'] that by simp
  ultimately show ?thesis
    by (simp add: group_reconcileFormulas_def Let_def marked split: prod.split resolve.split)
qed

end

context group_rule
begin

lemma finish_I: "I s \<Longrightarrow> I (pass_of (group_finish w ms cur chs s))"
  by (simp add: group_finish_def save_and_I become_I set_status)

lemma channel_step_I:
  assumes "I s" "\<And>d s. I s \<Longrightarrow> I (pass_of (next d s))"
  shows "I (pass_of (group_channel_step w next s))"
proof -
  have "I (pass_of (case diffStringSets (f s') d of (add, rm) \<Rightarrow> call_each (bw_out w) return_error
      (map (SubscribeGroupToConfigChannel (g s')) add @ map (UnsubscribeGroupFromConfigChannel (g s')) rm) (next d) s'))"
    if "I s'" for d s' and f g
    by (cases "diffStringSets (f s') d", simp,
        rule call_each_I [unfolded group_kit_simps]) (use that assms(2) harmless in \<open>auto simp: return_I\<close>)
  then show ?thesis unfolding group_channel_step_def
    by (intro with_resolved_I assms(1))
qed

end

interpretation members: group_rule w "members_are x M M'" "\<lambda>u. \<not> member_call u"
  for w :: "'f group_world" and x M M'
  by (intro group_rule.intro members_rule group_rule_axioms.intro) simp

section \<open>Members\<close>

abbreviation settled :: "('f group_pass \<Rightarrow> bool) \<Rightarrow> 'f group_outcome \<Rightarrow> bool" where
  "settled \<equiv> went_through (\<lambda>x. sgs_conditions (sg_status x))"

lemma settled_refuse: "condition_law (bw_ssc w) \<Longrightarrow> settled Q (refuse (group_kit w) after r m s)"
  using refuse_not_ready [of "group_kit w" sgs_conditions after r m s] by (auto simp: went_through_def)

text \<open>The members a resource declares, said of what the cluster and Uyuni report.\<close>

definition declared_members :: "'f group_world \<Rightarrow> system_group \<Rightarrow> int set" where
  "declared_members w sg =
     {syss_uyuni_server_id (sys_status x) | ref x. ref \<in> set (sg_member_refs (sg_spec sg)) \<and>
        gw_get_system w (obj_namespace sg) (lor_name ref) = Inr x} \<union>
     {sd_id d | m d. m \<in> set (sg_static_minion_ids (sg_spec sg)) \<and> gu_by_minion w m = Inr d}"

definition all_members_known :: "'f group_world \<Rightarrow> system_group \<Rightarrow> bool" where
  "all_members_known w sg =
     ((\<forall>ref\<in>set (sg_member_refs (sg_spec sg)). case gw_get_system w (obj_namespace sg) (lor_name ref) of
         Inl _ \<Rightarrow> False | Inr x \<Rightarrow> syss_uyuni_server_id (sys_status x) \<noteq> 0) \<and>
      (\<forall>m\<in>set (sg_static_minion_ids (sg_spec sg)). \<exists>d. gu_by_minion w m = Inr d))"

lemma member_loop_Resolved:
  "member_loop w ns refs = Resolved ms \<Longrightarrow>
     set (map fst ms) = {syss_uyuni_server_id (sys_status x) | ref x. ref \<in> set refs \<and>
       gw_get_system w ns (lor_name ref) = Inr x} \<and>
     (\<forall>ref\<in>set refs. case gw_get_system w ns (lor_name ref) of
       Inl _ \<Rightarrow> False | Inr x \<Rightarrow> syss_uyuni_server_id (sys_status x) \<noteq> 0)"
proof (induction refs arbitrary: ms)
  case (Cons ref refs)
  from Cons.prems obtain x ms' where x: "gw_get_system w ns (lor_name ref) = Inr x"
      "syss_uyuni_server_id (sys_status x) \<noteq> 0" "member_loop w ns refs = Resolved ms'"
      "ms = (syss_uyuni_server_id (sys_status x), sys_minion_id (sys_spec x)) # ms'"
    by (auto simp: get_or_def then_resolve_def split: sum.splits if_splits resolve.splits)
  from Cons.IH [OF x(3)] have ih: "set (map fst ms') = {syss_uyuni_server_id (sys_status x) | ref x.
      ref \<in> set refs \<and> gw_get_system w ns (lor_name ref) = Inr x}" by (rule conjunct1)
  have "set (map fst ms) = insert (syss_uyuni_server_id (sys_status x)) (set (map fst ms'))" by (simp add: x(4))
  also have "\<dots> = {syss_uyuni_server_id (sys_status x) | ref' x.
      ref' \<in> set (ref # refs) \<and> gw_get_system w ns (lor_name ref') = Inr x}"
    unfolding ih using x(1) by auto
  finally show ?case using Cons.IH [OF x(3)] x(1,2) by simp
qed simp

lemma minion_loop_Resolved:
  "minion_loop w ns = Resolved ms \<Longrightarrow>
     set (map fst ms) = {sd_id d | m d. m \<in> set ns \<and> gu_by_minion w m = Inr d} \<and>
     (\<forall>m\<in>set ns. \<exists>d. gu_by_minion w m = Inr d)"
proof (induction ns arbitrary: ms)
  case (Cons n ns)
  from Cons.prems obtain d ms' where d: "gu_by_minion w n = Inr d" "minion_loop w ns = Resolved ms'"
      "ms = (sd_id d, n) # ms'"
    by (auto simp: then_resolve_def split: sum.splits if_splits resolve.splits)
  from Cons.IH [OF d(2)] have ih: "set (map fst ms') = {sd_id d | m d. m \<in> set ns \<and> gu_by_minion w m = Inr d}"
    by (rule conjunct1)
  have "set (map fst ms) = insert (sd_id d) (set (map fst ms'))" by (simp add: d(3))
  also have "\<dots> = {sd_id d | m d. m \<in> set (n # ns) \<and> gu_by_minion w m = Inr d}"
    unfolding ih using d(1) by auto
  finally show ?case using Cons.IH [OF d(2)] d(1) by simp
qed simp

lemma resolveMembers_Resolved:
  assumes "resolveMembers w sg = Resolved ms"
  shows "set (map fst ms) = declared_members w sg" and "all_members_known w sg"
proof -
  obtain ms1 ms2 where ms: "member_loop w (obj_namespace sg) (sg_member_refs (sg_spec sg)) = Resolved ms1"
      "minion_loop w (sg_static_minion_ids (sg_spec sg)) = Resolved ms2" "ms = ms1 @ ms2"
    using assms by (auto simp: resolveMembers_def then_resolve_def split: resolve.splits)
  show "set (map fst ms) = declared_members w sg"
    using conjunct1 [OF member_loop_Resolved [OF ms(1)]] conjunct1 [OF minion_loop_Resolved [OF ms(2)]]
    unfolding declared_members_def ms(3) by simp
  show "all_members_known w sg"
    using conjunct2 [OF member_loop_Resolved [OF ms(1)]] conjunct2 [OF minion_loop_Resolved [OF ms(2)]]
    by (simp add: all_members_known_def)
qed

lemma member_step_settled:
  assumes "members_are x M M s" "not_found_or [] (gu_members w (sg_name (sg_spec x))) = Inr current" "M = set current"
    and "D = (if declares_members (sg_spec x) then set desired else M)"
    and "\<And>s. members_are x M D s \<Longrightarrow> settled (members_are x M D) (next current s)"
  shows "settled (members_are x M D) (group_member_step w desired next s)"
proof -
  let ?n = "sg_name (sg_spec x)"
  have sp: "sg_spec (mem s) = sg_spec x" using assms(1) by (simp add: members_are_def same_group_def)
  obtain add rm where d: "diffIntSets current desired = (add, rm)" by fastforce
  let ?us = "(if add = [] then [] else [AddSystemsToGroup ?n add]) @ (if rm = [] then [] else [RemoveSystemsFromGroup ?n rm])"
  have "set add = set desired - set current" "set rm = set current - set desired"
    using ints.adds [of current desired] ints.removes [of current desired] d by simp_all
  then have effect: "members_after ?n (map (\<lambda>u. (u, True)) ?us) M = set desired"
    using assms(3) by auto
  show ?thesis
  proof (cases "declares_members (sg_spec x)")
    case False
    then show ?thesis using assms sp by (simp add: group_member_step_def)
  next
    case True
    then have step: "group_member_step w desired next s = call_each (bw_out w) return_error ?us (next current) s"
      using assms(2) sp d by (simp add: group_member_step_def)
    show ?thesis using call_each_cases [of "bw_out w" return_error ?us "next current" s]
    proof (elim disjE exE conjE)
      fix s'
      assume s': "call_each (bw_out w) return_error ?us (next current) s = next current s'" "mem s' = mem s"
        "call_log (trace s') = call_log (trace s) @ map (\<lambda>u. (u, True)) ?us"
      have "members_are x M D s'"
        unfolding members_are_def s'(2,3) members_after_append
        using assms(1,4) True effect by (simp add: members_are_def)
      then show ?thesis using assms(5) step s'(1) by simp
    qed (simp add: step)
  qed
qed

text \<open>What Uyuni lists as the members: nothing for a group it has no listing of.\<close>

definition listed_members :: "'f group_world \<Rightarrow> string \<Rightarrow> int set" where
  "listed_members w n = (case gu_members w n of Inl _ \<Rightarrow> {} | Inr ms \<Rightarrow> set ms)"

definition wanted_members :: "'f group_world \<Rightarrow> system_group \<Rightarrow> int set" where
  "wanted_members w sg =
     (if sg_member_refs (sg_spec sg) = [] \<and> sg_static_minion_ids (sg_spec sg) = []
      then listed_members w (sg_name (sg_spec sg)) else declared_members w sg)"

definition converged :: "'f group_world \<Rightarrow> system_group \<Rightarrow> 'f group_pass \<Rightarrow> bool" where
  "converged w x s = (members_are x (listed_members w (sg_name (sg_spec x))) (wanted_members w x) s \<and>
     all_members_known w x)"

abbreviation unchanged :: "'f group_world \<Rightarrow> system_group \<Rightarrow> 'f group_pass \<Rightarrow> bool" where
  "unchanged w x \<equiv> members_are x (listed_members w (sg_name (sg_spec x))) (listed_members w (sg_name (sg_spec x)))"

lemma converge_settled:
  assumes "condition_law (bw_ssc w)" "unchanged w x s"
  shows "settled (converged w x) (group_converge w s)"
proof -
  let ?M = "listed_members w (sg_name (sg_spec x))"
  obtain r s1 where f: "group_reconcileFormulas w s = (r, s1)" by fastforce
  then have s1: "unchanged w x s1" using members.formulas_I [OF assms(2), of w] by simp
  have same: "resolveMembers w (mem s1) = resolveMembers w x"
    using s1 by (simp add: members_are_def same_group_def resolveMembers_def)
  have step: "settled (converged w x) (group_member_step w (map fst ms)
        (\<lambda>current. group_channel_step w (group_finish w (map snd ms) current)) s1)"
    if ms: "resolveMembers w x = Resolved ms" for ms
  proof (cases "not_found_or [] (gu_members w (sg_name (sg_spec x)))")
    case (Inl e)
    then show ?thesis using s1 by (simp add: group_member_step_def members_are_def same_group_def)
  next
    case (Inr current)
    note known = resolveMembers_Resolved [OF ms]
    have M: "?M = set current"
      using Inr by (auto simp: listed_members_def not_found_or_def split: sum.splits if_splits)
    have D: "wanted_members w x = (if declares_members (sg_spec x) then set (map fst ms) else ?M)"
      using known(1) by (simp add: wanted_members_def declares_members_def)
    have "settled (members_are x ?M (wanted_members w x)) (group_member_step w (map fst ms)
        (\<lambda>current. group_channel_step w (group_finish w (map snd ms) current)) s1)"
      by (rule member_step_settled [OF s1 Inr M D])
        (intro went_through_if members.channel_step_I members.finish_I)
    then show ?thesis using known(2) by (simp add: went_through_def converged_def)
  qed
  show ?thesis using same f step
    by (simp add: group_converge_def group_formula_step_def with_resolved_def settled_refuse [OF assms(1)]
        split: resolve.split)
qed

lemma create_settled:
  assumes "condition_law (bw_ssc w)" "unchanged w sg s"
  shows "settled (converged w sg) (group_create w (group_converge w) s)"
proof -
  have "unchanged w sg (set_group_id w i (try_call (bw_out w) (CreateSystemGroup n d) s))" for i n d
    using members.try_call_I [OF assms(2), of "CreateSystemGroup n d" w]
    by (simp add: set_group_id_def members.set_status)
  then show ?thesis
    by (simp add: group_create_def call_or_eq group_fail_def settled_refuse [OF assms(1)] converge_settled [OF assms(1)])
qed

lemma adopt_settled:
  assumes "condition_law (bw_ssc w)" "unchanged w sg s"
  shows "settled (converged w sg) (group_adopt w g (group_converge w) s)"
proof -
  let ?s = "set_group_id w (sgd_id g) s"
  have s2: "unchanged w sg ?s" using assms(2) by (simp add: set_group_id_def members.set_status)
  moreover have "unchanged w sg (try_call (bw_out w) (UpdateSystemGroupDescription n d) ?s)" for n d
    using members.try_call_I [OF s2, of "UpdateSystemGroupDescription n d" w] by simp
  ultimately show ?thesis
    by (simp add: group_adopt_def Let_def call_or_eq settled_refuse [OF assms(1)] converge_settled [OF assms(1)]
        split: sum.split option.split)
qed

text \<open>
  C8.  The members of a group.  When a pass on a SystemGroup goes through (no error, the next one in
  five minutes) and reports Ready, whether it created the group, adopted it or found it realized, then
  every system its memberRefs and staticMinionIDs name is known to Uyuni, and the members in Uyuni
  after the calls of the pass are exactly those systems, if the resource names any, and otherwise the
  members it found.
\<close>

theorem group_members_exact:
  fixes w :: "'f group_world"
  assumes "condition_law (bw_ssc w)" "group_Reconcile w sg = (result_after (5 * minute), None, s)"
    and "reports_ready (sgs_conditions (sg_status (mem s)))"
  shows "members_after (sg_name (sg_spec sg)) (call_log (trace s)) (listed_members w (sg_name (sg_spec sg))) =
     (if sg_member_refs (sg_spec sg) = [] \<and> sg_static_minion_ids (sg_spec sg) = []
      then listed_members w (sg_name (sg_spec sg)) else declared_members w sg) \<and>
     all_members_known w sg"
proof -
  have start: "unchanged w sg (start_pass sg :: 'f group_pass)"
    by (simp add: members_are_def same_group_def)
  have realize: "settled (converged w sg) (group_realize w (group_converge w) s1)" if "unchanged w sg s1" for s1
    using create_settled [OF assms(1) that] adopt_settled [OF assms(1) that]
    by (simp add: group_realize_def group_fail_def split: sum.split)
  have owned: "settled (converged w sg) (with_owner (group_kit w) getOrg n (group_realize w (group_converge w)) s1)"
    if "unchanged w sg s1" for s1 n and getOrg :: "organization k8s_get"
  proof -
    obtain e s2 where o': "own_organization (bw_out w) group_kind getOrg n s1 = (e, s2)" by fastforce
    then have "unchanged w sg s2" using members.own_organization_I [OF that, of w getOrg n] by simp
    then show ?thesis using o' realize by (simp add: with_owner_def split: option.split)
  qed
  have deletion: "settled (converged w sg) (group_handleDeletion w s1)" for s1
    by (simp add: group_handleDeletion_def went_through_delete)
  have "settled (converged w sg) (group_Reconcile w sg)"
    using owned [OF start] deletion
    by (simp add: group_Reconcile_def Let_def begin_pass_def with_finalizer_eq split: option.split)
  then show ?thesis using assms(2,3) by (simp add: went_through_def converged_def members_are_def wanted_members_def)
qed

definition sample_group_spec :: "local_object_ref list \<Rightarrow> system_group_spec" where
  "sample_group_spec members = \<lparr>sg_name = ''g'', sg_description = ''d'', sg_member_refs = members,
     sg_static_minion_ids = [], sg_config_channel_refs = [], sg_formulas = [],
     sg_organization_ref = Some \<lparr>lor_name = ''o''\<rparr>, sg_cluster = None\<rparr>"

definition sample_group :: "string list \<Rightarrow> bool \<Rightarrow> local_object_ref list \<Rightarrow> system_group" where
  "sample_group fins deleting members = k8s_object.extend (sample_meta ''g'' fins deleting)
     \<lparr>sg_spec = sample_group_spec members,
      sg_status = \<lparr>sgs_uyuni_id = 3, sgs_member_count = 0, sgs_resolved_members = [],
        sgs_active_config_channel_labels = [], sgs_observed_generation = 1, sgs_conditions = [],
        sgs_active_formulas = [], sgs_formula_data_generation = 1\<rparr>\<rparr>"

definition sample_member :: "string \<Rightarrow> int \<Rightarrow> uyuni_system" where
  "sample_member n i = k8s_object.extend (sample_meta n [] False)
     \<lparr>sys_spec = \<lparr>sys_minion_id = n, sys_type = [], sys_pre_create = False, sys_apply_high_state = False,
        sys_hostname = n, sys_network = [], sys_description = [], sys_base_channel_ref = None,
        sys_base_channel_from = None, sys_child_channel_refs = [], sys_child_channels_from = [],
        sys_custom_info_values = [], sys_formulas = [], sys_proxy_ref = None, sys_add_ons = [],
        sys_deletion_policy = [], sys_adoption_timeout = 0, sys_organization_ref = None,
        sys_config_channel_refs = [], sys_group_refs = [], sys_autoinstall = None, sys_contact_method = []\<rparr>,
      sys_status = \<lparr>syss_uyuni_server_id = i, syss_phase = [], syss_phase_transition_time = None,
        syss_base_channel_label = [], syss_child_channel_labels = [], syss_active_add_ons = [],
        syss_last_checkin_time = None, syss_active_formulas = [], syss_formula_data_generation = 0,
        syss_proxy_server_id = 0, syss_proxy_action_id = 0, syss_channel_action_id = 0,
        syss_channel_action_time = None, syss_config_channel_labels = [], syss_group_names = [],
        syss_autoinstall_action_id = 0, syss_cobbler_system_name = [], syss_autoinstall_status = [],
        syss_netboot_enabled = None, syss_observed_generation = 0, syss_conditions = []\<rparr>\<rparr>"

text \<open>A server on which the group has the systems 7 and 9; the resource names the system 8 as well as 7.\<close>

definition group_demo_world :: "answers \<Rightarrow> unit group_world" where
  "group_demo_world out = (let absent = GoErr K8sNotFound [] in
     \<lparr>bw_ssc = replace_cond, bw_client = None, bw_get_org = \<lambda>_ _. Inl absent, bw_out = out,
      gw_get_system = \<lambda>_ n. if n = ''a'' then Inr (sample_member ''a'' 7)
        else if n = ''b'' then Inr (sample_member ''b'' 8) else Inl absent,
      gw_get_config_channel = \<lambda>_ _. Inl absent, gw_config_channels = \<lambda>_. Inr [], gw_groups = \<lambda>_. Inr [],
      gw_reader = demo_reader [], gu_group = \<lambda>n. Inr \<lparr>sgd_id = 3, sgd_name = n, sgd_description = ''d'', sgd_system_count = 2\<rparr>,
      gu_created_id = 3, gu_by_minion = \<lambda>_. Inl (GoErr UyuniNotFound []), gu_members = \<lambda>_. Inr [7, 9],
      gu_formulas = Inr [], gu_assigned = \<lambda>_. Inr [], gu_formula_data = \<lambda>_ _. Inr fmempty\<rparr>)"

lemmas group_sample_simps = sample_group_def sample_group_spec_def sample_member_def group_demo_world_def sample_simps

text \<open>A group of one referenced system and one static minion, of which Uyuni lists another member.\<close>

definition mixed_group :: system_group where
  "mixed_group = (let g = sample_group [sgFinalizer] False [\<lparr>lor_name = ''a''\<rparr>] in
     g\<lparr>sg_spec := (sg_spec g)\<lparr>sg_static_minion_ids := [''m'']\<rparr>\<rparr>)"

definition mixed_group_world :: "unit group_world" where
  "mixed_group_world = (group_demo_world (\<lambda>_. None))
     \<lparr>gu_by_minion := \<lambda>_. Inr \<lparr>sd_id = 8, sd_name = ''m'', sd_minion_id = ''m'', sd_hostname = ''m'',
        sd_description = [], sd_contact_method = [], sd_base_channel_label = [], sd_child_channel_labels = [],
        sd_base_entitlement = [], sd_last_checkin = None\<rparr>\<rparr>"

theorem group_members_exact_witness:
  "members_after ''g'' (call_log (trace (pass_of (group_Reconcile mixed_group_world mixed_group)))) {7, 9} = {7, 8}"
proof -
  let ?w = mixed_group_world and ?g = mixed_group
  have law: "condition_law (bw_ssc ?w)" by (simp add: mixed_group_world_def group_demo_world_def Let_def replace_cond_law)
  have "fst (group_Reconcile ?w ?g) = result_after (5 * minute)" "fst (snd (group_Reconcile ?w ?g)) = None"
    by code_simp+
  then have p: "group_Reconcile ?w ?g = (result_after (5 * minute), None, pass_of (group_Reconcile ?w ?g))"
    by (simp add: prod_eq_iff)
  have r: "reports_ready (sgs_conditions (sg_status (mem (pass_of (group_Reconcile ?w ?g)))))" by code_simp
  have "declared_members ?w ?g = {7, 8}"
    by (auto simp: declared_members_def mixed_group_world_def mixed_group_def group_sample_simps Let_def)
  moreover have "listed_members ?w (sg_name (sg_spec ?g)) = {7, 9}" by code_simp
  moreover have "sg_name (sg_spec ?g) = ''g''" "sg_member_refs (sg_spec ?g) \<noteq> []" by code_simp+
  ultimately show ?thesis using group_members_exact [OF law p r] by simp
qed

section \<open>Removal\<close>

context group_rule
begin

lemma live_I:
  assumes all: "\<And>u. \<not> removal_call u \<Longrightarrow> U u" and "I s"
  shows "I (pass_of (begin_pass (group_kit w) w' fin n (group_realize w (group_converge w)) s))"
proof -
  have members: "I (pass_of (group_member_step w d nxt s'))"
    if "I s'" "\<And>c s. I s \<Longrightarrow> I (pass_of (nxt c s))" for d nxt s'
  proof -
    have "I (pass_of (call_each (bw_out w) return_error us (nxt c) s'))" if "\<forall>u \<in> set us. \<not> removal_call u" for us c
      by (rule call_each_I [unfolded group_kit_simps]) (use that \<open>I s'\<close> \<open>\<And>c s. I s \<Longrightarrow> I (pass_of (nxt c s))\<close> all in \<open>auto simp: return_I\<close>)
    then show ?thesis using that
      by (simp add: group_member_step_def return_I split: sum.split prod.split)
  qed
  have converge: "I (pass_of (group_converge w s'))" if "I s'" for s'
  proof -
    obtain r s1 where f: "group_reconcileFormulas w s' = (r, s1)" by fastforce
    then have "I s1" using formulas_I [OF that] by simp
    then show ?thesis unfolding group_converge_def group_formula_step_def f prod.case
      by (intro with_resolved_I members channel_step_I finish_I)
  qed
  have "I (pass_of (group_realize w (group_converge w) s'))" if "I s'" for s'
  proof -
    have set_id: "I s1 \<Longrightarrow> I (set_group_id w i s1)" for i s1 by (simp add: set_group_id_def set_status)
    have "I (pass_of (group_create w (group_converge w) s'))"
      unfolding group_create_def
      by (rule call_or_I [unfolded group_kit_simps]) (simp_all add: that all refuse_I group_fail_def fail_I set_id converge)
    moreover have "I (pass_of (group_adopt w g (group_converge w) s'))" for g
      using that by (auto simp: group_adopt_def Let_def return_I refuse_I set_id converge all
          intro!: call_or_I [unfolded group_kit_simps] split: sum.split option.split)
    ultimately show ?thesis using that by (simp add: group_realize_def group_fail_def fail_I split: sum.split)
  qed
  then show ?thesis by (intro begin_pass_I assms(2))
qed

end

interpretation removals: group_rule w "only_calls (\<lambda>u. \<not> removal_call u)" "\<lambda>u. \<not> removal_call u"
  for w :: "'f group_world"
  by (intro group_rule.intro only_calls_rule group_rule_axioms.intro) simp

lemma group_removal_iff:
  "DeleteSystemGroup n \<in> fst ` set (call_log (trace (pass_of (group_Reconcile w sg)))) \<longleftrightarrow>
     obj_deleting sg \<and> containsFinalizer sg sgFinalizer \<and> \<not> has_annotation sg AnnForceDelete \<and>
     sgs_uyuni_id (sg_status sg) \<noteq> 0 \<and> bw_client w = None \<and> n = sg_name (sg_spec sg)"
proof (cases "obj_deleting sg")
  case True
  then show ?thesis
    by (auto simp: group_Reconcile_def group_handleDeletion_def call_log_of_delete_remote)
next
  case False
  have "only_calls (\<lambda>u. \<not> removal_call u) (pass_of (group_Reconcile w sg))"
    using False removals.live_I [of "start_pass sg" w w] by (simp add: group_Reconcile_def Let_def)
  then show ?thesis using False only_calls_absent [of _ _ "DeleteSystemGroup n"] by fastforce
qed

end
