(* ===== verification/Key_Controller.thy ===== *)
theory Key_Controller
  imports Kind_Facts
begin

text \<open>
  The ActivationKey reconciler (\<^verbatim>\<open>activationkey_controller.go\<close>).
\<close>

section \<open>World and calls\<close>

definition key_kind :: "(activation_key, activation_key_status) kind_ops" where
  "key_kind = \<lparr>status_of = ak_status, with_status = \<lambda>st o'. o'\<lparr>ak_status := st\<rparr>\<rparr>"

interpretation key_status_field: status_field key_kind
  by unfold_locales (simp_all add: key_kind_def k8s_object.defs)

record key_world = base_world +
  kw_channels :: "software_channel finder"
  kw_get_project :: "content_project k8s_get"
  kw_environments :: "clm_environment k8s_list"
  kw_groups :: "system_group finder"
  kw_get_config_channel :: "configuration_channel k8s_get"
  kw_keys :: "activation_key k8s_list"
  ku_key :: "string \<Rightarrow> go_error + activation_key_details"
  ku_new_key :: string

datatype key_call =
    CreateActivationKey activation_key_details
  | SetActivationKeyDetails string activation_key_details
  | AddChildChannels string "string list"
  | RemoveChildChannels string "string list"
  | AddActivationKeyEntitlements string "string list"
  | RemoveActivationKeyEntitlements string "string list"
  | SetActivationKeyConfigChannels string "string list"
  | SetActivationKeyGroups string "int list"
  | DeleteActivationKey string

type_synonym key_pass = "(activation_key, key_call) pass"

type_synonym key_outcome = "(activation_key, key_call) outcome"

definition key_kit :: "key_world \<Rightarrow> (activation_key, activation_key_status) kit" where
  "key_kit w = kit_of key_kind aks_conditions_update w"

definition key_fail :: "key_world \<Rightarrow> string \<Rightarrow> go_error \<Rightarrow> key_pass \<Rightarrow> key_outcome" where
  "key_fail w = fail_with (key_kit w)"

abbreviation uyuni_key :: "key_pass \<Rightarrow> string" where
  "uyuni_key s \<equiv> aks_uyuni_key (ak_status (mem s))"

section \<open>References\<close>

fun key_group_loop :: "key_world \<Rightarrow> string \<Rightarrow> local_object_ref list \<Rightarrow> int list resolve" where
  "key_group_loop w ns [] = Resolved []"
| "key_group_loop w ns (ref # refs) =
     (case findSystemGroup (kw_groups w) ns (lor_name ref) of
        Inl e \<Rightarrow> Broken e
      | Inr None \<Rightarrow> resolve.Wait (''SystemGroup '' @ go_quote (lor_name ref) @ '' not found'')
      | Inr (Some sg) \<Rightarrow>
          if sgs_uyuni_id (sg_status sg) = 0
          then resolve.Wait (''SystemGroup '' @ go_quote (lor_name ref) @ '' not yet realized'')
          else then_resolve (key_group_loop w ns refs) (\<lambda>is. Resolved (sgs_uyuni_id (sg_status sg) # is)))"

definition resolveSystemGroups :: "key_world \<Rightarrow> activation_key \<Rightarrow> int list resolve" where
  "resolveSystemGroups w ak = key_group_loop w (obj_namespace ak) (ak_system_group_refs (ak_spec ak))"

fun key_channel_loop :: "key_world \<Rightarrow> string \<Rightarrow> local_object_ref list \<Rightarrow> string list resolve" where
  "key_channel_loop w ns [] = Resolved []"
| "key_channel_loop w ns (ref # refs) =
     get_or (''ConfigurationChannel '' @ go_quote (lor_name ref) @ '' not found'')
       (\<lambda>cc. if cchs_uyuni_id (cchan_status cc) = 0
         then resolve.Wait (''ConfigurationChannel '' @ go_quote (lor_name ref) @ '' not yet realized'')
         else then_resolve (key_channel_loop w ns refs) (\<lambda>ls. Resolved (cch_id (cchan_spec cc) # ls)))
       (kw_get_config_channel w ns (lor_name ref))"

definition key_resolveConfigChannels :: "key_world \<Rightarrow> activation_key \<Rightarrow> string list resolve" where
  "key_resolveConfigChannels w ak = key_channel_loop w (obj_namespace ak) (ak_config_channel_refs (ak_spec ak))"

definition key_channel_refs :: "activation_key_spec \<Rightarrow> channel_refs" where
  "key_channel_refs sp = \<lparr>crf_base_ref = ak_base_channel_ref sp, crf_child_refs = ak_child_channel_refs sp,
     crf_base_from = ak_base_channel_from sp, crf_children_from = ak_child_channels_from sp\<rparr>"

definition key_channels :: "key_world \<Rightarrow> activation_key \<Rightarrow> go_error + channel_resolution" where
  "key_channels w ak = resolveChannelRefs (kw_channels w) (kw_get_project w) (kw_environments w) (obj_namespace ak)
     (key_channel_refs (ak_spec ak))"

definition key_with_channels ::
  "key_world \<Rightarrow> (channel_resolution \<Rightarrow> key_pass \<Rightarrow> key_outcome) \<Rightarrow> key_pass \<Rightarrow> key_outcome" where
  "key_with_channels w next s =
     (case key_channels w (mem s) of
        Inl e \<Rightarrow> key_fail w ''ResolveRefs'' e s
      | Inr res \<Rightarrow>
          if cr_hard_error res \<noteq> []
          then save_with (key_kit w) (result_after (30 * second))
                 (become (key_kit w) False ''ReferenceUnavailable'' (cr_hard_error res) s)
          else if cr_wait_reason res \<noteq> []
          then save_and (key_kit w) (result_after (30 * second))
                 (become (key_kit w) False (cr_wait_reason res) (cr_wait_detail res) s)
          else next res s)"

text \<open>A wait reason is written and the pass comes back, unless the write fails.\<close>

definition key_with ::
  "key_world \<Rightarrow> string \<Rightarrow> string \<Rightarrow> 'r resolve \<Rightarrow> ('r \<Rightarrow> key_pass \<Rightarrow> key_outcome) \<Rightarrow> key_pass \<Rightarrow> key_outcome" where
  "key_with w failure waiting r next s =
     (case r of
        Broken e \<Rightarrow> key_fail w failure e s
      | resolve.Wait m \<Rightarrow> save_and (key_kit w) (result_after (30 * second)) (become (key_kit w) False waiting m s)
      | Resolved x \<Rightarrow> next x s)"

section \<open>The key in Uyuni\<close>

definition key_org_id :: "key_world \<Rightarrow> activation_key \<Rightarrow> int" where
  "key_org_id w ak =
     (case ak_organization_ref (ak_spec ak) of
        None \<Rightarrow> 1
      | Some r \<Rightarrow>
          (case bw_get_org w (obj_namespace ak) (lor_name r) of
             Inl _ \<Rightarrow> 1
           | Inr g \<Rightarrow> if orgs_uyuni_org_id (org_status g) = 0 then 1 else orgs_uyuni_org_id (org_status g)))"

definition predicted_key :: "key_world \<Rightarrow> activation_key \<Rightarrow> string" where
  "predicted_key w ak = itoa (key_org_id w ak) @ ''-'' @ ak_key (ak_spec ak)"

definition set_key :: "key_world \<Rightarrow> string \<Rightarrow> key_pass \<Rightarrow> key_pass" where
  "set_key w k = set_st (key_kit w) (\<lambda>st. st\<lparr>aks_uyuni_key := k\<rparr>)"

definition fetchExisting ::
  "key_world \<Rightarrow> key_pass \<Rightarrow> (go_error + activation_key_details option) \<times> key_pass" where
  "fetchExisting w s =
     (if uyuni_key s \<noteq> []
      then (case ku_key w (uyuni_key s) of
          Inr d \<Rightarrow> (Inr (Some d), s)
        | Inl e \<Rightarrow> if is_uyuni_not_found e then (Inr None, set_key w [] s) else (Inl e, s))
      else let predicted = predicted_key w (mem s) in
        (case ku_key w predicted of
          Inl _ \<Rightarrow> (Inr None, s)
        | Inr d \<Rightarrow> (Inr (Some d), set_key w predicted s)))"

definition no_key_details :: activation_key_details where
  "no_key_details = \<lparr>akd_key = [], akd_description = [], akd_base_channel_label = [], akd_child_channels = [],
     akd_config_channels = [], akd_entitlements = [], akd_usage_limit = 0, akd_universal_default = False,
     akd_disabled = False, akd_contact_method = [], akd_server_group_ids = []\<rparr>"

definition new_key_details :: "activation_key_spec \<Rightarrow> string \<Rightarrow> activation_key_details" where
  "new_key_details sp base = no_key_details\<lparr>akd_key := ak_key sp, akd_description := ak_description sp,
     akd_base_channel_label := base, akd_usage_limit := ak_usage_limit sp, akd_entitlements := ak_entitlements sp,
     akd_universal_default := ak_universal_default sp\<rparr>"

definition key_create :: "key_world \<Rightarrow> channel_resolution \<Rightarrow> key_pass \<Rightarrow> key_outcome" where
  "key_create w res s =
     call_or (bw_out w) (CreateActivationKey (new_key_details (ak_spec (mem s)) (cr_base_label res)))
       (key_fail w ''CreateFailed'')
       (\<lambda>s1. save_and (key_kit w) result_requeue (set_key w (ku_new_key w) s1)) s"

definition key_rival :: "activation_key \<Rightarrow> activation_key list \<Rightarrow> activation_key option" where
  "key_rival ak others =
     find (\<lambda>o'. obj_name o' \<noteq> obj_name ak \<and> aks_uyuni_key (ak_status o') = aks_uyuni_key (ak_status ak) \<and>
                aks_uyuni_key (ak_status o') \<noteq> []) others"

definition key_conflict :: "key_world \<Rightarrow> activation_key \<Rightarrow> key_pass \<Rightarrow> key_outcome" where
  "key_conflict w o' s =
     conflict (key_kit w) ''ActivationKeyConflict''
       (''activation key '' @ go_quote (uyuni_key s) @ '' is already managed by ActivationKey CR ''
        @ go_quote (obj_name o') @ ''; rename this key or delete the existing one first'') s"

definition key_unrivalled :: "key_world \<Rightarrow> (key_pass \<Rightarrow> key_outcome) \<Rightarrow> key_pass \<Rightarrow> key_outcome" where
  "key_unrivalled w next s =
     (case kw_keys w (obj_namespace (mem s)) of
        Inl _ \<Rightarrow> next s
      | Inr others \<Rightarrow> (case key_rival (mem s) others of Some o' \<Rightarrow> key_conflict w o' s | None \<Rightarrow> next s))"

section \<open>Keeping the key as wanted\<close>

definition needsDetailsUpdate :: "activation_key_details \<Rightarrow> activation_key_spec \<Rightarrow> string \<Rightarrow> bool" where
  "needsDetailsUpdate current sp desiredBaseLabel =
     (akd_description current \<noteq> ak_description sp \<or> akd_base_channel_label current \<noteq> desiredBaseLabel \<or>
      akd_usage_limit current \<noteq> ak_usage_limit sp \<or> akd_universal_default current \<noteq> ak_universal_default sp \<or>
      akd_contact_method current \<noteq> ak_contact_method sp)"

definition wanted_key_details :: "activation_key_spec \<Rightarrow> string \<Rightarrow> activation_key_details" where
  "wanted_key_details sp base = no_key_details\<lparr>akd_description := ak_description sp,
     akd_base_channel_label := base, akd_usage_limit := ak_usage_limit sp,
     akd_universal_default := ak_universal_default sp, akd_contact_method := ak_contact_method sp\<rparr>"

text \<open>The calls of the drift reconciliation in their order.\<close>

definition key_calls ::
  "activation_key_spec \<Rightarrow> string \<Rightarrow> channel_resolution \<Rightarrow> int list \<Rightarrow> string list \<Rightarrow> activation_key_details \<Rightarrow>
   key_call list" where
  "key_calls sp k res groups configs current =
     (let (add_ch, rm_ch) = diffStringSets (akd_child_channels current) (cr_child_labels res);
          (add_ent, rm_ent) = diffStringSets (akd_entitlements current) (ak_entitlements sp);
          (add_grp, rm_grp) = diffIntSets (akd_server_group_ids current) groups
      in (if needsDetailsUpdate current sp (cr_base_label res)
          then [SetActivationKeyDetails k (wanted_key_details sp (cr_base_label res))] else [])
       @ (if add_ch \<noteq> [] \<or> rm_ch \<noteq> [] then [AddChildChannels k add_ch, RemoveChildChannels k rm_ch] else [])
       @ (if add_ent \<noteq> [] then [AddActivationKeyEntitlements k add_ent] else [])
       @ (if rm_ent \<noteq> [] then [RemoveActivationKeyEntitlements k rm_ent] else [])
       @ (if \<not> stringSlicesEqual (akd_config_channels current) configs
          then [SetActivationKeyConfigChannels k configs] else [])
       @ (if add_grp \<noteq> [] \<or> rm_grp \<noteq> [] then [SetActivationKeyGroups k groups] else []))"

definition key_finish :: "key_world \<Rightarrow> key_pass \<Rightarrow> key_outcome" where
  "key_finish w s =
     save_and (key_kit w) (result_after (5 * minute))
       (become (key_kit w) True ''Reconciled'' []
         (set_st (key_kit w) (\<lambda>st. st\<lparr>aks_observed_generation := obj_generation (mem s)\<rparr>) s))"

definition key_sync ::
  "key_world \<Rightarrow> channel_resolution \<Rightarrow> int list \<Rightarrow> string list \<Rightarrow> activation_key_details \<Rightarrow> key_pass \<Rightarrow> key_outcome" where
  "key_sync w res groups configs current s =
     call_each (bw_out w) return_error (key_calls (ak_spec (mem s)) (uyuni_key s) res groups configs current)
       (key_finish w) s"

section \<open>The pass\<close>

definition key_realize ::
  "key_world \<Rightarrow> channel_resolution \<Rightarrow> int list \<Rightarrow> string list \<Rightarrow> key_pass \<Rightarrow> key_outcome" where
  "key_realize w res groups configs s =
     (case fetchExisting w s of
        (Inl e, s1) \<Rightarrow> return_error e s1
      | (Inr None, s1) \<Rightarrow> key_create w res s1
      | (Inr (Some current), s1) \<Rightarrow> key_unrivalled w (key_sync w res groups configs current) s1)"

definition key_converge :: "key_world \<Rightarrow> key_pass \<Rightarrow> key_outcome" where
  "key_converge w =
     key_with_channels w (\<lambda>res s.
       with_projects (key_kit w) (kw_get_project w) (projectOwnersFromActivationKey (mem s)) (\<lambda>s.
         key_with w ''ResolveSystemGroups'' ''WaitingForSystemGroup'' (resolveSystemGroups w (mem s)) (\<lambda>groups s.
           key_with w ''ResolveConfigChannels'' ''WaitingForConfigChannel'' (key_resolveConfigChannels w (mem s))
             (key_realize w res groups) s) s) s)"

definition key_handleDeletion :: "key_world \<Rightarrow> key_pass \<Rightarrow> key_outcome" where
  "key_handleDeletion w s =
     delete_remote (key_kit w) (bw_client w) akFinalizer (uyuni_key s \<noteq> []) (DeleteActivationKey (uyuni_key s)) s"

definition key_Reconcile :: "key_world \<Rightarrow> activation_key \<Rightarrow> key_outcome" where
  "key_Reconcile w ak =
     (let s = start_pass ak in
      if obj_deleting ak then key_handleDeletion w s
      else begin_pass (key_kit w) w akFinalizer (orgRef (ak_organization_ref (ak_spec ak))) (key_converge w) s)"

text \<open>The watch mappers.\<close>

definition keys_where :: "(go_error + activation_key list) \<Rightarrow> (activation_key \<Rightarrow> bool) \<Rightarrow> requests" where
  "keys_where l P = (case l of Inl _ \<Rightarrow> [] | Inr ks \<Rightarrow> map (\<lambda>k. (obj_namespace k, obj_name k)) (filter P ks))"

definition activationKeysForSystemGroup :: "(go_error + activation_key list) \<Rightarrow> string \<Rightarrow> requests" where
  "activationKeysForSystemGroup l n =
     keys_where l (\<lambda>k. list_ex (\<lambda>r. lor_name r = n \<or> has_suffix n (''-'' @ lor_name r)) (ak_system_group_refs (ak_spec k)))"

definition activationKeysForProject :: "(go_error + activation_key list) \<Rightarrow> string \<Rightarrow> requests" where
  "activationKeysForProject l n = keys_where l (\<lambda>k. refsActivationKeyProject k n)"

definition activationKeysForChannel :: "(go_error + activation_key list) \<Rightarrow> string \<Rightarrow> requests" where
  "activationKeysForChannel l n =
     keys_where l (\<lambda>k. (case ak_base_channel_ref (ak_spec k) of None \<Rightarrow> False | Some r \<Rightarrow> lor_name r = n) \<or>
       refs_to n (ak_child_channel_refs (ak_spec k)))"

end
