(* ===== verification/Key_Facts.thy ===== *)
theory Key_Facts
  imports Key_Controller
begin

text \<open>
  What a pass on an ActivationKey achieves, and what two resources for one key do to each other.
\<close>

lemma slices_equal_refl [simp]: "stringSlicesEqual xs xs"
  by (simp add: stringSlicesEqual_def list_all_iff)

section \<open>The key a call changes\<close>

lemma key_kind_simps [simp]:
  "status_of key_kind x = ak_status x" "with_status key_kind st x = x\<lparr>ak_status := st\<rparr>"
  by (simp_all add: key_kind_def)

lemma key_kit_simps [simp]:
  "kit_ops (key_kit w) = key_kind" "kit_out (key_kit w) = bw_out w" "kit_ssc (key_kit w) = bw_ssc w"
  "kit_conditions (key_kit w) = aks_conditions_update"
  by (simp_all add: key_kit_def)

text \<open>The abstract key, and what a successful call on it does.\<close>

fun key_effect :: "string \<Rightarrow> key_call \<Rightarrow> activation_key_details \<Rightarrow> activation_key_details" where
  "key_effect k (SetActivationKeyDetails k' d) a =
     (if k' = k then a\<lparr>akd_description := akd_description d, akd_base_channel_label := akd_base_channel_label d,
        akd_usage_limit := akd_usage_limit d, akd_universal_default := akd_universal_default d,
        akd_contact_method := akd_contact_method d\<rparr> else a)"
| "key_effect k (AddChildChannels k' cs) a =
     (if k' = k then a\<lparr>akd_child_channels := akd_child_channels a @ cs\<rparr> else a)"
| "key_effect k (RemoveChildChannels k' cs) a =
     (if k' = k then a\<lparr>akd_child_channels := filter (\<lambda>c. c \<notin> set cs) (akd_child_channels a)\<rparr> else a)"
| "key_effect k (AddActivationKeyEntitlements k' es) a =
     (if k' = k then a\<lparr>akd_entitlements := akd_entitlements a @ es\<rparr> else a)"
| "key_effect k (RemoveActivationKeyEntitlements k' es) a =
     (if k' = k then a\<lparr>akd_entitlements := filter (\<lambda>e. e \<notin> set es) (akd_entitlements a)\<rparr> else a)"
| "key_effect k (SetActivationKeyConfigChannels k' cs) a = (if k' = k then a\<lparr>akd_config_channels := cs\<rparr> else a)"
| "key_effect k (SetActivationKeyGroups k' gs) a = (if k' = k then a\<lparr>akd_server_group_ids := gs\<rparr> else a)"
| "key_effect k _ a = a"

fun key_after :: "string \<Rightarrow> (key_call \<times> bool) list \<Rightarrow> activation_key_details \<Rightarrow> activation_key_details" where
  "key_after k [] a = a"
| "key_after k ((u, ok) # l) a = key_after k l (if ok then key_effect k u a else a)"

lemma key_after_append: "key_after k (l @ l') a = key_after k l' (key_after k l a)"
  by (induction k l a rule: key_after.induct) simp_all

text \<open>The abstract specification: what is wanted of the key.\<close>

definition key_as_wanted ::
  "activation_key_spec \<Rightarrow> channel_resolution \<Rightarrow> int list \<Rightarrow> string list \<Rightarrow> activation_key_details \<Rightarrow> bool" where
  "key_as_wanted sp res groups configs a =
     (akd_description a = ak_description sp \<and> akd_base_channel_label a = cr_base_label res \<and>
      akd_usage_limit a = ak_usage_limit sp \<and> akd_universal_default a = ak_universal_default sp \<and>
      akd_contact_method a = ak_contact_method sp \<and>
      set (akd_child_channels a) = set (cr_child_labels res) \<and> set (akd_entitlements a) = set (ak_entitlements sp) \<and>
      stringSlicesEqual (akd_config_channels a) configs \<and> set (akd_server_group_ids a) = set groups)"

lemma key_calls_none_iff: "key_calls sp k res groups configs a = [] \<longleftrightarrow> key_as_wanted sp res groups configs a"
proof -
  obtain ac rc where c: "diffStringSets (akd_child_channels a) (cr_child_labels res) = (ac, rc)" by fastforce
  obtain ae re where e: "diffStringSets (akd_entitlements a) (ak_entitlements sp) = (ae, re)" by fastforce
  obtain ag rg where g: "diffIntSets (akd_server_group_ids a) groups = (ag, rg)" by fastforce
  have "set (akd_child_channels a) = set (cr_child_labels res) \<longleftrightarrow> ac = [] \<and> rc = []"
    "set (akd_entitlements a) = set (ak_entitlements sp) \<longleftrightarrow> ae = [] \<and> re = []"
    "set (akd_server_group_ids a) = set groups \<longleftrightarrow> ag = [] \<and> rg = []"
    by (simp_all add: strings.diff_empty_iff [symmetric] ints.diff_empty_iff [symmetric] c e g)
  then show ?thesis by (simp add: key_calls_def key_as_wanted_def needsDetailsUpdate_def c e g) blast
qed

text \<open>The effect of one optional group of calls, field by field.\<close>

abbreviation done_calls :: "key_call list \<Rightarrow> (key_call \<times> bool) list" where
  "done_calls us \<equiv> map (\<lambda>u. (u, True)) us"

lemma diff_lists:
  assumes "diffStringSets xs ys = (add, rm)"
  shows "set (if add \<noteq> [] \<or> rm \<noteq> [] then filter (\<lambda>c. c \<notin> set rm) (xs @ add) else xs) = set ys"
    and "set (if rm \<noteq> [] then filter (\<lambda>c. c \<notin> set rm) (if add \<noteq> [] then xs @ add else xs)
              else if add \<noteq> [] then xs @ add else xs) = set ys"
  using strings.adds [of xs ys] strings.removes [of xs ys] assms by (auto split: if_splits)

lemma diff_groups:
  assumes "diffIntSets xs ys = (add, rm)"
  shows "set (if add \<noteq> [] \<or> rm \<noteq> [] then ys else xs) = set ys"
  using ints.diff_empty_iff [of xs ys] assms by auto

lemma key_calls_effect:
  "key_as_wanted sp res groups configs (key_after k (done_calls (key_calls sp k res groups configs a)) a)"
proof -
  obtain ac rc where c: "diffStringSets (akd_child_channels a) (cr_child_labels res) = (ac, rc)" by fastforce
  obtain ae re where e: "diffStringSets (akd_entitlements a) (ak_entitlements sp) = (ae, re)" by fastforce
  obtain ag rg where g: "diffIntSets (akd_server_group_ids a) groups = (ag, rg)" by fastforce
  define a1 where "a1 = key_after k (done_calls (if needsDetailsUpdate a sp (cr_base_label res)
      then [SetActivationKeyDetails k (wanted_key_details sp (cr_base_label res))] else [])) a"
  have a1: "\<not> needsDetailsUpdate a1 sp (cr_base_label res)" "akd_child_channels a1 = akd_child_channels a"
    "akd_entitlements a1 = akd_entitlements a" "akd_config_channels a1 = akd_config_channels a"
    "akd_server_group_ids a1 = akd_server_group_ids a"
    by (simp_all add: a1_def needsDetailsUpdate_def wanted_key_details_def)
  let ?ch = "if ac \<noteq> [] \<or> rc \<noteq> [] then filter (\<lambda>c. c \<notin> set rc) (akd_child_channels a @ ac) else akd_child_channels a"
  let ?en = "if re \<noteq> [] then filter (\<lambda>c. c \<notin> set re) (if ae \<noteq> [] then akd_entitlements a @ ae else akd_entitlements a)
    else if ae \<noteq> [] then akd_entitlements a @ ae else akd_entitlements a"
  let ?co = "if \<not> stringSlicesEqual (akd_config_channels a) configs then configs else akd_config_channels a"
  let ?gr = "if ag \<noteq> [] \<or> rg \<noteq> [] then groups else akd_server_group_ids a"
  have "key_after k (done_calls (key_calls sp k res groups configs a)) a =
      a1\<lparr>akd_child_channels := ?ch, akd_entitlements := ?en, akd_config_channels := ?co, akd_server_group_ids := ?gr\<rparr>"
    using a1(2-5) unfolding key_calls_def c e g Let_def prod.case map_append key_after_append a1_def [symmetric] by simp
  moreover have "stringSlicesEqual ?co configs" by (simp add: slices_equal_refl)
  ultimately show ?thesis
    using a1(1) diff_lists(1) [OF c] diff_lists(2) [OF e] diff_groups [OF g]
    by (simp only: key_as_wanted_def needsDetailsUpdate_def) simp
qed


section \<open>The pass\<close>

text \<open>The pass has the spec, the namespace and the recorded key of the object, and has made no call.\<close>

definition same_key :: "activation_key \<Rightarrow> activation_key \<Rightarrow> bool" where
  "same_key x y = (ak_spec y = ak_spec x \<and> obj_namespace y = obj_namespace x \<and> obj_name y = obj_name x)"

definition untouched_key :: "activation_key \<Rightarrow> (key_call \<times> bool) list \<Rightarrow> key_pass \<Rightarrow> bool" where
  "untouched_key x l = status_stays key_kind (same_key x)
     (\<lambda>st. aks_uyuni_key st = aks_uyuni_key (ak_status x)) (\<lambda>l'. l' = l)"

lemma untouched_key_rule:
  "pass_rule (key_kit w) (untouched_key x l) (\<lambda>f. \<forall>st. aks_uyuni_key st = aks_uyuni_key (ak_status x) \<longrightarrow>
     aks_uyuni_key (f st) = aks_uyuni_key (ak_status x)) (\<lambda>_. False)"
  unfolding untouched_key_def key_kit_simps(1) [of w, symmetric]
  by (rule status_rule) (simp_all add: steady_def same_key_def key_status_field.status_field_axioms)

interpretation keys: pass_rule "key_kit w" "untouched_key x l"
    "\<lambda>f. \<forall>st. aks_uyuni_key st = aks_uyuni_key (ak_status x) \<longrightarrow> aks_uyuni_key (f st) = aks_uyuni_key (ak_status x)"
    "\<lambda>_. False"
  for w x l
  by (rule untouched_key_rule)

abbreviation key_done :: "(key_pass \<Rightarrow> bool) \<Rightarrow> key_outcome \<Rightarrow> bool" where
  "key_done \<equiv> went_through (\<lambda>x. aks_conditions (ak_status x))"

lemma key_done_refuse: "condition_law (bw_ssc w) \<Longrightarrow> key_done Q (refuse (key_kit w) after r m s)"
  using refuse_not_ready [of "key_kit w" aks_conditions after r m s] by (auto simp: went_through_def)

lemma untouched_key_simps:
  assumes "untouched_key x l s"
  shows "ak_spec (mem s) = ak_spec x" "obj_namespace (mem s) = obj_namespace x" "obj_name (mem s) = obj_name x"
    "uyuni_key s = aks_uyuni_key (ak_status x)" "call_log (trace s) = l"
  using assms by (simp_all add: untouched_key_def status_stays_def same_key_def)

text \<open>The key in Uyuni a pass works on: the recorded one, or, when none is recorded, the one it adopts.\<close>

definition key_of_pass :: "key_world \<Rightarrow> activation_key \<Rightarrow> string" where
  "key_of_pass w ak =
     (if aks_uyuni_key (ak_status ak) \<noteq> [] then aks_uyuni_key (ak_status ak)
      else itoa (key_org_id w ak) @ ''-'' @ ak_key (ak_spec ak))"

definition key_synced ::
  "key_world \<Rightarrow> activation_key \<Rightarrow> channel_resolution \<Rightarrow> int list \<Rightarrow> string list \<Rightarrow> key_pass \<Rightarrow> bool" where
  "key_synced w x res groups configs s =
     (\<exists>current. ku_key w (key_of_pass w x) = Inr current \<and>
        call_log (trace s) = done_calls (key_calls (ak_spec x) (key_of_pass w x) res groups configs current))"

lemma fetchExisting_found:
  assumes "untouched_key x [] s" "fetchExisting w s = (Inr (Some current), s1)"
  shows "ku_key w (key_of_pass w x) = Inr current" "uyuni_key s1 = key_of_pass w x"
    "ak_spec (mem s1) = ak_spec x" "call_log (trace s1) = []"
proof -
  note x = untouched_key_simps [OF assms(1)]
  have p: "predicted_key w (mem s) = itoa (key_org_id w x) @ ''-'' @ ak_key (ak_spec x)"
    by (simp only: predicted_key_def key_org_id_def x)
  show "ku_key w (key_of_pass w x) = Inr current" "uyuni_key s1 = key_of_pass w x"
    "ak_spec (mem s1) = ak_spec x" "call_log (trace s1) = []"
    using assms(2) x p
    by (auto simp: fetchExisting_def key_of_pass_def set_key_def set_st_def Let_def split: if_splits sum.splits)
qed

lemma key_realize_done:
  assumes law: "condition_law (bw_ssc w)" and s: "untouched_key x [] s"
  shows "key_done (key_synced w x res groups configs) (key_realize w res groups configs s)"
proof (cases "fetchExisting w s")
  case f: (Pair r s1)
  show ?thesis
  proof (cases r)
    case (Inr found)
    show ?thesis
    proof (cases found)
      case None
      then show ?thesis using f Inr
        by (simp add: key_realize_def key_create_def call_or_eq key_fail_def)
    next
      case (Some current)
      note c = fetchExisting_found [OF s f [unfolded Inr Some]]
      let ?us = "key_calls (ak_spec x) (key_of_pass w x) res groups configs current"
      have finish: "call_log (trace (pass_of (key_finish w s'))) = call_log (trace s')" for s'
        by (simp add: key_finish_def)
      have "key_done (key_synced w x res groups configs) (call_each (bw_out w) return_error ?us (key_finish w) s1)"
        using call_each_cases [of "bw_out w" return_error ?us "key_finish w" s1]
      proof (elim disjE exE conjE)
        fix s'
        assume "call_each (bw_out w) return_error ?us (key_finish w) s1 = key_finish w s'"
          "call_log (trace s') = call_log (trace s1) @ done_calls ?us"
        then show ?thesis using c(1,4) finish [of s'] by (intro went_through_if) (simp add: key_synced_def)
      qed simp
      then have "key_done (key_synced w x res groups configs) (key_sync w res groups configs current s1)"
        using c by (simp add: key_sync_def)
      then show ?thesis using f Inr Some
        by (simp add: key_realize_def key_unrivalled_def key_conflict_def key_done_refuse [OF law]
            split: sum.split option.split)
    qed
  qed (use f in \<open>simp add: key_realize_def\<close>)
qed

text \<open>The references of the spec, said of what the cluster reports.\<close>

definition group_ids_of_spec :: "key_world \<Rightarrow> activation_key \<Rightarrow> int set" where
  "group_ids_of_spec w ak = {sgs_uyuni_id (sg_status g) | ref g. ref \<in> set (ak_system_group_refs (ak_spec ak)) \<and>
     findSystemGroup (kw_groups w) (obj_namespace ak) (lor_name ref) = Inr (Some g)}"

definition config_labels_of_spec :: "key_world \<Rightarrow> activation_key \<Rightarrow> string set" where
  "config_labels_of_spec w ak = {cch_id (cchan_spec c) | ref c. ref \<in> set (ak_config_channel_refs (ak_spec ak)) \<and>
     kw_get_config_channel w (obj_namespace ak) (lor_name ref) = Inr c}"

lemma resolveSystemGroups_ids:
  assumes "resolveSystemGroups w ak = Resolved groups"
  shows "set groups = group_ids_of_spec w ak"
proof -
  have "set is = {sgs_uyuni_id (sg_status g) | ref g. ref \<in> set refs \<and>
      findSystemGroup (kw_groups w) ns (lor_name ref) = Inr (Some g)}"
    if "key_group_loop w ns refs = Resolved is" for refs ns "is"
    using that
  proof (induction refs arbitrary: "is")
    case (Cons ref refs)
    from Cons.prems obtain g is' where g: "findSystemGroup (kw_groups w) ns (lor_name ref) = Inr (Some g)"
        "key_group_loop w ns refs = Resolved is'" "is = sgs_uyuni_id (sg_status g) # is'"
      by (auto simp: then_resolve_def split: sum.splits option.splits if_splits resolve.splits)
    then show ?case using Cons.IH [OF g(2)] by auto
  qed simp
  then show ?thesis using assms by (simp add: resolveSystemGroups_def group_ids_of_spec_def)
qed

lemma key_resolveConfigChannels_labels:
  assumes "key_resolveConfigChannels w ak = Resolved configs"
  shows "set configs = config_labels_of_spec w ak" "length configs = length (ak_config_channel_refs (ak_spec ak))"
proof -
  have "set ls = {cch_id (cchan_spec c) | ref c. ref \<in> set refs \<and> kw_get_config_channel w ns (lor_name ref) = Inr c} \<and>
      length ls = length refs"
    if "key_channel_loop w ns refs = Resolved ls" for refs ns ls
    using that
  proof (induction refs arbitrary: ls)
    case (Cons ref refs)
    from Cons.prems obtain c ls' where c: "kw_get_config_channel w ns (lor_name ref) = Inr c"
        "key_channel_loop w ns refs = Resolved ls'" "ls = cch_id (cchan_spec c) # ls'"
      by (auto simp: get_or_def then_resolve_def split: sum.splits if_splits resolve.splits)
    then show ?case using Cons.IH [OF c(2)] by auto
  qed simp
  then show "set configs = config_labels_of_spec w ak" "length configs = length (ak_config_channel_refs (ak_spec ak))"
    using assms by (simp_all add: key_resolveConfigChannels_def config_labels_of_spec_def)
qed

lemma slices_equal_sets:
  assumes "stringSlicesEqual xs ys"
  shows "set ys \<subseteq> set xs" and "card (set ys) = length ys \<Longrightarrow> set xs = set ys"
proof -
  show sub: "set ys \<subseteq> set xs" using assms by (auto simp: stringSlicesEqual_def list_all_iff)
  assume "card (set ys) = length ys"
  then have "card (set xs) \<le> card (set ys)" using assms card_length [of xs] by (simp add: stringSlicesEqual_def)
  then show "set xs = set ys" using card_seteq [OF _ sub] by simp
qed

text \<open>
  The key is the one of the spec, field by field.  The configuration channels are all there; beyond
  them there is none if the references name different channels.
\<close>

definition key_of_spec :: "key_world \<Rightarrow> activation_key \<Rightarrow> channel_resolution \<Rightarrow> activation_key_details \<Rightarrow> bool" where
  "key_of_spec w ak res a =
     (let sp = ak_spec ak; configs = config_labels_of_spec w ak in
      akd_description a = ak_description sp \<and> akd_base_channel_label a = cr_base_label res \<and>
      akd_usage_limit a = ak_usage_limit sp \<and> akd_universal_default a = ak_universal_default sp \<and>
      akd_contact_method a = ak_contact_method sp \<and> set (akd_child_channels a) = set (cr_child_labels res) \<and>
      set (akd_entitlements a) = set (ak_entitlements sp) \<and> set (akd_server_group_ids a) = group_ids_of_spec w ak \<and>
      configs \<subseteq> set (akd_config_channels a) \<and>
      (card configs = length (ak_config_channel_refs sp) \<longrightarrow> set (akd_config_channels a) = configs))"

lemma key_as_wanted_of_spec:
  assumes "key_as_wanted (ak_spec ak) res groups configs a"
    and "resolveSystemGroups w ak = Resolved groups" "key_resolveConfigChannels w ak = Resolved configs"
  shows "key_of_spec w ak res a"
  using assms(1) resolveSystemGroups_ids [OF assms(2)] key_resolveConfigChannels_labels [OF assms(3)]
    slices_equal_sets [of "akd_config_channels a" configs]
  by (auto simp: key_as_wanted_def key_of_spec_def Let_def)

definition key_converged :: "key_world \<Rightarrow> activation_key \<Rightarrow> key_pass \<Rightarrow> bool" where
  "key_converged w ak s =
     (\<exists>res groups configs. key_channels w ak = Inr res \<and> resolveSystemGroups w ak = Resolved groups \<and>
        key_resolveConfigChannels w ak = Resolved configs \<and> key_synced w ak res groups configs s)"

lemma key_converge_done:
  assumes law: "condition_law (bw_ssc w)" and s: "untouched_key ak [] s"
  shows "key_done (key_converged w ak) (key_converge w s)"
proof -
  have same: "key_channels w (mem s) = key_channels w ak" "resolveSystemGroups w (mem s) = resolveSystemGroups w ak"
    "key_resolveConfigChannels w (mem s) = key_resolveConfigChannels w ak" if "untouched_key ak [] s" for s
    using untouched_key_simps(1,2) [OF that]
    by (simp_all add: key_channels_def resolveSystemGroups_def key_resolveConfigChannels_def)
  have realize: "key_done (key_converged w ak) (key_realize w res groups configs s1)"
    if "key_channels w ak = Inr res" "resolveSystemGroups w ak = Resolved groups"
      "key_resolveConfigChannels w ak = Resolved configs" "untouched_key ak [] s1" for res groups configs s1
    by (rule went_through_mono [OF key_realize_done [OF law that(4)]]) (use that in \<open>auto simp: key_converged_def\<close>)
  have projects: "key_done (key_converged w ak) (with_projects (key_kit w) get names (\<lambda>s.
      key_with w a b (resolveSystemGroups w (mem s)) (\<lambda>groups s.
        key_with w c d (key_resolveConfigChannels w (mem s)) (key_realize w res groups) s) s) s)"
    if "key_channels w ak = Inr res" for res a b c d names and get :: "content_project k8s_get"
  proof -
    obtain e s1 where p: "own_projects (bw_out w) key_kind get names s = (e, s1)" by fastforce
    then have "untouched_key ak [] s1" using keys.own_projects_I [OF s, of w get names] by simp
    then show ?thesis using p same [of s1] realize [OF that]
      by (simp add: with_projects_def key_with_def key_fail_def split: option.split resolve.split)
  qed
  then show ?thesis using same [OF s]
    by (simp add: key_converge_def key_with_channels_def key_fail_def split: sum.split)
qed

text \<open>
  C9.  A completed pass makes the activation key the wanted one: when a pass on a key that Uyuni has,
  recorded by the resource or adopted under its predicted name, ends without an error, to come back in
  five minutes, and reports Ready, the key after the calls of the pass has the description, base
  channel, usage limit, universal default and contact method of the spec, exactly the child channels,
  entitlements and system groups it names, and every configuration channel it names, with no other one
  if the references name different channels; and for a key that is like this there is no call to make.
\<close>

theorem activation_key_converges:
  assumes "condition_law (bw_ssc w)" "key_Reconcile w ak = (result_after (5 * minute), None, s)"
    and "reports_ready (aks_conditions (ak_status (mem s)))"
  shows "\<exists>current res groups configs. ku_key w (key_of_pass w ak) = Inr current \<and> key_channels w ak = Inr res \<and>
    resolveSystemGroups w ak = Resolved groups \<and> key_resolveConfigChannels w ak = Resolved configs \<and>
    key_of_spec w ak res (key_after (key_of_pass w ak) (call_log (trace s)) current) \<and>
    key_calls (ak_spec ak) (key_of_pass w ak) res groups configs
      (key_after (key_of_pass w ak) (call_log (trace s)) current) = []"
proof -
  have start: "untouched_key ak [] (start_pass ak)"
    by (simp add: untouched_key_def status_stays_def same_key_def call_log_def)
  have "key_done (key_converged w ak) (with_owner (key_kit w) getOrg n (key_converge w) s)"
    if s: "untouched_key ak [] s" for s n and getOrg :: "organization k8s_get"
    using keys.own_organization_I [OF s, of w getOrg n] key_converge_done [OF assms(1)]
    by (cases "own_organization (bw_out w) key_kind getOrg n s") (simp add: with_owner_def split: option.split)
  then have "key_done (key_converged w ak) (key_Reconcile w ak)"
    using start
    by (simp add: key_Reconcile_def begin_pass_def with_finalizer_eq key_handleDeletion_def went_through_delete Let_def
        split: option.split)
  then have "key_converged w ak s" using assms(2,3) by (simp add: went_through_def)
  then obtain res groups configs current where
    r: "key_channels w ak = Inr res" "resolveSystemGroups w ak = Resolved groups"
      "key_resolveConfigChannels w ak = Resolved configs" "ku_key w (key_of_pass w ak) = Inr current"
      "call_log (trace s) = done_calls (key_calls (ak_spec ak) (key_of_pass w ak) res groups configs current)"
    by (auto simp: key_converged_def key_synced_def)
  let ?a = "key_after (key_of_pass w ak) (call_log (trace s)) current"
  have "key_as_wanted (ak_spec ak) res groups configs ?a" unfolding r(5) by (rule key_calls_effect)
  then show ?thesis
    using r(1-4) key_as_wanted_of_spec [OF _ r(2,3), of res ?a] key_calls_none_iff by blast
qed

definition sample_key_spec :: activation_key_spec where
  "sample_key_spec = \<lparr>ak_key = ''k'', ak_description = ''d'', ak_base_channel_ref = None, ak_base_channel_from = None,
     ak_child_channel_refs = [], ak_child_channels_from = [], ak_system_group_refs = [], ak_config_channel_refs = [],
     ak_entitlements = [''monitoring''], ak_packages = [], ak_usage_limit = 0, ak_universal_default = False,
     ak_contact_method = ''default'', ak_organization_ref = Some \<lparr>lor_name = ''o''\<rparr>\<rparr>"

definition sample_key :: "string \<Rightarrow> bool \<Rightarrow> string \<Rightarrow> activation_key" where
  "sample_key n deleting k = k8s_object.extend (sample_meta n [akFinalizer] deleting)
     \<lparr>ak_spec = sample_key_spec, ak_status = \<lparr>aks_uyuni_key = k, aks_activated_system_count = 0,
        aks_observed_generation = 1, aks_conditions = []\<rparr>\<rparr>"

text \<open>A server that has the key \<^verbatim>\<open>1-k\<close>, with a description and an entitlement of its own.\<close>

definition key_demo_world :: "activation_key list \<Rightarrow> key_world" where
  "key_demo_world others = (let absent = GoErr K8sNotFound [] in
     \<lparr>bw_ssc = replace_cond, bw_client = None, bw_get_org = \<lambda>_ _. Inl absent, bw_out = \<lambda>_. None,
      kw_channels = \<lparr>fd_get = \<lambda>_ _. Inl absent, fd_list = \<lambda>_. Inr []\<rparr>, kw_get_project = \<lambda>_ _. Inl absent,
      kw_environments = \<lambda>_. Inr [], kw_groups = \<lparr>fd_get = \<lambda>_ _. Inl absent, fd_list = \<lambda>_. Inr []\<rparr>,
      kw_get_config_channel = \<lambda>_ _. Inl absent, kw_keys = \<lambda>_. Inr others,
      ku_key = \<lambda>k. if k = ''1-k'' then Inr (no_key_details\<lparr>akd_key := ''1-k'', akd_entitlements := [''container'']\<rparr>)
        else Inl (GoErr UyuniNotFound []), ku_new_key = ''1-k''\<rparr>)"

lemmas key_sample_simps = sample_key_def sample_key_spec_def key_demo_world_def sample_simps

text \<open>The key is adopted under its predicted name; its entitlements are exchanged.\<close>

theorem activation_key_converges_witness:
  "\<exists>current. ku_key (key_demo_world []) ''1-k'' = Inr current \<and>
     set (akd_entitlements current) = {''container''} \<and>
     key_of_spec (key_demo_world []) (sample_key ''a'' False []) no_resolution
       (key_after ''1-k'' (call_log (trace (pass_of (key_Reconcile (key_demo_world []) (sample_key ''a'' False [])))))
         current)"
proof -
  let ?w = "key_demo_world []" and ?k = "sample_key ''a'' False []"
  have law: "condition_law (bw_ssc ?w)" by (simp add: key_demo_world_def Let_def replace_cond_law)
  have "fst (key_Reconcile ?w ?k) = result_after (5 * minute)" "fst (snd (key_Reconcile ?w ?k)) = None"
    by code_simp+
  then have p: "key_Reconcile ?w ?k = (result_after (5 * minute), None, pass_of (key_Reconcile ?w ?k))"
    by (simp add: prod_eq_iff)
  have r: "reports_ready (aks_conditions (ak_status (mem (pass_of (key_Reconcile ?w ?k)))))" by code_simp
  have k: "key_of_pass ?w ?k = ''1-k''" "key_channels ?w ?k = Inr no_resolution" by code_simp+
  have "ku_key ?w ''1-k'' = Inr (no_key_details\<lparr>akd_key := ''1-k'', akd_entitlements := [''container'']\<rparr>)"
    by (simp add: key_demo_world_def Let_def)
  then show ?thesis using activation_key_converges [OF law p r] by (auto simp: k)
qed

section \<open>Two resources for one key\<close>

text \<open>
  A resource that names a key another resource manages is refused, but only after it has taken the
  key into its status.  From then on the rightful resource is refused as well, and deleting the refused
  one deletes the key in Uyuni.
\<close>

theorem refused_key_is_claimed:
  "let winner = sample_key ''a'' False ''1-k'';
       loser = sample_key ''b'' False [];
       after = pass_of (key_Reconcile (key_demo_world [winner, loser]) loser);
       claimed = (case stored after of Some x \<Rightarrow> x | None \<Rightarrow> loser);
       refused = pass_of (key_Reconcile (key_demo_world [winner, claimed]) winner)
   in map cond_reason (aks_conditions (ak_status claimed)) = [''ActivationKeyConflict''] \<and>
      call_log (trace after) = [] \<and> aks_uyuni_key (ak_status claimed) = ''1-k'' \<and>
      map cond_reason (aks_conditions (ak_status (mem refused))) = [''ActivationKeyConflict''] \<and>
      call_log (trace refused) = [] \<and>
      call_log (trace (pass_of (key_Reconcile (key_demo_world [winner, claimed]) (claimed\<lparr>obj_deleting := True\<rparr>)))) =
        [(DeleteActivationKey ''1-k'', True)]"
  by code_simp

section \<open>Removal\<close>

fun key_removal :: "key_call \<Rightarrow> bool" where
  "key_removal (DeleteActivationKey _) = True"
| "key_removal _ = False"

interpretation key_removals: pass_rule "key_kit w" "only_calls (\<lambda>u. \<not> key_removal u)" "\<lambda>_. True" "\<lambda>u. \<not> key_removal u"
  for w
  by (rule only_calls_rule)

lemma key_live: "only_calls (\<lambda>u. \<not> key_removal u) s \<Longrightarrow>
   only_calls (\<lambda>u. \<not> key_removal u) (pass_of (begin_pass (key_kit w) w' fin n (key_converge w) s))"
proof (rule key_removals.begin_pass_I)
  let ?I = "only_calls (\<lambda>u. \<not> key_removal u) :: key_pass \<Rightarrow> bool"
  fix s
  assume s: "?I s"
  have sync: "?I (pass_of (key_sync w res groups configs current s))" if "?I s" for res groups configs current s
    unfolding key_sync_def
    by (rule key_removals.call_each_I [unfolded key_kit_simps])
      (use that in \<open>auto simp: key_calls_def Let_def return_error_def key_finish_def set_st_def key_removals.save_and_I
        key_removals.become_I split: prod.splits\<close>)
  have create: "?I (pass_of (key_create w res s))" if "?I s" for res s
    unfolding key_create_def
    by (rule key_removals.call_or_I [unfolded key_kit_simps])
      (use that in \<open>simp_all add: key_fail_def key_removals.fail_I key_removals.save_and_I set_key_def\<close>)
  have realize: "?I (pass_of (key_realize w res groups configs s))" if "?I s" for res groups configs s
  proof -
    have fetch: "?I (snd (fetchExisting w s))"
      using that by (simp add: fetchExisting_def set_key_def Let_def split: sum.split)
    then show ?thesis
      by (auto simp: key_realize_def key_unrivalled_def key_conflict_def key_removals.refuse_I return_error_def sync create
          split: prod.split sum.split option.split)
  qed
  have "?I (pass_of (key_with w a b r nxt s))" if "?I s" "\<And>x s. ?I s \<Longrightarrow> ?I (pass_of (nxt x s))"
    for a b s and r :: "'r resolve" and nxt
    using that by (simp add: key_with_def key_fail_def key_removals.fail_I key_removals.save_and_I key_removals.become_I
        split: resolve.split)
  note withs = this
  show "?I (pass_of (key_converge w s))"
    using s by (auto simp: key_converge_def key_with_channels_def key_fail_def key_removals.fail_I
        key_removals.save_and_I key_removals.save_with_I key_removals.become_I
        intro!: key_removals.with_projects_I withs realize split: sum.split)
qed

lemma key_removal_iff:
  "DeleteActivationKey n \<in> fst ` set (call_log (trace (pass_of (key_Reconcile w ak)))) \<longleftrightarrow>
     obj_deleting ak \<and> containsFinalizer ak akFinalizer \<and> \<not> has_annotation ak AnnForceDelete \<and>
     aks_uyuni_key (ak_status ak) \<noteq> [] \<and> bw_client w = None \<and> n = aks_uyuni_key (ak_status ak)"
proof (cases "obj_deleting ak")
  case True
  then show ?thesis by (auto simp: key_Reconcile_def key_handleDeletion_def call_log_of_delete_remote)
next
  case False
  have "only_calls (\<lambda>u. \<not> key_removal u) (pass_of (key_Reconcile w ak))"
    using False key_live [of "start_pass ak" w w] by (simp add: key_Reconcile_def Let_def)
  then show ?thesis using False only_calls_absent [of _ _ "DeleteActivationKey n"] by fastforce
qed

end
