(* ===== verification/Cleanup_Controller.thy ===== *)
theory Cleanup_Controller
  imports Kind_Facts Go_Time
begin

text \<open>
  The PackageCleanupPolicy reconciler (\<^verbatim>\<open>packagecleanup_controller.go\<close>): one batch of the sweep that
  removes packages no channel holds.  Times are nanoseconds; a \<^verbatim>\<open>time.Duration\<close> is a signed 64-bit
  integer whose products wrap around, while \<^verbatim>\<open>Time.Sub\<close> saturates.
\<close>

section \<open>Durations\<close>

definition idlePollInterval :: int where
  "idlePollInterval = 24 * one_hour"

definition min_age :: "int \<Rightarrow> int" where
  "min_age days = go_duration (days * 24 * one_hour)"

section \<open>World and calls\<close>

text \<open>\<open>pw_sort\<close> is \<^verbatim>\<open>sort.Slice\<close> by the last change, which may order equal elements in any way.\<close>

definition cleanup_kind :: "(cleanup_policy, cleanup_policy_status) kind_ops" where
  "cleanup_kind = \<lparr>status_of = pclean_status, with_status = \<lambda>st o'. o'\<lparr>pclean_status := st\<rparr>\<rparr>"

interpretation cleanup_status_field: status_field cleanup_kind
  by unfold_locales (simp_all add: cleanup_kind_def k8s_object.defs)

record cleanup_world = base_world +
  pw_now :: int
  pw_sort :: "orphaned_package list \<Rightarrow> orphaned_package list"
  pu_orphans :: "go_error + orphaned_package list"
  pu_errata :: "int \<Rightarrow> go_error + errata_ref list"
  pu_systems :: "int \<Rightarrow> go_error + system_ref list"

datatype cleanup_call = RemovePackage int

type_synonym cleanup_pass = "(cleanup_policy, cleanup_call) pass"

type_synonym cleanup_outcome = "(cleanup_policy, cleanup_call) outcome"

definition cleanup_kit :: "cleanup_world \<Rightarrow> (cleanup_policy, cleanup_policy_status) kit" where
  "cleanup_kit w = kit_of cleanup_kind pcs_conditions_update w"

definition cleanup_fail :: "cleanup_world \<Rightarrow> string \<Rightarrow> go_error \<Rightarrow> cleanup_pass \<Rightarrow> cleanup_outcome" where
  "cleanup_fail w = fail_with (cleanup_kit w)"

section \<open>Candidates\<close>

definition too_recent :: "int \<Rightarrow> int \<Rightarrow> orphaned_package \<Rightarrow> bool" where
  "too_recent now minAge p =
     (case orp_last_modified p of None \<Rightarrow> True | Some t \<Rightarrow> go_sub now t < minAge)"

definition age_eligible :: "cleanup_world \<Rightarrow> cleanup_policy_spec \<Rightarrow> orphaned_package list \<Rightarrow> orphaned_package list" where
  "age_eligible w sp candidates =
     pw_sort w (filter (\<lambda>p. \<not> too_recent (pw_now w) (min_age (pc_min_orphan_age_days sp)) p) candidates)"

text \<open>\<^verbatim>\<open>batch[:MaxDeletePerRun]\<close> panics on a negative bound (\<open>None\<close>), which the CRD does not admit.\<close>

definition batch_of :: "cleanup_policy_spec \<Rightarrow> orphaned_package list \<Rightarrow> orphaned_package list option" where
  "batch_of sp eligible =
     (if int (length eligible) > pc_max_delete_per_run sp
      then if pc_max_delete_per_run sp < 0 then None else Some (take (nat (pc_max_delete_per_run sp)) eligible)
      else Some eligible)"

section \<open>One batch\<close>

record sweep_counts =
  swc_errata :: int
  swc_installed :: int
  swc_deleted :: int

fun sweep ::
  "cleanup_world \<Rightarrow> bool \<Rightarrow> orphaned_package list \<Rightarrow> sweep_counts \<Rightarrow> cleanup_pass \<Rightarrow> sweep_counts \<times> cleanup_pass" where
  "sweep w dry [] c s = (c, s)"
| "sweep w dry (p # ps) c s =
     (case pu_errata w (orp_id p) of
        Inl _ \<Rightarrow> sweep w dry ps c s
      | Inr (_ # _) \<Rightarrow> sweep w dry ps (c\<lparr>swc_errata := swc_errata c + 1\<rparr>) s
      | Inr [] \<Rightarrow>
          (case pu_systems w (orp_id p) of
             Inl _ \<Rightarrow> sweep w dry ps c s
           | Inr (_ # _) \<Rightarrow> sweep w dry ps (c\<lparr>swc_installed := swc_installed c + 1\<rparr>) s
           | Inr [] \<Rightarrow>
               if dry then sweep w dry ps c s
               else (case attempt (bw_out w) (Call (RemovePackage (orp_id p))) s of
                 (Some e, s1) \<Rightarrow>
                   if is_uyuni_not_found e then sweep w dry ps (c\<lparr>swc_deleted := swc_deleted c + 1\<rparr>) s1
                   else sweep w dry ps c s1
               | (None, s1) \<Rightarrow> sweep w dry ps (c\<lparr>swc_deleted := swc_deleted c + 1\<rparr>) s1)))"

definition cleanup_finish ::
  "cleanup_world \<Rightarrow> int \<Rightarrow> int \<Rightarrow> int \<Rightarrow> sweep_counts \<Rightarrow> cleanup_pass \<Rightarrow> cleanup_outcome" where
  "cleanup_finish w found recent remaining c s =
     save_and (cleanup_kit w)
       (if remaining > 0 then result_after (go_duration (pc_batch_interval_seconds (pclean_spec (mem s)) * second))
        else result_after idlePollInterval)
       (become (cleanup_kit w) True ''Reconciled'' []
         (set_st (cleanup_kit w) (\<lambda>st. st\<lparr>pcs_last_run_time := Some (pw_now w), pcs_candidates_found := found,
            pcs_skipped_too_recent := recent, pcs_skipped_errata_linked := swc_errata c,
            pcs_skipped_installed := swc_installed c, pcs_deleted_this_run := swc_deleted c,
            pcs_remaining_candidates := remaining, pcs_observed_generation := obj_generation (mem s)\<rparr>) s))"

definition cleanup_run :: "cleanup_world \<Rightarrow> orphaned_package list \<Rightarrow> cleanup_pass \<Rightarrow> cleanup_outcome option" where
  "cleanup_run w candidates s =
     (let sp = pclean_spec (mem s); eligible = age_eligible w sp candidates in
      case batch_of sp eligible of
        None \<Rightarrow> None
      | Some batch \<Rightarrow>
          (case sweep w (pc_dry_run sp) batch \<lparr>swc_errata = 0, swc_installed = 0, swc_deleted = 0\<rparr> s of
             (c, s1) \<Rightarrow> Some (cleanup_finish w (int (length candidates))
               (int (length (filter (too_recent (pw_now w) (min_age (pc_min_orphan_age_days sp))) candidates)))
               (int (length eligible) - int (length batch)) c s1)))"

definition cleanup_Reconcile :: "cleanup_world \<Rightarrow> cleanup_policy \<Rightarrow> cleanup_outcome option" where
  "cleanup_Reconcile w pol =
     (let s = start_pass pol in
      if obj_deleting pol then Some (result_done, None, s)
      else case bw_client w of
        Some e \<Rightarrow> Some (cleanup_fail w ''OrganizationError'' e s)
      | None \<Rightarrow>
          (case pu_orphans w of
             Inl e \<Rightarrow> Some (cleanup_fail w ''ListFailed'' e s)
           | Inr candidates \<Rightarrow> cleanup_run w candidates s))"

section \<open>What a batch removes\<close>

text \<open>The law of the sort: it reorders.\<close>

definition reorders :: "('a list \<Rightarrow> 'a list) \<Rightarrow> bool" where
  "reorders f = (\<forall>xs. set (f xs) = set xs \<and> length (f xs) = length xs)"

lemma min_age_exact:
  assumes "0 \<le> days" "days \<le> 106751"
  shows "min_age days = days * 24 * one_hour"
  unfolding min_age_def by (rule go_duration_exact) (use assms in simp_all)

definition removable :: "cleanup_world \<Rightarrow> orphaned_package \<Rightarrow> bool" where
  "removable w p = (pu_errata w (orp_id p) = Inr [] \<and> pu_systems w (orp_id p) = Inr [])"

lemma sweep_calls:
  "map fst (call_log (trace (snd (sweep w dry ps c s)))) = map fst (call_log (trace s)) @
     (if dry then [] else map (RemovePackage \<circ> orp_id) (filter (removable w) ps))"
proof (induction ps arbitrary: c s)
  case (Cons p ps)
  then show ?case using removable_def [of w p]
    by (auto simp: attempt_def Let_def split: sum.split list.split option.split)
qed simp

lemma cleanup_run_calls:
  assumes "batch_of (pclean_spec pol) (age_eligible w (pclean_spec pol) candidates) = Some batch"
    and "cleanup_run w candidates (start_pass pol) = Some r"
  shows "map fst (call_log (trace (pass_of r))) =
    (if pc_dry_run (pclean_spec pol) then [] else map (RemovePackage \<circ> orp_id) (filter (removable w) batch))"
proof -
  let ?z = "\<lparr>swc_errata = 0, swc_installed = 0, swc_deleted = 0\<rparr>"
  obtain c s1 where sw: "sweep w (pc_dry_run (pclean_spec pol)) batch ?z (start_pass pol) = (c, s1)" by fastforce
  then have "call_log (trace (pass_of r)) = call_log (trace s1)"
    using assms by (auto simp: cleanup_run_def cleanup_finish_def Let_def)
  moreover have "map fst (call_log (trace s1)) = (if pc_dry_run (pclean_spec pol) then []
      else map (RemovePackage \<circ> orp_id) (filter (removable w) batch))"
    using sweep_calls [of w "pc_dry_run (pclean_spec pol)" batch ?z "start_pass pol"] sw
    by (simp add: call_log_def)
  ultimately show ?thesis by simp
qed

lemma batch_of_subset: "batch_of sp xs = Some ys \<Longrightarrow> set ys \<subseteq> set xs \<and> (0 \<le> pc_max_delete_per_run sp \<longrightarrow> int (length ys) \<le> pc_max_delete_per_run sp)"
  by (auto simp: batch_of_def dest: in_set_takeD split: if_splits)

text \<open>
  C10.  What a sweep removes.  A pass under a policy whose grace period a duration can hold asks Uyuni to
  remove a package only if the policy is not a dry run, the package is one that no channel holds, its
  last change is known and at least the grace period ago, and the checks right before the call found no
  erratum that provides it and no system that has it.  It asks for at most MaxDeletePerRun packages.
\<close>

theorem cleanup_removes_only_orphans:
  assumes "reorders (pw_sort w)" "0 \<le> pc_min_orphan_age_days (pclean_spec pol)"
    and "pc_min_orphan_age_days (pclean_spec pol) \<le> 106751" "0 \<le> pc_max_delete_per_run (pclean_spec pol)"
    and "cleanup_Reconcile w pol = Some r"
  shows "(\<forall>u \<in> fst ` set (call_log (trace (pass_of r))). \<exists>candidates p t. u = RemovePackage (orp_id p) \<and>
      \<not> pc_dry_run (pclean_spec pol) \<and> pu_orphans w = Inr candidates \<and> p \<in> set candidates \<and>
      orp_last_modified p = Some t \<and> pw_now w - t \<ge> pc_min_orphan_age_days (pclean_spec pol) * 24 * one_hour \<and>
      pu_errata w (orp_id p) = Inr [] \<and> pu_systems w (orp_id p) = Inr []) \<and>
    int (length (call_log (trace (pass_of r)))) \<le> pc_max_delete_per_run (pclean_spec pol)"
proof (cases "obj_deleting pol \<or> bw_client w \<noteq> None \<or> (\<exists>e. pu_orphans w = Inl e)")
  case True
  then have "call_log (trace (pass_of r)) = []"
    using assms(5) by (auto simp: cleanup_Reconcile_def Let_def cleanup_fail_def split: sum.splits option.splits if_splits)
  then show ?thesis using assms(4) by simp
next
  case False
  then obtain candidates where c: "pu_orphans w = Inr candidates" by (cases "pu_orphans w") auto
  let ?sp = "pclean_spec pol"
  have run: "cleanup_run w candidates (start_pass pol) = Some r"
    using assms(5) False c by (simp add: cleanup_Reconcile_def Let_def)
  obtain batch where b: "batch_of ?sp (age_eligible w ?sp candidates) = Some batch"
    using run by (auto simp: cleanup_run_def Let_def split: option.splits)
  note calls = cleanup_run_calls [OF b run]
  have eligible: "p \<in> set candidates \<and> \<not> too_recent (pw_now w) (min_age (pc_min_orphan_age_days ?sp)) p"
    if "p \<in> set batch" for p
    using that batch_of_subset [OF b] assms(1) by (auto simp: age_eligible_def reorders_def)
  have old: "\<exists>t. orp_last_modified p = Some t \<and> pw_now w - t \<ge> pc_min_orphan_age_days ?sp * 24 * one_hour"
    if pb: "p \<in> set batch" for p
  proof -
    obtain t where t: "orp_last_modified p = Some t" "\<not> go_sub (pw_now w) t < min_age (pc_min_orphan_age_days ?sp)"
      using eligible [OF pb] by (auto simp: too_recent_def split: option.splits)
    have "pc_min_orphan_age_days ?sp * 24 * one_hour \<le> pw_now w - t"
      by (rule go_sub_bound) (use t assms(2,3) in \<open>simp_all add: min_age_exact\<close>)
    then show ?thesis using t by simp
  qed
  have "length (call_log (trace (pass_of r))) = length (map fst (call_log (trace (pass_of r))))" by simp
  also have "\<dots> \<le> length batch" unfolding calls by simp
  finally have "int (length (call_log (trace (pass_of r)))) \<le> pc_max_delete_per_run ?sp"
    using batch_of_subset [OF b] assms(4) by linarith
  moreover have "\<exists>candidates p t. u = RemovePackage (orp_id p) \<and> \<not> pc_dry_run ?sp \<and> pu_orphans w = Inr candidates \<and>
      p \<in> set candidates \<and> orp_last_modified p = Some t \<and> pw_now w - t \<ge> pc_min_orphan_age_days ?sp * 24 * one_hour \<and>
      pu_errata w (orp_id p) = Inr [] \<and> pu_systems w (orp_id p) = Inr []"
    if "u \<in> fst ` set (call_log (trace (pass_of r)))" for u
  proof -
    have "u \<in> set (map fst (call_log (trace (pass_of r))))" using that by simp
    then obtain p where p: "\<not> pc_dry_run ?sp" "u = RemovePackage (orp_id p)" "p \<in> set batch" "removable w p"
      unfolding calls by (auto split: if_splits)
    then show ?thesis using old [OF p(3)] eligible [OF p(3)] c by (auto simp: removable_def)
  qed
  ultimately show ?thesis by blast
qed

definition sample_policy :: "int \<Rightarrow> int \<Rightarrow> cleanup_policy" where
  "sample_policy days most = k8s_object.extend (sample_meta ''p'' [] False)
     \<lparr>pclean_spec = \<lparr>pc_organization_ref = Some \<lparr>lor_name = ''o''\<rparr>, pc_min_orphan_age_days = days,
        pc_dry_run = False, pc_max_delete_per_run = most, pc_batch_interval_seconds = 60\<rparr>,
      pclean_status = \<lparr>pcs_last_run_time = None, pcs_candidates_found = 0, pcs_skipped_too_recent = 0,
        pcs_skipped_errata_linked = 0, pcs_skipped_installed = 0, pcs_deleted_this_run = 0,
        pcs_remaining_candidates = 0, pcs_observed_generation = 0, pcs_conditions = []\<rparr>\<rparr>"

definition orphan :: "int \<Rightarrow> int \<Rightarrow> orphaned_package" where
  "orphan i t = \<lparr>orp_id = i, orp_name = ''x'', orp_version = ''1'', orp_release = ''1'', orp_epoch = [],
     orp_arch = ''noarch'', orp_last_modified = Some t\<rparr>"

text \<open>Package 1 is the older one and installed on a system, package 2 is on none.\<close>

definition cleanup_demo_world :: "int \<Rightarrow> cleanup_world" where
  "cleanup_demo_world now =
     \<lparr>bw_ssc = replace_cond, bw_client = None, bw_get_org = \<lambda>_ _. Inl (GoErr K8sNotFound []), bw_out = \<lambda>_. None,
      pw_now = now, pw_sort = \<lambda>ps. ps, pu_orphans = Inr [orphan 1 0, orphan 2 10],
      pu_errata = \<lambda>_. Inr [], pu_systems = \<lambda>i. if i = 1 then Inr [\<lparr>srf_id = 1, srf_name = ''s''\<rparr>] else Inr []\<rparr>"

theorem cleanup_removes_only_orphans_witness:
  "\<exists>r. cleanup_Reconcile (cleanup_demo_world (8 * 24 * one_hour)) (sample_policy 7 5) = Some r \<and>
     fst ` set (call_log (trace (pass_of r))) = {RemovePackage 2} \<and> int (length (call_log (trace (pass_of r)))) \<le> 5"
proof -
  let ?w = "cleanup_demo_world (8 * 24 * one_hour)" and ?p = "sample_policy 7 5"
  have "map_option (\<lambda>r. map fst (call_log (trace (pass_of r)))) (cleanup_Reconcile ?w ?p) = Some [RemovePackage 2]"
    by code_simp
  then obtain r where r: "cleanup_Reconcile ?w ?p = Some r" "map fst (call_log (trace (pass_of r))) = [RemovePackage 2]"
    by auto
  have "fst ` set (call_log (trace (pass_of r))) = set (map fst (call_log (trace (pass_of r))))" by simp
  moreover have "int (length (call_log (trace (pass_of r)))) \<le> 5"
    using cleanup_removes_only_orphans [OF _ _ _ _ r(1)]
    by (simp add: cleanup_demo_world_def sample_policy_def sample_simps reorders_def)
  ultimately show ?thesis using r by auto
qed

section \<open>Where it falls short\<close>

text \<open>
  A grace period of 106752 days, about 292 years, does not fit a duration.  The product wraps around to
  a negative number, and the sweep removes a package that was changed in this very moment.
\<close>

theorem long_grace_period_is_none:
  "min_age 106752 < 0 \<and> min_age 106751 > 0 \<and>
   map_option (\<lambda>r. map fst (call_log (trace (pass_of r))))
     (cleanup_Reconcile (cleanup_demo_world 10) (sample_policy 106752 5)) = Some [RemovePackage 2]"
proof (intro conjI)
  show "map_option (\<lambda>r. map fst (call_log (trace (pass_of r))))
     (cleanup_Reconcile (cleanup_demo_world 10) (sample_policy 106752 5)) = Some [RemovePackage 2]"
    by code_simp
qed (simp_all add: min_age_def go_duration_def)

text \<open>
  A batch is the oldest candidates, and those that an erratum or a system holds stay candidates.  As
  soon as there are as many of them as a batch may have, older than any other, every pass looks at them
  alone: it removes nothing, comes back at once, and no younger orphan is ever removed.
\<close>

theorem cleanup_stuck_behind_kept_packages:
  assumes "\<not> obj_deleting pol" "bw_client w = None" "pu_orphans w = Inr candidates"
    and "age_eligible w (pclean_spec pol) candidates = kept @ others" "others \<noteq> []"
    and "int (length kept) = pc_max_delete_per_run (pclean_spec pol)" "\<forall>p \<in> set kept. \<not> removable w p"
  shows "\<exists>r. cleanup_Reconcile w pol = Some r \<and> call_log (trace (pass_of r)) = [] \<and>
     (fst (snd r) = None \<longrightarrow>
        fst r = result_after (go_duration (pc_batch_interval_seconds (pclean_spec pol) * second)))"
proof -
  let ?sp = "pclean_spec pol" and ?z = "\<lparr>swc_errata = 0, swc_installed = 0, swc_deleted = 0\<rparr>"
  have b: "batch_of ?sp (age_eligible w ?sp candidates) = Some kept"
    using assms(5,6) unfolding assms(4) batch_of_def assms(6) [symmetric] by simp
  obtain c s1 where sw: "sweep w (pc_dry_run ?sp) kept ?z (start_pass pol) = (c, s1)" by fastforce
  have same: "mem (snd (sweep w dry ps c s)) = mem s" for dry ps c s
    by (induction ps arbitrary: c s) (auto simp: attempt_def Let_def split: sum.split list.split option.split)
  have m: "pclean_spec (mem s1) = ?sp" using same [of "pc_dry_run ?sp" kept ?z "start_pass pol"] sw by simp
  let ?f = "cleanup_finish w (int (length candidates)) (int (length
      (filter (too_recent (pw_now w) (min_age (pc_min_orphan_age_days ?sp))) candidates))) (int (length others)) c s1"
  have run: "cleanup_run w candidates (start_pass pol) = Some ?f"
    using b sw assms(4) by (simp add: cleanup_run_def Let_def)
  have "map fst (call_log (trace (pass_of ?f))) = []"
    using cleanup_run_calls [OF b run] assms(7) by (simp add: filter_empty_conv)
  moreover have "fst (snd ?f) = None \<Longrightarrow> fst ?f = result_after (go_duration (pc_batch_interval_seconds ?sp * second))"
    using assms(5) m by (simp add: cleanup_finish_def save_and_eq split: option.splits)
  ultimately show ?thesis using run assms(1-3) by (auto simp: cleanup_Reconcile_def Let_def)
qed

theorem cleanup_stuck_behind_kept_packages_witness:
  "\<exists>r. cleanup_Reconcile (cleanup_demo_world (8 * 24 * one_hour)) (sample_policy 7 1) = Some r \<and>
     call_log (trace (pass_of r)) = []"
proof -
  have "age_eligible (cleanup_demo_world (8 * 24 * one_hour)) (pclean_spec (sample_policy 7 1)) [orphan 1 0, orphan 2 10] =
      [orphan 1 0] @ [orphan 2 10]"
    by code_simp
  from cleanup_stuck_behind_kept_packages [OF _ _ _ this] show ?thesis
    by (force simp: cleanup_demo_world_def sample_policy_def sample_simps removable_def orphan_def)
qed

end
