(* ===== verification/Repository_Controller.thy ===== *)
theory Repository_Controller
  imports Kind_Facts
begin

text \<open>
  The Repository reconciler (\<^verbatim>\<open>repository_controller.go\<close>) with the reachability probe of
  \<^verbatim>\<open>urlcheck.go\<close>, and the CustomInfoKey reconciler (\<^verbatim>\<open>custominfokey_controller.go\<close>).
\<close>

section \<open>The reachability probe\<close>

text \<open>
  The URL parser, \<^verbatim>\<open>http.NewRequestWithContext\<close> and the HTTP client are parameters: the scheme of a URL,
  the error of building a request, and the status code or the transport error of a request.
\<close>

record http_probe =
  hp_scheme :: "string \<Rightarrow> go_error + string"
  hp_build :: "string \<Rightarrow> string \<Rightarrow> go_error option"
  hp_status :: "string \<Rightarrow> string \<Rightarrow> go_error + int"

definition probe_get :: "http_probe \<Rightarrow> string \<Rightarrow> go_error option" where
  "probe_get h rawURL =
     (case hp_build h ''GET'' rawURL of
        Some e \<Rightarrow> Some (wrap_err ''building request: '' e)
      | None \<Rightarrow>
          (case hp_status h ''GET'' rawURL of
             Inl e \<Rightarrow> Some (wrap_err ''request failed: '' e)
           | Inr code \<Rightarrow> if code \<ge> 400 then Some (errorf (''HTTP '' @ itoa code)) else None))"

definition checkRepoURLReachable :: "http_probe \<Rightarrow> string \<Rightarrow> go_error option" where
  "checkRepoURLReachable h rawURL =
     (case hp_scheme h rawURL of
        Inl e \<Rightarrow> Some (wrap_err ''invalid URL: '' e)
      | Inr scheme \<Rightarrow>
          if scheme \<noteq> ''http'' \<and> scheme \<noteq> ''https'' then None
          else case hp_build h ''HEAD'' rawURL of
            Some e \<Rightarrow> Some (wrap_err ''building request: '' e)
          | None \<Rightarrow>
              (case hp_status h ''HEAD'' rawURL of
                 Inl _ \<Rightarrow> probe_get h rawURL
               | Inr code \<Rightarrow>
                   if code < 400 then None
                   else if code \<noteq> 405 \<and> code \<noteq> 501 then Some (errorf (''HTTP '' @ itoa code))
                   else probe_get h rawURL))"

section \<open>Repositories\<close>

definition repo_kind :: "(repository, repository_status) kind_ops" where
  "repo_kind = \<lparr>status_of = repo_status, with_status = \<lambda>st o'. o'\<lparr>repo_status := st\<rparr>\<rparr>"

interpretation repo_status_field: status_field repo_kind
  by unfold_locales (simp_all add: repo_kind_def k8s_object.defs)

text \<open>A Secret is read by key, an absent key reads as the empty string.\<close>

record repo_world = base_world +
  rw_secret :: "(string \<Rightarrow> string) k8s_get"
  rw_channels :: "software_channel k8s_list"
  rw_check :: "string \<Rightarrow> go_error option"
  ru_repo :: "string \<Rightarrow> go_error + repo_details"
  ru_created :: repo_details

datatype repo_call =
    CreateRepo string string string bool string string string
  | UpdateRepoURL string string
  | DeleteRepo string

type_synonym repo_pass = "(repository, repo_call) pass"

type_synonym repo_outcome = "(repository, repo_call) outcome"

definition repo_kit :: "repo_world \<Rightarrow> (repository, repository_status) kit" where
  "repo_kit w = kit_of repo_kind rps_conditions_update w"

definition repo_fail :: "repo_world \<Rightarrow> string \<Rightarrow> go_error \<Rightarrow> repo_pass \<Rightarrow> repo_outcome" where
  "repo_fail w = fail_with (repo_kit w)"

definition resolveSSL :: "repo_world \<Rightarrow> repository \<Rightarrow> go_error + (string \<times> string \<times> string)" where
  "resolveSSL w repo =
     (case rp_ssl_cert_ref (repo_spec repo) of
        None \<Rightarrow> Inr ([], [], [])
      | Some r \<Rightarrow>
          (case rw_secret w (obj_namespace repo) (lor_name r) of
             Inl e \<Rightarrow> Inl e
           | Inr data \<Rightarrow> Inr (data ''ca.crt'', data ''tls.crt'', data ''tls.key'')))"

definition isInUse :: "repo_world \<Rightarrow> repository \<Rightarrow> go_error + string option" where
  "isInUse w repo =
     (case rw_channels w (obj_namespace repo) of
        Inl e \<Rightarrow> Inl e
      | Inr chs \<Rightarrow> Inr (map_option obj_name
          (find (\<lambda>ch. \<not> obj_deleting ch \<and> refs_to (obj_name repo) (sc_repository_refs (sc_spec ch))) chs)))"

definition set_repo :: "repo_world \<Rightarrow> repo_details \<Rightarrow> repo_pass \<Rightarrow> repo_pass" where
  "set_repo w d = set_st (repo_kit w) (\<lambda>st. st\<lparr>rps_uyuni_id := rpd_id d, rps_label := rpd_label d\<rparr>)"

definition repo_create ::
  "repo_world \<Rightarrow> string \<times> string \<times> string \<Rightarrow> (repo_pass \<Rightarrow> repo_outcome) \<Rightarrow> repo_pass \<Rightarrow> repo_outcome" where
  "repo_create w ssl next s =
     (let sp = repo_spec (mem s) in
      case ssl of (ca, cert, ssl_key) \<Rightarrow>
        call_or (bw_out w) (CreateRepo (rp_label sp) (rp_url sp) (rp_type sp) (rp_has_signed_metadata sp) ca cert ssl_key)
          (repo_fail w ''CreateFailed'') (\<lambda>s1. next (set_repo w (ru_created w) s1)) s)"

definition repo_mark_drift :: "repo_world \<Rightarrow> repo_details \<Rightarrow> repo_pass \<Rightarrow> repo_pass" where
  "repo_mark_drift w current s =
     (let sp = repo_spec (mem s) in
      set_st (repo_kit w) (rps_conditions_update (\<lambda>cs.
        if rpd_type current \<noteq> rp_type sp
        then setDrift (bw_ssc w) cs (obj_generation (mem s)) True ''ImmutableFieldDrift''
          (''type in Uyuni ('' @ rpd_type current @ '') differs from spec ('' @ rp_type sp @ ''); recreate to reconcile'')
        else setDrift (bw_ssc w) cs (obj_generation (mem s)) False ''InSync'' [])) s)"

definition repo_adopt :: "repo_world \<Rightarrow> repo_details \<Rightarrow> (repo_pass \<Rightarrow> repo_outcome) \<Rightarrow> repo_pass \<Rightarrow> repo_outcome" where
  "repo_adopt w current next s =
     (let sp = repo_spec (mem s) in
      call_if (rpd_url current \<noteq> rp_url sp) (bw_out w) return_error (UpdateRepoURL (rp_label sp) (rp_url sp))
        (\<lambda>s1. next (repo_mark_drift w current s1)) (set_repo w current s))"

definition repo_finish :: "repo_world \<Rightarrow> repo_pass \<Rightarrow> repo_outcome" where
  "repo_finish w s =
     (let s1 = set_st (repo_kit w) (\<lambda>st. st\<lparr>rps_observed_generation := obj_generation (mem s)\<rparr>) s;
          rawURL = rp_url (repo_spec (mem s))
      in case rw_check w rawURL of
        Some e \<Rightarrow> refuse (repo_kit w) (2 * minute) ''URLUnreachable'' (rawURL @ '': '' @ err_text e) s1
      | None \<Rightarrow> save_and (repo_kit w) (result_after (10 * minute)) (become (repo_kit w) True ''Reconciled'' [] s1))"

definition repo_converge :: "repo_world \<Rightarrow> repo_pass \<Rightarrow> repo_outcome" where
  "repo_converge w s =
     (case resolveSSL w (mem s) of
        Inl e \<Rightarrow> repo_fail w ''SSLRefError'' e s
      | Inr ssl \<Rightarrow>
          (case ru_repo w (rp_label (repo_spec (mem s))) of
             Inr current \<Rightarrow> repo_adopt w current (repo_finish w) s
           | Inl e \<Rightarrow> if is_uyuni_not_found e then repo_create w ssl (repo_finish w) s else return_error e s))"

definition repo_handleDeletion :: "repo_world \<Rightarrow> repo_pass \<Rightarrow> repo_outcome" where
  "repo_handleDeletion w =
     delete_guarded (repo_kit w) repoFinalizer (\<lambda>s.
       case isInUse w (mem s) of
         Inl e \<Rightarrow> return_error e s
       | Inr (Some by) \<Rightarrow> hold (repo_kit w) ''InUse''
           (''SoftwareChannel '' @ go_quote by @ '' still references this repository'') s
       | Inr None \<Rightarrow>
           if rps_label (repo_status (mem s)) \<noteq> []
           then delete_call (repo_kit w) (bw_client w) repoFinalizer (DeleteRepo (rps_label (repo_status (mem s)))) s
           else release (repo_kit w) repoFinalizer s)"

definition repo_Reconcile :: "repo_world \<Rightarrow> repository \<Rightarrow> repo_outcome" where
  "repo_Reconcile w repo =
     (let s = start_pass repo in
      if obj_deleting repo then repo_handleDeletion w s
      else begin_pass (repo_kit w) w repoFinalizer (orgRef (rp_organization_ref (repo_spec repo))) (repo_converge w) s)"

section \<open>Custom info keys\<close>

definition info_kind :: "(custom_info_key, custom_info_key_status) kind_ops" where
  "info_kind = \<lparr>status_of = cikey_status, with_status = \<lambda>st o'. o'\<lparr>cikey_status := st\<rparr>\<rparr>"

interpretation info_status_field: status_field info_kind
  by unfold_locales (simp_all add: info_kind_def k8s_object.defs)

text \<open>\<open>iu_keys_after\<close> is what the list says right after the creation.\<close>

record info_world = base_world +
  iw_systems :: "uyuni_system k8s_list"
  iu_keys :: "go_error + custom_info_key_details list"
  iu_keys_after :: "go_error + custom_info_key_details list"

datatype info_call =
    CreateCustomInfoKey string string
  | UpdateCustomInfoKey string string
  | DeleteCustomInfoKey string

type_synonym info_pass = "(custom_info_key, info_call) pass"

type_synonym info_outcome = "(custom_info_key, info_call) outcome"

definition info_kit :: "info_world \<Rightarrow> (custom_info_key, custom_info_key_status) kit" where
  "info_kit w = kit_of info_kind ciks_conditions_update w"

definition info_fail :: "info_world \<Rightarrow> string \<Rightarrow> go_error \<Rightarrow> info_pass \<Rightarrow> info_outcome" where
  "info_fail w = fail_with (info_kit w)"

definition findKey ::
  "go_error + custom_info_key_details list \<Rightarrow> string \<Rightarrow> go_error + custom_info_key_details option" where
  "findKey listed label =
     (case listed of Inl e \<Rightarrow> Inl e | Inr keys \<Rightarrow> Inr (find (\<lambda>k. ckd_label k = label) keys))"

definition referencingSystems :: "info_world \<Rightarrow> custom_info_key \<Rightarrow> go_error + string list" where
  "referencingSystems w cik =
     (case iw_systems w (obj_namespace cik) of
        Inl e \<Rightarrow> Inl e
      | Inr xs \<Rightarrow> Inr (map obj_name (filter
          (\<lambda>sys. list_ex (\<lambda>v. lor_name (civ_key_ref v) = obj_name cik) (sys_custom_info_values (sys_spec sys))) xs)))"

definition info_finish :: "info_world \<Rightarrow> custom_info_key_details option \<Rightarrow> info_pass \<Rightarrow> info_outcome" where
  "info_finish w existing s =
     save_and (info_kit w) (result_after (10 * minute))
       (become (info_kit w) True ''Reconciled'' []
         (set_st (info_kit w) (\<lambda>st.
            (case existing of None \<Rightarrow> st | Some k \<Rightarrow> st\<lparr>ciks_uyuni_id := ckd_id k\<rparr>)
              \<lparr>ciks_observed_generation := obj_generation (mem s)\<rparr>) s))"

definition info_converge :: "info_world \<Rightarrow> info_pass \<Rightarrow> info_outcome" where
  "info_converge w s =
     (let label = cik_label (cikey_spec (mem s)); desc = cik_description (cikey_spec (mem s)) in
      case findKey (iu_keys w) label of
        Inl e \<Rightarrow> info_fail w ''ProviderError'' e s
      | Inr None \<Rightarrow>
          call_or (bw_out w) (CreateCustomInfoKey label desc) (info_fail w ''CreateFailed'')
            (info_finish w (case findKey (iu_keys_after w) label of Inl _ \<Rightarrow> None | Inr r \<Rightarrow> r)) s
      | Inr (Some k) \<Rightarrow>
          call_if (ckd_description k \<noteq> desc) (bw_out w) (info_fail w ''UpdateFailed'') (UpdateCustomInfoKey label desc)
            (info_finish w (Some k)) s)"

definition info_handleDeletion :: "info_world \<Rightarrow> info_pass \<Rightarrow> info_outcome" where
  "info_handleDeletion w =
     delete_guarded (info_kit w) cikFinalizer (\<lambda>s.
       case referencingSystems w (mem s) of
         Inl e \<Rightarrow> return_error e s
       | Inr refs \<Rightarrow>
           if refs \<noteq> []
           then hold (info_kit w) ''InUse'' (''custom info key is referenced by System(s): '' @ show_slice refs) s
           else delete_call (info_kit w) (bw_client w) cikFinalizer (DeleteCustomInfoKey (cik_label (cikey_spec (mem s)))) s)"

definition info_Reconcile :: "info_world \<Rightarrow> custom_info_key \<Rightarrow> info_outcome" where
  "info_Reconcile w cik =
     (let s = start_pass cik in
      if obj_deleting cik then info_handleDeletion w s
      else begin_pass (info_kit w) w cikFinalizer (orgRef (cik_organization_ref (cikey_spec cik))) (info_converge w) s)"

definition keysForSystem :: "uyuni_system \<Rightarrow> requests" where
  "keysForSystem sys =
     map (\<lambda>v. (obj_namespace sys, lor_name (civ_key_ref v))) (sys_custom_info_values (sys_spec sys))"

section \<open>Removal\<close>

lemma repo_kit_simps [simp]:
  "kit_ops (repo_kit w) = repo_kind" "kit_out (repo_kit w) = bw_out w" "kit_ssc (repo_kit w) = bw_ssc w"
  "kit_conditions (repo_kit w) = rps_conditions_update"
  by (simp_all add: repo_kit_def)

lemma info_kit_simps [simp]:
  "kit_ops (info_kit w) = info_kind" "kit_out (info_kit w) = bw_out w" "kit_ssc (info_kit w) = bw_ssc w"
  "kit_conditions (info_kit w) = ciks_conditions_update"
  by (simp_all add: info_kit_def)

fun repo_removal :: "repo_call \<Rightarrow> bool" where
  "repo_removal (DeleteRepo _) = True"
| "repo_removal _ = False"

fun info_removal :: "info_call \<Rightarrow> bool" where
  "info_removal (DeleteCustomInfoKey _) = True"
| "info_removal _ = False"

interpretation repo_removals: pass_rule "repo_kit w" "only_calls (\<lambda>u. \<not> repo_removal u)" "\<lambda>_. True" "\<lambda>u. \<not> repo_removal u"
  for w
  by (rule only_calls_rule)

interpretation info_removals: pass_rule "info_kit w" "only_calls (\<lambda>u. \<not> info_removal u)" "\<lambda>_. True" "\<lambda>u. \<not> info_removal u"
  for w
  by (rule only_calls_rule)

lemma repo_live:
  "only_calls (\<lambda>u. \<not> repo_removal u) s \<Longrightarrow> only_calls (\<lambda>u. \<not> repo_removal u) (pass_of (repo_converge w s))"
  by (auto simp: repo_converge_def repo_fail_def repo_adopt_def repo_create_def repo_finish_def Let_def return_error_def
      set_repo_def repo_mark_drift_def repo_removals.fail_I repo_removals.save_and_I repo_removals.become_I
      repo_removals.refuse_I intro!: repo_removals.call_if_I [unfolded repo_kit_simps]
      repo_removals.call_or_I [unfolded repo_kit_simps] split: sum.split prod.split option.split)

lemma info_live:
  "only_calls (\<lambda>u. \<not> info_removal u) s \<Longrightarrow> only_calls (\<lambda>u. \<not> info_removal u) (pass_of (info_converge w s))"
  by (auto simp: info_converge_def info_fail_def info_finish_def Let_def
      info_removals.fail_I info_removals.save_and_I info_removals.become_I
      intro!: info_removals.call_if_I [unfolded info_kit_simps]
      info_removals.call_or_I [unfolded info_kit_simps] split: sum.split option.split)

lemma repo_removal_iff:
  "DeleteRepo l \<in> fst ` set (call_log (trace (pass_of (repo_Reconcile w repo)))) \<longleftrightarrow>
     obj_deleting repo \<and> containsFinalizer repo repoFinalizer \<and> \<not> has_annotation repo AnnForceDelete \<and>
     isInUse w repo = Inr None \<and> rps_label (repo_status repo) \<noteq> [] \<and> bw_client w = None \<and>
     l = rps_label (repo_status repo)"
proof (cases "obj_deleting repo")
  case True
  then show ?thesis
    by (auto simp: repo_Reconcile_def repo_handleDeletion_def delete_guarded_def call_log_of_delete_call Let_def
        split: sum.splits option.splits)
next
  case False
  have "only_calls (\<lambda>u. \<not> repo_removal u) (pass_of (repo_Reconcile w repo))"
    using False by (simp add: repo_Reconcile_def Let_def repo_removals.begin_pass_I repo_live)
  then show ?thesis using False only_calls_absent [of _ _ "DeleteRepo l"] by fastforce
qed

lemma info_removal_iff:
  "DeleteCustomInfoKey l \<in> fst ` set (call_log (trace (pass_of (info_Reconcile w cik)))) \<longleftrightarrow>
     obj_deleting cik \<and> containsFinalizer cik cikFinalizer \<and> \<not> has_annotation cik AnnForceDelete \<and>
     referencingSystems w cik = Inr [] \<and> bw_client w = None \<and> l = cik_label (cikey_spec cik)"
proof (cases "obj_deleting cik")
  case True
  then show ?thesis
    by (auto simp: info_Reconcile_def info_handleDeletion_def delete_guarded_def call_log_of_delete_call Let_def
        split: sum.splits)
next
  case False
  have "only_calls (\<lambda>u. \<not> info_removal u) (pass_of (info_Reconcile w cik))"
    using False by (simp add: info_Reconcile_def Let_def info_removals.begin_pass_I info_live)
  then show ?thesis using False only_calls_absent [of _ _ "DeleteCustomInfoKey l"] by fastforce
qed

end
