(* ===== verification/Git_Source.thy ===== *)
theory Git_Source
  imports Kind_Facts Go_Time "HOL-Library.List_Lexorder" "HOL-Library.Char_ord" "HOL-Library.Multiset"
begin

text \<open>
  What the channel controllers share for sources in git (\<^verbatim>\<open>configurationchannel_controller.go\<close>): the
  URL with credentials, the sorted keys of a map, the sync interval.  The git client, the URL parser and
  the Secrets are parameters; a Go map is an association list in the order a \<^verbatim>\<open>range\<close> visits it.
\<close>

section \<open>Reading a repository\<close>

record git_reader =
  gt_secret :: "(string \<Rightarrow> string) k8s_get"
  gt_with_user :: "string \<Rightarrow> string \<Rightarrow> string \<Rightarrow> go_error + string"
  gt_hash :: "string \<Rightarrow> string \<Rightarrow> go_error + string"
  gt_clone :: "string \<Rightarrow> string \<Rightarrow> string \<Rightarrow> go_error + ((string \<times> string) list \<times> string)"

definition or_else :: "string \<Rightarrow> string \<Rightarrow> string" where
  "or_else s d = (if s = [] then d else s)"

definition ccInjectBasicAuth :: "git_reader \<Rightarrow> string \<Rightarrow> string \<Rightarrow> string \<Rightarrow> go_error + string" where
  "ccInjectBasicAuth g rawURL username password =
     (case gt_with_user g rawURL username password of
        Inl e \<Rightarrow> Inl (wrap_err (''invalid source URL '' @ go_quote rawURL @ '': '') e)
      | Inr u \<Rightarrow> Inr u)"

definition buildAuthenticatedURL ::
  "git_reader \<Rightarrow> string \<Rightarrow> string \<Rightarrow> basic_auth_ref option \<Rightarrow> go_error + string" where
  "buildAuthenticatedURL g ns raw auth =
     (case auth of
        None \<Rightarrow> Inr raw
      | Some a \<Rightarrow>
          (case gt_secret g ns (bar_name a) of
             Inl e \<Rightarrow> Inl (wrap_err (''reading auth secret '' @ go_quote (bar_name a) @ '': '') e)
           | Inr data \<Rightarrow> ccInjectBasicAuth g raw (data (or_else (bar_username_key a) ''username''))
               (data (or_else (bar_password_key a) ''password''))))"

section \<open>Sorted keys\<close>

text \<open>
  The exchange sort of \<^verbatim>\<open>sortedMapKeys\<close>.  One run of its inner loop compares the element at \<^verbatim>\<open>i\<close> with each
  later one and swaps: \<open>exchange x ys\<close> gives what is at \<^verbatim>\<open>i\<close> after it and the later elements.
\<close>

fun exchange :: "string \<Rightarrow> string list \<Rightarrow> string \<times> string list" where
  "exchange x [] = (x, [])"
| "exchange x (y # ys) =
     (if x > y then (case exchange y ys of (m, r) \<Rightarrow> (m, x # r)) else (case exchange x ys of (m, r) \<Rightarrow> (m, y # r)))"

lemma exchange_length [simp]: "length (snd (exchange x ys)) = length ys"
  by (induction x ys rule: exchange.induct) (auto split: prod.split)

lemma exchange_length_eq [simp]: "exchange x ys = (m, r) \<Longrightarrow> length r = length ys"
  using exchange_length [of x ys] by simp

function exchange_sort :: "string list \<Rightarrow> string list" where
  "exchange_sort [] = []"
| "exchange_sort (x # xs) = (case exchange x xs of (m, r) \<Rightarrow> m # exchange_sort r)"
  by pat_completeness auto
termination by (relation "measure length") (auto dest: sym)

definition sortedMapKeys :: "(string \<times> 'v) list \<Rightarrow> string list" where
  "sortedMapKeys m = exchange_sort (map fst m)"

lemma exchange_mset: "exchange x ys = (m, r) \<Longrightarrow> add_mset m (mset r) = add_mset x (mset ys)"
  by (induction x ys arbitrary: m r rule: exchange.induct) (auto split: prod.splits if_splits)

lemma exchange_least: "exchange x ys = (m, r) \<Longrightarrow> m \<le> x \<and> (\<forall>y \<in> set r. m \<le> y)"
  by (induction x ys arbitrary: m r rule: exchange.induct) (fastforce split: prod.splits if_splits)+

text \<open>The loops compute the sorted list of the keys.\<close>

lemma exchange_sort_sorts: "mset (exchange_sort xs) = mset xs \<and> sorted (exchange_sort xs)"
proof (induction xs rule: exchange_sort.induct)
  case (2 x xs)
  obtain m r where e: "exchange x xs = (m, r)" by fastforce
  then have ih: "mset (exchange_sort r) = mset r" "sorted (exchange_sort r)" using "2" by auto
  then have "set (exchange_sort r) = set r" by (metis set_mset_mset)
  then show ?case using ih exchange_mset [OF e] exchange_least [OF e] e by simp
qed simp

lemma sortedMapKeys_sort: "sortedMapKeys m = sort (map fst m)"
  unfolding sortedMapKeys_def using exchange_sort_sorts by (metis properties_for_sort)

section \<open>The sync interval\<close>

text \<open>
  The first match of the regular expression \<^verbatim>\<open>every\s+(\d+)([mh])\<close> in a text.  \<^verbatim>\<open>\s\<close> is one of tab, newline,
  form feed, carriage return and space; neither of the repeated classes meets what follows it, so taking
  as many characters as possible is the only way to match.
\<close>

definition is_re_space :: "char \<Rightarrow> bool" where
  "is_re_space c = ((of_char c :: nat) \<in> {9, 10, 12, 13, 32})"

definition match_every :: "string \<Rightarrow> (string \<times> char) option" where
  "match_every s =
     (case cut_prefix s ''every'' of
        None \<Rightarrow> None
      | Some rest \<Rightarrow>
          let blank = takeWhile is_re_space rest; after = dropWhile is_re_space rest;
              digits = takeWhile is_digit after
          in if blank = [] \<or> digits = [] then None
             else case dropWhile is_digit after of
               c # _ \<Rightarrow> if c = CHR ''m'' \<or> c = CHR ''h'' then Some (digits, c) else None
             | [] \<Rightarrow> None)"

fun find_every :: "string \<Rightarrow> (string \<times> char) option" where
  "find_every [] = None"
| "find_every (c # cs) = (case match_every (c # cs) of Some r \<Rightarrow> Some r | None \<Rightarrow> find_every cs)"

text \<open>\<^verbatim>\<open>strconv.Atoi\<close> gives the largest \<^verbatim>\<open>int\<close> for digits out of range, and the error is dropped.\<close>

definition parseSyncInterval :: "string \<Rightarrow> int" where
  "parseSyncInterval schedule =
     (case find_every schedule of
        None \<Rightarrow> 6 * one_hour
      | Some (digits, unit) \<Rightarrow>
          let num = min (int (digits_val 0 digits)) (2 ^ 63 - 1) in
          if unit = CHR ''m'' then go_duration (num * minute) else go_duration (num * one_hour))"


lemma takeWhile_digits: "list_all P xs \<Longrightarrow> \<not> P c \<Longrightarrow> takeWhile P (xs @ [c]) = xs"
  "list_all P xs \<Longrightarrow> \<not> P c \<Longrightarrow> dropWhile P (xs @ [c]) = [c]"
  by (induction xs) auto

lemma digit_not_space: "is_digit c \<Longrightarrow> \<not> is_re_space c"
  by (auto simp: is_digit_def is_re_space_def)

text \<open>
  The schedule texts the documentation shows are read back as what they say: \<^verbatim>\<open>every Nm\<close> is N minutes
  and \<^verbatim>\<open>every Nh\<close> is N hours, for every N whose interval fits a duration.
\<close>

theorem sync_interval_roundtrip:
  assumes "0 \<le> n" "n * (if unit = CHR ''h'' then one_hour else minute) < 2 ^ 63"
    and "unit = CHR ''m'' \<or> unit = CHR ''h''"
  shows "parseSyncInterval (''every '' @ itoa n @ [unit]) = n * (if unit = CHR ''h'' then one_hour else minute)"
proof -
  have i: "itoa n = nat_digits (nat n)" using assms(1) by (simp add: itoa_def)
  obtain d ds where d: "itoa n = d # ds" "is_digit d"
    using hd_nat_digits [of "nat n"] nat_digits_nonempty [of "nat n"] unfolding i [symmetric]
    by (metis list.exhaust_sel)
  have all: "list_all is_digit (itoa n)" using i nat_digits_all_digits by simp
  have unit: "\<not> is_digit unit" using assms(3) by (auto simp: is_digit_def)
  have blank: "is_re_space (CHR '' '')" by (simp add: is_re_space_def)
  have rest: "cut_prefix (''every '' @ itoa n @ [unit]) ''every'' = Some (CHR '' '' # itoa n @ [unit])"
    by (simp add: cut_prefix_def has_prefix_def)
  have "match_every (''every '' @ itoa n @ [unit]) = Some (itoa n, unit)"
    using rest blank digit_not_space [OF d(2)] takeWhile_digits [OF all unit] d(1) assms(3)
    by (simp add: match_every_def Let_def)
  then have f: "find_every (''every '' @ itoa n @ [unit]) = Some (itoa n, unit)" by simp
  have v: "int (digits_val 0 (itoa n)) = n" using i assms(1) by (simp add: digits_val_nat_digits)
  have "n \<le> 2 ^ 63 - 1" using assms(1,2) by (auto split: if_splits)
  then show ?thesis using f v assms go_duration_exact
    by (auto simp: parseSyncInterval_def min_def)
qed

theorem sync_interval_roundtrip_witness:
  "parseSyncInterval ''every 90m'' = 90 * minute"
proof -
  have "itoa 90 = ''90''" by code_simp
  with sync_interval_roundtrip [of 90 "CHR ''m''"] show ?thesis by simp
qed

end
