(* ===== verification/ConfigChannel_Controller.thy ===== *)
theory ConfigChannel_Controller
  imports Git_Source
begin

text \<open>
  The ConfigurationChannel reconciler (\<^verbatim>\<open>configurationchannel_controller.go\<close>): a configuration channel in
  Uyuni, with files that are copied from a git repository.
\<close>

section \<open>World and calls\<close>

definition cchan_kind :: "(configuration_channel, configuration_channel_status) kind_ops" where
  "cchan_kind = \<lparr>status_of = cchan_status, with_status = \<lambda>st o'. o'\<lparr>cchan_status := st\<rparr>\<rparr>"

interpretation cchan_status_field: status_field cchan_kind
  by unfold_locales (simp_all add: cchan_kind_def k8s_object.defs)

text \<open>\<open>bw_client\<close> is the client of the organization, \<open>cc_provider\<close> the one of a provider or of the default one.\<close>

record cchan_world = base_world +
  cc_provider :: "string option \<Rightarrow> go_error option"
  cc_now :: int
  cc_channels :: "configuration_channel k8s_list"
  cc_git :: git_reader
  cu_channel :: "string \<Rightarrow> go_error + config_channel_details"
  cu_created_id :: int

datatype cchan_call =
    CreateConfigChannel string string string string
  | UpdateConfigChannel string string string
  | DeleteConfigChannel string
  | DeleteConfigFile string string
  | PutConfigFile string config_file_upsert

type_synonym cchan_pass = "(configuration_channel, cchan_call) pass"

type_synonym cchan_outcome = "(configuration_channel, cchan_call) outcome"

definition cchan_kit :: "cchan_world \<Rightarrow> (configuration_channel, configuration_channel_status) kit" where
  "cchan_kit w = kit_of cchan_kind cchs_conditions_update w"

definition cchan_fail :: "cchan_world \<Rightarrow> string \<Rightarrow> go_error \<Rightarrow> cchan_pass \<Rightarrow> cchan_outcome" where
  "cchan_fail w = fail_with (cchan_kit w)"

definition set_cchan ::
  "cchan_world \<Rightarrow> (configuration_channel_status \<Rightarrow> configuration_channel_status) \<Rightarrow> cchan_pass \<Rightarrow> cchan_pass" where
  "set_cchan w = set_st (cchan_kit w)"

definition cchan_resolveClient :: "cchan_world \<Rightarrow> configuration_channel \<Rightarrow> go_error option" where
  "cchan_resolveClient w cc =
     (let sp = cchan_spec cc in
      if cch_organization_ref sp \<noteq> [] then bw_client w
      else cc_provider w (if cch_cluster sp \<noteq> [] then Some (cch_cluster sp) else None))"

section \<open>The channel in Uyuni\<close>

definition cchan_rival :: "configuration_channel \<Rightarrow> configuration_channel list \<Rightarrow> configuration_channel option" where
  "cchan_rival cc others =
     find (\<lambda>o'. obj_name o' \<noteq> obj_name cc \<and> cch_id (cchan_spec o') = cch_id (cchan_spec cc) \<and>
                cchs_uyuni_id (cchan_status o') \<noteq> 0) others"

definition cchan_create :: "cchan_world \<Rightarrow> (cchan_pass \<Rightarrow> cchan_outcome) \<Rightarrow> cchan_pass \<Rightarrow> cchan_outcome" where
  "cchan_create w next s =
     (let sp = cchan_spec (mem s) in
      call_or (bw_out w) (CreateConfigChannel (cch_id sp) (cch_name sp) (cch_description sp) (cch_type sp))
        (cchan_fail w ''CreateFailed'')
        (\<lambda>s1. next (set_cchan w (\<lambda>st. st\<lparr>cchs_uyuni_id := cu_created_id w\<rparr>) s1)) s)"

definition cchan_mark_drift :: "cchan_world \<Rightarrow> config_channel_details \<Rightarrow> cchan_pass \<Rightarrow> cchan_pass" where
  "cchan_mark_drift w current s =
     (let sp = cchan_spec (mem s) in
      set_cchan w (cchs_conditions_update (\<lambda>cs.
        if ccd_type current \<noteq> cch_type sp
        then setDrift (bw_ssc w) cs (obj_generation (mem s)) True ''ImmutableFieldDrift''
          (''type in Uyuni ('' @ ccd_type current @ '') differs from spec ('' @ cch_type sp @ ''); recreate to reconcile'')
        else setDrift (bw_ssc w) cs (obj_generation (mem s)) False ''InSync'' [])) s)"

definition cchan_adopt ::
  "cchan_world \<Rightarrow> config_channel_details \<Rightarrow> (cchan_pass \<Rightarrow> cchan_outcome) \<Rightarrow> cchan_pass \<Rightarrow> cchan_outcome" where
  "cchan_adopt w current next s =
     (let sp = cchan_spec (mem s) in
      case cc_channels w (obj_namespace (mem s)) of
        Inl e \<Rightarrow> return_error e s
      | Inr others \<Rightarrow>
          (case cchan_rival (mem s) others of
             Some o' \<Rightarrow> conflict (cchan_kit w) ''ChannelIDConflict''
               (''configuration channel '' @ go_quote (cch_id sp) @ '' is already managed by ConfigurationChannel CR ''
                @ go_quote (obj_name o') @ ''; rename this channel or delete the existing one first'') s
           | None \<Rightarrow>
               call_if (ccd_name current \<noteq> cch_name sp \<or> ccd_description current \<noteq> cch_description sp) (bw_out w)
                 return_error (UpdateConfigChannel (cch_id sp) (cch_name sp) (cch_description sp))
                 (\<lambda>s1. next (cchan_mark_drift w current s1))
                 (set_cchan w (\<lambda>st. st\<lparr>cchs_uyuni_id := ccd_id current\<rparr>) s)))"

section \<open>Files from git\<close>

abbreviation SyncNow :: string where "SyncNow \<equiv> ''sync-now''"

definition wants_sync :: "configuration_channel_spec \<Rightarrow> bool" where
  "wants_sync sp = (cch_auto_sync sp = Some True)"

definition shouldSync :: "cchan_world \<Rightarrow> configuration_channel \<Rightarrow> bool" where
  "shouldSync w cc =
     (let sp = cchan_spec cc in
      if \<not> wants_sync sp \<or> cch_url sp = [] then False
      else if has_annotation cc SyncNow then True
      else case cchs_last_sync_time (cchan_status cc) of
        None \<Rightarrow> True
      | Some t \<Rightarrow> if cch_sync_schedule sp = [] then False
          else go_sub (cc_now w) t \<ge> parseSyncInterval (cch_sync_schedule sp))"

definition syncRepositoryFiles ::
  "cchan_world \<Rightarrow> configuration_channel \<Rightarrow> go_error + ((string \<times> string) list \<times> string)" where
  "syncRepositoryFiles w cc =
     (let sp = cchan_spec cc; g = cc_git w in
      if cch_url sp = [] then Inl (errorf ''repository URL is required for sync'')
      else case buildAuthenticatedURL g (obj_namespace cc) (cch_url sp) (cch_auth sp) of
        Inl e \<Rightarrow> Inl (wrap_err ''building authenticated URL: '' e)
      | Inr repoURL \<Rightarrow>
          (case gt_clone g repoURL (or_else (cch_repository_ref sp) ''main'') (or_else (cch_repository_path sp) ''.'') of
             Inl e \<Rightarrow> Inl (wrap_err ''failed to sync repository: '' e)
           | Inr r \<Rightarrow> Inr r))"

text \<open>Files of the last sync that are gone now; a failure is printed, and the result counts the successes.\<close>

fun delete_loop :: "cchan_world \<Rightarrow> string list \<Rightarrow> (string \<times> string) list \<Rightarrow> int \<Rightarrow> cchan_pass \<Rightarrow> int \<times> cchan_pass" where
  "delete_loop w [] files n s = (n, s)"
| "delete_loop w (f # fs) files n s =
     (if f \<in> fst ` set files then delete_loop w fs files n s
      else case attempt (bw_out w) (Call (DeleteConfigFile (cch_id (cchan_spec (mem s))) f)) s of
        (Some _, s1) \<Rightarrow> delete_loop w fs files n s1
      | (None, s1) \<Rightarrow> delete_loop w fs files (n + 1) s1)"

definition file_upsert :: "string \<Rightarrow> string \<Rightarrow> config_file_upsert" where
  "file_upsert path contents = \<lparr>cfu_path = path, cfu_type = ''file'', cfu_contents = contents, cfu_target_path = [],
     cfu_owner = ''root'', cfu_group = ''root'', cfu_permissions = ''0644'', cfu_selinux_ctx = [], cfu_macro = False\<rparr>"

definition content_of :: "(string \<times> string) list \<Rightarrow> string \<Rightarrow> string" where
  "content_of files path = (case map_of files path of Some c \<Rightarrow> c | None \<Rightarrow> [])"

fun upload_loop ::
  "cchan_world \<Rightarrow> (string \<times> string) list \<Rightarrow> string list \<Rightarrow> cchan_pass \<Rightarrow> go_error option \<times> cchan_pass" where
  "upload_loop w files [] s = (None, s)"
| "upload_loop w files (p # ps) s =
     (case attempt (bw_out w) (Call (PutConfigFile (cch_id (cchan_spec (mem s))) (file_upsert p (content_of files p)))) s of
        (Some e, s1) \<Rightarrow> (Some (wrap_err (''failed to upload file '' @ p @ '': '') e), s1)
      | (None, s1) \<Rightarrow> upload_loop w files ps s1)"

definition uploadFilesToUyuni ::
  "cchan_world \<Rightarrow> (string \<times> string) list \<Rightarrow> cchan_pass \<Rightarrow> go_error option \<times> cchan_pass" where
  "uploadFilesToUyuni w files = upload_loop w files (sortedMapKeys files)"

definition sync_failed :: "cchan_world \<Rightarrow> string \<Rightarrow> go_error \<Rightarrow> cchan_pass \<Rightarrow> cchan_outcome" where
  "sync_failed w reason e s =
     save_ignoring (cchan_kit w) (result_after (5 * minute))
       (set_cchan w (\<lambda>st. st\<lparr>cchs_sync_status := ''Failed''\<rparr>) (become (cchan_kit w) False reason (err_text e) s))"

definition record_sync :: "cchan_world \<Rightarrow> (string \<times> string) list \<Rightarrow> string \<Rightarrow> int \<Rightarrow> cchan_pass \<Rightarrow> cchan_pass" where
  "record_sync w files hash deleted s =
     become (cchan_kit w) True ''RepoSynced''
       (''Synced '' @ itoa (int (length files)) @ '' files, deleted '' @ itoa deleted @ '' files'')
       (set_cchan w (\<lambda>st. st\<lparr>cchs_synced_files := map fst files, cchs_sync_status := ''Synced'',
          cchs_last_sync_time := Some (cc_now w), cchs_synced_file_count := int (length files),
          cchs_repository_hash := hash\<rparr>) s)"

definition drop_sync_now :: "cchan_world \<Rightarrow> cchan_pass \<Rightarrow> cchan_pass" where
  "drop_sync_now w s =
     (if has_annotation (mem s) SyncNow
      then snd (write_object (bw_out w) cchan_kind (strip_annotation SyncNow s)) else s)"

definition cchan_sync :: "cchan_world \<Rightarrow> (cchan_pass \<Rightarrow> cchan_outcome) \<Rightarrow> cchan_pass \<Rightarrow> cchan_outcome" where
  "cchan_sync w next s =
     (case syncRepositoryFiles w (mem s) of
        Inl e \<Rightarrow> sync_failed w ''RepoSyncFailed'' e s
      | Inr (files, hash) \<Rightarrow>
          (case delete_loop w (cchs_synced_files (cchan_status (mem s))) files 0 s of
             (deleted, s1) \<Rightarrow>
               (case (if files = [] then (None, s1) else uploadFilesToUyuni w files s1) of
                  (Some e, s2) \<Rightarrow> sync_failed w ''FileUploadFailed'' e s2
                | (None, s2) \<Rightarrow>
                    save_then (cchan_kit w) (\<lambda>s3. next (drop_sync_now w s3)) (record_sync w files hash deleted s2))))"

definition cchan_files :: "cchan_world \<Rightarrow> (cchan_pass \<Rightarrow> cchan_outcome) \<Rightarrow> cchan_pass \<Rightarrow> cchan_outcome" where
  "cchan_files w next s =
     (let sp = cchan_spec (mem s) in
      if wants_sync sp \<and> cch_url sp \<noteq> []
      then (if shouldSync w (mem s) then cchan_sync w next s else next s)
      else if wants_sync sp
      then refuse (cchan_kit w) (5 * minute) ''RepoNotConfigured'' ''autoSync enabled but URL is not set''
             (set_cchan w (\<lambda>st. st\<lparr>cchs_sync_status := ''NotConfigured''\<rparr>) s)
      else next s)"

section \<open>The pass\<close>

definition cchan_finish :: "cchan_world \<Rightarrow> cchan_pass \<Rightarrow> cchan_outcome" where
  "cchan_finish w s =
     (let sp = cchan_spec (mem s) in
      save_and (cchan_kit w)
        (result_after (if wants_sync sp \<and> cch_sync_schedule sp \<noteq> [] then parseSyncInterval (cch_sync_schedule sp)
           else 5 * minute))
        (become (cchan_kit w) True ''Reconciled'' []
          (set_cchan w (\<lambda>st. st\<lparr>cchs_observed_generation := obj_generation (mem s)\<rparr>) s)))"

definition cchan_converge :: "cchan_world \<Rightarrow> cchan_pass \<Rightarrow> cchan_outcome" where
  "cchan_converge w s =
     (case cu_channel w (cch_id (cchan_spec (mem s))) of
        Inr current \<Rightarrow> cchan_adopt w current (cchan_files w (cchan_finish w)) s
      | Inl e \<Rightarrow> if is_uyuni_not_found e then cchan_create w (cchan_files w (cchan_finish w)) s
          else return_error e s)"

definition cchan_handleDeletion :: "cchan_world \<Rightarrow> cchan_pass \<Rightarrow> cchan_outcome" where
  "cchan_handleDeletion w s =
     delete_remote (cchan_kit w) (cchan_resolveClient w (mem s)) confChanFinalizer True
       (DeleteConfigChannel (cch_id (cchan_spec (mem s)))) s"

definition cchan_Reconcile :: "cchan_world \<Rightarrow> configuration_channel \<Rightarrow> cchan_outcome" where
  "cchan_Reconcile w cc =
     (let s = start_pass cc in
      if obj_deleting cc then cchan_handleDeletion w s
      else case cchan_resolveClient w cc of
        Some e \<Rightarrow> cchan_fail w ''ProviderError'' e s
      | None \<Rightarrow> with_finalizer (cchan_kit w) confChanFinalizer
          (with_owner (cchan_kit w) (bw_get_org w) (cch_organization_ref (cchan_spec cc)) (cchan_converge w)) s)"

end
