(* ===== verification/ConfigChannel_Facts.thy ===== *)
theory ConfigChannel_Facts
  imports ConfigChannel_Controller
begin

text \<open>
  What a sync does to the files of a configuration channel, and when the channel is removed.
\<close>

section \<open>The files after the calls\<close>

lemma cchan_kind_simps [simp]:
  "status_of cchan_kind x = cchan_status x" "with_status cchan_kind st x = x\<lparr>cchan_status := st\<rparr>"
  by (simp_all add: cchan_kind_def)

lemma cchan_kit_simps [simp]:
  "kit_ops (cchan_kit w) = cchan_kind" "kit_out (cchan_kit w) = bw_out w" "kit_ssc (cchan_kit w) = bw_ssc w"
  "kit_conditions (cchan_kit w) = cchs_conditions_update"
  by (simp_all add: cchan_kit_def)

text \<open>The files of a channel in Uyuni as a map, and what a call does to it.\<close>

fun file_effect :: "string \<Rightarrow> cchan_call \<times> bool \<Rightarrow> (string \<rightharpoonup> string) \<Rightarrow> (string \<rightharpoonup> string)" where
  "file_effect c (DeleteConfigFile c' p, True) M = (if c' = c then M(p := None) else M)"
| "file_effect c (PutConfigFile c' u, True) M = (if c' = c then M(cfu_path u \<mapsto> cfu_contents u) else M)"
| "file_effect c _ M = M"

definition files_after :: "string \<Rightarrow> (cchan_call \<times> bool) list \<Rightarrow> (string \<rightharpoonup> string) \<Rightarrow> (string \<rightharpoonup> string)" where
  "files_after c l M = fold (file_effect c) l M"

lemma files_after_simps [simp]:
  "files_after c [] M = M" "files_after c (u # l) M = files_after c l (file_effect c u M)"
  "files_after c (l @ l') M = files_after c l' (files_after c l M)"
  by (simp_all add: files_after_def)

text \<open>The abstract specification of a sync: the repository's files, without the files of the last sync it has no more.\<close>

definition synced_files :: "string list \<Rightarrow> (string \<times> string) list \<Rightarrow> (string \<rightharpoonup> string) \<Rightarrow> (string \<rightharpoonup> string)" where
  "synced_files old files M = (\<lambda>p. case map_of files p of Some c \<Rightarrow> Some c | None \<Rightarrow> if p \<in> set old then None else M p)"

section \<open>The two loops\<close>

lemma delete_loop_mem [simp]: "mem (snd (delete_loop w fs files n s)) = mem s"
  by (induction fs arbitrary: n s) (auto simp: attempt_def Let_def split: option.split)

lemma delete_loop_files:
  assumes "\<And>n. bw_out w n = None"
  shows "files_after c (call_log (trace (snd (delete_loop w fs files n s)))) M =
    (if cch_id (cchan_spec (mem s)) = c
     then (\<lambda>p. if p \<in> set fs \<and> p \<notin> fst ` set files then None else files_after c (call_log (trace s)) M p)
     else files_after c (call_log (trace s)) M)"
  by (induction fs arbitrary: n s) (auto simp: attempt_def Let_def assms fun_eq_iff split: option.split)

lemma upload_loop_mem [simp]: "mem (snd (upload_loop w files ps s)) = mem s"
  by (induction ps arbitrary: s) (auto simp: attempt_def Let_def split: option.split)

lemma upload_loop_files:
  assumes "\<And>n. bw_out w n = None" "cch_id (cchan_spec (mem s)) = c"
  shows "fst (upload_loop w files ps s) = None"
    and "files_after c (call_log (trace (snd (upload_loop w files ps s)))) M =
      (\<lambda>p. if p \<in> set ps then Some (content_of files p) else files_after c (call_log (trace s)) M p)"
  using assms(2)
  by (induction ps arbitrary: s) (auto simp: attempt_def Let_def assms(1) file_upsert_def fun_eq_iff)

section \<open>The pass\<close>

definition same_cchan :: "configuration_channel \<Rightarrow> configuration_channel \<Rightarrow> bool" where
  "same_cchan x y = (cchan_spec y = cchan_spec x \<and> obj_namespace y = obj_namespace x \<and> obj_name y = obj_name x)"

text \<open>The pass has not touched a file and still carries what the sync reads, but for the annotations.\<close>

definition files_untouched :: "configuration_channel \<Rightarrow> (string \<rightharpoonup> string) \<Rightarrow> (string \<rightharpoonup> string) \<Rightarrow> cchan_pass \<Rightarrow> bool" where
  "files_untouched x M M' = status_stays cchan_kind (same_cchan x)
     (\<lambda>st. cchs_synced_files st = cchs_synced_files (cchan_status x) \<and>
           cchs_last_sync_time st = cchs_last_sync_time (cchan_status x))
     (\<lambda>l. files_after (cch_id (cchan_spec x)) l M = M')"

lemma files_untouched_rule:
  "pass_rule (cchan_kit w) (files_untouched x M M')
    (\<lambda>f. \<forall>st. cchs_synced_files st = cchs_synced_files (cchan_status x) \<and>
              cchs_last_sync_time st = cchs_last_sync_time (cchan_status x) \<longrightarrow>
            cchs_synced_files (f st) = cchs_synced_files (cchan_status x) \<and>
              cchs_last_sync_time (f st) = cchs_last_sync_time (cchan_status x))
    (\<lambda>u. \<forall>ok M. file_effect (cch_id (cchan_spec x)) (u, ok) M = M)"
  unfolding files_untouched_def cchan_kit_simps(1) [of w, symmetric]
  by (rule status_rule) (simp_all add: steady_def same_cchan_def cchan_status_field.status_field_axioms)

interpretation files: pass_rule "cchan_kit w" "files_untouched x M M'"
    "\<lambda>f. \<forall>st. cchs_synced_files st = cchs_synced_files (cchan_status x) \<and>
              cchs_last_sync_time st = cchs_last_sync_time (cchan_status x) \<longrightarrow>
            cchs_synced_files (f st) = cchs_synced_files (cchan_status x) \<and>
              cchs_last_sync_time (f st) = cchs_last_sync_time (cchan_status x)"
    "\<lambda>u. \<forall>ok M. file_effect (cch_id (cchan_spec x)) (u, ok) M = M"
  for w x M M'
  by (rule files_untouched_rule)

lemma files_untouched_simps:
  assumes "files_untouched x M M' s"
  shows "cchan_spec (mem s) = cchan_spec x" "obj_namespace (mem s) = obj_namespace x" "obj_name (mem s) = obj_name x"
    "cchs_synced_files (cchan_status (mem s)) = cchs_synced_files (cchan_status x)"
    "cchs_last_sync_time (cchan_status (mem s)) = cchs_last_sync_time (cchan_status x)"
    "files_after (cch_id (cchan_spec x)) (call_log (trace s)) M = M'"
  using assms by (simp_all add: files_untouched_def status_stays_def same_cchan_def)

lemma finish_log: "call_log (trace (pass_of (cchan_finish w s))) = call_log (trace s)"
  by (simp add: cchan_finish_def set_cchan_def Let_def)

lemma drop_sync_now_log: "call_log (trace (drop_sync_now w s)) = call_log (trace s)"
  by (simp add: drop_sync_now_def strip_annotation_def)

lemma own_organization_ok:
  assumes "\<And>n. out n = None" "\<forall>e. getOrg (obj_namespace (mem s)) n = Inl e \<longrightarrow> ignore_not_found e = None"
  shows "fst (own_organization out K getOrg n s) = None"
  using assms
  by (auto simp: own_organization_def reconcileOrganizationOwnership_def attempt_def Let_def split: sum.split option.split)

lemma syncRepositoryFiles_cong:
  assumes "cchan_spec y = cchan_spec x" "obj_namespace y = obj_namespace x"
  shows "syncRepositoryFiles w y = syncRepositoryFiles w x"
  unfolding syncRepositoryFiles_def assms ..

lemma cchan_sync_files:
  assumes ok: "\<And>n. bw_out w n = None" and "files_untouched x M M s"
    and "syncRepositoryFiles w x = Inr (files, hash)" "distinct (map fst files)"
  shows "files_after (cch_id (cchan_spec x)) (call_log (trace (pass_of (cchan_sync w (cchan_finish w) s)))) M =
    synced_files (cchs_synced_files (cchan_status x)) files M"
proof -
  note x = files_untouched_simps [OF assms(2)]
  let ?c = "cch_id (cchan_spec x)" and ?old = "cchs_synced_files (cchan_status x)"
  have read: "syncRepositoryFiles w (mem s) = Inr (files, hash)"
    using assms(3) syncRepositoryFiles_cong [OF x(1,2)] by simp
  obtain n s1 where d: "delete_loop w ?old files 0 s = (n, s1)" by fastforce
  then have s1: "cch_id (cchan_spec (mem s1)) = ?c"
    "files_after ?c (call_log (trace s1)) M = (\<lambda>p. if p \<in> set ?old \<and> p \<notin> fst ` set files then None else M p)"
    using delete_loop_mem [of w ?old files 0 s] delete_loop_files [OF ok, of ?c ?old files 0 s M]
    unfolding x(1,6) by (simp_all add: x(1))
  obtain e s2 where u: "(if files = [] then (None, s1) else uploadFilesToUyuni w files s1) = (e, s2)" by fastforce
  have keys: "set (sortedMapKeys files) = fst ` set files" by (simp add: sortedMapKeys_sort)
  have e: "e = None"
    using u upload_loop_files(1) [OF ok s1(1), of files "sortedMapKeys files"]
    by (auto simp: uploadFilesToUyuni_def split: if_splits)
  have up: "files_after ?c (call_log (trace s2)) M =
      (\<lambda>p. if p \<in> fst ` set files then Some (content_of files p) else files_after ?c (call_log (trace s1)) M p)"
  proof (cases "files = []")
    case True
    then show ?thesis using u by simp
  next
    case False
    then show ?thesis
      using u upload_loop_files(2) [OF ok s1(1), of files "sortedMapKeys files" M] by (simp add: uploadFilesToUyuni_def keys)
  qed
  have "map_of files p = (if p \<in> fst ` set files then Some (content_of files p) else None)" for p
    by (auto simp: content_of_def map_of_eq_None_iff split: option.split)
  then have target: "files_after ?c (call_log (trace s2)) M = synced_files ?old files M"
    unfolding up s1(2) synced_files_def by (simp add: fun_eq_iff)
  have "call_log (trace (pass_of (cchan_sync w (cchan_finish w) s))) = call_log (trace s2)"
    using read d u e x ok
    by (simp add: cchan_sync_def save_then_def write_status_def attempt_def record_sync_def set_cchan_def
        finish_log drop_sync_now_log Let_def split: option.split)
  then show ?thesis using target by simp
qed

text \<open>A sync is due by the schedule or because there was none; the annotation can ask for one at any time.\<close>

definition sync_due :: "cchan_world \<Rightarrow> configuration_channel \<Rightarrow> bool" where
  "sync_due w cc =
     (wants_sync (cchan_spec cc) \<and> cch_url (cchan_spec cc) \<noteq> [] \<and>
      (case cchs_last_sync_time (cchan_status cc) of
         None \<Rightarrow> True
       | Some t \<Rightarrow> cch_sync_schedule (cchan_spec cc) \<noteq> [] \<and>
           go_sub (cc_now w) t \<ge> parseSyncInterval (cch_sync_schedule (cchan_spec cc))))"



definition sample_cchan :: "string \<Rightarrow> bool \<Rightarrow> configuration_channel" where
  "sample_cchan n deleting = k8s_object.extend (sample_meta n [confChanFinalizer] deleting)
     \<lparr>cchan_spec = \<lparr>cch_id = ''web'', cch_name = ''Web'', cch_description = [], cch_type = ''normal'', cch_cluster = [],
        cch_organization_ref = [], cch_url = ''https://git/web.git'', cch_repository_type = ''git'',
        cch_auto_sync = Some True, cch_repository_ref = [], cch_repository_path = [], cch_auth = None,
        cch_sync_schedule = ''every 1h''\<rparr>,
      cchan_status = \<lparr>cchs_uyuni_id = 0, cchs_observed_generation = 0, cchs_conditions = [],
        cchs_last_sync_time = Some 0, cchs_synced_file_count = 1, cchs_sync_status = [],
        cchs_repository_hash = [], cchs_synced_files = [''/etc/old'']\<rparr>\<rparr>"

definition cchan_demo_world :: cchan_world where
  "cchan_demo_world = (let absent = GoErr K8sNotFound [] in
     \<lparr>bw_ssc = replace_cond, bw_client = None, bw_get_org = \<lambda>_ _. Inl absent, bw_out = \<lambda>_. None,
      cc_provider = \<lambda>_. None, cc_now = 2 * one_hour, cc_channels = \<lambda>_. Inr [],
      cc_git = \<lparr>gt_secret = \<lambda>_ _. Inl absent, gt_with_user = \<lambda>url _ _. Inr url, gt_hash = \<lambda>_ _. Inr [],
        gt_clone = \<lambda>_ _ _. Inr ([(''/etc/new'', ''x'')], ''h'')\<rparr>,
      cu_channel = \<lambda>_. Inr \<lparr>ccd_id = 7, ccd_label = ''web'', ccd_name = ''Web'', ccd_description = [],
        ccd_type = ''normal''\<rparr>, cu_created_id = 7\<rparr>)"

lemmas cchan_sample_simps = sample_cchan_def cchan_demo_world_def sample_simps


section \<open>The removal\<close>

fun cchan_removal :: "cchan_call \<Rightarrow> bool" where
  "cchan_removal (DeleteConfigChannel c) = True"
| "cchan_removal u = False"

interpretation cchan_removals: pass_rule "cchan_kit w" "only_calls (\<lambda>u. \<not> cchan_removal u)" "\<lambda>_. True"
    "\<lambda>u. \<not> cchan_removal u" for w
  by (rule only_calls_rule)

lemma cchan_call_keeps:
  "attempt out (Call u) s = (r, s1) \<Longrightarrow> \<not> cchan_removal u \<Longrightarrow> only_calls (\<lambda>u. \<not> cchan_removal u) s \<Longrightarrow>
   only_calls (\<lambda>u. \<not> cchan_removal u) s1"
  using only_calls_simps(6) [of "\<lambda>u. \<not> cchan_removal u" out u s] by simp

lemma delete_loop_keeps_channel:
  "only_calls (\<lambda>u. \<not> cchan_removal u) s \<Longrightarrow> only_calls (\<lambda>u. \<not> cchan_removal u) (snd (delete_loop w fs files n s))"
  by (induction fs arbitrary: n s) (auto simp: cchan_call_keeps split: option.split prod.split)

lemma upload_loop_keeps_channel:
  "only_calls (\<lambda>u. \<not> cchan_removal u) s \<Longrightarrow> only_calls (\<lambda>u. \<not> cchan_removal u) (snd (upload_loop w files ps s))"
  by (induction ps arbitrary: s) (auto simp: cchan_call_keeps split: option.split prod.split)

lemma cchan_finish_keeps:
  "only_calls (\<lambda>u. \<not> cchan_removal u) s \<Longrightarrow> only_calls (\<lambda>u. \<not> cchan_removal u) (pass_of (cchan_finish w s))"
  by (simp add: only_calls_def finish_log)

lemma cchan_files_keeps:
  assumes "only_calls (\<lambda>u. \<not> cchan_removal u) s"
  shows "only_calls (\<lambda>u. \<not> cchan_removal u) (pass_of (cchan_files w (cchan_finish w) s))"
proof -
  have failed: "only_calls (\<lambda>u. \<not> cchan_removal u) (pass_of (sync_failed w r e s'))"
    if "only_calls (\<lambda>u. \<not> cchan_removal u) s'" for r e s'
    using that by (simp add: sync_failed_def set_cchan_def cchan_removals.save_ignoring_I cchan_removals.become_I)
  have saved: "only_calls (\<lambda>u. \<not> cchan_removal u)
      (pass_of (save_then (cchan_kit w) (\<lambda>s3. cchan_finish w (drop_sync_now w s3)) (record_sync w files hash n s')))"
    if "only_calls (\<lambda>u. \<not> cchan_removal u) s'" for files hash n s'
    using that
    by (simp add: only_calls_def save_then_def write_status_def attempt_def record_sync_def set_cchan_def finish_log
        drop_sync_now_log Let_def split: option.split)
  have "only_calls (\<lambda>u. \<not> cchan_removal u) (pass_of (cchan_sync w (cchan_finish w) s))"
  proof (cases "syncRepositoryFiles w (mem s)")
    case (Inl e)
    then show ?thesis using failed assms by (simp add: cchan_sync_def)
  next
    case (Inr r)
    obtain files hash where r: "r = (files, hash)" by fastforce
    obtain n s1 where d: "delete_loop w (cchs_synced_files (cchan_status (mem s))) files 0 s = (n, s1)" by fastforce
    obtain e s2 where u: "(if files = [] then (None, s1) else uploadFilesToUyuni w files s1) = (e, s2)" by fastforce
    have s1: "only_calls (\<lambda>u. \<not> cchan_removal u) s1"
      using delete_loop_keeps_channel [OF assms, of w "cchs_synced_files (cchan_status (mem s))" files 0] d by simp
    have "only_calls (\<lambda>u. \<not> cchan_removal u) s2"
      using u s1 upload_loop_keeps_channel [OF s1, of w files "sortedMapKeys files"]
      by (auto simp: uploadFilesToUyuni_def split: if_splits)
    then show ?thesis using Inr r d u failed saved by (simp add: cchan_sync_def split: option.split)
  qed
  then show ?thesis
    using assms
    by (simp add: cchan_files_def Let_def cchan_finish_keeps cchan_removals.refuse_I set_cchan_def)
qed

lemma cchan_converge_keeps:
  assumes s: "only_calls (\<lambda>u. \<not> cchan_removal u) s"
  shows "only_calls (\<lambda>u. \<not> cchan_removal u) (pass_of (cchan_converge w s))"
proof -
  have "only_calls (\<lambda>u. \<not> cchan_removal u) (cchan_mark_drift w c s')"
    if "only_calls (\<lambda>u. \<not> cchan_removal u) s'" for c s'
    using that by (simp add: cchan_mark_drift_def set_cchan_def Let_def)
  then show ?thesis using s cchan_files_keeps
    by (auto simp: cchan_converge_def cchan_adopt_def cchan_create_def cchan_fail_def set_cchan_def Let_def
        intro!: cchan_removals.call_if_I [unfolded cchan_kit_simps] cchan_removals.call_or_I [unfolded cchan_kit_simps]
          cchan_removals.fail_I cchan_removals.return_I cchan_removals.refuse_I
        split: sum.split option.split)
qed

lemma cchan_removal_iff:
  "DeleteConfigChannel l \<in> fst ` set (call_log (trace (pass_of (cchan_Reconcile w cc)))) \<longleftrightarrow>
     obj_deleting cc \<and> containsFinalizer cc confChanFinalizer \<and> \<not> has_annotation cc AnnForceDelete \<and>
     cchan_resolveClient w cc = None \<and> l = cch_id (cchan_spec cc)"
proof (cases "obj_deleting cc")
  case True
  then show ?thesis
    by (auto simp: cchan_Reconcile_def cchan_handleDeletion_def call_log_of_delete_remote Let_def)
next
  case False
  have "only_calls (\<lambda>u. \<not> cchan_removal u) (pass_of (cchan_Reconcile w cc))"
    using False
    by (auto simp: cchan_Reconcile_def Let_def cchan_fail_def cchan_converge_keeps split: option.split
        intro!: cchan_removals.fail_I cchan_removals.with_finalizer_I cchan_removals.with_owner_I)
  then show ?thesis using False only_calls_absent [of _ _ "DeleteConfigChannel l"] by fastforce
qed

end
