(* ===== verification/SoftwareChannel_Controller.thy ===== *)
theory SoftwareChannel_Controller
  imports ConfigChannel_Controller Rpm_Header
begin

text \<open>
  The SoftwareChannel reconciler (\<^verbatim>\<open>softwarechannel_controller.go\<close>): a software channel in Uyuni with its
  repositories, its sync schedule, and the packages pushed from a git repository.
\<close>

section \<open>World and calls\<close>

definition sch_kind :: "(software_channel, software_channel_status) kind_ops" where
  "sch_kind = \<lparr>status_of = sc_status, with_status = \<lambda>st o'. o'\<lparr>sc_status := st\<rparr>\<rparr>"

interpretation sch_status_field: status_field sch_kind
  by unfold_locales (simp_all add: sch_kind_def k8s_object.defs)

text \<open>\<open>hu_created\<close> is what the second \<^verbatim>\<open>GetChannel\<close> of a pass reads, after the channel was created.\<close>

record channel_world = base_world +
  hw_channels :: "software_channel finder"
  hw_get_repo :: "repository k8s_get"
  hw_git :: git_reader
  hw_now :: int
  hu_channel :: "string \<Rightarrow> go_error + channel_details"
  hu_created :: "go_error + channel_details"
  hu_repos :: "string \<Rightarrow> go_error + string list"
  hu_schedule :: "string \<Rightarrow> go_error + string"
  hu_packages :: "string \<Rightarrow> go_error + package_nevra list"
  hu_package_count :: "string \<Rightarrow> go_error + int"

datatype channel_call =
    CreateChannel channel_details
  | SetChannelDetails int channel_details
  | AssociateRepo string string
  | DisassociateRepo string string
  | SetRepoSyncSchedule string string
  | SyncChannelNow string
  | PushPackage string package_nevra string
  | DeleteChannel string

type_synonym channel_pass = "(software_channel, channel_call) pass"

type_synonym channel_outcome = "(software_channel, channel_call) outcome"

definition sch_kit :: "channel_world \<Rightarrow> (software_channel, software_channel_status) kit" where
  "sch_kit w = kit_of sch_kind scs_conditions_update w"

definition sch_fail :: "channel_world \<Rightarrow> string \<Rightarrow> go_error \<Rightarrow> channel_pass \<Rightarrow> channel_outcome" where
  "sch_fail w = fail_with (sch_kit w)"

definition set_sch ::
  "channel_world \<Rightarrow> (software_channel_status \<Rightarrow> software_channel_status) \<Rightarrow> channel_pass \<Rightarrow> channel_pass" where
  "set_sch w = set_st (sch_kit w)"

section \<open>References\<close>

definition resolveParentChannel :: "channel_world \<Rightarrow> software_channel \<Rightarrow> string resolve" where
  "resolveParentChannel w sc =
     (case sc_parent_channel_ref (sc_spec sc) of
        None \<Rightarrow> Resolved []
      | Some ref \<Rightarrow>
          (case findSoftwareChannel (hw_channels w) (obj_namespace sc) (lor_name ref) of
             Inl e \<Rightarrow> Broken e
           | Inr None \<Rightarrow> resolve.Wait (''parent SoftwareChannel '' @ go_quote (lor_name ref) @ '' not found'')
           | Inr (Some parent) \<Rightarrow>
               if scs_uyuni_id (sc_status parent) = 0
               then resolve.Wait (''parent SoftwareChannel '' @ go_quote (lor_name ref) @ '' not yet realized in Uyuni'')
               else Resolved (sc_label (sc_spec parent))))"

fun repo_ref_loop :: "channel_world \<Rightarrow> string \<Rightarrow> local_object_ref list \<Rightarrow> string list resolve" where
  "repo_ref_loop w ns [] = Resolved []"
| "repo_ref_loop w ns (ref # refs) =
     get_or (''Repository '' @ go_quote (lor_name ref) @ '' not found'')
       (\<lambda>repo. if rps_label (repo_status repo) = []
         then resolve.Wait (''Repository '' @ go_quote (lor_name ref) @ '' not yet realized in Uyuni'')
         else then_resolve (repo_ref_loop w ns refs) (\<lambda>ls. Resolved (rps_label (repo_status repo) # ls)))
       (hw_get_repo w ns (lor_name ref))"

definition resolveRepos :: "channel_world \<Rightarrow> software_channel \<Rightarrow> string list resolve" where
  "resolveRepos w sc = repo_ref_loop w (obj_namespace sc) (sc_repository_refs (sc_spec sc))"

section \<open>The channel in Uyuni\<close>

definition desired_arch :: "software_channel_spec \<Rightarrow> string" where
  "desired_arch sp = or_else (sc_arch sp) ''channel-x86_64''"

definition new_channel :: "software_channel_spec \<Rightarrow> string \<Rightarrow> channel_details" where
  "new_channel sp parentLabel = \<lparr>chd_id = 0, chd_label = sc_label sp, chd_name = sc_name sp,
     chd_summary = sc_summary sp, chd_description = sc_description sp, chd_arch_name = desired_arch sp,
     chd_parent_channel_label = parentLabel, chd_checksum_label = or_else (sc_checksum sp) ''sha256'',
     chd_gpg_key_url = gpg_url (sc_gpg_key sp), chd_gpg_key_id = gpg_key_id (sc_gpg_key sp),
     chd_gpg_key_fp = gpg_fingerprint (sc_gpg_key sp), chd_gpg_check = gpg_check (sc_gpg_key sp), chd_sync_status = []\<rparr>"

definition sch_rival :: "software_channel \<Rightarrow> software_channel list \<Rightarrow> software_channel option" where
  "sch_rival sc others =
     find (\<lambda>o'. obj_name o' \<noteq> obj_name sc \<and> sc_label (sc_spec o') = sc_label (sc_spec sc) \<and>
                scs_uyuni_id (sc_status o') \<noteq> 0) others"

definition sch_create ::
  "channel_world \<Rightarrow> string \<Rightarrow> (bool \<Rightarrow> channel_details \<Rightarrow> channel_pass \<Rightarrow> channel_outcome) \<Rightarrow> channel_pass \<Rightarrow>
   channel_outcome" where
  "sch_create w parentLabel next s =
     (let sp = sc_spec (mem s) in
      call_or (bw_out w) (CreateChannel (new_channel sp parentLabel))
        (\<lambda>e s1. if says_duplicate e
           then conflict (sch_kit w) ''ChannelLabelConflict'' (''a software channel with label '' @ go_quote (sc_label sp)
             @ '' already exists in Uyuni; rename this channel or delete the existing one first'') s1
           else sch_fail w ''CreateFailed'' e s1)
        (\<lambda>s1. case hu_created w of
             Inl e \<Rightarrow> sch_fail w ''GetAfterCreate'' e s1
           | Inr current \<Rightarrow> next True current s1) s)"

definition sch_adopt ::
  "channel_world \<Rightarrow> channel_details \<Rightarrow> (bool \<Rightarrow> channel_details \<Rightarrow> channel_pass \<Rightarrow> channel_outcome) \<Rightarrow>
   channel_pass \<Rightarrow> channel_outcome" where
  "sch_adopt w current next s =
     (let sp = sc_spec (mem s) in
      case fd_list (hw_channels w) (obj_namespace (mem s)) of
        Inl e \<Rightarrow> return_error e s
      | Inr others \<Rightarrow>
          (case sch_rival (mem s) others of
             Some o' \<Rightarrow> conflict (sch_kit w) ''ChannelLabelConflict''
               (''software channel '' @ go_quote (sc_label sp) @ '' is already managed by SoftwareChannel CR ''
                @ go_quote (obj_name o') @ ''; rename this channel or delete the existing one first'') s
           | None \<Rightarrow> next False current s))"

definition sch_realize ::
  "channel_world \<Rightarrow> string \<Rightarrow> (bool \<Rightarrow> channel_details \<Rightarrow> channel_pass \<Rightarrow> channel_outcome) \<Rightarrow> channel_pass \<Rightarrow>
   channel_outcome" where
  "sch_realize w parentLabel next s =
     (case hu_channel w (sc_label (sc_spec (mem s))) of
        Inr current \<Rightarrow> sch_adopt w current next s
      | Inl e \<Rightarrow> if is_uyuni_not_found e then sch_create w parentLabel next s else return_error e s)"

definition channelNeedsUpdate :: "channel_details \<Rightarrow> software_channel \<Rightarrow> bool" where
  "channelNeedsUpdate current sc =
     (let sp = sc_spec sc; g = sc_gpg_key sp in
      chd_name current \<noteq> sc_name sp \<or> chd_summary current \<noteq> sc_summary sp \<or>
      chd_description current \<noteq> sc_description sp \<or> chd_gpg_key_url current \<noteq> gpg_url g \<or>
      chd_gpg_key_id current \<noteq> gpg_key_id g \<or> chd_gpg_key_fp current \<noteq> gpg_fingerprint g \<or>
      chd_gpg_check current \<noteq> gpg_check g \<or> chd_checksum_label current \<noteq> sc_checksum sp)"

definition mutable_details :: "software_channel_spec \<Rightarrow> channel_details" where
  "mutable_details sp = \<lparr>chd_id = 0, chd_label = [], chd_name = sc_name sp, chd_summary = sc_summary sp,
     chd_description = sc_description sp, chd_arch_name = [], chd_parent_channel_label = [],
     chd_checksum_label = sc_checksum sp, chd_gpg_key_url = gpg_url (sc_gpg_key sp),
     chd_gpg_key_id = gpg_key_id (sc_gpg_key sp), chd_gpg_key_fp = gpg_fingerprint (sc_gpg_key sp),
     chd_gpg_check = gpg_check (sc_gpg_key sp), chd_sync_status = []\<rparr>"

definition sch_drift :: "software_channel_spec \<Rightarrow> string \<Rightarrow> channel_details \<Rightarrow> string option" where
  "sch_drift sp parentLabel current =
     (if trim_prefix (chd_arch_name current) ''channel-'' \<noteq> trim_prefix (desired_arch sp) ''channel-''
      then Some (''arch in Uyuni ('' @ chd_arch_name current @ '') differs from spec ('' @ desired_arch sp
        @ ''); recreate to reconcile'')
      else if chd_parent_channel_label current \<noteq> parentLabel
      then Some (''parent channel in Uyuni ('' @ go_quote (chd_parent_channel_label current)
        @ '') differs from spec ('' @ go_quote parentLabel @ ''); recreate to reconcile'')
      else None)"

definition sch_mark_drift :: "channel_world \<Rightarrow> string \<Rightarrow> channel_details \<Rightarrow> channel_pass \<Rightarrow> channel_pass" where
  "sch_mark_drift w parentLabel current s =
     set_sch w (scs_conditions_update (\<lambda>cs.
       case sch_drift (sc_spec (mem s)) parentLabel current of
         Some m \<Rightarrow> setDrift (bw_ssc w) cs (obj_generation (mem s)) True ''ImmutableFieldDrift'' m
       | None \<Rightarrow> setDrift (bw_ssc w) cs (obj_generation (mem s)) False ''InSync'' [])) s"

section \<open>Repositories and syncs\<close>

text \<open>A read for which an object Uyuni does not know gives the zero value.\<close>

definition or_zero :: "'a \<Rightarrow> go_error + 'a \<Rightarrow> go_error + 'a" where
  "or_zero z r = (case r of Inl e \<Rightarrow> if is_uyuni_not_found e then Inr z else Inl e | Inr x \<Rightarrow> Inr x)"

definition sch_sync_repos ::
  "channel_world \<Rightarrow> string list \<Rightarrow> (channel_pass \<Rightarrow> channel_outcome) \<Rightarrow> channel_pass \<Rightarrow> channel_outcome" where
  "sch_sync_repos w desired next s =
     (let label = sc_label (sc_spec (mem s)) in
      case or_zero [] (hu_repos w label) of
        Inl e \<Rightarrow> return_error e s
      | Inr currentRepos \<Rightarrow>
          (case diffStringSets currentRepos desired of
             (addRepos, rmRepos) \<Rightarrow>
               call_each (bw_out w) return_error (map (AssociateRepo label) addRepos)
                 (call_each (bw_out w) return_error (map (DisassociateRepo label) rmRepos) next) s))"

definition sch_schedule ::
  "channel_world \<Rightarrow> (channel_pass \<Rightarrow> channel_outcome) \<Rightarrow> channel_pass \<Rightarrow> channel_outcome" where
  "sch_schedule w next s =
     (let sp = sc_spec (mem s); cron = ss_cron (sc_sync sp) in
      if cron = [] then next s
      else case or_zero [] (hu_schedule w (sc_label sp)) of
        Inl e \<Rightarrow> return_error e s
      | Inr currentCron \<Rightarrow>
          call_if (currentCron \<noteq> cron) (bw_out w) return_error (SetRepoSyncSchedule (sc_label sp) cron) next s)"

definition set_sync_time :: "channel_world \<Rightarrow> channel_pass \<Rightarrow> channel_pass" where
  "set_sync_time w = set_sch w (\<lambda>st. st\<lparr>scs_last_sync_time := Some (hw_now w)\<rparr>)"

definition sync_if :: "channel_world \<Rightarrow> bool \<Rightarrow> (channel_pass \<Rightarrow> channel_outcome) \<Rightarrow> channel_pass \<Rightarrow> channel_outcome" where
  "sync_if w c next s =
     (if c then call_or (bw_out w) (SyncChannelNow (sc_label (sc_spec (mem s)))) return_error
        (\<lambda>s1. next (set_sync_time w s1)) s
      else next s)"

text \<open>The fields of the stored status replace those of this pass, the empty ones excepted.\<close>

definition keep_channel :: "software_channel_status \<Rightarrow> software_channel_status \<Rightarrow> software_channel_status" where
  "keep_channel a b =
     \<lparr>scs_uyuni_id = keep_int (scs_uyuni_id a) (scs_uyuni_id b),
      scs_label = keep_list (scs_label a) (scs_label b),
      scs_associated_repos = keep_list (scs_associated_repos a) (scs_associated_repos b),
      scs_last_sync_time = keep_option (scs_last_sync_time a) (scs_last_sync_time b),
      scs_package_count = keep_int (scs_package_count a) (scs_package_count b),
      scs_package_source_revision = keep_list (scs_package_source_revision a) (scs_package_source_revision b),
      scs_observed_generation = keep_int (scs_observed_generation a) (scs_observed_generation b),
      scs_conditions = keep_list (scs_conditions a) (scs_conditions b)\<rparr>"

definition drop_sync_annotation ::
  "channel_world \<Rightarrow> (channel_pass \<Rightarrow> channel_outcome) \<Rightarrow> channel_pass \<Rightarrow> channel_outcome" where
  "drop_sync_annotation w next s =
     (case refresh (sch_kit w) keep_channel (strip_annotation AnnSyncNow s) of
        (Some e, s1) \<Rightarrow> return_error e s1
      | (None, s1) \<Rightarrow> next s1)"

definition sch_sync_now ::
  "channel_world \<Rightarrow> channel_details \<Rightarrow> (channel_pass \<Rightarrow> channel_outcome) \<Rightarrow> channel_pass \<Rightarrow> channel_outcome" where
  "sch_sync_now w current next s =
     (if has_annotation (mem s) AnnSyncNow
      then sync_if w (chd_sync_status current \<noteq> ''R'') (drop_sync_annotation w next) s
      else next s)"

section \<open>Packages from git\<close>

definition source_url :: "channel_world \<Rightarrow> string \<Rightarrow> package_source \<Rightarrow> go_error + string" where
  "source_url w ns src = buildAuthenticatedURL (hw_git w) ns (ps_url src) (ps_auth src)"

text \<open>\<^verbatim>\<open>p.Name+"-"+p.Version+"-"+p.Release+"."+p.Arch\<close>.\<close>

definition nvra :: "string \<Rightarrow> string \<Rightarrow> string \<Rightarrow> string \<Rightarrow> string" where
  "nvra n v r a = n @ ''-'' @ v @ ''-'' @ r @ ''.'' @ a"

definition existing_nvras :: "package_nevra list \<Rightarrow> string list" where
  "existing_nvras = map (\<lambda>p. nvra (pn_name p) (pn_version p) (pn_release p) (pn_arch p))"

definition bytes_of :: "string \<Rightarrow> bytes" where
  "bytes_of = map of_char"

definition header_nevra :: "rpm_header \<Rightarrow> package_nevra" where
  "header_nevra h = \<lparr>pn_name = hdr_name h, pn_epoch = hdr_epoch h, pn_version = hdr_version h,
     pn_release = hdr_release h, pn_arch = hdr_arch h\<rparr>"

definition skips :: "string list \<Rightarrow> rpm_header \<Rightarrow> bool" where
  "skips have h = (hdr_source h \<or> nvra (hdr_name h) (hdr_version h) (hdr_release h) (hdr_arch h) \<in> set have)"

text \<open>
  The upload loop.  A panic of the header reader would end the pass as controller-runtime ends a
  pass that panics, with an error; \<open>Rpm_Header\<close> shows that there is none.
\<close>

fun push_loop ::
  "channel_world \<Rightarrow> (string \<times> string) list \<Rightarrow> string list \<Rightarrow> string list \<Rightarrow> channel_pass \<Rightarrow>
   go_error option \<times> channel_pass" where
  "push_loop w files have [] s = (None, s)"
| "push_loop w files have (name # names) s =
     (if \<not> has_suffix name ''.rpm'' then push_loop w files have names s
      else case ReadHeader (bytes_of (content_of files name)) of
        Panic \<Rightarrow> (Some (errorf ''panic''), s)
      | Fail e \<Rightarrow> (Some (errorf (name @ '': '' @ e)), s)
      | Done h \<Rightarrow>
          if skips have h then push_loop w files have names s
          else case attempt (bw_out w)
              (Call (PushPackage (sc_label (sc_spec (mem s))) (header_nevra h) (content_of files name))) s of
            (Some e, s1) \<Rightarrow> (Some (wrap_err (''pushing '' @ name @ '': '') e), s1)
          | (None, s1) \<Rightarrow> push_loop w files have names s1)"

text \<open>What the loop works on: \<open>None\<close> when the revision was pushed before.\<close>

definition read_source ::
  "channel_world \<Rightarrow> software_channel \<Rightarrow> package_source \<Rightarrow>
   go_error + (string \<times> (string \<times> string) list \<times> string list) option" where
  "read_source w sc src =
     (let g = hw_git w; ref = or_else (ps_ref src) ''main'' in
      case source_url w (obj_namespace sc) src of
        Inl e \<Rightarrow> Inl e
      | Inr repoURL \<Rightarrow>
          (case gt_hash g repoURL ref of
             Inl e \<Rightarrow> Inl e
           | Inr revision \<Rightarrow>
               if revision = scs_package_source_revision (sc_status sc) then Inr None
               else case gt_clone g repoURL ref (or_else (ps_path src) ''.'') of
                 Inl e \<Rightarrow> Inl e
               | Inr (files, _) \<Rightarrow>
                   (case hu_packages w (sc_label (sc_spec sc)) of
                      Inl e \<Rightarrow> Inl e
                    | Inr existing \<Rightarrow> Inr (Some (revision, files, existing_nvras existing)))))"

definition syncPackageSource ::
  "channel_world \<Rightarrow> package_source \<Rightarrow> channel_pass \<Rightarrow> go_error option \<times> channel_pass" where
  "syncPackageSource w src s =
     (case read_source w (mem s) src of
        Inl e \<Rightarrow> (Some e, s)
      | Inr None \<Rightarrow> (None, s)
      | Inr (Some (revision, files, have)) \<Rightarrow>
          (case push_loop w files have (sortedMapKeys files) s of
             (Some e, s1) \<Rightarrow> (Some e, s1)
           | (None, s1) \<Rightarrow> (None, set_sch w (\<lambda>st. st\<lparr>scs_package_source_revision := revision\<rparr>) s1)))"

definition sch_mark_packages :: "channel_world \<Rightarrow> bool \<Rightarrow> string \<Rightarrow> string \<Rightarrow> channel_pass \<Rightarrow> channel_pass" where
  "sch_mark_packages w synced reason msg s =
     set_sch w (scs_conditions_update (\<lambda>cs. setPackagesSynced (bw_ssc w) cs (obj_generation (mem s)) synced reason msg)) s"

definition sch_packages ::
  "channel_world \<Rightarrow> (channel_pass \<Rightarrow> channel_outcome) \<Rightarrow> channel_pass \<Rightarrow> channel_outcome" where
  "sch_packages w next s =
     (case sc_package_source (sc_spec (mem s)) of
        None \<Rightarrow> next s
      | Some src \<Rightarrow>
          (case syncPackageSource w src s of
             (Some e, s1) \<Rightarrow> save_ignoring (sch_kit w) (result_after (5 * minute))
               (sch_mark_packages w False ''PackageSourceFailed'' (err_text e) s1)
           | (None, s1) \<Rightarrow> next s1))"

section \<open>The pass\<close>

definition packages_verdict ::
  "software_channel_spec \<Rightarrow> string list \<Rightarrow> channel_details \<Rightarrow> int \<Rightarrow> bool \<times> string \<times> string" where
  "packages_verdict sp desired current n =
     (if desired = [] \<and> sc_package_source sp = None then (True, ''NoRepositories'', [])
      else if chd_sync_status current = ''R'' then (False, ''SyncInProgress'', [])
      else if n > 0 then (True, ''Synced'', [])
      else (False, ''NoPackages'', ''channel has associated repositories but zero packages after sync; check that ''
        @ ''the repository URLs are reachable and contain valid metadata''))"

definition sch_finish :: "channel_world \<Rightarrow> string list \<Rightarrow> channel_details \<Rightarrow> channel_pass \<Rightarrow> channel_outcome" where
  "sch_finish w desired current s =
     (case hu_package_count w (sc_label (sc_spec (mem s))) of
        Inl e \<Rightarrow> return_error e s
      | Inr n \<Rightarrow>
          (case packages_verdict (sc_spec (mem s)) desired current n of
             (synced, reason, msg) \<Rightarrow>
               save_and (sch_kit w) (result_after (10 * minute))
                 (become (sch_kit w) True ''Reconciled'' []
                   (set_sch w (\<lambda>st. st\<lparr>scs_observed_generation := obj_generation (mem s)\<rparr>)
                     (sch_mark_packages w synced reason msg
                       (set_sch w (\<lambda>st. st\<lparr>scs_package_count := n\<rparr>) s))))))"

definition sch_repos ::
  "channel_world \<Rightarrow> bool \<Rightarrow> channel_details \<Rightarrow> string list \<Rightarrow> channel_pass \<Rightarrow> channel_outcome" where
  "sch_repos w justCreated current desired =
     sch_sync_repos w desired (sch_schedule w (sch_sync_now w current (\<lambda>s.
       sync_if w (justCreated \<and> ss_sync_on_create (sc_sync (sc_spec (mem s))) \<and> chd_sync_status current \<noteq> ''R'')
         (\<lambda>s1. sch_packages w (sch_finish w desired current)
            (set_sch w (\<lambda>st. st\<lparr>scs_associated_repos := desired\<rparr>) s1)) s)))"

definition sch_update ::
  "channel_world \<Rightarrow> string \<Rightarrow> bool \<Rightarrow> channel_details \<Rightarrow> channel_pass \<Rightarrow> channel_outcome" where
  "sch_update w parentLabel justCreated current s =
     (let s0 = set_sch w (\<lambda>st. st\<lparr>scs_uyuni_id := chd_id current, scs_label := chd_label current\<rparr>) s in
      call_if (channelNeedsUpdate current (mem s0)) (bw_out w) return_error
        (SetChannelDetails (chd_id current) (mutable_details (sc_spec (mem s0))))
        (\<lambda>s1. with_resolved (sch_kit w) ''ResolveReposFailed'' ''WaitingForRepository'' (resolveRepos w (mem s1))
           (sch_repos w justCreated current) (sch_mark_drift w parentLabel current s1)) s0)"

definition sch_converge :: "channel_world \<Rightarrow> channel_pass \<Rightarrow> channel_outcome" where
  "sch_converge w s =
     with_resolved (sch_kit w) ''ResolveParentFailed'' ''WaitingForParentChannel'' (resolveParentChannel w (mem s))
       (\<lambda>parentLabel. sch_realize w parentLabel (sch_update w parentLabel)) s"

definition sch_handleDeletion :: "channel_world \<Rightarrow> channel_pass \<Rightarrow> channel_outcome" where
  "sch_handleDeletion w s =
     delete_remote (sch_kit w) (bw_client w) scFinalizer (scs_uyuni_id (sc_status (mem s)) \<noteq> 0)
       (DeleteChannel (sc_label (sc_spec (mem s)))) s"

definition sch_Reconcile :: "channel_world \<Rightarrow> software_channel \<Rightarrow> channel_outcome" where
  "sch_Reconcile w sc =
     (let s = start_pass sc in
      if obj_deleting sc then sch_handleDeletion w s
      else begin_pass (sch_kit w) w scFinalizer (orgRef (sc_organization_ref (sc_spec sc))) (sch_converge w) s)"

definition channelsForRepository :: "(go_error + software_channel list) \<Rightarrow> string \<Rightarrow> requests" where
  "channelsForRepository l n =
     (case l of
        Inl _ \<Rightarrow> []
      | Inr scs \<Rightarrow> map (\<lambda>sc. (obj_namespace sc, obj_name sc))
          (filter (\<lambda>sc. refs_to n (sc_repository_refs (sc_spec sc))) scs))"

end
