(* ===== verification/SoftwareChannel_Facts.thy ===== *)
theory SoftwareChannel_Facts
  imports SoftwareChannel_Controller
begin

text \<open>
  Facts about the software channel reconciler: when it asks Uyuni for a sync and what it records of
  it, what a recorded revision of the package source means, and when a channel is removed.
\<close>

section \<open>The calls of a pass\<close>

lemma sch_kind_simps [simp]:
  "status_of sch_kind x = sc_status x" "with_status sch_kind st x = x\<lparr>sc_status := st\<rparr>"
  by (simp_all add: sch_kind_def)

lemma sch_kit_simps [simp]:
  "kit_ops (sch_kit w) = sch_kind" "kit_out (sch_kit w) = bw_out w" "kit_ssc (sch_kit w) = bw_ssc w"
  "kit_conditions (sch_kit w) = scs_conditions_update"
  by (simp_all add: sch_kit_def)

text \<open>A run of calls keeps what every single call keeps.\<close>

lemma call_each_rule:
  assumes "\<And>s u. P s \<Longrightarrow> u \<in> set us \<Longrightarrow> P (try_call out u s)" "P s"
    and "\<And>e s. P s \<Longrightarrow> R (h e s)" "\<And>s. P s \<Longrightarrow> R (rest s)"
  shows "R (call_each out h us rest s)"
  using assms by (induction us arbitrary: s) (simp_all add: call_or_eq)

text \<open>\<open>channel_call_ok b\<close>: no removal, and no sync unless \<open>b\<close>.\<close>

fun channel_call_ok :: "bool \<Rightarrow> channel_call \<Rightarrow> bool" where
  "channel_call_ok b (DeleteChannel l) = False"
| "channel_call_ok b (SyncChannelNow l) = b"
| "channel_call_ok b u = True"

definition sch_calls :: "bool \<Rightarrow> software_channel_spec \<Rightarrow> channel_pass \<Rightarrow> bool" where
  "sch_calls b sp s = (sc_spec (mem s) = sp \<and> (\<forall>u \<in> fst ` set (call_log (trace s)). channel_call_ok b u))"

lemma sch_calls_rule: "pass_rule (sch_kit w) (sch_calls b sp) (\<lambda>_. True) (channel_call_ok b)"
  unfolding sch_calls_def
  by (rule steady_rule) (auto simp: steady_def)

interpretation sch_calls: pass_rule "sch_kit w" "sch_calls b sp" "\<lambda>_. True" "channel_call_ok b" for w b sp
  by (rule sch_calls_rule)

lemma push_loop_keeps:
  assumes "\<And>l p d s. I s \<Longrightarrow> I (try_call (bw_out w) (PushPackage l p d) s)"
  shows "I s \<Longrightarrow> I (snd (push_loop w files hv names s))"
proof (induction names arbitrary: s)
  case (Cons name names)
  have "I s1" if "attempt (bw_out w) (Call (PushPackage l p d)) s = (e, s1)" for l p d e s1
    using assms [OF Cons.prems, of l p d] that by (simp add: try_call_def)
  then show ?case using Cons by (auto split: exec.split option.split prod.split)
qed simp

lemma set_sch_calls [simp]: "sch_calls b sp s \<Longrightarrow> sch_calls b sp (set_sch w f s)"
  by (simp add: set_sch_def sch_calls.set_status)

lemma sch_finish_calls: "sch_calls b sp s \<Longrightarrow> sch_calls b sp (pass_of (sch_finish w desired current s))"
  by (auto simp: sch_finish_def sch_mark_packages_def sch_calls.return_I sch_calls.save_and_I sch_calls.become_I
      split: sum.split prod.split)

lemma sch_packages_calls:
  assumes "sch_calls b sp s" "\<And>s. sch_calls b sp s \<Longrightarrow> sch_calls b sp (pass_of (rest s))"
  shows "sch_calls b sp (pass_of (sch_packages w rest s))"
proof -
  have "sch_calls b sp (snd (push_loop w files hv names s))" for files hv names
    using assms(1) by (rule push_loop_keeps [rotated]) (simp add: sch_calls.try_call_I [unfolded sch_kit_simps])
  then have "sch_calls b sp s1" if "push_loop w files hv names s = (e, s1)" for files hv names e s1
    using that by (metis snd_conv)
  then have "sch_calls b sp (snd (syncPackageSource w src s))" for src
    using assms(1) by (auto simp: syncPackageSource_def split: sum.split option.split prod.split)
  then have source: "sch_calls b sp s1" if "syncPackageSource w src s = (e, s1)" for src e s1 using that by (metis snd_conv)
  show ?thesis
  proof (cases "sc_package_source (sc_spec (mem s))")
    case None
    then show ?thesis using assms by (simp add: sch_packages_def)
  next
    case (Some src)
    obtain e s1 where p: "syncPackageSource w src s = (e, s1)" by fastforce
    from source [OF p] show ?thesis
      using Some p assms(2)
      by (simp add: sch_packages_def sch_mark_packages_def sch_calls.save_ignoring_I split: option.split)
  qed
qed

lemma sync_if_calls:
  assumes "sch_calls b sp s" "c \<Longrightarrow> b" "\<And>s. sch_calls b sp s \<Longrightarrow> sch_calls b sp (pass_of (rest s))"
  shows "sch_calls b sp (pass_of (sync_if w c rest s))"
proof (cases c)
  case True
  let ?u = "SyncChannelNow (sc_label (sc_spec (mem s)))"
  have "sch_calls b sp (try_call (bw_out w) ?u s)"
    using sch_calls.try_call_I [OF assms(1), of ?u w] assms(2) [OF True] by simp
  then show ?thesis using True assms(3)
    by (simp add: sync_if_def set_sync_time_def call_or_eq sch_calls.return_I)
next
  case False
  then show ?thesis using assms(1,3) by (simp add: sync_if_def)
qed

lemma sch_sync_now_calls:
  assumes "sch_calls b sp s" "has_annotation (mem s) AnnSyncNow \<and> chd_sync_status current \<noteq> ''R'' \<longrightarrow> b"
    and "\<And>s. sch_calls b sp s \<Longrightarrow> sch_calls b sp (pass_of (rest s))"
  shows "sch_calls b sp (pass_of (sch_sync_now w current rest s))"
proof -
  have "sch_calls b sp (pass_of (drop_sync_annotation w rest s))" if "sch_calls b sp s" for s
  proof (cases "refresh (sch_kit w) keep_channel (strip_annotation AnnSyncNow s)")
    case (Pair e s1)
    then have "sch_calls b sp s1"
      using sch_calls.refresh_I [OF sch_calls.strip_annotation_I [OF that, of AnnSyncNow], of w keep_channel] by simp
    then show ?thesis using assms(3) Pair by (simp add: drop_sync_annotation_def return_error_def split: option.split)
  qed
  then show ?thesis using assms by (simp add: sch_sync_now_def sync_if_calls)
qed

text \<open>Up to the sync the object in memory stays as it is.\<close>

lemma sch_sync_repos_rule:
  assumes "P s" "\<And>s u. P s \<Longrightarrow> channel_call_ok False u \<Longrightarrow> P (try_call (bw_out w) u s)"
    and "\<And>e s. P s \<Longrightarrow> R (return_error e s)" "\<And>s. P s \<Longrightarrow> R (rest s)"
  shows "R (sch_sync_repos w desired rest s)"
proof (cases "or_zero [] (hu_repos w (sc_label (sc_spec (mem s))))")
  case (Inl e)
  then show ?thesis using assms(1,3) by (simp add: sch_sync_repos_def)
next
  case (Inr current)
  obtain add rm where d: "diffStringSets current desired = (add, rm)" by fastforce
  let ?l = "sc_label (sc_spec (mem s))"
  have "R (call_each (bw_out w) return_error (map (DisassociateRepo ?l) rm) rest s')" if "P s'" for s'
    using that by (rule call_each_rule [where P = P, rotated]) (auto intro: assms)
  then have "R (call_each (bw_out w) return_error (map (AssociateRepo ?l) add)
      (call_each (bw_out w) return_error (map (DisassociateRepo ?l) rm) rest) s)"
    by (rule call_each_rule [where P = P, rotated 3]) (auto intro: assms)
  then show ?thesis using Inr d by (simp add: sch_sync_repos_def Let_def)
qed

lemma sch_schedule_rule:
  assumes "P s" "\<And>s u. P s \<Longrightarrow> channel_call_ok False u \<Longrightarrow> P (try_call (bw_out w) u s)"
    and "\<And>e s. P s \<Longrightarrow> R (return_error e s)" "\<And>s. P s \<Longrightarrow> R (rest s)"
  shows "R (sch_schedule w rest s)"
proof (cases "or_zero [] (hu_schedule w (sc_label (sc_spec (mem s))))")
  case (Inl e)
  then show ?thesis using assms(1,3,4) by (simp add: sch_schedule_def Let_def)
next
  case (Inr cron)
  have "R (call_if c (bw_out w) return_error (SetRepoSyncSchedule l n) rest s)" for c l n
    unfolding call_if_each using assms(1) by (rule call_each_rule [where P = P, rotated]) (auto intro: assms split: if_splits)
  then show ?thesis using Inr assms(1,4) by (simp add: sch_schedule_def Let_def)
qed

lemma sch_repos_calls:
  assumes s: "sch_calls b sp s" and now: "has_annotation (mem s) AnnSyncNow \<and> chd_sync_status current \<noteq> ''R'' \<longrightarrow> b"
    and first: "justCreated \<and> ss_sync_on_create (sc_sync sp) \<and> chd_sync_status current \<noteq> ''R'' \<longrightarrow> b"
  shows "sch_calls b sp (pass_of (sch_repos w justCreated current desired s))"
proof -
  let ?P = "\<lambda>s'. mem s' = mem s \<and> sch_calls b sp s'" and ?R = "\<lambda>r :: channel_outcome. sch_calls b sp (pass_of r)"
  have calls: "?P (try_call (bw_out w) u s')" if "?P s'" "channel_call_ok False u" for s' u
    using that sch_calls.try_call_I [of b sp s' u w] by (cases u) simp_all
  have spec: "sc_spec (mem s') = sp" if "sch_calls b sp s'" for s' using that by (simp add: sch_calls_def)
  have "?R (sch_sync_now w current (\<lambda>s. sync_if w
          (justCreated \<and> ss_sync_on_create (sc_sync (sc_spec (mem s))) \<and> chd_sync_status current \<noteq> ''R'')
          (\<lambda>s1. sch_packages w (sch_finish w desired current)
            (set_sch w (\<lambda>st. st\<lparr>scs_associated_repos := desired\<rparr>) s1)) s) s')" if "?P s'" for s'
    using that now first
    by (auto intro!: sch_sync_now_calls sync_if_calls sch_packages_calls sch_finish_calls simp: spec)
  then show ?thesis
    unfolding sch_repos_def using s calls
    by (intro sch_sync_repos_rule [where P = ?P and R = ?R] sch_schedule_rule [where P = ?P and R = ?R])
      (auto simp: sch_calls.return_I)
qed

section \<open>When a sync is asked for\<close>

text \<open>The channel a pass goes on with, and whether it has created it.\<close>

definition channel_seen :: "channel_world \<Rightarrow> software_channel \<Rightarrow> (bool \<times> channel_details) option" where
  "channel_seen w sc =
     (case hu_channel w (sc_label (sc_spec sc)) of
        Inr current \<Rightarrow> Some (False, current)
      | Inl e \<Rightarrow> if is_uyuni_not_found e
          then (case hu_created w of Inr current \<Rightarrow> Some (True, current) | Inl _ \<Rightarrow> None) else None)"

definition sync_requested :: "channel_world \<Rightarrow> software_channel \<Rightarrow> bool" where
  "sync_requested w sc =
     (case channel_seen w sc of
        None \<Rightarrow> False
      | Some (created, current) \<Rightarrow>
          chd_sync_status current \<noteq> ''R'' \<and> (\<exists>ls. resolveRepos w sc = Resolved ls) \<and>
          (has_annotation sc AnnSyncNow \<or> created \<and> ss_sync_on_create (sc_sync (sc_spec sc))))"

definition as_read :: "software_channel \<Rightarrow> channel_pass \<Rightarrow> bool" where
  "as_read sc s = (sc_spec (mem s) = sc_spec sc \<and> obj_annotations (mem s) = obj_annotations sc \<and>
     obj_namespace (mem s) = obj_namespace sc \<and> obj_name (mem s) = obj_name sc)"

lemma as_read_simps [simp]:
  "as_read sc (set_sch w f s) = as_read sc s" "as_read sc (try_call out u s) = as_read sc s"
  "as_read sc (sch_mark_drift w l c s) = as_read sc s"
  by (simp_all add: as_read_def set_sch_def set_st_def sch_mark_drift_def)

lemma as_read_start: "as_read sc (start_pass sc)"
  by (simp add: as_read_def)

lemma as_read_owner: "own_organization out sch_kind getOrg n s = (e, s1) \<Longrightarrow> as_read sc s \<Longrightarrow> as_read sc s1"
  by (drule own_organization_mem) (auto simp: as_read_def)

lemma as_read_resolve:
  assumes "as_read sc s"
  shows "resolveRepos w (mem s) = resolveRepos w sc" "resolveParentChannel w (mem s) = resolveParentChannel w sc"
    "has_annotation (mem s) a = has_annotation sc a"
proof -
  have eqs: "sc_spec (mem s) = sc_spec sc" "obj_annotations (mem s) = obj_annotations sc"
    "obj_namespace (mem s) = obj_namespace sc"
    using assms by (simp_all add: as_read_def)
  show "resolveRepos w (mem s) = resolveRepos w sc" "resolveParentChannel w (mem s) = resolveParentChannel w sc"
    "has_annotation (mem s) a = has_annotation sc a"
    unfolding resolveRepos_def resolveParentChannel_def has_annotation_def eqs by (rule refl)+
qed

lemma sch_update_calls:
  assumes s: "sch_calls (sync_requested w sc) (sc_spec sc) s" "as_read sc s"
    and seen: "channel_seen w sc = Some (created, current)"
  shows "sch_calls (sync_requested w sc) (sc_spec sc) (pass_of (sch_update w l created current s))"
proof -
  let ?I = "sch_calls (sync_requested w sc) (sc_spec sc)"
  let ?rest = "\<lambda>s1. with_resolved (sch_kit w) ''ResolveReposFailed'' ''WaitingForRepository'' (resolveRepos w (mem s1))
           (sch_repos w created current) (sch_mark_drift w l current s1)"
  have drift: "?I (sch_mark_drift w l current s1)" if "?I s1" for s1 using that by (simp add: sch_mark_drift_def)
  have rest: "?I (pass_of (?rest s1))" if "?I s1" "as_read sc s1" for s1
  proof (cases "resolveRepos w sc")
    case (Resolved rs)
    have "?I (pass_of (sch_repos w created current rs (sch_mark_drift w l current s1)))"
      using drift [OF that(1)] as_read_resolve(3) [of sc "sch_mark_drift w l current s1"] that(2) seen Resolved
      by (intro sch_repos_calls) (auto simp: sync_requested_def)
    then show ?thesis using Resolved as_read_resolve(1) [OF that(2)] by (simp add: with_resolved_def)
  qed (use drift [OF that(1)] as_read_resolve(1) [OF that(2)] in
      \<open>simp_all add: with_resolved_def sch_calls.refuse_I sch_calls.fail_I\<close>)
  have "?I (try_call (bw_out w) (SetChannelDetails i d) s')" if "?I s'" for i d s'
    using sch_calls.try_call_I [OF that, of "SetChannelDetails i d" w] by simp
  moreover have "?I (pass_of (?rest (try_call (bw_out w) (SetChannelDetails i d) s1)))" if "?I s1" "as_read sc s1" for i d s1
    using rest [of "try_call (bw_out w) (SetChannelDetails i d) s1"] that calculation by simp
  ultimately show ?thesis using s rest
    by (simp add: sch_update_def call_if_def call_or_eq sch_calls.return_I Let_def)
qed

lemma sch_converge_calls:
  assumes s: "sch_calls (sync_requested w sc) (sc_spec sc) s" "as_read sc s"
  shows "sch_calls (sync_requested w sc) (sc_spec sc) (pass_of (sch_converge w s))"
proof -
  let ?I = "sch_calls (sync_requested w sc) (sc_spec sc)"
  have "?I (try_call (bw_out w) (CreateChannel d) s)" for d
    using sch_calls.try_call_I [OF s(1), of "CreateChannel d" w] by simp
  then have "?I (pass_of (sch_create w l (sch_update w l) s))"
    if "hu_channel w (sc_label (sc_spec sc)) = Inl e" "is_uyuni_not_found e" for l e
    using that s(2)
    by (auto simp: sch_create_def call_or_eq sch_fail_def sch_calls.fail_I sch_calls.refuse_I Let_def channel_seen_def
        intro: sch_update_calls split: sum.split)
  moreover have "?I (pass_of (sch_adopt w current (sch_update w l) s))"
    if "hu_channel w (sc_label (sc_spec sc)) = Inr current" for l current
    using that s
    by (auto simp: sch_adopt_def sch_calls.return_I sch_calls.refuse_I Let_def channel_seen_def
        intro: sch_update_calls split: sum.split option.split)
  moreover have "sc_spec (mem s) = sc_spec sc" using s(2) by (simp add: as_read_def)
  ultimately show ?thesis using s(1)
    by (auto simp: sch_converge_def with_resolved_def sch_realize_def sch_calls.refuse_I sch_calls.fail_I sch_calls.return_I
        split: resolve.split sum.split)
qed

lemma sch_live_calls:
  assumes "\<not> obj_deleting sc"
  shows "sch_calls (sync_requested w sc) (sc_spec sc) (pass_of (sch_Reconcile w sc))"
proof -
  let ?I = "sch_calls (sync_requested w sc) (sc_spec sc)"
  have start: "?I (start_pass sc)" by (simp add: sch_calls_def call_log_def)
  have "?I (pass_of (with_owner (sch_kit w) (bw_get_org w) n (sch_converge w) (start_pass sc)))" for n
  proof -
    obtain e s1 where o': "own_organization (bw_out w) sch_kind (bw_get_org w) n (start_pass sc :: channel_pass) = (e, s1)"
      by fastforce
    then have "?I s1" "as_read sc s1"
      using sch_calls.own_organization_I [OF start, of w "bw_get_org w" n] as_read_owner [OF o' as_read_start] by simp_all
    then show ?thesis using o' sch_converge_calls by (simp add: with_owner_def sch_calls.return_I split: option.split)
  qed
  moreover have "?I (pass_of (with_finalizer (sch_kit w) fin rest (start_pass sc)))"
    if "?I (pass_of (rest (start_pass sc)))" for fin rest
    using that sch_calls.object_write [OF sch_calls.finalizers [OF start], where w = w]
    by (auto simp: with_finalizer_eq Let_def ensureFinalizer_def list_ex_iff)
  ultimately show ?thesis
    using assms start by (auto simp: sch_Reconcile_def begin_pass_def sch_calls.fail_I Let_def split: option.split)
qed

lemma sync_requested_when_called:
  assumes "SyncChannelNow l \<in> fst ` set (call_log (trace (pass_of (sch_Reconcile w sc))))"
  shows "sync_requested w sc"
proof (cases "obj_deleting sc")
  case True
  then show ?thesis using assms
    by (auto simp: sch_Reconcile_def sch_handleDeletion_def call_log_of_delete_remote Let_def split: if_splits)
next
  case False
  then show ?thesis using sch_live_calls [OF False, of w] assms unfolding sch_calls_def
    by (metis channel_call_ok.simps(2))
qed

lemma sch_removal_iff:
  "DeleteChannel l \<in> fst ` set (call_log (trace (pass_of (sch_Reconcile w sc)))) \<longleftrightarrow>
     obj_deleting sc \<and> containsFinalizer sc scFinalizer \<and> \<not> has_annotation sc AnnForceDelete \<and>
     scs_uyuni_id (sc_status sc) \<noteq> 0 \<and> bw_client w = None \<and> l = sc_label (sc_spec sc)"
proof (cases "obj_deleting sc")
  case True
  then show ?thesis by (auto simp: sch_Reconcile_def sch_handleDeletion_def call_log_of_delete_remote Let_def)
next
  case False
  then show ?thesis using sch_live_calls [OF False, of w] unfolding sch_calls_def
    by (metis channel_call_ok.simps(1))
qed

text \<open>
  A channel that asks for a sync on its creation and is created while one of its repositories is
  not there yet never gets that sync: neither the pass that creates it nor any later pass on it asks
  Uyuni for one, unless the annotation does.
\<close>

theorem first_sync_lost:
  assumes "resolveRepos w sc = resolve.Wait m"
    and "sc_spec sc' = sc_spec sc" "\<not> has_annotation sc' AnnSyncNow"
    and "hu_channel w' (sc_label (sc_spec sc)) = Inr current"
  shows "SyncChannelNow l \<notin> fst ` set (call_log (trace (pass_of (sch_Reconcile w sc)))) \<and>
    SyncChannelNow l \<notin> fst ` set (call_log (trace (pass_of (sch_Reconcile w' sc'))))"
proof -
  have "\<not> sync_requested w sc" using assms(1) by (auto simp: sync_requested_def split: option.split)
  moreover have "\<not> sync_requested w' sc'" using assms(2-4) by (auto simp: sync_requested_def channel_seen_def split: option.split)
  ultimately show ?thesis using sync_requested_when_called by blast
qed

definition sample_sch :: "string list \<Rightarrow> local_object_ref list \<Rightarrow> int \<Rightarrow> bool \<Rightarrow> software_channel" where
  "sample_sch fins repos uyuni_id deleting = k8s_object.extend (sample_meta ''c'' fins deleting)
     \<lparr>sc_spec = \<lparr>sc_label = ''base'', sc_name = ''base'', sc_summary = [], sc_description = [], sc_arch = [],
        sc_parent_channel_ref = None, sc_checksum = ''sha256'',
        sc_gpg_key = \<lparr>gpg_url = [], gpg_key_id = [], gpg_fingerprint = [], gpg_check = False\<rparr>,
        sc_repository_refs = repos, sc_sync = \<lparr>ss_cron = [], ss_sync_on_create = True\<rparr>, sc_package_source = None,
        sc_organization_ref = None\<rparr>,
      sc_status = \<lparr>scs_uyuni_id = uyuni_id, scs_label = [], scs_associated_repos = [], scs_last_sync_time = None,
        scs_package_count = 0, scs_package_source_revision = [], scs_observed_generation = 0, scs_conditions = []\<rparr>\<rparr>"

definition sample_details :: channel_details where
  "sample_details = \<lparr>chd_id = 5, chd_label = ''base'', chd_name = ''base'', chd_summary = [], chd_description = [],
     chd_arch_name = ''x86_64'', chd_parent_channel_label = [], chd_checksum_label = ''sha256'', chd_gpg_key_url = [],
     chd_gpg_key_id = [], chd_gpg_key_fp = [], chd_gpg_check = False, chd_sync_status = []\<rparr>"

definition channel_demo_world :: "bool \<Rightarrow> channel_world" where
  "channel_demo_world existing = (let absent = GoErr K8sNotFound [] in
     \<lparr>bw_ssc = replace_cond, bw_client = None, bw_get_org = \<lambda>_ _. Inl absent, bw_out = \<lambda>_. None,
      hw_channels = \<lparr>fd_get = \<lambda>_ _. Inl absent, fd_list = \<lambda>_. Inr []\<rparr>, hw_get_repo = \<lambda>_ _. Inl absent,
      hw_git = \<lparr>gt_secret = \<lambda>_ _. Inl absent, gt_with_user = \<lambda>url _ _. Inr url, gt_hash = \<lambda>_ _. Inr [],
        gt_clone = \<lambda>_ _ _. Inr ([], [])\<rparr>, hw_now = 9,
      hu_channel = \<lambda>_. (if existing then Inr sample_details else Inl (GoErr UyuniNotFound [])),
      hu_created = Inr sample_details, hu_repos = \<lambda>_. Inr [], hu_schedule = \<lambda>_. Inr [], hu_packages = \<lambda>_. Inr [],
      hu_package_count = \<lambda>_. Inr 0\<rparr>)"

lemmas sch_sample_simps = sample_sch_def sample_details_def channel_demo_world_def sample_simps

theorem first_sync_lost_witness:
  "(let refs = [\<lparr>lor_name = ''r''\<rparr>] in
     SyncChannelNow ''base'' \<notin> fst ` set (call_log (trace (pass_of
       (sch_Reconcile (channel_demo_world False) (sample_sch [scFinalizer] refs 0 False))))) \<and>
     SyncChannelNow ''base'' \<notin> fst ` set (call_log (trace (pass_of
       (sch_Reconcile (channel_demo_world True) (sample_sch [scFinalizer] refs 5 False))))))"
  unfolding Let_def
  by (rule first_sync_lost [where current = sample_details])
    (simp_all add: sch_sample_simps resolveRepos_def get_or_def ignore_not_found_def has_annotation_def Let_def)

section \<open>The time of the last sync\<close>

text \<open>
  The annotation is dropped with an update of the object, which reads the stored status back: where a
  time is stored already, the one set for the sync a moment before is gone.
\<close>

definition keeps_sync_time :: "software_channel \<Rightarrow> channel_pass \<Rightarrow> bool" where
  "keeps_sync_time sc s =
     (scs_last_sync_time (sc_status sc) \<noteq> None \<and> (case stored s of
        None \<Rightarrow> True
      | Some x \<Rightarrow> scs_last_sync_time (sc_status (mem s)) = scs_last_sync_time (sc_status sc) \<and>
          scs_last_sync_time (sc_status x) = scs_last_sync_time (sc_status sc)))"

lemma keeps_sync_time_rule:
  "pass_rule (sch_kit w) (keeps_sync_time sc)
    (\<lambda>f. \<forall>st. scs_last_sync_time (f st) = scs_last_sync_time st) (\<lambda>_. True)"
  by unfold_locales
    (auto simp: keeps_sync_time_def set_st_def collected_def Option.bind_eq_Some_conv split: option.splits if_splits)

interpretation sync_time: pass_rule "sch_kit w" "keeps_sync_time sc"
    "\<lambda>f. \<forall>st. scs_last_sync_time (f st) = scs_last_sync_time st" "\<lambda>_. True" for w sc
  by (rule keeps_sync_time_rule)

definition stored_sync_time :: "software_channel \<Rightarrow> channel_outcome \<Rightarrow> bool" where
  "stored_sync_time sc r =
     (case stored (pass_of r) of None \<Rightarrow> True | Some x \<Rightarrow> scs_last_sync_time (sc_status x) = scs_last_sync_time (sc_status sc))"

lemma keeps_stored: "keeps_sync_time sc (pass_of r) \<Longrightarrow> stored_sync_time sc r"
  by (auto simp: keeps_sync_time_def stored_sync_time_def split: option.split)

lemma set_sch_time [simp]:
  "keeps_sync_time sc s \<Longrightarrow> (\<And>st. scs_last_sync_time (f st) = scs_last_sync_time st) \<Longrightarrow> keeps_sync_time sc (set_sch w f s)"
  by (simp add: set_sch_def sync_time.set_status)

lemma drop_sync_annotation_time:
  assumes "stored_sync_time sc (r, e, s)" "\<And>s. keeps_sync_time sc s \<Longrightarrow> stored_sync_time sc (rest s)"
    and "scs_last_sync_time (sc_status sc) \<noteq> None"
  shows "stored_sync_time sc (drop_sync_annotation w rest s)"
proof -
  obtain e' s1 where w: "refresh (sch_kit w) keep_channel (strip_annotation AnnSyncNow s) = (e', s1)" by fastforce
  have "stored_sync_time sc (r, e, s1)" "e' = None \<Longrightarrow> keeps_sync_time sc s1"
    using assms(1,3) w
    by (auto simp: stored_sync_time_def keeps_sync_time_def refresh_def set_st_def keep_channel_def keep_option_def
        write_object_def attempt_def strip_annotation_def collected_def Let_def
        split: option.splits if_splits)
  then show ?thesis using w assms(2) [of s1]
    by (cases e') (simp_all add: drop_sync_annotation_def return_error_def stored_sync_time_def)
qed

lemma sch_packages_time:
  assumes "keeps_sync_time sc s" "\<And>s. keeps_sync_time sc s \<Longrightarrow> stored_sync_time sc (rest s)"
  shows "stored_sync_time sc (sch_packages w rest s)"
proof -
  have "keeps_sync_time sc (snd (push_loop w files hv names s))" for files hv names
    using assms(1) by (rule push_loop_keeps [rotated]) (simp add: sync_time.try_call_I [unfolded sch_kit_simps])
  then have "keeps_sync_time sc s1" if "push_loop w files hv names s = (e, s1)" for files hv names e s1
    using that by (metis snd_conv)
  then have "keeps_sync_time sc (snd (syncPackageSource w src s))" for src
    using assms(1) by (auto simp: syncPackageSource_def split: sum.split option.split prod.split)
  then have "keeps_sync_time sc s1" if "syncPackageSource w src s = (e, s1)" for src e s1 using that by (metis snd_conv)
  then show ?thesis
    using assms
    by (auto simp: sch_packages_def sch_mark_packages_def sync_time.save_ignoring_I
        intro!: keeps_stored split: option.split prod.split)
qed

lemma sch_repos_time:
  assumes s: "keeps_sync_time sc s"
  shows "stored_sync_time sc (sch_repos w False current desired s)"
proof -
  let ?P = "keeps_sync_time sc" and ?R = "stored_sync_time sc"
  have finish: "?R (sch_finish w desired current s)" if "?P s" for s
    using that
    by (auto simp: sch_finish_def sch_mark_packages_def sync_time.return_I sync_time.save_and_I sync_time.become_I
        intro!: keeps_stored split: sum.split prod.split)
  have calls: "?P (try_call (bw_out w) u s')" if "?P s'" for s' u
    using sync_time.try_call_I [OF that TrueI, of w u] by simp
  have err: "?R (return_error e s')" if "?P s'" for e s' using that by (simp add: keeps_stored sync_time.return_I)
  let ?rest = "\<lambda>s. sync_if w (False \<and> ss_sync_on_create (sc_sync (sc_spec (mem s))) \<and> chd_sync_status current \<noteq> ''R'')
          (\<lambda>s1. sch_packages w (sch_finish w desired current)
            (set_sch w (\<lambda>st. st\<lparr>scs_associated_repos := desired\<rparr>) s1)) s"
  have rest: "?R (?rest s')" if "?P s'" for s'
    using that finish by (simp add: sync_if_def sch_packages_time)
  have drop: "?R (drop_sync_annotation w ?rest s')" if "stored_sync_time sc (r, e, s')" for r e s'
    using that rest s by (intro drop_sync_annotation_time) (simp_all add: keeps_sync_time_def)
  have plain: "stored_sync_time sc (r, e, s')" if "?P s'" for r e s'
    using that by (auto simp: stored_sync_time_def keeps_sync_time_def split: option.splits)
  have timed: "stored_sync_time sc (r, e, set_sync_time w s')" if "?P s'" for r e s'
    using that by (auto simp: stored_sync_time_def keeps_sync_time_def set_sync_time_def set_sch_def split: option.splits)
  have "?R (sch_sync_now w current ?rest s')" if P: "?P s'" for s'
    using rest [OF P] drop [OF timed [OF calls [OF P]]] drop [OF plain [OF P]] err [OF calls [OF P]]
    by (simp add: sch_sync_now_def sync_if_def call_or_eq)
  then show ?thesis
    unfolding sch_repos_def using s calls err
    by (intro sch_sync_repos_rule [where P = ?P and R = ?R] sch_schedule_rule [where P = ?P and R = ?R]) auto
qed

lemma sch_converge_time:
  assumes s: "keeps_sync_time sc0 s" and "hu_channel w (sc_label (sc_spec (mem s))) = Inr current"
  shows "stored_sync_time sc0 (sch_converge w s)"
proof -
  have update: "stored_sync_time sc0 (sch_update w l False current s)" if s: "keeps_sync_time sc0 s" for l s
  proof -
    let ?s = "set_sch w (\<lambda>st. st\<lparr>scs_uyuni_id := chd_id current, scs_label := chd_label current\<rparr>) s"
    let ?rest = "\<lambda>s1. with_resolved (sch_kit w) ''ResolveReposFailed'' ''WaitingForRepository'' (resolveRepos w (mem s1))
           (sch_repos w False current) (sch_mark_drift w l current s1)"
    have s0: "keeps_sync_time sc0 ?s" using s by simp
    have rest: "stored_sync_time sc0 (?rest s1)" if "keeps_sync_time sc0 s1" for s1
    proof -
      have "keeps_sync_time sc0 (sch_mark_drift w l current s1)" using that by (simp add: sch_mark_drift_def)
      then show ?thesis
        by (auto simp: with_resolved_def sch_repos_time sync_time.fail_I sync_time.refuse_I
            intro: keeps_stored split: resolve.split)
    qed
    show ?thesis
    proof (cases "channelNeedsUpdate current (mem ?s)")
      case True
      let ?s1 = "try_call (bw_out w) (SetChannelDetails (chd_id current) (mutable_details (sc_spec (mem ?s)))) ?s"
      have s1: "keeps_sync_time sc0 ?s1"
        using sync_time.try_call_I [OF s0 TrueI, of w "SetChannelDetails (chd_id current) (mutable_details (sc_spec (mem ?s)))"]
        by simp
      then show ?thesis
        unfolding sch_update_def Let_def call_if_def call_or_eq
        using True rest [OF s1] keeps_stored [OF sync_time.return_I [OF s1]] by simp
    next
      case False
      then show ?thesis unfolding sch_update_def Let_def call_if_def using rest [OF s0] by simp
    qed
  qed
  then have "stored_sync_time sc0 (sch_realize w l (sch_update w l) s)" for l
    using assms
    by (auto simp: sch_realize_def sch_adopt_def sync_time.return_I sync_time.refuse_I Let_def
        intro: keeps_stored split: sum.split option.split)
  then show ?thesis
    using s
    by (auto simp: sch_converge_def with_resolved_def sync_time.fail_I sync_time.refuse_I
        intro: keeps_stored split: resolve.split)
qed

text \<open>
  Once a time of the last sync is stored, no pass on a channel that exists in Uyuni moves it, not
  even the pass that asks Uyuni for a sync.
\<close>

theorem last_sync_time_never_stored:
  assumes "hu_channel w (sc_label (sc_spec sc)) = Inr current"
    and "scs_last_sync_time (sc_status sc) \<noteq> None"
  shows "case stored (pass_of (sch_Reconcile w sc)) of
      None \<Rightarrow> True
    | Some x \<Rightarrow> scs_last_sync_time (sc_status x) = scs_last_sync_time (sc_status sc)"
proof -
  have start: "keeps_sync_time sc (start_pass sc)" using assms(2) by (simp add: keeps_sync_time_def)
  have owner: "stored_sync_time sc (with_owner (sch_kit w) (bw_get_org w) n (sch_converge w) (start_pass sc))" for n
  proof -
    obtain e s1 where o': "own_organization (bw_out w) sch_kind (bw_get_org w) n (start_pass sc :: channel_pass) = (e, s1)"
      by fastforce
    then have s1: "keeps_sync_time sc s1" "as_read sc s1"
      using sync_time.own_organization_I [OF start, of w "bw_get_org w" n] as_read_owner [OF o' as_read_start] by simp_all
    then have "stored_sync_time sc (sch_converge w s1)"
      using assms by (intro sch_converge_time) (simp_all add: as_read_def)
    then show ?thesis using o' keeps_stored [OF sync_time.return_I [OF s1(1)]] by (simp add: with_owner_def split: option.split)
  qed
  have "stored_sync_time sc (sch_Reconcile w sc)"
  proof (cases "obj_deleting sc")
    case True
    then show ?thesis using start by (simp add: sch_Reconcile_def sch_handleDeletion_def sync_time.delete_remote_I keeps_stored)
  next
    case False
    have "stored_sync_time sc (with_finalizer (sch_kit w) scFinalizer rest (start_pass sc))"
      if "stored_sync_time sc (rest (start_pass sc))" for rest
      using that sync_time.object_write [OF sync_time.finalizers [OF start], where w = w]
      by (auto simp: with_finalizer_eq Let_def ensureFinalizer_def list_ex_iff intro!: keeps_stored)
    then show ?thesis using False owner start
      by (auto simp: sch_Reconcile_def begin_pass_def sync_time.fail_I Let_def intro: keeps_stored split: option.split)
  qed
  then show ?thesis by (simp add: stored_sync_time_def)
qed

text \<open>A channel that was synced at time 7 and whose annotation asks for a sync.\<close>

definition sync_now_channel :: software_channel where
  "sync_now_channel = (let c = sample_sch [scFinalizer] [] 5 False in
     c\<lparr>obj_annotations := [AnnSyncNow \<mapsto> ''true''],
       sc_status := (sc_status c)\<lparr>scs_last_sync_time := Some 7\<rparr>\<rparr>)"

theorem last_sync_time_never_stored_witness:
  "case stored (pass_of (sch_Reconcile (channel_demo_world True) sync_now_channel)) of
     None \<Rightarrow> True
   | Some x \<Rightarrow> scs_last_sync_time (sc_status x) = Some 7"
proof -
  have "hu_channel (channel_demo_world True) (sc_label (sc_spec sync_now_channel)) = Inr sample_details"
    by (simp add: channel_demo_world_def Let_def)
  moreover have "scs_last_sync_time (sc_status sync_now_channel) = Some 7"
    by (simp add: sync_now_channel_def sch_sample_simps Let_def)
  ultimately show ?thesis
    using last_sync_time_never_stored [of "channel_demo_world True" sync_now_channel] by (simp split: option.splits)
qed

section \<open>The packages of a recorded revision\<close>

definition pushed :: "(channel_call \<times> bool) list \<Rightarrow> string list" where
  "pushed l = map (\<lambda>u. case fst u of PushPackage _ p _ \<Rightarrow> nvra (pn_name p) (pn_version p) (pn_release p) (pn_arch p))
     (filter (\<lambda>u. snd u \<and> (\<exists>c p d. fst u = PushPackage c p d)) l)"

lemma pushed_simps [simp]:
  "pushed (l @ [(PushPackage c p d, ok)]) =
     pushed l @ (if ok then [nvra (pn_name p) (pn_version p) (pn_release p) (pn_arch p)] else [])"
  by (simp add: pushed_def)

definition header_nvra :: "rpm_header \<Rightarrow> string" where
  "header_nvra h = nvra (hdr_name h) (hdr_version h) (hdr_release h) (hdr_arch h)"

lemma push_loop_complete:
  assumes "push_loop w files hv names s = (None, s')" "name \<in> set names" "has_suffix name ''.rpm''"
  shows "(\<exists>h. ReadHeader (bytes_of (content_of files name)) = Done h \<and>
      (hdr_source h \<or> header_nvra h \<in> set hv \<union> set (pushed (call_log (trace s'))))) \<and>
    set (pushed (call_log (trace s))) \<subseteq> set (pushed (call_log (trace s')))"
proof -
  have mono: "set (pushed (call_log (trace s))) \<subseteq> set (pushed (call_log (trace s')))"
    if "push_loop w files hv names s = (None, s')" for names s s'
    using that
  proof (induction names arbitrary: s)
    case (Cons x xs)
    show ?case
      using Cons.prems
      by (auto split: if_splits exec.splits option.splits simp: attempt_def Let_def header_nevra_def dest!: Cons.IH)
  qed simp
  show ?thesis
    using assms
  proof (induction names arbitrary: s)
    case (Cons x xs)
    show ?case
    proof (cases "name \<in> set xs")
      case True
      then show ?thesis using Cons.prems Cons.IH mono [OF Cons.prems(1)]
        by (auto split: if_splits exec.splits option.splits prod.splits)
    next
      case False
      then have x: "x = name" using Cons.prems(2) by simp
      then obtain h where h: "ReadHeader (bytes_of (content_of files name)) = Done h"
        using Cons.prems by (auto split: exec.splits)
      then show ?thesis using Cons.prems x mono [OF Cons.prems(1)]
        by (auto split: if_splits option.splits simp: attempt_def Let_def skips_def header_nvra_def header_nevra_def
            dest!: mono)
    qed
  qed simp
qed


text \<open>A repository with one package, which is not in the channel.\<close>

definition demo_rpm :: bytes where
  "demo_rpm = rpm_file demo_lead [1, 0, 0, 0, 0] [] [] [1, 0, 0, 0, 0]
     (nevra_index [0x61] [0x31] [0x32] [0x78] None False) (nevra_store [0x61] [0x31] [0x32] [0x78] None) []"

definition demo_header :: rpm_header where
  "demo_header = \<lparr>hdr_name = ''a'', hdr_epoch = [], hdr_version = ''1'', hdr_release = ''2'', hdr_arch = ''x'',
     hdr_source = False\<rparr>"

lemma demo_rpm_header: "ReadHeader demo_rpm = Done demo_header"
proof -
  let ?es = "nevra_index [0x61] [0x31] [0x32] [0x78] None False" and ?st = "nevra_store [0x61] [0x31] [0x32] [0x78] None"
  have "ReadHeader demo_rpm = header_of (index_map ?es Map.empty) ?st"
    unfolding demo_rpm_def
    by (rule read_rpm_file) (simp_all add: lead_ok_def demo_lead_def nevra_index_def nevra_store_def Let_def)
  also have "\<dots> = Done demo_header" by code_simp
  finally show ?thesis .
qed

lemma bytes_of_bytes_string [simp]: "bytes_of (bytes_string bs) = bs"
proof -
  have "of_char (char_of (unat b)) = b" for b :: "8 word"
  proof -
    have "of_char (char_of (unat b)) = (of_nat (of_char (char_of (unat b))) :: 8 word)" by (simp only: of_nat_of_char)
    also have "\<dots> = of_nat (unat b mod 256)" by simp
    also have "unat b mod 256 = unat b" using unsigned_less [where w = b, where ?'a = nat] by simp
    finally show ?thesis by simp
  qed
  then show ?thesis by (simp add: bytes_of_def bytes_string_def comp_def)
qed

definition demo_source :: package_source where
  "demo_source = \<lparr>ps_url = ''u'', ps_ref = [], ps_path = [], ps_auth = None\<rparr>"

definition source_demo_world :: channel_world where
  "source_demo_world = (channel_demo_world True)\<lparr>hw_git := \<lparr>gt_secret = \<lambda>_ _. Inl (GoErr K8sNotFound []),
     gt_with_user = \<lambda>url _ _. Inr url, gt_hash = \<lambda>_ _. Inr ''r1'',
     gt_clone = \<lambda>_ _ _. Inr ([(''a.rpm'', bytes_string demo_rpm)], [])\<rparr>\<rparr>"


end
