(* ===== verification/Maintenance_Controller.thy ===== *)
theory Maintenance_Controller
  imports Kind_Facts
begin

text \<open>
  The MaintenanceCalendar and MaintenanceSchedule reconcilers (\<^verbatim>\<open>maintenancecalendar_controller.go\<close>,
  \<^verbatim>\<open>maintenanceschedule_controller.go\<close>): the windows and the systems they apply to.
\<close>

section \<open>Calendars\<close>

definition mcal_kind :: "(maintenance_calendar, maintenance_calendar_status) kind_ops" where
  "mcal_kind = \<lparr>status_of = mc_status, with_status = \<lambda>st o'. o'\<lparr>mc_status := st\<rparr>\<rparr>"

interpretation mcal_status_field: status_field mcal_kind
  by unfold_locales (simp_all add: mcal_kind_def k8s_object.defs)

record calendar_world = base_world +
  lw_legacy :: "(string \<times> string) list"
  lw_now :: int
  lw_schedules :: "maintenance_schedule k8s_list"
  lu_labels :: "go_error + string list"
  lu_calendar :: "string \<Rightarrow> go_error + calendar_details"
  lu_created :: calendar_details

datatype calendar_call =
    RefreshMaintenanceCalendar string string
  | CreateMaintenanceCalendar string string
  | CreateMaintenanceCalendarWithURL string string
  | UpdateMaintenanceCalendar string string string string
  | DeleteMaintenanceCalendar string bool

type_synonym calendar_pass = "(maintenance_calendar, calendar_call) pass"

type_synonym calendar_outcome = "(maintenance_calendar, calendar_call) outcome"

definition mcal_kit :: "calendar_world \<Rightarrow> (maintenance_calendar, maintenance_calendar_status) kit" where
  "mcal_kit w = kit_of mcal_kind mcs_conditions_update w"

definition mcal_fail :: "calendar_world \<Rightarrow> string \<Rightarrow> go_error \<Rightarrow> calendar_pass \<Rightarrow> calendar_outcome" where
  "mcal_fail w = fail_with (mcal_kit w)"

definition findCalendar :: "calendar_world \<Rightarrow> string \<Rightarrow> go_error + calendar_details option" where
  "findCalendar w label =
     (case lu_labels w of
        Inl e \<Rightarrow> Inl e
      | Inr labels \<Rightarrow>
          if label \<notin> set labels then Inr None
          else (case lu_calendar w label of Inl e \<Rightarrow> Inl e | Inr d \<Rightarrow> Inr (Some d)))"

text \<open>The refresh annotation: act, record, then drop the annotation.\<close>

definition mcal_refresh :: "calendar_world \<Rightarrow> calendar_pass \<Rightarrow> calendar_outcome" where
  "mcal_refresh w s =
     (let sp = mc_spec (mem s) in
      call_or (bw_out w) (RefreshMaintenanceCalendar (mc_label sp) (rescheduleStrategyOrDefault (mc_reschedule_strategy sp)))
        (mcal_fail w ''UpdateFailed'')
        (\<lambda>s1. save_then (mcal_kit w)
           (\<lambda>s2. case write_object (bw_out w) mcal_kind (strip_annotation AnnRefreshNow s2) of
               (Some e, s3) \<Rightarrow> return_error e s3
             | (None, s3) \<Rightarrow> (result_requeue, None, s3))
           (set_st (mcal_kit w) (\<lambda>st. st\<lparr>mcs_last_refreshed_time := Some (lw_now w)\<rparr>) s1)) s)"

definition mcal_finish :: "calendar_world \<Rightarrow> calendar_details \<Rightarrow> calendar_pass \<Rightarrow> calendar_outcome" where
  "mcal_finish w existing s =
     save_and (mcal_kit w) (result_after (10 * minute))
       (become (mcal_kit w) True ''Reconciled'' []
         (set_st (mcal_kit w) (\<lambda>st. st\<lparr>mcs_uyuni_id := mcd_id existing,
            mcs_observed_generation := obj_generation (mem s)\<rparr>) s))"

definition mcal_drifted :: "maintenance_calendar_spec \<Rightarrow> calendar_details \<Rightarrow> bool" where
  "mcal_drifted sp existing =
     (if mc_ical sp \<noteq> [] then mcd_i_cal existing \<noteq> mc_ical sp else mcd_url existing \<noteq> mc_url sp)"

definition mcal_converge :: "calendar_world \<Rightarrow> calendar_pass \<Rightarrow> calendar_outcome" where
  "mcal_converge w s =
     (let sp = mc_spec (mem s) in
      case findCalendar w (mc_label sp) of
        Inl e \<Rightarrow> mcal_fail w ''ProviderError'' e s
      | Inr None \<Rightarrow>
          call_or (bw_out w)
            (if mc_ical sp \<noteq> [] then CreateMaintenanceCalendar (mc_label sp) (mc_ical sp)
             else CreateMaintenanceCalendarWithURL (mc_label sp) (mc_url sp))
            (mcal_fail w ''CreateFailed'') (mcal_finish w (lu_created w)) s
      | Inr (Some existing) \<Rightarrow>
          call_if (mcal_drifted sp existing) (bw_out w) (mcal_fail w ''UpdateFailed'')
            (UpdateMaintenanceCalendar (mc_label sp) (mc_ical sp) (mc_url sp)
               (rescheduleStrategyOrDefault (mc_reschedule_strategy sp)))
            (mcal_finish w existing) s)"

definition referencingSchedules :: "calendar_world \<Rightarrow> maintenance_calendar \<Rightarrow> go_error + string list" where
  "referencingSchedules w mc =
     (case lw_schedules w (obj_namespace mc) of
        Inl e \<Rightarrow> Inl e
      | Inr xs \<Rightarrow> Inr (map obj_name (filter
          (\<lambda>ms. map_option lor_name (ms_calendar_ref (ms_spec ms)) = Some (obj_name mc)) xs)))"

definition mcal_handleDeletion :: "calendar_world \<Rightarrow> calendar_pass \<Rightarrow> calendar_outcome" where
  "mcal_handleDeletion w =
     delete_guarded (mcal_kit w) mcalFinalizer (\<lambda>s.
       case referencingSchedules w (mem s) of
         Inl e \<Rightarrow> return_error e s
       | Inr refs \<Rightarrow>
           if refs \<noteq> []
           then hold (mcal_kit w) ''InUse''
             (''maintenance calendar is referenced by MaintenanceSchedule(s): '' @ show_slice refs) s
           else delete_call (mcal_kit w) (bw_client w) mcalFinalizer
             (DeleteMaintenanceCalendar (mc_label (mc_spec (mem s))) True) s)"

definition mcal_Reconcile :: "calendar_world \<Rightarrow> maintenance_calendar \<Rightarrow> calendar_outcome" where
  "mcal_Reconcile w mc =
     (let s = start_pass mc in
      case migrateAnnotations (lw_legacy w) mc of
        (True, mc') \<Rightarrow> update_with (mcal_kit w) result_done (s\<lparr>mem := mc'\<rparr>)
      | (False, _) \<Rightarrow>
          if obj_deleting mc then mcal_handleDeletion w s
          else case bw_client w of
            Some e \<Rightarrow> mcal_fail w ''ProviderError'' e s
          | None \<Rightarrow> with_finalizer (mcal_kit w) mcalFinalizer
              (with_owner (mcal_kit w) (bw_get_org w) (orgRef (mc_organization_ref (mc_spec mc)))
                (\<lambda>s1. if has_annotation (mem s1) AnnRefreshNow then mcal_refresh w s1 else mcal_converge w s1)) s)"

definition calendarsForSchedule :: "maintenance_schedule \<Rightarrow> requests" where
  "calendarsForSchedule ms =
     (case ms_calendar_ref (ms_spec ms) of None \<Rightarrow> [] | Some r \<Rightarrow> [(obj_namespace ms, lor_name r)])"

section \<open>Schedules\<close>

definition msch_kind :: "(maintenance_schedule, maintenance_schedule_status) kind_ops" where
  "msch_kind = \<lparr>status_of = ms_status, with_status = \<lambda>st o'. o'\<lparr>ms_status := st\<rparr>\<rparr>"

interpretation msch_status_field: status_field msch_kind
  by unfold_locales (simp_all add: msch_kind_def k8s_object.defs)

text \<open>\<open>dw_order\<close> is the order in which a \<^verbatim>\<open>range\<close> visits the set of ids: any reordering of its elements.\<close>

record schedule_world = base_world +
  dw_legacy :: "(string \<times> string) list"
  dw_order :: "int list \<Rightarrow> int list"
  dw_get_calendar :: "maintenance_calendar k8s_get"
  dw_systems :: "uyuni_system finder"
  dw_get_group :: "system_group k8s_get"
  du_names :: "go_error + string list"
  du_schedule :: "string \<Rightarrow> go_error + schedule_details"
  du_created :: schedule_details
  du_group_members :: "string \<Rightarrow> go_error + int list"
  du_assigned :: "string \<Rightarrow> go_error + int list"

datatype schedule_call =
    CreateMaintenanceSchedule string string string
  | UpdateMaintenanceSchedule string string string string
  | AssignScheduleToSystems string "int list" string
  | RetractScheduleFromSystems "int list"
  | DeleteMaintenanceSchedule string

type_synonym schedule_pass = "(maintenance_schedule, schedule_call) pass"

type_synonym schedule_outcome = "(maintenance_schedule, schedule_call) outcome"

definition msch_kit :: "schedule_world \<Rightarrow> (maintenance_schedule, maintenance_schedule_status) kit" where
  "msch_kit w = kit_of msch_kind mss_conditions_update w"

definition msch_fail :: "schedule_world \<Rightarrow> string \<Rightarrow> go_error \<Rightarrow> schedule_pass \<Rightarrow> schedule_outcome" where
  "msch_fail w = fail_with (msch_kit w)"

definition resolveCalendar :: "schedule_world \<Rightarrow> maintenance_schedule \<Rightarrow> string resolve" where
  "resolveCalendar w ms =
     (case ms_calendar_ref (ms_spec ms) of
        None \<Rightarrow> Resolved []
      | Some r \<Rightarrow>
          get_or (''MaintenanceCalendar '' @ go_quote (lor_name r) @ '' not found'')
            (\<lambda>mc. if mcs_uyuni_id (mc_status mc) = 0
               then resolve.Wait (''MaintenanceCalendar '' @ go_quote (lor_name r) @ '' not yet realized in Uyuni'')
               else Resolved (mc_label (mc_spec mc)))
            (dw_get_calendar w (obj_namespace ms) (lor_name r)))"

fun system_ref_loop :: "schedule_world \<Rightarrow> string \<Rightarrow> local_object_ref list \<Rightarrow> int list resolve" where
  "system_ref_loop w ns [] = Resolved []"
| "system_ref_loop w ns (ref # refs) =
     (case findSystem (dw_systems w) ns (lor_name ref) of
        Inl e \<Rightarrow> Broken e
      | Inr None \<Rightarrow> resolve.Wait (''System '' @ go_quote (lor_name ref) @ '' not found'')
      | Inr (Some sys) \<Rightarrow>
          if syss_uyuni_server_id (sys_status sys) = 0
          then resolve.Wait (''System '' @ go_quote (lor_name ref) @ '' not yet registered in Uyuni'')
          else then_resolve (system_ref_loop w ns refs) (\<lambda>is. Resolved (syss_uyuni_server_id (sys_status sys) # is)))"

fun group_ref_loop :: "schedule_world \<Rightarrow> string \<Rightarrow> local_object_ref list \<Rightarrow> int list resolve" where
  "group_ref_loop w ns [] = Resolved []"
| "group_ref_loop w ns (ref # refs) =
     get_or (''SystemGroup '' @ go_quote (lor_name ref) @ '' not found'')
       (\<lambda>sg. case du_group_members w (sg_name (sg_spec sg)) of
          Inl e \<Rightarrow> Broken e
        | Inr members \<Rightarrow> then_resolve (group_ref_loop w ns refs) (\<lambda>is. Resolved (members @ is)))
       (dw_get_group w ns (lor_name ref))"

definition resolveDesiredSystems :: "schedule_world \<Rightarrow> maintenance_schedule \<Rightarrow> int list resolve" where
  "resolveDesiredSystems w ms =
     then_resolve (system_ref_loop w (obj_namespace ms) (ms_system_refs (ms_spec ms))) (\<lambda>direct.
     then_resolve (group_ref_loop w (obj_namespace ms) (ms_system_group_refs (ms_spec ms))) (\<lambda>members.
       Resolved (dw_order w (remdups (direct @ members)))))"

definition findSchedule :: "schedule_world \<Rightarrow> string \<Rightarrow> go_error + schedule_details option" where
  "findSchedule w name =
     (case du_names w of
        Inl e \<Rightarrow> Inl e
      | Inr names \<Rightarrow>
          if name \<notin> set names then Inr None
          else (case du_schedule w name of Inl e \<Rightarrow> Inl e | Inr d \<Rightarrow> Inr (Some d)))"

text \<open>\<^verbatim>\<open>strings.EqualFold\<close> on ASCII text.\<close>

definition equal_fold :: "string \<Rightarrow> string \<Rightarrow> bool" where
  "equal_fold a b = (to_lower a = to_lower b)"

definition msch_differs :: "maintenance_schedule_spec \<Rightarrow> string \<Rightarrow> schedule_details \<Rightarrow> bool" where
  "msch_differs sp calendarLabel existing =
     (\<not> equal_fold (msd_type existing) (ms_type sp) \<or>
      (case msd_calendar existing of None \<Rightarrow> [] | Some c \<Rightarrow> mcd_label c) \<noteq> calendarLabel)"

definition msch_strategy :: "maintenance_schedule_spec \<Rightarrow> string" where
  "msch_strategy sp = rescheduleStrategyOrDefault (ms_reschedule_strategy sp)"

definition msch_finish :: "schedule_world \<Rightarrow> schedule_details \<Rightarrow> int list \<Rightarrow> schedule_pass \<Rightarrow> schedule_outcome" where
  "msch_finish w existing desired s =
     save_and (msch_kit w) (result_after (10 * minute))
       (become (msch_kit w) True ''Reconciled'' []
         (set_st (msch_kit w) (\<lambda>st. st\<lparr>mss_uyuni_id := msd_id existing, mss_resolved_system_ids := desired,
            mss_system_count := int (length desired), mss_observed_generation := obj_generation (mem s)\<rparr>) s))"

definition msch_assign :: "schedule_world \<Rightarrow> schedule_details \<Rightarrow> int list \<Rightarrow> schedule_pass \<Rightarrow> schedule_outcome" where
  "msch_assign w existing desired s =
     (let sp = ms_spec (mem s) in
      case du_assigned w (ms_name sp) of
        Inl e \<Rightarrow> msch_fail w ''ProviderError'' e s
      | Inr current \<Rightarrow>
          (case diffIntSets current desired of
             (toAdd, toRemove) \<Rightarrow>
               call_if (toAdd \<noteq> []) (bw_out w) (msch_fail w ''ScheduleFailed'')
                 (AssignScheduleToSystems (ms_name sp) toAdd (msch_strategy sp))
                 (call_if (toRemove \<noteq> []) (bw_out w) (msch_fail w ''ScheduleFailed'')
                   (RetractScheduleFromSystems toRemove) (msch_finish w existing desired)) s))"

definition msch_systems :: "schedule_world \<Rightarrow> schedule_details \<Rightarrow> schedule_pass \<Rightarrow> schedule_outcome" where
  "msch_systems w existing s =
     with_resolved (msch_kit w) ''ResolveRefs'' ''ReferenceUnavailable'' (resolveDesiredSystems w (mem s))
       (msch_assign w existing) s"

definition msch_realize :: "schedule_world \<Rightarrow> string \<Rightarrow> schedule_pass \<Rightarrow> schedule_outcome" where
  "msch_realize w calendarLabel s =
     (let sp = ms_spec (mem s) in
      case findSchedule w (ms_name sp) of
        Inl e \<Rightarrow> msch_fail w ''ProviderError'' e s
      | Inr None \<Rightarrow>
          call_or (bw_out w) (CreateMaintenanceSchedule (ms_name sp) (ms_type sp) calendarLabel)
            (msch_fail w ''CreateFailed'') (msch_systems w (du_created w)) s
      | Inr (Some existing) \<Rightarrow>
          call_if (msch_differs sp calendarLabel existing) (bw_out w) (msch_fail w ''UpdateFailed'')
            (UpdateMaintenanceSchedule (ms_name sp) (ms_type sp) calendarLabel (msch_strategy sp))
            (msch_systems w existing) s)"

definition msch_converge :: "schedule_world \<Rightarrow> schedule_pass \<Rightarrow> schedule_outcome" where
  "msch_converge w s =
     with_resolved (msch_kit w) ''ResolveRefs'' ''WaitingForCalendar'' (resolveCalendar w (mem s)) (msch_realize w) s"

definition msch_delete :: "schedule_world \<Rightarrow> schedule_pass \<Rightarrow> schedule_outcome" where
  "msch_delete w s =
     (let name = ms_name (ms_spec (mem s)) in
      case bw_client w of
        Some e \<Rightarrow> return_error e s
      | None \<Rightarrow>
          (case (case du_assigned w name of
                   Inl e \<Rightarrow> if is_uyuni_not_found e then Inr [] else Inl e
                 | Inr xs \<Rightarrow> Inr xs) of
             Inl e \<Rightarrow> return_error e s
           | Inr current \<Rightarrow>
               call_if (current \<noteq> []) (bw_out w) return_error (RetractScheduleFromSystems current)
                 (delete_call (msch_kit w) None mschedFinalizer (DeleteMaintenanceSchedule name)) s))"

definition msch_handleDeletion :: "schedule_world \<Rightarrow> schedule_pass \<Rightarrow> schedule_outcome" where
  "msch_handleDeletion w = delete_guarded (msch_kit w) mschedFinalizer (msch_delete w)"

definition msch_Reconcile :: "schedule_world \<Rightarrow> maintenance_schedule \<Rightarrow> schedule_outcome" where
  "msch_Reconcile w ms =
     (let s = start_pass ms in
      case migrateAnnotations (dw_legacy w) ms of
        (True, ms') \<Rightarrow> update_with (msch_kit w) result_done (s\<lparr>mem := ms'\<rparr>)
      | (False, _) \<Rightarrow>
          if obj_deleting ms then msch_handleDeletion w s
          else case bw_client w of
            Some e \<Rightarrow> msch_fail w ''ProviderError'' e s
          | None \<Rightarrow> with_finalizer (msch_kit w) mschedFinalizer
              (with_owner (msch_kit w) (bw_get_org w) (orgRef (ms_organization_ref (ms_spec ms))) (msch_converge w)) s)"

definition schedules_where :: "(go_error + maintenance_schedule list) \<Rightarrow> (maintenance_schedule_spec \<Rightarrow> bool) \<Rightarrow> requests" where
  "schedules_where l P =
     (case l of
        Inl _ \<Rightarrow> []
      | Inr xs \<Rightarrow> map (\<lambda>ms. (obj_namespace ms, obj_name ms)) (filter (\<lambda>ms. P (ms_spec ms)) xs))"

definition schedulesForSystem :: "(go_error + maintenance_schedule list) \<Rightarrow> uyuni_system \<Rightarrow> requests" where
  "schedulesForSystem l sys = schedules_where l (\<lambda>sp. list_ex (\<lambda>r. systemRefMatches r sys) (ms_system_refs sp))"

definition schedulesForSystemGroup :: "(go_error + maintenance_schedule list) \<Rightarrow> string \<Rightarrow> requests" where
  "schedulesForSystemGroup l n = schedules_where l (\<lambda>sp. refs_to n (ms_system_group_refs sp))"

definition schedulesForCalendar :: "(go_error + maintenance_schedule list) \<Rightarrow> string \<Rightarrow> requests" where
  "schedulesForCalendar l n = schedules_where l (\<lambda>sp. map_option lor_name (ms_calendar_ref sp) = Some n)"

end
