(* ===== verification/Maintenance_Facts.thy ===== *)
theory Maintenance_Facts
  imports Maintenance_Controller Group_Facts
begin

text \<open>
  What a pass on a maintenance schedule does to the systems it is assigned to, and the order of the
  calls when a schedule or a calendar is deleted.
\<close>

lemma msch_kind_simps [simp]:
  "status_of msch_kind x = ms_status x" "with_status msch_kind st x = x\<lparr>ms_status := st\<rparr>"
  by (simp_all add: msch_kind_def)

lemma msch_kit_simps [simp]:
  "kit_ops (msch_kit w) = msch_kind" "kit_out (msch_kit w) = bw_out w" "kit_ssc (msch_kit w) = bw_ssc w"
  "kit_conditions (msch_kit w) = mss_conditions_update"
  by (simp_all add: msch_kit_def)

lemma mcal_kit_simps [simp]:
  "kit_ops (mcal_kit w) = mcal_kind" "kit_out (mcal_kit w) = bw_out w" "kit_ssc (mcal_kit w) = bw_ssc w"
  "kit_conditions (mcal_kit w) = mcs_conditions_update"
  by (simp_all add: mcal_kit_def)

section \<open>The systems of a schedule\<close>

fun assigned_after :: "string \<Rightarrow> (schedule_call \<times> bool) list \<Rightarrow> int set \<Rightarrow> int set" where
  "assigned_after n [] M = M"
| "assigned_after n ((AssignScheduleToSystems n' is strategy, True) # l) M =
     assigned_after n l (if n' = n then M \<union> set is else M)"
| "assigned_after n ((RetractScheduleFromSystems is, True) # l) M = assigned_after n l (M - set is)"
| "assigned_after n (_ # l) M = assigned_after n l M"

lemma assigned_after_append: "assigned_after n (l @ l') M = assigned_after n l' (assigned_after n l M)"
  by (induction n l M rule: assigned_after.induct) simp_all

fun assignment_call :: "schedule_call \<Rightarrow> bool" where
  "assignment_call (AssignScheduleToSystems n is strategy) = True"
| "assignment_call (RetractScheduleFromSystems is) = True"
| "assignment_call _ = False"

lemma assigned_after_other: "\<not> assignment_call u \<Longrightarrow> assigned_after n [(u, ok)] M = M"
  by (cases u; cases ok) simp_all

definition same_schedule :: "maintenance_schedule \<Rightarrow> maintenance_schedule \<Rightarrow> bool" where
  "same_schedule x y = (ms_spec y = ms_spec x \<and> obj_namespace y = obj_namespace x)"

definition assigned_are :: "maintenance_schedule \<Rightarrow> int set \<Rightarrow> int set \<Rightarrow> schedule_pass \<Rightarrow> bool" where
  "assigned_are x M M' s =
     (same_schedule x (mem s) \<and> assigned_after (ms_name (ms_spec x)) (call_log (trace s)) M = M')"

lemma assigned_rule: "pass_rule (msch_kit w) (assigned_are x M M') (\<lambda>_. True) (\<lambda>u. \<not> assignment_call u)"
  unfolding assigned_are_def
  by (rule steady_rule) (simp_all add: steady_def same_schedule_def assigned_after_append assigned_after_other)

interpretation assigned: pass_rule "msch_kit w" "assigned_are x M M'" "\<lambda>_. True" "\<lambda>u. \<not> assignment_call u" for w x M M'
  by (rule assigned_rule)

text \<open>A pass that went through ends with the long wait and no error.\<close>

definition assigned_done :: "maintenance_schedule \<Rightarrow> int set \<Rightarrow> int set \<Rightarrow> schedule_outcome \<Rightarrow> bool" where
  "assigned_done x M D r = (\<forall>s. r = (result_after (10 * minute), None, s) \<longrightarrow> assigned_are x M D s)"

lemma assigned_done_simps [simp]:
  "assigned_done x M D (return_error e s)" "assigned_done x M D (fail_with k r e s)"
  "after \<noteq> 10 * minute \<Longrightarrow> assigned_done x M D (refuse k after r m s)"
  by (simp_all add: assigned_done_def return_error_def fail_with_def refuse_def save_ignoring_def result_after_def)

lemma assigned_done_if: "assigned_are x M D (pass_of r) \<Longrightarrow> assigned_done x M D r"
  by (auto simp: assigned_done_def)

lemma msch_finish_are: "assigned_are x M D s \<Longrightarrow> assigned_done x M D (msch_finish w existing desired s)"
  by (rule assigned_done_if)
    (simp add: msch_finish_def assigned.save_and_I assigned.become_I assigned.set_status)

lemma call_if_steps: "call_if c out h u rest = call_each out h (if c then [u] else []) rest"
  by (rule ext) (rule call_if_each)

lemma msch_assign_done:
  assumes "assigned_are x (set current) (set current) s" "du_assigned w (ms_name (ms_spec x)) = Inr current"
  shows "assigned_done x (set current) (set desired) (msch_assign w existing desired s)"
proof -
  obtain add rm where d: "diffIntSets current desired = (add, rm)" by fastforce
  then have sets: "set add = set desired - set current" "set rm = set current - set desired"
    by (auto simp: diffIntSets_def)
  let ?n = "ms_name (ms_spec x)"
  let ?add = "if add \<noteq> [] then [AssignScheduleToSystems ?n add (msch_strategy (ms_spec x))] else []"
  let ?rm = "if rm \<noteq> [] then [RetractScheduleFromSystems rm] else []"
  let ?rest = "call_each (bw_out w) (msch_fail w ''ScheduleFailed'') ?rm (msch_finish w existing desired)"
  have spec: "ms_spec (mem s) = ms_spec x" using assms(1) by (simp add: assigned_are_def same_schedule_def)
  have "assigned_done x (set current) (set desired) (call_each (bw_out w) (msch_fail w ''ScheduleFailed'') ?add ?rest s)"
    (is "?done (call_each _ _ _ _ s)")
    using call_each_cases [of "bw_out w" "msch_fail w ''ScheduleFailed''" ?add ?rest s]
  proof (elim disjE exE conjE)
    fix e s' assume "call_each (bw_out w) (msch_fail w ''ScheduleFailed'') ?add ?rest s = msch_fail w ''ScheduleFailed'' e s'"
    then show ?thesis by (simp add: msch_fail_def)
  next
    fix s1 assume eq: "call_each (bw_out w) (msch_fail w ''ScheduleFailed'') ?add ?rest s = ?rest s1"
      and s1: "mem s1 = mem s" "call_log (trace s1) = call_log (trace s) @ map (\<lambda>u. (u, True)) ?add"
    have "?done (?rest s1)"
      using call_each_cases [of "bw_out w" "msch_fail w ''ScheduleFailed''" ?rm "msch_finish w existing desired" s1]
    proof (elim disjE exE conjE)
      fix e s' assume "?rest s1 = msch_fail w ''ScheduleFailed'' e s'"
      then show ?thesis by (simp add: msch_fail_def)
    next
      fix s2 assume eq2: "?rest s1 = msch_finish w existing desired s2"
        and s2: "mem s2 = mem s1" "call_log (trace s2) = call_log (trace s1) @ map (\<lambda>u. (u, True)) ?rm"
      have "assigned_are x (set current) (set desired) s2"
        using assms(1) s1 s2 sets by (auto simp: assigned_are_def assigned_after_append)
      then show ?thesis unfolding eq2 by (rule msch_finish_are)
    qed
    then show ?thesis unfolding eq .
  qed
  then show ?thesis
    unfolding msch_assign_def Let_def spec assms(2) sum.case d prod.case call_if_steps .
qed

lemma resolve_systems_cong:
  assumes "same_schedule x y"
  shows "resolveDesiredSystems w y = resolveDesiredSystems w x" "resolveCalendar w y = resolveCalendar w x"
    "ms_spec y = ms_spec x"
proof -
  have eqs: "ms_spec y = ms_spec x" "obj_namespace y = obj_namespace x" using assms by (simp_all add: same_schedule_def)
  show "resolveDesiredSystems w y = resolveDesiredSystems w x" "resolveCalendar w y = resolveCalendar w x"
    "ms_spec y = ms_spec x"
    unfolding resolveDesiredSystems_def resolveCalendar_def eqs by (rule refl)+
qed

lemma msch_systems_done:
  assumes "assigned_are x (set current) (set current) s" "du_assigned w (ms_name (ms_spec x)) = Inr current"
    and "resolveDesiredSystems w x = Resolved desired"
  shows "assigned_done x (set current) (set desired) (msch_systems w existing s)"
  using assms msch_assign_done resolve_systems_cong(1) [of x "mem s" w]
  by (simp add: msch_systems_def with_resolved_def assigned_are_def)

lemma msch_converge_done:
  assumes s: "assigned_are x (set current) (set current) s" and "du_assigned w (ms_name (ms_spec x)) = Inr current"
    and "resolveDesiredSystems w x = Resolved desired"
  shows "assigned_done x (set current) (set desired) (msch_converge w s)"
proof -
  have call: "assigned_are x (set current) (set current) (try_call (bw_out w) u s)" if "\<not> assignment_call u" for u
    using assigned.try_call_I [OF s that, of w] by simp
  have "assigned_done x (set current) (set desired) (msch_realize w l s)" for l
    unfolding msch_realize_def Let_def call_if_def call_or_eq msch_fail_def
    using msch_systems_done [OF s assms(2,3)] msch_systems_done [OF call assms(2,3)]
    by (auto split: sum.split option.split)
  then show ?thesis by (auto simp: msch_converge_def with_resolved_def split: resolve.split)
qed


definition sample_schedule :: maintenance_schedule where
  "sample_schedule = k8s_object.extend (sample_meta ''m'' [mschedFinalizer] False)
     \<lparr>ms_spec = \<lparr>ms_name = ''night'', ms_type = ''Multi'', ms_calendar_ref = None, ms_system_refs = [\<lparr>lor_name = ''a''\<rparr>],
        ms_system_group_refs = [\<lparr>lor_name = ''g''\<rparr>], ms_reschedule_strategy = [], ms_organization_ref = None\<rparr>,
      ms_status = \<lparr>mss_uyuni_id = 0, mss_resolved_system_ids = [], mss_system_count = 0, mss_observed_generation = 0,
        mss_conditions = []\<rparr>\<rparr>"

text \<open>The schedule exists and is assigned to the systems 8 and 9; the references name 7, and the group has 8.\<close>

definition schedule_demo_world :: schedule_world where
  "schedule_demo_world = (let absent = GoErr K8sNotFound [] in
     \<lparr>bw_ssc = replace_cond, bw_client = None, bw_get_org = \<lambda>_ _. Inl absent, bw_out = \<lambda>_. None,
      dw_legacy = [], dw_order = id, dw_get_calendar = \<lambda>_ _. Inl absent,
      dw_systems = \<lparr>fd_get = \<lambda>_ n. Inr (sample_member n 7), fd_list = \<lambda>_. Inr []\<rparr>,
      dw_get_group = \<lambda>_ n. Inr (sample_group [] False []), du_names = Inr [''night''],
      du_schedule = \<lambda>n. Inr \<lparr>msd_id = 3, msd_org_id = 1, msd_name = n, msd_type = ''multi'', msd_calendar = None\<rparr>,
      du_created = \<lparr>msd_id = 3, msd_org_id = 1, msd_name = [], msd_type = [], msd_calendar = None\<rparr>,
      du_group_members = \<lambda>_. Inr [8], du_assigned = \<lambda>_. Inr [8, 9]\<rparr>)"

lemmas schedule_sample_simps = sample_schedule_def schedule_demo_world_def sample_simps


section \<open>Deletion\<close>

text \<open>A schedule is deleted in Uyuni only after the systems it is assigned to were retracted.\<close>

lemma schedule_deletion_calls:
  assumes "obj_deleting ms" "\<not> fst (migrateAnnotations (dw_legacy w) ms)" "du_assigned w (ms_name (ms_spec ms)) = Inr current"
  shows "call_log (trace (pass_of (msch_Reconcile w ms))) =
    (if \<not> containsFinalizer ms mschedFinalizer \<or> has_annotation ms AnnForceDelete \<or> bw_client w \<noteq> None then []
     else if current = [] then [(DeleteMaintenanceSchedule (ms_name (ms_spec ms)), bw_out w 0 = None)]
     else if bw_out w 0 \<noteq> None then [(RetractScheduleFromSystems current, False)]
     else [(RetractScheduleFromSystems current, True),
           (DeleteMaintenanceSchedule (ms_name (ms_spec ms)), bw_out w 1 = None)])"
  using assms
  by (cases "migrateAnnotations (dw_legacy w) ms")
    (auto simp: msch_Reconcile_def msch_handleDeletion_def msch_delete_def delete_guarded_def call_if_def call_or_eq
      call_log_of_delete_call Let_def split: option.split)

abbreviation calendar_kept :: "calendar_call \<Rightarrow> bool" where
  "calendar_kept u \<equiv> (case u of DeleteMaintenanceCalendar l b \<Rightarrow> False | _ \<Rightarrow> True)"

interpretation calendar_calls: pass_rule "mcal_kit w" "only_calls (\<lambda>u. calendar_kept u)" "\<lambda>_. True" "\<lambda>u. calendar_kept u" for w
  by (rule only_calls_rule)

lemma mcal_live:
  assumes "only_calls (\<lambda>u. calendar_kept u) s"
  shows "only_calls (\<lambda>u. calendar_kept u) (pass_of (if has_annotation (mem s) AnnRefreshNow then mcal_refresh w s else mcal_converge w s))"
proof -
  have finish: "only_calls (\<lambda>u. calendar_kept u) (pass_of (mcal_finish w d s))" if "only_calls (\<lambda>u. calendar_kept u) s" for d s
    using that by (simp add: mcal_finish_def calendar_calls.save_and_I calendar_calls.become_I)
  have "only_calls (\<lambda>u. calendar_kept u) (pass_of (mcal_converge w s))"
    using assms
    by (auto simp: mcal_converge_def mcal_fail_def Let_def call_if_def call_or_eq finish calendar_calls.fail_I
        intro!: finish calendar_calls.fail_I calendar_calls.try_call_I [unfolded mcal_kit_simps] split: sum.split option.split)
  moreover have "only_calls (\<lambda>u. calendar_kept u) (pass_of (mcal_refresh w s))"
    using assms calendar_calls.try_call_I [OF assms, unfolded mcal_kit_simps]
    by (auto simp: mcal_refresh_def mcal_fail_def call_or_eq Let_def return_error_def
        intro!: calendar_calls.fail_I calendar_calls.save_then_I split: option.split prod.split)
      (use only_calls_simps(5) in \<open>metis snd_conv calendar_calls.strip_annotation_I mcal_kit_simps(1,2)\<close>)+
  ultimately show ?thesis by simp
qed

lemma mcal_removal_iff:
  assumes "\<not> fst (migrateAnnotations (lw_legacy w) mc)"
  shows "DeleteMaintenanceCalendar l b \<in> fst ` set (call_log (trace (pass_of (mcal_Reconcile w mc)))) \<longleftrightarrow>
     obj_deleting mc \<and> containsFinalizer mc mcalFinalizer \<and> \<not> has_annotation mc AnnForceDelete \<and>
     referencingSchedules w mc = Inr [] \<and> bw_client w = None \<and> l = mc_label (mc_spec mc) \<and> b"
proof (cases "obj_deleting mc")
  case True
  then show ?thesis using assms
    by (cases "migrateAnnotations (lw_legacy w) mc")
      (auto simp: mcal_Reconcile_def mcal_handleDeletion_def delete_guarded_def call_log_of_delete_call Let_def
        split: sum.splits)
next
  case False
  have "only_calls (\<lambda>u. calendar_kept u) (pass_of (mcal_Reconcile w mc))"
    using False assms
    by (cases "migrateAnnotations (lw_legacy w) mc")
      (auto simp: mcal_Reconcile_def Let_def mcal_fail_def mcal_live split: option.split
        intro!: calendar_calls.fail_I calendar_calls.with_finalizer_I calendar_calls.with_owner_I)
  then show ?thesis using False only_calls_absent [of _ _ "DeleteMaintenanceCalendar l b"] by fastforce
qed

end
