(* ===== verification/Cobbler_Client.thy ===== *)
theory Cobbler_Client
  imports Cobbler_Xmlrpc Kind_Steps
begin

text \<open>
  \<^verbatim>\<open>internal/cobbler/client.go\<close>: the Cobbler client over the XMLRPC codec.  A client keeps a login token;
  the state of a run is the token with the log of the requests it sent and what came back.  The HTTP
  exchange is a parameter: the answer to the n-th request, or the error of getting one.
\<close>

section \<open>Requests\<close>

text \<open>An error with the message of the fault it wraps, if any (what \<^verbatim>\<open>errors.As\<close> finds).\<close>

datatype cobbler_error = CobblerErr (cob_fault: "string option") (cob_text: string)

definition plain_err :: "go_error \<Rightarrow> cobbler_error" where
  "plain_err e = CobblerErr None (err_text e)"

definition wrap_cob :: "string \<Rightarrow> cobbler_error \<Rightarrow> cobbler_error" where
  "wrap_cob p e = CobblerErr (cob_fault e) (p @ cob_text e)"

text \<open>The body of an answer is its XML tokens, with the error that ends the token stream, if any.\<close>

datatype http_answer = NoAnswer go_error | BodyError go_error | Answer int "go_error option" "token list"

record 'd cobbler_net =
  cn_user :: string
  cn_pass :: string
  cn_escape :: "string \<Rightarrow> string"
  cn_format :: "'d \<Rightarrow> string"
  cn_parse :: "string \<Rightarrow> 'd option"
  cn_request :: "go_error option"
  cn_post :: "nat \<Rightarrow> string \<Rightarrow> http_answer"
  cn_order :: "(string \<times> 'd xarg) list \<Rightarrow> (string \<times> 'd xarg) list"

record 'd request =
  rq_method :: string
  rq_args :: "'d xarg list"
  rq_result :: "cobbler_error + 'd xval"

record 'd cobbler_session =
  se_token :: string
  se_log :: "'d request list"

type_synonym ('d, 'a) cob = "'d cobbler_session \<Rightarrow> (cobbler_error + 'a) \<times> 'd cobbler_session"

definition cob_return :: "'a \<Rightarrow> ('d, 'a) cob" where
  "cob_return x s = (Inr x, s)"

definition cob_raise :: "cobbler_error \<Rightarrow> ('d, 'a) cob" where
  "cob_raise e s = (Inl e, s)"

definition cob_bind :: "('d, 'a) cob \<Rightarrow> ('a \<Rightarrow> ('d, 'b) cob) \<Rightarrow> ('d, 'b) cob" where
  "cob_bind m f s = (case m s of (Inl e, s1) \<Rightarrow> (Inl e, s1) | (Inr x, s1) \<Rightarrow> f x s1)"

definition cob_wrap :: "string \<Rightarrow> ('d, 'a) cob \<Rightarrow> ('d, 'a) cob" where
  "cob_wrap p m s = (case m s of (Inl e, s1) \<Rightarrow> (Inl (wrap_cob p e), s1) | r \<Rightarrow> r)"

definition exchange_of :: "'d cobbler_net \<Rightarrow> string \<Rightarrow> http_answer \<Rightarrow> cobbler_error + 'd xval" where
  "exchange_of net method a =
     (case a of
        NoAnswer e \<Rightarrow> Inl (plain_err (wrap_err (''cobbler '' @ method @ '': '') e))
      | BodyError e \<Rightarrow> Inl (plain_err e)
      | Answer code stream_end ts \<Rightarrow>
          if code \<noteq> 200 then Inl (plain_err (errorf (''cobbler '' @ method @ '': HTTP '' @ itoa code)))
          else case decodeResponse (cn_parse net) stream_end ts of
            OutOfFuel \<Rightarrow> Inl (plain_err (errorf []))
          | Failed e \<Rightarrow> Inl (plain_err e)
          | Read (Inl (code, m)) _ \<Rightarrow> Inl (CobblerErr (Some m) (''cobbler fault '' @ itoa code @ '': '' @ m))
          | Read (Inr v) _ \<Rightarrow> Inr v)"

definition cob_call :: "'d cobbler_net \<Rightarrow> string \<Rightarrow> 'd xarg list \<Rightarrow> ('d, 'd xval) cob" where
  "cob_call net method args s =
     (case encodeRequest (cn_escape net) (cn_format net) method args of
        Inl e \<Rightarrow> (Inl (plain_err e), s)
      | Inr body \<Rightarrow>
          (case cn_request net of
             Some e \<Rightarrow> (Inl (plain_err e), s)
           | None \<Rightarrow>
               let r = exchange_of net method (cn_post net (length (se_log s)) body) in
               (r, s\<lparr>se_log := se_log s @ [\<lparr>rq_method = method, rq_args = args, rq_result = r\<rparr>]\<rparr>)))"

text \<open>\<^verbatim>\<open>s, _ := res.(string)\<close>.\<close>

definition as_string :: "'d xval \<Rightarrow> string" where
  "as_string v = (case v of XStr s \<Rightarrow> s | _ \<Rightarrow> [])"

definition ensureToken :: "'d cobbler_net \<Rightarrow> ('d, string) cob" where
  "ensureToken net s =
     (if se_token s \<noteq> [] then (Inr (se_token s), s)
      else cob_bind (cob_wrap ''cobbler login: '' (cob_call net ''login'' [AStr (cn_user net), AStr (cn_pass net)]))
        (\<lambda>res s1. if as_string res = [] then cob_raise (plain_err (errorf ''cobbler login returned an empty token'')) s1
           else (Inr (as_string res), s1\<lparr>se_token := as_string res\<rparr>)) s)"

definition resetToken :: "'d cobbler_session \<Rightarrow> 'd cobbler_session" where
  "resetToken s = s\<lparr>se_token := []\<rparr>"

definition isAuthFault :: "cobbler_error \<Rightarrow> bool" where
  "isAuthFault e =
     (case cob_fault e of
        None \<Rightarrow> False
      | Some m \<Rightarrow> str_contains (to_lower m) ''token'' \<or> str_contains (to_lower m) ''login'' \<or>
          str_contains (to_lower m) ''invalid'')"

text \<open>The pattern of the public operations: once more with a new token after a login fault.\<close>

definition with_relogin :: "('d, 'a) cob \<Rightarrow> ('d, 'a) cob" where
  "with_relogin m s =
     (case m s of
        (Inl e, s1) \<Rightarrow> if isAuthFault e then m (resetToken s1) else (Inl e, s1)
      | r \<Rightarrow> r)"

section \<open>Reads\<close>

definition getItem :: "'d cobbler_net \<Rightarrow> string \<Rightarrow> string \<Rightarrow> ('d, (string \<times> 'd xval) list option) cob" where
  "getItem net method name =
     cob_bind (cob_call net method [AStr name])
       (\<lambda>res. cob_return (case res of XStruct m \<Rightarrow> Some m | _ \<Rightarrow> None))"

definition GetSystem :: "'d cobbler_net \<Rightarrow> string \<Rightarrow> ('d, (string \<times> 'd xval) list option) cob" where
  "GetSystem net = getItem net ''get_system''"

definition GetProfile :: "'d cobbler_net \<Rightarrow> string \<Rightarrow> ('d, (string \<times> 'd xval) list option) cob" where
  "GetProfile net = getItem net ''get_profile''"

definition GetDistro :: "'d cobbler_net \<Rightarrow> string \<Rightarrow> ('d, (string \<times> 'd xval) list option) cob" where
  "GetDistro net = getItem net ''get_distro''"

text \<open>\<^verbatim>\<open>s, _ := m[key].(string)\<close>, which is also \<^verbatim>\<open>strVal\<close> of the controllers.\<close>

definition str_val :: "(string \<times> 'd xval) list \<Rightarrow> string \<Rightarrow> string" where
  "str_val m k = (case map_of m k of Some (XStr s) \<Rightarrow> s | _ \<Rightarrow> [])"

definition uid_of :: "(string \<times> 'd xval) list option \<Rightarrow> string" where
  "uid_of r = (case r of None \<Rightarrow> [] | Some m \<Rightarrow> str_val m ''uid'')"

fun string_members :: "(string \<times> 'd xval) list \<Rightarrow> (string \<times> string) list" where
  "string_members [] = []"
| "string_members ((k, XStr s) # m) = (k, s) # string_members m"
| "string_members (_ # m) = string_members m"

definition ItemAutoinstallMeta :: "(string \<times> 'd xval) list \<Rightarrow> (string \<times> string) list" where
  "ItemAutoinstallMeta item =
     (case map_of item ''autoinstall_meta'' of
        Some (XStruct (x # m)) \<Rightarrow> string_members (x # m)
      | _ \<Rightarrow> (case map_of item ''ks_meta'' of Some (XStruct m) \<Rightarrow> string_members m | _ \<Rightarrow> []))"

section \<open>Handles and fields\<close>

definition itemHandle :: "'d cobbler_net \<Rightarrow> string \<Rightarrow> string \<Rightarrow> string \<Rightarrow> ('d, string) cob" where
  "itemHandle net kind name tok =
     cob_bind (getItem net (''get_'' @ kind) name) (\<lambda>found.
       if found \<noteq> None
       then cob_bind (cob_call net (''get_'' @ kind @ ''_handle'') [AStr name, AStr tok]) (\<lambda>res. cob_return (as_string res))
       else cob_bind (cob_call net (''new_'' @ kind) [AStr tok]) (\<lambda>res.
         cob_bind (cob_call net (''modify_'' @ kind) [AStr (as_string res), AStr ''name'', AStr name, AStr tok])
           (\<lambda>_. cob_return (as_string res))))"

definition modify :: "'d cobbler_net \<Rightarrow> string \<Rightarrow> string \<Rightarrow> string \<Rightarrow> string \<Rightarrow> 'd xarg \<Rightarrow> ('d, unit) cob" where
  "modify net kind tok handle field v =
     cob_bind (cob_wrap (''modify_'' @ kind @ '' '' @ field @ '': '')
         (cob_call net (''modify_'' @ kind) [AStr handle, AStr field, v, AStr tok]))
       (\<lambda>_. cob_return ())"

fun modify_all :: "'d cobbler_net \<Rightarrow> string \<Rightarrow> string \<Rightarrow> string \<Rightarrow> (string \<times> 'd xarg) list \<Rightarrow> ('d, unit) cob" where
  "modify_all net kind tok handle [] = cob_return ()"
| "modify_all net kind tok handle ((k, v) # fs) =
     cob_bind (modify net kind tok handle k v) (\<lambda>_. modify_all net kind tok handle fs)"

definition save_item :: "'d cobbler_net \<Rightarrow> string \<Rightarrow> string \<Rightarrow> string \<Rightarrow> ('d, unit) cob" where
  "save_item net kind tok handle =
     cob_bind (cob_wrap (''save_'' @ kind @ '': '') (cob_call net (''save_'' @ kind) [AStr handle, AStr tok]))
       (\<lambda>_. cob_return ())"

text \<open>The common course of an upsert: handle, fields, save, and the uid read back.\<close>

definition upsert_fields ::
  "'d cobbler_net \<Rightarrow> string \<Rightarrow> string \<Rightarrow> (string \<times> 'd xarg) list \<Rightarrow> ('d, string) cob" where
  "upsert_fields net kind name fs =
     cob_bind (ensureToken net) (\<lambda>tok.
     cob_bind (itemHandle net kind name tok) (\<lambda>handle.
     cob_bind (modify_all net kind tok handle fs) (\<lambda>_.
     cob_bind (save_item net kind tok handle) (\<lambda>_.
     cob_bind (getItem net (''get_'' @ kind) name) (\<lambda>found. cob_return (uid_of found))))))"

section \<open>System records\<close>

record system_interface =
  sif_name :: string
  sif_mac :: string
  sif_ip :: string
  sif_dns_name :: string
  sif_management :: bool

record system_request =
  srq_name :: string
  srq_hostname :: string
  srq_profile :: string
  srq_autoinstall_meta :: "(string \<times> string) list"
  srq_interfaces :: "system_interface list"
  srq_server :: string
  srq_comment :: string

definition toAnyMap :: "(string \<times> string) list \<Rightarrow> (string \<times> 'd xarg) list" where
  "toAnyMap m = map (\<lambda>(k, v). (k, AStr v)) m"

definition put_if :: "bool \<Rightarrow> string \<Rightarrow> 'd xarg \<Rightarrow> (string \<times> 'd xarg) list \<Rightarrow> (string \<times> 'd xarg) list" where
  "put_if c k v m = (if c then put k v m else m)"

definition add_interface :: "system_interface \<Rightarrow> (string \<times> 'd xarg) list \<Rightarrow> (string \<times> 'd xarg) list" where
  "add_interface nic m =
     put_if (sif_management nic) (''management-'' @ sif_name nic) (ABool True)
     (put_if (sif_dns_name nic \<noteq> []) (''dnsname-'' @ sif_name nic) (AStr (sif_dns_name nic))
     (put_if (sif_ip nic \<noteq> []) (''ipaddress-'' @ sif_name nic) (AStr (sif_ip nic))
     (put_if (sif_mac nic \<noteq> []) (''macaddress-'' @ sif_name nic) (AStr (sif_mac nic)) m)))"

definition interface_map :: "system_interface list \<Rightarrow> (string \<times> 'd xarg) list" where
  "interface_map nics = fold add_interface nics []"

definition system_fields :: "system_request \<Rightarrow> (string \<times> 'd xarg) list" where
  "system_fields r =
     [(''profile'', AStr (srq_profile r))]
     @ (if srq_hostname r \<noteq> [] then [(''hostname'', AStr (srq_hostname r))] else [])
     @ [(''comment'', AStr (srq_comment r))]
     @ (if srq_autoinstall_meta r \<noteq> [] then [(''autoinstall_meta'', AMapAny (toAnyMap (srq_autoinstall_meta r)))] else [])
     @ (if srq_server r \<noteq> [] then [(''server'', AStr (srq_server r))] else [])
     @ (if srq_interfaces r \<noteq> [] then [(''modify_interface'', AMapAny (interface_map (srq_interfaces r)))] else [])"

definition UpsertSystem :: "'d cobbler_net \<Rightarrow> system_request \<Rightarrow> ('d, string) cob" where
  "UpsertSystem net r = with_relogin (upsert_fields net ''system'' (srq_name r) (system_fields r))"

definition setNetbootOnce :: "'d cobbler_net \<Rightarrow> string \<Rightarrow> bool \<Rightarrow> ('d, unit) cob" where
  "setNetbootOnce net name enabled =
     cob_bind (ensureToken net) (\<lambda>tok.
     cob_bind (itemHandle net ''system'' name tok) (\<lambda>handle.
     cob_bind (modify net ''system'' tok handle ''netboot_enabled'' (ABool enabled)) (\<lambda>_.
       save_item net ''system'' tok handle)))"

definition SetNetboot :: "'d cobbler_net \<Rightarrow> string \<Rightarrow> bool \<Rightarrow> ('d, unit) cob" where
  "SetNetboot net name enabled = with_relogin (setNetbootOnce net name enabled)"

section \<open>Distributions, profiles, removal\<close>

definition removeItemOnce :: "'d cobbler_net \<Rightarrow> string \<Rightarrow> string \<Rightarrow> ('d, unit) cob" where
  "removeItemOnce net kind name =
     cob_bind (getItem net (''get_'' @ kind) name) (\<lambda>found.
       if found = None then cob_return ()
       else cob_bind (ensureToken net) (\<lambda>tok.
         cob_bind (cob_call net (''remove_'' @ kind) [AStr name, AStr tok]) (\<lambda>_. cob_return ())))"

definition removeItem :: "'d cobbler_net \<Rightarrow> string \<Rightarrow> string \<Rightarrow> ('d, unit) cob" where
  "removeItem net kind name = with_relogin (removeItemOnce net kind name)"

definition RemoveSystem :: "'d cobbler_net \<Rightarrow> string \<Rightarrow> ('d, unit) cob" where
  "RemoveSystem net = removeItem net ''system''"

definition RemoveDistro :: "'d cobbler_net \<Rightarrow> string \<Rightarrow> ('d, unit) cob" where
  "RemoveDistro net = removeItem net ''distro''"

definition RemoveProfile :: "'d cobbler_net \<Rightarrow> string \<Rightarrow> ('d, unit) cob" where
  "RemoveProfile net = removeItem net ''profile''"

text \<open>The fields of a map, set in the order a \<^verbatim>\<open>range\<close> visits them.\<close>

definition upsertItemOnce ::
  "'d cobbler_net \<Rightarrow> string \<Rightarrow> string \<Rightarrow> (string \<times> 'd xarg) list \<Rightarrow> ('d, string) cob" where
  "upsertItemOnce net kind name fs = upsert_fields net kind name (cn_order net fs)"

definition upsertItem ::
  "'d cobbler_net \<Rightarrow> string \<Rightarrow> string \<Rightarrow> (string \<times> 'd xarg) list \<Rightarrow> ('d, string) cob" where
  "upsertItem net kind name fs = with_relogin (upsertItemOnce net kind name fs)"

definition putString :: "string \<Rightarrow> string \<Rightarrow> (string \<times> 'd xarg) list" where
  "putString k v = (if v = [] then [] else [(k, AStr v)])"

definition meta_field :: "(string \<times> string) list \<Rightarrow> (string \<times> 'd xarg) list" where
  "meta_field m = (if m = [] then [] else [(''autoinstall_meta'', AMapAny (toAnyMap m))])"

record distro_request =
  drq_name :: string
  drq_kernel :: string
  drq_initrd :: string
  drq_breed :: string
  drq_os_version :: string
  drq_arch :: string
  drq_kernel_options :: string
  drq_autoinstall_meta :: "(string \<times> string) list"

definition distro_fields :: "distro_request \<Rightarrow> (string \<times> 'd xarg) list" where
  "distro_fields d =
     putString ''kernel'' (drq_kernel d) @ putString ''initrd'' (drq_initrd d) @ putString ''breed'' (drq_breed d)
     @ putString ''os_version'' (drq_os_version d) @ putString ''arch'' (drq_arch d)
     @ putString ''kernel_options'' (drq_kernel_options d) @ meta_field (drq_autoinstall_meta d)"

definition UpsertDistro :: "'d cobbler_net \<Rightarrow> distro_request \<Rightarrow> ('d, string) cob" where
  "UpsertDistro net d = upsertItem net ''distro'' (drq_name d) (distro_fields d)"

record profile_request =
  prq_name :: string
  prq_distro :: string
  prq_autoinstall :: string
  prq_kernel_options :: string
  prq_autoinstall_meta :: "(string \<times> string) list"
  prq_enable_menu :: "bool option"

definition profile_fields :: "profile_request \<Rightarrow> (string \<times> 'd xarg) list" where
  "profile_fields p =
     putString ''distro'' (prq_distro p) @ putString ''autoinstall'' (prq_autoinstall p)
     @ putString ''kernel_options'' (prq_kernel_options p) @ meta_field (prq_autoinstall_meta p)
     @ (case prq_enable_menu p of None \<Rightarrow> [] | Some b \<Rightarrow> [(''enable_menu'', ABool b)])"

definition UpsertProfile :: "'d cobbler_net \<Rightarrow> profile_request \<Rightarrow> ('d, string) cob" where
  "UpsertProfile net p = upsertItem net ''profile'' (prq_name p) (profile_fields p)"

text \<open>A client built by \<^verbatim>\<open>New\<close>, and the public operations that write.\<close>

definition new_session :: "'d cobbler_session" where
  "new_session = \<lparr>se_token = [], se_log = []\<rparr>"

datatype cobbler_op =
    OpUpsertSystem system_request
  | OpUpsertDistro distro_request
  | OpUpsertProfile profile_request
  | OpSetNetboot string bool
  | OpRemove string string
  | OpGet string string

fun run_op :: "'d cobbler_net \<Rightarrow> cobbler_op \<Rightarrow> 'd cobbler_session \<Rightarrow> 'd cobbler_session" where
  "run_op net (OpUpsertSystem r) s = snd (UpsertSystem net r s)"
| "run_op net (OpUpsertDistro d) s = snd (UpsertDistro net d s)"
| "run_op net (OpUpsertProfile p) s = snd (UpsertProfile net p s)"
| "run_op net (OpSetNetboot n b) s = snd (SetNetboot net n b s)"
| "run_op net (OpRemove kind n) s = snd (removeItem net kind n s)"
| "run_op net (OpGet kind n) s = snd (getItem net (''get_'' @ kind) n s)"

end
