(* ===== verification/Cobbler_Controller.thy ===== *)
theory Cobbler_Controller
  imports Cobbler_Client Kind_Facts Api_Content
begin

text \<open>
  The CobblerSystem, CobblerDistro and CobblerProfile reconcilers (\<^verbatim>\<open>cobbler_controller.go\<close>).  A pass
  runs at most one operation of the Cobbler client, on the session the pool keeps; its result is what
  the client model of \<open>Cobbler_Client\<close> computes, so a theorem speaks of the requests the server gets.
\<close>

section \<open>World\<close>

record 'd cobbler_world = base_world +
  xw_net :: "'d cobbler_net"
  xw_session :: "'d cobbler_session"
  xw_get_profile :: "cobbler_profile k8s_get"
  xw_get_distro :: "cobbler_distro k8s_get"
  xw_get_system :: "uyuni_system k8s_get"
  xw_controller_of :: "cobbler_system \<Rightarrow> owner_ref option"

text \<open>
  The events besides the writes of the object itself: an operation of the client, and the two writes of
  the System that owns a CobblerSystem, \<^verbatim>\<open>Status().Update\<close> with the netboot value and the \<^verbatim>\<open>Update\<close>
  that drops its annotation.
\<close>

datatype cobbler_call =
    Cob cobbler_op
  | MirrorNetboot string bool
  | StripNetboot string

type_synonym 'o cob_pass = "('o, cobbler_call) pass"

type_synonym 'o cob_outcome = "('o, cobbler_call) outcome"

definition cob_go :: "cobbler_error \<Rightarrow> go_error" where
  "cob_go e = errorf (cob_text e)"

definition cob_or ::
  "'d cobbler_world \<Rightarrow> cobbler_op \<Rightarrow> ('d, 'r) cob \<Rightarrow> (go_error \<Rightarrow> 'o cob_pass \<Rightarrow> 'o cob_outcome) \<Rightarrow>
   ('r \<Rightarrow> 'o cob_pass \<Rightarrow> 'o cob_outcome) \<Rightarrow> 'o cob_pass \<Rightarrow> 'o cob_outcome" where
  "cob_or w op m handle rest s =
     (case fst (m (xw_session w)) of
        Inl e \<Rightarrow> handle (cob_go e) (s\<lparr>trace := trace s @ [(Call (Cob op), False)]\<rparr>)
      | Inr x \<Rightarrow> rest x (effect (Cob op) s))"

text \<open>The operations of a log, and the session after them.\<close>

definition cob_ops :: "(cobbler_call \<times> bool) list \<Rightarrow> cobbler_op list" where
  "cob_ops l = List.map_filter (\<lambda>(u, _). case u of Cob op \<Rightarrow> Some op | _ \<Rightarrow> None) l"

definition session_after :: "'d cobbler_world \<Rightarrow> (cobbler_call \<times> bool) list \<Rightarrow> 'd cobbler_session" where
  "session_after w l = fold (run_op (xw_net w)) (cob_ops l) (xw_session w)"

section \<open>Steps the three kinds share\<close>

definition CobblerModeCreate :: string where
  "CobblerModeCreate = ''create''"

definition CobblerModeImport :: string where
  "CobblerModeImport = ''import''"

definition cobblerMode :: "string \<Rightarrow> string" where
  "cobblerMode m = (if m = [] then CobblerModeImport else m)"

definition cobblerHeartbeat :: int where
  "cobblerHeartbeat = 5 * minute"

definition cobblerWait :: int where
  "cobblerWait = 30 * second"

text \<open>The deletion: a record the operator created is removed, unless the force annotation says not to.\<close>

definition cob_delete ::
  "(('a) k8s_object_scheme, 'st) kit \<Rightarrow> 'd cobbler_world \<Rightarrow> string \<Rightarrow> string \<Rightarrow> string \<Rightarrow> string \<Rightarrow>
   (('a) k8s_object_scheme) cob_pass \<Rightarrow> (('a) k8s_object_scheme) cob_outcome" where
  "cob_delete k w fin mode kind name s =
     (if \<not> containsFinalizer (mem s) fin then (result_done, None, s)
      else if mode = CobblerModeCreate \<and> \<not> has_annotation (mem s) AnnForceDelete
      then cob_or w (OpRemove kind name) (removeItem (xw_net w) kind name) (fail_with k ''DeleteFailed'')
        (\<lambda>_. release k fin) s
      else release k fin s)"

text \<open>
  The opening of every pass: the client, whose absence fails also the pass of an object in deletion, the
  deletion, the finalizer.
\<close>

definition cob_begin ::
  "(('a) k8s_object_scheme, 'st) kit \<Rightarrow> 'd cobbler_world \<Rightarrow> string \<Rightarrow> string \<Rightarrow> string \<Rightarrow> string \<Rightarrow>
   ((('a) k8s_object_scheme) cob_pass \<Rightarrow> (('a) k8s_object_scheme) cob_outcome) \<Rightarrow>
   (('a) k8s_object_scheme) cob_pass \<Rightarrow> (('a) k8s_object_scheme) cob_outcome" where
  "cob_begin k w fin mode kind name rest s =
     (case bw_client w of
        Some e \<Rightarrow> fail_with k ''ProviderError'' e s
      | None \<Rightarrow>
          if obj_deleting (mem s) then cob_delete k w fin mode kind name s
          else with_finalizer k fin rest s)"

section \<open>CobblerSystem\<close>

definition cobsys_kind :: "(cobbler_system, cobbler_system_status) kind_ops" where
  "cobsys_kind = \<lparr>status_of = csystem_status, with_status = \<lambda>st o'. o'\<lparr>csystem_status := st\<rparr>\<rparr>"

interpretation cobsys_status_field: status_field cobsys_kind
  by unfold_locales (simp_all add: cobsys_kind_def k8s_object.defs)

definition cobsys_kit :: "'d cobbler_world \<Rightarrow> (cobbler_system, cobbler_system_status) kit" where
  "cobsys_kit w = kit_of cobsys_kind csyst_conditions_update w"

definition cobsys_fail ::
  "'d cobbler_world \<Rightarrow> string \<Rightarrow> go_error \<Rightarrow> cobbler_system cob_pass \<Rightarrow> cobbler_system cob_outcome" where
  "cobsys_fail w = fail_with (cobsys_kit w)"

definition waitReason ::
  "'d cobbler_world \<Rightarrow> string \<Rightarrow> string \<Rightarrow> cobbler_system cob_pass \<Rightarrow> cobbler_system cob_outcome" where
  "waitReason w reason msg s =
     save_and (cobsys_kit w) (result_after cobblerWait)
       (become (cobsys_kit w) False reason msg
         (set_st (cobsys_kit w) (\<lambda>st. st\<lparr>csyst_found := False,
            csyst_observed_generation := obj_generation (mem s)\<rparr>) s))"

definition cobsys_waiting ::
  "'d cobbler_world \<Rightarrow> string \<Rightarrow> cobbler_system cob_pass \<Rightarrow> cobbler_system cob_outcome" where
  "cobsys_waiting w = waitReason w ''WaitingForCobblerObject''"

definition cobsys_ready ::
  "'d cobbler_world \<Rightarrow> string \<Rightarrow> string \<Rightarrow> cobbler_system cob_pass \<Rightarrow> cobbler_system cob_outcome" where
  "cobsys_ready w reason msg s =
     save_and (cobsys_kit w) (result_after cobblerHeartbeat)
       (become (cobsys_kit w) True reason msg
         (set_st (cobsys_kit w) (\<lambda>st. st\<lparr>csyst_found := True,
            csyst_observed_generation := obj_generation (mem s)\<rparr>) s))"

definition resolveProfileName :: "'d cobbler_world \<Rightarrow> cobbler_system \<Rightarrow> string resolve" where
  "resolveProfileName w cs =
     (let sp = csystem_spec cs in
      if csys_profile_name sp \<noteq> [] then Resolved (csys_profile_name sp)
      else case csys_profile_ref sp of
        None \<Rightarrow> Resolved []
      | Some ref \<Rightarrow> get_or (''CobblerProfile '' @ go_quote (lor_name ref) @ '' not found'')
          (\<lambda>p. Resolved (cpfs_name (cprofile_spec p))) (xw_get_profile w (obj_namespace cs) (lor_name ref)))"

text \<open>The request of \<^verbatim>\<open>UpsertSystem\<close> made from the spec.\<close>

definition interface_of :: "cobbler_interface \<Rightarrow> system_interface" where
  "interface_of n = \<lparr>sif_name = ci_name n, sif_mac = ci_mac_address n, sif_ip = ci_ip_address n,
     sif_dns_name = ci_dns_name n, sif_management = ci_management n\<rparr>"

definition request_of_system :: "cobbler_system_spec \<Rightarrow> string \<Rightarrow> system_request" where
  "request_of_system sp profile =
     \<lparr>srq_name = csys_name sp, srq_hostname = csys_hostname sp, srq_profile = profile,
      srq_autoinstall_meta = csys_autoinstall_meta sp, srq_interfaces = map interface_of (csys_interfaces sp),
      srq_server = csys_server sp, srq_comment = csys_comment sp\<rparr>"

definition cobsys_import :: "'d cobbler_world \<Rightarrow> cobbler_system cob_pass \<Rightarrow> cobbler_system cob_outcome" where
  "cobsys_import w s =
     (let name = csys_name (csystem_spec (mem s)) in
      cob_or w (OpGet ''system'' name) (GetSystem (xw_net w) name) (cobsys_fail w ''CobblerError'')
        (\<lambda>found s1. case found of
             None \<Rightarrow> cobsys_waiting w (''cobbler system '' @ go_quote name @ '' not found yet'') s1
           | Some item \<Rightarrow> cobsys_ready w ''Observed'' ''cobbler system observed''
               (set_st (cobsys_kit w) (\<lambda>st. st\<lparr>csyst_cobbler_id := str_val item ''uid'',
                  csyst_profile_name := str_val item ''profile''\<rparr>) s1)) s)"

definition cobsys_upsert ::
  "'d cobbler_world \<Rightarrow> string \<Rightarrow> cobbler_system cob_pass \<Rightarrow> cobbler_system cob_outcome" where
  "cobsys_upsert w profile s =
     (let r = request_of_system (csystem_spec (mem s)) profile in
      cob_or w (OpUpsertSystem r) (UpsertSystem (xw_net w) r) (cobsys_fail w ''CreateFailed'')
        (\<lambda>uid s1. cobsys_ready w ''Reconciled'' ''cobbler system record reconciled''
           (set_st (cobsys_kit w) (\<lambda>st. st\<lparr>csyst_cobbler_id := uid, csyst_profile_name := profile\<rparr>) s1)) s)"

definition cobsys_create :: "'d cobbler_world \<Rightarrow> cobbler_system cob_pass \<Rightarrow> cobbler_system cob_outcome" where
  "cobsys_create w s =
     (case resolveProfileName w (mem s) of
        Broken e \<Rightarrow> cobsys_fail w ''ResolveRefs'' e s
      | resolve.Wait m \<Rightarrow> waitReason w ''WaitingForProfile'' m s
      | Resolved profile \<Rightarrow> cobsys_upsert w profile s)"

text \<open>
  \<^verbatim>\<open>clearParentSystemNetboot\<close>: the owning System gets the value in its status if it was applied, and
  loses the annotation.  \<open>rest\<close> is what follows without an error.
\<close>

definition clearParentSystemNetboot ::
  "'d cobbler_world \<Rightarrow> bool \<Rightarrow> bool \<Rightarrow> (cobbler_system cob_pass \<Rightarrow> cobbler_system cob_outcome) \<Rightarrow>
   cobbler_system cob_pass \<Rightarrow> cobbler_system cob_outcome" where
  "clearParentSystemNetboot w enabled applied rest s =
     (case xw_controller_of w (mem s) of
        None \<Rightarrow> rest s
      | Some owner \<Rightarrow>
          if or_kind owner \<noteq> ''System'' then rest s
          else case xw_get_system w (obj_namespace (mem s)) (or_name owner) of
            Inl e \<Rightarrow> (case ignore_not_found e of None \<Rightarrow> rest s | Some e' \<Rightarrow> return_error e' s)
          | Inr sys \<Rightarrow>
              call_if applied (bw_out w) return_error (MirrorNetboot (obj_name sys) enabled)
                (call_if (obj_annotations sys AnnNetboot \<noteq> None) (bw_out w) return_error (StripNetboot (obj_name sys)) rest) s)"

text \<open>The annotation is dropped from this object, then from its System; then the pass is run again.\<close>

definition netboot_consume ::
  "'d cobbler_world \<Rightarrow> bool \<Rightarrow> bool \<Rightarrow> cobbler_system cob_pass \<Rightarrow> cobbler_system cob_outcome" where
  "netboot_consume w enabled applied s =
     (case write_object (bw_out w) cobsys_kind (strip_annotation AnnNetboot s) of
        (Some e, s1) \<Rightarrow> return_error e s1
      | (None, s1) \<Rightarrow> clearParentSystemNetboot w enabled applied (\<lambda>s2. (result_requeue, None, s2)) s1)"

definition cobsys_netboot ::
  "'d cobbler_world \<Rightarrow> string \<Rightarrow> string \<Rightarrow> cobbler_system cob_pass \<Rightarrow> cobbler_system cob_outcome" where
  "cobsys_netboot w val mode s =
     (if val \<noteq> ''true'' \<and> val \<noteq> ''false''
      then update_with (cobsys_kit w) result_requeue (strip_annotation AnnNetboot s)
      else let enabled = (val = ''true''); name = csys_name (csystem_spec (mem s)) in
        if mode = CobblerModeCreate
        then cob_or w (OpSetNetboot name enabled) (SetNetboot (xw_net w) name enabled) (cobsys_fail w ''UpdateFailed'')
          (\<lambda>_ s1. save_then (cobsys_kit w) (netboot_consume w enabled True)
             (set_st (cobsys_kit w) (\<lambda>st. st\<lparr>csyst_netboot_enabled := Some enabled,
                csyst_observed_generation := obj_generation (mem s)\<rparr>) s1)) s
        else netboot_consume w enabled False s)"

definition cobsys_converge :: "'d cobbler_world \<Rightarrow> cobbler_system cob_pass \<Rightarrow> cobbler_system cob_outcome" where
  "cobsys_converge w s =
     (let mode = cobblerMode (csys_mode (csystem_spec (mem s))) in
      case obj_annotations (mem s) AnnNetboot of
        Some val \<Rightarrow> cobsys_netboot w val mode s
      | None \<Rightarrow> if mode = CobblerModeImport then cobsys_import w s else cobsys_create w s)"

definition cobsys_Reconcile :: "'d cobbler_world \<Rightarrow> cobbler_system \<Rightarrow> cobbler_system cob_outcome" where
  "cobsys_Reconcile w cs =
     cob_begin (cobsys_kit w) w cobSysFinalizer (cobblerMode (csys_mode (csystem_spec cs))) ''system''
       (csys_name (csystem_spec cs)) (cobsys_converge w) (start_pass cs)"

section \<open>CobblerDistro\<close>

definition cobdist_kind :: "(cobbler_distro, cobbler_distro_status) kind_ops" where
  "cobdist_kind = \<lparr>status_of = cdistro_status, with_status = \<lambda>st o'. o'\<lparr>cdistro_status := st\<rparr>\<rparr>"

interpretation cobdist_status_field: status_field cobdist_kind
  by unfold_locales (simp_all add: cobdist_kind_def k8s_object.defs)

definition cobdist_kit :: "'d cobbler_world \<Rightarrow> (cobbler_distro, cobbler_distro_status) kit" where
  "cobdist_kit w = kit_of cobdist_kind cdst_conditions_update w"

definition cobdist_done ::
  "'d cobbler_world \<Rightarrow> string \<Rightarrow> string \<Rightarrow> cobbler_distro cob_pass \<Rightarrow> cobbler_distro cob_outcome" where
  "cobdist_done w reason msg s =
     save_and (cobdist_kit w) (result_after cobblerHeartbeat)
       (become (cobdist_kit w) True reason msg
         (set_st (cobdist_kit w) (\<lambda>st. st\<lparr>cdst_found := True,
            cdst_observed_generation := obj_generation (mem s)\<rparr>) s))"

definition request_of_distro :: "cobbler_distro_spec \<Rightarrow> distro_request" where
  "request_of_distro sp =
     \<lparr>drq_name = cds_name sp, drq_kernel = cds_kernel sp, drq_initrd = cds_initrd sp, drq_breed = cds_breed sp,
      drq_os_version = cds_os_version sp, drq_arch = cds_arch sp, drq_kernel_options = cds_kernel_options sp,
      drq_autoinstall_meta = cds_autoinstall_meta sp\<rparr>"

definition cobdist_import :: "'d cobbler_world \<Rightarrow> cobbler_distro cob_pass \<Rightarrow> cobbler_distro cob_outcome" where
  "cobdist_import w s =
     (let name = cds_name (cdistro_spec (mem s)) in
      cob_or w (OpGet ''distro'' name) (GetDistro (xw_net w) name) (fail_with (cobdist_kit w) ''CobblerError'')
        (\<lambda>found s1. case found of
             None \<Rightarrow> refuse (cobdist_kit w) cobblerWait ''WaitingForCobblerObject''
               (''cobbler distro '' @ go_quote name @ '' not found yet'')
               (set_st (cobdist_kit w) (\<lambda>st. st\<lparr>cdst_found := False,
                  cdst_observed_generation := obj_generation (mem s)\<rparr>) s1)
           | Some item \<Rightarrow> cobdist_done w ''Observed'' ''cobbler distro observed''
               (set_st (cobdist_kit w) (\<lambda>st. st\<lparr>cdst_cobbler_id := str_val item ''uid''\<rparr>) s1)) s)"

definition cobdist_create :: "'d cobbler_world \<Rightarrow> cobbler_distro cob_pass \<Rightarrow> cobbler_distro cob_outcome" where
  "cobdist_create w s =
     (let r = request_of_distro (cdistro_spec (mem s)) in
      cob_or w (OpUpsertDistro r) (UpsertDistro (xw_net w) r) (fail_with (cobdist_kit w) ''CreateFailed'')
        (\<lambda>uid s1. cobdist_done w ''Reconciled'' ''cobbler distro reconciled''
           (set_st (cobdist_kit w) (\<lambda>st. st\<lparr>cdst_cobbler_id := uid\<rparr>) s1)) s)"

definition cobdist_Reconcile :: "'d cobbler_world \<Rightarrow> cobbler_distro \<Rightarrow> cobbler_distro cob_outcome" where
  "cobdist_Reconcile w cd =
     (let mode = cobblerMode (cds_mode (cdistro_spec cd)) in
      cob_begin (cobdist_kit w) w cobDistFinalizer mode ''distro'' (cds_name (cdistro_spec cd))
        (\<lambda>s. if mode = CobblerModeImport then cobdist_import w s else cobdist_create w s) (start_pass cd))"

section \<open>CobblerProfile\<close>

definition cobprof_kind :: "(cobbler_profile, cobbler_profile_status) kind_ops" where
  "cobprof_kind = \<lparr>status_of = cprofile_status, with_status = \<lambda>st o'. o'\<lparr>cprofile_status := st\<rparr>\<rparr>"

interpretation cobprof_status_field: status_field cobprof_kind
  by unfold_locales (simp_all add: cobprof_kind_def k8s_object.defs)

definition cobprof_kit :: "'d cobbler_world \<Rightarrow> (cobbler_profile, cobbler_profile_status) kit" where
  "cobprof_kit w = kit_of cobprof_kind cpfst_conditions_update w"

definition cobprof_done ::
  "'d cobbler_world \<Rightarrow> string \<Rightarrow> string \<Rightarrow> cobbler_profile cob_pass \<Rightarrow> cobbler_profile cob_outcome" where
  "cobprof_done w reason msg s =
     save_and (cobprof_kit w) (result_after cobblerHeartbeat)
       (become (cobprof_kit w) True reason msg
         (set_st (cobprof_kit w) (\<lambda>st. st\<lparr>cpfst_found := True,
            cpfst_observed_generation := obj_generation (mem s)\<rparr>) s))"

definition resolveDistroName :: "'d cobbler_world \<Rightarrow> cobbler_profile \<Rightarrow> string resolve" where
  "resolveDistroName w cp =
     (let sp = cprofile_spec cp in
      if cpfs_distro_name sp \<noteq> [] then Resolved (cpfs_distro_name sp)
      else case cpfs_distro_ref sp of
        None \<Rightarrow> Resolved []
      | Some ref \<Rightarrow> get_or (''CobblerDistro '' @ go_quote (lor_name ref) @ '' not found'')
          (\<lambda>d. Resolved (cds_name (cdistro_spec d))) (xw_get_distro w (obj_namespace cp) (lor_name ref)))"

definition request_of_profile :: "cobbler_profile_spec \<Rightarrow> string \<Rightarrow> profile_request" where
  "request_of_profile sp distro =
     \<lparr>prq_name = cpfs_name sp, prq_distro = distro, prq_autoinstall = cpfs_autoinstall sp,
      prq_kernel_options = cpfs_kernel_options sp, prq_autoinstall_meta = cpfs_autoinstall_meta sp,
      prq_enable_menu = cpfs_enable_menu sp\<rparr>"

definition cobprof_import :: "'d cobbler_world \<Rightarrow> cobbler_profile cob_pass \<Rightarrow> cobbler_profile cob_outcome" where
  "cobprof_import w s =
     (let name = cpfs_name (cprofile_spec (mem s)) in
      cob_or w (OpGet ''profile'' name) (GetProfile (xw_net w) name) (fail_with (cobprof_kit w) ''CobblerError'')
        (\<lambda>found s1. case found of
             None \<Rightarrow> refuse (cobprof_kit w) cobblerWait ''WaitingForCobblerObject''
               (''cobbler profile '' @ go_quote name @ '' not found yet'')
               (set_st (cobprof_kit w) (\<lambda>st. st\<lparr>cpfst_found := False,
                  cpfst_observed_generation := obj_generation (mem s)\<rparr>) s1)
           | Some item \<Rightarrow> cobprof_done w ''Observed'' ''cobbler profile observed''
               (set_st (cobprof_kit w) (\<lambda>st. st\<lparr>cpfst_cobbler_id := str_val item ''uid'',
                  cpfst_distro_name := str_val item ''distro''\<rparr>) s1)) s)"

definition cobprof_upsert ::
  "'d cobbler_world \<Rightarrow> string \<Rightarrow> cobbler_profile cob_pass \<Rightarrow> cobbler_profile cob_outcome" where
  "cobprof_upsert w distro s =
     (let r = request_of_profile (cprofile_spec (mem s)) distro in
      cob_or w (OpUpsertProfile r) (UpsertProfile (xw_net w) r) (fail_with (cobprof_kit w) ''CreateFailed'')
        (\<lambda>uid s1. cobprof_done w ''Reconciled'' ''cobbler profile reconciled''
           (set_st (cobprof_kit w) (\<lambda>st. st\<lparr>cpfst_cobbler_id := uid, cpfst_distro_name := distro\<rparr>) s1)) s)"

definition cobprof_create :: "'d cobbler_world \<Rightarrow> cobbler_profile cob_pass \<Rightarrow> cobbler_profile cob_outcome" where
  "cobprof_create w s =
     (case resolveDistroName w (mem s) of
        Broken e \<Rightarrow> fail_with (cobprof_kit w) ''ResolveRefs'' e s
      | resolve.Wait m \<Rightarrow> refuse (cobprof_kit w) cobblerWait ''WaitingForDistro'' m
          (set_st (cobprof_kit w) (\<lambda>st. st\<lparr>cpfst_observed_generation := obj_generation (mem s)\<rparr>) s)
      | Resolved distro \<Rightarrow> cobprof_upsert w distro s)"

definition cobprof_Reconcile :: "'d cobbler_world \<Rightarrow> cobbler_profile \<Rightarrow> cobbler_profile cob_outcome" where
  "cobprof_Reconcile w cp =
     (let mode = cobblerMode (cpfs_mode (cprofile_spec cp)) in
      cob_begin (cobprof_kit w) w cobProfFinalizer mode ''profile'' (cpfs_name (cprofile_spec cp))
        (\<lambda>s. if mode = CobblerModeImport then cobprof_import w s else cobprof_create w s) (start_pass cp))"

end
