(* ===== verification/Cobbler_Client_Facts.thy ===== *)
theory Cobbler_Client_Facts
  imports Cobbler_Client
begin

text \<open>
  Facts about the Cobbler client: the tokens its requests carry, what an upsert sends, and removals of
  records that do not exist.
\<close>

section \<open>Tokens\<close>

text \<open>A token the server handed out earlier in the run.\<close>

definition issued :: "'d request list \<Rightarrow> string \<Rightarrow> bool" where
  "issued log t = (t \<noteq> [] \<and> (\<exists>r \<in> set log. rq_method r = ''login'' \<and> rq_result r = Inr (XStr t)))"

definition changes :: "'d request \<Rightarrow> bool" where
  "changes r = list_ex (has_prefix (rq_method r)) [''new_'', ''modify_'', ''save_'', ''remove_'']"

definition authorised :: "'d request list \<Rightarrow> bool" where
  "authorised log = (\<forall>i < length log. changes (log ! i) \<longrightarrow>
     (\<exists>t args. rq_args (log ! i) = args @ [AStr t] \<and> issued (take i log) t))"

lemma issued_append: "issued l t \<Longrightarrow> issued (l @ l') t"
  by (auto simp: issued_def)

lemma authorised_simps [simp]:
  "authorised []"
  "authorised (l @ [r]) \<longleftrightarrow> authorised l \<and>
     (changes r \<longrightarrow> (\<exists>t args. rq_args r = args @ [AStr t] \<and> issued l t))"
  by (auto simp: authorised_def nth_append less_Suc_eq all_conj_distrib)

definition session_ok :: "'d cobbler_session \<Rightarrow> bool" where
  "session_ok s = (authorised (se_log s) \<and> (se_token s \<noteq> [] \<longrightarrow> issued (se_log s) (se_token s)))"

definition extends :: "'d cobbler_session \<Rightarrow> 'd cobbler_session \<Rightarrow> bool" where
  "extends s s' = (\<exists>l. se_log s' = se_log s @ l)"

lemma extends_refl [simp]: "extends s s"
  by (simp add: extends_def)

lemma extends_trans [trans]: "extends a b \<Longrightarrow> extends b c \<Longrightarrow> extends a c"
  by (auto simp: extends_def)

text \<open>
  Conditions on a session that last while the log grows, and the steps that keep a session well formed
  under one: the contract a step has with the steps around it.
\<close>

locale lasting =
  fixes T :: "'d cobbler_session \<Rightarrow> bool"
  assumes lasts: "T s \<Longrightarrow> extends s s' \<Longrightarrow> T s'"
begin

definition safe :: "('d, 'a) cob \<Rightarrow> bool" where
  "safe m = (\<forall>s. session_ok s \<and> T s \<longrightarrow> session_ok (snd (m s)) \<and> extends s (snd (m s)))"

lemma safeD: "safe m \<Longrightarrow> session_ok s \<Longrightarrow> T s \<Longrightarrow> session_ok (snd (m s)) \<and> extends s (snd (m s)) \<and> T (snd (m s))"
  using lasts by (auto simp: safe_def)

lemma safe_return [simp]: "safe (cob_return x)" "safe (cob_raise e)"
  by (simp_all add: safe_def cob_return_def cob_raise_def)

lemma safe_bind:
  assumes "safe m" "\<And>x. safe (f x)"
  shows "safe (cob_bind m f)"
  unfolding safe_def
proof (intro allI impI)
  fix s assume s: "session_ok s \<and> T s"
  obtain r s1 where m: "m s = (r, s1)" by fastforce
  then have s1: "session_ok s1" "extends s s1" "T s1" using safeD [OF assms(1), of s] s by simp_all
  show "session_ok (snd (cob_bind m f s)) \<and> extends s (snd (cob_bind m f s))"
  proof (cases r)
    case (Inl e)
    then show ?thesis using m s1 by (simp add: cob_bind_def)
  next
    case (Inr x)
    then show ?thesis using m s1 safeD [OF assms(2) s1(1,3), of x] extends_trans by (auto simp: cob_bind_def)
  qed
qed

lemma safe_wrap: "safe m \<Longrightarrow> safe (cob_wrap p m)"
  unfolding safe_def cob_wrap_def by (auto split: sum.split prod.split)

lemma safe_read: "\<not> changes \<lparr>rq_method = meth, rq_args = [], rq_result = Inr XNil\<rparr> \<Longrightarrow> safe (cob_call net meth args)"
  by (auto simp: safe_def cob_call_def session_ok_def extends_def changes_def issued_append Let_def
      split: sum.split option.split)

lemma safe_getItem: "safe (getItem net (''get_'' @ kind) name)"
  unfolding getItem_def
  by (intro safe_bind safe_read) (simp_all add: changes_def has_prefix_def)

end

definition holding :: "string \<Rightarrow> 'd cobbler_session \<Rightarrow> bool" where
  "holding t s = issued (se_log s) t"

interpretation anytime: lasting "\<lambda>_. True" by unfold_locales simp

interpretation holding: lasting "holding t" for t
  by unfold_locales (auto simp: holding_def extends_def issued_append)

lemma holding_write: "holding.safe t (cob_call net meth (args @ [AStr t]))"
  by (auto simp: holding.safe_def cob_call_def session_ok_def extends_def holding_def issued_append Let_def
      split: sum.split option.split)

lemma holding_write_1: "holding.safe t (cob_call net meth [AStr t])"
  using holding_write [of t net meth "[]"] by simp

lemma holding_write_2: "holding.safe t (cob_call net meth [a, AStr t])"
  using holding_write [of t net meth "[a]"] by simp

lemma holding_write_4: "holding.safe t (cob_call net meth [a, b, c, AStr t])"
  using holding_write [of t net meth "[a, b, c]"] by simp

lemmas holding_steps = holding.safe_bind holding.safe_wrap holding.safe_getItem
  holding_write_1 holding_write_2 holding_write_4

lemma holding_itemHandle: "holding.safe t (itemHandle net kind name t)"
  unfolding itemHandle_def by (intro holding_steps) (auto intro!: holding_steps)

lemma holding_modify: "holding.safe t (modify net kind t handle k v)"
  unfolding modify_def by (intro holding_steps) simp

lemma holding_modify_all: "holding.safe t (modify_all net kind t handle fs)"
  by (induction fs) (auto intro!: holding.safe_bind holding_modify)

lemma holding_save: "holding.safe t (save_item net kind t handle)"
  unfolding save_item_def by (intro holding_steps) simp

text \<open>A login, after which the token is held.\<close>

lemma with_token:
  fixes net :: "'d cobbler_net"
  assumes "\<And>t. holding.safe t (f t)"
  shows "anytime.safe (cob_bind (ensureToken net) f)"
  unfolding anytime.safe_def
proof (intro allI impI)
  fix s :: "'d cobbler_session" assume s: "session_ok s \<and> True"
  have login: "anytime.safe (cob_wrap p (cob_call net ''login'' args))" for p args
    by (intro anytime.safe_wrap anytime.safe_read) (simp add: changes_def has_prefix_def)
  obtain r s1 where e: "ensureToken net s = (r, s1)" by fastforce
  have s1: "session_ok s1 \<and> extends s s1 \<and> (\<forall>t. r = Inr t \<longrightarrow> holding t s1)"
  proof (cases "se_token s = []")
    case False
    then show ?thesis using e s by (auto simp: ensureToken_def session_ok_def holding_def)
  next
    case True
    let ?m = "cob_wrap ''cobbler login: '' (cob_call net ''login'' [AStr (cn_user net), AStr (cn_pass net)])"
    obtain r' s' where m: "?m s = (r', s')" by fastforce
    have "session_ok (snd (?m s)) \<and> extends s (snd (?m s))" using anytime.safeD [OF login, of s] s by blast
    then have s': "session_ok s' \<and> extends s s'" by (simp add: m)
    have log: "issued (se_log s') t" if "r' = Inr (XStr t)" "t \<noteq> []" for t
      using m that
      by (auto simp: cob_wrap_def cob_call_def issued_def Let_def split: sum.splits option.splits prod.splits)
    show ?thesis
    proof (cases r')
      case (Inl x)
      then show ?thesis using e True m s' by (auto simp: ensureToken_def cob_bind_def)
    next
      case (Inr v)
      have "as_string v \<noteq> [] \<Longrightarrow> v = XStr (as_string v)" by (cases v) (simp_all add: as_string_def)
      then show ?thesis using e True m s' Inr log [of "as_string v"]
        by (auto simp: ensureToken_def cob_bind_def cob_raise_def session_ok_def holding_def extends_def split: if_splits)
    qed
  qed
  show "session_ok (snd (cob_bind (ensureToken net) f s)) \<and> extends s (snd (cob_bind (ensureToken net) f s))"
  proof (cases r)
    case (Inl x)
    then show ?thesis using e s1 by (simp add: cob_bind_def)
  next
    case (Inr t)
    then show ?thesis
      using e s1 holding.safeD [OF assms, of s1 t] extends_trans by (auto simp: cob_bind_def)
  qed
qed

lemma upsert_safe: "anytime.safe (upsert_fields net kind name fs)"
  unfolding upsert_fields_def
  by (intro with_token holding.safe_bind holding_itemHandle holding_modify_all holding_save holding.safe_getItem) simp

lemma netboot_safe: "anytime.safe (setNetbootOnce net name b)"
  unfolding setNetbootOnce_def
  by (intro with_token holding.safe_bind holding_itemHandle holding_modify holding_save)

lemma remove_safe: "anytime.safe (removeItemOnce net kind name)"
  unfolding removeItemOnce_def
  by (intro anytime.safe_bind anytime.safe_getItem) (auto intro!: with_token holding_steps)

lemma relogin_safe:
  fixes m :: "('d, 'a) cob"
  shows "anytime.safe m \<Longrightarrow> anytime.safe (with_relogin m)"
  unfolding anytime.safe_def [of "with_relogin m"]
proof (intro allI impI)
  fix s :: "'d cobbler_session" assume safe: "anytime.safe m" and s: "session_ok s \<and> True"
  obtain r s1 where m: "m s = (r, s1)" by fastforce
  then have s1: "session_ok s1" "extends s s1" using anytime.safeD [OF safe, of s] s by simp_all
  have "session_ok (resetToken s1)" "extends s (resetToken s1)"
    using s1 by (simp_all add: session_ok_def resetToken_def extends_def)
  then have again: "session_ok (snd (m (resetToken s1))) \<and> extends s (snd (m (resetToken s1)))"
    using anytime.safeD [OF safe, of "resetToken s1"] extends_trans by blast
  show "session_ok (snd (with_relogin m s)) \<and> extends s (snd (with_relogin m s))"
    using m s1 again by (simp add: with_relogin_def split: sum.split)
qed

lemma run_op_safe: "session_ok s \<Longrightarrow> session_ok (run_op net op s) \<and> extends s (run_op net op s)"
proof -
  assume s: "session_ok s"
  have "anytime.safe (UpsertSystem net r)" "anytime.safe (UpsertDistro net d)" "anytime.safe (UpsertProfile net p)"
    "anytime.safe (SetNetboot net n b)" "anytime.safe (removeItem net kind n)"
    "anytime.safe (getItem net (''get_'' @ kind) n)" for r d p n b kind
    unfolding UpsertSystem_def UpsertDistro_def UpsertProfile_def upsertItem_def upsertItemOnce_def SetNetboot_def
      removeItem_def
    by (intro relogin_safe upsert_safe netboot_safe remove_safe anytime.safe_getItem)+
  then show ?thesis using s by (cases op) (simp_all add: anytime.safe_def)
qed

text \<open>
  C5.  Whatever the server answers, in every run of operations on a new client each request that creates,
  changes, saves or removes a record carries as its last argument a nonempty token that an earlier login
  of the same run was answered with.
\<close>

theorem cobbler_writes_authorised:
  "\<forall>i < length (se_log (fold (run_op net) ops new_session)).
     changes (se_log (fold (run_op net) ops new_session) ! i) \<longrightarrow>
       (\<exists>t args. rq_args (se_log (fold (run_op net) ops new_session) ! i) = args @ [AStr t] \<and>
          issued (take i (se_log (fold (run_op net) ops new_session))) t)"
proof -
  have "session_ok (fold (run_op net) ops s)" if "session_ok s" for s
    using that by (induction ops arbitrary: s) (simp_all add: run_op_safe)
  then have "session_ok (fold (run_op net) ops new_session)" by (simp add: session_ok_def new_session_def)
  then show ?thesis by (simp add: session_ok_def authorised_def)
qed

text \<open>A server that knows nothing, and hands out the token \<^verbatim>\<open>tok\<close> and handles \<^verbatim>\<open>h\<close>.\<close>

definition demo_net :: "unit cobbler_net" where
  "demo_net = \<lparr>cn_user = ''u'', cn_pass = ''p'', cn_escape = id, cn_format = \<lambda>_. [], cn_parse = \<lambda>_. None,
     cn_request = None,
     cn_post = (\<lambda>i _. Answer 200 None (response_tokens (encodeString (if i = 0 then ''tok'' else ''h'')))),
     cn_order = id\<rparr>"

theorem cobbler_writes_authorised_witness:
  "let log = se_log (fold (run_op demo_net) [OpSetNetboot ''s'' True] new_session) in
     map rq_method log = [''login'', ''get_system'', ''new_system'', ''modify_system'', ''modify_system'', ''save_system''] \<and>
     (\<exists>t args. rq_args (log ! 2) = args @ [AStr t] \<and> issued (take 2 log) t)"
proof -
  let ?log = "se_log (fold (run_op demo_net) [OpSetNetboot ''s'' True] new_session)"
  have methods: "map rq_method ?log =
      [''login'', ''get_system'', ''new_system'', ''modify_system'', ''modify_system'', ''save_system'']"
    by code_simp
  then have "length (map rq_method ?log) = 6" by simp
  then have "2 < length ?log" by simp
  moreover have "rq_method (?log ! 2) = map rq_method ?log ! 2" using \<open>2 < length ?log\<close> by simp
  then have "rq_method (?log ! 2) = ''new_system''" unfolding methods by simp
  then have "changes (?log ! 2)" by (simp add: changes_def has_prefix_def)
  ultimately show ?thesis
    unfolding Let_def using methods cobbler_writes_authorised [of demo_net "[OpSetNetboot ''s'' True]"] by blast
qed

section \<open>What an upsert sends\<close>

lemma cob_bind_ok: "cob_bind m f s = (Inr x, s') \<longleftrightarrow> (\<exists>y s1. m s = (Inr y, s1) \<and> f y s1 = (Inr x, s'))"
  by (auto simp: cob_bind_def split: prod.splits sum.splits)

lemma cob_return_ok: "cob_return y s = (Inr x, s') \<longleftrightarrow> y = x \<and> s' = s"
  by (auto simp: cob_return_def)

lemma cob_wrap_ok: "cob_wrap p m s = (Inr x, s') \<longleftrightarrow> m s = (Inr x, s')"
  by (auto simp: cob_wrap_def split: prod.splits sum.splits)

text \<open>The requests of a run as method and arguments.\<close>

definition sent :: "'d cobbler_session \<Rightarrow> (string \<times> 'd xarg list) list" where
  "sent s = map (\<lambda>r. (rq_method r, rq_args r)) (se_log s)"

lemma cob_call_ok: "cob_call net meth args s = (Inr v, s') \<Longrightarrow> sent s' = sent s @ [(meth, args)] \<and> se_token s' = se_token s"
  by (auto simp: cob_call_def sent_def Let_def split: sum.splits option.splits)

lemmas cob_ok = cob_bind_ok cob_return_ok cob_wrap_ok

lemma getItem_ok: "getItem net meth name s = (Inr v, s') \<Longrightarrow> sent s' = sent s @ [(meth, [AStr name])]"
  by (auto simp: getItem_def cob_ok dest!: cob_call_ok)

lemma modify_all_ok:
  "modify_all net kind tok handle fs s = (Inr v, s') \<Longrightarrow>
   sent s' = sent s @ map (\<lambda>(k, x). (''modify_'' @ kind, [AStr handle, AStr k, x, AStr tok])) fs"
  by (induction fs arbitrary: s) (auto simp: cob_ok modify_def dest!: cob_call_ok)

definition handle_requests ::
  "string \<Rightarrow> string \<Rightarrow> string \<Rightarrow> string \<Rightarrow> bool \<Rightarrow> (string \<times> 'd xarg list) list" where
  "handle_requests kind name tok handle is_new =
     (''get_'' @ kind, [AStr name]) #
     (if is_new then [(''new_'' @ kind, [AStr tok]), (''modify_'' @ kind, [AStr handle, AStr ''name'', AStr name, AStr tok])]
      else [(''get_'' @ kind @ ''_handle'', [AStr name, AStr tok])])"

lemma itemHandle_ok:
  assumes "itemHandle net kind name tok s = (Inr h, s')"
  shows "\<exists>is_new. sent s' = sent s @ handle_requests kind name tok h is_new"
proof -
  obtain found s1 where g: "getItem net (''get_'' @ kind) name s = (Inr found, s1)"
    and rest: "(if found \<noteq> None
       then cob_bind (cob_call net (''get_'' @ kind @ ''_handle'') [AStr name, AStr tok]) (\<lambda>res. cob_return (as_string res))
       else cob_bind (cob_call net (''new_'' @ kind) [AStr tok]) (\<lambda>res.
         cob_bind (cob_call net (''modify_'' @ kind) [AStr (as_string res), AStr ''name'', AStr name, AStr tok])
           (\<lambda>_. cob_return (as_string res)))) s1 = (Inr h, s')"
    using assms by (auto simp: itemHandle_def cob_bind_ok)
  show ?thesis
  proof (cases "found = None")
    case True
    then have "sent s' = sent s @ handle_requests kind name tok h True"
      using rest getItem_ok [OF g] by (auto simp: cob_ok handle_requests_def dest!: cob_call_ok)
    then show ?thesis by blast
  next
    case False
    then have "sent s' = sent s @ handle_requests kind name tok h False"
      using rest getItem_ok [OF g] by (auto simp: cob_ok handle_requests_def dest!: cob_call_ok)
    then show ?thesis by blast
  qed
qed

definition upsert_requests ::
  "string \<Rightarrow> string \<Rightarrow> string \<Rightarrow> string \<Rightarrow> bool \<Rightarrow> (string \<times> 'd xarg) list \<Rightarrow> (string \<times> 'd xarg list) list" where
  "upsert_requests kind name tok handle is_new fs =
     handle_requests kind name tok handle is_new
     @ map (\<lambda>(k, x). (''modify_'' @ kind, [AStr handle, AStr k, x, AStr tok])) fs
     @ [(''save_'' @ kind, [AStr handle, AStr tok]), (''get_'' @ kind, [AStr name])]"

lemma upsert_fields_ok:
  assumes "upsert_fields net kind name fs s = (Inr uid, s')"
  shows "\<exists>before tok handle is_new. sent s' = before @ upsert_requests kind name tok handle is_new fs"
proof -
  obtain tok s1 handle s2 u s3 v s4 found where
    "ensureToken net s = (Inr tok, s1)" and h: "itemHandle net kind name tok s1 = (Inr handle, s2)"
    and m: "modify_all net kind tok handle fs s2 = (Inr u, s3)" and sv: "save_item net kind tok handle s3 = (Inr v, s4)"
    and g: "getItem net (''get_'' @ kind) name s4 = (Inr found, s')"
    using assms by (auto simp: upsert_fields_def cob_ok)
  obtain is_new where h': "sent s2 = sent s1 @ handle_requests kind name tok handle is_new"
    using itemHandle_ok [OF h] by blast
  have "sent s4 = sent s3 @ [(''save_'' @ kind, [AStr handle, AStr tok])]"
    using sv by (auto simp: save_item_def cob_ok dest!: cob_call_ok)
  then have "sent s' = sent s1 @ upsert_requests kind name tok handle is_new fs"
    using h' modify_all_ok [OF m] getItem_ok [OF g] by (simp add: upsert_requests_def)
  then show ?thesis by blast
qed

lemma UpsertSystem_ok:
  assumes "UpsertSystem net r s = (Inr uid, s')"
  shows "\<exists>before tok handle is_new.
    sent s' = before @ upsert_requests ''system'' (srq_name r) tok handle is_new (system_fields r)"
proof -
  obtain s0 where "upsert_fields net ''system'' (srq_name r) (system_fields r) s0 = (Inr uid, s')"
    using assms by (auto simp: UpsertSystem_def with_relogin_def split: prod.splits sum.splits if_splits)
  then show ?thesis using upsert_fields_ok by blast
qed

text \<open>
  An upsert of a system record that succeeds, also one that had to log in again, ends with the
  complete course: the record is looked up, a handle of the record or of a new one with its name is
  taken, every field of the request is set on that handle in order and nothing else, the handle is
  saved, and the record read back.
\<close>

theorem cobbler_upsert_complete:
  assumes "UpsertSystem net r s = (Inr uid, s')"
  shows "\<exists>before tok handle is_new. map (\<lambda>q. (rq_method q, rq_args q)) (se_log s') =
    before @ upsert_requests ''system'' (srq_name r) tok handle is_new (system_fields r)"
  using UpsertSystem_ok [OF assms] unfolding sent_def .

definition demo_request :: system_request where
  "demo_request = \<lparr>srq_name = ''s'', srq_hostname = [], srq_profile = ''p'', srq_autoinstall_meta = [],
     srq_interfaces = [], srq_server = [], srq_comment = ''c''\<rparr>"

theorem cobbler_upsert_complete_witness:
  "\<exists>before tok handle is_new. map (\<lambda>q. (rq_method q, rq_args q)) (se_log (snd (UpsertSystem demo_net demo_request new_session))) =
    before @ upsert_requests ''system'' ''s'' tok handle is_new [(''profile'', AStr ''p''), (''comment'', AStr ''c'')]"
proof -
  have "(case fst (UpsertSystem demo_net demo_request new_session) of Inl _ \<Rightarrow> False | Inr u \<Rightarrow> u = [])" by code_simp
  moreover obtain x s' where u: "UpsertSystem demo_net demo_request new_session = (x, s')" by fastforce
  ultimately have "x = Inr []" by (cases x) simp_all
  from cobbler_upsert_complete [OF u [unfolded this]] show ?thesis
    unfolding u by (simp add: demo_request_def system_fields_def)
qed

text \<open>A record that does not exist is not removed: one read and nothing else.\<close>

lemma remove_missing:
  assumes "fst (getItem net (''get_'' @ kind) name s) = Inr None"
  shows "removeItem net kind name s = (Inr (), snd (getItem net (''get_'' @ kind) name s))"
  using assms
  by (cases "getItem net (''get_'' @ kind) name s")
    (simp add: removeItem_def with_relogin_def removeItemOnce_def cob_bind_def cob_return_def)

end
