(* ===== verification/Cobbler_Controller_Facts.thy ===== *)
theory Cobbler_Controller_Facts
  imports Cobbler_Controller Cobbler_Client_Facts Group_Facts
begin

text \<open>
  Facts about the Cobbler reconcilers: what a pass leaves in the log of the client's session, when a
  record is removed, the way of the netboot annotation, and the conditions of the status.
\<close>

lemma cob_kit_simps [simp]:
  "kit_ops (cobsys_kit w) = cobsys_kind" "kit_out (cobsys_kit w) = bw_out w" "kit_ssc (cobsys_kit w) = bw_ssc w"
  "kit_conditions (cobsys_kit w) = csyst_conditions_update"
  "kit_ops (cobdist_kit w) = cobdist_kind" "kit_out (cobdist_kit w) = bw_out w" "kit_ssc (cobdist_kit w) = bw_ssc w"
  "kit_conditions (cobdist_kit w) = cdst_conditions_update"
  "kit_ops (cobprof_kit w) = cobprof_kind" "kit_out (cobprof_kit w) = bw_out w" "kit_ssc (cobprof_kit w) = bw_ssc w"
  "kit_conditions (cobprof_kit w) = cpfst_conditions_update"
  by (simp_all add: cobsys_kit_def cobdist_kit_def cobprof_kit_def)

section \<open>The requests of a pass\<close>

definition requests_of :: "'d cobbler_world \<Rightarrow> 'o cob_outcome \<Rightarrow> 'd request list" where
  "requests_of w r = drop (length (se_log (xw_session w))) (se_log (session_after w (call_log (trace (pass_of r)))))"

lemma cob_ops_simps [simp]:
  "cob_ops [] = []" "cob_ops (l @ l') = cob_ops l @ cob_ops l'"
  "cob_ops ((Cob op, b) # l) = op # cob_ops l" "cob_ops ((MirrorNetboot n v, b) # l) = cob_ops l"
  "cob_ops ((StripNetboot n, b) # l) = cob_ops l"
  by (simp_all add: cob_ops_def List.map_filter_def)

lemma cob_or_log:
  assumes "\<And>e s. call_log (trace (pass_of (h e s))) = call_log (trace s)"
    and "\<And>x s. call_log (trace (pass_of (rest x s))) = call_log (trace s)"
  shows "call_log (trace (pass_of (cob_or w op m h rest s))) =
    call_log (trace s) @ [(Cob op, case fst (m (xw_session w)) of Inl _ \<Rightarrow> False | Inr _ \<Rightarrow> True)]"
  using assms by (simp add: cob_or_def split: sum.split)

lemma release_log [simp]: "call_log (trace (pass_of (release k fin s))) = call_log (trace s)"
  by (rule call_log_of_writes)

lemma cobsys_ends [simp]:
  "call_log (trace (pass_of (cobsys_fail w r e s))) = call_log (trace s)"
  "call_log (trace (pass_of (waitReason w r m s))) = call_log (trace s)"
  "call_log (trace (pass_of (cobsys_waiting w m s))) = call_log (trace s)"
  "call_log (trace (pass_of (cobsys_ready w r m s))) = call_log (trace s)"
  "call_log (trace (pass_of (cobdist_done w r m t))) = call_log (trace t)"
  "call_log (trace (pass_of (cobprof_done w r m u))) = call_log (trace u)"
  by (simp_all add: cobsys_fail_def waitReason_def cobsys_waiting_def cobsys_ready_def cobdist_done_def cobprof_done_def)

lemma with_finalizer_log:
  "call_log (trace (pass_of (with_finalizer k fin rest s))) =
     (if fin \<in> set (obj_finalizers (mem s)) then call_log (trace (pass_of (rest s))) else call_log (trace s))"
  by (simp add: with_finalizer_eq Let_def)

lemma cob_begin_log:
  "call_log (trace (pass_of (cob_begin k w fin mode kind name rest s))) =
     (if bw_client w \<noteq> None then call_log (trace s)
      else if obj_deleting (mem s)
      then call_log (trace s) @
        (if containsFinalizer (mem s) fin \<and> mode = CobblerModeCreate \<and> \<not> has_annotation (mem s) AnnForceDelete
         then [(Cob (OpRemove kind name),
           case fst (removeItem (xw_net w) kind name (xw_session w)) of Inl _ \<Rightarrow> False | Inr _ \<Rightarrow> True)] else [])
      else if fin \<in> set (obj_finalizers (mem s)) then call_log (trace (pass_of (rest s))) else call_log (trace s))"
  by (simp add: cob_begin_def cob_delete_def cob_or_log with_finalizer_log split: option.split)

lemma cobsys_import_log:
  "call_log (trace (pass_of (cobsys_import w s))) = call_log (trace s) @
     [(Cob (OpGet ''system'' (csys_name (csystem_spec (mem s)))),
       case fst (GetSystem (xw_net w) (csys_name (csystem_spec (mem s))) (xw_session w)) of Inl _ \<Rightarrow> False | Inr _ \<Rightarrow> True)]"
  unfolding cobsys_import_def Let_def by (subst cob_or_log) (simp_all split: option.split)

lemma cobdist_import_log:
  "call_log (trace (pass_of (cobdist_import w s))) = call_log (trace s) @
     [(Cob (OpGet ''distro'' (cds_name (cdistro_spec (mem s)))),
       case fst (GetDistro (xw_net w) (cds_name (cdistro_spec (mem s))) (xw_session w)) of Inl _ \<Rightarrow> False | Inr _ \<Rightarrow> True)]"
  unfolding cobdist_import_def Let_def by (subst cob_or_log) (simp_all split: option.split)

lemma cobprof_import_log:
  "call_log (trace (pass_of (cobprof_import w s))) = call_log (trace s) @
     [(Cob (OpGet ''profile'' (cpfs_name (cprofile_spec (mem s)))),
       case fst (GetProfile (xw_net w) (cpfs_name (cprofile_spec (mem s))) (xw_session w)) of Inl _ \<Rightarrow> False | Inr _ \<Rightarrow> True)]"
  unfolding cobprof_import_def Let_def by (subst cob_or_log) (simp_all split: option.split)

lemmas import_logs = cobsys_import_log cobdist_import_log cobprof_import_log

section \<open>Imported records\<close>

text \<open>A read appends one request, of the method asked for.\<close>

lemma cob_call_log:
  "\<exists>l. se_log (snd (cob_call net method args s)) = se_log s @ l \<and> (\<forall>q \<in> set l. rq_method q = method)"
  by (auto simp: cob_call_def Let_def split: sum.split option.split)

lemma getItem_log:
  "\<exists>l. se_log (snd (getItem net method name s)) = se_log s @ l \<and> (\<forall>q \<in> set l. rq_method q = method)"
proof -
  have "snd (getItem net method name s) = snd (cob_call net method [AStr name] s)"
    by (simp add: getItem_def cob_bind_def cob_return_def split: prod.split sum.split)
  then show ?thesis using cob_call_log by metis
qed

lemma reads_only:
  assumes "cob_ops (call_log (trace (pass_of r))) = [] \<or>
    (\<exists>kind n. cob_ops (call_log (trace (pass_of r))) = [OpGet kind n] \<and> kind \<in> {''system'', ''distro'', ''profile''})"
  shows "\<forall>q \<in> set (requests_of w r). \<not> changes q"
proof -
  consider "cob_ops (call_log (trace (pass_of r))) = []" |
    kind n where "cob_ops (call_log (trace (pass_of r))) = [OpGet kind n]" "kind \<in> {''system'', ''distro'', ''profile''}"
    using assms by blast
  then show ?thesis
  proof cases
    case 1
    then show ?thesis by (simp add: requests_of_def session_after_def)
  next
    case 2
    obtain l where l: "se_log (snd (getItem (xw_net w) (''get_'' @ kind) n (xw_session w))) = se_log (xw_session w) @ l"
      and m: "\<forall>q \<in> set l. rq_method q = ''get_'' @ kind" using getItem_log by blast
    have "requests_of w r = l" using 2 l by (simp add: requests_of_def session_after_def)
    then show ?thesis using 2(2) m by (auto simp: changes_def has_prefix_def)
  qed
qed

text \<open>The way of the netboot annotation runs no operation of the client once the value is applied.\<close>

lemma clear_parent_ops:
  assumes "\<And>s. cob_ops (call_log (trace (pass_of (rest s)))) = cob_ops (call_log (trace s))"
  shows "cob_ops (call_log (trace (pass_of (clearParentSystemNetboot w b applied rest s)))) = cob_ops (call_log (trace s))"
  using assms
  by (simp add: clearParentSystemNetboot_def call_if_def call_or_eq split: option.split sum.split)

lemma consume_ops: "cob_ops (call_log (trace (pass_of (netboot_consume w b applied s)))) = cob_ops (call_log (trace s))"
proof (cases "write_object (bw_out w) cobsys_kind (strip_annotation AnnNetboot s)")
  case (Pair e s1)
  then have "call_log (trace s1) = call_log (trace s)"
    using write_object_simps(2) [of "bw_out w" cobsys_kind "strip_annotation AnnNetboot s"] by (simp add: strip_annotation_def)
  then show ?thesis using Pair by (simp add: netboot_consume_def clear_parent_ops split: option.split)
qed

lemma strip_annotation_trace [simp]: "trace (strip_annotation a s) = trace s" "stored (strip_annotation a s) = stored s"
  by (simp_all add: strip_annotation_def)

lemma netboot_ops:
  "cob_ops (call_log (trace (pass_of (cobsys_netboot w val mode s)))) = cob_ops (call_log (trace s)) @
     (if val \<in> {''true'', ''false''} \<and> mode = CobblerModeCreate
      then [OpSetNetboot (csys_name (csystem_spec (mem s))) (val = ''true'')] else [])"
proof -
  have "cob_ops (call_log (trace (pass_of (save_then (cobsys_kit w) (netboot_consume w b True) t)))) =
    cob_ops (call_log (trace t))" for b t
  proof (cases "write_status (bw_out w) cobsys_kind t")
    case (Pair e t1)
    then have "call_log (trace t1) = call_log (trace t)"
      using write_status_simps(2) [of "bw_out w" cobsys_kind t] by simp
    then show ?thesis using Pair by (simp add: save_then_def consume_ops split: option.split)
  qed
  then show ?thesis
    by (auto simp: cobsys_netboot_def Let_def cob_or_def consume_ops split: sum.split)
qed

lemma import_converge_ops:
  assumes "cobblerMode (csys_mode (csystem_spec (mem s))) = CobblerModeImport"
  shows "cob_ops (call_log (trace (pass_of (cobsys_converge w s)))) = cob_ops (call_log (trace s)) @
    (if obj_annotations (mem s) AnnNetboot = None then [OpGet ''system'' (csys_name (csystem_spec (mem s)))] else [])"
  using assms
  by (simp add: cobsys_converge_def Let_def netboot_ops import_logs CobblerModeCreate_def CobblerModeImport_def split: option.split)

text \<open>
  C33.  A record that is imported is only observed: whatever the state of the object, the annotations it
  carries and the answers the pass gets, no request of a pass on an import-mode CobblerSystem,
  CobblerDistro or CobblerProfile creates, changes, saves or removes anything in Cobbler.
\<close>

theorem cobbler_import_observes:
  "(cobblerMode (csys_mode (csystem_spec cs)) = CobblerModeImport \<longrightarrow>
     (\<forall>q \<in> set (requests_of w (cobsys_Reconcile w cs)). \<not> changes q)) \<and>
   (cobblerMode (cds_mode (cdistro_spec cd)) = CobblerModeImport \<longrightarrow>
     (\<forall>q \<in> set (requests_of w (cobdist_Reconcile w cd)). \<not> changes q)) \<and>
   (cobblerMode (cpfs_mode (cprofile_spec cp)) = CobblerModeImport \<longrightarrow>
     (\<forall>q \<in> set (requests_of w (cobprof_Reconcile w cp)). \<not> changes q))"
proof (intro conjI impI)
  assume "cobblerMode (csys_mode (csystem_spec cs)) = CobblerModeImport"
  then show "\<forall>q \<in> set (requests_of w (cobsys_Reconcile w cs)). \<not> changes q"
    by (intro reads_only)
      (simp add: cobsys_Reconcile_def cob_begin_log import_converge_ops CobblerModeCreate_def CobblerModeImport_def)
next
  assume "cobblerMode (cds_mode (cdistro_spec cd)) = CobblerModeImport"
  then show "\<forall>q \<in> set (requests_of w (cobdist_Reconcile w cd)). \<not> changes q"
    by (intro reads_only) (simp add: cobdist_Reconcile_def cob_begin_log import_logs CobblerModeCreate_def CobblerModeImport_def)
next
  assume "cobblerMode (cpfs_mode (cprofile_spec cp)) = CobblerModeImport"
  then show "\<forall>q \<in> set (requests_of w (cobprof_Reconcile w cp)). \<not> changes q"
    by (intro reads_only) (simp add: cobprof_Reconcile_def cob_begin_log import_logs CobblerModeCreate_def CobblerModeImport_def)
qed

definition sample_cobbler_spec :: "string \<Rightarrow> cobbler_system_spec" where
  "sample_cobbler_spec mode = \<lparr>csys_name = ''s'', csys_hostname = [], csys_mode = mode, csys_provider_ref = None,
     csys_profile_name = ''p'', csys_profile_ref = None, csys_interfaces = [], csys_autoinstall_meta = [],
     csys_server = [], csys_comment = ''c''\<rparr>"

definition sample_cobbler_system :: "string \<Rightarrow> cobbler_system" where
  "sample_cobbler_system mode = k8s_object.extend (sample_meta ''cs'' [cobSysFinalizer] False)
     \<lparr>csystem_spec = sample_cobbler_spec mode, csystem_status = \<lparr>csyst_cobbler_id = [], csyst_found = False,
        csyst_profile_name = [], csyst_netboot_enabled = None, csyst_observed_generation = 0, csyst_conditions = []\<rparr>\<rparr>"

definition cobbler_demo_world :: "unit cobbler_world" where
  "cobbler_demo_world = (let absent = GoErr K8sNotFound [] in
     \<lparr>bw_ssc = replace_cond, bw_client = None, bw_get_org = \<lambda>_ _. Inl absent, bw_out = \<lambda>_. None,
      xw_net = demo_net, xw_session = new_session, xw_get_profile = \<lambda>_ _. Inl absent, xw_get_distro = \<lambda>_ _. Inl absent,
      xw_get_system = \<lambda>_ _. Inl absent, xw_controller_of = \<lambda>_. None\<rparr>)"

theorem cobbler_import_observes_witness:
  "cobblerMode (csys_mode (sample_cobbler_spec [])) = CobblerModeImport \<and>
   call_log (trace (pass_of (cobsys_Reconcile cobbler_demo_world (sample_cobbler_system [])))) = [(Cob (OpGet ''system'' ''s''), True)] \<and>
   filter changes (requests_of cobbler_demo_world (cobsys_Reconcile cobbler_demo_world (sample_cobbler_system []))) = []"
proof -
  have m: "cobblerMode (csys_mode (csystem_spec (sample_cobbler_system []))) = CobblerModeImport"
    by (simp add: sample_cobbler_system_def sample_cobbler_spec_def cobblerMode_def k8s_object.defs)
  moreover have "call_log (trace (pass_of (cobsys_Reconcile cobbler_demo_world (sample_cobbler_system [])))) =
      [(Cob (OpGet ''system'' ''s''), True)]" by code_simp
  ultimately show ?thesis
    using cobbler_import_observes [of "sample_cobbler_system []" cobbler_demo_world]
    by (simp add: sample_cobbler_spec_def cobblerMode_def filter_empty_conv)
qed

section \<open>Ready\<close>

lemma heartbeat_differs [simp]:
  "result_done \<noteq> result_after cobblerHeartbeat" "result_requeue \<noteq> result_after cobblerHeartbeat"
  "result_after cobblerWait \<noteq> result_after cobblerHeartbeat"
  by (simp_all add: result_done_def result_requeue_def result_after_def cobblerHeartbeat_def cobblerWait_def)

lemma cob_begin_heartbeat:
  assumes "fst (cob_begin k w fin mode kind name rest s) = result_after cobblerHeartbeat"
    "fst (snd (cob_begin k w fin mode kind name rest s)) = None"
  shows "cob_begin k w fin mode kind name rest s = rest s \<and> bw_client w = None \<and> \<not> obj_deleting (mem s)"
  using assms
  by (auto simp: cob_begin_def cob_delete_def cob_or_def fail_with_def release_eq with_finalizer_eq Let_def
      split: option.splits if_splits sum.splits)

lemma clear_parent_result:
  "fst (clearParentSystemNetboot w b a (\<lambda>s2. (result_requeue, None, s2)) s) \<in> {result_done, result_requeue}"
  by (auto simp: clearParentSystemNetboot_def call_if_def call_or_eq return_error_def split: option.split sum.split)

lemma consume_result: "fst (netboot_consume w b a s) \<in> {result_done, result_requeue}"
  using clear_parent_result by (auto simp: netboot_consume_def return_error_def split: option.split prod.split)

lemma netboot_result: "fst (cobsys_netboot w val mode s) \<in> {result_done, result_requeue}"
  using consume_result
  by (auto simp: cobsys_netboot_def Let_def cob_or_def update_with_def save_then_def cobsys_fail_def fail_with_def
      split: option.split prod.split sum.split)

lemma netboot_not_heartbeat: "fst (cobsys_netboot w val mode s) \<noteq> result_after cobblerHeartbeat"
  using netboot_result [of w val mode s] by auto

lemma ready_result:
  assumes "fst (snd (cobsys_ready w r m s)) = None"
  shows "\<exists>st. stored (pass_of (cobsys_ready w r m s)) = map_option (with_status cobsys_kind st) (stored s) \<and>
    csyst_found st \<and> csyst_cobbler_id st = csyst_cobbler_id (csystem_status (mem s)) \<and>
    csyst_profile_name st = csyst_profile_name (csystem_status (mem s))"
proof -
  let ?s = "become (cobsys_kit w) True r m (set_st (cobsys_kit w) (\<lambda>st. st\<lparr>csyst_found := True,
            csyst_observed_generation := obj_generation (mem s)\<rparr>) s)"
  have "bw_out w (length (trace s)) = None" using assms by (simp add: cobsys_ready_def save_and_eq split: option.splits)
  then have "stored (pass_of (cobsys_ready w r m s)) = map_option (with_status cobsys_kind (status_of cobsys_kind (mem ?s))) (stored s)"
    by (simp add: cobsys_ready_def save_and_eq)
  moreover have "status_of cobsys_kind (mem ?s) = csystem_status (mem ?s)" by (simp add: cobsys_kind_def)
  moreover have "csyst_found (csystem_status (mem ?s))"
    "csyst_cobbler_id (csystem_status (mem ?s)) = csyst_cobbler_id (csystem_status (mem s))"
    "csyst_profile_name (csystem_status (mem ?s)) = csyst_profile_name (csystem_status (mem s))"
    by (simp_all add: become_def set_st_def cobsys_kind_def)
  ultimately show ?thesis by metis
qed

lemma ready_trace_calls: "cob_ops (call_log (trace (pass_of (cobsys_upsert w profile s)))) =
    cob_ops (call_log (trace s)) @ [OpUpsertSystem (request_of_system (csystem_spec (mem s)) profile)]"
  unfolding cobsys_upsert_def Let_def by (subst cob_or_log) simp_all

text \<open>
  What Cobbler has to be told of a CobblerSystem, said of the spec and not of the client: the profile
  and the comment always, host name and server if they are set, the variables as they are, and of every
  network interface each value that is set, under a key made of the kind of the value and the name of
  the interface (of interfaces with one name the last one counts), and no other field.
\<close>

definition interface_entries :: "cobbler_interface \<Rightarrow> (string \<times> 'd xarg) list" where
  "interface_entries n =
     (if ci_mac_address n = [] then [] else [(''macaddress-'' @ ci_name n, AStr (ci_mac_address n))])
     @ (if ci_ip_address n = [] then [] else [(''ipaddress-'' @ ci_name n, AStr (ci_ip_address n))])
     @ (if ci_dns_name n = [] then [] else [(''dnsname-'' @ ci_name n, AStr (ci_dns_name n))])
     @ (if ci_management n then [(''management-'' @ ci_name n, ABool True)] else [])"

definition tells_spec :: "cobbler_system_spec \<Rightarrow> string \<Rightarrow> (string \<times> 'd xarg) list \<Rightarrow> bool" where
  "tells_spec sp profile fs =
     (map_of fs ''profile'' = Some (AStr profile) \<and> map_of fs ''comment'' = Some (AStr (csys_comment sp)) \<and>
      map_of fs ''hostname'' = (if csys_hostname sp = [] then None else Some (AStr (csys_hostname sp))) \<and>
      map_of fs ''server'' = (if csys_server sp = [] then None else Some (AStr (csys_server sp))) \<and>
      (if csys_autoinstall_meta sp = [] then map_of fs ''autoinstall_meta'' = None
       else \<exists>m. map_of fs ''autoinstall_meta'' = Some (AMapAny m) \<and>
         map_of m = map_option AStr \<circ> map_of (csys_autoinstall_meta sp)) \<and>
      (if csys_interfaces sp = [] then map_of fs ''modify_interface'' = None
       else \<exists>m. map_of fs ''modify_interface'' = Some (AMapAny m) \<and>
         map_of m = map_of (concat (map interface_entries (rev (csys_interfaces sp))))) \<and>
      fst ` set fs \<subseteq> {''profile'', ''comment'', ''hostname'', ''server'', ''autoinstall_meta'', ''modify_interface''})"

lemma map_of_put: "map_of (put k x m) = (map_of m)(k \<mapsto> x)"
proof (cases "k \<in> fst ` set m")
  case True
  have "k \<in> fst ` set m \<Longrightarrow> map_of (map (\<lambda>(k', v'). (k', if k' = k then x else v')) m) = (map_of m)(k \<mapsto> x)"
  proof (induction m)
    case (Cons e m)
    have "map (\<lambda>(k', v'). (k', if k' = k then x else v')) m = m" if "k \<notin> fst ` set m"
      using that by (intro map_idI) (auto simp: rev_image_eqI)
    then show ?case using Cons by (cases e; cases "k \<in> fst ` set m") (auto simp: fun_upd_twist)
  qed simp
  then show ?thesis using True by (simp add: put_def)
next
  case False
  then have "map_of m k = None" by (simp add: map_of_eq_None_iff)
  then show ?thesis using False by (auto simp: put_def fun_eq_iff map_add_def split: option.split)
qed

lemma map_of_add_interface:
  "map_of (add_interface (interface_of n) m) = map_of m ++ map_of (interface_entries n)"
  by (simp add: add_interface_def interface_of_def put_if_def map_of_put interface_entries_def fun_upd_twist)

lemma map_of_interface_map:
  "map_of (interface_map (map interface_of ns)) = map_of (concat (map interface_entries (rev ns)))"
proof -
  have "map_of (fold add_interface (map interface_of ns) m) = map_of m ++ map_of (concat (map interface_entries (rev ns)))"
    for m :: "(string \<times> 'd xarg) list"
    by (induction ns arbitrary: m) (simp_all add: map_of_add_interface)
  from this [of "[]"] show ?thesis by (simp add: interface_map_def)
qed

lemma map_of_any_map: "map_of (toAnyMap m) = map_option AStr \<circ> map_of m"
  by (induction m) (auto simp: toAnyMap_def fun_eq_iff)

lemma system_fields_tell:
  "tells_spec sp profile (system_fields (request_of_system sp profile) :: (string \<times> 'd xarg) list)"
proof -
  let ?fs = "system_fields (request_of_system sp profile) :: (string \<times> 'd xarg) list"
  note defs = system_fields_def request_of_system_def
  have "map_of ?fs ''profile'' = Some (AStr profile)" "map_of ?fs ''comment'' = Some (AStr (csys_comment sp))"
    by (simp_all add: defs)
  moreover have "map_of ?fs ''hostname'' = (if csys_hostname sp = [] then None else Some (AStr (csys_hostname sp)))"
    "map_of ?fs ''server'' = (if csys_server sp = [] then None else Some (AStr (csys_server sp)))"
    by (simp_all add: defs)
  moreover have "map_of ?fs ''autoinstall_meta'' = (if csys_autoinstall_meta sp = [] then None
      else Some (AMapAny (toAnyMap (csys_autoinstall_meta sp))))"
    "map_of ?fs ''modify_interface'' = (if csys_interfaces sp = [] then None
      else Some (AMapAny (interface_map (map interface_of (csys_interfaces sp)))))"
    by (simp_all add: defs)
  moreover have "fst ` set ?fs \<subseteq>
      {''profile'', ''comment'', ''hostname'', ''server'', ''autoinstall_meta'', ''modify_interface''}"
    by (auto simp: defs)
  ultimately show ?thesis
    unfolding tells_spec_def by (simp add: map_of_any_map map_of_interface_map)
qed

text \<open>
  C34.  When a pass on a created CobblerSystem comes back with the heartbeat and no error, Cobbler got the
  complete request for its spec: the session ends with the whole course of an upsert (record looked up,
  fields set on its handle, handle saved, record read back), the fields set are the profile resolved
  from the spec and every other value of the spec, server, variables and each network interface
  included (\<open>tells_spec\<close>), and what the API server keeps is the old object with a status that says found
  and names the uid Cobbler gave and that profile.
\<close>

theorem cobbler_system_ready_means_sent:
  assumes "cobblerMode (csys_mode (csystem_spec cs)) \<noteq> CobblerModeImport"
    and "fst (cobsys_Reconcile w cs) = result_after cobblerHeartbeat" "fst (snd (cobsys_Reconcile w cs)) = None"
  shows "\<exists>profile uid st before tok handle is_new fs.
    resolveProfileName w cs = Resolved profile \<and>
    map (\<lambda>q. (rq_method q, rq_args q)) (se_log (session_after w (call_log (trace (pass_of (cobsys_Reconcile w cs)))))) =
      before @ upsert_requests ''system'' (csys_name (csystem_spec cs)) tok handle is_new fs \<and>
    tells_spec (csystem_spec cs) profile fs \<and>
    fst (UpsertSystem (xw_net w) (request_of_system (csystem_spec cs) profile) (xw_session w)) = Inr uid \<and>
    stored (pass_of (cobsys_Reconcile w cs)) = Some (cs\<lparr>csystem_status := st\<rparr>) \<and>
    csyst_found st \<and> csyst_cobbler_id st = uid \<and> csyst_profile_name st = profile"
proof -
  let ?s = "start_pass cs :: cobbler_system cob_pass" and ?r = "request_of_system (csystem_spec cs)"
  have pass: "cobsys_Reconcile w cs = cobsys_converge w ?s"
    using cob_begin_heartbeat assms(2,3) unfolding cobsys_Reconcile_def by blast
  have "obj_annotations cs AnnNetboot = None"
    using assms(2) netboot_not_heartbeat [of w] unfolding pass
    by (auto simp: cobsys_converge_def Let_def split: option.splits)
  then have create: "cobsys_Reconcile w cs = cobsys_create w ?s"
    using assms(1) unfolding pass by (simp add: cobsys_converge_def Let_def)
  then obtain profile where profile: "resolveProfileName w cs = Resolved profile"
    using assms(2) by (auto simp: cobsys_create_def cobsys_fail_def fail_with_def waitReason_def save_and_eq
        split: resolve.splits option.splits)
  then have upsert: "cobsys_Reconcile w cs = cobsys_upsert w profile ?s"
    using create by (simp add: cobsys_create_def)
  obtain v s' where run: "UpsertSystem (xw_net w) (?r profile) (xw_session w) = (v, s')" by fastforce
  obtain uid where uid: "v = Inr uid"
    using assms(3) run unfolding upsert
    by (cases v) (auto simp: cobsys_upsert_def Let_def cob_or_def cobsys_fail_def fail_with_def)
  let ?t = "set_st (cobsys_kit w) (\<lambda>st. st\<lparr>csyst_cobbler_id := uid, csyst_profile_name := profile\<rparr>)
    (effect (Cob (OpUpsertSystem (?r profile))) ?s)"
  have rdy: "cobsys_Reconcile w cs = cobsys_ready w ''Reconciled'' ''cobbler system record reconciled'' ?t"
    using run uid unfolding upsert by (simp add: cobsys_upsert_def Let_def cob_or_def)
  obtain st where st: "stored (pass_of (cobsys_Reconcile w cs)) = Some (cs\<lparr>csystem_status := st\<rparr>)"
    "csyst_found st" "csyst_cobbler_id st = uid" "csyst_profile_name st = profile"
    using ready_result [of w "''Reconciled''" "''cobbler system record reconciled''" ?t] assms(3) unfolding rdy
    by (auto simp: set_st_def cobsys_kind_def)
  have log: "session_after w (call_log (trace (pass_of (cobsys_Reconcile w cs)))) = s'"
    unfolding upsert session_after_def ready_trace_calls using run by simp
  have name: "srq_name (?r profile) = csys_name (csystem_spec cs)" by (simp add: request_of_system_def)
  obtain before tok handle is_new where req: "sent s' =
      before @ upsert_requests ''system'' (csys_name (csystem_spec cs)) tok handle is_new (system_fields (?r profile))"
    using UpsertSystem_ok [OF run [unfolded uid]] unfolding name by (elim exE)
  have got: "fst (UpsertSystem (xw_net w) (?r profile) (xw_session w)) = Inr uid" by (simp add: run uid)
  show ?thesis unfolding log
    by (intro exI conjI) (rule profile, rule req [unfolded sent_def], rule system_fields_tell, rule got, rule st(1),
      rule st(2), rule st(3), rule st(4))
qed

text \<open>A system with a server and one network interface.\<close>

definition wired_cobbler_system :: cobbler_system where
  "wired_cobbler_system = (sample_cobbler_system ''create'')\<lparr>csystem_spec := (sample_cobbler_spec ''create'')
     \<lparr>csys_server := ''proxy'', csys_interfaces := [\<lparr>ci_name = ''eth0'', ci_mac_address = ''aa'', ci_ip_address = [],
        ci_dns_name = [], ci_management = True\<rparr>]\<rparr>\<rparr>"

theorem cobbler_system_ready_means_sent_witness:
  "\<exists>before tok handle is_new fs im.
    map (\<lambda>q. (rq_method q, rq_args q)) (se_log (session_after cobbler_demo_world
       (call_log (trace (pass_of (cobsys_Reconcile cobbler_demo_world wired_cobbler_system))))))
      = before @ upsert_requests ''system'' ''s'' tok handle is_new fs \<and>
    map_of fs ''server'' = Some (AStr ''proxy'') \<and> map_of fs ''modify_interface'' = Some (AMapAny im) \<and>
    map_of im ''macaddress-eth0'' = Some (AStr ''aa'') \<and> map_of im ''management-eth0'' = Some (ABool True)"
proof -
  let ?r = "cobsys_Reconcile cobbler_demo_world wired_cobbler_system"
  let ?sp = "csystem_spec wired_cobbler_system"
  have "cobblerMode (csys_mode ?sp) \<noteq> CobblerModeImport" by code_simp
  moreover have "fst ?r = result_after cobblerHeartbeat" "fst (snd ?r) = None" by code_simp+
  ultimately obtain profile before tok handle is_new fs where sent:
    "map (\<lambda>q. (rq_method q, rq_args q)) (se_log (session_after cobbler_demo_world
       (call_log (trace (pass_of ?r))))) = before @ upsert_requests ''system'' (csys_name ?sp) tok handle is_new fs"
    and told: "tells_spec ?sp profile fs"
    using cobbler_system_ready_means_sent [of wired_cobbler_system cobbler_demo_world] by blast
  have sp: "csys_name ?sp = ''s''" "csys_server ?sp = ''proxy''"
    "csys_interfaces ?sp = [\<lparr>ci_name = ''eth0'', ci_mac_address = ''aa'', ci_ip_address = [],
       ci_dns_name = [], ci_management = True\<rparr>]"
    by (simp_all add: wired_cobbler_system_def sample_cobbler_spec_def)
  from told obtain im where "map_of fs ''server'' = Some (AStr ''proxy'')"
      "map_of fs ''modify_interface'' = Some (AMapAny im)"
      "map_of im = map_of (concat (map interface_entries (rev (csys_interfaces ?sp))))"
    unfolding tells_spec_def by (auto simp: sp)
  then have "map_of fs ''server'' = Some (AStr ''proxy'') \<and> map_of fs ''modify_interface'' = Some (AMapAny im) \<and>
      map_of im ''macaddress-eth0'' = Some (AStr ''aa'') \<and> map_of im ''management-eth0'' = Some (ABool True)"
    by (simp add: sp interface_entries_def)
  then show ?thesis using sent unfolding sp by blast
qed

section \<open>Deletion\<close>

lemma cob_ops_mem: "(Cob op, b) \<in> set l \<Longrightarrow> op \<in> set (cob_ops l)"
  by (induction l) (auto simp: cob_ops_def List.map_filter_def)

lemma create_ops:
  "cob_ops (call_log (trace (pass_of (cobsys_create w s)))) = cob_ops (call_log (trace s)) @
     (case resolveProfileName w (mem s) of
        Resolved profile \<Rightarrow> [OpUpsertSystem (request_of_system (csystem_spec (mem s)) profile)] | _ \<Rightarrow> [])"
  by (simp add: cobsys_create_def ready_trace_calls split: resolve.split)

lemma live_removes_nothing:
  assumes "cob_ops (call_log (trace s)) = []"
  shows "OpRemove kind n \<notin> set (cob_ops (call_log (trace (pass_of (cobsys_converge w s)))))"
  using assms
  by (auto simp: cobsys_converge_def Let_def netboot_ops import_logs create_ops split: option.splits resolve.splits)

lemma cob_removal_iff:
  "(Cob (OpRemove ''system'' n), b) \<in> set (call_log (trace (pass_of (cobsys_Reconcile w cs)))) \<longleftrightarrow>
    obj_deleting cs \<and> bw_client w = None \<and> containsFinalizer cs cobSysFinalizer \<and>
    csys_mode (csystem_spec cs) = CobblerModeCreate \<and> \<not> has_annotation cs AnnForceDelete \<and>
    n = csys_name (csystem_spec cs) \<and>
    b = (case fst (removeItem (xw_net w) ''system'' n (xw_session w)) of Inl _ \<Rightarrow> False | Inr _ \<Rightarrow> True)"
proof -
  have "(Cob (OpRemove ''system'' n), b) \<notin> set (call_log (trace (pass_of (cobsys_converge w (start_pass cs)))))"
    using live_removes_nothing [of "start_pass cs" "''system''" n w] cob_ops_mem by fastforce
  moreover have "cobblerMode m = CobblerModeCreate \<longleftrightarrow> m = CobblerModeCreate" for m
    by (simp add: cobblerMode_def CobblerModeCreate_def CobblerModeImport_def)
  ultimately show ?thesis by (auto simp: cobsys_Reconcile_def cob_begin_log)
qed

text \<open>Without a client of the provider even the force annotation does not release the object.\<close>

lemma cob_deletion_needs_provider:
  assumes "bw_client w = Some e"
  shows "cobsys_Reconcile w cs = cobsys_fail w ''ProviderError'' e (start_pass cs)"
  using assms by (simp add: cobsys_Reconcile_def cob_begin_def cobsys_fail_def)

section \<open>The way of the netboot annotation\<close>

lemma call_if_True: "call_if True out h u rest = call_or out u h rest"
  by (rule ext) (simp add: call_if_def)

lemma save_then_cases:
  "save_then k rest s =
     (case kit_out k (length (trace s)) of
        Some e \<Rightarrow> (result_done, Some e, snd (write_status (kit_out k) (kit_ops k) s))
      | None \<Rightarrow> rest (snd (write_status (kit_out k) (kit_ops k) s)))"
proof -
  obtain r s1 where w: "write_status (kit_out k) (kit_ops k) s = (r, s1)" by fastforce
  then have "r = kit_out k (length (trace s))" by (metis fst_conv write_status_simps(1))
  then show ?thesis using w by (simp add: save_then_def split: option.split)
qed

lemma consume_cases:
  "netboot_consume w b a s =
     (case bw_out w (length (trace s)) of
        Some e \<Rightarrow> return_error e (snd (write_object (bw_out w) cobsys_kind (strip_annotation AnnNetboot s)))
      | None \<Rightarrow> clearParentSystemNetboot w b a (\<lambda>s2. (result_requeue, None, s2))
          (snd (write_object (bw_out w) cobsys_kind (strip_annotation AnnNetboot s))))"
proof -
  obtain r s1 where w: "write_object (bw_out w) cobsys_kind (strip_annotation AnnNetboot s) = (r, s1)" by fastforce
  then have "r = bw_out w (length (trace s))" by (metis fst_conv write_object_simps(1) strip_annotation_trace(1))
  then show ?thesis using w by (simp add: netboot_consume_def split: option.split)
qed

text \<open>
  C36.  The handover of a netboot request: a pass on a created CobblerSystem that carries it switches the
  record first, then stores the value and drops the annotation here, and only then turns to the owning
  System, where the value is stored before the annotation is dropped.  Whatever write fails, no later
  step is done; so the annotation of the System outlives the one here, and when a write in between
  fails the System hands the request over again.
\<close>

theorem netboot_handover:
  assumes "obj_annotations cs AnnNetboot = Some val" "val \<in> {''true'', ''false''}"
    and "csys_mode (csystem_spec cs) = CobblerModeCreate" "\<not> obj_deleting cs" "cobSysFinalizer \<in> set (obj_finalizers cs)"
    and "bw_client w = None" "fst (SetNetboot (xw_net w) (csys_name (csystem_spec cs)) (val = ''true'') (xw_session w)) = Inr ()"
    and "\<And>cs'. xw_controller_of w cs' = Some owner" "or_kind owner = ''System''"
    and "xw_get_system w (obj_namespace cs) (or_name owner) = Inr sys" "obj_annotations sys AnnNetboot \<noteq> None"
  shows "call_log (trace (pass_of (cobsys_Reconcile w cs))) =
      (Cob (OpSetNetboot (csys_name (csystem_spec cs)) (val = ''true'')), True) #
      (if bw_out w 1 \<noteq> None \<or> bw_out w 2 \<noteq> None then []
       else (MirrorNetboot (obj_name sys) (val = ''true''), bw_out w 3 = None) #
         (if bw_out w 3 \<noteq> None then [] else [(StripNetboot (obj_name sys), bw_out w 4 = None)])) \<and>
    (\<exists>x. stored (pass_of (cobsys_Reconcile w cs)) = Some x \<and>
       (csyst_netboot_enabled (csystem_status x) =
         (if bw_out w 1 = None then Some (val = ''true'') else csyst_netboot_enabled (csystem_status cs))) \<and>
       (obj_annotations x AnnNetboot = None \<longleftrightarrow> bw_out w 1 = None \<and> bw_out w 2 = None))"
proof -
  let ?name = "csys_name (csystem_spec cs)" and ?v = "val = ''true''"
  let ?s0 = "start_pass cs :: cobbler_system cob_pass"
  let ?s1 = "set_st (cobsys_kit w) (\<lambda>st. st\<lparr>csyst_netboot_enabled := Some ?v, csyst_observed_generation := obj_generation cs\<rparr>)
    (effect (Cob (OpSetNetboot ?name ?v)) ?s0)"
  let ?s2 = "snd (write_status (bw_out w) cobsys_kind ?s1)"
  let ?s3 = "snd (write_object (bw_out w) cobsys_kind (strip_annotation AnnNetboot ?s2))"
  have mode: "cobblerMode (csys_mode (csystem_spec cs)) = CobblerModeCreate"
    using assms(3) by (simp add: cobblerMode_def CobblerModeCreate_def)
  have "cobsys_Reconcile w cs = cobsys_netboot w val CobblerModeCreate ?s0"
    using assms(1,4,5,6) mode by (simp add: cobsys_Reconcile_def cob_begin_def with_finalizer_eq cobsys_converge_def Let_def)
  also have "\<dots> = save_then (cobsys_kit w) (netboot_consume w ?v True) ?s1"
    using assms(2,7) by (auto simp: cobsys_netboot_def Let_def cob_or_def)
  finally have pass: "cobsys_Reconcile w cs = save_then (cobsys_kit w) (netboot_consume w ?v True) ?s1" .
  have tr: "trace ?s2 = [(Call (Cob (OpSetNetboot ?name ?v)), True), (WriteStatus, bw_out w 1 = None)]" by simp
  have st2: "stored ?s2 = Some (if bw_out w 1 = None then mem ?s1 else cs)" "mem ?s2 = mem ?s1"
    by (simp_all add: set_st_def cobsys_kind_def)
  have clear: "clearParentSystemNetboot w ?v True r t =
      call_or (bw_out w) (MirrorNetboot (obj_name sys) ?v) return_error (call_or (bw_out w) (StripNetboot (obj_name sys)) return_error r) t"
    if "obj_namespace (mem t) = obj_namespace cs" for r and t :: "cobbler_system cob_pass"
    using assms(8-11) that by (simp add: clearParentSystemNetboot_def call_if_True)
  consider (status) e where "bw_out w 1 = Some e" | (own) e where "bw_out w 1 = None" "bw_out w 2 = Some e"
    | (go) "bw_out w 1 = None" "bw_out w 2 = None" by fastforce
  then show ?thesis
  proof cases
    case status
    then have "cobsys_Reconcile w cs = (result_done, Some e, ?s2)" by (simp add: pass save_then_cases)
    then show ?thesis using status assms(1) tr st2 by simp
  next
    case own
    then have "cobsys_Reconcile w cs = return_error e ?s3" by (simp add: pass save_then_cases consume_cases eval_nat_numeral)
    then show ?thesis using own assms(1) st2
      by (simp add: return_error_def eval_nat_numeral) (simp add: set_st_def cobsys_kind_def)
  next
    case go
    have s3: "stored ?s3 = Some (mem ?s3)" "mem ?s3 = (mem ?s1)\<lparr>obj_annotations := (obj_annotations cs)(AnnNetboot := None)\<rparr>"
      "call_log (trace ?s3) = [(Cob (OpSetNetboot ?name ?v), True)]" "length (trace ?s3) = 3"
      using go assms(4) by (simp_all add: eval_nat_numeral strip_annotation_def collected_def set_st_def cobsys_kind_def)
    have "cobsys_Reconcile w cs = clearParentSystemNetboot w ?v True (\<lambda>s2. (result_requeue, None, s2)) ?s3"
      using go by (simp add: pass save_then_cases consume_cases eval_nat_numeral)
    also have "\<dots> = call_or (bw_out w) (MirrorNetboot (obj_name sys) ?v) return_error
        (call_or (bw_out w) (StripNetboot (obj_name sys)) return_error (\<lambda>s2. (result_requeue, None, s2))) ?s3"
      by (rule clear) (unfold s3(2), simp add: set_st_def cobsys_kind_def)
    finally have "cobsys_Reconcile w cs = \<dots>" .
    then show ?thesis using go s3
      by (simp add: call_or_eq return_error_def eval_nat_numeral) (simp add: set_st_def cobsys_kind_def)
  qed
qed

definition netboot_demo_world :: "uyuni_system \<Rightarrow> unit cobbler_world" where
  "netboot_demo_world sys = cobbler_demo_world\<lparr>xw_get_system := (\<lambda>_ _. Inr sys), bw_out := (\<lambda>i. if i = 3 then Some (errorf ''conflict'') else None),
     xw_controller_of := (\<lambda>_. Some \<lparr>or_api_version = group_version, or_kind = ''System'', or_name = obj_name sys,
       or_uid = [], or_block_owner_deletion = True\<rparr>)\<rparr>"

definition netboot_demo_system :: uyuni_system where
  "netboot_demo_system = (sample_member ''m'' 1)\<lparr>obj_annotations := [AnnNetboot \<mapsto> ''true'']\<rparr>"

definition netboot_demo_object :: cobbler_system where
  "netboot_demo_object = (sample_cobbler_system ''create'')\<lparr>obj_annotations := [AnnNetboot \<mapsto> ''true'']\<rparr>"

theorem netboot_handover_witness:
  "call_log (trace (pass_of (cobsys_Reconcile (netboot_demo_world netboot_demo_system) netboot_demo_object))) =
     [(Cob (OpSetNetboot ''s'' True), True), (MirrorNetboot ''m'' True, False)]"
proof -
  let ?w = "netboot_demo_world netboot_demo_system" and ?c = netboot_demo_object
  have w: "bw_client ?w = None" "xw_net ?w = demo_net" "xw_session ?w = new_session"
    "\<And>x. xw_controller_of ?w x = Some \<lparr>or_api_version = group_version, or_kind = ''System'', or_name = ''m'',
       or_uid = [], or_block_owner_deletion = True\<rparr>"
    "\<And>n x. xw_get_system ?w n x = Inr netboot_demo_system" "bw_out ?w 1 = None" "bw_out ?w 2 = None"
    "bw_out ?w 3 = Some (errorf ''conflict'')"
    by (simp_all add: netboot_demo_world_def cobbler_demo_world_def Let_def netboot_demo_system_def sample_member_def sample_simps)
  have c: "csystem_spec ?c = sample_cobbler_spec ''create''" "obj_annotations ?c AnnNetboot = Some ''true''" "\<not> obj_deleting ?c"
    "cobSysFinalizer \<in> set (obj_finalizers ?c)"
    by (simp_all add: netboot_demo_object_def sample_cobbler_system_def sample_simps)
  have "(case fst (SetNetboot demo_net ''s'' True new_session) of Inl _ \<Rightarrow> False | Inr _ \<Rightarrow> True)" by code_simp
  then have "fst (SetNetboot demo_net ''s'' True new_session) = Inr ()" by (simp split: sum.splits)
  moreover have "obj_annotations netboot_demo_system AnnNetboot \<noteq> None" "obj_name netboot_demo_system = ''m''"
    by (simp_all add: netboot_demo_system_def sample_member_def sample_simps)
  ultimately show ?thesis
    using netboot_handover [of ?c "''true''" ?w "\<lparr>or_api_version = group_version, or_kind = ''System'', or_name = ''m'',
       or_uid = [], or_block_owner_deletion = True\<rparr>" netboot_demo_system]
    unfolding w c by (simp add: sample_cobbler_spec_def CobblerModeCreate_def c)
qed

end
