(* ===== verification/Webhooks_Content.thy ===== *)
theory Webhooks_Content
  imports Admission Api_Content
begin

text \<open>
  The validators of \<^verbatim>\<open>autoinstall_webhook.go\<close>, \<^verbatim>\<open>image_webhook.go\<close>, \<^verbatim>\<open>proxy_webhook.go\<close>,
  \<^verbatim>\<open>configurationchannel_webhook.go\<close>, \<^verbatim>\<open>custominfokey_webhook.go\<close> and \<^verbatim>\<open>uyuniprovider_webhook.go\<close>, and
  what the last of them gives for the whole cluster: at most one default provider.
\<close>

text \<open>Validators that drop the warnings when there are field errors.\<close>

definition verdict_or_warn :: "string \<Rightarrow> warning list \<Rightarrow> field_error list \<Rightarrow> admission" where
  "verdict_or_warn name ws errs = (if errs \<noteq> [] then ([], Some (AInvalid name errs)) else (ws, None))"

lemma accepted_verdict_or_warn [simp]: "accepted (verdict_or_warn name ws errs) \<longleftrightarrow> errs = []"
  by (simp add: verdict_or_warn_def)

definition warn_opt_ref :: "'a k8s_get \<Rightarrow> string \<Rightarrow> string \<Rightarrow> local_object_ref option \<Rightarrow> fpath \<Rightarrow> warning list" where
  "warn_opt_ref get kind ns ref path =
     (case ref of None \<Rightarrow> [] | Some r \<Rightarrow> warnIfMissing get kind ns (lor_name r) path)"

section \<open>AutoinstallDistribution and AutoinstallProfile\<close>

definition validateDistribution :: "('c) software_channel_scheme k8s_get \<Rightarrow> distribution \<Rightarrow> admission" where
  "validateDistribution get ad =
     (warnIfMissing get ''SoftwareChannel'' (obj_namespace ad) (lor_name (ad_channel_ref (dist_spec ad)))
        [PChild ''spec'', PChild ''channelRef''], None)"

definition distribution_ValidateUpdate ::
  "('c) software_channel_scheme k8s_get \<Rightarrow> distribution \<Rightarrow> distribution \<Rightarrow> admission" where
  "distribution_ValidateUpdate get old ad =
     (if ad_label (dist_spec old) \<noteq> ad_label (dist_spec ad) then forbid (obj_name ad) ''spec.label is immutable''
      else if ad_install_type (dist_spec old) \<noteq> ad_install_type (dist_spec ad)
      then forbid (obj_name ad) ''spec.installType is immutable''
      else validateDistribution get ad)"

interpretation distribution_identity: immutable_field
  "\<lambda>a b. \<exists>get. accepted (distribution_ValidateUpdate get a b)"
  "\<lambda>d. (ad_label (dist_spec d), ad_install_type (dist_spec d))"
  by unfold_locales (auto simp: distribution_ValidateUpdate_def split: if_splits)

record ('c) profile_reads =
  get_distribution :: "distribution k8s_get"
  get_channel :: "('c) software_channel_scheme k8s_get"

definition profile_errs :: "autoinstall_profile_spec \<Rightarrow> field_error list" where
  "profile_errs sp =
     (if ap_kickstart_contents sp \<noteq> [] \<and> ap_scripts sp \<noteq> []
      then [EInvalid [PChild ''spec'', PChild ''scripts''] BVComposite
        ''spec.scripts must be empty when spec.kickstartContents is set (the imported file is authoritative)'']
      else [])"

definition validateProfile :: "('c) profile_reads \<Rightarrow> autoinstall_profile \<Rightarrow> admission" where
  "validateProfile reads ap =
     (let sp = prof_spec ap; ns = obj_namespace ap; spec = [PChild ''spec''] in
      verdict_or_warn (obj_name ap)
        (warn_opt_ref (get_distribution reads) ''AutoinstallDistribution'' ns (ap_distribution_ref sp) (child spec ''distributionRef'')
         @ warnRefs (get_channel reads) ''SoftwareChannel'' ns (child spec ''childChannelRefs'') 0 (ap_child_channel_refs sp)
         @ (if ap_kickstart_contents sp \<noteq> [] \<and> ap_variables sp \<noteq> []
            then [WText ''spec.variables are set alongside spec.kickstartContents; variables are not substituted into imported files by Uyuni'']
            else []))
        (profile_errs sp))"

definition opt_ref_name :: "local_object_ref option \<Rightarrow> string" where
  "opt_ref_name r = (case r of None \<Rightarrow> [] | Some x \<Rightarrow> lor_name x)"

definition profile_ValidateUpdate ::
  "('c) profile_reads \<Rightarrow> autoinstall_profile \<Rightarrow> autoinstall_profile \<Rightarrow> admission" where
  "profile_ValidateUpdate reads old ap =
     (if ap_label (prof_spec old) \<noteq> ap_label (prof_spec ap) then forbid (obj_name ap) ''spec.label is immutable''
      else if ap_mode (prof_spec old) \<noteq> ap_mode (prof_spec ap) then forbid (obj_name ap) ''spec.mode is immutable''
      else if opt_ref_name (ap_distribution_ref (prof_spec old)) \<noteq> opt_ref_name (ap_distribution_ref (prof_spec ap))
      then forbid (obj_name ap) ''spec.distributionRef is immutable''
      else validateProfile reads ap)"

interpretation profile_identity: immutable_field
  "\<lambda>a b. \<exists>reads. accepted (profile_ValidateUpdate reads a b)"
  "\<lambda>p. (ap_label (prof_spec p), ap_mode (prof_spec p), opt_ref_name (ap_distribution_ref (prof_spec p)))"
  by unfold_locales (auto simp: profile_ValidateUpdate_def split: if_splits)

section \<open>ImageStore, ImageProfile, ImageBuild\<close>

definition store_ValidateUpdate :: "image_store \<Rightarrow> image_store \<Rightarrow> admission" where
  "store_ValidateUpdate old is =
     (if ist_label (istore_spec old) \<noteq> ist_label (istore_spec is) then forbid (obj_name is) ''spec.label is immutable''
      else if ist_type (istore_spec old) \<noteq> ist_type (istore_spec is) then forbid (obj_name is) ''spec.type is immutable''
      else admit)"

interpretation store_identity: immutable_field
  "\<lambda>a b. accepted (store_ValidateUpdate a b)" "\<lambda>s. (ist_label (istore_spec s), ist_type (istore_spec s))"
  by unfold_locales (auto simp: store_ValidateUpdate_def split: if_splits)

record ('k, 's) image_reads =
  get_store :: "image_store k8s_get"
  get_image_key :: "'k k8s_get"
  get_build_host :: "'s k8s_get"
  get_image_profile :: "image_profile k8s_get"

definition image_profile_errs :: "image_profile \<Rightarrow> field_error list" where
  "image_profile_errs ip =
     (let sp = iprof_spec ip in
      (if ip_url sp \<noteq> [] \<and> ip_git sp \<noteq> None
       then [EInvalid [PChild ''spec'', PChild ''git''] BVComposite
         ''spec.url and spec.git are mutually exclusive; set exactly one'']
       else if ip_url sp = [] \<and> ip_git sp = None
       then [ERequired [PChild ''spec''] ''exactly one of spec.url or spec.git must be set'']
       else [])
      @ (case ip_git sp of
           None \<Rightarrow> []
         | Some g \<Rightarrow> if gs_path g \<noteq> [] \<and> gs_reference g = []
             then [EInvalid [PChild ''spec'', PChild ''git'', PChild ''path''] (BVStr (gs_path g))
               ''spec.git.path requires spec.git.reference to be set''] else [])
      @ StrictBooleanAnnotations (obj_annotations ip) [AnnBuildNow, AnnForceDelete]
          [PChild ''metadata'', PChild ''annotations''])"

definition validateImageProfile :: "('k, 's) image_reads \<Rightarrow> image_profile \<Rightarrow> admission" where
  "validateImageProfile reads ip =
     (let sp = iprof_spec ip; ns = obj_namespace ip; spec = [PChild ''spec''] in
      verdict_or_warn (obj_name ip)
        (warn_opt_ref (get_store reads) ''ImageStore'' ns (ip_store_ref sp) (child spec ''storeRef'')
         @ warn_opt_ref (get_image_key reads) ''ActivationKey'' ns (ip_activation_key_ref sp) (child spec ''activationKeyRef'')
         @ warn_opt_ref (get_build_host reads) ''System'' ns (ip_build_host_ref sp) (child spec ''buildHostRef''))
        (image_profile_errs ip))"

definition image_profile_ValidateUpdate ::
  "('k, 's) image_reads \<Rightarrow> image_profile \<Rightarrow> image_profile \<Rightarrow> admission" where
  "image_profile_ValidateUpdate reads old ip =
     (if ip_label (iprof_spec old) \<noteq> ip_label (iprof_spec ip) then forbid (obj_name ip) ''spec.label is immutable''
      else if ip_type (iprof_spec old) \<noteq> ip_type (iprof_spec ip) then forbid (obj_name ip) ''spec.type is immutable''
      else validateImageProfile reads ip)"

interpretation image_profile_identity: immutable_field
  "\<lambda>a b. \<exists>reads. accepted (image_profile_ValidateUpdate reads a b)"
  "\<lambda>p. (ip_label (iprof_spec p), ip_type (iprof_spec p))"
  by unfold_locales (auto simp: image_profile_ValidateUpdate_def split: if_splits)

lemma accepted_source: "accepted (validateImageProfile reads ip) \<Longrightarrow> (ip_url (iprof_spec ip) = []) \<longleftrightarrow> (ip_git (iprof_spec ip) \<noteq> None)"
  by (auto simp: validateImageProfile_def image_profile_errs_def Let_def split: if_splits)

definition validateBuild :: "('k, 's) image_reads \<Rightarrow> image_build \<Rightarrow> admission" where
  "validateBuild reads ib =
     (let sp = ibuild_spec ib; ns = obj_namespace ib; spec = [PChild ''spec''] in
      verdict_or_warn (obj_name ib)
        (warnIfMissing (get_image_profile reads) ''ImageProfile'' ns (lor_name (ibs_profile_ref sp)) (child spec ''profileRef'')
         @ warn_opt_ref (get_build_host reads) ''System'' ns (ibs_build_host_ref sp) (child spec ''buildHostRef''))
        (StrictBooleanAnnotations (obj_annotations ib) [AnnBuildNow, AnnForceDelete]
          [PChild ''metadata'', PChild ''annotations'']))"

definition build_ValidateUpdate :: "('k, 's) image_reads \<Rightarrow> image_build \<Rightarrow> image_build \<Rightarrow> admission" where
  "build_ValidateUpdate reads old ib =
     (if ibst_action_id (ibuild_status old) \<noteq> 0 \<and>
         lor_name (ibs_profile_ref (ibuild_spec old)) \<noteq> lor_name (ibs_profile_ref (ibuild_spec ib))
      then forbid (obj_name ib) ''spec.profileRef is immutable after a build has been scheduled''
      else validateBuild reads ib)"

text \<open>An update of the spec leaves the status, so a scheduled build stays scheduled.\<close>

interpretation scheduled_profile: frozen_field
  "\<lambda>a b. (\<exists>reads. accepted (build_ValidateUpdate reads a b)) \<and> ibuild_status b = ibuild_status a"
  "\<lambda>a b. ibuild_spec a = ibuild_spec b \<and> (ibst_action_id (ibuild_status a) \<noteq> 0 \<longrightarrow> ibst_action_id (ibuild_status b) \<noteq> 0)"
  "\<lambda>b. ibst_action_id (ibuild_status b) \<noteq> 0" "\<lambda>b. lor_name (ibs_profile_ref (ibuild_spec b))"
  by unfold_locales (auto simp: build_ValidateUpdate_def split: if_splits)

section \<open>Proxy, ConfigurationChannel, CustomInfoKey\<close>

definition proxy_validate :: "'s k8s_get \<Rightarrow> proxy \<Rightarrow> warning list" where
  "proxy_validate get px =
     (case px_tls_secret_ref (pxy_spec px) of
        None \<Rightarrow> []
      | Some r \<Rightarrow> (case get (obj_namespace px) (lor_name r) of
          Inl e \<Rightarrow> if is_k8s_not_found e
            then [WText (''TLS secret '' @ go_quote (lor_name r) @ '' not found in namespace '' @ go_quote (obj_namespace px)
              @ ''; proxy config generation will wait for it'')]
            else []
        | Inr _ \<Rightarrow> []))"

definition proxy_ValidateUpdate :: "'s k8s_get \<Rightarrow> proxy \<Rightarrow> proxy \<Rightarrow> admission" where
  "proxy_ValidateUpdate get old px =
     (if px_fqdn (pxy_spec old) \<noteq> px_fqdn (pxy_spec px)
      then ([], Some (AInvalid (obj_name px) [EForbidden [PChild ''spec'', PChild ''fqdn''] ''fqdn is immutable'']))
      else (proxy_validate get px, None))"

interpretation proxy_fqdn: immutable_field
  "\<lambda>a b. \<exists>get. accepted (proxy_ValidateUpdate get a b)" "\<lambda>p. px_fqdn (pxy_spec p)"
  by unfold_locales (auto simp: proxy_ValidateUpdate_def split: if_splits)

definition cchan_validate :: "configuration_channel \<Rightarrow> admission" where
  "cchan_validate cc =
     (if cch_id (cchan_spec cc) = [] then forbid (obj_name cc) ''spec.id is required''
      else if cch_name (cchan_spec cc) = [] then forbid (obj_name cc) ''spec.name is required''
      else admit)"

definition cchan_ValidateUpdate :: "configuration_channel \<Rightarrow> configuration_channel \<Rightarrow> admission" where
  "cchan_ValidateUpdate old cc =
     (if cch_id (cchan_spec old) \<noteq> cch_id (cchan_spec cc) then forbid (obj_name cc) ''spec.id is immutable''
      else if cch_type (cchan_spec old) \<noteq> cch_type (cchan_spec cc) then forbid (obj_name cc) ''spec.type is immutable''
      else if cch_cluster (cchan_spec old) \<noteq> cch_cluster (cchan_spec cc) then forbid (obj_name cc) ''spec.cluster is immutable''
      else cchan_validate cc)"

interpretation cchan_identity: immutable_field
  "\<lambda>a b. accepted (cchan_ValidateUpdate a b)"
  "\<lambda>c. (cch_id (cchan_spec c), cch_type (cchan_spec c), cch_cluster (cchan_spec c))"
  by unfold_locales (auto simp: cchan_ValidateUpdate_def split: if_splits)

definition info_key_ValidateUpdate :: "custom_info_key \<Rightarrow> custom_info_key \<Rightarrow> admission" where
  "info_key_ValidateUpdate old new_key =
     (if cik_label (cikey_spec old) \<noteq> cik_label (cikey_spec new_key)
      then ([], Some (AInvalid (obj_name new_key) [EForbidden [PChild ''spec'', PChild ''label''] ''label is immutable'']))
      else admit)"

interpretation info_key_label: immutable_field
  "\<lambda>a b. accepted (info_key_ValidateUpdate a b)" "\<lambda>k. cik_label (cikey_spec k)"
  by unfold_locales (auto simp: info_key_ValidateUpdate_def split: if_splits)

section \<open>UyuniProvider\<close>

fun other_default :: "string \<Rightarrow> uyuni_provider list \<Rightarrow> string option" where
  "other_default n [] = None"
| "other_default n (p # ps) =
     (if obj_name p = n then other_default n ps
      else if prov_is_default (prov_spec p) then Some (obj_name p) else other_default n ps)"

definition provider_validate :: "go_error + uyuni_provider list \<Rightarrow> uyuni_provider \<Rightarrow> admission" where
  "provider_validate listed prov =
     (if \<not> prov_is_default (prov_spec prov) then admit
      else case listed of
        Inl _ \<Rightarrow> ([WText ''could not verify uniqueness of isDefault; will be re-validated at reconcile''], None)
      | Inr ps \<Rightarrow> (case other_default (obj_name prov) ps of
          None \<Rightarrow> admit
        | Some n \<Rightarrow> forbid (obj_name prov) (''UyuniProvider '' @ go_quote n
            @ '' is already marked isDefault=true; only one default is permitted'')))"

text \<open>
  The providers of a cluster, by their names, as the requests to the API server change them: a create or
  an update goes through the webhook, which reads a list, and a delete always goes through.  The list is
  the providers at the time of the request, or an earlier state of them when the cache of the webhook
  lags; \<open>fresh\<close> says which.
\<close>

type_synonym providers = "uyuni_provider list"

definition put_provider :: "uyuni_provider \<Rightarrow> providers \<Rightarrow> providers" where
  "put_provider p ps =
     (if obj_name p \<in> obj_name ` set ps then map (\<lambda>q. if obj_name q = obj_name p then p else q) ps
      else ps @ [p])"

inductive provider_step :: "(providers \<Rightarrow> go_error + providers) \<Rightarrow> providers \<Rightarrow> providers \<Rightarrow> bool"
  for cache :: "providers \<Rightarrow> go_error + providers" where
  Put_Provider: "accepted (provider_validate (cache ps) p) \<Longrightarrow> provider_step cache ps (put_provider p ps)"
| Delete_Provider: "provider_step cache ps (filter (\<lambda>q. obj_name q \<noteq> n) ps)"

inductive_simps provider_step_simps: "provider_step cache ps ps'"

definition defaults :: "providers \<Rightarrow> uyuni_provider list" where
  "defaults ps = filter (\<lambda>p. prov_is_default (prov_spec p)) ps"

lemma other_default_None: "other_default n ps = None \<longleftrightarrow> (\<forall>p \<in> set (defaults ps). obj_name p = n)"
  by (induction ps) (auto simp: defaults_def)

definition provider_ok :: "providers \<Rightarrow> bool" where
  "provider_ok ps = (distinct (map obj_name ps) \<and>
     (\<forall>p \<in> set (defaults ps). \<forall>q \<in> set (defaults ps). obj_name p = obj_name q))"

lemma put_provider_names:
  "map obj_name (put_provider p ps) = (if obj_name p \<in> obj_name ` set ps then map obj_name ps else map obj_name ps @ [obj_name p])"
  by (auto simp: put_provider_def)

lemma put_provider_mem:
  assumes "q \<in> set (put_provider p ps)"
  shows "q = p \<or> (q \<in> set ps \<and> obj_name q \<noteq> obj_name p)"
proof -
  have "\<forall>q \<in> set ps. obj_name q \<noteq> obj_name p" if "obj_name p \<notin> obj_name ` set ps" using that by (metis imageI)
  then show ?thesis using assms by (auto simp: put_provider_def split: if_splits)
qed

lemma provider_ok_put:
  assumes "provider_ok ps" "accepted (provider_validate (Inr ps) p)"
  shows "provider_ok (put_provider p ps)"
proof -
  have "distinct (map obj_name (put_provider p ps))"
    using assms(1) unfolding put_provider_names by (auto simp: provider_ok_def)
  moreover have "obj_name q = obj_name p" if "prov_is_default (prov_spec p)" "q \<in> set (defaults (put_provider p ps))" for q
  proof (rule ccontr)
    assume "obj_name q \<noteq> obj_name p"
    then have "q \<in> set (defaults ps)" using that(2) put_provider_mem by (fastforce simp: defaults_def)
    moreover have "other_default (obj_name p) ps = None"
      using assms(2) that(1) by (simp add: provider_validate_def split: option.splits)
    ultimately show False using \<open>obj_name q \<noteq> obj_name p\<close> by (simp add: other_default_None)
  qed
  moreover have "q \<in> set (defaults ps)" if "\<not> prov_is_default (prov_spec p)" "q \<in> set (defaults (put_provider p ps))" for q
    using that put_provider_mem by (fastforce simp: defaults_def)
  ultimately show ?thesis using assms(1) unfolding provider_ok_def by metis
qed

lemma provider_ok_delete: "provider_ok ps \<Longrightarrow> provider_ok (filter (\<lambda>q. obj_name q \<noteq> n) ps)"
  by (auto simp: provider_ok_def defaults_def distinct_map_filter)

lemma provider_ok_single:
  assumes "provider_ok ps"
  shows "length (defaults ps) \<le> 1"
proof -
  have "distinct (map obj_name (defaults ps))" using assms by (simp add: provider_ok_def defaults_def distinct_map_filter)
  then have "length (defaults ps) = card (set (map obj_name (defaults ps)))"
    using distinct_card [of "map obj_name (defaults ps)"] by simp
  also have "\<dots> \<le> Suc 0"
  proof (subst card_le_Suc0_iff_eq)
    show "\<forall>a \<in> set (map obj_name (defaults ps)). \<forall>b \<in> set (map obj_name (defaults ps)). a = b"
      using assms unfolding provider_ok_def set_map by blast
  qed simp
  finally show ?thesis unfolding One_nat_def .
qed

text \<open>
  C37.  Whatever providers are created, changed, renamed to default or not and deleted, as long as the
  webhook sees the providers there are, the cluster never has more than one default provider, and
  every provider keeps a name of its own.
\<close>

theorem one_default_provider:
  assumes "(provider_step Inr)\<^sup>*\<^sup>* [] ps"
  shows "length (filter (\<lambda>p. prov_is_default (prov_spec p)) ps) \<le> 1 \<and> distinct (map obj_name ps)"
proof -
  have "provider_ok ps"
    using assms
  proof (induction rule: rtranclp_induct)
    case base
    show ?case by (simp add: provider_ok_def defaults_def)
  next
    case (step a b)
    from step(2,3) show ?case by cases (auto intro: provider_ok_put provider_ok_delete)
  qed
  then show ?thesis using provider_ok_single unfolding provider_ok_def defaults_def by blast
qed

definition sample_provider :: "string \<Rightarrow> bool \<Rightarrow> uyuni_provider" where
  "sample_provider n d = k8s_object.extend (mk_object [] n)
     \<lparr>prov_spec = \<lparr>prov_url = [], prov_credentials = \<lparr>sr_name = [], sr_namespace = []\<rparr>, prov_insecure_skip_verify = False,
        prov_ca_cert = None, prov_timeout = 0, prov_is_default = d\<rparr>,
      prov_status = \<lparr>provs_server_version = [], provs_org_id = 0, provs_last_reachable_time = None,
        provs_observed_generation = 0, provs_conditions = []\<rparr>\<rparr>"

lemmas provider_sample_simps = sample_provider_def mk_object_def k8s_object.defs

theorem one_default_provider_witness:
  "(provider_step Inr)\<^sup>*\<^sup>* [] [sample_provider ''a'' True, sample_provider ''b'' False] \<and>
   length (filter (\<lambda>p. prov_is_default (prov_spec p)) [sample_provider ''a'' True, sample_provider ''b'' False]) \<le> 1"
proof -
  have "provider_step Inr [] (put_provider (sample_provider ''a'' True) [])"
    by (rule Put_Provider) (simp add: provider_validate_def)
  moreover have "provider_step Inr (put_provider (sample_provider ''a'' True) [])
      (put_provider (sample_provider ''b'' False) (put_provider (sample_provider ''a'' True) []))"
    by (rule Put_Provider) (simp add: provider_validate_def provider_sample_simps)
  moreover have "put_provider (sample_provider ''b'' False) (put_provider (sample_provider ''a'' True) []) =
      [sample_provider ''a'' True, sample_provider ''b'' False]"
    by (simp add: put_provider_def provider_sample_simps)
  ultimately have run: "(provider_step Inr)\<^sup>*\<^sup>* [] [sample_provider ''a'' True, sample_provider ''b'' False]"
    by (metis converse_rtranclp_into_rtranclp rtranclp.rtrancl_refl)
  then show ?thesis using one_default_provider by blast
qed

text \<open>When the list cannot be read the webhook lets a second default provider in.\<close>

lemma two_default_providers:
  "(provider_step (\<lambda>_. Inl e))\<^sup>*\<^sup>* [] [sample_provider ''a'' True, sample_provider ''b'' True]"
proof -
  let ?R = "provider_step (\<lambda>_. Inl e)"
  have "?R [] (put_provider (sample_provider ''a'' True) [])"
    "?R (put_provider (sample_provider ''a'' True) [])
       (put_provider (sample_provider ''b'' True) (put_provider (sample_provider ''a'' True) []))"
    by (rule Put_Provider, simp add: provider_validate_def split: option.split)+
  moreover have "put_provider (sample_provider ''b'' True) (put_provider (sample_provider ''a'' True) []) =
      [sample_provider ''a'' True, sample_provider ''b'' True]"
    by (simp add: put_provider_def provider_sample_simps)
  ultimately show ?thesis by (metis converse_rtranclp_into_rtranclp rtranclp.rtrancl_refl)
qed

end
