(* ===== verification/Image_Build_Controller.thy ===== *)
theory Image_Build_Controller
  imports Kind_Facts Api_Content Uyuni_Wire Go_Time
begin

text \<open>
  The ImageBuild reconciler (\<^verbatim>\<open>imagebuild_controller.go\<close>): one build of an image profile, scheduled in
  Uyuni and followed to its end.  Times are nanoseconds since the zero time of Go, so \<^verbatim>\<open>IsZero\<close> is
  being 0.  A pass works on the copy of the object the informer cache has, which may be older than what
  the API server keeps (\<open>start_cached\<close>); the uncached reader sees the latter.
\<close>

section \<open>World\<close>

definition ibuild_kind :: "(image_build, image_build_status) kind_ops" where
  "ibuild_kind = \<lparr>status_of = ibuild_status, with_status = \<lambda>st o'. o'\<lparr>ibuild_status := st\<rparr>\<rparr>"

interpretation ibuild_status_field: status_field ibuild_kind
  by unfold_locales (simp_all add: ibuild_kind_def k8s_object.defs)

text \<open>
  \<open>iw_reader\<close> is whether there is an uncached reader and the error of its read; \<open>iw_stamp\<close> is
  \<^verbatim>\<open>time.Now()\<close> in the layout of version tags and \<open>iw_duration\<close> the text of a duration.
\<close>

record ibuild_world = base_world +
  iw_now :: int
  iw_stamp :: string
  iw_duration :: "int \<Rightarrow> string"
  iw_reader :: "go_error option option"
  iw_get_profile :: "image_profile k8s_get"
  iw_get_system :: "uyuni_system k8s_get"
  iu_images :: "go_error + image_info list"
  iu_action :: "int \<Rightarrow> go_error + scheduled_action"
  iu_details :: "int \<Rightarrow> go_error + image_details option"
  iu_scheduled :: int

datatype ibuild_call =
    ScheduleImageBuild string string int int
  | CancelBuild int
  | DeleteImage int

type_synonym ibuild_pass = "(image_build, ibuild_call) pass"

type_synonym ibuild_outcome = "(image_build, ibuild_call) outcome"

definition ibuild_kit :: "ibuild_world \<Rightarrow> (image_build, image_build_status) kit" where
  "ibuild_kit w = kit_of ibuild_kind ibst_conditions_update w"

definition ibuild_fail :: "ibuild_world \<Rightarrow> string \<Rightarrow> go_error \<Rightarrow> ibuild_pass \<Rightarrow> ibuild_outcome" where
  "ibuild_fail w = fail_with (ibuild_kit w)"

definition start_cached :: "'o \<Rightarrow> 'o \<Rightarrow> ('o, 'u) pass" where
  "start_cached cached actual = \<lparr>mem = cached, stored = Some actual, trace = []\<rparr>"

text \<open>The Ready condition is there and true.\<close>

definition is_ready_now :: "condition list \<Rightarrow> bool" where
  "is_ready_now cs = (case find_cond ''Ready'' cs of None \<Rightarrow> False | Some c \<Rightarrow> cond_status c)"

section \<open>Deletion\<close>

text \<open>Both clean-up calls are tried, and neither failure keeps the finalizer.\<close>

definition uyuniClientForDeletion :: "ibuild_world \<Rightarrow> image_build \<Rightarrow> go_error option" where
  "uyuniClientForDeletion w ib =
     (case iw_get_profile w (obj_namespace ib) (lor_name (ibs_profile_ref (ibuild_spec ib))) of
        Inl e \<Rightarrow> Some e
      | Inr _ \<Rightarrow> bw_client w)"

definition ibuild_clean :: "ibuild_world \<Rightarrow> ibuild_pass \<Rightarrow> ibuild_pass" where
  "ibuild_clean w s =
     (let st = ibuild_status (mem s);
          s1 = (if ibst_action_id st \<noteq> 0 \<and> ibst_build_status st = ''Running''
                then try_call (bw_out w) (CancelBuild (ibst_action_id st)) s else s)
      in if ibst_image_id st \<noteq> 0 then try_call (bw_out w) (DeleteImage (ibst_image_id st)) s1 else s1)"

definition ibuild_handleDeletion :: "ibuild_world \<Rightarrow> ibuild_pass \<Rightarrow> ibuild_outcome" where
  "ibuild_handleDeletion w s =
     (if \<not> containsFinalizer (mem s) ibFinalizer then (result_done, None, s)
      else release (ibuild_kit w) ibFinalizer
        (if uyuniClientForDeletion w (mem s) = None then ibuild_clean w s else s))"

section \<open>Polling\<close>

definition defaultBuildTimeoutMinutes :: int where
  "defaultBuildTimeoutMinutes = 120"

definition build_timeout :: "image_build_spec \<Rightarrow> int" where
  "build_timeout sp =
     (if ibs_timeout_minutes sp > 0 then go_duration (ibs_timeout_minutes sp * minute)
      else go_duration (defaultBuildTimeoutMinutes * minute))"

text \<open>The first image above the baseline, or 0.\<close>

fun first_above :: "int \<Rightarrow> int \<Rightarrow> image_info list \<Rightarrow> int" where
  "first_above baseline best [] = best"
| "first_above baseline best (img # imgs) =
     first_above baseline (if imi_id img > baseline \<and> (best = 0 \<or> imi_id img < best) then imi_id img else best) imgs"

definition locate_image :: "ibuild_world \<Rightarrow> image_build_status \<Rightarrow> image_build_status" where
  "locate_image w st =
     (if ibst_image_id st \<noteq> 0 then st
      else case iu_images w of
        Inl _ \<Rightarrow> st
      | Inr imgs \<Rightarrow> st\<lparr>ibst_image_id := first_above (ibst_baseline_image_id st) 0 imgs\<rparr>)"

definition file_of :: "image_file_detail \<Rightarrow> image_file" where
  "file_of f = \<lparr>imf_name = ifd_name f, imf_type = ifd_type f, imf_url = ifd_url f\<rparr>"

fun last_image_url :: "string \<Rightarrow> image_file_detail list \<Rightarrow> string" where
  "last_image_url u [] = u"
| "last_image_url u (f # fs) = last_image_url (if ifd_type f = ''image'' then ifd_url f else u) fs"

definition recordImageDetails :: "ibuild_world \<Rightarrow> image_build_status \<Rightarrow> image_build_status" where
  "recordImageDetails w st =
     (if ibst_image_id st = 0 then st
      else case iu_details w (ibst_image_id st) of
        Inl _ \<Rightarrow> st
      | Inr None \<Rightarrow> st
      | Inr (Some d) \<Rightarrow>
          st\<lparr>ibst_name := imd_name d, ibst_version := (if imd_version d \<noteq> [] then imd_version d else ibst_version st),
             ibst_revision := imd_revision d, ibst_checksum := imd_checksum d,
             ibst_image_url := last_image_url [] (imd_files d), ibst_files := map file_of (imd_files d)\<rparr>)"

text \<open>\<^verbatim>\<open>pollAction\<close>: the status it leaves, the condition it sets and when to come back.\<close>

definition timed_out :: "ibuild_world \<Rightarrow> image_build \<Rightarrow> bool" where
  "timed_out w ib =
     (let start = (case ibst_started_at (ibuild_status ib) of None \<Rightarrow> obj_created ib | Some t \<Rightarrow> t) in
      start \<noteq> 0 \<and> go_sub (iw_now w) start > build_timeout (ibuild_spec ib))"

definition em_dash :: string where
  "em_dash = [CHR 0xE2, CHR 0x80, CHR 0x94]"

definition poll_step :: "ibuild_world \<Rightarrow> scheduled_action \<Rightarrow> ibuild_pass \<Rightarrow> int \<times> ibuild_pass" where
  "poll_step w action s =
     (let k = ibuild_kit w; s1 = set_st k (locate_image w) s; st = ibuild_status (mem s1) in
      if sa_status action = ''Completed''
      then (10 * minute, become k True ''Succeeded'' []
        (set_st k (\<lambda>st. recordImageDetails w (st\<lparr>ibst_build_status := ''Succeeded''\<rparr>)) s1))
      else if sa_status action = ''Failed''
      then (10 * minute, become k False ''Failed'' (if sa_name action = [] then ''image build failed'' else sa_name action)
        (set_st k (\<lambda>st. st\<lparr>ibst_build_status := ''Failed''\<rparr>) s1))
      else if timed_out w (mem s1)
      then (10 * minute, become k False ''BuildTimeout''
        (''build action (id '' @ itoa (ibst_action_id st) @ '') did not finish within ''
         @ iw_duration w (build_timeout (ibuild_spec (mem s1))) @ '' '' @ em_dash @ '' check the build host'')
        (set_st k (\<lambda>st. st\<lparr>ibst_build_status := ''Failed''\<rparr>) s1))
      else if ibst_image_id st = 0
      then (30 * second, become k False ''Building'' ''Waiting for build to start''
        (set_st k (\<lambda>st. st\<lparr>ibst_build_status := ''Scheduled''\<rparr>) s1))
      else (30 * second, become k False ''Building'' ''Build is running''
        (set_st k (\<lambda>st. st\<lparr>ibst_build_status := ''Running''\<rparr>) s1)))"

definition ibuild_poll :: "ibuild_world \<Rightarrow> ibuild_pass \<Rightarrow> ibuild_outcome" where
  "ibuild_poll w s =
     (case iu_action w (ibst_action_id (ibuild_status (mem s))) of
        Inl e \<Rightarrow> ibuild_fail w ''PollFailed'' e s
      | Inr action \<Rightarrow> (case poll_step w action s of
          (after, s1) \<Rightarrow> save_and (ibuild_kit w) (result_after after)
            (set_st (ibuild_kit w) (\<lambda>st. st\<lparr>ibst_observed_generation := obj_generation (mem s1)\<rparr>) s1)))"

section \<open>Scheduling\<close>

fun max_id :: "int \<Rightarrow> image_info list \<Rightarrow> int" where
  "max_id m [] = m"
| "max_id m (img # imgs) = max_id (if imi_id img > m then imi_id img else m) imgs"

definition maxImageID :: "ibuild_world \<Rightarrow> int" where
  "maxImageID w = (case iu_images w of Inl _ \<Rightarrow> 0 | Inr imgs \<Rightarrow> max_id 0 imgs)"

text \<open>What the uncached reader says of the action id: the one the API server has at this point.\<close>

definition scheduled_meanwhile :: "ibuild_world \<Rightarrow> ibuild_pass \<Rightarrow> bool" where
  "scheduled_meanwhile w s =
     (case iw_reader w of
        Some None \<Rightarrow> (case stored s of None \<Rightarrow> False | Some x \<Rightarrow> ibst_action_id (ibuild_status x) \<noteq> 0)
      | _ \<Rightarrow> False)"

definition ibuild_schedule :: "ibuild_world \<Rightarrow> image_profile \<Rightarrow> int \<Rightarrow> ibuild_pass \<Rightarrow> ibuild_outcome" where
  "ibuild_schedule w prof host s =
     (if scheduled_meanwhile w s then (result_after (30 * second), None, s)
      else let sp = ibuild_spec (mem s); k = ibuild_kit w;
               version = (if ibs_version sp = [] then iw_stamp w else ibs_version sp);
               earliest = (case ibs_earliest sp of None \<Rightarrow> iw_now w | Some t \<Rightarrow> t)
        in call_or (bw_out w) (ScheduleImageBuild (ip_label (iprof_spec prof)) version host earliest)
             (\<lambda>e. ibuild_fail w ''ScheduleFailed'' (wrap_err ''scheduling image build: '' e))
             (\<lambda>s1. save_and k (result_after (30 * second))
                (become k False ''Building'' ''Build scheduled''
                  (set_st k (\<lambda>st. st\<lparr>ibst_action_id := iu_scheduled w, ibst_version := version,
                     ibst_started_at := Some (iw_now w), ibst_build_status := ''Scheduled'',
                     ibst_observed_generation := obj_generation (mem s1)\<rparr>) s1)))
             (set_st k (\<lambda>st. st\<lparr>ibst_baseline_image_id := maxImageID w\<rparr>) s))"

definition forget_build :: "image_build_status \<Rightarrow> image_build_status" where
  "forget_build st =
     st\<lparr>ibst_action_id := 0, ibst_build_status := [], ibst_image_id := 0, ibst_baseline_image_id := 0, ibst_name := [],
        ibst_revision := 0, ibst_checksum := [], ibst_image_url := [], ibst_files := [], ibst_started_at := None\<rparr>"

text \<open>
  \<^verbatim>\<open>Patch\<close> sends the difference and reads the answer of the API server back into the object, the status
  included, like \<^verbatim>\<open>Update\<close>; so it is the same step here.
\<close>

definition ibuild_act :: "ibuild_world \<Rightarrow> image_profile \<Rightarrow> int \<Rightarrow> ibuild_pass \<Rightarrow> ibuild_outcome" where
  "ibuild_act w prof host s =
     (if ibst_action_id (ibuild_status (mem s)) = 0 then ibuild_schedule w prof host s else ibuild_poll w s)"

definition ibuild_run :: "ibuild_world \<Rightarrow> image_profile \<Rightarrow> int \<Rightarrow> ibuild_pass \<Rightarrow> ibuild_outcome" where
  "ibuild_run w prof host s =
     (if has_annotation (mem s) AnnBuildNow
      then case write_object (bw_out w) ibuild_kind (strip_annotation AnnBuildNow (set_st (ibuild_kit w) forget_build s)) of
          (Some e, s1) \<Rightarrow> ibuild_fail w ''StripAnnotationFailed'' e s1
        | (None, s1) \<Rightarrow> ibuild_act w prof host s1
      else ibuild_act w prof host s)"

section \<open>Reconcile\<close>

definition resolveBuildHostID :: "ibuild_world \<Rightarrow> string \<Rightarrow> string \<Rightarrow> go_error + int" where
  "resolveBuildHostID w ns n =
     (case iw_get_system w ns n of
        Inl e \<Rightarrow> (case ignore_not_found e of None \<Rightarrow> Inr 0 | Some e' \<Rightarrow> Inl e')
      | Inr sys \<Rightarrow> Inr (syss_uyuni_server_id (sys_status sys)))"

definition ibuild_host :: "ibuild_world \<Rightarrow> image_profile \<Rightarrow> ibuild_pass \<Rightarrow> ibuild_outcome" where
  "ibuild_host w prof s =
     (case (case ibs_build_host_ref (ibuild_spec (mem s)) of None \<Rightarrow> ip_build_host_ref (iprof_spec prof) | Some r \<Rightarrow> Some r) of
        None \<Rightarrow> ibuild_fail w ''NoBuildHost'' (errorf ''spec.buildHostRef not set on ImageBuild or ImageProfile'') s
      | Some r \<Rightarrow> (case resolveBuildHostID w (obj_namespace (mem s)) (lor_name r) of
          Inl e \<Rightarrow> ibuild_fail w ''ResolveBuildHostFailed'' e s
        | Inr host \<Rightarrow>
            if host = 0
            then hold (ibuild_kit w) ''WaitingForBuildHost'' (''System '' @ go_quote (lor_name r) @ '' not yet registered'') s
            else ibuild_run w prof host s))"

definition ibuild_profile :: "ibuild_world \<Rightarrow> image_profile \<Rightarrow> ibuild_pass \<Rightarrow> ibuild_outcome" where
  "ibuild_profile w prof s =
     (if \<not> is_ready_now (ips_conditions (iprof_status prof))
      then hold (ibuild_kit w) ''WaitingForProfile''
        (''ImageProfile '' @ go_quote (lor_name (ibs_profile_ref (ibuild_spec (mem s)))) @ '' not yet realized in Uyuni'') s
      else ibuild_host w prof s)"

definition ibuild_live :: "ibuild_world \<Rightarrow> ibuild_pass \<Rightarrow> ibuild_outcome" where
  "ibuild_live w s =
     (let pn = lor_name (ibs_profile_ref (ibuild_spec (mem s))) in
      case iw_get_profile w (obj_namespace (mem s)) pn of
        Inl e \<Rightarrow> (case ignore_not_found e of
            None \<Rightarrow> hold (ibuild_kit w) ''WaitingForProfile'' (''ImageProfile '' @ go_quote pn @ '' not found'') s
          | Some e' \<Rightarrow> return_error e' s)
      | Inr prof \<Rightarrow>
          begin_pass (ibuild_kit w) w ibFinalizer (orgRef (ip_organization_ref (iprof_spec prof))) (ibuild_profile w prof) s)"

definition ibuild_Reconcile :: "ibuild_world \<Rightarrow> image_build \<Rightarrow> image_build \<Rightarrow> ibuild_outcome" where
  "ibuild_Reconcile w cached actual =
     (let s = start_cached cached actual in
      if obj_deleting cached then ibuild_handleDeletion w s else ibuild_live w s)"

definition buildsForProfile :: "(go_error + image_build list) \<Rightarrow> string \<Rightarrow> requests" where
  "buildsForProfile l n =
     (case l of
        Inl _ \<Rightarrow> []
      | Inr xs \<Rightarrow> map (\<lambda>ib. (obj_namespace ib, obj_name ib))
          (filter (\<lambda>ib. lor_name (ibs_profile_ref (ibuild_spec ib)) = n) xs))"

end
