(* ===== verification/Image_Profile_Controller.thy ===== *)
theory Image_Profile_Controller
  imports Image_Build_Controller Formula_Values Git_Source
begin

text \<open>
  The ImageStore and ImageProfile reconcilers (\<^verbatim>\<open>imagestore_controller.go\<close>,
  \<^verbatim>\<open>imageprofile_controller.go\<close>): a registry or store in Uyuni, and the profile images are built from,
  with the ImageBuild resources it asks for and those it prunes.
\<close>

section \<open>Image stores\<close>

definition istore_kind :: "(image_store, image_store_status) kind_ops" where
  "istore_kind = \<lparr>status_of = istore_status, with_status = \<lambda>st o'. o'\<lparr>istore_status := st\<rparr>\<rparr>"

interpretation istore_status_field: status_field istore_kind
  by unfold_locales (simp_all add: istore_kind_def k8s_object.defs)

record istore_world = base_world +
  sw_secret :: "(string \<Rightarrow> string) k8s_get"
  su_store :: "go_error + image_store_details"

datatype istore_call =
    CreateImageStore string string string string string
  | UpdateImageStore string string string string
  | DeleteImageStore string

definition istore_kit :: "istore_world \<Rightarrow> (image_store, image_store_status) kit" where
  "istore_kit w = kit_of istore_kind ists_conditions_update w"

definition istore_fail ::
  "istore_world \<Rightarrow> string \<Rightarrow> go_error \<Rightarrow> (image_store, istore_call) pass \<Rightarrow> (image_store, istore_call) outcome" where
  "istore_fail w = fail_with (istore_kit w)"

definition resolveCredentials :: "istore_world \<Rightarrow> image_store \<Rightarrow> go_error + string \<times> string" where
  "resolveCredentials w x =
     (case ist_credentials_secret_ref (istore_spec x) of
        None \<Rightarrow> Inr ([], [])
      | Some r \<Rightarrow> (case sw_secret w (obj_namespace x) (lor_name r) of
          Inl e \<Rightarrow> Inl (wrap_err (''reading credentials secret '' @ go_quote (lor_name r) @ '': '') e)
        | Inr data \<Rightarrow> Inr (data ''username'', data ''password'')))"

definition istore_finish :: "istore_world \<Rightarrow> (image_store, istore_call) pass \<Rightarrow> (image_store, istore_call) outcome" where
  "istore_finish w s =
     save_and (istore_kit w) (result_after (5 * minute))
       (become (istore_kit w) True ''Reconciled'' []
         (set_st (istore_kit w) (\<lambda>st. st\<lparr>ists_observed_generation := obj_generation (mem s)\<rparr>) s))"

definition istore_converge :: "istore_world \<Rightarrow> (image_store, istore_call) pass \<Rightarrow> (image_store, istore_call) outcome" where
  "istore_converge w s =
     (let sp = istore_spec (mem s) in
      case resolveCredentials w (mem s) of
        Inl e \<Rightarrow> istore_fail w ''ResolveCredentials'' e s
      | Inr (user, pass) \<Rightarrow> (case su_store w of
          Inl e \<Rightarrow>
            if is_uyuni_not_found e
            then call_or (bw_out w) (CreateImageStore (ist_label sp) (ist_type sp) (ist_uri sp) user pass)
              (istore_fail w ''CreateFailed'') (istore_finish w) s
            else return_error e s
        | Inr current \<Rightarrow>
            call_if (isd_uri current \<noteq> ist_uri sp \<or> ist_credentials_secret_ref sp \<noteq> None) (bw_out w)
              (istore_fail w ''UpdateFailed'') (UpdateImageStore (ist_label sp) (ist_uri sp) user pass) (istore_finish w) s))"

definition istore_Reconcile :: "istore_world \<Rightarrow> image_store \<Rightarrow> (image_store, istore_call) outcome" where
  "istore_Reconcile w x =
     (let s = start_pass x; k = istore_kit w in
      if obj_deleting x then delete_remote k (bw_client w) isFinalizer True (DeleteImageStore (ist_label (istore_spec x))) s
      else begin_pass k w isFinalizer (orgRef (ist_organization_ref (istore_spec x))) (istore_converge w) s)"

section \<open>World of image profiles\<close>

definition iprofile_kind :: "(image_profile, image_profile_status) kind_ops" where
  "iprofile_kind = \<lparr>status_of = iprof_status, with_status = \<lambda>st o'. o'\<lparr>iprof_status := st\<rparr>\<rparr>"

interpretation iprofile_status_field: status_field iprofile_kind
  by unfold_locales (simp_all add: iprofile_kind_def k8s_object.defs)

text \<open>
  \<open>jw_builds\<close> and \<open>jw_builds_later\<close> are the lists of ImageBuilds the pass reads for the mirror and for
  the retention, \<open>jw_sort\<close> is \<^verbatim>\<open>sort.Slice\<close> by creation time, newest first, which is not stable; \<open>jw_stamp\<close> the
  time in the layout of a version tag, \<open>jw_transition\<close> the transition time of the Ready condition of a
  build.  \<open>ju_created\<close> is the profile Uyuni has after a creation.
\<close>

record 'f iprofile_world = base_world +
  jw_git :: git_reader
  jw_get_store :: "image_store k8s_get"
  jw_get_key :: "activation_key k8s_get"
  jw_exists :: "go_error \<Rightarrow> bool"
  jw_stamp :: string
  jw_builds :: "go_error + image_build list"
  jw_builds_later :: "go_error + image_build list"
  jw_sort :: "image_build list \<Rightarrow> image_build list"
  jw_transition :: "image_build \<Rightarrow> int"
  ju_profile :: "go_error + image_profile_details"
  ju_created :: "go_error + image_profile_details"
  ju_images :: "go_error + image_info list"
  ju_pillar :: "int \<Rightarrow> go_error + (string, 'f jval) fmap"

text \<open>
  \<open>CreateImageBuild\<close> is the creation of an ImageBuild owned by the profile: its name, the trigger
  annotation, the profile and the version.
\<close>

datatype iprofile_call =
    CreateImageProfile image_profile_details "(string \<times> string) list"
  | DeleteImageProfile string
  | UpdateImageProfile string string string string
  | CreateImageBuild string string string string
  | DeleteImageBuild string

type_synonym iprofile_pass = "(image_profile, iprofile_call) pass"

type_synonym iprofile_outcome = "(image_profile, iprofile_call) outcome"

definition iprofile_kit :: "'f iprofile_world \<Rightarrow> (image_profile, image_profile_status) kit" where
  "iprofile_kit w = kit_of iprofile_kind ips_conditions_update w"

definition iprofile_fail :: "'f iprofile_world \<Rightarrow> string \<Rightarrow> go_error \<Rightarrow> iprofile_pass \<Rightarrow> iprofile_outcome" where
  "iprofile_fail w = fail_with (iprofile_kit w)"

section \<open>References\<close>

definition defaultOSImageStoreLabel :: string where
  "defaultOSImageStoreLabel = ''SUSE Manager OS Image Store''"

definition resolveStoreLabel :: "'f iprofile_world \<Rightarrow> image_profile \<Rightarrow> string resolve" where
  "resolveStoreLabel w ip =
     (case ip_store_ref (iprof_spec ip) of
        None \<Rightarrow> Resolved defaultOSImageStoreLabel
      | Some r \<Rightarrow>
          get_or (''ImageStore '' @ go_quote (lor_name r) @ '' not found'')
            (\<lambda>store. if is_ready_now (ists_conditions (istore_status store)) then Resolved (ist_label (istore_spec store))
               else resolve.Wait (''ImageStore '' @ go_quote (lor_name r) @ '' not yet realized in Uyuni''))
            (jw_get_store w (obj_namespace ip) (lor_name r)))"

text \<open>A key that is not there yet is the empty key.\<close>

definition resolveActivationKey :: "'f iprofile_world \<Rightarrow> image_profile \<Rightarrow> go_error + string" where
  "resolveActivationKey w ip =
     (case ip_activation_key_ref (iprof_spec ip) of
        None \<Rightarrow> Inr []
      | Some r \<Rightarrow> (case jw_get_key w (obj_namespace ip) (lor_name r) of
          Inl e \<Rightarrow> (case ignore_not_found e of None \<Rightarrow> Inr [] | Some e' \<Rightarrow> Inl e')
        | Inr k \<Rightarrow> Inr (aks_uyuni_key (ak_status k))))"

definition buildSourceURL :: "image_profile_spec \<Rightarrow> string" where
  "buildSourceURL sp =
     (case ip_git sp of
        None \<Rightarrow> ip_url sp
      | Some g \<Rightarrow>
          if gs_reference g = [] \<and> gs_path g = [] then gs_repository g
          else gs_repository g @ ''#'' @ gs_reference g @ (if gs_path g \<noteq> [] then '':'' @ gs_path g else []))"

text \<open>The credentials are put into the URL as for the sources of channels.\<close>

definition iprofile_url :: "'f iprofile_world \<Rightarrow> image_profile \<Rightarrow> go_error + string" where
  "iprofile_url w ip = buildAuthenticatedURL (jw_git w) (obj_namespace ip) (buildSourceURL (iprof_spec ip)) (ip_auth (iprof_spec ip))"

section \<open>The profile in Uyuni\<close>

definition iprofile_wanted :: "image_profile_spec \<Rightarrow> string \<Rightarrow> string \<Rightarrow> string \<Rightarrow> image_profile_details" where
  "iprofile_wanted sp store akey url =
     \<lparr>ipd_id = 0, ipd_label = ip_label sp, ipd_type = ip_type sp, ipd_store_label = store, ipd_activation_key = akey,
      ipd_source_path = url, ipd_source_url = [], ipd_source_branch = [], ipd_kiwi_options = ip_kiwi_options sp\<rparr>"

definition iprofile_create ::
  "'f iprofile_world \<Rightarrow> string \<Rightarrow> string \<Rightarrow> string \<Rightarrow> (image_profile_details \<Rightarrow> iprofile_pass \<Rightarrow> iprofile_outcome) \<Rightarrow>
   iprofile_pass \<Rightarrow> iprofile_outcome" where
  "iprofile_create w store akey url rest s =
     (let sp = iprof_spec (mem s) in
      call_or (bw_out w) (CreateImageProfile (iprofile_wanted sp store akey url) (ip_custom_info sp))
        (iprofile_fail w ''CreateFailed'')
        (\<lambda>s1. let s2 = set_st (iprofile_kit w) (\<lambda>st. st\<lparr>ips_applied_kiwi_options := ip_kiwi_options sp\<rparr>) s1 in
           case ju_created w of
             Inl e \<Rightarrow> iprofile_fail w ''GetAfterCreate'' e s2
           | Inr current \<Rightarrow> rest current s2) s)"

text \<open>The kiwi options are read at the creation alone; a change of them is a new profile.\<close>

definition iprofile_ensure ::
  "'f iprofile_world \<Rightarrow> string \<Rightarrow> string \<Rightarrow> string \<Rightarrow> (image_profile_details \<Rightarrow> iprofile_pass \<Rightarrow> iprofile_outcome) \<Rightarrow>
   iprofile_pass \<Rightarrow> iprofile_outcome" where
  "iprofile_ensure w store akey url rest s =
     (case ju_profile w of
        Inl e \<Rightarrow> if is_uyuni_not_found e then iprofile_create w store akey url rest s else return_error e s
      | Inr current \<Rightarrow>
          if ip_kiwi_options (iprof_spec (mem s)) \<noteq> ips_applied_kiwi_options (iprof_status (mem s))
          then call_or (bw_out w) (DeleteImageProfile (ip_label (iprof_spec (mem s))))
            (\<lambda>e s1. if is_uyuni_not_found e then iprofile_create w store akey url rest s1
               else iprofile_fail w ''UpdateFailed'' e s1)
            (iprofile_create w store akey url rest) s
          else rest current s)"

definition profileNeedsUpdate :: "image_profile_details \<Rightarrow> string \<Rightarrow> string \<Rightarrow> bool" where
  "profileNeedsUpdate current store akey = (ipd_store_label current \<noteq> store \<or> ipd_activation_key current \<noteq> akey)"

definition iprofile_update ::
  "'f iprofile_world \<Rightarrow> string \<Rightarrow> string \<Rightarrow> string \<Rightarrow> (iprofile_pass \<Rightarrow> iprofile_outcome) \<Rightarrow> image_profile_details \<Rightarrow>
   iprofile_pass \<Rightarrow> iprofile_outcome" where
  "iprofile_update w store akey url rest current s =
     call_if (profileNeedsUpdate current store akey \<or> ips_observed_generation (iprof_status (mem s)) < obj_generation (mem s))
       (bw_out w) (iprofile_fail w ''UpdateFailed'') (UpdateImageProfile (ip_label (iprof_spec (mem s))) store akey url)
       (\<lambda>s1. rest (set_st (iprofile_kit w) (\<lambda>st. st\<lparr>ips_uyuni_id := ipd_id current\<rparr>) s1)) s"

section \<open>Build triggers\<close>

text \<open>
  \<^verbatim>\<open>Patch\<close> reads the answer of the API server back into the object.  What of the status is not stored yet
  at that point are these three fields, all \<^verbatim>\<open>omitempty\<close>.
\<close>

definition keep_profile :: "image_profile_status \<Rightarrow> image_profile_status \<Rightarrow> image_profile_status" where
  "keep_profile a b =
     b\<lparr>ips_uyuni_id := keep_int (ips_uyuni_id a) (ips_uyuni_id b),
       ips_last_build_name := keep_list (ips_last_build_name a) (ips_last_build_name b),
       ips_applied_kiwi_options := keep_list (ips_applied_kiwi_options a) (ips_applied_kiwi_options b)\<rparr>"

definition build_wanted :: "image_profile \<Rightarrow> bool" where
  "build_wanted ip =
     (let st = iprof_status ip in
      ip_build_policy (iprof_spec ip) = ''onChange'' \<and> (ips_last_build st = None \<or> ips_observed_generation st < obj_generation ip))"

definition build_name :: "string \<Rightarrow> image_profile \<Rightarrow> string" where
  "build_name stamp ip =
     (if has_annotation ip AnnBuildNow
      then obj_name ip @ ''-'' @ or_else (map_get (obj_annotations ip) [] AnnBuildVersion) stamp
      else obj_name ip @ ''-gen'' @ itoa (obj_generation ip))"

definition create_build :: "'f iprofile_world \<Rightarrow> iprofile_pass \<Rightarrow> go_error option \<times> iprofile_pass" where
  "create_build w s =
     (let ip = mem s; name = build_name (jw_stamp w) ip;
          trigger = (if has_annotation ip AnnBuildNow then ''annotation'' else ''onChange'') in
      case attempt (bw_out w) (Call (CreateImageBuild name trigger (obj_name ip) (map_get (obj_annotations ip) [] AnnBuildVersion))) s of
        (Some e, s1) \<Rightarrow>
          if jw_exists w e then (None, set_st (iprofile_kit w) (\<lambda>st. st\<lparr>ips_last_build_name := name\<rparr>) s1)
          else (Some (wrap_err (''creating ImageBuild '' @ go_quote name @ '': '') e), s1)
      | (None, s1) \<Rightarrow> (None, set_st (iprofile_kit w) (\<lambda>st. st\<lparr>ips_last_build_name := name\<rparr>) s1))"

definition handleBuildTriggers :: "'f iprofile_world \<Rightarrow> iprofile_pass \<Rightarrow> go_error option \<times> iprofile_pass" where
  "handleBuildTriggers w s =
     (let ip = mem s; now = has_annotation ip AnnBuildNow in
      if \<not> now \<and> \<not> build_wanted ip then (None, s)
      else if ip_build_host_ref (iprof_spec ip) = None
      then ((if now then Some (errorf ''spec.buildHostRef is required to trigger a build'') else None), s)
      else case create_build w s of
        (Some e, s1) \<Rightarrow> (Some e, s1)
      | (None, s1) \<Rightarrow>
          if \<not> now then (None, s1)
          else case refresh (iprofile_kit w) keep_profile (strip_annotation AnnBuildNow s1) of
            (Some e, s2) \<Rightarrow> (Some (wrap_err ''stripping build-now annotation: '' e), s2)
          | (None, s2) \<Rightarrow> (None, s2))"

section \<open>The newest build\<close>

fun latest_of :: "string \<Rightarrow> image_build option \<Rightarrow> image_build list \<Rightarrow> image_build option" where
  "latest_of n best [] = best"
| "latest_of n best (b # bs) =
     latest_of n
       (if lor_name (ibs_profile_ref (ibuild_spec b)) \<noteq> n then best
        else case best of None \<Rightarrow> Some b | Some l \<Rightarrow> if obj_created b > obj_created l then Some b else best) bs"

definition mapBuildStatus :: "string \<Rightarrow> string" where
  "mapBuildStatus s = (if s = ''Succeeded'' \<or> s = ''Failed'' \<or> s = ''Running'' then s else ''Queued'')"

definition build_record :: "'f iprofile_world \<Rightarrow> image_build \<Rightarrow> image_build_record" where
  "build_record w b =
     (let st = ibuild_status b; status = mapBuildStatus (ibst_build_status st);
          ready = (if status = ''Succeeded'' \<or> status = ''Failed'' then find_cond ''Ready'' (ibst_conditions st) else None) in
      \<lparr>ibr_build_id = (if ibst_image_id st \<noteq> 0 then ibst_image_id st else ibst_action_id st),
       ibr_version = ibst_version st, ibr_revision = ibst_revision st, ibr_started_at = Some (obj_created b),
       ibr_completed_at = (case ready of None \<Rightarrow> None | Some _ \<Rightarrow> Some (jw_transition w b)),
       ibr_status = status,
       ibr_failure_reason = (case ready of None \<Rightarrow> [] | Some c \<Rightarrow> if status = ''Failed'' then cond_message c else []),
       ibr_trigger = map_get (obj_annotations b) [] AnnBuildTrigger, ibr_checksum = ibst_checksum st,
       ibr_files = ibst_files st, ibr_image_url = ibst_image_url st\<rparr>)"

definition bootImageFromPillar :: "'f iprofile_world \<Rightarrow> image_info \<Rightarrow> string" where
  "bootImageFromPillar w img =
     (case ju_pillar w (imi_id img) of
        Inl _ \<Rightarrow> []
      | Inr pillar \<Rightarrow> (case fmlookup pillar ''boot_images'' of
          Some (JMap m) \<Rightarrow>
            let expected = imi_name img @ ''-'' @ imi_version img @ ''-'' @ itoa (imi_revision img)
            in if fmlookup m expected \<noteq> None then expected else []
        | _ \<Rightarrow> []))"

definition boot_image :: "'f iprofile_world \<Rightarrow> image_build \<Rightarrow> string \<Rightarrow> string" where
  "boot_image w b old =
     (let i = ibst_image_id (ibuild_status b) in
      if mapBuildStatus (ibst_build_status (ibuild_status b)) \<noteq> ''Succeeded'' \<or> i = 0 then old
      else case ju_images w of
        Inl _ \<Rightarrow> old
      | Inr imgs \<Rightarrow> (case List.find (\<lambda>img. imi_id img = i) imgs of
          None \<Rightarrow> old
        | Some img \<Rightarrow> or_else (bootImageFromPillar w img) old))"

text \<open>How soon to come back; an error of the list is logged and nothing else.\<close>

definition mirrorLatestBuild :: "'f iprofile_world \<Rightarrow> iprofile_pass \<Rightarrow> int \<times> iprofile_pass" where
  "mirrorLatestBuild w s =
     (case jw_builds w of
        Inl _ \<Rightarrow> (0, s)
      | Inr bs \<Rightarrow> (case latest_of (obj_name (mem s)) None bs of
          None \<Rightarrow> (0, s)
        | Some b \<Rightarrow>
            let r = build_record w b in
            (if ibr_status r = ''Queued'' \<or> ibr_status r = ''Running'' then 30 * second else 0,
             set_st (iprofile_kit w) (\<lambda>st. st\<lparr>ips_last_build := Some r, ips_last_build_name := obj_name b,
               ips_boot_image := boot_image w b (ips_boot_image st)\<rparr>) s)))"

section \<open>Retention\<close>

definition prunable :: "string \<Rightarrow> string \<Rightarrow> image_build list \<Rightarrow> image_build list" where
  "prunable n status =
     filter (\<lambda>b. lor_name (ibs_profile_ref (ibuild_spec b)) = n \<and> \<not> obj_deleting b \<and> ibst_build_status (ibuild_status b) = status)"

fun delete_builds :: "'f iprofile_world \<Rightarrow> image_build list \<Rightarrow> iprofile_pass \<Rightarrow> go_error option \<times> iprofile_pass" where
  "delete_builds w [] s = (None, s)"
| "delete_builds w (b # bs) s =
     (case attempt (bw_out w) (Call (DeleteImageBuild (obj_name b))) s of
        (Some e, s1) \<Rightarrow>
          if is_k8s_not_found e then delete_builds w bs s1
          else (Some (wrap_err (''deleting ImageBuild '' @ go_quote (obj_name b) @ '': '') e), s1)
      | (None, s1) \<Rightarrow> delete_builds w bs s1)"

text \<open>The number to keep is not negative: the custom resource definition sets the minimum.\<close>

definition deleteOldestBeyond :: "'f iprofile_world \<Rightarrow> image_build list \<Rightarrow> int \<Rightarrow> iprofile_pass \<Rightarrow> go_error option \<times> iprofile_pass" where
  "deleteOldestBeyond w builds keep s =
     (if int (length builds) \<le> keep then (None, s) else delete_builds w (drop (nat keep) (jw_sort w builds)) s)"

definition enforceRetention :: "'f iprofile_world \<Rightarrow> iprofile_pass \<Rightarrow> iprofile_pass" where
  "enforceRetention w s =
     (case ip_retention (iprof_spec (mem s)) of
        None \<Rightarrow> s
      | Some pol \<Rightarrow> (case jw_builds_later w of
          Inl _ \<Rightarrow> s
        | Inr bs \<Rightarrow>
            (case (if ir_keep_last_succeeded pol > 0
                   then deleteOldestBeyond w (prunable (obj_name (mem s)) ''Succeeded'' bs) (ir_keep_last_succeeded pol) s
                   else (None, s)) of
               (Some _, s1) \<Rightarrow> s1
             | (None, s1) \<Rightarrow> snd (deleteOldestBeyond w (prunable (obj_name (mem s)) ''Failed'' bs) (ir_keep_last_failed pol) s1))))"

section \<open>Reconcile\<close>

definition iprofile_finish :: "'f iprofile_world \<Rightarrow> int \<Rightarrow> iprofile_pass \<Rightarrow> iprofile_outcome" where
  "iprofile_finish w again s =
     save_and (iprofile_kit w) (result_after (if again > 0 then again else 10 * minute))
       (become (iprofile_kit w) True ''Reconciled'' []
         (set_st (iprofile_kit w) (\<lambda>st. st\<lparr>ips_observed_generation := obj_generation (mem s)\<rparr>) s))"

definition iprofile_builds :: "'f iprofile_world \<Rightarrow> iprofile_pass \<Rightarrow> iprofile_outcome" where
  "iprofile_builds w s =
     (case handleBuildTriggers w s of
        (Some e, s1) \<Rightarrow> iprofile_fail w ''BuildTriggerFailed'' e s1
      | (None, s1) \<Rightarrow> (case mirrorLatestBuild w s1 of
          (again, s2) \<Rightarrow> iprofile_finish w again (enforceRetention w s2)))"

definition iprofile_realize :: "'f iprofile_world \<Rightarrow> string \<Rightarrow> iprofile_pass \<Rightarrow> iprofile_outcome" where
  "iprofile_realize w store s =
     (case resolveActivationKey w (mem s) of
        Inl e \<Rightarrow> iprofile_fail w ''ResolveActivationKeyFailed'' e s
      | Inr akey \<Rightarrow> (case iprofile_url w (mem s) of
          Inl e \<Rightarrow> iprofile_fail w ''BuildURLFailed'' e s
        | Inr url \<Rightarrow>
            iprofile_ensure w store akey url (iprofile_update w store akey url (iprofile_builds w)) s))"

definition iprofile_converge :: "'f iprofile_world \<Rightarrow> iprofile_pass \<Rightarrow> iprofile_outcome" where
  "iprofile_converge w s =
     with_resolved (iprofile_kit w) ''ResolveStoreFailed'' ''WaitingForStore'' (resolveStoreLabel w (mem s)) (iprofile_realize w) s"

definition iprofile_Reconcile :: "'f iprofile_world \<Rightarrow> image_profile \<Rightarrow> iprofile_outcome" where
  "iprofile_Reconcile w ip =
     (let s = start_pass ip; k = iprofile_kit w in
      if obj_deleting ip
      then delete_remote k (bw_client w) ipFinalizer True (DeleteImageProfile (ip_label (iprof_spec ip))) s
      else begin_pass k w ipFinalizer (orgRef (ip_organization_ref (iprof_spec ip))) (iprofile_converge w) s)"

text \<open>The watch mappers; the lists are in list order.\<close>

definition profilesForBuild :: "image_build \<Rightarrow> requests" where
  "profilesForBuild b = [(obj_namespace b, lor_name (ibs_profile_ref (ibuild_spec b)))]"

definition profilesForStore :: "(go_error + image_profile list) \<Rightarrow> string \<Rightarrow> requests" where
  "profilesForStore l n =
     (case l of
        Inl _ \<Rightarrow> []
      | Inr xs \<Rightarrow> map (\<lambda>ip. (obj_namespace ip, obj_name ip))
          (filter (\<lambda>ip. ip_store_ref (iprof_spec ip) = Some \<lparr>lor_name = n\<rparr>) xs))"

definition profilesForActivationKey :: "(go_error + image_profile list) \<Rightarrow> string \<Rightarrow> requests" where
  "profilesForActivationKey l n =
     (case l of
        Inl _ \<Rightarrow> []
      | Inr xs \<Rightarrow> map (\<lambda>ip. (obj_namespace ip, obj_name ip))
          (filter (\<lambda>ip. ip_activation_key_ref (iprof_spec ip) = Some \<lparr>lor_name = n\<rparr>) xs))"

end
