(* ===== verification/Image_Build_Facts.thy ===== *)
theory Image_Build_Facts
  imports Image_Build_Controller Group_Facts
begin

text \<open>
  Facts about image builds: how many builds a run of passes schedules when the cache lags, what becomes
  of a request for a rebuild, and which image a build is given.
\<close>

lemma ibuild_kit_simps [simp]:
  "kit_ops (ibuild_kit w) = ibuild_kind" "kit_out (ibuild_kit w) = bw_out w" "kit_ssc (ibuild_kit w) = bw_ssc w"
  "kit_conditions (ibuild_kit w) = ibst_conditions_update"
  by (simp_all add: ibuild_kit_def)

lemma ibuild_kind_simps [simp]:
  "status_of ibuild_kind x = ibuild_status x" "ibuild_status (with_status ibuild_kind st x) = st"
  "obj_annotations (with_status ibuild_kind st x) = obj_annotations x"
  by (simp_all add: ibuild_kind_def)

lemma start_cached_simps [simp]:
  "mem (start_cached c x) = c" "stored (start_cached c x) = Some x" "trace (start_cached c x) = []"
  by (simp_all add: start_cached_def)

section \<open>What a pass leaves of the action id\<close>

fun is_schedule :: "ibuild_call \<Rightarrow> bool" where
  "is_schedule (ScheduleImageBuild p v h t) = True"
| "is_schedule _ = False"

definition schedules :: "(ibuild_call \<times> bool) list \<Rightarrow> nat" where
  "schedules l = length (filter (\<lambda>(u, ok). ok \<and> is_schedule u) l)"

lemma ibuild_schedules_simps [simp]:
  "schedules [] = 0" "schedules (l @ l') = schedules l + schedules l'"
  "schedules ((u, ok) # l) = (if ok \<and> is_schedule u then 1 else 0) + schedules l"
  by (simp_all add: schedules_def)

abbreviation action_of :: "image_build \<Rightarrow> int" where
  "action_of x \<equiv> ibst_action_id (ibuild_status x)"

text \<open>Up to the scheduling the action id in memory and on the server is the same, and nothing is scheduled.\<close>

definition idle :: "int \<Rightarrow> ibuild_pass \<Rightarrow> bool" where
  "idle a s = status_stays ibuild_kind (\<lambda>_. True) (\<lambda>st. ibst_action_id st = a) (\<lambda>l. schedules l = 0) s"

interpretation idling: pass_rule "ibuild_kit w" "idle a" "\<lambda>f. \<forall>st. ibst_action_id st = a \<longrightarrow> ibst_action_id (f st) = a"
  "\<lambda>u. \<not> is_schedule u" for w a
  unfolding idle_def ibuild_kit_simps(1) [of w, symmetric]
  by (rule status_rule) (simp_all add: steady_def ibuild_kind_def [abs_def] ibuild_status_field.status_field_axioms [unfolded ibuild_kind_def [abs_def]])

text \<open>Without a status write the status on the server is the one the pass found.\<close>

definition guarded :: "image_build_status \<Rightarrow> ibuild_pass \<Rightarrow> bool" where
  "guarded st s = (\<not> obj_deleting (mem s) \<and> schedules (call_log (trace s)) = 0 \<and>
     ((WriteStatus, True) \<in> set (trace s) \<or> (\<exists>x. stored s = Some x \<and> ibuild_status x = st)))"

interpretation guard: pass_rule "ibuild_kit w" "guarded st" "\<lambda>_. True" "\<lambda>u. \<not> is_schedule u" for w st
  by unfold_locales
    (auto simp: guarded_def set_st_def ibuild_kind_def collected_def Option.bind_eq_Some_conv split: option.splits if_splits)

text \<open>The steps of a pass under any such invariant, as far as the scheduling.\<close>

context pass_rule
begin

lemma begin_pass_keeps:
  assumes "I s" "\<And>s1. I s1 \<Longrightarrow> obj_annotations (mem s1) = obj_annotations (mem s) \<Longrightarrow> P (pass_of (rest s1))"
    and P: "\<And>s1. I s1 \<Longrightarrow> P s1"
    and keeps: "\<And>st x. obj_annotations (with_status (kit_ops k) st x) = obj_annotations x"
  shows "P (pass_of (begin_pass k w fin n rest s))"
proof (cases "bw_client w")
  case (Some e)
  then show ?thesis using fail_I [OF assms(1)] P by (simp add: begin_pass_def)
next
  case None
  obtain e s1 where o1: "own_organization (kit_out k) (kit_ops k) (bw_get_org w) n s = (e, s1)" by fastforce
  then have I1: "I s1" using own_organization_I [OF assms(1), of "bw_get_org w" n] by simp
  have "obj_annotations (mem s1) = obj_annotations (mem s)"
    using own_organization_mem [OF o1] keeps by auto
  then have "P (pass_of (with_owner k (bw_get_org w) n rest s))"
    using o1 I1 P assms(2) by (simp add: with_owner_def return_error_def split: option.split)
  moreover have "I (snd (write_object (kit_out k) (kit_ops k) (s\<lparr>mem := snd (ensureFinalizer (mem s) fin)\<rparr>)))"
    using assms(1) by (simp add: ensureFinalizer_def object_write finalizers)
  ultimately show ?thesis using None P by (simp add: begin_pass_def with_finalizer_eq Let_def)
qed

end

lemma poll_idle:
  assumes "idle a s" shows "idle a (pass_of (ibuild_poll w s))"
proof -
  have locate: "idle a (set_st (ibuild_kit w) (locate_image w) t)" if "idle a t" for t
    by (rule idling.set_status [OF that]) (simp add: locate_image_def split: sum.split)
  have "idle a (snd (poll_step w action t))" if "idle a t" for action t
    unfolding poll_step_def Let_def using locate [OF that]
    by (auto simp: recordImageDetails_def intro!: idling.become_I idling.set_status split: sum.split option.split)
  then show ?thesis using assms
    by (auto simp: ibuild_poll_def ibuild_fail_def idling.fail_I split: sum.split prod.split
        intro!: idling.save_and_I [simplified] idling.set_status) (metis snd_conv)
qed

lemma guarded_poll: "guarded st s \<Longrightarrow> guarded st (pass_of (ibuild_poll w s))"
  by (auto simp: ibuild_poll_def ibuild_fail_def poll_step_def Let_def split: sum.split prod.split
      intro!: guard.fail_I guard.save_and_I guard.set_status guard.become_I)

lemma call_or_trace:
  "call_or out u h rest s =
     (case out (length (trace s)) of None \<Rightarrow> rest (try_call out u s) | Some e \<Rightarrow> h e (try_call out u s))"
  by (simp add: call_or_eq split: option.split)

text \<open>What a pass leaves that found the action id \<open>a\<close>.\<close>

definition scheduled_or_idle :: "ibuild_world \<Rightarrow> int \<Rightarrow> ibuild_pass \<Rightarrow> bool" where
  "scheduled_or_idle w a s = (idle a s \<or> (a = 0 \<and> schedules (call_log (trace s)) = 1 \<and>
     (last (trace s) = (WriteStatus, True) \<longrightarrow> (case stored s of None \<Rightarrow> True | Some x \<Rightarrow> action_of x = iu_scheduled w))))"

lemma schedule_or_idle:
  assumes "idle 0 s" shows "scheduled_or_idle w 0 (pass_of (ibuild_schedule w prof host s))"
proof (cases "scheduled_meanwhile w s")
  case True
  then show ?thesis using assms by (simp add: ibuild_schedule_def scheduled_or_idle_def)
next
  case False
  let ?s = "set_st (ibuild_kit w) (\<lambda>st. st\<lparr>ibst_baseline_image_id := maxImageID w\<rparr>) s"
  let ?u = "ScheduleImageBuild (ip_label (iprof_spec prof)) (if ibs_version (ibuild_spec (mem s)) = [] then iw_stamp w else ibs_version (ibuild_spec (mem s)))
    host (case ibs_earliest (ibuild_spec (mem s)) of None \<Rightarrow> iw_now w | Some t \<Rightarrow> t)"
  have idle: "idle 0 ?s" by (rule idling.set_status [OF assms]) simp
  show ?thesis
  proof (cases "bw_out w (length (trace ?s))")
    case (Some e)
    then have "idle 0 (try_call (bw_out w) ?u ?s)" using idle by (auto simp: idle_def status_stays_def)
    then show ?thesis using Some False
      by (simp add: ibuild_schedule_def Let_def call_or_trace scheduled_or_idle_def ibuild_fail_def idling.fail_I)
  next
    case None
    have none: "schedules (call_log (trace s)) = 0" using assms by (simp add: idle_def status_stays_def)
    show ?thesis using None False none
      by (auto simp: ibuild_schedule_def Let_def call_or_trace scheduled_or_idle_def save_and_eq become_def set_st_def
          split: option.splits)
  qed
qed

lemma run_or_idle:
  assumes "idle a s" "\<not> has_annotation (mem s) AnnBuildNow"
  shows "scheduled_or_idle w a (pass_of (ibuild_run w prof host s))"
proof -
  have "action_of (mem s) = a" using assms(1) by (simp add: idle_def status_stays_def)
  then show ?thesis using assms schedule_or_idle [of s w prof host] poll_idle [of a s w]
    by (auto simp: ibuild_run_def ibuild_act_def scheduled_or_idle_def)
qed

lemma schedule_extends: "set (trace s) \<subseteq> set (trace (pass_of (ibuild_schedule w prof host s)))"
  by (auto simp: ibuild_schedule_def Let_def call_or_trace save_and_eq ibuild_fail_def fail_with_def split: option.split)

lemma run_guarded:
  assumes "guarded st s" "ibst_action_id st \<noteq> 0" "iw_reader w = Some None" "\<not> has_annotation (mem s) AnnBuildNow"
  shows "(WriteStatus, True) \<in> set (trace (pass_of (ibuild_run w prof host s))) \<or> guarded st (pass_of (ibuild_run w prof host s))"
proof (cases "(WriteStatus, True) \<in> set (trace s)")
  case True
  then show ?thesis using schedule_extends [of s w prof host] guarded_poll [OF assms(1), of w] assms(4)
    by (auto simp: ibuild_run_def ibuild_act_def)
next
  case False
  then have "scheduled_meanwhile w s" using assms(1-3) by (auto simp: guarded_def scheduled_meanwhile_def)
  then have "ibuild_schedule w prof host s = (result_after (30 * second), None, s)" by (simp add: ibuild_schedule_def)
  then show ?thesis using assms guarded_poll [OF assms(1), of w] by (simp add: ibuild_run_def ibuild_act_def)
qed

section \<open>Runs of passes\<close>

lemma profile_cases:
  "(\<exists>d r m. ibuild_profile w prof s = refuse (ibuild_kit w) d r m s) \<or>
   (\<exists>r e. ibuild_profile w prof s = fail_with (ibuild_kit w) r e s) \<or> (\<exists>host. ibuild_profile w prof s = ibuild_run w prof host s)"
proof -
  have "(\<exists>d r m. ibuild_host w prof s = refuse (ibuild_kit w) d r m s) \<or>
    (\<exists>r e. ibuild_host w prof s = fail_with (ibuild_kit w) r e s) \<or> (\<exists>host. ibuild_host w prof s = ibuild_run w prof host s)"
    unfolding ibuild_host_def ibuild_fail_def by (auto split: option.split sum.split) blast+
  then show ?thesis unfolding ibuild_profile_def by (cases "is_ready_now (ips_conditions (iprof_status prof))") (simp, simp only: if_True if_False simp_thms, blast)
qed

text \<open>A pass up to the build itself, under any rule that its helpers respect.\<close>

lemma reconcile_by:
  assumes rule: "pass_rule (ibuild_kit w) I F U" and start: "I (start_cached c x)" and live: "\<not> obj_deleting c"
    and run: "\<And>s prof host. I s \<Longrightarrow> obj_annotations (mem s) = obj_annotations c \<Longrightarrow> P (pass_of (ibuild_run w prof host s))"
    and P: "\<And>s. I s \<Longrightarrow> P s"
  shows "P (pass_of (ibuild_Reconcile w c x))"
proof -
  let ?s = "start_cached c x :: ibuild_pass"
  have profile: "P (pass_of (ibuild_profile w prof s))" if "I s" "obj_annotations (mem s) = obj_annotations c" for s prof
    using profile_cases [of w prof s] P [OF pass_rule.refuse_I [OF rule that(1)]] P [OF pass_rule.fail_I [OF rule that(1)]]
      run [OF that] by metis
  have "P (pass_of (ibuild_live w ?s))"
  proof (cases "iw_get_profile w (obj_namespace c) (lor_name (ibs_profile_ref (ibuild_spec c)))")
    case (Inl e)
    then show ?thesis using P [OF start] P [OF pass_rule.refuse_I [OF rule start]]
      by (simp add: ibuild_live_def Let_def return_error_def split: option.split)
  next
    case (Inr prof)
    have "P (pass_of (begin_pass (ibuild_kit w) w ibFinalizer (orgRef (ip_organization_ref (iprof_spec prof)))
        (ibuild_profile w prof) ?s))"
      by (rule pass_rule.begin_pass_keeps [OF rule start]) (simp_all add: profile P)
    then show ?thesis using Inr by (simp add: ibuild_live_def Let_def)
  qed
  then show ?thesis using live by (simp add: ibuild_Reconcile_def Let_def)
qed

lemma reconcile_or_idle:
  assumes "\<not> has_annotation x AnnBuildNow"
  shows "scheduled_or_idle w (action_of x) (pass_of (ibuild_Reconcile w x x))"
proof (cases "obj_deleting x")
  case True
  let ?a = "action_of x" and ?s = "start_cached x x :: ibuild_pass"
  have start: "idle ?a ?s" by (simp add: idle_def status_stays_def)
  then have "idle ?a (ibuild_clean w ?s)"
    by (auto simp: ibuild_clean_def Let_def intro!: idling.try_call_I [simplified])
  then have "idle ?a (pass_of (ibuild_handleDeletion w ?s))"
    using start by (simp add: ibuild_handleDeletion_def idling.release_I)
  then show ?thesis using True by (simp add: ibuild_Reconcile_def Let_def scheduled_or_idle_def)
next
  case False
  show ?thesis
  proof (rule reconcile_by [where P = "scheduled_or_idle w (action_of x)", OF idling.pass_rule_axioms [of w "action_of x"] _ False])
    show "scheduled_or_idle w (action_of x) (pass_of (ibuild_run w prof host s))"
      if "idle (action_of x) s" "obj_annotations (mem s) = obj_annotations x" for s prof host
      using run_or_idle [OF that(1), of w prof host] that(2) assms by (simp add: has_annotation_def)
  qed (simp_all add: idle_def status_stays_def scheduled_or_idle_def)
qed

lemma reconcile_guarded:
  assumes "\<not> has_annotation c AnnBuildNow" "action_of x \<noteq> 0" "iw_reader w = Some None"
    and "(WriteStatus, True) \<notin> set (trace (pass_of (ibuild_Reconcile w c x)))" "\<not> obj_deleting c"
  shows "guarded (ibuild_status x) (pass_of (ibuild_Reconcile w c x))"
proof -
  let ?P = "\<lambda>s. (WriteStatus, True) \<in> set (trace s) \<or> guarded (ibuild_status x) s"
  have "?P (pass_of (ibuild_Reconcile w c x))"
  proof (rule reconcile_by [where P = ?P, OF guard.pass_rule_axioms [of w "ibuild_status x"] _ assms(5)])
    show "?P (pass_of (ibuild_run w prof host s))"
      if "guarded (ibuild_status x) s" "obj_annotations (mem s) = obj_annotations c" for s prof host
      using run_guarded [OF that(1) assms(2,3), of prof host] that(2) assms(1) by (simp add: has_annotation_def)
  qed (use assms(5) in \<open>simp_all add: guarded_def\<close>)
  then show ?thesis using assms(4) by blast
qed

text \<open>A pass on an object in deletion schedules nothing, and keeps the status of what it leaves.\<close>

lemma deletion_schedules:
  assumes "obj_deleting c"
  shows "schedules (call_log (trace (pass_of (ibuild_Reconcile w c x)))) = 0"
  using assms
  by (auto simp: ibuild_Reconcile_def ibuild_handleDeletion_def release_eq ibuild_clean_def Let_def split: if_splits option.splits)

lemma deletion_status:
  assumes "obj_deleting c" "stored (pass_of (ibuild_Reconcile w c x)) = Some x'"
  shows "ibuild_status x' = ibuild_status x"
  using assms
  by (auto simp: ibuild_Reconcile_def ibuild_handleDeletion_def release_eq ibuild_clean_def Let_def collected_def
      Option.bind_eq_Some_conv split: if_splits option.splits)

text \<open>Whatever a pass schedules, without a status write the status on the server stays.\<close>

definition unwritten :: "image_build_status \<Rightarrow> ibuild_pass \<Rightarrow> bool" where
  "unwritten st s = (\<not> obj_deleting (mem s) \<and>
     ((WriteStatus, True) \<in> set (trace s) \<or> (\<exists>x. stored s = Some x \<and> ibuild_status x = st)))"

interpretation unwriting: pass_rule "ibuild_kit w" "unwritten st" "\<lambda>_. True" "\<lambda>_. True" for w st
  by unfold_locales
    (auto simp: unwritten_def set_st_def ibuild_kind_def collected_def Option.bind_eq_Some_conv split: option.splits if_splits)

lemma schedule_unwritten: "unwritten st s \<Longrightarrow> unwritten st (pass_of (ibuild_schedule w prof host s))"
  using unwriting.call [of st _ w]
  by (auto simp: ibuild_schedule_def Let_def call_or_eq ibuild_fail_def try_call_def split: option.split
      intro!: unwriting.save_and_I [simplified] unwriting.fail_I unwriting.become_I unwriting.set_status)

lemma poll_unwritten: "unwritten st s \<Longrightarrow> unwritten st (pass_of (ibuild_poll w s))"
  by (auto simp: ibuild_poll_def ibuild_fail_def poll_step_def Let_def split: sum.split prod.split
      intro!: unwriting.fail_I unwriting.save_and_I unwriting.set_status unwriting.become_I)

lemma run_unwritten:
  assumes "unwritten st s" shows "unwritten st (pass_of (ibuild_run w prof host s))"
proof -
  have act: "unwritten st (pass_of (ibuild_act w prof host t))" if "unwritten st t" for t
    using schedule_unwritten [OF that] poll_unwritten [OF that] by (simp add: ibuild_act_def)
  let ?t = "strip_annotation AnnBuildNow (set_st (ibuild_kit w) forget_build s)"
  have "unwritten st ?t"
    unfolding strip_annotation_def by (intro unwriting.annotations unwriting.set_status assms TrueI)
  then have "unwritten st (snd (write_object (bw_out w) ibuild_kind ?t))"
    using unwriting.object_write [of st ?t w] by simp
  then show ?thesis using act assms
    by (auto simp: ibuild_run_def ibuild_fail_def unwriting.fail_I split: prod.split option.split)
qed

lemma status_stays_unwritten:
  assumes "(WriteStatus, True) \<notin> set (trace (pass_of (ibuild_Reconcile w c x)))"
    and "stored (pass_of (ibuild_Reconcile w c x)) = Some y"
  shows "ibuild_status y = ibuild_status x"
proof (cases "obj_deleting c")
  case True
  then show ?thesis using assms(2) by (rule deletion_status)
next
  case False
  have "unwritten (ibuild_status x) (pass_of (ibuild_Reconcile w c x))"
    by (rule reconcile_by [where P = "unwritten (ibuild_status x)", OF unwriting.pass_rule_axioms [of w "ibuild_status x"] _ False
          run_unwritten]) (use False in \<open>simp_all add: unwritten_def\<close>)
  then show ?thesis using assms by (simp add: unwritten_def)
qed

text \<open>No pass schedules two builds.\<close>

definition unscheduled :: "ibuild_pass \<Rightarrow> bool" where
  "unscheduled s = (schedules (call_log (trace s)) = 0)"

interpretation unscheduling: pass_rule "ibuild_kit w" unscheduled "\<lambda>_. True" "\<lambda>u. \<not> is_schedule u" for w
  by unfold_locales (auto simp: unscheduled_def set_st_def split: option.splits)

lemma poll_unscheduled: "unscheduled s \<Longrightarrow> unscheduled (pass_of (ibuild_poll w s))"
  by (auto simp: ibuild_poll_def ibuild_fail_def poll_step_def Let_def split: sum.split prod.split
      intro!: unscheduling.fail_I unscheduling.save_and_I unscheduling.set_status unscheduling.become_I)

lemma run_schedules_once:
  assumes "unscheduled s" shows "schedules (call_log (trace (pass_of (ibuild_run w prof host s)))) \<le> 1"
proof -
  have act: "schedules (call_log (trace (pass_of (ibuild_act w prof host t)))) \<le> 1" if "unscheduled t" for t
    using that poll_unscheduled [OF that, of w]
    by (auto simp: ibuild_act_def ibuild_schedule_def Let_def call_or_trace save_and_eq ibuild_fail_def fail_with_def
        unscheduled_def split: option.split)
  let ?t = "strip_annotation AnnBuildNow (set_st (ibuild_kit w) forget_build s)"
  have "unscheduled ?t"
    unfolding strip_annotation_def by (intro unscheduling.annotations unscheduling.set_status assms TrueI)
  then have written: "unscheduled (snd (write_object (bw_out w) ibuild_kind ?t))"
    using unscheduling.object_write [of ?t w] by simp
  then have "unscheduled (pass_of (ibuild_fail w r e (snd (write_object (bw_out w) ibuild_kind ?t))))" for r e
    unfolding ibuild_fail_def by (rule unscheduling.fail_I)
  then show ?thesis using act [OF assms] act [OF written]
    by (auto simp: ibuild_run_def unscheduled_def split: prod.split option.split)
qed

lemma pass_schedules_once: "schedules (call_log (trace (pass_of (ibuild_Reconcile w c x)))) \<le> 1"
proof (cases "obj_deleting c")
  case False
  show ?thesis
    by (rule reconcile_by [where P = "\<lambda>s. schedules (call_log (trace s)) \<le> 1", OF unscheduling.pass_rule_axioms [of w] _ False
          run_schedules_once]) (simp_all add: unscheduled_def)
qed (simp add: deletion_schedules)

text \<open>A pass that sees a recorded action schedules nothing.\<close>

definition held :: "int \<Rightarrow> ibuild_pass \<Rightarrow> bool" where
  "held a s = (\<not> obj_deleting (mem s) \<and> action_of (mem s) = a \<and> schedules (call_log (trace s)) = 0 \<and>
     (\<exists>x. stored s = Some x \<and> action_of x = a))"

interpretation holding: pass_rule "ibuild_kit w" "held a" "\<lambda>f. \<forall>st. ibst_action_id st = a \<longrightarrow> ibst_action_id (f st) = a"
  "\<lambda>u. \<not> is_schedule u" for w a
  by unfold_locales (auto simp: held_def set_st_def ibuild_kind_def collected_def Option.bind_eq_Some_conv split: option.splits)

lemma held_run_schedules_nothing:
  assumes "held a s" "a \<noteq> 0"
  shows "schedules (call_log (trace (pass_of (ibuild_run w prof host s)))) = 0"
proof -
  have act: "schedules (call_log (trace (pass_of (ibuild_act w prof host t)))) = 0" if "held a t" for t
    using that assms(2) poll_unscheduled [of t w] by (simp add: ibuild_act_def held_def unscheduled_def)
  let ?t = "strip_annotation AnnBuildNow (set_st (ibuild_kit w) forget_build s)"
  show ?thesis
  proof (cases "bw_out w (length (trace ?t))")
    case None
    obtain e s1 where w1: "write_object (bw_out w) ibuild_kind ?t = (e, s1)" by fastforce
    then have "e = None" using None write_object_simps(1) [of "bw_out w" ibuild_kind ?t] by simp
    moreover have "held a (snd (write_object (bw_out w) ibuild_kind ?t))"
      using None assms(1) by (auto simp: held_def strip_annotation_def collected_def set_st_def ibuild_kind_def)
    ultimately show ?thesis using w1 act assms(1) by (simp add: ibuild_run_def)
  next
    case (Some e)
    obtain e s1 where w1: "write_object (bw_out w) ibuild_kind ?t = (Some e, s1)"
      using Some write_object_simps(1) [of "bw_out w" ibuild_kind ?t] by (metis prod.collapse)
    have "unscheduled (snd (write_object (bw_out w) ibuild_kind ?t))"
      using assms(1) unscheduling.object_write [of ?t w] by (simp add: held_def unscheduled_def strip_annotation_def set_st_def)
    then have "unscheduled (pass_of (ibuild_fail w r e (snd (write_object (bw_out w) ibuild_kind ?t))))" for r e
      unfolding ibuild_fail_def by (rule unscheduling.fail_I)
    then show ?thesis using w1 act assms(1) by (simp add: ibuild_run_def unscheduled_def)
  qed
qed

lemma recorded_schedules_nothing:
  assumes "action_of x \<noteq> 0" shows "schedules (call_log (trace (pass_of (ibuild_Reconcile w x x)))) = 0"
proof (cases "obj_deleting x")
  case False
  show ?thesis
    by (rule reconcile_by [where P = "\<lambda>s. schedules (call_log (trace s)) = 0", OF holding.pass_rule_axioms [of w "action_of x"] _ False
          held_run_schedules_nothing]) (use False assms in \<open>simp_all add: held_def\<close>)
qed (simp add: deletion_schedules)

text \<open>
  Runs of passes on one build, with the number of builds they scheduled and of the passes that may have
  scheduled one too many: the uncached read was not there or failed, the pass saw a request for a
  rebuild, or the status write that should record the build failed.  The informer cache may give a pass
  any copy \<open>c\<close> of the object.  What is assumed: a status write from an old copy is refused (the API
  server compares resource versions), and Uyuni gives action ids other than 0.
\<close>

definition excused :: "ibuild_world \<Rightarrow> image_build \<Rightarrow> image_build \<Rightarrow> bool" where
  "excused w c x = (iw_reader w \<noteq> Some None \<or> has_annotation c AnnBuildNow \<or>
     (let t = trace (pass_of (ibuild_Reconcile w c x)) in schedules (call_log t) > 0 \<and> last t \<noteq> (WriteStatus, True)))"

inductive build_step :: "image_build \<times> nat \<times> nat \<Rightarrow> image_build \<times> nat \<times> nat \<Rightarrow> bool" where
  Build_Pass: "\<lbrakk>iu_scheduled w \<noteq> 0;
    c \<noteq> x \<longrightarrow> (WriteStatus, True) \<notin> set (trace (pass_of (ibuild_Reconcile w c x)));
    stored (pass_of (ibuild_Reconcile w c x)) = Some x'\<rbrakk>
    \<Longrightarrow> build_step (x, n, k) (x', n + schedules (call_log (trace (pass_of (ibuild_Reconcile w c x)))),
      k + (if excused w c x then 1 else 0))"

definition recorded :: "image_build \<Rightarrow> nat" where
  "recorded x = (if action_of x = 0 then 0 else 1)"

lemma unexcused_pass:
  assumes "\<not> excused w c x" "iu_scheduled w \<noteq> 0" "stored (pass_of (ibuild_Reconcile w c x)) = Some y"
    and "c \<noteq> x \<Longrightarrow> (WriteStatus, True) \<notin> set (trace (pass_of (ibuild_Reconcile w c x)))"
  shows "schedules (call_log (trace (pass_of (ibuild_Reconcile w c x)))) + recorded x \<le> recorded y"
proof (cases "c = x")
  case True
  then have "scheduled_or_idle w (action_of x) (pass_of (ibuild_Reconcile w c x))"
    using reconcile_or_idle assms(1) by (simp add: excused_def)
  then show ?thesis using assms
    by (auto simp: scheduled_or_idle_def idle_def status_stays_def recorded_def excused_def Let_def)
next
  case False
  let ?r = "pass_of (ibuild_Reconcile w c x)"
  have quiet: "(WriteStatus, True) \<notin> set (trace ?r)" using False assms(4) by simp
  then have same: "ibuild_status y = ibuild_status x" using assms(3) by (rule status_stays_unwritten)
  have "schedules (call_log (trace ?r)) = 0"
  proof (rule ccontr)
    assume n: "schedules (call_log (trace ?r)) \<noteq> 0"
    then have "trace ?r \<noteq> []" by auto
    moreover have "last (trace ?r) = (WriteStatus, True)" using n assms(1) by (simp add: excused_def Let_def)
    ultimately show False using quiet last_in_set by metis
  qed
  then show ?thesis using same by (simp add: recorded_def)
qed

lemma excused_pass:
  assumes "stored (pass_of (ibuild_Reconcile w c x)) = Some y"
    and "c \<noteq> x \<Longrightarrow> (WriteStatus, True) \<notin> set (trace (pass_of (ibuild_Reconcile w c x)))"
  shows "schedules (call_log (trace (pass_of (ibuild_Reconcile w c x)))) + recorded x \<le> Suc (recorded y)"
proof (cases "action_of x = 0 \<or> schedules (call_log (trace (pass_of (ibuild_Reconcile w c x)))) = 0")
  case True
  then show ?thesis using pass_schedules_once [of w c x] by (auto simp: recorded_def)
next
  case False
  then have "c \<noteq> x" using recorded_schedules_nothing [of x w] by auto
  then have "ibuild_status y = ibuild_status x" using assms by (intro status_stays_unwritten) auto
  then show ?thesis using pass_schedules_once [of w c x] by (simp add: recorded_def)
qed

lemma build_step_keeps:
  assumes "build_step (x, n, k) (y, m, l)" "n \<le> k + recorded x"
  shows "m \<le> l + recorded y"
  using assms(1)
proof cases
  case (Build_Pass w c)
  then show ?thesis
    using assms(2) unexcused_pass [of w c x y] excused_pass [of w c x y] by (cases "excused w c x") auto
qed


section \<open>Samples\<close>

definition sample_image_profile :: image_profile where
  "sample_image_profile = k8s_object.extend (sample_meta ''ip'' [] False)
     \<lparr>iprof_spec = \<lparr>ip_label = ''lbl'', ip_type = ''kiwi'', ip_store_ref = None, ip_activation_key_ref = None, ip_url = ''u'',
        ip_git = None, ip_auth = None, ip_custom_info = [], ip_build_policy = [], ip_build_host_ref = Some \<lparr>lor_name = ''h''\<rparr>,
        ip_kiwi_options = [], ip_organization_ref = None, ip_retention = None\<rparr>,
      iprof_status = \<lparr>ips_uyuni_id = 0, ips_last_build = None, ips_last_build_name = [], ips_boot_image = [],
        ips_applied_kiwi_options = [], ips_observed_generation = 1, ips_conditions = [ready_condition True]\<rparr>\<rparr>"

definition sample_build :: "string list \<Rightarrow> int \<Rightarrow> image_build" where
  "sample_build fins action = k8s_object.extend (sample_meta ''b'' fins False)
     \<lparr>ibuild_spec = \<lparr>ibs_profile_ref = \<lparr>lor_name = ''ip''\<rparr>, ibs_version = ''v'', ibs_build_host_ref = None, ibs_earliest = None,
        ibs_timeout_minutes = 0\<rparr>,
      ibuild_status = \<lparr>ibst_action_id = action, ibst_image_id = 0, ibst_baseline_image_id = 0, ibst_name = [], ibst_version = [],
        ibst_revision = 0, ibst_started_at = None, ibst_build_status = [], ibst_files = [], ibst_image_url = [], ibst_checksum = [],
        ibst_observed_generation = 1, ibst_conditions = []\<rparr>\<rparr>"

definition ibuild_demo_world :: ibuild_world where
  "ibuild_demo_world = \<lparr>bw_ssc = replace_cond, bw_client = None, bw_get_org = (\<lambda>_ _. Inl (GoErr K8sNotFound [])), bw_out = (\<lambda>_. None),
     iw_now = 100, iw_stamp = ''now'', iw_duration = (\<lambda>_. []), iw_reader = Some None,
     iw_get_profile = (\<lambda>_ _. Inr sample_image_profile), iw_get_system = (\<lambda>_ _. Inr (sample_member ''h'' 5)), iu_images = Inr [],
     iu_action = (\<lambda>i. Inr \<lparr>sa_id = i, sa_name = [], sa_type = [], sa_status = ''Running'', sa_started_at = None, sa_finished_at = None\<rparr>),
     iu_details = (\<lambda>_. Inr None), iu_scheduled = 7\<rparr>"

text \<open>
  The bound is reached: the first pass schedules a build; the second one works on the copy from before it,
  cannot read past the cache, schedules another one, and its status write is refused.
\<close>

definition owned_build :: image_build where
  "owned_build = (sample_build [ibFinalizer] 0)\<lparr>obj_owners := [\<lparr>or_api_version = group_version, or_kind = ''Organization'',
     or_name = ''o'', or_uid = ''u'', or_block_owner_deletion = True\<rparr>]\<rparr>"

definition sighted_world :: ibuild_world where
  "sighted_world = ibuild_demo_world\<lparr>iw_get_profile := (\<lambda>_ _. Inr (sample_image_profile\<lparr>iprof_spec :=
     (iprof_spec sample_image_profile)\<lparr>ip_organization_ref := Some \<lparr>lor_name = ''o''\<rparr>\<rparr>\<rparr>))\<rparr>"

definition blind_world :: ibuild_world where
  "blind_world = sighted_world\<lparr>iw_reader := Some (Some (errorf ''timeout'')),
     bw_out := (\<lambda>i. if i = 1 then Some (errorf ''conflict'') else None)\<rparr>"


lemma second_build_demo:
  "let x = owned_build; r = pass_of (ibuild_Reconcile sighted_world x x) in
   case stored r of None \<Rightarrow> False
   | Some y \<Rightarrow> let q = pass_of (ibuild_Reconcile blind_world x y) in
       schedules (call_log (trace r)) = 1 \<and> \<not> excused sighted_world x x \<and> ibst_action_id (ibuild_status y) = 7 \<and>
       schedules (call_log (trace q)) = 1 \<and> list_all (\<lambda>a. a \<noteq> (WriteStatus, True)) (trace q) \<and>
       excused blind_world x y \<and> map_option (\<lambda>z. ibst_action_id (ibuild_status z)) (stored q) = Some 7"
  by code_simp


section \<open>Requests for a rebuild\<close>

lemma poll_held:
  assumes "held a s" shows "held a (pass_of (ibuild_poll w s))"
proof -
  have locate: "held a (set_st (ibuild_kit w) (locate_image w) t)" if "held a t" for t
    by (rule holding.set_status [OF that]) (simp add: locate_image_def split: sum.split)
  have "held a (snd (poll_step w action t))" if "held a t" for action t
    unfolding poll_step_def Let_def using locate [OF that]
    by (auto simp: recordImageDetails_def intro!: holding.become_I holding.set_status split: sum.split option.split)
  then show ?thesis using assms
    by (auto simp: ibuild_poll_def ibuild_fail_def holding.fail_I split: sum.split prod.split
        intro!: holding.save_and_I [simplified] holding.set_status) (metis snd_conv)
qed

lemma run_held:
  assumes "held a s" "a \<noteq> 0" "\<And>i. bw_out w i = None"
  shows "held a (pass_of (ibuild_run w prof host s))"
proof -
  have act: "held a (pass_of (ibuild_act w prof host t))" if "held a t" for t
    using that assms(2) poll_held [OF that, of w] by (simp add: ibuild_act_def held_def)
  let ?t = "strip_annotation AnnBuildNow (set_st (ibuild_kit w) forget_build s)"
  obtain r s1 where w1: "write_object (bw_out w) ibuild_kind ?t = (r, s1)" by fastforce
  then have "r = None" using assms(3) write_object_simps(1) [of "bw_out w" ibuild_kind ?t] by simp
  moreover have "held a (snd (write_object (bw_out w) ibuild_kind ?t))"
    using assms(1,3) by (auto simp: held_def strip_annotation_def collected_def set_st_def ibuild_kind_def)
  ultimately show ?thesis using w1 act assms(1) by (simp add: ibuild_run_def)
qed

text \<open>
  Asking for a rebuild has no effect when everything works: a pass on a build that has been scheduled,
  with the build-now annotation or without it, and in which no write fails, schedules no build and leaves
  the recorded action.  The pass clears the record in memory, but the patch that drops the annotation reads
  the stored status back over it.
\<close>

theorem rebuild_request_lost:
  assumes "ibst_action_id (ibuild_status x) \<noteq> 0" "\<not> obj_deleting x" "\<And>i. bw_out w i = None"
  shows "schedules (call_log (trace (pass_of (ibuild_Reconcile w x x)))) = 0 \<and>
    (\<exists>y. stored (pass_of (ibuild_Reconcile w x x)) = Some y \<and> ibst_action_id (ibuild_status y) = ibst_action_id (ibuild_status x))"
proof -
  have "held (action_of x) (pass_of (ibuild_Reconcile w x x))"
    by (rule reconcile_by [where P = "held (action_of x)", OF holding.pass_rule_axioms [of w "action_of x"] _ assms(2) run_held])
      (use assms in \<open>simp_all add: held_def\<close>)
  then show ?thesis by (simp add: held_def)
qed

theorem rebuild_request_lost_witness:
  "let x = (sample_build [ibFinalizer] 3)\<lparr>obj_annotations := [AnnBuildNow \<mapsto> ''true'']\<rparr>;
       r = pass_of (ibuild_Reconcile ibuild_demo_world x x)
   in has_annotation x AnnBuildNow \<and> schedules (call_log (trace r)) = 0 \<and>
     (\<exists>y. stored r = Some y \<and> \<not> has_annotation y AnnBuildNow \<and> ibst_action_id (ibuild_status y) = 3)"
proof -
  let ?x = "(sample_build [ibFinalizer] 3)\<lparr>obj_annotations := [AnnBuildNow \<mapsto> ''true'']\<rparr>"
  let ?r = "pass_of (ibuild_Reconcile ibuild_demo_world ?x ?x)"
  have x: "ibst_action_id (ibuild_status ?x) = 3" "\<not> obj_deleting ?x" "has_annotation ?x AnnBuildNow"
    by (simp_all add: sample_build_def sample_simps has_annotation_def)
  have "(case stored ?r of None \<Rightarrow> False | Some y \<Rightarrow> \<not> has_annotation y AnnBuildNow)" by code_simp
  moreover have outs: "bw_out ibuild_demo_world i = None" for i by (simp add: ibuild_demo_world_def)
  have busy: "ibst_action_id (ibuild_status ?x) \<noteq> 0" unfolding x(1) by simp
  note rebuild_request_lost [OF busy x(2) outs]
  ultimately show ?thesis using x unfolding Let_def by (metis option.simps(5))
qed

text \<open>
  When the write of the status fails after a build was scheduled, nothing of that build is recorded, and the
  next pass schedules another one.
\<close>

lemma unrecorded_build_repeats:
  "let x = sample_build [ibFinalizer] 0; w = ibuild_demo_world\<lparr>bw_out := (\<lambda>i. if i = 2 then Some (errorf ''conflict'') else None)\<rparr>;
       r = pass_of (ibuild_Reconcile w x x)
   in schedules (call_log (trace r)) = 1 \<and> map_option (\<lambda>y. ibst_action_id (ibuild_status y)) (stored r) = Some 0"
  by code_simp

end
