(* ===== verification/Image_Profile_Facts.thy ===== *)
theory Image_Profile_Facts
  imports Image_Profile_Controller Image_Build_Facts
begin

text \<open>
  Facts about image profiles: which builds the retention removes, how many builds a trigger asks for, and
  when a profile is made anew for its kiwi options.
\<close>

lemma iprofile_kit_simps [simp]:
  "kit_ops (iprofile_kit w) = iprofile_kind" "kit_out (iprofile_kit w) = bw_out w" "kit_ssc (iprofile_kit w) = bw_ssc w"
  "kit_conditions (iprofile_kit w) = ips_conditions_update"
  by (simp_all add: iprofile_kit_def)

lemma iprofile_kind_simps [simp]:
  "status_of iprofile_kind x = iprof_status x" "iprof_status (with_status iprofile_kind st x) = st"
  "iprof_spec (with_status iprofile_kind st x) = iprof_spec x" "obj_name (with_status iprofile_kind st x) = obj_name x"
  "obj_annotations (with_status iprofile_kind st x) = obj_annotations x"
  "obj_generation (with_status iprofile_kind st x) = obj_generation x"
  by (simp_all add: iprofile_kind_def)

section \<open>Invariants of a pass\<close>

text \<open>
  What the steps of a pass may rely on: the name, the generation and the spec of the object, whose status
  satisfies \<open>R\<close>, and calls in \<open>U\<close>.
\<close>

locale iprofile_rule = pass_rule "iprofile_kit w" I F U
  for w :: "'f iprofile_world" and I :: "iprofile_pass \<Rightarrow> bool" and F :: "(image_profile_status \<Rightarrow> image_profile_status) \<Rightarrow> bool"
    and U :: "iprofile_call \<Rightarrow> bool" +
  assumes field_changes: "F (\<lambda>st. st\<lparr>ips_uyuni_id := i\<rparr>)" "F (\<lambda>st. st\<lparr>ips_last_build_name := n\<rparr>)"
      "F (\<lambda>st. st\<lparr>ips_observed_generation := g\<rparr>)"
      "F (\<lambda>st. st\<lparr>ips_last_build := r, ips_last_build_name := n, ips_boot_image := f' st\<rparr>)"
    and applied: "I s \<Longrightarrow> F (\<lambda>st. st\<lparr>ips_applied_kiwi_options := ip_kiwi_options (iprof_spec (mem s))\<rparr>)"
    and refreshed: "I s \<Longrightarrow> F (keep_profile (iprof_status (mem s)))"
    and updates: "U (UpdateImageProfile l t a u)"
begin

lemma create_step:
  assumes "I s" "\<And>d c. U (CreateImageProfile d c)"
    and "\<And>cur s1. I s1 \<Longrightarrow> obj_annotations (mem s1) = obj_annotations (mem s) \<Longrightarrow> I (pass_of (rest cur s1))"
  shows "I (pass_of (iprofile_create w store akey url rest s))"
proof -
  let ?t = "\<lambda>d c. try_call (kit_out (iprofile_kit w)) (CreateImageProfile d c) s"
  let ?s = "\<lambda>d c. set_st (iprofile_kit w) (\<lambda>st. st\<lparr>ips_applied_kiwi_options := ip_kiwi_options (iprof_spec (mem s))\<rparr>) (?t d c)"
  have t: "I (?t d c)" "mem (?t d c) = mem s" for d c using try_call_I [OF assms(1,2)] by simp_all
  have "I (?s d c)" for d c using set_status [OF t(1) applied [OF t(1)]] by (simp only: t(2))
  moreover have "obj_annotations (mem (?s d c)) = obj_annotations (mem s)" for d c by (simp add: set_st_def)
  ultimately show ?thesis
    using assms(3) fail_I t(1)
    by (auto simp: iprofile_create_def Let_def call_or_eq iprofile_fail_def split: sum.split)
qed

lemma ensure_step:
  assumes "I s" "\<And>d c. U (CreateImageProfile d c)"
    and "ip_kiwi_options (iprof_spec (mem s)) \<noteq> ips_applied_kiwi_options (iprof_status (mem s)) \<Longrightarrow>
      U (DeleteImageProfile (ip_label (iprof_spec (mem s))))"
    and "\<And>cur s1. I s1 \<Longrightarrow> obj_annotations (mem s1) = obj_annotations (mem s) \<Longrightarrow> I (pass_of (rest cur s1))"
  shows "I (pass_of (iprofile_ensure w store akey url rest s))"
proof -
  let ?d = "DeleteImageProfile (ip_label (iprof_spec (mem s)))"
  have create: "I (pass_of (iprofile_create w store akey url rest s1))" if "I s1" "mem s1 = mem s" for s1
    using create_step [OF that(1) assms(2), of rest] assms(4) that(2) by simp
  show ?thesis
  proof (cases "ju_profile w")
    case (Inl e)
    then show ?thesis using assms(1) create [OF assms(1)] by (simp add: iprofile_ensure_def return_I)
  next
    case (Inr cur)
    have "I (try_call (bw_out w) ?d s)" if "ip_kiwi_options (iprof_spec (mem s)) \<noteq> ips_applied_kiwi_options (iprof_status (mem s))"
      using try_call_I [OF assms(1) assms(3) [OF that]] by simp
    then show ?thesis using Inr assms(1,4) create
      by (simp add: iprofile_ensure_def call_or_eq iprofile_fail_def fail_I)
  qed
qed

lemma update_step:
  assumes "I s" "\<And>s1. I s1 \<Longrightarrow> obj_annotations (mem s1) = obj_annotations (mem s) \<Longrightarrow> I (pass_of (rest s1))"
  shows "I (pass_of (iprofile_update w store akey url rest cur s))"
proof -
  have "I (set_st (iprofile_kit w) (\<lambda>st. st\<lparr>ips_uyuni_id := i\<rparr>) s1)"
      "obj_annotations (mem (set_st (iprofile_kit w) (\<lambda>st. st\<lparr>ips_uyuni_id := i\<rparr>) s1)) = obj_annotations (mem s1)"
    if "I s1" for i s1
    using set_status [OF that field_changes(1)] by (simp_all add: set_st_def)
  moreover have "I (try_call (bw_out w) (UpdateImageProfile l store akey url) s)" for l
    using try_call_I [OF assms(1) updates] by simp
  ultimately show ?thesis using assms
    by (simp add: iprofile_update_def call_if_def call_or_eq iprofile_fail_def fail_I)
qed

lemma trigger_step:
  assumes "I s" "\<And>t v. U (CreateImageBuild (build_name (jw_stamp w) (mem s)) t (obj_name (mem s)) v)"
  shows "I (snd (handleBuildTriggers w s))"
proof -
  have create: "I (snd (create_build w s))"
  proof (cases "create_build w s")
    case (Pair e s1)
    have "I (try_call (kit_out (iprofile_kit w)) (CreateImageBuild (build_name (jw_stamp w) (mem s)) t (obj_name (mem s)) v) s)" for t v
      by (rule try_call_I [OF assms])
    then show ?thesis
      by (auto simp: create_build_def Let_def try_call_def set_status field_changes attempt_def split: option.split)
  qed
  have "I (snd (refresh (iprofile_kit w) keep_profile (strip_annotation AnnBuildNow s1)))" if "I s1" for s1
    using strip_annotation_I [OF that] refreshed by (intro refresh_I) simp_all
  then have "I s2" if "refresh (iprofile_kit w) keep_profile (strip_annotation AnnBuildNow s1) = (e, s2)" "I s1" for e s1 s2
    using that by (metis snd_conv)
  then show ?thesis using assms(1) create
    by (auto simp: handleBuildTriggers_def Let_def split: option.split prod.split)
qed

lemma delete_builds_step:
  assumes "I s" "\<And>b. b \<in> set bs \<Longrightarrow> U (DeleteImageBuild (obj_name b))"
  shows "I (snd (delete_builds w bs s))"
  using assms
proof (induction bs arbitrary: s)
  case (Cons b bs)
  have "I (try_call (kit_out (iprofile_kit w)) (DeleteImageBuild (obj_name b)) s)"
    using Cons.prems by (intro try_call_I) simp_all
  then show ?case using Cons
    by (auto simp: try_call_def attempt_def Let_def split: option.split)
qed simp

lemma retention_step:
  assumes "I s"
    and "\<And>pol bs b keep status. ip_retention (iprof_spec (mem s)) = Some pol \<Longrightarrow> jw_builds_later w = Inr bs \<Longrightarrow>
      status = ''Succeeded'' \<and> keep = ir_keep_last_succeeded pol \<and> keep > 0 \<or> status = ''Failed'' \<and> keep = ir_keep_last_failed pol \<Longrightarrow>
      int (length (prunable (obj_name (mem s)) status bs)) > keep \<Longrightarrow>
      b \<in> set (drop (nat keep) (jw_sort w (prunable (obj_name (mem s)) status bs))) \<Longrightarrow> U (DeleteImageBuild (obj_name b))"
  shows "I (enforceRetention w s)"
proof -
  have prune: "I (snd (deleteOldestBeyond w (prunable (obj_name (mem s)) status bs) keep s1))"
    if "I s1" "ip_retention (iprof_spec (mem s)) = Some pol" "jw_builds_later w = Inr bs"
      "status = ''Succeeded'' \<and> keep = ir_keep_last_succeeded pol \<and> keep > 0 \<or> status = ''Failed'' \<and> keep = ir_keep_last_failed pol"
    for s1 pol bs status keep
    using that assms(2) [OF that(2-4)] delete_builds_step [OF that(1)] by (auto simp: deleteOldestBeyond_def)
  have first: "I s1"
    if "deleteOldestBeyond w (prunable (obj_name (mem s)) ''Succeeded'' bs) (ir_keep_last_succeeded pol) s = (e, s1)"
      "ip_retention (iprof_spec (mem s)) = Some pol" "jw_builds_later w = Inr bs" "ir_keep_last_succeeded pol > 0" for bs pol e s1
    using prune [OF assms(1) that(2,3), of "''Succeeded''" "ir_keep_last_succeeded pol"] that(1,4) by simp
  show ?thesis
    using assms(1) first prune
    by (auto simp: enforceRetention_def split: option.split sum.split prod.split if_splits)
qed

lemma mirror_step: "I s \<Longrightarrow> I (snd (mirrorLatestBuild w s))"
  by (auto simp: mirrorLatestBuild_def Let_def set_status field_changes split: sum.split option.split)

lemma finish_step: "I s \<Longrightarrow> I (pass_of (iprofile_finish w a s))"
  by (simp add: iprofile_finish_def save_and_I become_I set_status field_changes)

end

section \<open>The calls a pass may make\<close>

text \<open>Name, generation and spec never change in a pass; so calls can be bounded in terms of them.\<close>

definition same_profile :: "image_profile \<Rightarrow> image_profile \<Rightarrow> bool" where
  "same_profile ip x = (obj_name x = obj_name ip \<and> obj_generation x = obj_generation ip \<and> iprof_spec x = iprof_spec ip)"

lemma same_profile_steady: "steady iprofile_kind (same_profile ip)"
  by (simp add: steady_def same_profile_def)

definition bounded_calls :: "image_profile \<Rightarrow> (image_profile_status \<Rightarrow> bool) \<Rightarrow> (iprofile_call \<Rightarrow> bool) \<Rightarrow> iprofile_pass \<Rightarrow> bool" where
  "bounded_calls ip R U = status_stays iprofile_kind (same_profile ip) R (\<lambda>l. \<forall>(u, ok) \<in> set l. U u)"

lemma bounded_calls_rule:
  assumes "\<And>g st. R (ips_conditions_update g st) = R st"
  shows "pass_rule (iprofile_kit w) (bounded_calls ip R U) (\<lambda>f. \<forall>st. R st \<longrightarrow> R (f st)) U"
proof -
  have meta: "iprof_status (x\<lparr>obj_finalizers := fs\<rparr>) = iprof_status x" "iprof_status (x\<lparr>obj_annotations := as\<rparr>) = iprof_status x"
    "iprof_status (x\<lparr>obj_owners := os\<rparr>) = iprof_status x" for x :: image_profile and fs as os
    by simp_all
  show ?thesis
    using status_rule [where k = "iprofile_kit w" and Q = "same_profile ip" and R = R and U = U and J = "\<lambda>l. \<forall>(u, ok) \<in> set l. U u"]
      assms meta same_profile_steady iprofile_status_field.status_field_axioms
    by (auto simp: bounded_calls_def)
qed

lemma bounded_mem: "bounded_calls ip R U s \<Longrightarrow> same_profile ip (mem s) \<and> R (iprof_status (mem s))"
  by (simp add: bounded_calls_def status_stays_def)

text \<open>
  The calls of a live pass: what is asked of Uyuni, the name of a build, and the builds the retention
  finds superfluous.
\<close>

definition superfluous :: "'f iprofile_world \<Rightarrow> image_profile \<Rightarrow> image_build \<Rightarrow> bool" where
  "superfluous w ip b =
     (\<exists>pol bs keep status. ip_retention (iprof_spec ip) = Some pol \<and> jw_builds_later w = Inr bs \<and>
        (status = ''Succeeded'' \<and> keep = ir_keep_last_succeeded pol \<and> keep > 0 \<or> status = ''Failed'' \<and> keep = ir_keep_last_failed pol) \<and>
        int (length (prunable (obj_name ip) status bs)) > keep \<and> b \<in> set (drop (nat keep) (jw_sort w (prunable (obj_name ip) status bs))))"

locale bounded_pass = iprofile_rule w "bounded_calls ip R U" "\<lambda>f. \<forall>st. R st \<longrightarrow> R (f st)" U
  for w :: "'f iprofile_world" and ip :: image_profile and R :: "image_profile_status \<Rightarrow> bool" and U :: "iprofile_call \<Rightarrow> bool" +
  assumes creates: "U (CreateImageProfile d c)"
    and deletes: "R st \<Longrightarrow> ip_kiwi_options (iprof_spec ip) \<noteq> ips_applied_kiwi_options st \<Longrightarrow> U (DeleteImageProfile (ip_label (iprof_spec ip)))"
    and builds: "same_profile ip x \<Longrightarrow> obj_annotations x = obj_annotations ip \<Longrightarrow>
      U (CreateImageBuild (build_name (jw_stamp w) x) t (obj_name ip) v)"
    and prunes: "superfluous w ip b \<Longrightarrow> U (DeleteImageBuild (obj_name b))"
begin

lemma builds_step:
  assumes "bounded_calls ip R U s" "obj_annotations (mem s) = obj_annotations ip"
  shows "bounded_calls ip R U (pass_of (iprofile_builds w s))"
proof -
  have name: "obj_name (mem s) = obj_name ip" using bounded_mem [OF assms(1)] by (simp add: same_profile_def)
  have triggered: "bounded_calls ip R U (snd (handleBuildTriggers w s))"
    using trigger_step [OF assms(1)] builds bounded_mem [OF assms(1)] assms(2) by (simp add: name)
  have retained: "bounded_calls ip R U (enforceRetention w s1)" if "bounded_calls ip R U s1" for s1
    using bounded_mem [OF that]
    by (intro retention_step [OF that] prunes) (auto simp: superfluous_def same_profile_def)
  have mirrored: "bounded_calls ip R U s2" if "mirrorLatestBuild w s1 = (a, s2)" "bounded_calls ip R U s1" for a s1 s2
    using mirror_step [OF that(2)] that(1) by simp
  show ?thesis
    using triggered by (auto simp: iprofile_builds_def iprofile_fail_def fail_I finish_step retained mirrored split: prod.split option.split)
qed

lemma converge_step:
  assumes "bounded_calls ip R U s" "obj_annotations (mem s) = obj_annotations ip"
  shows "bounded_calls ip R U (pass_of (iprofile_converge w s))"
proof -
  have "bounded_calls ip R U (pass_of (iprofile_ensure w store akey url (iprofile_update w store akey url (iprofile_builds w)) s))"
    for store akey url
  proof (rule ensure_step [OF assms(1) creates])
    show "U (DeleteImageProfile (ip_label (iprof_spec (mem s))))"
      if "ip_kiwi_options (iprof_spec (mem s)) \<noteq> ips_applied_kiwi_options (iprof_status (mem s))"
      using deletes [of "iprof_status (mem s)"] that bounded_mem [OF assms(1)] by (simp add: same_profile_def)
    show "bounded_calls ip R U (pass_of (iprofile_update w store akey url (iprofile_builds w) cur s1))"
      if "bounded_calls ip R U s1" "obj_annotations (mem s1) = obj_annotations (mem s)" for cur s1
      using that assms(2) builds_step by (intro update_step) simp_all
  qed
  then show ?thesis
    using assms(1)
    by (simp add: iprofile_converge_def iprofile_realize_def with_resolved_def iprofile_fail_def fail_I refuse_I
        split: resolve.split sum.split)
qed

lemma reconcile_bounded:
  assumes "\<not> obj_deleting ip" "R (iprof_status ip)" "(u, ok) \<in> set (call_log (trace (pass_of (iprofile_Reconcile w ip))))"
  shows "U u"
proof -
  have start: "bounded_calls ip R U (start_pass ip)"
    using assms(2) by (simp add: bounded_calls_def status_stays_def same_profile_def)
  have "bounded_calls ip R U (pass_of (begin_pass (iprofile_kit w) w ipFinalizer n (iprofile_converge w) (start_pass ip)))" for n
    by (rule begin_pass_keeps [OF start]) (simp_all add: converge_step)
  then have "bounded_calls ip R U (pass_of (iprofile_Reconcile w ip))"
    using assms(1) by (simp add: iprofile_Reconcile_def Let_def)
  then show ?thesis using assms(3) by (auto simp: bounded_calls_def status_stays_def)
qed

end

section \<open>Builds asked for and builds removed\<close>

definition allowed_call :: "'f iprofile_world \<Rightarrow> image_profile \<Rightarrow> iprofile_call \<Rightarrow> bool" where
  "allowed_call w ip u =
     (case u of
        CreateImageBuild n t p v \<Rightarrow> n = build_name (jw_stamp w) ip
      | DeleteImageBuild n \<Rightarrow> (\<exists>b. superfluous w ip b \<and> obj_name b = n)
      | _ \<Rightarrow> True)"

lemma build_name_same:
  "same_profile ip x \<Longrightarrow> obj_annotations x = obj_annotations ip \<Longrightarrow> build_name stamp x = build_name stamp ip"
  by (simp add: build_name_def same_profile_def has_annotation_def)

interpretation any_status: bounded_pass w ip "\<lambda>_. True" "allowed_call w ip" for w :: "'f iprofile_world" and ip
  by (intro bounded_pass.intro iprofile_rule.intro bounded_calls_rule iprofile_rule_axioms.intro bounded_pass_axioms.intro)
    (auto simp: allowed_call_def build_name_same)

lemma dropped_has_newer:
  assumes "mset ys = mset xs" "sorted_wrt (\<lambda>x y. f x \<ge> (f y :: int)) ys" "b \<in> set (drop k ys)"
  shows "\<exists>newer. newer \<subseteq># mset xs - {#b#} \<and> size newer = k \<and> (\<forall>x \<in># newer. f x \<ge> f b)"
proof -
  have "sorted_wrt (\<lambda>x y. f x \<ge> f y) (take k ys @ drop k ys)" using assms(2) by simp
  then have "\<forall>x \<in> set (take k ys). f x \<ge> f b" using assms(3) by (simp only: sorted_wrt_append) blast
  moreover have "mset xs = mset (take k ys) + mset (drop k ys)" using assms(1) by (metis append_take_drop_id mset_append)
  then have "mset (take k ys) \<subseteq># mset xs - {#b#}"
    using assms(3) by (metis add_diff_assoc2 diff_union_single_conv in_multiset_in_set mset_subset_eq_add_left)
  moreover have "k < length ys" using assms(3) by (metis drop_all empty_iff empty_set not_le)
  then have "size (mset (take k ys)) = k" by simp
  ultimately show ?thesis by (metis set_mset_mset)
qed


text \<open>
  C32.  A trigger asks for one build.  However many passes run on a profile of one generation, in whatever
  world, the ImageBuilds they create all have one name (so the API server keeps one of them), as long as
  \<^verbatim>\<open>build-now\<close> is absent, or present with one version.
\<close>

theorem trigger_builds_once:
  fixes runs :: "('f iprofile_world \<times> image_profile) list"
  assumes "\<forall>(w, ip) \<in> set runs. \<not> obj_deleting ip \<and> obj_name ip = n \<and> obj_generation ip = g \<and> has_annotation ip AnnBuildNow = now"
    and "\<forall>(w, ip) \<in> set runs. now \<longrightarrow> obj_annotations ip AnnBuildVersion = Some v" "v \<noteq> []"
  shows "\<exists>m. \<forall>(w, ip) \<in> set runs. \<forall>b t p x ok.
    (CreateImageBuild b t p x, ok) \<in> set (call_log (trace (pass_of (iprofile_Reconcile w ip)))) \<longrightarrow> b = m"
proof -
  let ?m = "if now then n @ ''-'' @ v else n @ ''-gen'' @ itoa g"
  have "b = ?m" if run: "(w, ip) \<in> set runs"
    and call: "(CreateImageBuild b t p x, ok) \<in> set (call_log (trace (pass_of (iprofile_Reconcile w ip))))" for w ip b t p x ok
  proof -
    have ip: "\<not> obj_deleting ip" "obj_name ip = n" "obj_generation ip = g" "has_annotation ip AnnBuildNow = now"
      and version: "now \<longrightarrow> obj_annotations ip AnnBuildVersion = Some v"
      using assms(1,2) run by auto
    have "allowed_call w ip (CreateImageBuild b t p x)" using any_status.reconcile_bounded [OF ip(1) TrueI call] .
    then show ?thesis using ip version assms(3) by (simp add: allowed_call_def build_name_def map_get_def or_else_def)
  qed
  then show ?thesis by blast
qed

text \<open>Without a version the name has the time in it: the same request seen twice asks for two builds.\<close>

lemma unversioned_build_repeats:
  assumes "has_annotation ip AnnBuildNow" "obj_annotations ip AnnBuildVersion = None" "stamp \<noteq> stamp'"
  shows "build_name stamp ip \<noteq> build_name stamp' ip"
  using assms by (simp add: build_name_def map_get_def or_else_def)

section \<open>Kiwi options\<close>

text \<open>A profile whose recorded kiwi options are those of the spec is not made anew.\<close>

definition no_delete :: "iprofile_call \<Rightarrow> bool" where
  "no_delete u = (\<forall>l. u \<noteq> DeleteImageProfile l)"

interpretation kiwi_applied: bounded_pass w ip "\<lambda>st. ips_applied_kiwi_options st = ip_kiwi_options (iprof_spec ip)" no_delete
  for w :: "'f iprofile_world" and ip
proof (intro bounded_pass.intro iprofile_rule.intro bounded_calls_rule iprofile_rule_axioms.intro bounded_pass_axioms.intro)
  show "\<forall>st. ips_applied_kiwi_options st = ip_kiwi_options (iprof_spec ip) \<longrightarrow>
      ips_applied_kiwi_options (keep_profile (iprof_status (mem s)) st) = ip_kiwi_options (iprof_spec ip)"
    if "bounded_calls ip (\<lambda>st. ips_applied_kiwi_options st = ip_kiwi_options (iprof_spec ip)) no_delete s" for s
    using bounded_mem [OF that] by (simp add: keep_profile_def keep_list_def)
qed (auto simp: no_delete_def dest: bounded_mem simp: same_profile_def)

text \<open>A pass in which the profile was created, and whose last event is the status write.\<close>

definition made :: "iprofile_pass \<Rightarrow> bool" where
  "made s = (\<exists>d c. (CreateImageProfile d c, True) \<in> set (call_log (trace s)))"

definition records :: "string \<Rightarrow> iprofile_pass \<Rightarrow> bool" where
  "records o' s = (last (trace s) = (WriteStatus, True) \<longrightarrow>
     (case stored s of None \<Rightarrow> True | Some x \<Rightarrow> ips_applied_kiwi_options (iprof_status x) = o'))"

abbreviation applied_of :: "iprofile_pass \<Rightarrow> string" where
  "applied_of s \<equiv> ips_applied_kiwi_options (iprof_status (mem s))"

lemma records_ends:
  assumes "applied_of s = o'"
  shows "records o' (pass_of (iprofile_fail w r e s))" "records o' (pass_of (iprofile_finish w a s))"
  using assms
  by (auto simp: records_def iprofile_fail_def iprofile_finish_def fail_with_def save_and_eq become_def set_st_def
      split: option.splits)

lemma delete_builds_mem: "mem (snd (delete_builds w bs s)) = mem s"
  by (induction bs arbitrary: s) (simp_all add: attempt_def Let_def split: option.split)

lemma enforceRetention_mem: "mem (enforceRetention w s) = mem s"
proof -
  have "mem (snd (deleteOldestBeyond w bs keep s1)) = mem s1" for bs keep s1
    by (simp add: deleteOldestBeyond_def delete_builds_mem)
  moreover from this have "mem s2 = mem s1" if "deleteOldestBeyond w bs keep s1 = (e, s2)" for bs keep s1 e s2
    using that by (metis snd_conv)
  ultimately show ?thesis
    by (auto simp: enforceRetention_def split: option.split sum.split prod.split if_splits)
qed

lemma builds_record:
  assumes "applied_of s = o'" "\<not> has_annotation (mem s) AnnBuildNow"
  shows "records o' (pass_of (iprofile_builds w s))"
proof -
  obtain e s1 where h: "handleBuildTriggers w s = (e, s1)" by fastforce
  then have "applied_of s1 = o'"
    using assms by (auto simp: handleBuildTriggers_def create_build_def Let_def attempt_def set_st_def split: if_splits option.splits)
  moreover obtain a s2 where m: "mirrorLatestBuild w s1 = (a, s2)" by fastforce
  moreover have "applied_of s2 = applied_of s1"
    using m by (auto simp: mirrorLatestBuild_def Let_def set_st_def split: sum.splits option.splits)
  ultimately show ?thesis
    using h by (simp add: iprofile_builds_def records_ends enforceRetention_mem split: option.split)
qed

lemma update_records:
  assumes "applied_of s = o'" "\<not> has_annotation (mem s) AnnBuildNow"
  shows "records o' (pass_of (iprofile_update w store akey url (iprofile_builds w) cur s))"
proof -
  have "records o' (pass_of (iprofile_builds w (set_st (iprofile_kit w) (\<lambda>st. st\<lparr>ips_uyuni_id := i\<rparr>) s1)))"
    if "mem s1 = mem s" for i s1
    by (rule builds_record) (use assms that in \<open>simp_all add: set_st_def has_annotation_def\<close>)
  then show ?thesis using assms by (simp add: iprofile_update_def call_if_def call_or_eq records_ends)
qed

lemma create_records:
  assumes "\<not> made s" "ip_kiwi_options (iprof_spec (mem s)) = o'" "\<not> has_annotation (mem s) AnnBuildNow"
  shows "\<not> made (pass_of (iprofile_create w store akey url (iprofile_update w store akey url (iprofile_builds w)) s)) \<or>
    records o' (pass_of (iprofile_create w store akey url (iprofile_update w store akey url (iprofile_builds w)) s))"
proof (cases "bw_out w (length (trace s))")
  case None
  have "records o' (pass_of (iprofile_update w store akey url (iprofile_builds w) cur
      (set_st (iprofile_kit w) (\<lambda>st. st\<lparr>ips_applied_kiwi_options := o'\<rparr>) s1)))" if "mem s1 = mem s" for cur s1
    by (rule update_records) (use assms that in \<open>simp_all add: set_st_def has_annotation_def\<close>)
  moreover have "applied_of (set_st (iprofile_kit w) (\<lambda>st. st\<lparr>ips_applied_kiwi_options := o'\<rparr>) s1) = o'" for s1
    by (simp add: set_st_def)
  ultimately show ?thesis using None assms(2)
    by (simp add: iprofile_create_def Let_def call_or_eq records_ends split: sum.split)
next
  case (Some e)
  then show ?thesis using assms(1)
    by (simp add: iprofile_create_def Let_def call_or_eq iprofile_fail_def made_def)
qed

lemma converge_records:
  assumes "\<not> made s" "ip_kiwi_options (iprof_spec (mem s)) = o'" "\<not> has_annotation (mem s) AnnBuildNow"
  shows "\<not> made (pass_of (iprofile_converge w s)) \<or> records o' (pass_of (iprofile_converge w s))"
proof -
  have made_try: "\<not> made (try_call (bw_out w) (DeleteImageProfile l) s)" for l
    using assms(1) by (simp add: made_def)
  have create: "\<not> made (pass_of (iprofile_create w store akey url (iprofile_update w store akey url (iprofile_builds w)) s1)) \<or>
      records o' (pass_of (iprofile_create w store akey url (iprofile_update w store akey url (iprofile_builds w)) s1))"
    if "\<not> made s1" "mem s1 = mem s" for store akey url s1
    using create_records [OF that(1), of o' w store akey url] assms(2,3) that(2) by simp
  have "\<not> made (pass_of (iprofile_ensure w store akey url (iprofile_update w store akey url (iprofile_builds w)) s)) \<or>
      records o' (pass_of (iprofile_ensure w store akey url (iprofile_update w store akey url (iprofile_builds w)) s))" for store akey url
    using create [OF assms(1)] create [OF made_try] update_records [of s o' w store akey url] made_try assms
    by (auto simp: iprofile_ensure_def call_or_eq iprofile_fail_def made_def return_error_def split: sum.split)
  then show ?thesis using assms(1)
    by (auto simp: iprofile_converge_def iprofile_realize_def with_resolved_def iprofile_fail_def made_def
        split: resolve.split sum.split)
qed

text \<open>
  A change of the kiwi options makes the profile anew once.  If a pass created the profile in Uyuni and
  its last event is the status write, then no pass on a profile with the same spec and the status that was
  stored deletes it in Uyuni, whatever the world; \<^verbatim>\<open>build-now\<close> was not asked for in that pass.
\<close>

theorem kiwi_change_recreates_once:
  fixes w :: "'f iprofile_world" and w2 :: "'g iprofile_world"
  assumes "\<not> obj_deleting ip" "\<not> has_annotation ip AnnBuildNow"
    and "(CreateImageProfile d c, True) \<in> set (call_log (trace (pass_of (iprofile_Reconcile w ip))))"
    and "last (trace (pass_of (iprofile_Reconcile w ip))) = (WriteStatus, True)"
    and "stored (pass_of (iprofile_Reconcile w ip)) = Some x"
    and "\<not> obj_deleting ip2" "iprof_spec ip2 = iprof_spec ip" "iprof_status ip2 = iprof_status x"
  shows "(DeleteImageProfile l, ok) \<notin> set (call_log (trace (pass_of (iprofile_Reconcile w2 ip2))))"
proof -
  let ?o = "ip_kiwi_options (iprof_spec ip)" and ?U = "\<lambda>u. \<forall>d c. u \<noteq> CreateImageProfile d c"
  let ?I = "\<lambda>s :: iprofile_pass. same_profile ip (mem s) \<and> (\<forall>(u, ok) \<in> set (call_log (trace s)). ?U u)"
  let ?P = "\<lambda>s. \<not> made s \<or> records ?o s"
  have rule: "pass_rule (iprofile_kit w) ?I (\<lambda>_. True) ?U"
    using steady_rule [where k = "iprofile_kit w" and Q = "same_profile ip" and J = "\<lambda>l. \<forall>(u, ok) \<in> set l. ?U u" and U = ?U]
      same_profile_steady by auto
  have unmade: "\<not> made s" if "?I s" for s using that by (auto simp: made_def)
  have "?P (pass_of (begin_pass (iprofile_kit w) w ipFinalizer n (iprofile_converge w) (start_pass ip)))" for n
  proof (rule pass_rule.begin_pass_keeps [OF rule])
    show "?I (start_pass ip)" by (simp add: same_profile_def)
    show "?P (pass_of (iprofile_converge w s))" if "?I s" "obj_annotations (mem s) = obj_annotations (mem (start_pass ip))" for s
      by (rule converge_records [OF unmade [OF that(1)]]) (use that assms(2) in \<open>simp_all add: same_profile_def has_annotation_def\<close>)
    show "?P s" if "?I s" for s using unmade [OF that] by simp
  qed simp
  then have "?P (pass_of (iprofile_Reconcile w ip))" using assms(1) by (simp add: iprofile_Reconcile_def Let_def)
  then have "ips_applied_kiwi_options (iprof_status x) = ?o"
    using assms(3-5) by (auto simp: made_def records_def)
  then have "ips_applied_kiwi_options (iprof_status ip2) = ip_kiwi_options (iprof_spec ip2)" using assms(7,8) by simp
  then show ?thesis
    using kiwi_applied.reconcile_bounded [OF assms(6), where w = w2 and u = "DeleteImageProfile l"] by (auto simp: no_delete_def)
qed

section \<open>Witnesses\<close>

definition retained_profile :: image_profile where
  "retained_profile =
     (let ip = sample_image_profile in
      ip\<lparr>obj_finalizers := [ipFinalizer],
         iprof_spec := (iprof_spec ip)\<lparr>ip_retention := Some \<lparr>ir_keep_last_succeeded = 1, ir_keep_last_failed = 0\<rparr>,
           ip_kiwi_options := ''--new'', ip_build_policy := ''onChange''\<rparr>\<rparr>)"

definition old_build :: "string \<Rightarrow> int \<Rightarrow> image_build" where
  "old_build n t =
     (let b = sample_build [] 1 in
      b\<lparr>obj_name := n, obj_created := t, ibuild_status := (ibuild_status b)\<lparr>ibst_build_status := ''Succeeded''\<rparr>\<rparr>)"

text \<open>A sort by creation time, newest first.\<close>

fun insert_build :: "image_build \<Rightarrow> image_build list \<Rightarrow> image_build list" where
  "insert_build b [] = [b]"
| "insert_build b (x # xs) = (if obj_created b \<ge> obj_created x then b # x # xs else x # insert_build b xs)"

definition sort_builds :: "image_build list \<Rightarrow> image_build list" where
  "sort_builds xs = foldr insert_build xs []"

lemma sort_builds_sorts:
  "mset (sort_builds xs) = mset xs \<and> sorted_wrt (\<lambda>x y. obj_created x \<ge> obj_created y) (sort_builds xs)"
proof -
  have insert: "mset (insert_build b ys) = add_mset b (mset ys)" for b ys by (induction ys) auto
  then have members: "set (insert_build b ys) = insert b (set ys)" for b ys
    by (metis set_mset_add_mset_insert set_mset_mset)
  have "sorted_wrt (\<lambda>x y. obj_created x \<ge> obj_created y) (insert_build b ys)"
    if "sorted_wrt (\<lambda>x y. obj_created x \<ge> obj_created y) ys" for b ys
    using that by (induction ys) (auto simp: members)
  then show ?thesis by (induction xs) (simp_all add: sort_builds_def insert)
qed

definition iprofile_demo_world :: "unit iprofile_world" where
  "iprofile_demo_world = \<lparr>bw_ssc = replace_cond, bw_client = None, bw_get_org = (\<lambda>_ _. Inl (GoErr K8sNotFound [])), bw_out = (\<lambda>_. None),
     jw_git = \<lparr>gt_secret = (\<lambda>_ _. Inl (errorf [])), gt_with_user = (\<lambda>_ _ _. Inl (errorf [])), gt_hash = (\<lambda>_ _. Inl (errorf [])),
       gt_clone = (\<lambda>_ _ _. Inl (errorf []))\<rparr>,
     jw_get_store = (\<lambda>_ _. Inl (errorf [])), jw_get_key = (\<lambda>_ _. Inl (errorf [])), jw_exists = (\<lambda>_. False), jw_stamp = ''now'',
     jw_builds = Inr [], jw_builds_later = Inr [old_build ''b1'' 10, old_build ''b2'' 20], jw_sort = sort_builds,
     jw_transition = (\<lambda>_. 0),
     ju_profile = Inr (iprofile_wanted (iprof_spec sample_image_profile) defaultOSImageStoreLabel [] []),
     ju_created = Inr (iprofile_wanted (iprof_spec sample_image_profile) defaultOSImageStoreLabel [] []),
     ju_images = Inr [], ju_pillar = (\<lambda>_. Inl (errorf []))\<rparr>"

abbreviation demo_pass :: iprofile_pass where
  "demo_pass \<equiv> pass_of (iprofile_Reconcile iprofile_demo_world retained_profile)"

lemma demo_pass_calls:
  "call_log (trace demo_pass) =
     [(DeleteImageProfile ''lbl'', True),
      (CreateImageProfile (iprofile_wanted (iprof_spec retained_profile) defaultOSImageStoreLabel [] ''u'') [], True),
      (CreateImageBuild ''ip-gen1'' ''onChange'' ''ip'' [], True), (DeleteImageBuild ''b1'', True)]"
  by code_simp


theorem trigger_builds_once_witness:
  "\<exists>m. \<forall>(w, ip) \<in> set [(iprofile_demo_world, retained_profile), (iprofile_demo_world\<lparr>jw_stamp := ''later''\<rparr>, retained_profile)].
     \<forall>b t p x ok. (CreateImageBuild b t p x, ok) \<in> set (call_log (trace (pass_of (iprofile_Reconcile w ip)))) \<longrightarrow> b = m"
proof (rule trigger_builds_once [where now = False and v = "''v''"])
  have "\<not> obj_deleting retained_profile" "\<not> has_annotation retained_profile AnnBuildNow"
    "obj_name retained_profile = ''ip''" "obj_generation retained_profile = 1" by code_simp+
  then show "\<forall>(w, ip) \<in> set [(iprofile_demo_world, retained_profile), (iprofile_demo_world\<lparr>jw_stamp := ''later''\<rparr>, retained_profile)].
      \<not> obj_deleting ip \<and> obj_name ip = ''ip'' \<and> obj_generation ip = 1 \<and> has_annotation ip AnnBuildNow = False" by simp
qed simp_all

theorem kiwi_change_recreates_once_witness:
  "\<forall>l ok. case stored demo_pass of
      None \<Rightarrow> False
    | Some x \<Rightarrow> (DeleteImageProfile l, ok) \<notin> set (call_log (trace (pass_of (iprofile_Reconcile iprofile_demo_world x))))"
proof (intro allI)
  fix l ok
  have "(case stored demo_pass of None \<Rightarrow> False | Some x \<Rightarrow> \<not> obj_deleting x \<and> iprof_spec x = iprof_spec retained_profile)"
    by code_simp
  then obtain x where x: "stored demo_pass = Some x" "\<not> obj_deleting x" "iprof_spec x = iprof_spec retained_profile"
    by (auto split: option.splits)
  have "\<not> obj_deleting retained_profile" "\<not> has_annotation retained_profile AnnBuildNow"
    "last (trace demo_pass) = (WriteStatus, True)" by code_simp+
  then show "case stored demo_pass of
      None \<Rightarrow> False
    | Some x \<Rightarrow> (DeleteImageProfile l, ok) \<notin> set (call_log (trace (pass_of (iprofile_Reconcile iprofile_demo_world x))))"
    using kiwi_change_recreates_once [of retained_profile _ _ iprofile_demo_world x x l ok iprofile_demo_world] x
    by (simp add: demo_pass_calls)
qed

end
