(* ===== verification/Proxy_Controller.thy ===== *)
theory Proxy_Controller
  imports Kind_Facts Api_Content Uyuni_Wire Go_Time "HOL-Library.List_Lexorder" "HOL-Library.Char_ord"
begin

text \<open>
  The Proxy reconciler (\<^verbatim>\<open>proxy_controller.go\<close>): the configuration archive Uyuni generates for a proxy,
  kept in a Secret, with its harmless part shown in the status.  A generation makes a new SSH key for the
  proxy, so it is only asked for when one of its inputs changed.  SHA-256, gzip and tar are parameters;
  contents are byte strings.
\<close>

section \<open>Archive\<close>

text \<open>\<^verbatim>\<open>path.Base\<close>: the last element of a path.\<close>

definition path_base :: "string \<Rightarrow> string" where
  "path_base p =
     (if p = [] then ''.''
      else let q = rev (dropWhile (\<lambda>c. c = CHR ''/'') (rev p)) in
        if q = [] then ''/'' else rev (takeWhile (\<lambda>c. c \<noteq> CHR ''/'') (rev q)))"

text \<open>A tar entry: whether it is a regular file, its name and its contents.\<close>

type_synonym tar_entry = "bool \<times> string \<times> string"

text \<open>\<open>files\<close> is the Go map as an association list with one entry for each name; a later member replaces an earlier one.\<close>

definition put_file :: "string \<Rightarrow> string \<Rightarrow> (string \<times> string) list \<Rightarrow> (string \<times> string) list" where
  "put_file n c files = (n, c) # filter (\<lambda>f. fst f \<noteq> n) files"

fun collect_files :: "tar_entry list \<Rightarrow> (string \<times> string) list \<Rightarrow> (string \<times> string) list" where
  "collect_files [] files = files"
| "collect_files ((regular, n, c) # es) files =
     collect_files es (if regular then put_file (path_base n) c files else files)"

definition extractArchive :: "('b \<Rightarrow> go_error + tar_entry list) \<Rightarrow> 'b \<Rightarrow> go_error + (string \<times> string) list" where
  "extractArchive untar b =
     (case untar b of
        Inl e \<Rightarrow> Inl e
      | Inr es \<Rightarrow>
          let files = collect_files es [] in
          if files = [] then Inl (errorf ''archive contained no regular files'') else Inr files)"

definition nonSensitiveArchiveFiles :: "string list" where
  "nonSensitiveArchiveFiles = [''config.yaml'']"

fun inline_rest :: "bool \<Rightarrow> (string \<times> string) list \<Rightarrow> string list \<Rightarrow> string" where
  "inline_rest many files [] = []"
| "inline_rest many files (n # ns) =
     [CHR 0x0A] @ (if many then ''# '' @ n @ [CHR 0x0A] else []) @ map_get (map_of files) [] n @ inline_rest many files ns"

definition inlineNonSensitive :: "(string \<times> string) list \<Rightarrow> string" where
  "inlineNonSensitive files =
     (let names = sort (filter (\<lambda>n. n \<in> set nonSensitiveArchiveFiles) (map fst files))
      in drop 1 (inline_rest (length names > 1) files names))"

section \<open>Inputs\<close>

record tls_material =
  tm_crt :: string
  tm_key :: string
  tm_root_ca :: string
  tm_intermediate_cas :: "string list"

definition no_tls :: tls_material where
  "no_tls = \<lparr>tm_crt = [], tm_key = [], tm_root_ca = [], tm_intermediate_cas = []\<rparr>"

definition resolveTLS :: "(string \<Rightarrow> string) k8s_get \<Rightarrow> proxy \<Rightarrow> tls_material resolve" where
  "resolveTLS get_secret px =
     (case px_tls_secret_ref (pxy_spec px) of
        None \<Rightarrow> Resolved no_tls
      | Some r \<Rightarrow> (case get_secret (obj_namespace px) (lor_name r) of
          Inl e \<Rightarrow>
            if is_k8s_not_found e then resolve.Wait (''TLS secret '' @ go_quote (lor_name r) @ '' not found yet'') else Broken e
        | Inr data \<Rightarrow>
            let inter = data ''ca-intermediate.crt'';
                m = \<lparr>tm_crt = data ''tls.crt'', tm_key = data ''tls.key'', tm_root_ca = data ''ca.crt'',
                     tm_intermediate_cas = (if inter \<noteq> [] then [inter] else [])\<rparr>
            in if tm_crt m = [] \<or> tm_key m = []
               then Broken (errorf (''TLS secret '' @ go_quote (lor_name r) @ '' missing tls.crt or tls.key''))
               else Resolved m))"

text \<open>The text that is hashed: every input under its tag, ended by a NUL.\<close>

definition tagged :: "string \<Rightarrow> string \<Rightarrow> string" where
  "tagged t v = t @ ''='' @ v @ [CHR 0x00]"

definition hash_text :: "proxy_spec \<Rightarrow> string \<Rightarrow> tls_material \<Rightarrow> string" where
  "hash_text sp parent tls =
     tagged ''fqdn'' (px_fqdn sp) @ tagged ''server'' parent @ tagged ''port'' (itoa (px_ssh_port sp)) @
     tagged ''cache'' (itoa (px_max_cache_mb sp)) @ tagged ''email'' (px_email sp) @
     tagged ''crt'' (tm_crt tls) @ tagged ''key'' (tm_key tls) @ tagged ''ca'' (tm_root_ca tls) @
     concat (map (tagged ''inter'') (tm_intermediate_cas tls))"

definition proxyInputHash :: "(string \<Rightarrow> string) \<Rightarrow> proxy_spec \<Rightarrow> string \<Rightarrow> tls_material \<Rightarrow> string" where
  "proxyInputHash sha sp parent tls = sha (hash_text sp parent tls)"

section \<open>World\<close>

definition proxy_kind :: "(proxy, proxy_status) kind_ops" where
  "proxy_kind = \<lparr>status_of = pxy_status, with_status = \<lambda>st o'. o'\<lparr>pxy_status := st\<rparr>\<rparr>"

interpretation proxy_status_field: status_field proxy_kind
  by unfold_locales (simp_all add: proxy_kind_def k8s_object.defs)

record 'b proxy_world = base_world +
  yw_legacy :: "(string \<times> string) list"
  yw_now :: int
  yw_secret :: "(string \<Rightarrow> string) k8s_get"
  yw_sha :: "string \<Rightarrow> string"
  yw_untar :: "'b \<Rightarrow> go_error + tar_entry list"
  yu_server_host :: string
  yu_archive :: 'b

text \<open>\<open>PutSecret\<close> is \<^verbatim>\<open>controllerutil.CreateOrUpdate\<close> of the Secret the proxy owns.\<close>

datatype proxy_call =
    GenerateProxyContainerConfig proxy_container_args
  | PutSecret string "(string \<times> string) list"

type_synonym proxy_pass = "(proxy, proxy_call) pass"

type_synonym proxy_outcome = "(proxy, proxy_call) outcome"

definition proxy_kit :: "'b proxy_world \<Rightarrow> (proxy, proxy_status) kit" where
  "proxy_kit w = kit_of proxy_kind pxs_conditions_update w"

definition proxy_fail :: "'b proxy_world \<Rightarrow> string \<Rightarrow> go_error \<Rightarrow> proxy_pass \<Rightarrow> proxy_outcome" where
  "proxy_fail w = fail_with (proxy_kit w)"

section \<open>Reconcile\<close>

definition parent_server :: "'b proxy_world \<Rightarrow> proxy \<Rightarrow> string" where
  "parent_server w px =
     (if px_parent_server (pxy_spec px) = [] then yu_server_host w else px_parent_server (pxy_spec px))"

definition config_args :: "proxy_spec \<Rightarrow> string \<Rightarrow> tls_material \<Rightarrow> proxy_container_args" where
  "config_args sp parent tls =
     \<lparr>pca_proxy_name = px_fqdn sp, pca_parent_server = parent, pca_proxy_port = px_ssh_port sp,
      pca_max_cache_mb = px_max_cache_mb sp, pca_email = px_email sp, pca_root_ca = tm_root_ca tls,
      pca_intermediate_cas = tm_intermediate_cas tls, pca_proxy_crt = tm_crt tls, pca_proxy_key = tm_key tls\<rparr>"

definition proxy_finish :: "'b proxy_world \<Rightarrow> bool \<Rightarrow> proxy_pass \<Rightarrow> proxy_outcome" where
  "proxy_finish w forced s =
     save_then (proxy_kit w)
       (\<lambda>s1. if forced
          then (case write_object (bw_out w) proxy_kind (strip_annotation AnnRegenerate s1) of
              (Some e, s2) \<Rightarrow> return_error e s2
            | (None, s2) \<Rightarrow> (result_after (5 * minute), None, s2))
          else (result_after (5 * minute), None, s1))
       (become (proxy_kit w) True ''Reconciled'' []
         (set_st (proxy_kit w) (\<lambda>st. st\<lparr>pxs_observed_generation := obj_generation (mem s)\<rparr>) s))"

definition secret_name :: "proxy \<Rightarrow> string" where
  "secret_name px =
     (if pxs_secret_name (pxy_status px) = [] then obj_name px @ ''-config'' else pxs_secret_name (pxy_status px))"

definition record_archive ::
  "'b proxy_world \<Rightarrow> string \<Rightarrow> (string \<times> string) list \<Rightarrow> proxy_pass \<Rightarrow> proxy_pass" where
  "record_archive w h files s =
     set_st (proxy_kit w) (\<lambda>st. st\<lparr>pxs_secret_name := secret_name (mem s), pxs_files := sort (map fst files),
       pxs_config := inlineNonSensitive files, pxs_input_hash := h, pxs_generated_at := Some (yw_now w)\<rparr>) s"

definition proxy_generate ::
  "'b proxy_world \<Rightarrow> tls_material \<Rightarrow> string \<Rightarrow> (proxy_pass \<Rightarrow> proxy_outcome) \<Rightarrow> proxy_pass \<Rightarrow> proxy_outcome" where
  "proxy_generate w tls h rest s =
     call_or (bw_out w) (GenerateProxyContainerConfig (config_args (pxy_spec (mem s)) (parent_server w (mem s)) tls))
       (proxy_fail w ''CreateFailed'')
       (\<lambda>s1. case extractArchive (yw_untar w) (yu_archive w) of
          Inl e \<Rightarrow> proxy_fail w ''CreateFailed'' (wrap_err ''extracting proxy config archive: '' e) s1
        | Inr files \<Rightarrow>
            call_or (bw_out w) (PutSecret (secret_name (mem s1)) files)
              (\<lambda>e. proxy_fail w ''UpdateFailed'' (wrap_err ''writing proxy config Secret: '' e))
              (\<lambda>s2. rest (record_archive w h files s2)) s1) s"

definition proxy_converge :: "'b proxy_world \<Rightarrow> proxy_pass \<Rightarrow> proxy_outcome" where
  "proxy_converge w s =
     (case resolveTLS (yw_secret w) (mem s) of
        Broken e \<Rightarrow> proxy_fail w ''ResolveRefs'' e s
      | resolve.Wait m \<Rightarrow> save_and (proxy_kit w) (result_after (30 * second)) (become (proxy_kit w) False ''ReferenceUnavailable'' m s)
      | Resolved tls \<Rightarrow>
          let px = mem s; h = proxyInputHash (yw_sha w) (pxy_spec px) (parent_server w px) tls;
              forced = (obj_annotations px AnnRegenerate \<noteq> None)
          in if h \<noteq> pxs_input_hash (pxy_status px) \<or> forced
             then proxy_generate w tls h (proxy_finish w forced) s
             else proxy_finish w forced s)"

definition proxy_handleDeletion :: "'b proxy_world \<Rightarrow> proxy_pass \<Rightarrow> proxy_outcome" where
  "proxy_handleDeletion w s =
     (if \<not> containsFinalizer (mem s) proxyFinalizer then (result_done, None, s)
      else release (proxy_kit w) proxyFinalizer s)"

definition proxy_Reconcile :: "'b proxy_world \<Rightarrow> proxy \<Rightarrow> proxy_outcome" where
  "proxy_Reconcile w px =
     (case migrateAnnotations (yw_legacy w) px of
        (True, px') \<Rightarrow> update_with (proxy_kit w) result_done ((start_pass px)\<lparr>mem := px'\<rparr>)
      | (False, _) \<Rightarrow>
          let s = start_pass px in
          if obj_deleting px then proxy_handleDeletion w s
          else (case bw_client w of
              Some e \<Rightarrow> proxy_fail w ''ProviderError'' e s
            | None \<Rightarrow> with_finalizer (proxy_kit w) proxyFinalizer (proxy_converge w) s))"

end
