(* ===== verification/Proxy_Facts.thy ===== *)
theory Proxy_Facts
  imports Proxy_Controller
begin

text \<open>
  Facts about proxies: when the configuration is generated again, and what of it the status shows.
\<close>

lemma proxy_kit_simps [simp]:
  "kit_ops (proxy_kit w) = proxy_kind" "kit_out (proxy_kit w) = bw_out w" "kit_ssc (proxy_kit w) = bw_ssc w"
  "kit_conditions (proxy_kit w) = pxs_conditions_update"
  by (simp_all add: proxy_kit_def)

section \<open>The hashed text\<close>

definition nul_free :: "string \<Rightarrow> bool" where
  "nul_free s = (CHR 0x00 \<notin> set s)"

lemma until_nul:
  assumes "nul_free v" "nul_free v'"
  shows "v @ CHR 0x00 # r = v' @ CHR 0x00 # r' \<longleftrightarrow> v = v' \<and> r = r'"
proof
  assume e: "v @ CHR 0x00 # r = v' @ CHR 0x00 # r'"
  let ?f = "takeWhile (\<lambda>c. c \<noteq> CHR 0x00)"
  have "?f (u @ CHR 0x00 # t) = u" if "nul_free u" for u t
    using that by (subst takeWhile_append2) (auto simp: nul_free_def)
  then have "v = v'" using assms arg_cong [OF e, of ?f] by simp
  then show "v = v' \<and> r = r'" using e by simp
qed simp

lemma tagged_eq:
  assumes "nul_free v" "nul_free v'"
  shows "tagged t v @ r = tagged t v' @ r' \<longleftrightarrow> v = v' \<and> r = r'"
  using until_nul [OF assms] by (simp add: tagged_def)

lemma tagged_list_eq:
  assumes "list_all nul_free xs" "list_all nul_free ys"
  shows "concat (map (tagged t) xs) = concat (map (tagged t) ys) \<longleftrightarrow> xs = ys"
  using assms
proof (induction xs arbitrary: ys)
  case Nil
  then show ?case by (cases ys) (simp_all add: tagged_def)
next
  case (Cons x xs)
  then show ?case by (cases ys) (auto simp: tagged_eq, simp_all add: tagged_def)
qed

lemma nat_digits_inj: "nat_digits m = nat_digits n \<Longrightarrow> m = n"
  by (metis digits_val_nat_digits)

lemma digits_free: "list_all is_digit s \<Longrightarrow> nul_free s"
  by (auto simp: nul_free_def list_all_iff is_digit_def)

lemma itoa_free: "nul_free (itoa i)"
  using nat_digits_all_digits digits_free by (auto simp: itoa_def nul_free_def)

lemma nat_digits_no_sign: "nat_digits m \<noteq> CHR ''-'' # s"
  using hd_nat_digits [of m] is_digit_sign by (metis list.sel(1))

lemma itoa_inj: "itoa i = itoa j \<longleftrightarrow> i = j"
proof
  assume e: "itoa i = itoa j"
  consider "i < 0" "j < 0" | "0 \<le> i" "0 \<le> j" | "i < 0" "0 \<le> j" | "0 \<le> i" "j < 0" by linarith
  then show "i = j"
  proof cases
    case 1
    then show ?thesis using e nat_digits_inj [of "nat (- i)" "nat (- j)"] by (simp add: itoa_def)
  next
    case 2
    then show ?thesis using e nat_digits_inj [of "nat i" "nat j"] by (simp add: itoa_def)
  next
    case 3
    then show ?thesis using e nat_digits_no_sign [of "nat j" "nat_digits (nat (- i))"] by (simp add: itoa_def)
  next
    case 4
    then show ?thesis using e nat_digits_no_sign [of "nat i"] by (simp add: itoa_def)
  qed
qed simp

text \<open>No input has a NUL in it, so the hashed text determines every input.\<close>

definition plain_inputs :: "proxy_spec \<Rightarrow> string \<Rightarrow> tls_material \<Rightarrow> bool" where
  "plain_inputs sp parent tls =
     (nul_free (px_fqdn sp) \<and> nul_free parent \<and> nul_free (px_email sp) \<and> nul_free (tm_crt tls) \<and> nul_free (tm_key tls) \<and>
      nul_free (tm_root_ca tls) \<and> list_all nul_free (tm_intermediate_cas tls))"

lemma hash_text_determines:
  assumes "plain_inputs sp parent tls" "plain_inputs sp' parent' tls'"
  shows "hash_text sp parent tls = hash_text sp' parent' tls' \<longleftrightarrow> config_args sp parent tls = config_args sp' parent' tls'"
  using assms itoa_free
  by (simp add: hash_text_def plain_inputs_def tagged_eq tagged_list_eq itoa_inj config_args_def) blast

section \<open>Generations\<close>

definition generates :: "proxy_pass \<Rightarrow> bool" where
  "generates s = (\<exists>a ok. (GenerateProxyContainerConfig a, ok) \<in> set (call_log (trace s)))"

lemma proxy_finish_log: "call_log (trace (pass_of (proxy_finish w forced s))) = call_log (trace s)"
proof -
  obtain e s1 where ws: "write_status (bw_out w) proxy_kind
      (become (proxy_kit w) True ''Reconciled'' [] (set_st (proxy_kit w) (\<lambda>st. st\<lparr>pxs_observed_generation := obj_generation (mem s)\<rparr>) s)) = (e, s1)"
    by fastforce
  from arg_cong [OF this, of "\<lambda>r. call_log (trace (snd r))"] have s1: "call_log (trace s1) = call_log (trace s)" by simp
  obtain e' s2 where wo: "write_object (bw_out w) proxy_kind (strip_annotation AnnRegenerate s1) = (e', s2)" by fastforce
  from arg_cong [OF this, of "\<lambda>r. call_log (trace (snd r))"] have "call_log (trace s2) = call_log (trace s1)"
    by (simp add: strip_annotation_def)
  then show ?thesis using ws wo s1 by (simp add: proxy_finish_def save_then_def return_error_def split: option.split)
qed

lemma proxy_generate_log:
  "\<exists>ok l. call_log (trace (pass_of (proxy_generate w tls h (proxy_finish w forced) s))) =
     call_log (trace s) @ (GenerateProxyContainerConfig (config_args (pxy_spec (mem s)) (parent_server w (mem s)) tls), ok) # l"
  by (simp add: proxy_generate_def call_or_eq proxy_fail_def proxy_finish_log record_archive_def split: sum.split) blast

text \<open>
  C38.  The configuration of a proxy is generated again exactly when something Uyuni is given for it changed.
  On a live proxy whose references resolve and whose status has the hash recorded for earlier inputs
  \<open>sp0\<close>, \<open>parent0\<close>, \<open>tls0\<close>, a pass asks for a generation if and only if the arguments of the call differ from
  the earlier ones or the annotation asks for it; SHA-256 must not map these two inputs to one hash, and
  no input may have a NUL in it.
\<close>

theorem proxy_regenerates_iff:
  assumes "\<not> fst (migrateAnnotations (yw_legacy w) px)" "\<not> obj_deleting px" "bw_client w = None"
    and "proxyFinalizer \<in> set (obj_finalizers px)" "resolveTLS (yw_secret w) px = Resolved tls"
    and "pxs_input_hash (pxy_status px) = proxyInputHash (yw_sha w) sp0 parent0 tls0"
    and "yw_sha w (hash_text (pxy_spec px) (parent_server w px) tls) = yw_sha w (hash_text sp0 parent0 tls0) \<Longrightarrow>
      hash_text (pxy_spec px) (parent_server w px) tls = hash_text sp0 parent0 tls0"
    and "plain_inputs (pxy_spec px) (parent_server w px) tls" "plain_inputs sp0 parent0 tls0"
  shows "generates (pass_of (proxy_Reconcile w px)) \<longleftrightarrow>
    config_args (pxy_spec px) (parent_server w px) tls \<noteq> config_args sp0 parent0 tls0 \<or> obj_annotations px AnnRegenerate \<noteq> None"
proof -
  have pass: "proxy_Reconcile w px = proxy_converge w (start_pass px)"
    using assms(1-4) by (auto simp: proxy_Reconcile_def with_finalizer_eq Let_def split: prod.split)
  have silent: "\<not> generates (pass_of (proxy_finish w f (start_pass px)))" for f by (simp add: generates_def proxy_finish_log)
  have loud: "generates (pass_of (proxy_generate w t h (proxy_finish w f) (start_pass px)))" for t h f
  proof -
    obtain ok l where "call_log (trace (pass_of (proxy_generate w t h (proxy_finish w f) (start_pass px)))) =
        (GenerateProxyContainerConfig (config_args (pxy_spec px) (parent_server w px) t), ok) # l"
      using proxy_generate_log [of w t h f "start_pass px"] by auto
    then show ?thesis unfolding generates_def by (metis list.set_intros(1))
  qed
  have "proxyInputHash (yw_sha w) (pxy_spec px) (parent_server w px) tls = pxs_input_hash (pxy_status px) \<longleftrightarrow>
      config_args (pxy_spec px) (parent_server w px) tls = config_args sp0 parent0 tls0"
    using assms(6,7) hash_text_determines [OF assms(8,9)] by (auto simp: proxyInputHash_def)
  then show ?thesis using pass assms(5) silent loud by (simp add: proxy_converge_def Let_def)
qed

section \<open>Secrets\<close>

lemma inline_rest_cong:
  "(\<And>n. n \<in> set ns \<Longrightarrow> map_of files n = map_of files' n) \<Longrightarrow> inline_rest many files ns = inline_rest many files' ns"
  by (induction ns) (simp_all add: map_get_def)

lemma inline_depends:
  assumes "sort (map fst files) = sort (map fst files')" "map_of files ''config.yaml'' = map_of files' ''config.yaml''"
  shows "inlineNonSensitive files = inlineNonSensitive files'"
proof -
  let ?P = "\<lambda>n. n \<in> set nonSensitiveArchiveFiles"
  have "sort (filter ?P (map fst files)) = sort (filter ?P (map fst files'))"
    using assms(1) by (metis filter_sort)
  then show ?thesis
    using inline_rest_cong [of "sort (filter ?P (map fst files))" files files'] assms(2)
    by (simp add: inlineNonSensitive_def Let_def nonSensitiveArchiveFiles_def)
qed

text \<open>Passes that differ in what their calls carried.\<close>

definition similar :: "proxy_pass \<Rightarrow> proxy_pass \<Rightarrow> bool" where
  "similar s s' = (mem s = mem s' \<and> stored s = stored s' \<and> length (trace s) = length (trace s'))"

lemma similar_steps:
  assumes "similar s s'"
  shows "similar (set_st k f s) (set_st k f s')" "similar (become k ok r m s) (become k ok r m s')"
    and "similar (try_call out u s) (try_call out u' s')"
    and "similar (snd (write_status out K s)) (snd (write_status out K s'))"
    and "similar (strip_annotation a s) (strip_annotation a s')"
    and "similar (snd (write_object out proxy_kind s)) (snd (write_object out proxy_kind s'))"
  using assms by (simp_all add: similar_def set_st_def become_def strip_annotation_def split: option.split)

lemma finish_similar:
  assumes "similar s s'"
  shows "similar (pass_of (proxy_finish w f s)) (pass_of (proxy_finish w f s'))"
proof -
  let ?r = "\<lambda>s. become (proxy_kit w) True ''Reconciled'' [] (set_st (proxy_kit w) (\<lambda>st. st\<lparr>pxs_observed_generation := obj_generation (mem s)\<rparr>) s)"
  obtain e s1 where 1: "write_status (bw_out w) proxy_kind (?r s) = (e, s1)" by fastforce
  obtain e' s1' where 2: "write_status (bw_out w) proxy_kind (?r s') = (e', s1')" by fastforce
  have "mem s = mem s'" using assms by (simp add: similar_def)
  then have "similar (?r s) (?r s')" using similar_steps(2) [OF similar_steps(1) [OF assms]] by (simp only:)
  then have s1: "similar s1 s1'" "e = e'"
    using similar_steps(4) [of "?r s" "?r s'" "bw_out w" proxy_kind] 1 2
      write_status_simps(1) [of "bw_out w" proxy_kind "?r s"] write_status_simps(1) [of "bw_out w" proxy_kind "?r s'"]
    by (simp_all add: similar_def)
  obtain d s2 where 3: "write_object (bw_out w) proxy_kind (strip_annotation AnnRegenerate s1) = (d, s2)" by fastforce
  obtain d' s2' where 4: "write_object (bw_out w) proxy_kind (strip_annotation AnnRegenerate s1') = (d', s2')" by fastforce
  have "similar (strip_annotation AnnRegenerate s1) (strip_annotation AnnRegenerate s1')" by (rule similar_steps(5) [OF s1(1)])
  then have "similar s2 s2'" "d = d'"
    using similar_steps(6) [of "strip_annotation AnnRegenerate s1" "strip_annotation AnnRegenerate s1'" "bw_out w"] 3 4
      write_object_simps(1) [of "bw_out w" proxy_kind "strip_annotation AnnRegenerate s1"]
      write_object_simps(1) [of "bw_out w" proxy_kind "strip_annotation AnnRegenerate s1'"]
    by (simp_all add: similar_def)
  then show ?thesis using 1 2 3 4 s1
    by (cases f) (simp_all add: proxy_finish_def save_then_def return_error_def split: option.split)
qed

lemma proxy_fail_similar:
  "similar s s' \<Longrightarrow> similar (pass_of (proxy_fail w r e s)) (pass_of (proxy_fail w r e s'))"
  unfolding proxy_fail_def fail_with_def by (simp add: similar_steps(2,4) del: write_status_simps)

text \<open>
  C39.  Nothing secret gets into the status of a proxy.  If Uyuni answers with another archive whose members
  have the same names and the same \<^verbatim>\<open>config.yaml\<close>, the object that is stored after the pass is the same:
  certificates and keys are in the Secret alone.
\<close>

theorem proxy_status_hides_secrets:
  assumes "extractArchive (yw_untar w) (yu_archive w) = Inr files" "extractArchive (yw_untar w) b = Inr files'"
    and "sort (map fst files) = sort (map fst files')" "map_of files ''config.yaml'' = map_of files' ''config.yaml''"
  shows "stored (pass_of (proxy_Reconcile (w\<lparr>yu_archive := b\<rparr>) px)) = stored (pass_of (proxy_Reconcile w px))"
proof -
  let ?w = "w\<lparr>yu_archive := b\<rparr>"
  have kit: "proxy_kit ?w = proxy_kit w" by (simp add: proxy_kit_def kit_of_def)
  have finish: "proxy_finish ?w f = proxy_finish w f" for f by (rule ext, cases f) (simp_all add: proxy_finish_def kit)
  have parent: "parent_server ?w = parent_server w" by (rule ext) (simp add: parent_server_def)
  have fails: "proxy_fail ?w = proxy_fail w" by (intro ext) (simp add: proxy_fail_def kit)
  have same: "similar s s" for s by (simp add: similar_def)
  have recorded: "record_archive ?w h files' s = record_archive w h files s" for h s
    using inline_depends [OF assms(3,4)] assms(3) by (simp add: record_archive_def kit)
  have generate: "similar (pass_of (proxy_generate ?w tls h (proxy_finish ?w f) s)) (pass_of (proxy_generate w tls h (proxy_finish w f) s))"
    for tls h f s
  proof -
    let ?g = "GenerateProxyContainerConfig (config_args (pxy_spec (mem s)) (parent_server w (mem s)) tls)"
    let ?s1 = "try_call (bw_out w) ?g s"
    let ?t = "\<lambda>fs. try_call (bw_out w) (PutSecret (secret_name (mem s)) fs) ?s1"
    have put: "similar (?t files') (?t files)" by (rule similar_steps(3) [OF same])
    have kept: "similar (record_archive w h files (?t files')) (record_archive w h files (?t files))"
      using put by (simp add: record_archive_def set_st_def similar_def)
    show ?thesis
      using finish_similar [OF kept, of w f] proxy_fail_similar [OF put, of w] assms(1,2)
      unfolding proxy_generate_def call_or_eq parent finish fails
      by (simp add: recorded same)
  qed
  have "similar (pass_of (proxy_converge ?w s)) (pass_of (proxy_converge w s))" for s
    using generate by (simp add: proxy_converge_def Let_def parent finish fails kit same split: resolve.split)
  then show ?thesis
    by (simp add: proxy_Reconcile_def Let_def with_finalizer_eq proxy_handleDeletion_def kit fails same similar_def
        split: prod.split bool.split option.split)
qed

section \<open>Witnesses\<close>

definition sample_proxy :: "string \<Rightarrow> proxy" where
  "sample_proxy h = k8s_object.extend (sample_meta ''px'' [proxyFinalizer] False)
     \<lparr>pxy_spec = \<lparr>px_provider_ref = \<lparr>lor_name = ''uyuni''\<rparr>, px_fqdn = ''px.example.com'', px_parent_server = [], px_ssh_port = 8022,
        px_max_cache_mb = 2048, px_email = ''a@b'', px_tls_secret_ref = None\<rparr>,
      pxy_status = \<lparr>pxs_secret_name = [], pxs_files = [], pxs_config = [], pxs_input_hash = h, pxs_generated_at = None,
        pxs_observed_generation = 1, pxs_conditions = []\<rparr>\<rparr>"

text \<open>A world whose hash is the text itself and whose archives are lists of entries.\<close>

definition proxy_demo_world :: "tar_entry list \<Rightarrow> tar_entry list proxy_world" where
  "proxy_demo_world es = \<lparr>bw_ssc = replace_cond, bw_client = None, bw_get_org = (\<lambda>_ _. Inl (GoErr K8sNotFound [])), bw_out = (\<lambda>_. None),
     yw_legacy = [], yw_now = 100, yw_secret = (\<lambda>_ _. Inl (errorf [])), yw_sha = (\<lambda>s. s), yw_untar = Inr,
     yu_server_host = ''uyuni.example.com'', yu_archive = es\<rparr>"

definition demo_archive :: "string \<Rightarrow> tar_entry list" where
  "demo_archive sshkey = [(True, ''config.yaml'', ''server: uyuni''), (True, ''ssh.yaml'', sshkey)]"

lemmas proxy_sample_simps = sample_proxy_def proxy_demo_world_def sample_simps

text \<open>The port was 22 before: the configuration is generated again.\<close>

theorem proxy_regenerates_iff_witness:
  "(let sp0 = (pxy_spec (sample_proxy []))\<lparr>px_ssh_port := 22\<rparr>;
        px = sample_proxy (hash_text sp0 ''uyuni.example.com'' no_tls); w = proxy_demo_world (demo_archive ''k'')
    in generates (pass_of (proxy_Reconcile w px)) \<longleftrightarrow>
      config_args (pxy_spec px) (parent_server w px) no_tls \<noteq> config_args sp0 ''uyuni.example.com'' no_tls \<or>
      obj_annotations px AnnRegenerate \<noteq> None)"
  unfolding Let_def
  by (rule proxy_regenerates_iff)
    (simp_all add: proxy_sample_simps migrateAnnotations_def resolveTLS_def proxyInputHash_def plain_inputs_def nul_free_def
      parent_server_def no_tls_def)

theorem proxy_status_hides_secrets_witness:
  "stored (pass_of (proxy_Reconcile ((proxy_demo_world (demo_archive ''one''))\<lparr>yu_archive := demo_archive ''two''\<rparr>) (sample_proxy []))) =
   stored (pass_of (proxy_Reconcile (proxy_demo_world (demo_archive ''one'')) (sample_proxy [])))"
  by (rule proxy_status_hides_secrets [where files = "[(''ssh.yaml'', ''one''), (''config.yaml'', ''server: uyuni'')]"
      and files' = "[(''ssh.yaml'', ''two''), (''config.yaml'', ''server: uyuni'')]"])
    (simp_all add: proxy_demo_world_def demo_archive_def extractArchive_def put_file_def path_base_def Let_def)

end
