(* ===== verification/Autoinstall_Controller.thy ===== *)
theory Autoinstall_Controller
  imports Cobbler_Controller
begin

text \<open>
  The AutoinstallDistribution and AutoinstallProfile reconcilers
  (\<^verbatim>\<open>autoinstalldistribution_controller.go\<close>, \<^verbatim>\<open>autoinstallprofile_controller.go\<close>): the installation trees and
  kickstart profiles of Uyuni, and profiles that live in Cobbler alone.
\<close>

section \<open>Distributions\<close>

definition dist_kind :: "(distribution, distribution_status) kind_ops" where
  "dist_kind = \<lparr>status_of = dist_status, with_status = \<lambda>st o'. o'\<lparr>dist_status := st\<rparr>\<rparr>"

interpretation dist_status_field: status_field dist_kind
  by unfold_locales (simp_all add: dist_kind_def k8s_object.defs)

record dist_world = base_world +
  vw_get_channel :: "software_channel k8s_get"
  vu_dist :: "go_error + distribution_details"
  vu_created :: "go_error + distribution_details"

datatype dist_call =
    CreateDistribution distribution_details
  | UpdateDistribution string distribution_details
  | DeleteDistribution string

type_synonym dist_pass = "(distribution, dist_call) pass"

type_synonym dist_outcome = "(distribution, dist_call) outcome"

definition dist_kit :: "dist_world \<Rightarrow> (distribution, distribution_status) kit" where
  "dist_kit w = kit_of dist_kind ads_conditions_update w"

definition dist_fail :: "dist_world \<Rightarrow> string \<Rightarrow> go_error \<Rightarrow> dist_pass \<Rightarrow> dist_outcome" where
  "dist_fail w = fail_with (dist_kit w)"

text \<open>The label of a SoftwareChannel that exists in Uyuni.\<close>

definition channel_label :: "software_channel k8s_get \<Rightarrow> string \<Rightarrow> local_object_ref \<Rightarrow> string resolve" where
  "channel_label get ns ref =
     get_or (''SoftwareChannel '' @ go_quote (lor_name ref) @ '' not found'')
       (\<lambda>sc. if scs_label (sc_status sc) = []
          then resolve.Wait (''SoftwareChannel '' @ go_quote (lor_name ref) @ '' not yet realized in Uyuni'')
          else Resolved (scs_label (sc_status sc)))
       (get ns (lor_name ref))"

definition dist_wanted :: "distribution_spec \<Rightarrow> string \<Rightarrow> distribution_details" where
  "dist_wanted sp label =
     \<lparr>dd_id = 0, dd_label = ad_label sp, dd_base_path = ad_base_path sp, dd_channel_label = label,
      dd_install_type = ad_install_type sp, dd_kernel_options = ad_kernel_options sp,
      dd_post_kernel_options = ad_post_kernel_options sp\<rparr>"

definition distributionNeedsUpdate :: "distribution_details \<Rightarrow> distribution \<Rightarrow> string \<Rightarrow> bool" where
  "distributionNeedsUpdate current ad label =
     (dd_base_path current \<noteq> ad_base_path (dist_spec ad) \<or> dd_kernel_options current \<noteq> ad_kernel_options (dist_spec ad) \<or>
      dd_post_kernel_options current \<noteq> ad_post_kernel_options (dist_spec ad) \<or> ads_channel_label (dist_status ad) \<noteq> label)"

definition dist_finish :: "dist_world \<Rightarrow> string \<Rightarrow> distribution_details \<Rightarrow> dist_pass \<Rightarrow> dist_outcome" where
  "dist_finish w label current s =
     save_and (dist_kit w) (result_after (10 * minute))
       (become (dist_kit w) True ''Reconciled'' []
         (set_st (dist_kit w) (\<lambda>st. st\<lparr>ads_uyuni_id := dd_id current, ads_channel_label := label,
            ads_observed_generation := obj_generation (mem s)\<rparr>) s))"

definition dist_update :: "dist_world \<Rightarrow> string \<Rightarrow> distribution_details \<Rightarrow> dist_pass \<Rightarrow> dist_outcome" where
  "dist_update w label current s =
     call_if (distributionNeedsUpdate current (mem s) label) (bw_out w) (dist_fail w ''UpdateFailed'')
       (UpdateDistribution (ad_label (dist_spec (mem s))) (dist_wanted (dist_spec (mem s)) label))
       (dist_finish w label current) s"

definition dist_realize :: "dist_world \<Rightarrow> string \<Rightarrow> dist_pass \<Rightarrow> dist_outcome" where
  "dist_realize w label s =
     (case vu_dist w of
        Inr current \<Rightarrow> dist_update w label current s
      | Inl e \<Rightarrow>
          if is_uyuni_not_found e
          then call_or (bw_out w) (CreateDistribution (dist_wanted (dist_spec (mem s)) label)) (dist_fail w ''CreateFailed'')
            (\<lambda>s1. case vu_created w of
               Inl e' \<Rightarrow> dist_fail w ''GetAfterCreate'' e' s1
             | Inr current \<Rightarrow> dist_update w label current s1) s
          else return_error e s)"

definition dist_Reconcile :: "dist_world \<Rightarrow> distribution \<Rightarrow> dist_outcome" where
  "dist_Reconcile w ad =
     (let s = start_pass ad; k = dist_kit w; sp = dist_spec ad in
      if obj_deleting ad
      then delete_remote k (bw_client w) adFinalizer (ads_uyuni_id (dist_status ad) \<noteq> 0) (DeleteDistribution (ad_label sp)) s
      else begin_pass k w adFinalizer (orgRef (ad_organization_ref sp))
        (\<lambda>s1. with_resolved k ''ResolveChannelFailed'' ''WaitingForChannel''
          (channel_label (vw_get_channel w) (obj_namespace (mem s1)) (ad_channel_ref (dist_spec (mem s1)))) (dist_realize w) s1) s)"

definition distributionsForChannel :: "(go_error + distribution list) \<Rightarrow> string \<Rightarrow> requests" where
  "distributionsForChannel l n =
     (case l of
        Inl _ \<Rightarrow> []
      | Inr xs \<Rightarrow> map (\<lambda>ad. (obj_namespace ad, obj_name ad)) (filter (\<lambda>ad. lor_name (ad_channel_ref (dist_spec ad)) = n) xs))"

section \<open>World of profiles\<close>

definition aprof_kind :: "(autoinstall_profile, autoinstall_profile_status) kind_ops" where
  "aprof_kind = \<lparr>status_of = prof_status, with_status = \<lambda>st o'. o'\<lparr>prof_status := st\<rparr>\<rparr>"

interpretation aprof_status_field: status_field aprof_kind
  by unfold_locales (simp_all add: aprof_kind_def k8s_object.defs)

text \<open>
  \<open>aw_cobbler\<close> is the status of the owned CobblerProfile once it is there, \<open>aw_range\<close> the order in which Go
  ranges over the scripts Uyuni has, \<open>au_script_id\<close> the id of a script that was added.
\<close>

record aprof_world = base_world +
  aw_get_dist :: "distribution k8s_get"
  aw_get_channel :: "software_channel k8s_get"
  aw_secret :: "(string \<rightharpoonup> string) k8s_get"
  aw_sha :: "string \<Rightarrow> string"
  aw_cobbler :: cobbler_profile_status
  aw_range :: "(string \<times> int) list \<Rightarrow> (string \<times> int) list"
  au_profile :: "go_error option"
  au_children :: "go_error + string list"
  au_variables :: "go_error + (string \<times> string) list"
  au_scripts :: "go_error + profile_script list"
  au_script_id :: "string \<Rightarrow> int"

text \<open>\<open>PutCobblerProfile\<close> is \<^verbatim>\<open>controllerutil.CreateOrUpdate\<close>: the mode, the name and the provider it sets.\<close>

datatype aprof_call =
    ImportProfile profile_import_args
  | CreateProfile profile_create_args
  | DeleteProfile string
  | SetProfileUpdateType string string
  | SetProfileCfgPreservation string bool
  | SetProfileChildChannels string "string list"
  | SetProfileVariables string "(string \<times> string) list"
  | AddProfileScript string script_spec
  | RemoveProfileScript string int
  | PutCobblerProfile string string "local_object_ref option"

type_synonym aprof_pass = "(autoinstall_profile, aprof_call) pass"

type_synonym aprof_outcome = "(autoinstall_profile, aprof_call) outcome"

definition aprof_kit :: "aprof_world \<Rightarrow> (autoinstall_profile, autoinstall_profile_status) kit" where
  "aprof_kit w = kit_of aprof_kind aps_conditions_update w"

definition aprof_fail :: "aprof_world \<Rightarrow> string \<Rightarrow> go_error \<Rightarrow> aprof_pass \<Rightarrow> aprof_outcome" where
  "aprof_fail w = fail_with (aprof_kit w)"

section \<open>References of profiles\<close>

definition resolveDistributionLabel :: "aprof_world \<Rightarrow> autoinstall_profile \<Rightarrow> string resolve" where
  "resolveDistributionLabel w ap =
     (case ap_distribution_ref (prof_spec ap) of
        None \<Rightarrow> Broken (errorf ''distributionRef is required in Managed mode; admission should have rejected'')
      | Some r \<Rightarrow>
          get_or (''AutoinstallDistribution '' @ go_quote (lor_name r) @ '' not found'')
            (\<lambda>ad. if ads_uyuni_id (dist_status ad) = 0
               then resolve.Wait (''AutoinstallDistribution '' @ go_quote (lor_name r) @ '' not yet realized in Uyuni'')
               else Resolved (ad_label (dist_spec ad)))
            (aw_get_dist w (obj_namespace ap) (lor_name r)))"

fun child_labels :: "software_channel k8s_get \<Rightarrow> string \<Rightarrow> local_object_ref list \<Rightarrow> string list resolve" where
  "child_labels get ns [] = Resolved []"
| "child_labels get ns (r # rs) =
     then_resolve (channel_label get ns r) (\<lambda>l. then_resolve (child_labels get ns rs) (\<lambda>ls. Resolved (l # ls)))"

definition readSecret :: "aprof_world \<Rightarrow> string \<Rightarrow> string \<Rightarrow> string \<Rightarrow> go_error + string" where
  "readSecret w ns n k =
     (case aw_secret w ns n of
        Inl e \<Rightarrow> Inl (wrap_err (''reading secret '' @ go_quote n @ '': '') e)
      | Inr data \<Rightarrow> (case data k of
          None \<Rightarrow> Inl (errorf (''secret '' @ go_quote n @ '' has no key '' @ go_quote k))
        | Some v \<Rightarrow> Inr v))"

section \<open>The profile in Uyuni\<close>

definition import_args :: "autoinstall_profile_spec \<Rightarrow> string \<Rightarrow> profile_import_args" where
  "import_args sp tree = \<lparr>pri_label = ap_label sp, pri_tree_label = tree, pri_kickstart_host = ap_kickstart_host sp,
     pri_contents = ap_kickstart_contents sp\<rparr>"

definition create_args :: "autoinstall_profile_spec \<Rightarrow> string \<Rightarrow> string \<Rightarrow> profile_create_args" where
  "create_args sp tree root = \<lparr>prc_label = ap_label sp, prc_virtualization_type = ap_virtualization_type sp,
     prc_tree_label = tree, prc_kickstart_host = ap_kickstart_host sp, prc_root_password = root,
     prc_update_type = ap_update_type sp\<rparr>"

definition import_then ::
  "aprof_world \<Rightarrow> string \<Rightarrow> string \<Rightarrow> (aprof_pass \<Rightarrow> aprof_outcome) \<Rightarrow> aprof_pass \<Rightarrow> aprof_outcome" where
  "import_then w reason tree rest s =
     (let sp = prof_spec (mem s) in
      call_or (bw_out w) (ImportProfile (import_args sp tree)) (aprof_fail w reason)
        (\<lambda>s1. rest (set_st (aprof_kit w) (\<lambda>st. st\<lparr>aps_contents_hash := aw_sha w (ap_kickstart_contents sp)\<rparr>) s1)) s)"

definition aprof_ensure ::
  "aprof_world \<Rightarrow> string \<Rightarrow> string \<Rightarrow> (aprof_pass \<Rightarrow> aprof_outcome) \<Rightarrow> aprof_pass \<Rightarrow> aprof_outcome" where
  "aprof_ensure w tree root rest s =
     (let sp = prof_spec (mem s) in
      case au_profile w of
        Some e \<Rightarrow>
          if \<not> is_uyuni_not_found e then return_error e s
          else if ap_kickstart_contents sp \<noteq> [] then import_then w ''ImportFailed'' tree rest s
          else call_or (bw_out w) (CreateProfile (create_args sp tree root)) (aprof_fail w ''CreateFailed'') rest s
      | None \<Rightarrow>
          if ap_kickstart_contents sp \<noteq> [] \<and> aw_sha w (ap_kickstart_contents sp) \<noteq> aps_contents_hash (prof_status (mem s))
          then import_then w ''ReImportFailed'' tree rest s
          else rest s)"

text \<open>The options Uyuni takes one by one; an imported file has its own.\<close>

definition aprof_options :: "aprof_world \<Rightarrow> (aprof_pass \<Rightarrow> aprof_outcome) \<Rightarrow> aprof_pass \<Rightarrow> aprof_outcome" where
  "aprof_options w rest s =
     (let sp = prof_spec (mem s) in
      if ap_kickstart_contents sp \<noteq> [] then rest s
      else call_or (bw_out w) (SetProfileUpdateType (ap_label sp) (ap_update_type sp)) (aprof_fail w ''SetUpdateTypeFailed'')
        (call_or (bw_out w) (SetProfileCfgPreservation (ap_label sp) (ap_preserve_ks_file sp))
          (aprof_fail w ''SetCfgPreservationFailed'') rest) s)"

text \<open>
  \<^verbatim>\<open>reflect.DeepEqual\<close> tells a nil slice from an empty one: what is resolved is nil when there are no
  references, and what Uyuni answers is nil only after an error.
\<close>

definition as_slice :: "string list \<Rightarrow> string list option" where
  "as_slice xs = (if xs = [] then None else Some xs)"

definition aprof_children ::
  "aprof_world \<Rightarrow> string list \<Rightarrow> (aprof_pass \<Rightarrow> aprof_outcome) \<Rightarrow> aprof_pass \<Rightarrow> aprof_outcome" where
  "aprof_children w labels rest s =
     (let current = (case au_children w of Inl _ \<Rightarrow> None | Inr xs \<Rightarrow> Some xs);
          set_them = (\<lambda>s. call_if (current \<noteq> as_slice labels) (bw_out w) (aprof_fail w ''SetChildChannelsFailed'')
            (SetProfileChildChannels (ap_label (prof_spec (mem s))) labels) rest s)
      in case au_children w of
           Inl e \<Rightarrow> if is_uyuni_not_found e then set_them s else return_error e s
         | Inr _ \<Rightarrow> set_them s)"

text \<open>Two maps are the same when they have the same entries; a nil map differs from an empty one, but there are variables.\<close>

definition aprof_variables :: "aprof_world \<Rightarrow> (aprof_pass \<Rightarrow> aprof_outcome) \<Rightarrow> aprof_pass \<Rightarrow> aprof_outcome" where
  "aprof_variables w rest s =
     (let sp = prof_spec (mem s) in
      if ap_kickstart_contents sp \<noteq> [] \<or> ap_variables sp = [] then rest s
      else case au_variables w of
        Inl e \<Rightarrow> return_error e s
      | Inr vars \<Rightarrow>
          call_if (set vars \<noteq> set (ap_variables sp)) (bw_out w) (aprof_fail w ''SetVariablesFailed'')
            (SetProfileVariables (ap_label sp) (ap_variables sp)) rest s)"

section \<open>Scripts on the wire\<close>

text \<open>
  Uyuni has no name for a script: the client (\<^verbatim>\<open>internal/uyuni/client.go\<close>) writes it into a first line of the
  contents and takes it from there.
\<close>

definition scriptNamePrefix :: string where
  "scriptNamePrefix = ''#ks-name:''"

definition encodeScriptName :: "string \<Rightarrow> string \<Rightarrow> string" where
  "encodeScriptName n contents = scriptNamePrefix @ n @ [CHR 0x0A] @ contents"

definition decodeScriptName :: "string \<Rightarrow> string \<times> string" where
  "decodeScriptName encoded =
     (case cut_prefix encoded scriptNamePrefix of
        None \<Rightarrow> ([], encoded)
      | Some after \<Rightarrow>
          let line = takeWhile (\<lambda>c. c \<noteq> CHR 0x0A) after
          in if CHR 0x0A \<in> set after then (line, drop (length line + 1) after) else (after, []))"

record wire_script =
  wsc_id :: int
  wsc_contents :: string
  wsc_interpreter :: string
  wsc_type :: string
  wsc_chroot :: bool
  wsc_template :: bool
  wsc_error_on_fail :: bool

text \<open>The script a request adds, with the id Uyuni gives it, and what the list of scripts is read as.\<close>

definition wire_of_spec :: "int \<Rightarrow> script_spec \<Rightarrow> wire_script" where
  "wire_of_spec i sp =
     \<lparr>wsc_id = i, wsc_contents = encodeScriptName (as_name sp) (as_contents sp), wsc_interpreter = as_interpreter sp,
      wsc_type = as_type sp, wsc_chroot = as_chroot sp, wsc_template = as_template sp, wsc_error_on_fail = as_error_on_fail sp\<rparr>"

definition script_of_wire :: "wire_script \<Rightarrow> profile_script" where
  "script_of_wire ws =
     (case decodeScriptName (wsc_contents ws) of (n, contents) \<Rightarrow>
        \<lparr>psc_id = wsc_id ws, psc_name = n, psc_contents = contents, psc_interpreter = wsc_interpreter ws,
         psc_type = wsc_type ws, psc_chroot = wsc_chroot ws, psc_template = wsc_template ws,
         psc_error_on_fail = wsc_error_on_fail ws\<rparr>)"

section \<open>Scripts\<close>

text \<open>\<open>currentByName\<close>: the id of each named script; of two with one name the later one counts.\<close>

fun scripts_by_name :: "profile_script list \<Rightarrow> (string \<times> int) list \<Rightarrow> (string \<times> int) list" where
  "scripts_by_name [] m = m"
| "scripts_by_name (p # ps) m =
     scripts_by_name ps (if psc_name p = [] then m else (psc_name p, psc_id p) # filter (\<lambda>e. fst e \<noteq> psc_name p) m)"

fun add_scripts ::
  "aprof_world \<Rightarrow> (string \<times> int) list \<Rightarrow> script_spec list \<Rightarrow> script_status list \<Rightarrow> aprof_pass \<Rightarrow>
   (go_error + script_status list) \<times> aprof_pass" where
  "add_scripts w current [] ids s = (Inr ids, s)"
| "add_scripts w current (sp # sps) ids s =
     (case map_of current (as_name sp) of
        Some i \<Rightarrow> add_scripts w current sps (ids @ [\<lparr>ass_name = as_name sp, ass_uyuni_id = i\<rparr>]) s
      | None \<Rightarrow> (case attempt (bw_out w) (Call (AddProfileScript (ap_label (prof_spec (mem s))) sp)) s of
          (Some e, s1) \<Rightarrow> (Inl (wrap_err (''adding script '' @ go_quote (as_name sp) @ '': '') e), s1)
        | (None, s1) \<Rightarrow>
            add_scripts w current sps (ids @ [\<lparr>ass_name = as_name sp, ass_uyuni_id = au_script_id w (as_name sp)\<rparr>]) s1))"

fun remove_scripts ::
  "aprof_world \<Rightarrow> string list \<Rightarrow> (string \<times> int) list \<Rightarrow> aprof_pass \<Rightarrow> go_error option \<times> aprof_pass" where
  "remove_scripts w wanted [] s = (None, s)"
| "remove_scripts w wanted ((n, i) # es) s =
     (if n \<in> set wanted then remove_scripts w wanted es s
      else case attempt (bw_out w) (Call (RemoveProfileScript (ap_label (prof_spec (mem s))) i)) s of
        (Some e, s1) \<Rightarrow> (Some (wrap_err (''removing script '' @ go_quote n @ '' (id '' @ itoa i @ ''): '') e), s1)
      | (None, s1) \<Rightarrow> remove_scripts w wanted es s1)"

definition reconcileScripts :: "aprof_world \<Rightarrow> aprof_pass \<Rightarrow> go_error option \<times> aprof_pass" where
  "reconcileScripts w s =
     (case au_scripts w of
        Inl e \<Rightarrow> (Some e, s)
      | Inr existing \<Rightarrow>
          let current = scripts_by_name existing []; specs = ap_scripts (prof_spec (mem s)) in
          (case add_scripts w current specs [] s of
             (Inl e, s1) \<Rightarrow> (Some e, s1)
           | (Inr ids, s1) \<Rightarrow> (case remove_scripts w (map as_name specs) (aw_range w current) s1 of
               (Some e, s2) \<Rightarrow> (Some e, s2)
             | (None, s2) \<Rightarrow> (None, set_st (aprof_kit w) (\<lambda>st. st\<lparr>aps_script_ids := ids\<rparr>) s2))))"

definition aprof_scripts :: "aprof_world \<Rightarrow> (aprof_pass \<Rightarrow> aprof_outcome) \<Rightarrow> aprof_pass \<Rightarrow> aprof_outcome" where
  "aprof_scripts w rest s =
     (if ap_kickstart_contents (prof_spec (mem s)) \<noteq> [] then rest s
      else case reconcileScripts w s of
        (Some e, s1) \<Rightarrow> aprof_fail w ''ReconcileScriptsFailed'' e s1
      | (None, s1) \<Rightarrow> rest s1)"

section \<open>Reconcile\<close>

definition aprof_finish :: "aprof_world \<Rightarrow> string \<Rightarrow> string list \<Rightarrow> aprof_pass \<Rightarrow> aprof_outcome" where
  "aprof_finish w tree labels s =
     save_and (aprof_kit w) (result_after (10 * minute))
       (become (aprof_kit w) True ''Reconciled'' []
         (set_st (aprof_kit w) (\<lambda>st. st\<lparr>aps_distribution_label := tree, aps_child_channel_labels := labels,
            aps_observed_generation := obj_generation (mem s)\<rparr>) s))"

definition aprof_managed :: "aprof_world \<Rightarrow> string \<Rightarrow> string list \<Rightarrow> aprof_pass \<Rightarrow> aprof_outcome" where
  "aprof_managed w tree labels s =
     (case ap_root_password_secret_ref (prof_spec (mem s)) of
        None \<Rightarrow> aprof_fail w ''CreateFailed''
          (errorf ''rootPasswordSecretRef is required in Managed mode; admission should have rejected'') s
      | Some r \<Rightarrow> (case readSecret w (obj_namespace (mem s)) (skr_name r) (skr_key r) of
          Inl e \<Rightarrow> aprof_fail w ''SecretReadFailed'' e s
        | Inr root \<Rightarrow>
            aprof_ensure w tree root (aprof_options w (aprof_children w labels (aprof_variables w
              (aprof_scripts w (aprof_finish w tree labels))))) s))"

text \<open>A profile that is in Cobbler alone is observed through an owned CobblerProfile.\<close>

definition reconcileExternal :: "aprof_world \<Rightarrow> aprof_pass \<Rightarrow> aprof_outcome" where
  "reconcileExternal w s =
     (let sp = prof_spec (mem s); k = aprof_kit w in
      call_or (bw_out w)
        (PutCobblerProfile CobblerModeImport (ap_label sp)
          (cobblerProviderRefForOrg (bw_get_org w) (obj_namespace (mem s)) (orgRef (ap_organization_ref sp))))
        (aprof_fail w ''ResolveRefs'')
        (\<lambda>s1. let s2 = set_st k (\<lambda>st. st\<lparr>aps_external := True, aps_observed_generation := obj_generation (mem s1)\<rparr>) s1 in
           if \<not> cpfst_found (aw_cobbler w)
           then hold k ''WaitingForProfile'' (''external Cobbler profile '' @ go_quote (ap_label sp) @ '' not present yet'') s2
           else save_and k (result_after (10 * minute))
             (become k True ''Observed'' []
               (set_st k (\<lambda>st. st\<lparr>aps_distribution_label := cpfst_distro_name (aw_cobbler w)\<rparr>) s2))) s)"

definition aprof_converge :: "aprof_world \<Rightarrow> aprof_pass \<Rightarrow> aprof_outcome" where
  "aprof_converge w s =
     (if ap_mode (prof_spec (mem s)) = ''External'' then reconcileExternal w s
      else case bw_client w of
        Some e \<Rightarrow> aprof_fail w ''OrganizationError'' e s
      | None \<Rightarrow>
          with_resolved (aprof_kit w) ''ResolveDistributionFailed'' ''WaitingForDistribution'' (resolveDistributionLabel w (mem s))
            (\<lambda>tree. with_resolved (aprof_kit w) ''ResolveChildChannelsFailed'' ''WaitingForChildChannel''
              (child_labels (aw_get_channel w) (obj_namespace (mem s)) (ap_child_channel_refs (prof_spec (mem s))))
              (aprof_managed w tree)) s)"

definition aprof_Reconcile :: "aprof_world \<Rightarrow> autoinstall_profile \<Rightarrow> aprof_outcome" where
  "aprof_Reconcile w ap =
     (let s = start_pass ap; k = aprof_kit w; sp = prof_spec ap; st = prof_status ap in
      if obj_deleting ap
      then delete_remote k (bw_client w) apFinalizer
        (ap_mode sp \<noteq> ''External'' \<and> (aps_distribution_label st \<noteq> [] \<or> aps_contents_hash st \<noteq> [])) (DeleteProfile (ap_label sp)) s
      else with_finalizer k apFinalizer
        (with_owner k (bw_get_org w) (orgRef (ap_organization_ref sp)) (aprof_converge w)) s)"

definition aprofs_where :: "(autoinstall_profile_spec \<Rightarrow> bool) \<Rightarrow> (go_error + autoinstall_profile list) \<Rightarrow> requests" where
  "aprofs_where P l =
     (case l of Inl _ \<Rightarrow> [] | Inr xs \<Rightarrow> map (\<lambda>ap. (obj_namespace ap, obj_name ap)) (filter (\<lambda>ap. P (prof_spec ap)) xs))"

definition profilesForDistribution :: "(go_error + autoinstall_profile list) \<Rightarrow> string \<Rightarrow> requests" where
  "profilesForDistribution l n = aprofs_where (\<lambda>sp. ap_distribution_ref sp = Some \<lparr>lor_name = n\<rparr>) l"

definition profilesForChannel :: "(go_error + autoinstall_profile list) \<Rightarrow> string \<Rightarrow> requests" where
  "profilesForChannel l n = aprofs_where (\<lambda>sp. \<lparr>lor_name = n\<rparr> \<in> set (ap_child_channel_refs sp)) l"

end
