(* ===== verification/Autoinstall_Facts.thy ===== *)
theory Autoinstall_Facts
  imports Autoinstall_Controller
begin

text \<open>
  Facts about autoinstallation: the names of scripts survive the way to Uyuni and back, the scripts of a
  profile converge to those of its spec, and profiles of Cobbler are only looked at.
\<close>

lemma aprof_kit_simps [simp]:
  "kit_ops (aprof_kit w) = aprof_kind" "kit_out (aprof_kit w) = bw_out w" "kit_ssc (aprof_kit w) = bw_ssc w"
  "kit_conditions (aprof_kit w) = aps_conditions_update"
  by (simp_all add: aprof_kit_def)

lemma aprof_kind_simps [simp]:
  "status_of aprof_kind x = prof_status x" "prof_status (with_status aprof_kind st x) = st"
  "prof_spec (with_status aprof_kind st x) = prof_spec x"
  by (simp_all add: aprof_kind_def)

section \<open>Script names\<close>

lemma decode_encode:
  assumes "CHR 0x0A \<notin> set n"
  shows "decodeScriptName (encodeScriptName n contents) = (n, contents)"
proof -
  have "takeWhile (\<lambda>c. c \<noteq> CHR 0x0A) (n @ CHR 0x0A # contents) = n"
    using assms by (subst takeWhile_append2) auto
  moreover have "cut_prefix (scriptNamePrefix @ r) scriptNamePrefix = Some r" for r
    by (simp add: cut_prefix_def has_prefix_def)
  ultimately show ?thesis by (simp add: decodeScriptName_def encodeScriptName_def Let_def)
qed

lemma wire_of_spec_simps [simp]: "wsc_id (wire_of_spec i sp) = i"
  by (simp add: wire_of_spec_def)

lemma script_of_wire_id [simp]: "psc_id (script_of_wire ws) = wsc_id ws"
  by (simp add: script_of_wire_def split: prod.split)

lemma script_of_added:
  "CHR 0x0A \<notin> set (as_name sp) \<Longrightarrow> psc_name (script_of_wire (wire_of_spec i sp)) = as_name sp"
  by (simp add: script_of_wire_def wire_of_spec_def decode_encode)

section \<open>Convergence of scripts\<close>

text \<open>What the calls of a pass do to the scripts Uyuni has.\<close>

fun script_effect :: "aprof_world \<Rightarrow> aprof_call \<times> bool \<Rightarrow> wire_script list \<Rightarrow> wire_script list" where
  "script_effect w (AddProfileScript l sp, True) ws = ws @ [wire_of_spec (au_script_id w (as_name sp)) sp]"
| "script_effect w (RemoveProfileScript l i, True) ws = filter (\<lambda>x. wsc_id x \<noteq> i) ws"
| "script_effect w _ ws = ws"

definition scripts_after :: "aprof_world \<Rightarrow> (aprof_call \<times> bool) list \<Rightarrow> wire_script list \<Rightarrow> wire_script list" where
  "scripts_after w l ws = fold (script_effect w) l ws"

lemma scripts_after_simps [simp]:
  "scripts_after w [] ws = ws" "scripts_after w (l @ l') ws = scripts_after w l' (scripts_after w l ws)"
  "scripts_after w [c] ws = script_effect w c ws"
  by (simp_all add: scripts_after_def)

abbreviation name_of :: "wire_script \<Rightarrow> string" where
  "name_of ws \<equiv> psc_name (script_of_wire ws)"

lemma add_scripts_after:
  assumes "add_scripts w current sps ids s = (Inr ids', s')" "\<forall>sp \<in> set sps. CHR 0x0A \<notin> set (as_name sp)"
  shows "\<exists>new. scripts_after w (call_log (trace s')) ws = scripts_after w (call_log (trace s)) ws @ new \<and>
    name_of ` set new = {as_name sp | sp. sp \<in> set sps \<and> map_of current (as_name sp) = None} \<and>
    wsc_id ` set new \<subseteq> range (au_script_id w)"
  using assms
proof (induction sps arbitrary: ids s)
  case (Cons sp sps)
  show ?case
  proof (cases "map_of current (as_name sp)")
    case None
    let ?u = "AddProfileScript (ap_label (prof_spec (mem s))) sp"
    have ok: "bw_out w (length (trace s)) = None"
      using Cons.prems(1) None by (auto simp: attempt_def Let_def split: option.splits)
    obtain ids1 where "add_scripts w current sps ids1 (try_call (bw_out w) ?u s) = (Inr ids', s')"
      using Cons.prems(1) None ok by (simp add: attempt_def try_call_def Let_def)
    from Cons.IH [OF this] Cons.prems(2) obtain new where
      new: "scripts_after w (call_log (trace s')) ws =
          scripts_after w (call_log (trace s)) ws @ wire_of_spec (au_script_id w (as_name sp)) sp # new"
        "name_of ` set new = {as_name sp | sp. sp \<in> set sps \<and> map_of current (as_name sp) = None}"
        "wsc_id ` set new \<subseteq> range (au_script_id w)"
      using ok by auto
    have "name_of (wire_of_spec (au_script_id w (as_name sp)) sp) = as_name sp"
      by (rule script_of_added) (use Cons.prems(2) in simp)
    then show ?thesis using new None
      by (intro exI [of _ "wire_of_spec (au_script_id w (as_name sp)) sp # new"]) auto
  next
    case (Some i)
    then have "{as_name x | x. x \<in> set (sp # sps) \<and> map_of current (as_name x) = None} =
        {as_name x | x. x \<in> set sps \<and> map_of current (as_name x) = None}" by auto
    then show ?thesis using Cons Some by simp
  qed
qed auto

lemma remove_scripts_after:
  assumes "remove_scripts w wanted es s = (None, s')"
  shows "scripts_after w (call_log (trace s')) ws =
    filter (\<lambda>x. \<forall>(n, i) \<in> set es. n \<notin> set wanted \<longrightarrow> wsc_id x \<noteq> i) (scripts_after w (call_log (trace s)) ws)"
  using assms
proof (induction es arbitrary: s)
  case (Cons e es)
  obtain n i where e: "e = (n, i)" by fastforce
  show ?case
  proof (cases "n \<in> set wanted")
    case True
    then show ?thesis using Cons e by simp
  next
    case False
    let ?u = "RemoveProfileScript (ap_label (prof_spec (mem s))) i"
    have ok: "bw_out w (length (trace s)) = None"
      using Cons.prems e False by (auto simp: attempt_def Let_def split: option.splits)
    have "remove_scripts w wanted es (try_call (bw_out w) ?u s) = (None, s')"
      using Cons.prems e False ok by (simp add: attempt_def try_call_def Let_def)
    from Cons.IH [OF this] show ?thesis using ok e False by (auto intro!: filter_cong)
  qed
qed simp

lemma scripts_by_name_mem:
  "distinct (map psc_name (filter (\<lambda>p. psc_name p \<noteq> []) ps)) \<Longrightarrow>
   (\<forall>p \<in> set ps. psc_name p \<noteq> [] \<longrightarrow> psc_name p \<notin> fst ` set m) \<Longrightarrow>
   set (scripts_by_name ps m) = set m \<union> {(psc_name p, psc_id p) | p. p \<in> set ps \<and> psc_name p \<noteq> []}"
proof (induction ps arbitrary: m)
  case (Cons p ps)
  show ?case
  proof (cases "psc_name p = []")
    case True
    then show ?thesis using Cons by auto
  next
    case False
    then have "psc_name p \<notin> fst ` set m" using Cons.prems(2) by simp
    then have "filter (\<lambda>e. fst e \<noteq> psc_name p) m = m" by (induction m) auto
    moreover have "set (scripts_by_name ps ((psc_name p, psc_id p) # m)) =
        set ((psc_name p, psc_id p) # m) \<union> {(psc_name p, psc_id p) | p. p \<in> set ps \<and> psc_name p \<noteq> []}"
    proof (rule Cons.IH)
      have "psc_name p \<notin> psc_name ` set (filter (\<lambda>p. psc_name p \<noteq> []) ps)" using Cons.prems(1) False by simp
      then show "\<forall>q \<in> set ps. psc_name q \<noteq> [] \<longrightarrow> psc_name q \<notin> fst ` set ((psc_name p, psc_id p) # m)"
        using Cons.prems(2) by (auto simp: image_iff)
    qed (use Cons.prems(1) False in simp)
    ultimately show ?thesis using False by auto
  qed
qed simp

lemma scripts_by_name_known: "n \<noteq> [] \<Longrightarrow> map_of (scripts_by_name ps m) n \<noteq> None \<longleftrightarrow> n \<in> psc_name ` set ps \<or> map_of m n \<noteq> None"
proof (induction ps arbitrary: m)
  case (Cons p ps)
  have "map_of (filter (\<lambda>e. fst e \<noteq> k) m) n = (if n = k then None else map_of m n)" for k
    by (induction m) auto
  with Cons show ?case by auto
qed simp

text \<open>The ids that the removal goes for are those of the known scripts under names the spec does not have.\<close>

lemma unwanted_scripts_removed:
  assumes "distinct (map wsc_id ws)" "distinct (map name_of (filter (\<lambda>x. name_of x \<noteq> []) ws))"
    and "wsc_id ` set new \<inter> wsc_id ` set ws = {}"
  shows "filter (\<lambda>x. \<forall>(n, i) \<in> set (scripts_by_name (map script_of_wire ws) []). n \<notin> W \<longrightarrow> wsc_id x \<noteq> i) (ws @ new) =
    filter (\<lambda>x. name_of x = [] \<or> name_of x \<in> W) ws @ new"
proof -
  let ?c = "scripts_by_name (map script_of_wire ws) []"
  let ?keep = "\<lambda>x. \<forall>(n, i) \<in> set ?c. n \<notin> W \<longrightarrow> wsc_id x \<noteq> i"
  have "filter (\<lambda>p. psc_name p \<noteq> []) (map script_of_wire ws) = map script_of_wire (filter (\<lambda>x. name_of x \<noteq> []) ws)"
    by (simp add: filter_map comp_def)
  then have current: "set ?c = {(name_of x, wsc_id x) | x. x \<in> set ws \<and> name_of x \<noteq> []}"
    using scripts_by_name_mem [of "map script_of_wire ws" "[]"] assms(2) by (auto simp: comp_def)
  have id_eq: "x = y" if "x \<in> set ws" "y \<in> set ws" "wsc_id x = wsc_id y" for x y
    using assms(1) that by (metis distinct_map inj_onD)
  have old: "?keep x \<longleftrightarrow> name_of x = [] \<or> name_of x \<in> W" if "x \<in> set ws" for x
  proof (cases "name_of x = []")
    case True
    then show ?thesis using id_eq [OF that] unfolding current by force
  next
    case False
    then have "(name_of x, wsc_id x) \<in> set ?c" using that unfolding current by blast
    moreover have "n = name_of x" if "(n, wsc_id x) \<in> set ?c" for n
      using that id_eq [OF \<open>x \<in> set ws\<close>] unfolding current by force
    ultimately show ?thesis using False by blast
  qed
  have fresh: "?keep x" if "x \<in> set new" for x
    using that assms(3) unfolding current by fastforce
  have "filter ?keep ws = filter (\<lambda>x. name_of x = [] \<or> name_of x \<in> W) ws"
    using old by (intro filter_cong) simp_all
  moreover have "filter ?keep new = new" using fresh by (simp add: filter_id_conv)
  ultimately show ?thesis by (simp only: filter_append)
qed


text \<open>A profile without child channels has them set in every pass: a nil slice is not \<^verbatim>\<open>DeepEqual\<close> to an empty one.\<close>

lemma empty_children_always_sent:
  "au_children w = Inr [] \<Longrightarrow> aprof_children w [] rest s =
     call_or (bw_out w) (SetProfileChildChannels (ap_label (prof_spec (mem s))) []) (aprof_fail w ''SetChildChannelsFailed'') rest s"
  by (simp add: aprof_children_def as_slice_def call_if_def)

section \<open>Profiles of Cobbler\<close>

definition observing :: "autoinstall_profile_spec \<Rightarrow> aprof_call \<Rightarrow> bool" where
  "observing sp u = (\<exists>r. u = PutCobblerProfile CobblerModeImport (ap_label sp) r)"

definition external_pass :: "autoinstall_profile_spec \<Rightarrow> aprof_pass \<Rightarrow> bool" where
  "external_pass sp s = (prof_spec (mem s) = sp \<and> (\<forall>(u, ok) \<in> set (call_log (trace s)). observing sp u))"

lemma external_rule: "pass_rule (aprof_kit w) (external_pass sp) (\<lambda>_. True) (observing sp)"
proof -
  have "steady (kit_ops (aprof_kit w)) (\<lambda>x. prof_spec x = sp)" by (simp add: steady_def)
  then show ?thesis
    using steady_rule [of "aprof_kit w" "\<lambda>x. prof_spec x = sp" "\<lambda>l. \<forall>(u, ok) \<in> set l. observing sp u" "observing sp"]
    by (simp add: external_pass_def [abs_def])
qed

interpretation external: pass_rule "aprof_kit w" "external_pass sp" "\<lambda>_. True" "observing sp" for w sp
  by (rule external_rule)

text \<open>
  C40.  A profile in External mode is only looked at: no pass on it, the deletion included, makes a call to the
  kickstart API of Uyuni; all it does is to keep the CobblerProfile it owns.
\<close>

theorem external_profiles_untouched:
  assumes "ap_mode (prof_spec ap) = ''External''" "(u, ok) \<in> set (call_log (trace (pass_of (aprof_Reconcile w ap))))"
  shows "\<exists>r. u = PutCobblerProfile CobblerModeImport (ap_label (prof_spec ap)) r"
proof -
  let ?sp = "prof_spec ap"
  have start: "external_pass ?sp (start_pass ap)" by (simp add: external_pass_def)
  have converge: "external_pass ?sp (pass_of (aprof_converge w s))" if "external_pass ?sp s" for s
  proof -
    have mode: "ap_mode (prof_spec (mem s)) = ''External''" and label: "ap_label (prof_spec (mem s)) = ap_label ?sp"
      using that assms(1) by (simp_all add: external_pass_def)
    have "external_pass ?sp (pass_of (reconcileExternal w s))"
      unfolding reconcileExternal_def Let_def label aprof_kit_simps(2) [of w, symmetric]
      by (rule external.call_or_I [OF that])
        (auto simp: observing_def aprof_fail_def intro!: external.fail_I external.refuse_I external.save_and_I external.become_I external.set_status)
    then show ?thesis using mode by (simp add: aprof_converge_def)
  qed
  have "external_pass ?sp (pass_of (with_finalizer (aprof_kit w) apFinalizer
      (with_owner (aprof_kit w) (bw_get_org w) n (aprof_converge w)) (start_pass ap)))" for n
    using converge by (intro external.with_finalizer_I [OF start] external.with_owner_I)
  moreover have "external_pass ?sp (pass_of (delete_remote (aprof_kit w) c apFinalizer False d (start_pass ap)))" for c d
    by (rule external.delete_remote_I [OF start]) simp
  ultimately have "external_pass ?sp (pass_of (aprof_Reconcile w ap))"
    using assms(1) by (simp add: aprof_Reconcile_def Let_def)
  then show ?thesis using assms(2) by (auto simp: external_pass_def observing_def)
qed

section \<open>Witnesses\<close>

definition sample_profile :: "string \<Rightarrow> script_spec list \<Rightarrow> autoinstall_profile" where
  "sample_profile mode scripts = k8s_object.extend (sample_meta ''ap'' [apFinalizer] False)
     \<lparr>prof_spec = \<lparr>ap_label = ''ks'', ap_mode = mode, ap_distribution_ref = None, ap_root_password_secret_ref = None,
        ap_virtualization_type = ''none'', ap_kickstart_host = [], ap_child_channel_refs = [], ap_variables = [],
        ap_scripts = scripts, ap_update_type = ''none'', ap_preserve_ks_file = False, ap_kickstart_contents = [],
        ap_organization_ref = None\<rparr>,
      prof_status = \<lparr>aps_conditions = [], aps_observed_generation = 1, aps_script_ids = [], aps_child_channel_labels = [],
        aps_distribution_label = [], aps_external = False, aps_contents_hash = []\<rparr>\<rparr>"

definition sample_script :: "string \<Rightarrow> script_spec" where
  "sample_script n = \<lparr>as_name = n, as_contents = ''echo'', as_interpreter = ''/bin/sh'', as_type = ''post'', as_chroot = True,
     as_template = False, as_error_on_fail = False\<rparr>"

definition aprof_demo_world :: "wire_script list \<Rightarrow> aprof_world" where
  "aprof_demo_world ws = \<lparr>bw_ssc = replace_cond, bw_client = None, bw_get_org = (\<lambda>_ _. Inl (GoErr K8sNotFound [])), bw_out = (\<lambda>_. None),
     aw_get_dist = (\<lambda>_ _. Inl (errorf [])), aw_get_channel = (\<lambda>_ _. Inl (errorf [])), aw_secret = (\<lambda>_ _. Inl (errorf [])),
     aw_sha = (\<lambda>s. s), aw_cobbler = \<lparr>cpfst_cobbler_id = [], cpfst_found = True, cpfst_distro_name = ''d'',
       cpfst_observed_generation = 1, cpfst_conditions = []\<rparr>,
     aw_range = (\<lambda>m. m), au_profile = None, au_children = Inr [], au_variables = Inr [],
     au_scripts = Inr (map script_of_wire ws), au_script_id = (\<lambda>_. 10)\<rparr>"

text \<open>Uyuni has the scripts \<open>a\<close> and \<open>b\<close> and one a user wrote; the spec has \<open>b\<close> and \<open>c\<close>.\<close>

definition demo_scripts :: "wire_script list" where
  "demo_scripts = [wire_of_spec 1 (sample_script ''a''), wire_of_spec 2 (sample_script ''b''),
     (wire_of_spec 3 (sample_script ''u''))\<lparr>wsc_contents := ''ls''\<rparr>]"


theorem external_profiles_untouched_witness:
  "\<exists>r. PutCobblerProfile ''import'' ''ks'' None = PutCobblerProfile CobblerModeImport (ap_label (prof_spec (sample_profile ''External'' []))) r"
proof (rule external_profiles_untouched [of "sample_profile ''External'' []" _ True "aprof_demo_world []"])
  show "ap_mode (prof_spec (sample_profile ''External'' [])) = ''External''" by code_simp
  show "(PutCobblerProfile ''import'' ''ks'' None, True) \<in>
      set (call_log (trace (pass_of (aprof_Reconcile (aprof_demo_world []) (sample_profile ''External'' [])))))"
    by code_simp
qed

end
