(* ===== verification/Spec2Isabelle.thy ===== *)
theory Spec2Isabelle
  imports Env_Chain Webhooks_Projects Webhooks_Systems Sets_Ownership
    Promotion_Controller Task_Controller Project_Controller Channel_Resolve
    Rpm_Header Cobbler_Xmlrpc Environment_Controller Formula_Values
    Provider_Controller Organization_Controller System_Facts Group_Facts Key_Facts Cleanup_Controller Repository_Controller ConfigChannel_Facts SoftwareChannel_Facts
    Maintenance_Facts Cobbler_Controller_Facts Webhooks_Content Image_Profile_Facts Proxy_Facts Autoinstall_Facts
begin

text \<open>
  A model of uyuni-operator, a Kubernetes operator that manages what is inside a Uyuni server: software
  channels, activation keys, systems and groups, content lifecycle projects and their promotions,
  maintenance windows, tasks, image builds, autoinstallation and proxies.  The development covers the Go
  code under \<^verbatim>\<open>api\<close> and \<^verbatim>\<open>internal\<close> that decides something; paths below are relative to
  \<^verbatim>\<open>src/\<close>.

  The program.  A user writes a custom resource (\<^verbatim>\<open>api/v1alpha1\<close>).  The API server asks the
  admission webhook of its kind (\<^verbatim>\<open>internal/webhook\<close>, which calls \<^verbatim>\<open>internal/validation\<close>) whether the object
  is acceptable.  Then the reconciler of its kind (\<^verbatim>\<open>internal/controller\<close>) is called, again and again: it
  reads the object and others from the cache, gets an API client from the pool (\<^verbatim>\<open>internal/pool\<close>), compares
  what Uyuni or Cobbler has with the spec, makes calls (\<^verbatim>\<open>internal/uyuni\<close>, \<^verbatim>\<open>internal/cobbler\<close>), writes
  the status, and says when it wants to run again.  Any call and any write may fail; the pass then ends, and
  the next one starts from what is stored.  Two readers take input from outside: RPM headers
  (\<^verbatim>\<open>internal/rpm\<close>) and XMLRPC responses (\<^verbatim>\<open>internal/cobbler\<close>).

  Conventions.
  \<^item> Structs are records, one field for each field; a pointer is an option, a Go \<^verbatim>\<open>int\<close> an integer, a
    string a list of bytes.  A Go map in an object is an association list with distinct keys or a function
    to options; where the code ranges over a map, the order is a parameter of the world.
  \<^item> A pass works on a copy in memory (\<open>mem\<close>) beside the stored object (\<open>stored\<close>) and leaves a trace of
    the calls and writes it made, each with whether it went through (\<open>Reconcile\<close>).  The world of a pass
    holds what its reads return, and \<open>out\<close> gives the error of its n-th effect; theorems quantify over it.
    \<^verbatim>\<open>Update\<close> and \<^verbatim>\<open>Patch\<close> read the answer of the API server back into the object, the status included:
    \<open>write_object\<close> puts the stored status into memory; where the code then uses fields that are empty on
    the server, and so left alone by the decoder, \<open>refresh\<close> keeps them (\<open>Pass_Steps\<close>).
  \<^item> Errors are values with a kind that wrapping keeps; a pass returns its result, an optional error and
    the pass.  Go panics are values too, where an index may be out of range.
  \<^item> Durations wrap around at 64 bits (\<open>Go_Time\<close>); bytes and the words of RPM headers are machine words.
  \<^item> What comes from packages outside the repository is a parameter with named hypotheses: git, gzip and
    tar, SHA-256, JSON, YAML and JSONPath, the URL parser, XML tokens and escapes, HTTP, sorting,
    \<^verbatim>\<open>SetControllerReference\<close>.
  \<^item> Where a theorem speaks of the state of Uyuni after a pass (the members of a group, an activation key,
    the sources of a project, the files of a configuration channel), a function of the call log gives the
    documented effect of the calls that went through; it is part of the statement and no model of code.

  Foundations.  \<open>Go_Prelude\<close> and \<open>Go_Time\<close> (library routines), \<open>K8s_Objects\<close> (metadata, finalizers, conditions
  and annotations: \<^verbatim>\<open>finalizers.go\<close>, \<^verbatim>\<open>conditions.go\<close>, \<^verbatim>\<open>annotations.go\<close>, \<^verbatim>\<open>constants.go\<close>), \<open>Api_Projects\<close>,
  \<open>Api_Systems\<close>, \<open>Api_Content\<close> (the resources), \<open>Uyuni_Types\<close>, \<open>Uyuni_Wire\<close> (\<^verbatim>\<open>internal/uyuni/types.go\<close>),
  \<open>Sets_Ownership\<close> (\<^verbatim>\<open>sets.go\<close>, \<^verbatim>\<open>ownership.go\<close>), \<open>Reconcile\<close>, \<open>Pass_Steps\<close>, \<open>Kind_Steps\<close>, \<open>Kind_Facts\<close> (what
  the reconcilers have in common).  The locale \<open>status_field\<close> states the laws of the status of a kind and is
  interpreted for every kind.  \<open>Pass_Rules\<close> has the locale \<open>pass_rule\<close>: an invariant that the five primitive
  steps keep is kept by all steps built from them; the facts about passes come from its interpretations.
  \<open>Samples\<close> has small objects for witnesses.

  Admission.  \<open>Validation\<close>, \<open>Env_Chain\<close> (\<^verbatim>\<open>internal/validation\<close>), \<open>Admission\<close> (the locales
  \<open>immutable_field\<close> and \<open>frozen_field\<close>, interpreted for each webhook that has such fields),
  \<open>Webhooks_Projects\<close>, \<open>Webhooks_Systems\<close>, \<open>Webhooks_Content\<close> (\<^verbatim>\<open>internal/webhook\<close>).  The lemmas say exactly
  which objects and which updates are accepted, that the walk along the chain of environments ends on each
  accepted straight chain, and that webhooks keep a cluster at one default provider.

  Content lifecycle.  \<open>Project_Controller\<close> (\<^verbatim>\<open>contentproject_controller.go\<close>: sources, filters, environments,
  builds, deletion), \<open>Environment_Controller\<close> (\<^verbatim>\<open>clmenvironment_controller.go\<close>), \<open>Promotion_Controller\<close>
  (\<^verbatim>\<open>contentprojectpromotion_controller.go\<close>), \<open>Channel_Resolve\<close> (\<^verbatim>\<open>channelresolve.go\<close>).  A step relation runs
  passes with user edits and restarts between them; its invariants bound the promotion requests and say
  what a finished promotion may still do.

  Channels and content.  \<open>SoftwareChannel_Controller\<close>, \<open>SoftwareChannel_Facts\<close>
  (\<^verbatim>\<open>softwarechannel_controller.go\<close>), \<open>Repository_Controller\<close> (\<^verbatim>\<open>repository_controller.go\<close>,
  \<^verbatim>\<open>urlcheck.go\<close>, \<^verbatim>\<open>custominfokey_controller.go\<close>), \<open>Git_Source\<close>, \<open>ConfigChannel_Controller\<close>,
  \<open>ConfigChannel_Facts\<close> (\<^verbatim>\<open>configurationchannel_controller.go\<close>), \<open>Cleanup_Controller\<close>
  (\<^verbatim>\<open>packagecleanup_controller.go\<close>), \<open>Rpm_Header\<close> (\<^verbatim>\<open>internal/rpm/header.go\<close>).  The RPM reader is shown not
  to panic on any input and to read back what a package file carries.

  Systems.  \<open>System_Resolve\<close>, \<open>System_Controller\<close>, \<open>System_Facts\<close> (\<^verbatim>\<open>system_controller.go\<close>), \<open>Group_Controller\<close>,
  \<open>Group_Facts\<close> (\<^verbatim>\<open>systemgroup_controller.go\<close>), \<open>Key_Controller\<close>, \<open>Key_Facts\<close> (\<^verbatim>\<open>activationkey_controller.go\<close>),
  \<open>Formula_Values\<close> (\<^verbatim>\<open>formula_values.go\<close>), \<open>Maintenance_Controller\<close>, \<open>Maintenance_Facts\<close> (the two maintenance
  kinds), \<open>Task_Controller\<close> (\<^verbatim>\<open>task_controller.go\<close>).  The lemmas say which system in Uyuni a pass touches,
  when it deletes, and that groups, keys, schedules and formulas end in the state the spec names.

  Access.  \<open>Client_Pool\<close> (\<^verbatim>\<open>internal/pool/pool.go\<close>; the pool is shown to answer as an empty one does, as
  long as the cluster is quiet), \<open>Provider_Controller\<close> (\<^verbatim>\<open>uyuniprovider_controller.go\<close>; locale
  \<open>evicting_cache\<close>), \<open>Organization_Controller\<close> (\<^verbatim>\<open>organization_controller.go\<close>).

  Provisioning.  \<open>Cobbler_Xmlrpc\<close> (\<^verbatim>\<open>internal/cobbler/xmlrpc.go\<close>), \<open>Cobbler_Client\<close>, \<open>Cobbler_Client_Facts\<close>
  (\<^verbatim>\<open>internal/cobbler/client.go\<close>), \<open>Cobbler_Controller\<close>, \<open>Cobbler_Controller_Facts\<close> (\<^verbatim>\<open>cobbler_controller.go\<close>;
  the calls of a pass are replayed on the session of the client, so that its facts speak of requests),
  \<open>Autoinstall_Controller\<close>, \<open>Autoinstall_Facts\<close> (the two autoinstallation kinds, with the script names of
  \<^verbatim>\<open>internal/uyuni/client.go\<close>), \<open>Image_Build_Controller\<close>, \<open>Image_Build_Facts\<close>, \<open>Image_Profile_Controller\<close>,
  \<open>Image_Profile_Facts\<close> (the three image kinds), \<open>Proxy_Controller\<close>, \<open>Proxy_Facts\<close> (\<^verbatim>\<open>proxy_controller.go\<close>).

  Bounds and fuel.  The XMLRPC decoder goes on with what each reader leaves of the tokens: its fuel counts
  tokens, and \<open>decode_enough_fuel\<close> shows that it never runs out.  The walk of \<^verbatim>\<open>ChainOrder\<close> is
  a partial function whose result is \<open>None\<close> when it does not return; it is shown to return on what the
  webhook accepts, if no two environments have one predecessor.  Offsets in an RPM header are sums of a few
  32-bit numbers, below \<open>2 ^ 40\<close>, so the naturals of the model agree with the 64-bit integers of the code.
  All else is structural recursion or has a measure.

  Lemmas beside the main theorems show where the code falls short of its comments; among them are a rebuild
  request that gets lost, clients that outlive an edit of their provider, a build status that never leaves
  \<open>Idle\<close>, and a cleanup that is stuck behind packages it has to keep.

  Not modelled: \<^verbatim>\<open>zz_generated.deepcopy.go\<close> (generated; values are copied here by construction),
  \<^verbatim>\<open>cmd/main.go\<close> (flags and registration), \<^verbatim>\<open>internal/git/git.go\<close> (calls of a git library), most of
  \<^verbatim>\<open>internal/uyuni/client.go\<close> (one HTTP request with JSON for each call: the reconcilers see calls with
  outcomes), log output, events, and the locks of the
  pool (each operation on it is one step).
\<close>

end
